(* ===== verification/Prelude.thy ===== *)
theory Prelude
  imports Main "HOL-Library.Word" "HOL-Library.Multiset"
begin

section \<open>Rust integers and the shared proof collections\<close>

text \<open>
  The generic layer of the development: the machine integers of the Rust code as words of
  their width, the standard library's saturating and wrapping operations on them with their
  readings through \<open>unat\<close>, the sums over words that \<open>Iterator::sum\<close> computes, and the
  collections of facts (\<open>cluster_simps\<close>, \<open>wf_intros\<close>) that the component theories fill.
  Arithmetic written with a plain operator wraps, as it does in the release build that the
  repository ships.
\<close>

named_theorems cluster_simps \<open>characteristic equations of the cluster operations\<close>
named_theorems wf_intros \<open>preservation of the well-formedness invariants\<close>

type_synonym u8 = "8 word"
type_synonym u16 = "16 word"
type_synonym u32 = "32 word"
type_synonym u64 = "64 word"
type_synonym usize = "64 word"

text \<open>A \<open>Uuid\<close> is ordered by its 16 bytes, that is, as a big-endian 128-bit number.\<close>

type_synonym uuid = "128 word"

subsection \<open>Saturating arithmetic\<close>

definition saturating_add :: "'a::len word \<Rightarrow> 'a word \<Rightarrow> 'a word" where
  "saturating_add x y = (if unat x + unat y < 2 ^ LENGTH('a) then x + y else - 1)"

definition saturating_sub :: "'a::len word \<Rightarrow> 'a word \<Rightarrow> 'a word" where
  "saturating_sub x y = (if y \<le> x then x - y else 0)"

definition saturating_mul :: "'a::len word \<Rightarrow> 'a word \<Rightarrow> 'a word" where
  "saturating_mul x y = (if unat x * unat y < 2 ^ LENGTH('a) then x * y else - 1)"

lemma unat_max_word: "unat (- 1 :: 'a::len word) = 2 ^ LENGTH('a) - 1"
  by (simp add: unsigned_minus_1_eq_mask mask_eq_exp_minus_1)

lemma unat_saturating_add:
  "unat (saturating_add x (y :: 'a::len word)) = min (unat x + unat y) (2 ^ LENGTH('a) - 1)"
  by (auto simp: saturating_add_def unat_max_word unat_word_ariths)

lemma unat_saturating_sub: "unat (saturating_sub x y) = unat x - unat y"
  by (auto simp: saturating_sub_def unat_sub word_le_nat_alt)

lemma unat_saturating_mul:
  "unat (saturating_mul x (y :: 'a::len word)) = min (unat x * unat y) (2 ^ LENGTH('a) - 1)"
  by (auto simp: saturating_mul_def unat_max_word unat_word_ariths)

lemmas unat_saturating = unat_saturating_add unat_saturating_sub unat_saturating_mul

lemma saturating_add_sub_cancel:
  fixes x y :: "'a::len word"
  assumes "unat x + unat y < 2 ^ LENGTH('a)"
  shows "saturating_sub (saturating_add x y) y = x"
  by (rule word_unat_eq_iff [THEN iffD2]) (use assms in \<open>simp add: unat_saturating\<close>)

lemma saturating_sub_add_cancel:
  assumes "y \<le> x"
  shows "saturating_add (saturating_sub x y) y = x"
  using assms by (simp add: saturating_add_def saturating_sub_def unat_sub word_le_nat_alt)

subsection \<open>Plain addition below the limit, sums and casts\<close>

lemma unat_add_no_wrap:
  fixes x y :: "'a::len word"
  assumes "unat x + unat y < 2 ^ LENGTH('a)"
  shows "unat (x + y) = unat x + unat y"
  using assms by (simp add: unat_word_ariths)

lemma unat_Suc_no_wrap:
  fixes x y :: "'a::len word"
  assumes "x < y"
  shows "unat (x + 1) = Suc (unat x)"
proof -
  have "unat x < unat y" using assms by (simp add: word_less_nat_alt)
  then have "Suc (unat x) < 2 ^ LENGTH('a)"
    using unsigned_less [of y, where 'a = nat] by linarith
  then show ?thesis by (simp add: unat_word_ariths)
qed

lemma unat_pred:
  fixes x :: "'a::len word"
  assumes "x \<noteq> 0"
  shows "unat (x - 1) = unat x - 1"
  using assms by (simp add: unat_minus_one)

text \<open>\<open>Iterator::sum\<close> at type \<open>u32\<close> in a release build: the sum modulo the width.\<close>

lemma sum_list_word_of_nat:
  "sum_list (map f xs) = (word_of_nat (sum_list (map (\<lambda>x. unat (f x)) xs)) :: 'a::len word)"
  by (induction xs) simp_all

lemma unat_sum_list:
  fixes f :: "'b \<Rightarrow> 'a::len word"
  assumes "sum_list (map (\<lambda>x. unat (f x)) xs) < 2 ^ LENGTH('a)"
  shows "unat (sum_list (map f xs)) = sum_list (map (\<lambda>x. unat (f x)) xs)"
  using assms by (simp add: sum_list_word_of_nat unat_of_nat)

subsection \<open>Lists\<close>

lemma takeWhile_all_or_hd:
  "xs \<noteq> [] \<Longrightarrow> P (hd xs) \<Longrightarrow> takeWhile P xs \<noteq> []"
  by (cases xs) auto

lemma sum_list_map_mono_nat:
  "(\<And>x. x \<in> set xs \<Longrightarrow> f x \<le> (g x :: nat)) \<Longrightarrow> sum_list (map f xs) \<le> sum_list (map g xs)"
  by (rule sum_list_mono)

lemma length_filter_le_mono:
  "(\<And>x. x \<in> set xs \<Longrightarrow> P x \<Longrightarrow> Q x) \<Longrightarrow> length (filter P xs) \<le> length (filter Q xs)"
  by (induction xs) auto

text \<open>What does not depend on the order of a list.\<close>

lemma sort_perm: "mset xs = mset ys \<Longrightarrow> sort xs = sort ys"
  by (rule properties_for_sort) simp_all

lemma sum_list_cong_mset:
  fixes f :: "'a \<Rightarrow> 'b::comm_monoid_add"
  assumes "mset xs = mset ys"
  shows "sum_list (map f xs) = sum_list (map f ys)"
  using assms by (metis mset_map sum_mset_sum_list)

end
