(* ===== verification/Hash_Map.thy ===== *)
theory Hash_Map
  imports Prelude "HOL-Library.AList"
begin

section \<open>HashMap: entries in an unspecified order\<close>

text \<open>
  The contract of Rust's \<open>HashMap\<close> as the code uses it, as a locale: lookup, insertion and
  removal by key, and an iteration that visits every entry once in an order the contract
  leaves open. Lemmas proved in the locale hold for every iteration order. The model's maps
  are association lists: the list order is the iteration order of one run, and theorems
  quantify over all lists, hence over all orders.
\<close>

type_synonym ('k, 'v) hashmap = "('k \<times> 'v) list"

definition hm_get :: "('k, 'v) hashmap \<Rightarrow> 'k \<Rightarrow> 'v option" where
  "hm_get m k = map_of m k"

definition hm_insert :: "'k \<Rightarrow> 'v \<Rightarrow> ('k, 'v) hashmap \<Rightarrow> ('k, 'v) hashmap" where
  "hm_insert k v m = AList.update k v m"

definition hm_remove :: "'k \<Rightarrow> ('k, 'v) hashmap \<Rightarrow> ('k, 'v) hashmap" where
  "hm_remove k m = AList.delete k m"

definition hm_values :: "('k, 'v) hashmap \<Rightarrow> 'v list" where
  "hm_values m = map snd m"

definition hm_keys :: "('k, 'v) hashmap \<Rightarrow> 'k list" where
  "hm_keys m = map fst m"

text \<open>\<open>values_mut\<close> with a pure update of every value; \<open>get_mut\<close> is lookup then insert.\<close>

definition hm_map_values :: "('v \<Rightarrow> 'v) \<Rightarrow> ('k, 'v) hashmap \<Rightarrow> ('k, 'v) hashmap" where
  "hm_map_values f m = map (\<lambda>(k, v). (k, f v)) m"

definition hm_retain :: "('v \<Rightarrow> bool) \<Rightarrow> ('k, 'v) hashmap \<Rightarrow> ('k, 'v) hashmap" where
  "hm_retain p m = filter (\<lambda>(k, v). p v) m"

text \<open>Collecting an iterator of pairs: a later pair overwrites an earlier one.\<close>

definition hm_collect :: "('k \<times> 'v) list \<Rightarrow> ('k, 'v) hashmap" where
  "hm_collect ps = fold (\<lambda>(k, v) m. hm_insert k v m) ps []"

definition hm_wf :: "('k, 'v) hashmap \<Rightarrow> bool" where
  "hm_wf m \<longleftrightarrow> distinct (map fst m)"

subsection \<open>The interface\<close>

locale hash_map =
  fixes get :: "'m \<Rightarrow> 'k \<Rightarrow> 'v option"
    and put :: "'k \<Rightarrow> 'v \<Rightarrow> 'm \<Rightarrow> 'm"
    and del :: "'k \<Rightarrow> 'm \<Rightarrow> 'm"
    and entries :: "'m \<Rightarrow> ('k \<times> 'v) list"
    and invar :: "'m \<Rightarrow> bool"
  assumes entries_get: "invar m \<Longrightarrow> (k, v) \<in> set (entries m) \<longleftrightarrow> get m k = Some v"
    and entries_once: "invar m \<Longrightarrow> distinct (map fst (entries m))"
    and get_put: "invar m \<Longrightarrow> get (put k v m) j = (if j = k then Some v else get m j)"
    and get_del: "invar m \<Longrightarrow> get (del k m) j = (if j = k then None else get m j)"
    and invar_put: "invar m \<Longrightarrow> invar (put k v m)"
    and invar_del: "invar m \<Longrightarrow> invar (del k m)"
begin

definition vals :: "'m \<Rightarrow> 'v list" where
  "vals m = map snd (entries m)"

lemma distinct_entries: "invar m \<Longrightarrow> distinct (entries m)"
  using entries_once distinct_map by blast

lemma set_vals: "invar m \<Longrightarrow> v \<in> set (vals m) \<longleftrightarrow> (\<exists>k. get m k = Some v)"
  by (force simp: vals_def simp flip: entries_get)

text \<open>Two maps that agree on every key have the same entries, in some order.\<close>

lemma mset_entries_eqI:
  assumes "invar m" "invar n" "\<And>k. get m k = get n k"
  shows "mset (entries m) = mset (entries n)"
proof -
  have "set (entries m) = set (entries n)"
    using assms entries_get by auto
  then show ?thesis
    using assms distinct_entries set_eq_iff_mset_eq_distinct by blast
qed

lemma mset_entries_put_new:
  assumes "invar m" "get m k = None"
  shows "mset (entries (put k v m)) = add_mset (k, v) (mset (entries m))"
proof -
  have new: "(k, v) \<notin> set (entries m)"
    using assms by (simp add: entries_get)
  have "set (entries (put k v m)) = set ((k, v) # entries m)"
    using assms by (auto simp: entries_get invar_put get_put split: if_splits)
  moreover have "distinct ((k, v) # entries m)"
    using new assms(1) by (simp add: distinct_entries)
  ultimately have "mset (entries (put k v m)) = mset ((k, v) # entries m)"
    using assms(1) distinct_entries invar_put set_eq_iff_mset_eq_distinct by blast
  then show ?thesis by simp
qed

lemma mset_entries_del:
  assumes "invar m" "get m k = Some u"
  shows "mset (entries m) = add_mset (k, u) (mset (entries (del k m)))"
proof -
  have new: "(k, u) \<notin> set (entries (del k m))"
    using assms by (simp add: entries_get invar_del get_del)
  have "set (entries m) = set ((k, u) # entries (del k m))"
    using assms by (auto simp: entries_get invar_del get_del split: if_splits)
  moreover have "distinct ((k, u) # entries (del k m))"
    using new assms(1) by (simp add: distinct_entries invar_del)
  ultimately have "mset (entries m) = mset ((k, u) # entries (del k m))"
    using assms(1) distinct_entries set_eq_iff_mset_eq_distinct by blast
  then show ?thesis by simp
qed

lemma mset_entries_put_old:
  assumes "invar m" "get m k = Some u"
  shows "mset (entries (put k v m)) = add_mset (k, v) (mset (entries (del k m)))"
proof -
  have "mset (entries (put k v m)) = mset (entries (put k v (del k m)))"
    by (rule mset_entries_eqI)
      (use assms in \<open>simp_all add: invar_put invar_del get_put get_del\<close>)
  also have "\<dots> = add_mset (k, v) (mset (entries (del k m)))"
    by (rule mset_entries_put_new) (use assms in \<open>simp_all add: invar_del get_del\<close>)
  finally show ?thesis .
qed

lemma mset_vals: "mset (vals m) = image_mset snd (mset (entries m))"
  by (simp add: vals_def)

lemma mset_vals_put_new:
  "invar m \<Longrightarrow> get m k = None \<Longrightarrow> mset (vals (put k v m)) = add_mset v (mset (vals m))"
  by (simp add: mset_vals mset_entries_put_new)

lemma mset_vals_del:
  "invar m \<Longrightarrow> get m k = Some u \<Longrightarrow> mset (vals m) = add_mset u (mset (vals (del k m)))"
  by (simp add: mset_vals mset_entries_del)

lemma mset_vals_put_old:
  "invar m \<Longrightarrow> get m k = Some u \<Longrightarrow>
   mset (vals (put k v m)) = add_mset v (mset (vals (del k m)))"
  by (simp add: mset_vals mset_entries_put_old)

text \<open>Counting and summing over the values: what one insertion or removal changes.\<close>

lemma count_vals_mset: "length (filter P (vals m)) = size (filter_mset P (mset (vals m)))"
  by (metis mset_filter size_mset)

lemma sum_vals_mset:
  "sum_list (map f (vals m)) = \<Sum>\<^sub># (image_mset f (mset (vals m)))"
  by (metis mset_map sum_mset_sum_list)

lemma count_put_new:
  "invar m \<Longrightarrow> get m k = None \<Longrightarrow>
   length (filter P (vals (put k v m))) = length (filter P (vals m)) + (if P v then 1 else 0)"
  by (simp add: count_vals_mset mset_vals_put_new)

lemma count_put_old:
  "invar m \<Longrightarrow> get m k = Some u \<Longrightarrow>
   length (filter P (vals (put k v m))) + (if P u then 1 else 0)
     = length (filter P (vals m)) + (if P v then 1 else 0)"
  by (simp add: count_vals_mset mset_vals_put_old mset_vals_del [of m k u])

lemma count_del:
  "invar m \<Longrightarrow> get m k = Some u \<Longrightarrow>
   length (filter P (vals (del k m))) + (if P u then 1 else 0) = length (filter P (vals m))"
  by (simp add: count_vals_mset mset_vals_del [of m k u])

lemma sum_put_old:
  fixes f :: "'v \<Rightarrow> 'b::comm_monoid_add"
  shows "invar m \<Longrightarrow> get m k = Some u \<Longrightarrow>
   sum_list (map f (vals (put k v m))) + f u = sum_list (map f (vals m)) + f v"
  by (simp add: sum_vals_mset mset_vals_put_old mset_vals_del [of m k u] ac_simps)

lemma sum_put_new:
  fixes f :: "'v \<Rightarrow> 'b::comm_monoid_add"
  shows "invar m \<Longrightarrow> get m k = None \<Longrightarrow>
   sum_list (map f (vals (put k v m))) = sum_list (map f (vals m)) + f v"
  by (simp add: sum_vals_mset mset_vals_put_new ac_simps)

lemma sum_del:
  fixes f :: "'v \<Rightarrow> 'b::comm_monoid_add"
  shows "invar m \<Longrightarrow> get m k = Some u \<Longrightarrow>
   sum_list (map f (vals (del k m))) + f u = sum_list (map f (vals m))"
  by (simp add: sum_vals_mset mset_vals_del [of m k u] ac_simps)

end

subsection \<open>The association-list maps provide it\<close>

interpretation hm: hash_map hm_get hm_insert hm_remove "\<lambda>m. m" hm_wf
  by unfold_locales
    (auto simp: hm_get_def hm_insert_def hm_remove_def hm_wf_def AList.update_conv'
      AList.delete_conv' AList.distinct_update AList.distinct_delete map_of_eq_Some_iff)

lemma hm_vals_values: "hm.vals m = hm_values m"
  by (simp add: hm.vals_def hm_values_def)

lemmas hm_count_new = hm.count_put_new [unfolded hm_vals_values]
lemmas hm_count_old = hm.count_put_old [unfolded hm_vals_values]
lemmas hm_count_del = hm.count_del [unfolded hm_vals_values]
lemmas hm_sum_old = hm.sum_put_old [unfolded hm_vals_values]
lemmas hm_sum_new = hm.sum_put_new [unfolded hm_vals_values]
lemmas hm_sum_del = hm.sum_del [unfolded hm_vals_values]
lemmas hm_set_values = hm.set_vals [unfolded hm_vals_values]

lemma hm_get_insert [simp]:
  "hm_get (hm_insert k v m) j = (if j = k then Some v else hm_get m j)"
  by (simp add: hm_get_def hm_insert_def AList.update_conv')

lemma hm_get_remove [simp]:
  "hm_get (hm_remove k m) j = (if j = k then None else hm_get m j)"
  by (simp add: hm_get_def hm_remove_def AList.delete_conv')

lemma hm_get_Nil [simp]: "hm_get [] k = None"
  by (simp add: hm_get_def)

lemma hm_get_map_values [simp]: "hm_get (hm_map_values f m) k = map_option f (hm_get m k)"
  by (simp add: hm_get_def hm_map_values_def map_of_map)

lemma hm_values_map_values [simp]: "hm_values (hm_map_values f m) = map f (hm_values m)"
  by (induction m) (auto simp: hm_values_def hm_map_values_def)

lemma hm_wf_simps [simp, wf_intros]:
  "hm_wf []"
  "hm_wf m \<Longrightarrow> hm_wf (hm_insert k v m)"
  "hm_wf m \<Longrightarrow> hm_wf (hm_remove k m)"
  "hm_wf (hm_map_values f m) \<longleftrightarrow> hm_wf m"
  by (simp_all add: hm.invar_put hm.invar_del)
    (simp_all add: hm_wf_def hm_map_values_def comp_def split_def)

lemma hm_wf_retain [simp]: "hm_wf m \<Longrightarrow> hm_wf (hm_retain p m)"
  by (simp add: hm_wf_def hm_retain_def distinct_map_filter)

lemma hm_get_retain:
  "hm_wf m \<Longrightarrow> hm_get (hm_retain p m) k
    = (case hm_get m k of Some v \<Rightarrow> if p v then Some v else None | None \<Rightarrow> None)"
  by (induction m)
    (auto simp: hm_wf_def hm_retain_def hm_get_def map_of_eq_None_iff rev_image_eqI
      split: option.splits)

lemma hm_values_in: "hm_get m k = Some v \<Longrightarrow> v \<in> set (hm_values m)"
  by (force simp: hm_get_def hm_values_def dest: map_of_SomeD)

lemma hm_keys_get: "k \<in> set (hm_keys m) \<longleftrightarrow> hm_get m k \<noteq> None"
  by (auto simp: hm_keys_def hm_get_def map_of_eq_None_iff)

lemma hm_values_perm:
  "hm_wf m \<Longrightarrow> hm_wf n \<Longrightarrow> (\<And>k. hm_get m k = hm_get n k) \<Longrightarrow>
   mset (hm_values m) = mset (hm_values n)"
  by (simp add: hm_values_def hm.mset_entries_eqI [of m n])

text \<open>Collecting pairs with distinct keys keeps them as they come.\<close>

lemma hm_insert_append:
  "k \<notin> fst ` set m \<Longrightarrow> hm_insert k v m = m @ [(k, v)]"
  by (induction m) (auto simp: hm_insert_def)

lemma fold_hm_insert:
  "distinct (map fst (m @ ps)) \<Longrightarrow> fold (\<lambda>(k, v) m. hm_insert k v m) ps m = m @ ps"
proof (induction ps arbitrary: m)
  case Nil
  then show ?case by simp
next
  case (Cons kv ps)
  obtain k v where kv: "kv = (k, v)" by (cases kv)
  have "k \<notin> fst ` set m" using Cons.prems by (auto simp: kv)
  moreover have "distinct (map fst ((m @ [(k, v)]) @ ps))"
    using Cons.prems by (simp add: kv)
  ultimately show ?case
    using Cons.IH [of "m @ [(k, v)]"] by (simp add: kv hm_insert_append)
qed

lemma hm_collect_distinct: "distinct (map fst ps) \<Longrightarrow> hm_collect ps = ps"
  using fold_hm_insert [of "[]" ps] by (simp add: hm_collect_def)

lemma fold_hm_insert_wf: "hm_wf m \<Longrightarrow> hm_wf (fold (\<lambda>(k, v) m. hm_insert k v m) ps m)"
  by (induction ps arbitrary: m) (auto simp: case_prod_beta)

lemma hm_collect_wf [simp]: "hm_wf (hm_collect ps)"
  by (simp add: hm_collect_def fold_hm_insert_wf)

end
