(* ===== verification/Json.thy ===== *)
theory Json
  imports Hash_Map
begin

section \<open>JSON values\<close>

text \<open>
  The JSON values that payloads, results and reports carry (\<open>serde_json::Value\<close>), with the
  accessors the code calls. Objects are lists of fields; the accessors are the documented ones:
  \<open>get\<close> finds a field of an object and is \<open>None\<close> on every other value, \<open>as_str\<close> is the content
  of a string value, \<open>insert\<close> and \<open>remove\<close> act on the fields of an object. Numbers are opaque:
  the code never computes with them.
\<close>

datatype json_number = PosInt u64 | NegInt u64 | Float u64

datatype json =
    JNull
  | JBool bool
  | JNumber json_number
  | JString string
  | JArray "json list"
  | JObject "(string \<times> json) list"

fun json_get :: "string \<Rightarrow> json \<Rightarrow> json option" where
  "json_get k (JObject fs) = hm_get fs k"
| "json_get k _ = None"

fun json_as_str :: "json \<Rightarrow> string option" where
  "json_as_str (JString s) = Some s"
| "json_as_str _ = None"

text \<open>\<open>get(k).and_then(Value::as_str)\<close>\<close>

definition json_get_str :: "string \<Rightarrow> json \<Rightarrow> string option" where
  "json_get_str k v = Option.bind (json_get k v) json_as_str"

fun json_set_field :: "string \<Rightarrow> json \<Rightarrow> json \<Rightarrow> json" where
  "json_set_field k v (JObject fs) = JObject (hm_insert k v fs)"
| "json_set_field k v w = w"

fun json_remove_field :: "string \<Rightarrow> json \<Rightarrow> json" where
  "json_remove_field k (JObject fs) = JObject (hm_remove k fs)"
| "json_remove_field k w = w"

lemma json_get_set_field:
  "json_get j (json_set_field k v w)
    = (case w of JObject fs \<Rightarrow> if j = k then Some v else json_get j w | _ \<Rightarrow> None)"
  by (cases w) auto

lemma json_get_remove_field:
  "json_get j (json_remove_field k w) = (if j = k then None else json_get j w)"
  by (cases w) auto

end
