(* ===== verification/Cluster_Types.thy ===== *)
theory Cluster_Types
  imports Json
begin

section \<open>The data of the controller\<close>

text \<open>
  The types of \<open>platform/src/cluster.rs\<close>: images, pools, environments, nodes, micro-VMs, join
  tokens, executions and the \<open>Cluster\<close> that holds them, one record per struct with the source's
  fields (prefixed by the struct, since record fields are global names). \<open>HashSet\<close> fields are
  sets; \<open>f32\<close> values are their bit patterns, which the controller only stores.
\<close>

type_synonym f32 = u32
type_synonym ipv4 = u32

datatype ip_addr = V4 ipv4 | V6 "128 word"

datatype image_kind = MicroVmImage | RuntimeImage

record image =
  image_id :: uuid
  image_name :: string
  image_sha256 :: string
  image_size :: u64
  image_compatible :: bool
  image_executor :: "string option"
  image_kind :: image_kind
  image_docker_source :: "string option"

datatype port_protocol = Tcp | Udp

record port_spec =
  port_name :: string
  port_guest_port :: u16
  port_host_port :: "u16 option"
  port_protocol :: port_protocol

record published_port =
  pub_name :: string
  pub_guest_port :: u16
  pub_host_port :: u16
  pub_protocol :: port_protocol

record pool =
  pool_name :: string
  pool_image :: uuid
  pool_warm_instances :: u32
  pool_max_instances :: "u32 option"
  pool_cpu_millis :: u32
  pool_memory_mib :: u32
  pool_disk_mib :: u32
  pool_timeout_secs :: u64
  pool_idle_timeout_secs :: u64
  pool_reuse :: bool
  pool_network :: bool
  pool_ports :: "port_spec list"
  pool_managed_by :: "string option"
  pool_environment :: "uuid option"
  pool_environment_artifact :: "string option"
  pool_preload :: "string list"

record environment =
  env_id :: uuid
  env_name :: string
  env_image :: uuid
  env_packages :: "string list"
  env_preload :: "string list"
  env_artifact :: "string option"
  env_sha256 :: "string option"
  env_size :: u64
  env_pool :: string
  env_warm_instances :: u32
  env_max_instances :: "u32 option"
  env_cpu_millis :: u32
  env_memory_mib :: u32
  env_disk_mib :: u32
  env_timeout_secs :: u64
  env_idle_timeout_secs :: u64
  env_reuse :: bool
  env_network :: bool

datatype node_status = Syncing | Ready

datatype vm_status = VmIdle | VmRunning

record micro_vm =
  vm_id :: uuid
  vm_pool :: string
  vm_status :: vm_status
  vm_execution :: "uuid option"
  vm_pid :: "u32 option"
  vm_cpu_millis :: u32
  vm_memory_mib :: u32
  vm_guest_ip :: "ipv4 option"
  vm_ports :: "published_port list"
  vm_environment :: "uuid option"

record node =
  node_id :: uuid
  node_name :: string
  node_cpu_millis :: u32
  node_memory_mib :: u32
  node_vm_start_concurrency :: "usize option"
  node_address :: "ip_addr option"
  node_used_cpu_millis :: u32
  node_used_memory_mib :: u32
  node_images :: "uuid set"
  node_environments :: "string set"
  node_idle_instances :: "(string, u32) hashmap"
  node_vms :: "micro_vm list"
  node_status :: node_status
  node_last_seen_ms :: u64

record join_token =
  token_id :: uuid
  token_hash :: string
  token_expires_at_ms :: u64
  token_used_at_ms :: "u64 option"

datatype execution_status = Queued | Assigned | Running | Succeeded | Failed | TimedOut

record execution_metric_point =
  point_elapsed_ms :: u64
  point_cpu_percent :: f32
  point_memory_percent :: f32

record execution_metrics =
  metrics_average_cpu_percent :: f32
  metrics_average_memory_percent :: f32
  metrics_peak_memory_percent :: f32
  metrics_samples :: "execution_metric_point list"

record execution =
  exec_id :: uuid
  exec_pool :: string
  exec_node :: "uuid option"
  exec_status :: execution_status
  exec_payload :: json
  exec_variables :: "(string, string) hashmap"
  exec_result :: "json option"
  exec_error :: "string option"
  exec_created_at_ms :: u64
  exec_started_at_ms :: "u64 option"
  exec_finished_at_ms :: "u64 option"
  exec_environment :: "uuid option"
  exec_metrics :: "execution_metrics option"

record execution_view =
  view_id :: uuid
  view_pool :: string
  view_node :: "uuid option"
  view_status :: execution_status
  view_error :: "string option"
  view_created_at_ms :: u64
  view_started_at_ms :: "u64 option"
  view_finished_at_ms :: "u64 option"
  view_environment :: "uuid option"
  view_metrics :: "execution_metrics option"

definition view_of_execution :: "execution \<Rightarrow> execution_view" where
  "view_of_execution e =
     \<lparr>view_id = exec_id e, view_pool = exec_pool e, view_node = exec_node e,
      view_status = exec_status e, view_error = exec_error e,
      view_created_at_ms = exec_created_at_ms e, view_started_at_ms = exec_started_at_ms e,
      view_finished_at_ms = exec_finished_at_ms e, view_environment = exec_environment e,
      view_metrics = exec_metrics e\<rparr>"

record work =
  work_execution :: execution
  work_pool :: pool
  work_secrets :: "(string, string) hashmap"

record cluster =
  images :: "(uuid, image) hashmap"
  pools :: "(string, pool) hashmap"
  nodes :: "(uuid, node) hashmap"
  executions :: "(uuid, execution) hashmap"
  environments :: "(uuid, environment) hashmap"
  join_tokens :: "(uuid, join_token) hashmap"
  node_credentials :: "(uuid, string) hashmap"
  round_robin :: usize

text \<open>\<open>Cluster::default()\<close>\<close>

definition empty_cluster :: cluster where
  "empty_cluster =
     \<lparr>images = [], pools = [], nodes = [], executions = [], environments = [],
      join_tokens = [], node_credentials = [], round_robin = 0\<rparr>"

subsection \<open>Well-formed clusters\<close>

text \<open>
  Every map is keyed by the identifier its values carry, and the idle counters of a node have one
  entry per pool. The code relies on it wherever it looks a value up by the identifier it read
  from another value (and panics otherwise).
\<close>

definition keyed :: "('v \<Rightarrow> 'k) \<Rightarrow> ('k, 'v) hashmap \<Rightarrow> bool" where
  "keyed f m \<longleftrightarrow> hm_wf m \<and> (\<forall>k v. hm_get m k = Some v \<longrightarrow> f v = k)"

definition node_wf :: "node \<Rightarrow> bool" where
  "node_wf n \<longleftrightarrow> hm_wf (node_idle_instances n)"

definition nodes_wf :: "(uuid, node) hashmap \<Rightarrow> bool" where
  "nodes_wf m \<longleftrightarrow> keyed node_id m \<and> (\<forall>k n. hm_get m k = Some n \<longrightarrow> node_wf n)"

definition cluster_wf :: "cluster \<Rightarrow> bool" where
  "cluster_wf c \<longleftrightarrow>
     keyed image_id (images c) \<and> keyed pool_name (pools c) \<and> nodes_wf (nodes c) \<and>
     keyed exec_id (executions c) \<and> keyed env_id (environments c) \<and>
     keyed token_id (join_tokens c) \<and> hm_wf (node_credentials c)"

lemma keyed_get: "keyed f m \<Longrightarrow> hm_get m k = Some v \<Longrightarrow> f v = k"
  by (simp add: keyed_def)

lemma keyed_wf [simp]: "keyed f m \<Longrightarrow> hm_wf m"
  by (simp add: keyed_def)

lemma keyed_Nil [simp]: "keyed f []"
  by (simp add: keyed_def)

lemma keyed_insert [wf_intros]: "keyed f m \<Longrightarrow> f v = k \<Longrightarrow> keyed f (hm_insert k v m)"
  by (auto simp: keyed_def split: if_splits)

lemma keyed_remove [wf_intros]: "keyed f m \<Longrightarrow> keyed f (hm_remove k m)"
  by (auto simp: keyed_def split: if_splits)

lemma keyed_map_values [wf_intros]:
  "keyed f m \<Longrightarrow> (\<And>v. f (g v) = f v) \<Longrightarrow> keyed f (hm_map_values g m)"
  by (auto simp: keyed_def)

lemma keyed_alt: "keyed f m \<longleftrightarrow> hm_wf m \<and> (\<forall>x \<in> set m. f (snd x) = fst x)"
proof (cases "hm_wf m")
  case True
  have "(\<forall>k v. hm_get m k = Some v \<longrightarrow> f v = k) \<longleftrightarrow> (\<forall>k v. (k, v) \<in> set m \<longrightarrow> f v = k)"
    by (simp only: hm.entries_get [OF True])
  with True show ?thesis by (simp add: keyed_def) force
qed (simp add: keyed_def)

lemma keyed_Cons [simp]: "keyed f ((k, v) # m) \<longleftrightarrow> k \<notin> fst ` set m \<and> f v = k \<and> keyed f m"
  by (auto simp: keyed_alt hm_wf_def)

lemma keyed_values_get: "keyed f m \<Longrightarrow> v \<in> set (hm_values m) \<longleftrightarrow> hm_get m (f v) = Some v"
  by (auto simp: keyed_def hm_set_values)

lemma keyed_inj_on: "keyed f m \<Longrightarrow> inj_on f (set (hm_values m))"
  by (rule inj_onI) (metis keyed_values_get option.inject)

lemma keyed_distinct_ids: "keyed f m \<Longrightarrow> distinct (map f (hm_values m))"
proof -
  assume keyed: "keyed f m"
  have "map f (hm_values m) = map fst m"
    unfolding hm_values_def map_map comp_def
    by (rule map_cong) (use keyed in \<open>auto simp: keyed_def hm.entries_get\<close>)
  then show ?thesis
    using keyed by (simp add: keyed_def hm_wf_def)
qed

lemma nodes_wf_insert [wf_intros]:
  "nodes_wf m \<Longrightarrow> node_id n = k \<Longrightarrow> node_wf n \<Longrightarrow> nodes_wf (hm_insert k n m)"
  by (auto simp: nodes_wf_def intro!: keyed_insert split: if_splits)

lemma nodes_wf_remove [wf_intros]: "nodes_wf m \<Longrightarrow> nodes_wf (hm_remove k m)"
  by (auto simp: nodes_wf_def intro!: keyed_remove split: if_splits)

lemma nodes_wf_map_values [wf_intros]:
  "nodes_wf m \<Longrightarrow> (\<And>n. node_id (g n) = node_id n) \<Longrightarrow> (\<And>n. node_wf n \<Longrightarrow> node_wf (g n)) \<Longrightarrow>
   nodes_wf (hm_map_values g m)"
  by (auto simp: nodes_wf_def intro!: keyed_map_values)

lemma nodes_wf_get: "nodes_wf m \<Longrightarrow> hm_get m k = Some n \<Longrightarrow> node_wf n \<and> node_id n = k"
  by (auto simp: nodes_wf_def dest: keyed_get)

lemma cluster_wf_empty [simp]: "cluster_wf empty_cluster"
  by (simp add: cluster_wf_def empty_cluster_def nodes_wf_def)

lemma cluster_wf_nodes: "cluster_wf c \<Longrightarrow> hm_wf (nodes c)"
  by (auto simp: cluster_wf_def nodes_wf_def)

lemmas cluster_wfD =
  cluster_wf_def [THEN iffD1, THEN conjunct1]
  cluster_wf_def [THEN iffD1, THEN conjunct2, THEN conjunct1]
  cluster_wf_def [THEN iffD1, THEN conjunct2, THEN conjunct2, THEN conjunct1]
  cluster_wf_def [THEN iffD1, THEN conjunct2, THEN conjunct2, THEN conjunct2, THEN conjunct1]

end
