(* ===== verification/Scheduler.thy ===== *)
theory Scheduler
  imports Cluster_Types "HOL-Library.Product_Lexorder"
begin

section \<open>The scheduler\<close>

text \<open>
  \<open>Cluster::image_ready\<close>, \<open>environment_ready\<close>, \<open>refresh_node\<close>, \<open>schedule\<close>,
  \<open>schedule_queued\<close> and \<open>release\<close> of \<open>platform/src/cluster.rs\<close>. An operation with an
  \<open>unwrap\<close> or an index on a map returns an option, \<open>None\<close> for the panic; an operation that
  mutates the cluster returns the new one. Counts that the code keeps as \<open>usize\<close> are \<open>nat\<close>:
  they count entries of in-memory maps or add up 32-bit counters of such entries, far below
  the 64-bit limit.
\<close>

subsection \<open>Counting instances of a pool\<close>

definition active_status :: "execution_status \<Rightarrow> bool" where
  "active_status s \<longleftrightarrow> s = Assigned \<or> s = Running"

definition active_in :: "string \<Rightarrow> execution \<Rightarrow> bool" where
  "active_in p e \<longleftrightarrow> exec_pool e = p \<and> active_status (exec_status e)"

definition active_count :: "cluster \<Rightarrow> string \<Rightarrow> nat" where
  "active_count c p = length (filter (active_in p) (hm_values (executions c)))"

definition idle_on :: "string \<Rightarrow> node \<Rightarrow> u32" where
  "idle_on p n = (case hm_get (node_idle_instances n) p of Some i \<Rightarrow> i | None \<Rightarrow> 0)"

definition idle_total :: "cluster \<Rightarrow> string \<Rightarrow> nat" where
  "idle_total c p = sum_list (map (\<lambda>n. unat (idle_on p n)) (hm_values (nodes c)))"

subsection \<open>Readiness\<close>

definition image_ready :: "cluster \<Rightarrow> uuid \<Rightarrow> bool" where
  "image_ready c i \<longleftrightarrow> list_all (\<lambda>n. i \<in> node_images n) (hm_values (nodes c))"

definition environment_ready :: "cluster \<Rightarrow> environment \<Rightarrow> bool" where
  "environment_ready c e =
     (case env_artifact e of
        None \<Rightarrow> True
      | Some a \<Rightarrow> list_all (\<lambda>n. a \<in> node_environments n) (hm_values (nodes c)))"

definition refresh_node :: "uuid \<Rightarrow> cluster \<Rightarrow> cluster" where
  "refresh_node nid c =
     (case hm_get (nodes c) nid of
        None \<Rightarrow> c
      | Some n \<Rightarrow>
          c\<lparr>nodes := hm_insert nid
              (n\<lparr>node_status := (if set (hm_keys (images c)) \<subseteq> node_images n then Ready
                                 else Syncing)\<rparr>) (nodes c)\<rparr>)"

subsection \<open>Choosing a node\<close>

definition has_artifact :: "pool \<Rightarrow> node \<Rightarrow> bool" where
  "has_artifact p n =
     (case pool_environment_artifact p of None \<Rightarrow> True | Some a \<Rightarrow> a \<in> node_environments n)"

definition fits :: "pool \<Rightarrow> node \<Rightarrow> bool" where
  "fits p n \<longleftrightarrow> pool_cpu_millis p \<le> node_cpu_millis n \<and> pool_memory_mib p \<le> node_memory_mib n"

definition schedulable :: "pool \<Rightarrow> bool \<Rightarrow> node \<Rightarrow> bool" where
  "schedulable p can_start n \<longleftrightarrow>
     node_status n = Ready \<and> pool_image p \<in> node_images n \<and> has_artifact p n \<and>
     (0 < idle_on (pool_name p) n \<or> can_start \<and> fits p n)"

definition candidates :: "pool \<Rightarrow> bool \<Rightarrow> node list \<Rightarrow> (bool \<times> uuid) list" where
  "candidates p can_start ns =
     sort (map (\<lambda>n. (idle_on (pool_name p) n = 0, node_id n)) (filter (schedulable p can_start) ns))"

definition preferred :: "(bool \<times> uuid) list \<Rightarrow> (bool \<times> uuid) list" where
  "preferred cands = takeWhile (\<lambda>x. fst x = fst (hd cands)) cands"

definition pick :: "usize \<Rightarrow> (bool \<times> uuid) list \<Rightarrow> uuid" where
  "pick rr cands = snd (preferred cands ! (unat rr mod length (preferred cands)))"

text \<open>Consume an idle instance of the pool, or reserve the resources of a new one.\<close>

definition reserve :: "pool \<Rightarrow> node \<Rightarrow> node" where
  "reserve p n =
     n\<lparr>node_used_cpu_millis := saturating_add (node_used_cpu_millis n) (pool_cpu_millis p),
       node_used_memory_mib := saturating_add (node_used_memory_mib n) (pool_memory_mib p)\<rparr>"

definition unreserve :: "pool \<Rightarrow> node \<Rightarrow> node" where
  "unreserve p n =
     n\<lparr>node_used_cpu_millis := saturating_sub (node_used_cpu_millis n) (pool_cpu_millis p),
       node_used_memory_mib := saturating_sub (node_used_memory_mib n) (pool_memory_mib p)\<rparr>"

definition set_idle :: "string \<Rightarrow> u32 \<Rightarrow> node \<Rightarrow> node" where
  "set_idle p i n = n\<lparr>node_idle_instances := hm_insert p i (node_idle_instances n)\<rparr>"

definition take_slot :: "pool \<Rightarrow> node \<Rightarrow> node" where
  "take_slot p n =
     (let idle = idle_on (pool_name p) n in
      if 0 < idle then set_idle (pool_name p) (idle - 1) n
      else reserve p (set_idle (pool_name p) 0 n))"

definition assign_execution :: "execution \<Rightarrow> uuid \<Rightarrow> execution" where
  "assign_execution e nid = e\<lparr>exec_node := Some nid, exec_status := Assigned\<rparr>"

definition limit_reached :: "pool \<Rightarrow> nat \<Rightarrow> bool" where
  "limit_reached p k = (case pool_max_instances p of None \<Rightarrow> False | Some l \<Rightarrow> unat l \<le> k)"

definition schedule :: "uuid \<Rightarrow> cluster \<Rightarrow> (bool \<times> cluster) option" where
  "schedule eid c =
     (case hm_get (executions c) eid of
        None \<Rightarrow> Some (False, c)
      | Some e \<Rightarrow>
     (case hm_get (pools c) (exec_pool e) of
        None \<Rightarrow> Some (False, c)
      | Some p \<Rightarrow>
        let active = active_count c (pool_name p) in
        if limit_reached p active then Some (False, c)
        else
          let idle = idle_total c (pool_name p);
              can_start = (\<not> limit_reached p (active + idle));
              cands = candidates p can_start (hm_values (nodes c))
          in if cands = [] then Some (False, c)
             else
               let nid = pick (round_robin c) cands in
               (case hm_get (nodes c) nid of
                  None \<Rightarrow> None
                | Some n \<Rightarrow>
                    Some (True,
                      c\<lparr>round_robin := round_robin c + 1,
                        nodes := hm_insert nid (take_slot p n) (nodes c),
                        executions := hm_insert eid (assign_execution e nid) (executions c)\<rparr>))))"

subsection \<open>The queue\<close>

definition queued_order :: "cluster \<Rightarrow> uuid list" where
  "queued_order c =
     map snd (sort (map (\<lambda>e. (exec_created_at_ms e, exec_id e))
       (filter (\<lambda>e. exec_status e = Queued) (hm_values (executions c)))))"

fun schedule_each :: "uuid list \<Rightarrow> cluster \<Rightarrow> (execution list \<times> cluster) option" where
  "schedule_each [] c = Some ([], c)"
| "schedule_each (eid # eids) c =
     (case schedule eid c of
        None \<Rightarrow> None
      | Some (False, c1) \<Rightarrow> schedule_each eids c1
      | Some (True, c1) \<Rightarrow>
          (case hm_get (executions c1) eid of
             None \<Rightarrow> None
           | Some e \<Rightarrow> map_option (\<lambda>(es, c2). (e # es, c2)) (schedule_each eids c1)))"

definition schedule_queued :: "cluster \<Rightarrow> (execution list \<times> cluster) option" where
  "schedule_queued c = schedule_each (queued_order c) c"

subsection \<open>Giving an instance back\<close>

text \<open>\<open>*entry.or_default() += 1\<close> wraps at 32 bits in a release build.\<close>

definition release_slot :: "pool \<Rightarrow> bool \<Rightarrow> node \<Rightarrow> node" where
  "release_slot p keep_idle n =
     (if keep_idle then set_idle (pool_name p) (idle_on (pool_name p) n + 1) n else unreserve p n)"

definition release :: "uuid \<Rightarrow> bool \<Rightarrow> cluster \<Rightarrow> cluster" where
  "release eid keep_idle c =
     (case hm_get (executions c) eid of
        None \<Rightarrow> c
      | Some e \<Rightarrow>
     (case exec_node e of
        None \<Rightarrow> c
      | Some nid \<Rightarrow>
     (case hm_get (pools c) (exec_pool e) of
        None \<Rightarrow> c
      | Some p \<Rightarrow>
     (case hm_get (nodes c) nid of
        None \<Rightarrow> c
      | Some n \<Rightarrow> c\<lparr>nodes := hm_insert nid (release_slot p keep_idle n) (nodes c)\<rparr>))))"

subsection \<open>Node updates, field by field\<close>

lemma idle_on_simps [simp]:
  "idle_on q (set_idle p i n) = (if q = p then i else idle_on q n)"
  "idle_on q (reserve p' n) = idle_on q n"
  "idle_on q (unreserve p' n) = idle_on q n"
  by (simp_all add: idle_on_def set_idle_def reserve_def unreserve_def)

lemma idle_on_take_slot:
  "idle_on q (take_slot p n)
    = (if q = pool_name p \<and> 0 < idle_on q n then idle_on q n - 1 else idle_on q n)"
  by (auto simp: take_slot_def Let_def word_gt_0)

lemma node_wf_updates [simp, wf_intros]:
  "node_wf n \<Longrightarrow> node_wf (set_idle p i n)"
  "node_wf (reserve p' n) = node_wf n"
  "node_wf (unreserve p' n) = node_wf n"
  by (simp_all add: node_wf_def set_idle_def reserve_def unreserve_def)

lemma node_wf_slots [simp, wf_intros]:
  "node_wf n \<Longrightarrow> node_wf (take_slot p n)"
  "node_wf n \<Longrightarrow> node_wf (release_slot p k n)"
  by (simp_all add: take_slot_def release_slot_def Let_def)

text \<open>What no slot update touches: identity, capacity, images, environments, status.\<close>

definition same_profile :: "node \<Rightarrow> node \<Rightarrow> bool" where
  "same_profile m n \<longleftrightarrow>
     node_id m = node_id n \<and> node_cpu_millis m = node_cpu_millis n \<and>
     node_memory_mib m = node_memory_mib n \<and> node_images m = node_images n \<and>
     node_environments m = node_environments n \<and> node_status m = node_status n"

lemma same_profile_updates [simp]:
  "same_profile n n"
  "same_profile (set_idle p i m) n = same_profile m n"
  "same_profile (reserve p' m) n = same_profile m n"
  "same_profile (unreserve p' m) n = same_profile m n"
  by (simp_all add: same_profile_def set_idle_def reserve_def unreserve_def)

lemma same_profile_slots [simp]:
  "same_profile (take_slot p m) n = same_profile m n"
  "same_profile (release_slot p k m) n = same_profile m n"
  by (simp_all add: take_slot_def release_slot_def Let_def)

lemma node_id_updates [simp]:
  "node_id (set_idle p i n) = node_id n"
  "node_id (reserve p' n) = node_id n"
  "node_id (unreserve p' n) = node_id n"
  "node_id (take_slot p' n) = node_id n"
  "node_id (release_slot p' k n) = node_id n"
  by (simp_all add: set_idle_def reserve_def unreserve_def take_slot_def release_slot_def Let_def)

end
