(* ===== verification/Scheduler_Facts.thy ===== *)
theory Scheduler_Facts
  imports Scheduler
begin

section \<open>What scheduling does\<close>

text \<open>
  The case analysis of \<open>schedule\<close> that the other theories use instead of its definition, the
  preservation of well-formedness, and the facts about the chosen node, the round-robin order
  and the queue.
\<close>

subsection \<open>The candidate list\<close>

lemma set_candidates:
  "set (candidates p cs ns)
    = (\<lambda>n. (idle_on (pool_name p) n = 0, node_id n)) ` {n \<in> set ns. schedulable p cs n}"
  by (auto simp: candidates_def)

lemma candidates_empty_iff: "candidates p cs ns = [] \<longleftrightarrow> (\<forall>n \<in> set ns. \<not> schedulable p cs n)"
  by (auto simp: set_empty [symmetric] set_candidates simp del: set_empty)

lemma sorted_candidates: "sorted (candidates p cs ns)"
  by (simp add: candidates_def)

lemma candidates_perm:
  "mset ns = mset ms \<Longrightarrow> candidates p cs ns = candidates p cs ms"
  unfolding candidates_def by (rule properties_for_sort) (simp_all add: mset_filter)

lemma preferred_nonempty: "cands \<noteq> [] \<Longrightarrow> preferred cands \<noteq> []"
  by (cases cands) (simp_all add: preferred_def)

lemma set_preferred: "x \<in> set (preferred cands) \<Longrightarrow> x \<in> set cands \<and> fst x = fst (hd cands)"
  by (auto simp: preferred_def dest: set_takeWhileD)

lemma pick_in_preferred:
  assumes "cands \<noteq> []"
  shows "(fst (hd cands), pick rr cands) \<in> set (preferred cands)"
proof -
  let ?i = "unat rr mod length (preferred cands)"
  have "?i < length (preferred cands)"
    using preferred_nonempty [OF assms] by simp
  then have mem: "preferred cands ! ?i \<in> set (preferred cands)" by simp
  then have "fst (preferred cands ! ?i) = fst (hd cands)"
    by (simp add: set_preferred)
  then have "(fst (hd cands), pick rr cands) = preferred cands ! ?i"
    by (simp add: pick_def prod_eq_iff)
  with mem show ?thesis by simp
qed

lemma pick_in_candidates:
  "cands \<noteq> [] \<Longrightarrow> (fst (hd cands), pick rr cands) \<in> set cands"
  using pick_in_preferred set_preferred by blast

text \<open>Sorting puts nodes with an idle instance first, so if any node has one, so has the pick.\<close>

lemma preferred_idle_first:
  assumes "\<not> b" "(b, i) \<in> set (candidates p cs ns)"
  shows "\<not> fst (hd (candidates p cs ns))"
proof -
  obtain x xs where eq: "candidates p cs ns = x # xs"
    using assms(2) by (cases "candidates p cs ns") auto
  with sorted_candidates [of p cs ns] assms(2) have "x \<le> (b, i)" by auto
  then have "fst x \<le> b" by (auto simp: less_eq_prod_def)
  with \<open>\<not> b\<close> show ?thesis by (simp add: eq le_bool_def)
qed

subsection \<open>Case analysis\<close>

lemma pick_node:
  assumes "nodes_wf m" "candidates p cs (hm_values m) \<noteq> []"
  obtains n where "hm_get m (pick rr (candidates p cs (hm_values m))) = Some n"
    "schedulable p cs n" "node_id n = pick rr (candidates p cs (hm_values m))"
    "(idle_on (pool_name p) n = 0) = fst (hd (candidates p cs (hm_values m)))"
proof -
  obtain n where n: "n \<in> set (hm_values m)" "schedulable p cs n"
      "(fst (hd (candidates p cs (hm_values m))), pick rr (candidates p cs (hm_values m)))
        = (idle_on (pool_name p) n = 0, node_id n)"
    using pick_in_candidates [OF assms(2), of rr] unfolding set_candidates by blast
  moreover have "keyed node_id m"
    using assms(1) by (simp add: nodes_wf_def)
  ultimately have "hm_get m (node_id n) = Some n"
    by (simp add: keyed_values_get)
  with n show ?thesis
    by (intro that [of n]) auto
qed

definition can_start :: "cluster \<Rightarrow> pool \<Rightarrow> bool" where
  "can_start c p \<longleftrightarrow>
     \<not> limit_reached p (active_count c (pool_name p) + idle_total c (pool_name p))"

definition assigned_cluster :: "uuid \<Rightarrow> execution \<Rightarrow> pool \<Rightarrow> node \<Rightarrow> cluster \<Rightarrow> cluster" where
  "assigned_cluster eid e p n c =
     c\<lparr>round_robin := round_robin c + 1,
       nodes := hm_insert (node_id n) (take_slot p n) (nodes c),
       executions := hm_insert eid (assign_execution e (node_id n)) (executions c)\<rparr>"

text \<open>The pool an execution would be scheduled in, when nothing but a node is missing.\<close>

definition placeable :: "cluster \<Rightarrow> uuid \<Rightarrow> (execution \<times> pool) option" where
  "placeable c eid =
     (case hm_get (executions c) eid of None \<Rightarrow> None
      | Some e \<Rightarrow>
     (case hm_get (pools c) (exec_pool e) of None \<Rightarrow> None
      | Some p \<Rightarrow>
        if limit_reached p (active_count c (pool_name p)) then None else Some (e, p)))"

lemma placeable_Some:
  "placeable c eid = Some (e, p) \<longleftrightarrow>
     hm_get (executions c) eid = Some e \<and> hm_get (pools c) (exec_pool e) = Some p \<and>
     \<not> limit_reached p (active_count c (pool_name p))"
  by (auto simp: placeable_def split: option.splits)

lemma schedule_None_placeable: "placeable c eid = None \<Longrightarrow> schedule eid c = Some (False, c)"
  by (auto simp: placeable_def schedule_def Let_def split: option.splits if_splits)

lemma schedule_no_candidate:
  assumes "placeable c eid = Some (e, p)"
    "candidates p (can_start c p) (hm_values (nodes c)) = []"
  shows "schedule eid c = Some (False, c)"
  using assms by (simp add: placeable_Some schedule_def Let_def can_start_def)

lemma schedule_assigns:
  assumes wf: "cluster_wf c"
    and place: "placeable c eid = Some (e, p)"
    and cands: "candidates p (can_start c p) (hm_values (nodes c)) \<noteq> []"
  obtains n where
    "schedule eid c = Some (True, assigned_cluster eid e p n c)"
    "hm_get (nodes c) (node_id n) = Some n"
    "schedulable p (can_start c p) n"
    "node_id n = pick (round_robin c) (candidates p (can_start c p) (hm_values (nodes c)))"
    "(idle_on (pool_name p) n = 0) = fst (hd (candidates p (can_start c p) (hm_values (nodes c))))"
proof -
  from wf have "nodes_wf (nodes c)" by (simp add: cluster_wf_def)
  from pick_node [OF this cands, of "round_robin c"] obtain n where n:
    "hm_get (nodes c) (pick (round_robin c) (candidates p (can_start c p) (hm_values (nodes c))))
      = Some n"
    "schedulable p (can_start c p) n"
    "node_id n = pick (round_robin c) (candidates p (can_start c p) (hm_values (nodes c)))"
    "(idle_on (pool_name p) n = 0) = fst (hd (candidates p (can_start c p) (hm_values (nodes c))))"
    by metis
  have "schedule eid c = Some (True, assigned_cluster eid e p n c)"
    using place cands n(1,3)
    by (simp add: placeable_Some schedule_def Let_def can_start_def assigned_cluster_def)
  with n show ?thesis by (intro that [of n]) simp_all
qed

lemma schedule_cases:
  assumes wf: "cluster_wf c"
  obtains (refused) "schedule eid c = Some (False, c)"
      "\<And>e p. placeable c eid = Some (e, p) \<Longrightarrow>
         candidates p (can_start c p) (hm_values (nodes c)) = []"
  | (assigned) e p n where
      "schedule eid c = Some (True, assigned_cluster eid e p n c)"
      "placeable c eid = Some (e, p)"
      "hm_get (nodes c) (node_id n) = Some n"
      "schedulable p (can_start c p) n"
      "node_id n = pick (round_robin c) (candidates p (can_start c p) (hm_values (nodes c)))"
      "(idle_on (pool_name p) n = 0)
        = fst (hd (candidates p (can_start c p) (hm_values (nodes c))))"
proof (cases "placeable c eid")
  case None
  then show ?thesis by (intro refused schedule_None_placeable) simp_all
next
  case (Some ep)
  then obtain e p where ep: "placeable c eid = Some (e, p)" by (cases ep) simp
  show ?thesis
  proof (cases "candidates p (can_start c p) (hm_values (nodes c)) = []")
    case True
    with ep show ?thesis by (intro refused schedule_no_candidate) simp_all
  next
    case False
    from schedule_assigns [OF wf ep False] ep show ?thesis by (metis assigned)
  qed
qed

lemma schedule_total: "cluster_wf c \<Longrightarrow> \<exists>b c'. schedule eid c = Some (b, c')"
  by (erule schedule_cases [of c eid]) auto

lemma schedule_FalseD: "cluster_wf c \<Longrightarrow> schedule eid c = Some (False, c') \<Longrightarrow> c' = c"
  by (erule schedule_cases [of c eid]) auto

subsection \<open>Well-formedness and frame\<close>

lemma exec_id_assign [simp]: "exec_id (assign_execution e nid) = exec_id e"
  by (simp add: assign_execution_def)

lemma cluster_wf_assigned [wf_intros]:
  assumes "cluster_wf c" "hm_get (executions c) eid = Some e" "hm_get (nodes c) (node_id n) = Some n"
  shows "cluster_wf (assigned_cluster eid e p n c)"
proof -
  have "exec_id e = eid" "node_wf n"
    using assms by (auto simp: cluster_wf_def dest: keyed_get nodes_wf_get)
  with assms show ?thesis
    by (simp add: cluster_wf_def assigned_cluster_def nodes_wf_insert keyed_insert)
qed

text \<open>Everything but nodes, executions and the round-robin counter.\<close>

definition same_config :: "cluster \<Rightarrow> cluster \<Rightarrow> bool" where
  "same_config c d \<longleftrightarrow>
     images c = images d \<and> pools c = pools d \<and> environments c = environments d \<and>
     join_tokens c = join_tokens d \<and> node_credentials c = node_credentials d"

lemma same_config_refl [simp]: "same_config c c"
  by (simp add: same_config_def)

lemma same_config_trans [trans]: "same_config b c \<Longrightarrow> same_config c d \<Longrightarrow> same_config b d"
  by (simp add: same_config_def)

lemma same_config_assigned [simp]: "same_config (assigned_cluster eid e p n c) d = same_config c d"
  by (simp add: same_config_def assigned_cluster_def)

lemma schedule_wf:
  assumes "cluster_wf c" "schedule eid c = Some (b, c')"
  shows "cluster_wf c' \<and> same_config c' c"
  using assms(1)
proof (cases rule: schedule_cases [of c eid])
  case refused
  with assms show ?thesis by simp
next
  case (assigned e p n)
  with assms show ?thesis
    by (auto simp: placeable_Some intro: cluster_wf_assigned)
qed

subsection \<open>Instances of a pool: running and idle\<close>

lemma assigned_cluster_sel [simp]:
  "nodes (assigned_cluster eid e p n c) = hm_insert (node_id n) (take_slot p n) (nodes c)"
  "executions (assigned_cluster eid e p n c)
    = hm_insert eid (assign_execution e (node_id n)) (executions c)"
  "pools (assigned_cluster eid e p n c) = pools c"
  "round_robin (assigned_cluster eid e p n c) = round_robin c + 1"
  by (simp_all add: assigned_cluster_def)

lemma active_in_assign [simp]: "active_in q (assign_execution e nid) \<longleftrightarrow> exec_pool e = q"
  by (simp add: active_in_def assign_execution_def active_status_def)

lemma active_count_assigned:
  assumes "cluster_wf c" "hm_get (executions c) eid = Some e" "\<not> active_status (exec_status e)"
  shows "active_count (assigned_cluster eid e p n c) q
    = active_count c q + (if exec_pool e = q then 1 else 0)"
proof -
  have "hm_wf (executions c)" "\<not> active_in q e"
    using assms by (auto simp: cluster_wf_def active_in_def)
  with hm_count_old [OF _ assms(2), of "active_in q" "assign_execution e (node_id n)"]
  show ?thesis by (simp add: active_count_def)
qed

lemma idle_total_assigned:
  assumes "cluster_wf c" "hm_get (nodes c) (node_id n) = Some n"
  shows "idle_total (assigned_cluster eid e p n c) q
      + (if q = pool_name p \<and> 0 < idle_on q n then 1 else 0) = idle_total c q"
proof -
  have "hm_wf (nodes c)"
    using assms by (auto simp: cluster_wf_def nodes_wf_def)
  note sum = hm_sum_old [OF this assms(2), of "\<lambda>n. unat (idle_on q n)" "take_slot p n"]
  show ?thesis
  proof (cases "q = pool_name p \<and> 0 < idle_on q n")
    case True
    then have "unat (idle_on q (take_slot p n)) + 1 = unat (idle_on q n)"
      by (auto simp: idle_on_take_slot unat_pred word_gt_0 unat_gt_0)
    with sum True show ?thesis by (auto simp: idle_total_def)
  next
    case False
    then have "idle_on q (take_slot p n) = idle_on q n"
      by (auto simp: idle_on_take_slot)
    with sum False show ?thesis by (auto simp: idle_total_def)
  qed
qed

lemma idle_le_total:
  assumes "hm_get (nodes c) nid = Some n"
  shows "unat (idle_on q n) \<le> idle_total c q"
  unfolding idle_total_def
  by (rule member_le_sum_list) (use hm_values_in [OF assms] in auto)

text \<open>An instance that is started anew needs room under the limit; an idle one moves over.\<close>

definition instances :: "cluster \<Rightarrow> string \<Rightarrow> nat" where
  "instances c q = active_count c q + idle_total c q"

definition within_limits :: "cluster \<Rightarrow> bool" where
  "within_limits c \<longleftrightarrow>
     (\<forall>q p l. hm_get (pools c) q = Some p \<longrightarrow> pool_max_instances p = Some l \<longrightarrow>
        instances c q \<le> unat l)"

lemma within_limitsD:
  "within_limits c \<Longrightarrow> hm_get (pools c) q = Some p \<Longrightarrow> pool_max_instances p = Some l \<Longrightarrow>
   instances c q \<le> unat l"
  by (auto simp: within_limits_def)

lemma instances_assigned:
  assumes wf: "cluster_wf c" and place: "placeable c eid = Some (e, p)"
    and node: "hm_get (nodes c) (node_id n) = Some n"
    and idle: "\<not> active_status (exec_status e)"
  shows "instances (assigned_cluster eid e p n c) q
    = instances c q + (if q = pool_name p \<and> idle_on q n = 0 then 1 else 0)"
proof -
  have "pool_name p = exec_pool e"
    using wf place by (auto simp: placeable_Some cluster_wf_def dest: keyed_get)
  then show ?thesis
    using active_count_assigned [OF wf _ idle, of eid p n q] place
      idle_total_assigned [OF wf node, of eid e p q]
    by (auto simp: instances_def placeable_Some word_gt_0 split: if_splits)
qed

lemma schedule_within_limits:
  assumes wf: "cluster_wf c" and lim: "within_limits c"
    and sched: "schedule eid c = Some (b, c')"
    and queued: "\<And>e. hm_get (executions c) eid = Some e \<Longrightarrow> \<not> active_status (exec_status e)"
  shows "within_limits c'"
  using wf
proof (cases rule: schedule_cases [of c eid])
  case refused
  with sched lim show ?thesis by simp
next
  case (assigned e p n)
  have c': "c' = assigned_cluster eid e p n c" using assigned sched by simp
  have e: "\<not> active_status (exec_status e)" and p: "pool_name p = exec_pool e"
    using assigned queued wf by (auto simp: placeable_Some cluster_wf_def dest: keyed_get)
  note inst = instances_assigned [OF wf assigned(2,3) e]
  show ?thesis
    unfolding within_limits_def
  proof (intro allI impI)
    fix q p' l
    assume p': "hm_get (pools c') q = Some p'" and l: "pool_max_instances p' = Some l"
    have old: "instances c q \<le> unat l"
      using lim p' l by (auto simp: c' dest: within_limitsD)
    show "instances c' q \<le> unat l"
    proof (cases "q = pool_name p \<and> idle_on q n = 0")
      case True
      then have "p' = p" using p' assigned p by (simp add: c' placeable_Some)
      have "can_start c p"
        using assigned(4) True by (auto simp: schedulable_def)
      then have "instances c q < unat l"
        using l True \<open>p' = p\<close> by (simp add: can_start_def limit_reached_def instances_def)
      moreover have "instances c' q = instances c q + 1"
        using inst [of q] True by (auto simp: c')
      ultimately show ?thesis by simp
    next
      case False
      then have "instances c' q = instances c q" using inst [of q] by (auto simp: c')
      with old show ?thesis by simp
    qed
  qed
qed

subsection \<open>An execution that cannot be placed stays so while others are placed\<close>

lemma limit_reached_mono: "limit_reached p k \<Longrightarrow> k \<le> k' \<Longrightarrow> limit_reached p k'"
  by (auto simp: limit_reached_def split: option.splits)

lemma schedulable_mono:
  "schedulable p cs m \<Longrightarrow> same_profile m n \<Longrightarrow> (cs \<Longrightarrow> cs') \<Longrightarrow>
   idle_on (pool_name p) m \<le> idle_on (pool_name p) n \<Longrightarrow> schedulable p cs' n"
  by (auto simp: schedulable_def same_profile_def has_artifact_def fits_def split: option.splits)

lemma idle_on_take_slot_le: "idle_on q (take_slot p n) \<le> idle_on q n"
  by (auto simp: idle_on_take_slot word_le_nat_alt unat_pred word_gt_0)

lemma blocked_mono:
  assumes wf: "cluster_wf c"
    and blocked: "schedule a c = Some (False, c)"
    and sched: "schedule b c = Some (True, c')" and neq: "a \<noteq> b"
    and queued: "\<And>e. hm_get (executions c) b = Some e \<Longrightarrow> \<not> active_status (exec_status e)"
  shows "schedule a c' = Some (False, c')"
  using wf
proof (cases rule: schedule_cases [of c b])
  case refused
  with sched show ?thesis by simp
next
  case (assigned e p n)
  have c': "c' = assigned_cluster b e p n c" using assigned sched by simp
  have e: "\<not> active_status (exec_status e)"
    using assigned queued by (auto simp: placeable_Some)
  have wf': "cluster_wf c'" using schedule_wf [OF wf sched] by simp
  have exec: "hm_get (executions c') a = hm_get (executions c) a"
    using neq by (simp add: c')
  have active: "active_count c q \<le> active_count c' q" for q
    using active_count_assigned [OF wf _ e, of b p n q] assigned
    by (simp add: c' placeable_Some)
  have inst: "instances c q \<le> instances c' q" for q
    using instances_assigned [OF wf assigned(2,3) e, of q] by (simp add: c')
  show ?thesis
    using wf'
  proof (cases rule: schedule_cases [of c' a])
    case refused
    then show ?thesis by simp
  next
    case (assigned f r m)
    then have r: "placeable c a = Some (f, r)"
      using active [of "pool_name r"] exec limit_reached_mono [of r]
      unfolding placeable_Some c' assigned_cluster_sel(3) by metis
    have "candidates r (can_start c r) (hm_values (nodes c)) = []"
      using wf by (cases rule: schedule_cases [of c a]) (use blocked r in auto)
    then have none: "\<not> schedulable r (can_start c r) k" if "hm_get (nodes c) i = Some k" for i k
      using that hm_values_in by (fastforce simp: candidates_empty_iff)
    have cs: "can_start c' r \<Longrightarrow> can_start c r"
      using inst [of "pool_name r"]
      by (auto simp: can_start_def instances_def dest: limit_reached_mono)
    have m: "(if node_id m = node_id n then Some (take_slot p n)
              else hm_get (nodes c) (node_id m)) = Some m"
      using assigned(3) by (simp only: c' assigned_cluster_sel hm_get_insert)
    have False
    proof (cases "node_id m = node_id n")
      case True
      with m have "take_slot p n = m" by simp
      then have "same_profile m n" "idle_on (pool_name r) m \<le> idle_on (pool_name r) n"
        using idle_on_take_slot_le by auto
      with assigned(4) cs have "schedulable r (can_start c r) n"
        by (rule_tac schedulable_mono)
      with none \<open>hm_get (nodes c) (node_id n) = Some n\<close> show False by blast
    next
      case False
      with m have "hm_get (nodes c) (node_id m) = Some m" by simp
      moreover have "schedulable r (can_start c r) m"
        by (rule schedulable_mono [OF assigned(4)]) (simp_all add: cs)
      ultimately show False using none by blast
    qed
    then show ?thesis ..
  qed
qed

end
