(* ===== verification/Scheduler_Rotation.thy ===== *)
theory Scheduler_Rotation
  imports Scheduler_Queue
begin

section \<open>Iteration order and rotation\<close>

text \<open>
  Two facts about \<open>schedule\<close> that its use of hash maps and of the round-robin counter puts in
  doubt: the decision does not depend on the order in which a map is iterated, and consecutive
  placements of a pool go round its nodes.
\<close>

subsection \<open>Equal contents give equal decisions\<close>

definition same_content :: "cluster \<Rightarrow> cluster \<Rightarrow> bool" where
  "same_content c d \<longleftrightarrow>
     hm_get (images c) = hm_get (images d) \<and> hm_get (pools c) = hm_get (pools d) \<and>
     hm_get (nodes c) = hm_get (nodes d) \<and> hm_get (executions c) = hm_get (executions d) \<and>
     hm_get (environments c) = hm_get (environments d) \<and>
     hm_get (join_tokens c) = hm_get (join_tokens d) \<and>
     hm_get (node_credentials c) = hm_get (node_credentials d) \<and>
     round_robin c = round_robin d"

lemma mset_values_cong:
  "hm_wf m \<Longrightarrow> hm_wf n \<Longrightarrow> hm_get m = hm_get n \<Longrightarrow> mset (hm_values m) = mset (hm_values n)"
  by (rule hm_values_perm) simp_all

lemma count_cong:
  assumes "mset xs = mset ys"
  shows "length (filter P xs) = length (filter P ys)"
  using assms by (metis mset_filter size_mset)

lemma same_content_values:
  assumes "cluster_wf c" "cluster_wf d" "same_content c d"
  shows "mset (hm_values (nodes c)) = mset (hm_values (nodes d))"
    and "mset (hm_values (executions c)) = mset (hm_values (executions d))"
  using assms
  by (auto simp: same_content_def cluster_wf_def nodes_wf_def keyed_def
      intro!: mset_values_cong)

lemma same_content_counts:
  assumes "cluster_wf c" "cluster_wf d" "same_content c d"
  shows "active_count c p = active_count d p" "idle_total c p = idle_total d p"
    "candidates r b (hm_values (nodes c)) = candidates r b (hm_values (nodes d))"
  using same_content_values [OF assms]
  by (auto simp: active_count_def idle_total_def
      intro: count_cong sum_list_cong_mset candidates_perm)

lemma same_content_can_start:
  assumes "cluster_wf c" "cluster_wf d" "same_content c d"
  shows "can_start c r = can_start d r"
  by (simp add: can_start_def same_content_counts [OF assms])

lemma same_content_placeable:
  assumes "cluster_wf c" "cluster_wf d" "same_content c d"
  shows "placeable c eid = placeable d eid"
proof -
  have "hm_get (executions c) = hm_get (executions d)" "hm_get (pools c) = hm_get (pools d)"
    using assms(3) by (simp_all add: same_content_def)
  then show ?thesis
    by (simp add: placeable_def same_content_counts(1) [OF assms] cong: option.case_cong)
qed

lemma same_content_assigned:
  "same_content c d \<Longrightarrow> same_content (assigned_cluster eid e p n c) (assigned_cluster eid e p n d)"
  by (auto simp: same_content_def assigned_cluster_def fun_eq_iff)

lemma schedule_same_content:
  assumes wf: "cluster_wf c" "cluster_wf d" and same: "same_content c d"
    and s: "schedule eid c = Some (b, c')"
  shows "\<exists>d'. schedule eid d = Some (b, d') \<and> same_content c' d'"
  using wf(1)
proof (cases rule: schedule_cases [of c eid])
  case refused
  have "schedule eid d = Some (False, d)"
    using wf(2)
  proof (cases rule: schedule_cases [of d eid])
    case (assigned e p n)
    then have "candidates p (can_start d p) (hm_values (nodes d)) \<noteq> []"
      using refused(2) hm_values_in by (fastforce simp: candidates_empty_iff)
    with refused assigned show ?thesis
      by (simp add: same_content_placeable [OF wf same] same_content_counts [OF wf same] same_content_can_start [OF wf same])
  qed simp
  with refused s same show ?thesis by simp
next
  case (assigned e p n)
  have "candidates p (can_start c p) (hm_values (nodes c)) \<noteq> []"
    using assigned(3,4) hm_values_in by (fastforce simp: candidates_empty_iff)
  then have "candidates p (can_start d p) (hm_values (nodes d)) \<noteq> []"
    by (simp add: same_content_counts [OF wf same] same_content_can_start [OF wf same])
  moreover have "placeable d eid = Some (e, p)"
    using assigned(2) by (simp add: same_content_placeable [OF wf same])
  ultimately obtain m where m: "schedule eid d = Some (True, assigned_cluster eid e p m d)"
      "hm_get (nodes d) (node_id m) = Some m"
      "node_id m = pick (round_robin d) (candidates p (can_start d p) (hm_values (nodes d)))"
    using schedule_assigns [OF wf(2)] by metis
  have "node_id m = node_id n"
    using m(3) assigned(5) same
    by (simp add: same_content_counts [OF wf same] same_content_can_start [OF wf same]) (simp add: same_content_def)
  then have "m = n"
    using m(2) assigned(3) same by (simp add: same_content_def)
  then show ?thesis
    using m(1) assigned(1) s same by (auto intro: same_content_assigned)
qed

lemma schedule_each_same_content:
  assumes "cluster_wf c" "cluster_wf d" "same_content c d"
    "schedule_each eids c = Some (es, c')"
  shows "\<exists>d'. schedule_each eids d = Some (es, d') \<and> same_content c' d'"
  using assms
proof (induction eids arbitrary: c d es)
  case Nil
  then show ?case by simp
next
  case (Cons i eids)
  obtain b c1 where s: "schedule i c = Some (b, c1)"
    using schedule_total [OF Cons.prems(1)] by blast
  then obtain d1 where d1: "schedule i d = Some (b, d1)" "same_content c1 d1"
    using schedule_same_content Cons.prems by blast
  have wf1: "cluster_wf c1" "cluster_wf d1"
    using schedule_wf Cons.prems s d1 by blast+
  have get: "hm_get (executions d1) i = hm_get (executions c1) i"
    using d1(2) by (simp add: same_content_def)
  obtain es1 where e1: "schedule_each eids c1 = Some (es1, c')"
      "es = (if b then the (hm_get (executions c1) i) # es1 else es1)"
      "b \<Longrightarrow> hm_get (executions c1) i \<noteq> None"
    using Cons.prems(4) s by (cases b) (auto split: option.splits)
  then obtain d' where "schedule_each eids d1 = Some (es1, d')" "same_content c' d'"
    using Cons.IH [OF wf1 d1(2)] by blast
  then show ?case using d1(1) e1 get by (cases b) auto
qed

lemma queued_order_same_content:
  assumes "cluster_wf c" "cluster_wf d" "same_content c d"
  shows "queued_order c = queued_order d"
  unfolding queued_order_alt
  by (intro arg_cong [where f = "map snd"] properties_for_sort)
    (simp_all add: mset_filter same_content_values [OF assms])

subsection \<open>Rotation\<close>

lemma pick_all_preferred:
  assumes "\<forall>x \<in> set cands. fst x = b"
  shows "pick rr cands = snd (cands ! (unat rr mod length cands))"
proof -
  have "preferred cands = cands"
    using assms by (cases cands) (auto simp: preferred_def takeWhile_eq_all_conv)
  then show ?thesis by (simp add: pick_def)
qed

text \<open>Taking a new instance on a node of a pool without idle instances changes no candidate.\<close>

definition unlimited_cold :: "cluster \<Rightarrow> pool \<Rightarrow> bool" where
  "unlimited_cold c p \<longleftrightarrow>
     hm_get (pools c) (pool_name p) = Some p \<and> pool_max_instances p = None \<and>
     (\<forall>nid n. hm_get (nodes c) nid = Some n \<longrightarrow> idle_on (pool_name p) n = 0)"

lemma same_profile_schedulable:
  "same_profile m n \<Longrightarrow> idle_on (pool_name p) m = idle_on (pool_name p) n \<Longrightarrow>
   schedulable p cs m = schedulable p cs n"
  by (auto simp: schedulable_def same_profile_def has_artifact_def fits_def split: option.splits)

lemma candidates_update:
  assumes wf: "nodes_wf m" and n: "hm_get m (node_id n) = Some n"
    and same: "same_profile n' n" "idle_on (pool_name p) n' = idle_on (pool_name p) n"
  shows "candidates p cs (hm_values (hm_insert (node_id n) n' m)) = candidates p cs (hm_values m)"
proof -
  let ?key = "\<lambda>n. (idle_on (pool_name p) n = 0, node_id n)"
  have wfm: "hm_wf m" using wf by (simp add: nodes_wf_def keyed_def)
  have eqs: "?key n' = ?key n" "schedulable p cs n' = schedulable p cs n"
    using same(2) same_profile_schedulable [OF same] same(1)
    by (simp_all add: same_profile_def)
  have "mset (hm_values (hm_insert (node_id n) n' m)) + {#n#} = mset (hm_values m) + {#n'#}"
    using hm.mset_vals_put_old [OF wfm n, of n'] hm.mset_vals_del [OF wfm n]
    by (simp add: hm_vals_values)
  then have "image_mset ?key (filter_mset (schedulable p cs)
        (mset (hm_values (hm_insert (node_id n) n' m)) + {#n#}))
      = image_mset ?key (filter_mset (schedulable p cs) (mset (hm_values m) + {#n'#}))"
    by simp
  then have "image_mset ?key (filter_mset (schedulable p cs)
        (mset (hm_values (hm_insert (node_id n) n' m))))
      = image_mset ?key (filter_mset (schedulable p cs) (mset (hm_values m)))"
    using eqs by (simp split: if_splits)
  then show ?thesis
    unfolding candidates_def by (intro properties_for_sort) (simp_all add: mset_filter)
qed

lemma rotation_step:
  assumes wf: "cluster_wf c" and cold: "unlimited_cold c p"
    and e: "hm_get (executions c) i = Some e" "exec_pool e = pool_name p"
    and cands: "cands = candidates p True (hm_values (nodes c))" "cands \<noteq> []"
  obtains c1 where
    "schedule i c = Some (True, c1)" "cluster_wf c1" "unlimited_cold c1 p"
    "candidates p True (hm_values (nodes c1)) = cands"
    "round_robin c1 = round_robin c + 1"
    "hm_get (executions c1) i
      = Some (assign_execution e (snd (cands ! (unat (round_robin c) mod length cands))))"
    "\<And>j. j \<noteq> i \<Longrightarrow> hm_get (executions c1) j = hm_get (executions c) j"
proof -
  have start: "can_start c p" and place: "placeable c i = Some (e, p)"
    using cold e by (simp_all add: unlimited_cold_def can_start_def limit_reached_def placeable_Some)
  with cands obtain n where n:
    "schedule i c = Some (True, assigned_cluster i e p n c)"
    "hm_get (nodes c) (node_id n) = Some n"
    "node_id n = pick (round_robin c) cands"
    using schedule_assigns [OF wf place] by (metis (full_types))
  have zero: "idle_on (pool_name p) n = 0"
    using cold n(2) by (simp add: unlimited_cold_def)
  have all: "\<forall>x \<in> set cands. fst x = True"
    using cold wf unfolding cands(1) set_candidates
    by (auto simp: unlimited_cold_def cluster_wf_def nodes_wf_def keyed_values_get)
  have "nodes_wf (nodes c)" using wf by (simp add: cluster_wf_def)
  from candidates_update [OF this n(2), of "take_slot p n" p True]
  have "candidates p True (hm_values (nodes (assigned_cluster i e p n c))) = cands"
    using zero by (simp add: cands(1) idle_on_take_slot)
  moreover have "unlimited_cold (assigned_cluster i e p n c) p"
    using cold zero by (auto simp: unlimited_cold_def idle_on_take_slot)
  ultimately show ?thesis
    using that n schedule_wf [OF wf n(1)] pick_all_preferred [OF all] by simp
qed

lemma schedule_each_rotates:
  assumes "cluster_wf c" "unlimited_cold c p" "distinct eids"
    "\<And>i. i \<in> set eids \<Longrightarrow> \<exists>e. hm_get (executions c) i = Some e \<and> exec_pool e = pool_name p"
    "cands = candidates p True (hm_values (nodes c))" "cands \<noteq> []"
    "unat (round_robin c) + length eids \<le> 2 ^ 64"
  shows "\<exists>es c'. schedule_each eids c = Some (es, c') \<and> map exec_id es = eids \<and>
    map exec_node es
      = map (\<lambda>k. Some (snd (cands ! ((unat (round_robin c) + k) mod length cands))))
          [0..<length eids]"
  using assms
proof (induction eids arbitrary: c)
  case Nil
  then show ?case by simp
next
  case (Cons i eids)
  let ?at = "\<lambda>r k. Some (snd (cands ! ((r + k) mod length cands)))"
  obtain e where e: "hm_get (executions c) i = Some e" "exec_pool e = pool_name p"
    using Cons.prems(4) by auto
  obtain c1 where c1: "schedule i c = Some (True, c1)" "cluster_wf c1" "unlimited_cold c1 p"
      "candidates p True (hm_values (nodes c1)) = cands" "round_robin c1 = round_robin c + 1"
      "hm_get (executions c1) i
        = Some (assign_execution e (snd (cands ! (unat (round_robin c) mod length cands))))"
      "\<And>j. j \<noteq> i \<Longrightarrow> hm_get (executions c1) j = hm_get (executions c) j"
    using rotation_step [OF Cons.prems(1,2) e Cons.prems(5,6)] by blast
  have exec_i: "exec_id e = i"
    using Cons.prems(1) e(1) by (auto simp: cluster_wf_def dest: keyed_get)
  have next_rr: "unat (round_robin c1) = Suc (unat (round_robin c))" if "eids \<noteq> []"
  proof -
    have "Suc (unat (round_robin c)) < 2 ^ 64"
      using Cons.prems(7) that by (cases eids) auto
    then show ?thesis by (simp add: c1(5) unat_word_ariths)
  qed
  have "\<exists>es c'. schedule_each eids c1 = Some (es, c') \<and> map exec_id es = eids \<and>
      map exec_node es = map (?at (unat (round_robin c1))) [0..<length eids]"
  proof (rule Cons.IH [OF c1(2,3)])
    show "\<exists>e. hm_get (executions c1) j = Some e \<and> exec_pool e = pool_name p" if "j \<in> set eids" for j
    proof -
      have "j \<noteq> i" using that Cons.prems(3) by auto
      then show ?thesis using c1(7) Cons.prems(4) [of j] that by simp
    qed
    show "unat (round_robin c1) + length eids \<le> 2 ^ 64"
      using Cons.prems(7) next_rr unsigned_less [of "round_robin c1", where 'a = nat]
      by (cases "eids = []") auto
  qed (use Cons.prems c1 in auto)
  then obtain es c' where es: "schedule_each eids c1 = Some (es, c')" "map exec_id es = eids"
      "map exec_node es = map (?at (unat (round_robin c1))) [0..<length eids]"
    by blast
  have "map (?at (unat (round_robin c))) [0..<length (i # eids)]
      = ?at (unat (round_robin c)) 0 # map (?at (unat (round_robin c1))) [0..<length eids]"
    using next_rr by (cases "eids = []")
      (auto simp: upt_conv_Cons map_Suc_upt [symmetric] simp del: upt_Suc)
  with es c1(1,6) exec_i show ?case
    by (auto simp: assign_execution_def)
qed

end
