(* ===== verification/Scheduler_Fifo.thy ===== *)
theory Scheduler_Fifo
  imports Scheduler_Queue
begin

section \<open>No execution is overtaken in its pool\<close>

text \<open>
  Two executions of one pool are interchangeable for the placement decision. So when the pass over
  the queue cannot place the older one, it cannot place a younger one either: within a pool
  the queue is first come, first served, while executions of other pools may overtake.
\<close>

lemma placeable_same_pool:
  assumes "hm_get (executions c) a = Some ea" "hm_get (executions c) b = Some eb"
    "exec_pool ea = exec_pool eb"
  shows "placeable c b = map_option (\<lambda>(_, p). (eb, p)) (placeable c a)"
  using assms by (auto simp: placeable_def split: option.splits)

lemma schedule_same_pool:
  assumes wf: "cluster_wf c" and a: "hm_get (executions c) a = Some ea"
    and b: "hm_get (executions c) b = Some eb" and pool: "exec_pool ea = exec_pool eb"
    and blocked: "schedule a c = Some (False, c)"
  shows "schedule b c = Some (False, c)"
  using wf
proof (cases rule: schedule_cases [of c a])
  case refused
  show ?thesis
  proof (cases "placeable c b")
    case None
    then show ?thesis by (rule schedule_None_placeable)
  next
    case (Some ep)
    then obtain p where p: "placeable c b = Some (eb, p)" "placeable c a = Some (ea, p)"
      using placeable_same_pool [OF a b pool] a by (auto simp: placeable_Some)
    with refused(2) show ?thesis by (blast intro: schedule_no_candidate)
  qed
qed (use blocked in simp)

lemma schedule_each_overtaken:
  assumes "schedule_each eids c = Some (es, c')" "cluster_wf c" "distinct eids"
    "\<And>i. i \<in> set eids \<Longrightarrow> queued_in c i" "a \<notin> set eids" "schedule a c = Some (False, c)"
    "hm_get (executions c) a = Some ea"
  shows "\<forall>x \<in> set es. exec_pool x \<noteq> exec_pool ea"
  using assms
proof (induction eids arbitrary: c es)
  case Nil
  then show ?case by simp
next
  case (Cons i eids)
  obtain b c1 where s: "schedule i c = Some (b, c1)"
    using schedule_total [OF Cons.prems(2)] by blast
  have wf1: "cluster_wf c1" using schedule_wf [OF Cons.prems(2) s] by simp
  have q1: "queued_in c1 j" if "j \<in> set eids" for j
    using schedule_keeps_queued [OF Cons.prems(2) s] Cons.prems(3,4) that by auto
  have a: "a \<notin> set eids" "a \<noteq> i" and dist: "distinct eids" using Cons.prems(3,5) by auto
  show ?case
  proof (cases b)
    case False
    then have "c1 = c" using s Cons.prems(2) schedule_FalseD by metis
    then show ?thesis
      using Cons.IH [OF _ wf1 dist q1 a(1)] Cons.prems(1,6,7) s False by auto
  next
    case True
    obtain e0 nid where e0: "hm_get (executions c) i = Some e0" "exec_id e0 = i"
        "executions c1 = hm_insert i (assign_execution e0 nid) (executions c)"
      using schedule_True_exec [OF Cons.prems(2)] s True by metis
    obtain es1 where rec: "schedule_each eids c1 = Some (es1, c')"
        and es: "es = assign_execution e0 nid # es1"
      using Cons.prems(1) s True e0(3) by (auto split: option.splits)
    have "exec_pool e0 \<noteq> exec_pool ea"
      using schedule_same_pool [OF Cons.prems(2,7) e0(1) _ Cons.prems(6)] s True by auto
    moreover have "schedule a c1 = Some (False, c1)"
      using Cons.prems s True a(2)
      by (intro blocked_mono [OF Cons.prems(2,6)]) (auto dest: queued_not_active)
    moreover have "hm_get (executions c1) a = Some ea" using a(2) e0(3) Cons.prems(7) by simp
    ultimately have "exec_pool e0 \<noteq> exec_pool ea" "\<forall>x \<in> set es1. exec_pool x \<noteq> exec_pool ea"
      using Cons.IH [OF rec wf1 dist q1 a(1)] by blast+
    then show ?thesis by (simp add: es assign_execution_def)
  qed
qed

lemma schedule_each_in_order:
  assumes "schedule_each eids c = Some (es, c')" "cluster_wf c" "distinct eids"
    "\<And>i. i \<in> set eids \<Longrightarrow> queued_in c i" "sorted (map (key_of c) eids)"
    "x \<in> set es" "a \<in> set eids" "queued_in c' a" "hm_get (executions c) a = Some ea"
    "exec_pool x = exec_pool ea"
  shows "queue_key x \<le> queue_key ea"
  using assms
proof (induction eids arbitrary: c es)
  case Nil
  then show ?case by simp
next
  case (Cons i eids)
  obtain b c1 where s: "schedule i c = Some (b, c1)"
    using schedule_total [OF Cons.prems(2)] by blast
  have wf1: "cluster_wf c1" using schedule_wf [OF Cons.prems(2) s] by simp
  have q1: "queued_in c1 j" if "j \<in> set eids" for j
    using schedule_keeps_queued [OF Cons.prems(2) s] Cons.prems(3,4) that by auto
  have dist: "distinct eids" "i \<notin> set eids" using Cons.prems(3) by auto
  have others: "hm_get (executions c1) j = hm_get (executions c) j" if "j \<noteq> i" for j
    using that schedule_FalseD [OF Cons.prems(2)] s
    by (cases b) (auto elim: schedule_True_exec [OF Cons.prems(2)])
  have srt: "sorted (map (key_of c1) eids)"
  proof -
    have "map (key_of c1) eids = map (key_of c) eids"
    proof (intro map_cong refl)
      fix j
      assume "j \<in> set eids"
      with dist(2) have "j \<noteq> i" by blast
      then show "key_of c1 j = key_of c j" by (simp add: key_of_def others)
    qed
    then show ?thesis using Cons.prems(5) by (simp del: map_eq_conv)
  qed
  show ?case
  proof (cases b)
    case False
    then have c1: "c1 = c" using s Cons.prems(2) schedule_FalseD by metis
    have rec: "schedule_each eids c = Some (es, c')" using Cons.prems(1) s False c1 by simp
    show ?thesis
    proof (cases "a = i")
      case True
      then have "\<forall>x \<in> set es. exec_pool x \<noteq> exec_pool ea"
        using s False c1 dist(2) Cons.prems(9)
        by (intro schedule_each_overtaken [OF rec Cons.prems(2) dist(1)] Cons.prems(4)) auto
      with Cons.prems(6,10) show ?thesis by blast
    next
      case False
      with Cons.prems(7) have "a \<in> set eids" by simp
      with Cons.IH [OF rec Cons.prems(2) dist(1) _ _ Cons.prems(6)] Cons.prems(4,5,8,9,10)
      show ?thesis by simp
    qed
  next
    case True
    obtain e0 nid where e0: "hm_get (executions c) i = Some e0" "exec_id e0 = i"
        "executions c1 = hm_insert i (assign_execution e0 nid) (executions c)"
      using schedule_True_exec [OF Cons.prems(2)] s True by metis
    obtain es1 where rec: "schedule_each eids c1 = Some (es1, c')"
        and es: "es = assign_execution e0 nid # es1"
      using Cons.prems(1) s True e0(3) by (auto split: option.splits)
    have ok: "pass_ok eids c1 es1 c'"
      using schedule_each_ok [OF wf1 dist(1) q1] by (simp add: rec)
    have "exec_id ` set es1 \<subseteq> set eids" using ok by (simp add: pass_ok_def)
    with dist(2) have "i \<notin> exec_id ` set es1" by blast
    with ok have "hm_get (executions c') i = Some (assign_execution e0 nid)"
      using e0(3) by (simp add: pass_ok_def)
    then have "a \<noteq> i" using Cons.prems(8) by (auto simp: queued_in_def assign_execution_def)
    then have a: "a \<in> set eids" "hm_get (executions c1) a = Some ea"
      using Cons.prems(7,9) others by auto
    show ?thesis
    proof (cases "x \<in> set es1")
      case True
      from Cons.IH [OF rec wf1 dist(1) q1 srt True a(1) Cons.prems(8) a(2) Cons.prems(10)]
      show ?thesis .
    next
      case False
      then have "queue_key x = key_of c i"
        using Cons.prems(6) e0(1) by (simp add: es key_of_def)
      moreover have "key_of c a = queue_key ea" by (simp add: key_of_def Cons.prems(9))
      ultimately show ?thesis using Cons.prems(5) a(1) by auto
    qed
  qed
qed

lemma schedule_queued_in_order:
  assumes wf: "cluster_wf c" and pass: "schedule_queued c = Some (es, c')"
    and x: "x \<in> set es" and a: "hm_get (executions c') a = Some ea" "exec_status ea = Queued"
    and pool: "exec_pool x = exec_pool ea"
  shows "queue_key x < queue_key ea"
proof -
  have old: "hm_get (executions c) a = Some ea" and "ea \<notin> set es"
    using wf pass a(1) by (cases rule: schedule_queued_exec; use a(2) in \<open>simp add: assign_execution_def\<close>)+
  then have q: "queued_in c a" "queued_in c' a" using a by (auto simp: queued_in_def)
  have "queue_key x \<le> queue_key ea"
    by (rule schedule_each_in_order [of "queued_order c" c es c'])
      (use wf pass x q old pool in \<open>simp_all add: schedule_queued_def distinct_queued_order
        set_queued_order sorted_queued_order\<close>)
  moreover have "queue_key x \<noteq> queue_key ea"
  proof
    assume "queue_key x = queue_key ea"
    moreover have "exec_id ea = a" using wf old by (auto simp: cluster_wf_def dest: keyed_get)
    ultimately have "exec_id x = a" by (simp add: queue_key_def)
    then have "hm_get (executions c') a = Some x"
      using schedule_queuedD [OF wf pass] x unfolding pass_ok_def by blast
    with a(1) x \<open>ea \<notin> set es\<close> show False by simp
  qed
  ultimately show ?thesis by simp
qed

end
