(* ===== verification/Warm_Pool.thy ===== *)
theory Warm_Pool
  imports Scheduler_Facts
begin

section \<open>Warm instances\<close>

text \<open>
  \<open>Cluster::warm_targets\<close>, \<open>warm_instances_on\<close>, \<open>warm_instance_needed\<close>,
  \<open>add_warm_instance\<close>, \<open>remove_idle_instance\<close> and \<open>reset_idle_instances\<close> of
  \<open>platform/src/cluster.rs\<close>. The counters are 32-bit and added with wrapping arithmetic, as in
  the release build; the lemmas say when no wrap happens.
\<close>

definition active_u32 :: "cluster \<Rightarrow> string \<Rightarrow> u32" where
  "active_u32 c p = word_of_nat (active_count c p)"

definition idle_u32 :: "cluster \<Rightarrow> string \<Rightarrow> u32" where
  "idle_u32 c p = sum_list (map (idle_on p) (hm_values (nodes c)))"

definition warm_count :: "cluster \<Rightarrow> pool \<Rightarrow> string \<Rightarrow> u32" where
  "warm_count c p name =
     (if pool_reuse p then idle_u32 c name + active_u32 c (pool_name p) else idle_u32 c name)"

definition warm_target :: "cluster \<Rightarrow> pool \<Rightarrow> u32" where
  "warm_target c p =
     (if pool_reuse p then
        min (pool_warm_instances p) (case pool_max_instances p of Some l \<Rightarrow> l | None \<Rightarrow> - 1)
      else
        min (pool_warm_instances p)
          (case pool_max_instances p of
             Some l \<Rightarrow> saturating_sub l (active_u32 c (pool_name p))
           | None \<Rightarrow> - 1))"

definition warm_host :: "pool \<Rightarrow> node \<Rightarrow> bool" where
  "warm_host p n \<longleftrightarrow> pool_image p \<in> node_images n \<and> has_artifact p n \<and> fits p n"

definition warm_hosts :: "cluster \<Rightarrow> pool \<Rightarrow> uuid list" where
  "warm_hosts c p = sort (map node_id (filter (warm_host p) (hm_values (nodes c))))"

definition warm_share :: "u32 \<Rightarrow> u32 \<Rightarrow> nat \<Rightarrow> u32" where
  "warm_share target k i = target div k + (if i < unat (target mod k) then 1 else 0)"

definition warm_targets :: "cluster \<Rightarrow> pool \<Rightarrow> (uuid, u32) hashmap" where
  "warm_targets c p =
     (let hosts = warm_hosts c p; k = length hosts in
      if k = 0 \<or> 2 ^ 32 \<le> k then []
      else hm_collect (map (\<lambda>(i, nid). (nid, warm_share (warm_target c p) (word_of_nat k) i))
             (enumerate 0 hosts)))"

definition warm_instances_on :: "cluster \<Rightarrow> uuid \<Rightarrow> pool \<Rightarrow> u32" where
  "warm_instances_on c nid p =
     (let idle = (case hm_get (nodes c) nid of
                    Some n \<Rightarrow> idle_on (pool_name p) n | None \<Rightarrow> 0) in
      if \<not> pool_reuse p then idle
      else idle + word_of_nat (length (filter
        (\<lambda>e. active_in (pool_name p) e \<and> exec_node e = Some nid) (hm_values (executions c)))))"

definition under_limit :: "cluster \<Rightarrow> pool \<Rightarrow> string \<Rightarrow> bool" where
  "under_limit c p name =
     (case pool_max_instances p of
        None \<Rightarrow> True
      | Some l \<Rightarrow> active_u32 c (pool_name p) + idle_u32 c name < l)"

definition warm_instance_needed :: "uuid \<Rightarrow> string \<Rightarrow> cluster \<Rightarrow> bool" where
  "warm_instance_needed nid name c =
     (case hm_get (pools c) name of
        None \<Rightarrow> False
      | Some p \<Rightarrow>
     (case hm_get (warm_targets c p) nid of
        None \<Rightarrow> False
      | Some target \<Rightarrow>
          warm_instances_on c nid p < target \<and>
          warm_count c p name < sum_list (hm_values (warm_targets c p)) \<and>
          under_limit c p name))"

definition add_warm_instance :: "uuid \<Rightarrow> string \<Rightarrow> cluster \<Rightarrow> bool \<times> cluster" where
  "add_warm_instance nid name c =
     (case hm_get (pools c) name of
        None \<Rightarrow> (False, c)
      | Some p \<Rightarrow>
     (case hm_get (warm_targets c p) nid of
        None \<Rightarrow> (False, c)
      | Some target \<Rightarrow>
        if target \<le> warm_instances_on c nid p \<or>
           sum_list (hm_values (warm_targets c p)) \<le> warm_count c p name \<or>
           \<not> under_limit c p name
        then (False, c)
        else
     (case hm_get (nodes c) nid of
        None \<Rightarrow> (False, c)
      | Some n \<Rightarrow>
          if \<not> fits p n then (False, c)
          else
            (True, c\<lparr>nodes := hm_insert nid
               (let n' = reserve p n in
                set_idle (pool_name p) (idle_on (pool_name p) n' + 1) n') (nodes c)\<rparr>))))"

definition remove_idle_instance :: "uuid \<Rightarrow> string \<Rightarrow> cluster \<Rightarrow> bool \<times> cluster" where
  "remove_idle_instance nid name c =
     (case hm_get (pools c) name of
        None \<Rightarrow> (False, c)
      | Some p \<Rightarrow>
        let target = (case hm_get (warm_targets c p) nid of Some t \<Rightarrow> t | None \<Rightarrow> 0) in
        if warm_instances_on c nid p \<le> target \<or>
           warm_count c p name < sum_list (hm_values (warm_targets c p))
        then (False, c)
        else
     (case hm_get (nodes c) nid of
        None \<Rightarrow> (False, c)
      | Some n \<Rightarrow>
     (case hm_get (node_idle_instances n) name of
        None \<Rightarrow> (False, c)
      | Some idle \<Rightarrow>
          if idle = 0 then (False, c)
          else
            (True, c\<lparr>nodes := hm_insert nid
               (unreserve p (set_idle name (idle - 1) n)) (nodes c)\<rparr>))))"

text \<open>\<open>std::mem::take\<close> empties the counters first; the loop then gives the resources back.\<close>

definition give_back :: "(string, pool) hashmap \<Rightarrow> string \<times> u32 \<Rightarrow> node \<Rightarrow> node" where
  "give_back ps = (\<lambda>(name, idle) n.
     (case hm_get ps name of
        None \<Rightarrow> n
      | Some p \<Rightarrow>
          n\<lparr>node_used_cpu_millis :=
              saturating_sub (node_used_cpu_millis n) (saturating_mul (pool_cpu_millis p) idle),
            node_used_memory_mib :=
              saturating_sub (node_used_memory_mib n) (saturating_mul (pool_memory_mib p) idle)\<rparr>))"

definition reset_idle_instances :: "uuid \<Rightarrow> cluster \<Rightarrow> cluster" where
  "reset_idle_instances nid c =
     (case hm_get (nodes c) nid of
        None \<Rightarrow> c
      | Some n \<Rightarrow>
          c\<lparr>nodes := hm_insert nid
              (fold (give_back (pools c)) (node_idle_instances n) (n\<lparr>node_idle_instances := []\<rparr>))
              (nodes c)\<rparr>)"

end
