(* ===== verification/Warm_Facts.thy ===== *)
theory Warm_Facts
  imports Warm_Pool
begin

section \<open>What the warm pool guarantees\<close>

subsection \<open>Dividing the target over the hosts\<close>

lemma share_fits:
  fixes t k :: nat
  assumes "0 < k"
  shows "t div k + (if i < t mod k then 1 else 0) \<le> t"
proof -
  have "t div k * 1 \<le> t div k * k"
    by (rule mult_le_mono2) (use assms in simp)
  then have "t div k + t mod k \<le> t"
    using div_mult_mod_eq [of t k] by linarith
  then show ?thesis by (cases "i < t mod k") auto
qed

lemma unat_warm_share:
  assumes "0 < k" "k < 2 ^ 32"
  shows "unat (warm_share t (word_of_nat k) i)
    = unat t div k + (if i < unat t mod k then 1 else 0)"
proof -
  have k: "unat (word_of_nat k :: u32) = k"
    using assms(2) by (simp add: unat_of_nat)
  have d: "unat (t div word_of_nat k) = unat t div k" "unat (t mod word_of_nat k) = unat t mod k"
    by (simp_all only: unat_div_distrib unat_mod_distrib k)
  have fit: "unat t div k + (if i < unat t mod k then 1 else 0) < 2 ^ 32"
    using share_fits [OF assms(1), of "unat t" i] unsigned_less [of t, where 'a = nat]
    by simp
  show ?thesis
  proof (cases "i < unat t mod k")
    case True
    then have "i < unat (t mod word_of_nat k)" by (simp only: d)
    then have "unat (warm_share t (word_of_nat k) i) = unat (t div word_of_nat k + 1)"
      by (simp only: warm_share_def if_True)
    also have "\<dots> = unat (t div word_of_nat k) + unat (1 :: u32)"
      by (rule unat_add_no_wrap) (use fit True in \<open>simp add: d del: unat_div_distrib\<close>)
    finally show ?thesis using True by (simp only: d if_True unsigned_1)
  next
    case False
    then have "\<not> i < unat (t mod word_of_nat k)" by (simp only: d not_False_eq_True)
    then show ?thesis using False by (simp only: warm_share_def if_False add_0_right d)
  qed
qed

lemma sum_below: "(\<Sum>i\<leftarrow>[0..<k]. (d::nat) + (if i < m then 1 else 0)) = k * d + min k m"
  by (induction k) auto

lemma sum_shares:
  assumes "0 < k"
  shows "(\<Sum>i\<leftarrow>[0..<k]. (t::nat) div k + (if i < t mod k then 1 else 0)) = t"
  using sum_below [of "t div k" "t mod k" k] mod_less_divisor [OF assms, of t]
  by (simp add: min_def)

subsection \<open>The target map\<close>

lemma set_warm_hosts:
  assumes "cluster_wf c"
  shows "nid \<in> set (warm_hosts c p)
    \<longleftrightarrow> (\<exists>n. hm_get (nodes c) nid = Some n \<and> warm_host p n)"
proof -
  have keyed: "keyed node_id (nodes c)"
    using assms by (simp add: cluster_wf_def nodes_wf_def)
  show ?thesis
  proof
    assume "nid \<in> set (warm_hosts c p)"
    then show "\<exists>n. hm_get (nodes c) nid = Some n \<and> warm_host p n"
      by (auto simp: warm_hosts_def keyed_values_get [OF keyed])
  next
    assume "\<exists>n. hm_get (nodes c) nid = Some n \<and> warm_host p n"
    then obtain n where n: "hm_get (nodes c) nid = Some n" "warm_host p n" by blast
    then have "nid = node_id n" using keyed_get [OF keyed] by blast
    with n show "nid \<in> set (warm_hosts c p)"
      by (auto simp: warm_hosts_def dest: hm_values_in)
  qed
qed

lemma distinct_warm_hosts:
  assumes "cluster_wf c"
  shows "distinct (warm_hosts c p)"
  unfolding warm_hosts_def
  by (simp, intro distinct_map_filter)
    (use assms in \<open>simp add: cluster_wf_def nodes_wf_def keyed_distinct_ids\<close>)

definition host_count_ok :: "cluster \<Rightarrow> pool \<Rightarrow> bool" where
  "host_count_ok c p \<longleftrightarrow> 0 < length (warm_hosts c p) \<and> length (warm_hosts c p) < 2 ^ 32"

lemma warm_targets_alt:
  assumes "cluster_wf c" "host_count_ok c p"
  shows "warm_targets c p
    = map (\<lambda>(i, nid). (nid, warm_share (warm_target c p) (word_of_nat (length (warm_hosts c p))) i))
        (enumerate 0 (warm_hosts c p))"
proof -
  let ?f = "\<lambda>(i, nid). (nid, warm_share (warm_target c p) (word_of_nat (length (warm_hosts c p))) i)"
  have "map fst (map ?f (enumerate 0 (warm_hosts c p))) = warm_hosts c p"
    by (simp add: comp_def case_prod_beta)
  then have "distinct (map fst (map ?f (enumerate 0 (warm_hosts c p))))"
    using distinct_warm_hosts [OF assms(1)] by simp
  with assms(2) show ?thesis
    by (simp add: warm_targets_def Let_def host_count_ok_def hm_collect_distinct)
qed

lemma warm_targets_none: "\<not> host_count_ok c p \<Longrightarrow> warm_targets c p = []"
  by (auto simp: warm_targets_def Let_def host_count_ok_def not_less)

lemma values_warm_targets:
  assumes "cluster_wf c" "host_count_ok c p"
  shows "hm_values (warm_targets c p)
    = map (warm_share (warm_target c p) (word_of_nat (length (warm_hosts c p))))
        [0..<length (warm_hosts c p)]"
  by (rule nth_equalityI)
    (auto simp: warm_targets_alt [OF assms] hm_values_def enumerate_eq_zip)

lemma keys_warm_targets:
  assumes "cluster_wf c" "host_count_ok c p"
  shows "hm_keys (warm_targets c p) = warm_hosts c p"
  by (rule nth_equalityI)
    (auto simp: warm_targets_alt [OF assms] hm_keys_def enumerate_eq_zip)

lemma warm_targets_wf: "hm_wf (warm_targets c p)"
  by (simp add: warm_targets_def Let_def)

lemma warm_target_host:
  assumes "cluster_wf c" "hm_get (warm_targets c p) nid = Some t"
  obtains n where "hm_get (nodes c) nid = Some n" "warm_host p n" "host_count_ok c p"
proof -
  have ok: "host_count_ok c p"
    using assms(2) warm_targets_none by fastforce
  have "nid \<in> set (hm_keys (warm_targets c p))"
    using assms(2) by (simp add: hm_keys_get)
  then have "nid \<in> set (warm_hosts c p)"
    by (simp add: keys_warm_targets [OF assms(1) ok])
  with ok that assms(1) show ?thesis by (auto simp: set_warm_hosts)
qed

lemma sum_warm_targets:
  assumes "cluster_wf c" "host_count_ok c p"
  shows "sum_list (map unat (hm_values (warm_targets c p))) = unat (warm_target c p)"
proof -
  let ?k = "length (warm_hosts c p)"
  have "map unat (hm_values (warm_targets c p))
      = map (\<lambda>i. unat (warm_target c p) div ?k + (if i < unat (warm_target c p) mod ?k then 1 else 0))
          [0..<?k]"
    using assms(2) by (simp add: values_warm_targets [OF assms] unat_warm_share host_count_ok_def)
  then show ?thesis
    using sum_shares [of ?k] assms(2) by (simp add: host_count_ok_def)
qed

lemma sum_warm_targets_u32:
  assumes "cluster_wf c" "host_count_ok c p"
  shows "sum_list (hm_values (warm_targets c p)) = warm_target c p"
  using sum_list_word_of_nat [of "\<lambda>x. x" "hm_values (warm_targets c p)"]
  by (simp add: sum_warm_targets [OF assms])

text \<open>No two hosts differ by more than one instance.\<close>

lemma warm_target_cases:
  assumes "cluster_wf c" "hm_get (warm_targets c p) nid = Some t"
  shows "unat t = unat (warm_target c p) div length (warm_hosts c p)
    \<or> unat t = unat (warm_target c p) div length (warm_hosts c p) + 1"
proof -
  obtain n where ok: "host_count_ok c p"
    using warm_target_host [OF assms] by blast
  have "t \<in> set (hm_values (warm_targets c p))"
    by (rule hm_values_in [OF assms(2)])
  with ok show ?thesis
    by (auto simp: values_warm_targets [OF assms(1) ok] unat_warm_share host_count_ok_def)
qed

subsection \<open>Adding an instance\<close>

definition started :: "pool \<Rightarrow> node \<Rightarrow> node" where
  "started p n = set_idle (pool_name p) (idle_on (pool_name p) (reserve p n) + 1) (reserve p n)"

lemma started_simps [simp]:
  "idle_on q (started p n) = (if q = pool_name p then idle_on q n + 1 else idle_on q n)"
  "same_profile (started p m) n = same_profile m n"
  "node_id (started p n) = node_id n"
  "node_wf n \<Longrightarrow> node_wf (started p n)"
  by (simp_all add: started_def)

lemma add_warm_cases [consumes 1, case_names refused added]:
  assumes wf: "cluster_wf c"
  obtains (refused) "add_warm_instance nid name c = (False, c)"
      "\<not> warm_instance_needed nid name c"
  | (added) p n target where "hm_get (pools c) name = Some p" "pool_name p = name"
      "hm_get (warm_targets c p) nid = Some target" "warm_instances_on c nid p < target"
      "warm_count c p name < sum_list (hm_values (warm_targets c p))" "under_limit c p name"
      "hm_get (nodes c) nid = Some n" "node_id n = nid" "warm_host p n"
      "warm_instance_needed nid name c"
      "add_warm_instance nid name c = (True, c\<lparr>nodes := hm_insert nid (started p n) (nodes c)\<rparr>)"
proof (cases "warm_instance_needed nid name c")
  case True
  then obtain p target where p: "hm_get (pools c) name = Some p"
      "hm_get (warm_targets c p) nid = Some target" "warm_instances_on c nid p < target"
      "warm_count c p name < sum_list (hm_values (warm_targets c p))" "under_limit c p name"
    by (auto simp: warm_instance_needed_def split: option.splits)
  obtain n where n: "hm_get (nodes c) nid = Some n" "warm_host p n"
    using warm_target_host [OF wf p(2)] by blast
  have "pool_name p = name" "node_id n = nid"
    using wf p(1) n(1) by (auto simp: cluster_wf_def dest: keyed_get nodes_wf_get)
  moreover have "add_warm_instance nid name c
      = (True, c\<lparr>nodes := hm_insert nid (started p n) (nodes c)\<rparr>)"
    using p n by (simp add: add_warm_instance_def warm_host_def not_le started_def Let_def)
  ultimately show ?thesis using added p n True by blast
next
  case False
  have "add_warm_instance nid name c = (False, c)"
    using False
    by (auto simp: add_warm_instance_def warm_instance_needed_def not_le split: option.splits)
  with False show ?thesis using refused by blast
qed

lemma add_warm_wf [wf_intros]:
  assumes "cluster_wf c"
  shows "cluster_wf (snd (add_warm_instance nid name c))
    \<and> same_config (snd (add_warm_instance nid name c)) c"
  using assms
proof (cases rule: add_warm_cases [of c nid name])
  case refused
  with assms show ?thesis by simp
next
  case (added p n target)
  then have "node_wf n" using assms by (auto simp: cluster_wf_def dest: nodes_wf_get)
  with added assms show ?thesis
    by (simp add: cluster_wf_def nodes_wf_insert same_config_def)
qed

text \<open>The host list only looks at the profile of the nodes.\<close>

lemma warm_host_profile: "same_profile m n \<Longrightarrow> warm_host p m = warm_host p n"
  by (simp add: warm_host_def same_profile_def has_artifact_def fits_def split: option.splits)

lemma warm_hosts_update:
  assumes wf: "nodes_wf (nodes c)" and n: "hm_get (nodes c) nid = Some n"
    and same: "same_profile m n"
  shows "warm_hosts (c\<lparr>nodes := hm_insert nid m (nodes c)\<rparr>) p = warm_hosts c p"
proof -
  have id: "node_id m = node_id n" "warm_host p m = warm_host p n"
    using same warm_host_profile [OF same] by (auto simp: same_profile_def)
  have m: "hm_wf (nodes c)" using wf by (auto simp: nodes_wf_def)
  have eqs: "mset (hm_values (hm_insert nid m (nodes c)))
      = add_mset m (mset (hm_values (hm_remove nid (nodes c))))"
      "mset (hm_values (nodes c)) = add_mset n (mset (hm_values (hm_remove nid (nodes c))))"
    using hm.mset_vals_put_old [OF m n, of m] hm.mset_vals_del [OF m n]
    by (simp_all only: hm_vals_values)
  have "mset (map node_id (filter (warm_host p) (hm_values (hm_insert nid m (nodes c)))))
      = mset (map node_id (filter (warm_host p) (hm_values (nodes c))))"
    by (simp only: mset_map mset_filter eqs) (simp add: id)
  from sort_perm [OF this] show ?thesis by (simp add: warm_hosts_def)
qed

lemma warm_targets_update:
  assumes "nodes_wf (nodes c)" "hm_get (nodes c) nid = Some n" "same_profile m n"
  shows "warm_targets (c\<lparr>nodes := hm_insert nid m (nodes c)\<rparr>) p = warm_targets c p"
proof -
  have "warm_target (c\<lparr>nodes := hm_insert nid m (nodes c)\<rparr>) p = warm_target c p"
    by (simp add: warm_target_def active_u32_def active_count_def cong: option.case_cong)
  then show ?thesis
    by (simp only: warm_targets_def warm_hosts_update [OF assms])
qed

lemma warm_instances_update:
  assumes "hm_get (nodes c) nid = Some n"
  shows "warm_instances_on (c\<lparr>nodes := hm_insert nid m (nodes c)\<rparr>) nid p
    = warm_instances_on c nid p - idle_on (pool_name p) n + idle_on (pool_name p) m"
  using assms by (simp add: warm_instances_on_def Let_def)

lemma idle_total_update:
  assumes "hm_wf (nodes c)" "hm_get (nodes c) nid = Some n"
  shows "idle_total (c\<lparr>nodes := hm_insert nid m (nodes c)\<rparr>) q + unat (idle_on q n)
    = idle_total c q + unat (idle_on q m)"
  using hm_sum_old [OF assms, of "\<lambda>n. unat (idle_on q n)" m] by (simp add: idle_total_def)

lemma idle_u32_total: "idle_u32 c q = word_of_nat (idle_total c q)"
  unfolding idle_u32_def idle_total_def by (rule sum_list_word_of_nat)

lemma add_warm_limits:
  assumes wf: "cluster_wf c" and lim: "within_limits c"
  shows "within_limits (snd (add_warm_instance nid name c))"
  using wf
proof (cases rule: add_warm_cases [of c nid name])
  case refused
  with lim show ?thesis by simp
next
  case (added p n target)
  let ?c = "c\<lparr>nodes := hm_insert nid (started p n) (nodes c)\<rparr>"
  have nwf: "hm_wf (nodes c)" by (rule cluster_wf_nodes [OF wf])
  have active: "active_count ?c q = active_count c q" for q by (simp add: active_count_def)
  have "instances ?c q \<le> unat l"
    if p': "hm_get (pools c) q = Some p'" and l: "pool_max_instances p' = Some l" for q p' l
  proof (cases "q = name")
    case True
    then have "p' = p" using p' added by simp
    have "instances c name \<le> unat l" using within_limitsD [OF lim p' l] True by simp
    moreover have "unat l < 2 ^ 32" using unsigned_less [of l, where 'a = nat] by simp
    ultimately have small: "instances c name < 2 ^ 32" by simp
    have "active_u32 c name + idle_u32 c name = word_of_nat (instances c name)"
      by (simp add: active_u32_def idle_u32_total instances_def)
    then have "word_of_nat (instances c name) < l"
      using added(6) l by (simp add: under_limit_def \<open>p' = p\<close> added(2))
    then have "instances c name < unat l"
      using small by (simp add: word_less_nat_alt unat_of_nat)
    moreover have "unat (idle_on name n + 1) \<le> unat (idle_on name n) + 1"
      by (simp add: unat_word_ariths)
    ultimately show ?thesis
      using idle_total_update [OF nwf added(7), of "started p n" name]
      by (simp add: instances_def active True added(2))
  next
    case False
    then show ?thesis
      using idle_total_update [OF nwf added(7), of "started p n" q] within_limitsD [OF lim p' l]
      by (simp add: instances_def active added(2))
  qed
  then show ?thesis
    unfolding within_limits_def by (auto simp: added(11))
qed

subsection \<open>Removing an idle instance\<close>

definition stopped :: "pool \<Rightarrow> node \<Rightarrow> node" where
  "stopped p n = unreserve p (set_idle (pool_name p) (idle_on (pool_name p) n - 1) n)"

lemma stopped_simps [simp]:
  "idle_on q (stopped p n) = (if q = pool_name p then idle_on q n - 1 else idle_on q n)"
  "same_profile (stopped p m) n = same_profile m n"
  "node_id (stopped p n) = node_id n"
  "node_wf n \<Longrightarrow> node_wf (stopped p n)"
  by (simp_all add: stopped_def)

lemma remove_idle_cases [consumes 1, case_names refused removed]:
  assumes wf: "cluster_wf c"
  obtains (refused) "remove_idle_instance nid name c = (False, c)"
  | (removed) p n target where "hm_get (pools c) name = Some p" "pool_name p = name"
      "target = (case hm_get (warm_targets c p) nid of Some t \<Rightarrow> t | None \<Rightarrow> 0)"
      "target < warm_instances_on c nid p"
      "sum_list (hm_values (warm_targets c p)) \<le> warm_count c p name"
      "hm_get (nodes c) nid = Some n" "node_id n = nid" "idle_on name n \<noteq> 0"
      "remove_idle_instance nid name c
        = (True, c\<lparr>nodes := hm_insert nid (stopped p n) (nodes c)\<rparr>)"
proof (cases "fst (remove_idle_instance nid name c)")
  case False
  then have "remove_idle_instance nid name c = (False, c)"
    by (auto simp: remove_idle_instance_def Let_def split: option.splits if_splits)
  then show ?thesis by (rule refused)
next
  case True
  then obtain p n i where some: "hm_get (pools c) name = Some p" "hm_get (nodes c) nid = Some n"
      "hm_get (node_idle_instances n) name = Some i"
    by (auto simp: remove_idle_instance_def Let_def split: option.splits if_splits)
  with True have *: "hm_get (pools c) name = Some p"
      "(case hm_get (warm_targets c p) nid of Some t \<Rightarrow> t | None \<Rightarrow> 0) < warm_instances_on c nid p"
      "sum_list (hm_values (warm_targets c p)) \<le> warm_count c p name"
      "hm_get (nodes c) nid = Some n" "hm_get (node_idle_instances n) name = Some i" "i \<noteq> 0"
    by (simp_all add: remove_idle_instance_def Let_def not_le not_less split: if_splits)
  have ids: "pool_name p = name" "node_id n = nid"
    using wf *(1,4) by (auto simp: cluster_wf_def dest: keyed_get nodes_wf_get)
  have idle: "idle_on name n = i" using *(5) by (simp add: idle_on_def)
  show ?thesis
    by (rule removed [OF *(1) ids(1) refl *(2,3,4) ids(2)])
      (use * ids idle in \<open>auto simp: remove_idle_instance_def Let_def not_le not_less stopped_def
        unreserve_def set_idle_def split: option.splits\<close>)
qed

lemma remove_idle_wf [wf_intros]:
  assumes "cluster_wf c"
  shows "cluster_wf (snd (remove_idle_instance nid name c))
    \<and> same_config (snd (remove_idle_instance nid name c)) c"
  using assms
proof (cases rule: remove_idle_cases [of c nid name])
  case refused
  with assms show ?thesis by simp
next
  case (removed p n target)
  then have "node_wf n" using assms by (auto simp: cluster_wf_def dest: nodes_wf_get)
  with removed assms show ?thesis
    by (simp add: cluster_wf_def nodes_wf_insert same_config_def)
qed

lemma remove_idle_limits:
  assumes wf: "cluster_wf c" and lim: "within_limits c"
  shows "within_limits (snd (remove_idle_instance nid name c))"
  using wf
proof (cases rule: remove_idle_cases [of c nid name])
  case refused
  with lim show ?thesis by simp
next
  case (removed p n target)
  let ?c = "c\<lparr>nodes := hm_insert nid (stopped p n) (nodes c)\<rparr>"
  have nwf: "hm_wf (nodes c)" by (rule cluster_wf_nodes [OF wf])
  have "unat (idle_on q (stopped p n)) \<le> unat (idle_on q n)" for q
    using removed(2,8) by (simp add: unat_pred)
  then have "idle_total ?c q \<le> idle_total c q" for q
    using idle_total_update [OF nwf removed(6), of "stopped p n" q]
    by (metis add_le_cancel_right add_left_mono)
  then have "instances ?c q \<le> instances c q" for q
    by (simp add: instances_def active_count_def)
  then show ?thesis
    using lim by (simp add: within_limits_def removed(9)) (meson order_trans)
qed

subsection \<open>Neither operation undoes the other\<close>

lemma word_inc_le: "(x::'a::len word) < y \<Longrightarrow> x + 1 \<le> y"
  by (simp add: inc_le)

lemma word_dec_ge: "(x::'a::len word) < y \<Longrightarrow> x \<le> y - 1"
  by (cases "y = 0") (auto simp: word_less_nat_alt word_le_nat_alt unat_pred)

lemma add_then_keep:
  assumes wf: "cluster_wf c" and add: "add_warm_instance nid name c = (True, c')"
  shows "remove_idle_instance nid name c' = (False, c')"
  using wf
proof (cases rule: add_warm_cases [of c nid name])
  case refused
  with add show ?thesis by simp
next
  case (added p n target)
  let ?c = "c\<lparr>nodes := hm_insert nid (started p n) (nodes c)\<rparr>"
  have c': "c' = ?c" using added add by simp
  have nwf: "nodes_wf (nodes c)" using wf by (simp add: cluster_wf_def)
  have target: "hm_get (warm_targets ?c p) nid = Some target"
    using added(3) by (simp add: warm_targets_update [OF nwf added(7)])
  have "warm_instances_on ?c nid p = warm_instances_on c nid p + 1"
    by (simp add: warm_instances_update [OF added(7)] added(2))
  then have "warm_instances_on ?c nid p \<le> target"
    using added(4) by (simp add: word_inc_le)
  with target added(1) show ?thesis
    by (simp add: c' remove_idle_instance_def)
qed

lemma remove_then_keep:
  assumes wf: "cluster_wf c" and remove: "remove_idle_instance nid name c = (True, c')"
  shows "\<not> warm_instance_needed nid name c'"
  using wf
proof (cases rule: remove_idle_cases [of c nid name])
  case refused
  with remove show ?thesis by simp
next
  case (removed p n target)
  let ?c = "c\<lparr>nodes := hm_insert nid (stopped p n) (nodes c)\<rparr>"
  have c': "c' = ?c" using removed remove by simp
  have nwf: "nodes_wf (nodes c)" using wf by (simp add: cluster_wf_def)
  have "warm_instances_on ?c nid p = warm_instances_on c nid p - 1"
    by (simp add: warm_instances_update [OF removed(6)] removed(2))
  then have "target \<le> warm_instances_on ?c nid p"
    using removed(4) by (simp add: word_dec_ge)
  with removed(1,3) show ?thesis
    by (auto simp: c' warm_instance_needed_def warm_targets_update [OF nwf removed(6)] not_less
        split: option.splits)
qed

subsection \<open>When no host asks for more, the pool is warm\<close>

text \<open>
  The instances of the pool that the hosts report: idle ones, and for a pool that reuses its
  instances the running ones too.
\<close>

definition warm_on :: "cluster \<Rightarrow> pool \<Rightarrow> uuid \<Rightarrow> nat" where
  "warm_on c p nid =
     (case hm_get (nodes c) nid of Some n \<Rightarrow> unat (idle_on (pool_name p) n) | None \<Rightarrow> 0)
     + (if pool_reuse p then length (filter
          (\<lambda>e. active_in (pool_name p) e \<and> exec_node e = Some nid) (hm_values (executions c))) else 0)"

lemma sum_count_distinct:
  "distinct ks \<Longrightarrow> (\<Sum>k\<leftarrow>ks. length (filter (\<lambda>x. P x \<and> f x = Some k) xs)) \<le> length (filter P xs)"
proof (induction xs)
  case Nil
  then show ?case by (simp add: sum_list_triv)
next
  case (Cons x xs)
  have "(\<Sum>k\<leftarrow>ks. if f x = Some k then 1 else 0) \<le> (1::nat)"
    using Cons.prems
    by (cases "f x") (simp_all add: sum_list_distinct_conv_sum_set flip: sum.inter_filter)
  moreover have "length (filter (\<lambda>x. P x \<and> f x = Some k) (x # xs))
      = (if P x then (if f x = Some k then 1 else 0) else 0)
        + length (filter (\<lambda>x. P x \<and> f x = Some k) xs)" for k
    by simp
  ultimately show ?case
    using Cons by (simp only: sum_list_addf) (auto simp: sum_list_triv)
qed

lemma sum_idle_hosts:
  assumes wf: "cluster_wf c"
  shows "(\<Sum>nid\<leftarrow>warm_hosts c p. case hm_get (nodes c) nid of
      Some n \<Rightarrow> unat (idle_on q n) | None \<Rightarrow> 0) \<le> idle_total c q"
proof -
  let ?hosts = "filter (warm_host p) (hm_values (nodes c))"
  let ?g = "\<lambda>nid. case hm_get (nodes c) nid of Some n \<Rightarrow> unat (idle_on q n) | None \<Rightarrow> 0"
  have keyed: "keyed node_id (nodes c)" using wf by (simp add: cluster_wf_def nodes_wf_def)
  have "mset (warm_hosts c p) = mset (map node_id ?hosts)"
    by (simp add: warm_hosts_def)
  then have "sum_list (map ?g (warm_hosts c p)) = sum_list (map ?g (map node_id ?hosts))"
    by (rule sum_list_cong_mset)
  also have "map ?g (map node_id ?hosts) = map (\<lambda>n. unat (idle_on q n)) ?hosts"
    by (auto simp: keyed_values_get [OF keyed])
  also have "sum_list \<dots> \<le> idle_total c q"
    unfolding idle_total_def by (rule sum_list_filter_le_nat)
  finally show ?thesis .
qed

lemma sum_warm_on:
  assumes "cluster_wf c"
  shows "(\<Sum>nid\<leftarrow>warm_hosts c p. warm_on c p nid)
    \<le> idle_total c (pool_name p) + (if pool_reuse p then active_count c (pool_name p) else 0)"
proof (cases "pool_reuse p")
  case True
  have "(\<Sum>nid\<leftarrow>warm_hosts c p. length (filter
      (\<lambda>e. active_in (pool_name p) e \<and> exec_node e = Some nid) (hm_values (executions c))))
      \<le> active_count c (pool_name p)"
    unfolding active_count_def by (rule sum_count_distinct [OF distinct_warm_hosts [OF assms]])
  with sum_idle_hosts [OF assms, of "pool_name p" p] True show ?thesis
    unfolding warm_on_def by (simp only: sum_list_addf if_True)
next
  case False
  with sum_idle_hosts [OF assms, of "pool_name p" p] show ?thesis
    unfolding warm_on_def by (simp only: if_False add_0_right)
qed

lemma warm_instances_on_unat:
  assumes "idle_total c (pool_name p) + active_count c (pool_name p) < 2 ^ 32"
  shows "unat (warm_instances_on c nid p) = warm_on c p nid"
proof -
  let ?run = "length (filter (\<lambda>e. active_in (pool_name p) e \<and> exec_node e = Some nid)
    (hm_values (executions c)))"
  let ?idle = "case hm_get (nodes c) nid of Some n \<Rightarrow> idle_on (pool_name p) n | None \<Rightarrow> 0"
  have run: "?run \<le> active_count c (pool_name p)"
    unfolding active_count_def by (rule length_filter_le_mono) simp
  have idle: "unat ?idle \<le> idle_total c (pool_name p)"
    by (auto split: option.splits intro: idle_le_total)
  have "unat ?idle + unat (word_of_nat ?run :: u32) < 2 ^ 32"
    using run idle assms by (simp add: unat_of_nat)
  then have "unat (?idle + word_of_nat ?run) = unat ?idle + ?run"
    using run assms by (subst unat_add_no_wrap) (simp_all add: unat_of_nat)
  then show ?thesis
    by (auto simp: warm_instances_on_def Let_def warm_on_def split: option.splits)
qed

lemma warm_count_unat:
  assumes "idle_total c name + active_count c name < 2 ^ 32" "pool_name p = name"
  shows "unat (warm_count c p name)
    = idle_total c name + (if pool_reuse p then active_count c name else 0)"
proof -
  have "idle_u32 c name + active_u32 c name = word_of_nat (idle_total c name + active_count c name)"
    by (simp add: idle_u32_total active_u32_def)
  then have "unat (idle_u32 c name + active_u32 c name) = idle_total c name + active_count c name"
    using assms(1) by (simp only: unat_of_nat) simp
  moreover have "idle_total c name < 2 ^ 32" using assms(1) by simp
  ultimately show ?thesis
    using assms by (simp add: warm_count_def idle_u32_total unat_of_nat)
qed

text \<open>
  Every host has its share, or the whole pool has its target, or the pool is at its limit; in
  each case the warm instances reach the target.
\<close>

lemma warm_converged:
  assumes wf: "cluster_wf c" and p: "hm_get (pools c) name = Some p"
    and hosts: "host_count_ok c p"
    and small: "idle_total c name + active_count c name < 2 ^ 32"
    and quiet: "\<And>nid. \<not> warm_instance_needed nid name c"
  shows "warm_target c p \<le> warm_count c p name"
proof -
  have name: "pool_name p = name" using wf p by (auto simp: cluster_wf_def dest: keyed_get)
  note sum = sum_warm_targets_u32 [OF wf hosts]
  have asks: "\<not> (warm_instances_on c nid p < t \<and> warm_count c p name < warm_target c p
      \<and> under_limit c p name)" if "hm_get (warm_targets c p) nid = Some t" for nid t
    using quiet [of nid] p that by (simp add: warm_instance_needed_def sum)
  consider (full) "\<not> under_limit c p name" | (total) "warm_target c p \<le> warm_count c p name"
    | (shares) "\<And>nid t. hm_get (warm_targets c p) nid = Some t \<Longrightarrow> t \<le> warm_instances_on c nid p"
    using asks by (meson not_less)
  then show ?thesis
  proof cases
    case full
    then obtain l where l: "pool_max_instances p = Some l"
        "l \<le> active_u32 c name + idle_u32 c name"
      by (auto simp: under_limit_def name not_less split: option.splits)
    have "active_u32 c name + idle_u32 c name
        = word_of_nat (idle_total c name + active_count c name)"
      by (simp add: idle_u32_total active_u32_def)
    then have "unat (active_u32 c name + idle_u32 c name) = idle_total c name + active_count c name"
      using small by (simp only: unat_of_nat) simp
    with l(2) have big: "unat l \<le> idle_total c name + active_count c name"
      by (simp add: word_le_nat_alt)
    have "unat (active_u32 c name) = active_count c name"
      using small by (simp add: active_u32_def unat_of_nat)
    with big l(1) show ?thesis
      using warm_count_unat [OF small name]
      by (auto simp: word_le_nat_alt warm_target_def unat_saturating name min_def)
  next
    case total
    then show ?thesis .
  next
    case shares
    have small': "idle_total c (pool_name p) + active_count c (pool_name p) < 2 ^ 32"
      using small name by simp
    have "unat (warm_target c p) = sum_list (map unat (hm_values (warm_targets c p)))"
      by (simp add: sum_warm_targets [OF wf hosts])
    also have "\<dots> = (\<Sum>nid\<leftarrow>warm_hosts c p.
        unat (case hm_get (warm_targets c p) nid of Some t \<Rightarrow> t | None \<Rightarrow> 0))"
    proof -
      have "map unat (hm_values m)
          = map (\<lambda>k. unat (case hm_get m k of Some t \<Rightarrow> t | None \<Rightarrow> 0)) (hm_keys m)"
        if "hm_wf m" for m :: "(uuid, u32) hashmap"
        using that by (auto simp: hm_values_def hm_keys_def hm_wf_def hm_get_def)
      from this [OF warm_targets_wf] show ?thesis
        by (simp only: keys_warm_targets [OF wf hosts])
    qed
    also have "\<dots> \<le> (\<Sum>nid\<leftarrow>warm_hosts c p. warm_on c p nid)"
      by (rule sum_list_map_mono_nat)
        (use shares warm_instances_on_unat [OF small'] in
          \<open>auto simp: word_le_nat_alt split: option.splits\<close>)
    also have "\<dots> \<le> unat (warm_count c p name)"
      using sum_warm_on [OF wf, of p]
      by (cases "pool_reuse p") (simp_all add: warm_count_unat [OF small name] name)
    finally show ?thesis by (simp add: word_le_nat_alt)
  qed
qed

end
