(* ===== verification/Release_Facts.thy ===== *)
theory Release_Facts
  imports Warm_Facts
begin

section \<open>Giving instances and resources back\<close>

text \<open>
  What \<open>release\<close> and \<open>reset_idle_instances\<close> do to the books of a node: a placement followed by
  the matching release restores them, and a reset returns the resources of every idle instance.
\<close>

lemma release_cases:
  obtains (unchanged) "release eid k c = c"
  | (freed) e nid p n where "hm_get (executions c) eid = Some e" "exec_node e = Some nid"
      "hm_get (pools c) (exec_pool e) = Some p" "hm_get (nodes c) nid = Some n"
      "release eid k c = c\<lparr>nodes := hm_insert nid (release_slot p k n) (nodes c)\<rparr>"
  by (cases "release eid k c = c") (auto simp: release_def split: option.splits)

lemma release_wf [wf_intros]:
  assumes "cluster_wf c"
  shows "cluster_wf (release eid k c)"
proof (cases rule: release_cases [of eid k c])
  case unchanged
  with assms show ?thesis by simp
next
  case (freed e nid p n)
  then have "node_wf n" "node_id n = nid"
    using assms by (auto simp: cluster_wf_def dest: nodes_wf_get)
  with freed assms show ?thesis by (simp add: cluster_wf_def nodes_wf_insert)
qed

lemma release_frame [simp]:
  "executions (release eid k c) = executions c" "pools (release eid k c) = pools c"
  "images (release eid k c) = images c" "environments (release eid k c) = environments c"
  "join_tokens (release eid k c) = join_tokens c"
  "node_credentials (release eid k c) = node_credentials c"
  "round_robin (release eid k c) = round_robin c"
  by (auto simp: release_def split: option.splits)

definition same_books :: "node \<Rightarrow> node \<Rightarrow> bool" where
  "same_books m n \<longleftrightarrow>
     same_profile m n \<and> node_used_cpu_millis m = node_used_cpu_millis n \<and>
     node_used_memory_mib m = node_used_memory_mib n \<and> (\<forall>q. idle_on q m = idle_on q n)"

text \<open>The node has room in its 32-bit counters for one more instance.\<close>

definition no_overflow :: "pool \<Rightarrow> node \<Rightarrow> bool" where
  "no_overflow p n \<longleftrightarrow>
     unat (node_used_cpu_millis n) + unat (pool_cpu_millis p) < 2 ^ 32 \<and>
     unat (node_used_memory_mib n) + unat (pool_memory_mib p) < 2 ^ 32"

lemma release_take_slot:
  assumes "no_overflow p n"
  shows "same_books (release_slot p (0 < idle_on (pool_name p) n) (take_slot p n)) n"
proof (cases "0 < idle_on (pool_name p) n")
  case True
  then show ?thesis
    by (auto simp: same_books_def release_slot_def take_slot_def Let_def)
      (simp_all add: set_idle_def)
next
  case False
  have "saturating_sub (saturating_add (node_used_cpu_millis n) (pool_cpu_millis p))
      (pool_cpu_millis p) = node_used_cpu_millis n"
    "saturating_sub (saturating_add (node_used_memory_mib n) (pool_memory_mib p))
      (pool_memory_mib p) = node_used_memory_mib n"
    using assms by (simp_all add: no_overflow_def saturating_add_sub_cancel)
  with False show ?thesis
    by (auto simp: same_books_def release_slot_def take_slot_def Let_def word_gt_0)
      (simp_all add: set_idle_def reserve_def unreserve_def)
qed

lemma release_after_schedule:
  assumes wf: "cluster_wf c" and s: "schedule eid c = Some (True, c')"
  obtains e nid p n where "hm_get (executions c') eid = Some e" "exec_node e = Some nid"
    "hm_get (pools c) (exec_pool e) = Some p" "hm_get (nodes c) nid = Some n"
    "pool_name p = exec_pool e"
    "\<And>k. hm_get (nodes (release eid k c')) nid = Some (release_slot p k (take_slot p n))"
  using wf
proof (cases rule: schedule_cases [of c eid])
  case refused
  with s show ?thesis by simp
next
  case (assigned e p n)
  have c': "c' = assigned_cluster eid e p n c" using assigned s by simp
  have "pool_name p = exec_pool e"
    using assigned(2) wf by (auto simp: placeable_Some cluster_wf_def dest: keyed_get)
  then show ?thesis
    using assigned(2,3)
    by (intro that [of "assign_execution e (node_id n)" "node_id n" p n])
      (auto simp: c' placeable_Some release_def assign_execution_def)
qed

subsection \<open>Resetting a node\<close>

definition idle_load :: "(pool \<Rightarrow> u32) \<Rightarrow> (string, pool) hashmap \<Rightarrow> (string \<times> u32) list \<Rightarrow> nat" where
  "idle_load f ps xs =
     (\<Sum>(name, i)\<leftarrow>xs. case hm_get ps name of None \<Rightarrow> 0
        | Some p \<Rightarrow> unat (saturating_mul (f p) i))"

lemma give_back_simps:
  "unat (node_used_cpu_millis (give_back ps x n))
    = unat (node_used_cpu_millis n) - idle_load pool_cpu_millis ps [x]"
  "unat (node_used_memory_mib (give_back ps x n))
    = unat (node_used_memory_mib n) - idle_load pool_memory_mib ps [x]"
  "node_idle_instances (give_back ps x n) = node_idle_instances n"
  "same_profile (give_back ps x m) n = same_profile m n"
  by (cases x, simp add: give_back_def idle_load_def unat_saturating_sub same_profile_def
      split: option.split)+

lemma fold_give_back:
  "unat (node_used_cpu_millis (fold (give_back ps) xs n))
    = unat (node_used_cpu_millis n) - idle_load pool_cpu_millis ps xs"
  "unat (node_used_memory_mib (fold (give_back ps) xs n))
    = unat (node_used_memory_mib n) - idle_load pool_memory_mib ps xs"
  "node_idle_instances (fold (give_back ps) xs n) = node_idle_instances n"
  "same_profile (fold (give_back ps) xs m) n = same_profile m n"
  by (induction xs arbitrary: n m) (auto simp: give_back_simps idle_load_def)

lemma same_profile_clear [simp]:
  "same_profile (m\<lparr>node_idle_instances := xs\<rparr>) n = same_profile m n"
  by (simp add: same_profile_def)

lemma reset_idle_node:
  assumes "hm_get (nodes c) nid = Some n"
  obtains n' where "hm_get (nodes (reset_idle_instances nid c)) nid = Some n'"
    "same_profile n' n" "node_idle_instances n' = []" "\<And>q. idle_on q n' = 0"
    "unat (node_used_cpu_millis n')
      = unat (node_used_cpu_millis n) - idle_load pool_cpu_millis (pools c) (node_idle_instances n)"
    "unat (node_used_memory_mib n')
      = unat (node_used_memory_mib n) - idle_load pool_memory_mib (pools c) (node_idle_instances n)"
proof (rule that)
  let ?n = "fold (give_back (pools c)) (node_idle_instances n) (n\<lparr>node_idle_instances := []\<rparr>)"
  show "hm_get (nodes (reset_idle_instances nid c)) nid = Some ?n"
    by (simp add: reset_idle_instances_def assms)
qed (simp_all add: fold_give_back idle_on_def)

lemma reset_idle_wf [wf_intros]:
  assumes "cluster_wf c"
  shows "cluster_wf (reset_idle_instances nid c)"
proof (cases "hm_get (nodes c) nid")
  case None
  with assms show ?thesis by (simp add: reset_idle_instances_def)
next
  case (Some n)
  let ?n = "fold (give_back (pools c)) (node_idle_instances n) (n\<lparr>node_idle_instances := []\<rparr>)"
  have "same_profile ?n n" by (simp add: fold_give_back)
  then have "node_id ?n = node_id n" by (simp add: same_profile_def)
  moreover have "node_wf ?n" by (simp add: node_wf_def fold_give_back)
  moreover have "node_id n = nid" using assms Some by (auto simp: cluster_wf_def dest: nodes_wf_get)
  ultimately show ?thesis
    using assms by (simp add: reset_idle_instances_def Some cluster_wf_def nodes_wf_insert)
qed

end
