(* ===== verification/Cluster_Properties.thy ===== *)
theory Cluster_Properties
  imports Scheduler_Rotation Scheduler_Fifo Release_Facts
begin

section \<open>The properties of scheduling and of the warm pool\<close>

text \<open>
  The properties of \<open>platform/src/cluster.rs\<close>, each with a witness on a small cluster: one image,
  one pool with a limit, two nodes that have the image, and two queued executions.
\<close>

definition demo_pool :: pool where
  "demo_pool =
     \<lparr>pool_name = ''web'', pool_image = 7, pool_warm_instances = 3, pool_max_instances = Some 4,
      pool_cpu_millis = 500, pool_memory_mib = 256, pool_disk_mib = 64, pool_timeout_secs = 60,
      pool_idle_timeout_secs = 30, pool_reuse = True, pool_network = False, pool_ports = [],
      pool_managed_by = None, pool_environment = None, pool_environment_artifact = None,
      pool_preload = []\<rparr>"

definition demo_image :: image where
  "demo_image =
     \<lparr>image_id = 7, image_name = ''base'', image_sha256 = ''00'', image_size = 1,
      image_compatible = True, image_executor = Some ''python'', image_kind = MicroVmImage,
      image_docker_source = None\<rparr>"

definition demo_node :: "uuid \<Rightarrow> node" where
  "demo_node i =
     \<lparr>node_id = i, node_name = ''n'', node_cpu_millis = 4000, node_memory_mib = 8192,
      node_vm_start_concurrency = None, node_address = None, node_used_cpu_millis = 0,
      node_used_memory_mib = 0, node_images = {7}, node_environments = {},
      node_idle_instances = [], node_vms = [], node_status = Ready, node_last_seen_ms = 0\<rparr>"

definition demo_execution :: "uuid \<Rightarrow> u64 \<Rightarrow> execution" where
  "demo_execution i t =
     \<lparr>exec_id = i, exec_pool = ''web'', exec_node = None, exec_status = Queued,
      exec_payload = JNull, exec_variables = [], exec_result = None, exec_error = None,
      exec_created_at_ms = t, exec_started_at_ms = None, exec_finished_at_ms = None,
      exec_environment = None, exec_metrics = None\<rparr>"

definition demo :: cluster where
  "demo = empty_cluster\<lparr>images := [(7, demo_image)], pools := [(''web'', demo_pool)],
     nodes := [(3, demo_node 3), (2, demo_node 2)],
     executions := [(10, demo_execution 10 5), (11, demo_execution 11 4)]\<rparr>"

lemmas demo_defs = demo_pool_def demo_image_def demo_node_def demo_execution_def demo_def
  empty_cluster_def

lemmas hm_defs = hm_get_def hm_insert_def hm_values_def hm_keys_def hm_map_values_def

lemmas scheduler_defs = active_in_def active_status_def active_count_def idle_on_def idle_total_def
  has_artifact_def fits_def schedulable_def candidates_def preferred_def pick_def
  limit_reached_def queued_order_def schedule_queued_def

lemmas warm_defs = warm_instance_needed_def warm_instances_on_def under_limit_def idle_u32_def
  active_u32_def warm_count_def warm_targets_def warm_hosts_def warm_host_def warm_target_def
  hm_collect_def warm_share_def

lemmas demo_eval = demo_defs hm_defs scheduler_defs warm_defs schedule_def Let_def
  assign_execution_def take_slot_def set_idle_def reserve_def

lemma demo_wf: "cluster_wf demo"
  by (simp add: demo_defs cluster_wf_def nodes_wf_def node_wf_def hm_get_def)

lemma demo_limits: "within_limits demo"
  by (simp add: within_limits_def instances_def demo_eval)

lemma demo_schedule: "\<exists>c. schedule 10 demo = Some (True, c)"
  by (simp add: demo_eval)

lemma demo_pass: "\<exists>c. schedule_queued demo = Some
    ([assign_execution (demo_execution 11 4) 2, assign_execution (demo_execution 10 5) 3], c)"
  by (simp add: demo_eval)

lemma demo_needed: "warm_instance_needed 2 ''web'' demo"
  by (simp add: demo_eval)

lemma demo_added: "\<exists>c. add_warm_instance 2 ''web'' demo = (True, c)"
  using demo_needed by (cases rule: add_warm_cases [OF demo_wf, of 2 "''web''"]) auto

subsection \<open>Scheduling one execution\<close>

text \<open>\<open>Cluster::schedule\<close> never panics on a well-formed cluster, keeps it well formed, and
  changes nothing but nodes, executions and the round-robin counter.\<close>

theorem schedule_safe:
  assumes "cluster_wf c"
  shows "\<exists>b c'. schedule eid c = Some (b, c') \<and> cluster_wf c' \<and> same_config c' c \<and> (b \<or> c' = c)"
  using schedule_total [OF assms, of eid] schedule_wf [OF assms] schedule_FalseD [OF assms] by metis

theorem schedule_safe_witness:
  "\<exists>b c'. schedule 10 demo = Some (b, c') \<and> cluster_wf c' \<and> same_config c' demo \<and> (b \<or> c' = demo)"
  by (rule schedule_safe [OF demo_wf])

text \<open>C1: an execution is placed exactly when its pool exists, the running instances are below the
  pool's limit, and some ready node that has the image and the environment artifact either holds an
  idle instance or is large enough while running and idle instances together leave room.\<close>

theorem schedule_places_iff:
  assumes "cluster_wf c"
  shows "(\<exists>c'. schedule eid c = Some (True, c')) \<longleftrightarrow>
      (\<exists>e p n. hm_get (executions c) eid = Some e \<and> hm_get (pools c) (exec_pool e) = Some p \<and>
        \<not> limit_reached p (active_count c (pool_name p)) \<and>
        n \<in> set (hm_values (nodes c)) \<and> node_status n = Ready \<and> pool_image p \<in> node_images n \<and>
        has_artifact p n \<and>
        (0 < idle_on (pool_name p) n \<or>
         \<not> limit_reached p (active_count c (pool_name p) + idle_total c (pool_name p)) \<and> fits p n))"
    (is "?L \<longleftrightarrow> ?R")
proof -
  have "?R \<longleftrightarrow> (\<exists>e p n. placeable c eid = Some (e, p) \<and> n \<in> set (hm_values (nodes c)) \<and>
      schedulable p (can_start c p) n)"
    by (simp only: placeable_Some schedulable_def can_start_def) blast
  also have "\<dots> \<longleftrightarrow> (\<exists>e p. placeable c eid = Some (e, p) \<and>
      candidates p (can_start c p) (hm_values (nodes c)) \<noteq> [])"
    by (simp only: candidates_empty_iff) blast
  also have "\<dots> \<longleftrightarrow> ?L"
  proof
    assume "\<exists>e p. placeable c eid = Some (e, p) \<and>
      candidates p (can_start c p) (hm_values (nodes c)) \<noteq> []"
    then show ?L using schedule_assigns [OF assms] by metis
  next
    assume ?L
    with assms show "\<exists>e p. placeable c eid = Some (e, p) \<and>
        candidates p (can_start c p) (hm_values (nodes c)) \<noteq> []"
      using hm_values_in
      by (cases rule: schedule_cases [of c eid]) (fastforce simp: candidates_empty_iff)+
  qed
  finally show ?thesis by blast
qed

theorem schedule_places_iff_witness:
  "(\<exists>c'. schedule 10 demo = Some (True, c')) \<longleftrightarrow>
      (\<exists>e p n. hm_get (executions demo) 10 = Some e \<and> hm_get (pools demo) (exec_pool e) = Some p \<and>
        \<not> limit_reached p (active_count demo (pool_name p)) \<and>
        n \<in> set (hm_values (nodes demo)) \<and> node_status n = Ready \<and> pool_image p \<in> node_images n \<and>
        has_artifact p n \<and>
        (0 < idle_on (pool_name p) n \<or>
         \<not> limit_reached p (active_count demo (pool_name p) + idle_total demo (pool_name p)) \<and>
         fits p n))"
  by (rule schedule_places_iff [OF demo_wf])

text \<open>A placement assigns the execution to a ready node that has what the pool needs, takes an
  idle instance there or else reserves the pool's resources, prefers a node with an idle instance
  whenever some suitable node has one, and touches no other node and no other execution.\<close>

theorem schedule_effect:
  assumes "cluster_wf c" "schedule eid c = Some (True, c')"
  shows "\<exists>e p n. hm_get (executions c) eid = Some e \<and> hm_get (pools c) (exec_pool e) = Some p \<and>
      hm_get (nodes c) (node_id n) = Some n \<and> schedulable p (can_start c p) n \<and>
      (idle_on (pool_name p) n = 0 \<longrightarrow>
        (\<forall>m \<in> set (hm_values (nodes c)). schedulable p (can_start c p) m \<longrightarrow>
           idle_on (pool_name p) m = 0)) \<and>
      c' = c\<lparr>round_robin := round_robin c + 1,
             nodes := hm_insert (node_id n)
               (if 0 < idle_on (pool_name p) n
                then set_idle (pool_name p) (idle_on (pool_name p) n - 1) n
                else reserve p (set_idle (pool_name p) 0 n)) (nodes c),
             executions := hm_insert eid
               (e\<lparr>exec_node := Some (node_id n), exec_status := Assigned\<rparr>) (executions c)\<rparr>"
  using assms(1)
proof (cases rule: schedule_cases [of c eid])
  case refused
  with assms show ?thesis by simp
next
  case (assigned e p n)
  have "idle_on (pool_name p) m = 0"
    if "idle_on (pool_name p) n = 0" "m \<in> set (hm_values (nodes c))"
      "schedulable p (can_start c p) m" for m
  proof -
    have "(idle_on (pool_name p) m = 0, node_id m)
        \<in> set (candidates p (can_start c p) (hm_values (nodes c)))"
      using that by (auto simp: set_candidates)
    with preferred_idle_first assigned(6) that(1) show ?thesis by blast
  qed
  moreover have "c' = assigned_cluster eid e p n c" using assigned(1) assms(2) by simp
  ultimately show ?thesis
    using assigned(2-4)
    by (intro exI [of _ e] exI [of _ p] exI [of _ n])
      (auto simp: placeable_Some assigned_cluster_def take_slot_def Let_def assign_execution_def)
qed

theorem schedule_effect_witness:
  "\<exists>c' e n. schedule 10 demo = Some (True, c') \<and> hm_get (nodes demo) (node_id n) = Some n \<and>
     node_status n = Ready \<and>
     hm_get (executions c') 10 = Some (e\<lparr>exec_node := Some (node_id n), exec_status := Assigned\<rparr>)"
proof -
  obtain c' where c': "schedule 10 demo = Some (True, c')" using demo_schedule by blast
  obtain e p n where "hm_get (nodes demo) (node_id n) = Some n" "schedulable p (can_start demo p) n"
      "executions c' = hm_insert 10
         (e\<lparr>exec_node := Some (node_id n), exec_status := Assigned\<rparr>) (executions demo)"
    using schedule_effect [OF demo_wf c'] by auto
  with c' show ?thesis by (auto simp: schedulable_def)
qed

subsection \<open>The queue\<close>

text \<open>C20: a pass over the queue never panics and keeps the cluster well formed; the instances it
  returns are exactly the queued executions it assigned, stored as returned, every other execution
  is unchanged, and nothing that is still queued could be placed: the pass loses no work and leaves
  no capacity unused.\<close>

theorem schedule_queued_complete:
  assumes "cluster_wf c"
  shows "\<exists>es c'. schedule_queued c = Some (es, c') \<and> cluster_wf c' \<and> same_config c' c \<and>
      (\<forall>e \<in> set es. hm_get (executions c') (exec_id e) = Some e \<and>
         (\<exists>e0 nid. hm_get (executions c) (exec_id e) = Some e0 \<and> exec_status e0 = Queued \<and>
            e = e0\<lparr>exec_node := Some nid, exec_status := Assigned\<rparr>)) \<and>
      (\<forall>i. i \<notin> exec_id ` set es \<longrightarrow> hm_get (executions c') i = hm_get (executions c) i) \<and>
      (\<forall>i. queued_in c' i \<longrightarrow> schedule i c' = Some (False, c'))"
proof -
  obtain es c' where pass: "schedule_queued c = Some (es, c')"
    using schedule_queued_ok [OF assms] by blast
  note ok = schedule_queuedD [OF assms pass]
  have "\<exists>e0 nid. hm_get (executions c) (exec_id e) = Some e0 \<and> exec_status e0 = Queued \<and>
      e = e0\<lparr>exec_node := Some nid, exec_status := Assigned\<rparr>" if "e \<in> set es" for e
  proof -
    have "\<exists>e0 nid. hm_get (executions c) (exec_id e) = Some e0 \<and> e = assign_execution e0 nid"
      using ok that by (simp add: pass_ok_def)
    then obtain e0 nid where e0: "hm_get (executions c) (exec_id e) = Some e0"
        "e = assign_execution e0 nid"
      by blast
    have "exec_id e \<in> set (queued_order c)" using ok that unfolding pass_ok_def by auto
    then have "exec_status e0 = Queued"
      using e0(1) assms by (simp add: set_queued_order queued_in_def)
    with e0 show ?thesis by (auto simp: assign_execution_def)
  qed
  moreover have "\<forall>i. queued_in c' i \<longrightarrow> schedule i c' = Some (False, c')"
    using schedule_queued_blocked [OF assms pass] by blast
  ultimately show ?thesis
    using pass ok unfolding pass_ok_def by blast
qed

theorem schedule_queued_complete_witness:
  "\<exists>es c'. schedule_queued demo = Some (es, c') \<and> cluster_wf c' \<and>
      (\<forall>i. queued_in c' i \<longrightarrow> schedule i c' = Some (False, c'))"
  using schedule_queued_complete [OF demo_wf] by blast

text \<open>C22: the pass places executions in order of creation, ties broken by identifier, and within a
  pool it is first come, first served: an execution still queued after the pass is younger than
  every execution of its pool that the pass placed.\<close>

theorem schedule_queued_fair:
  assumes "cluster_wf c" "schedule_queued c = Some (es, c')"
  shows "sorted (map queue_key es) \<and>
    (\<forall>x \<in> set es. \<forall>a ea. hm_get (executions c') a = Some ea \<longrightarrow> exec_status ea = Queued \<longrightarrow>
       exec_pool x = exec_pool ea \<longrightarrow> queue_key x < queue_key ea)"
  using schedule_queued_fifo [OF assms] schedule_queued_in_order [OF assms] by blast

theorem schedule_queued_fair_witness:
  "sorted (map queue_key [assign_execution (demo_execution 11 4) 2,
     assign_execution (demo_execution 10 5) 3])"
proof -
  obtain c where "schedule_queued demo = Some ([assign_execution (demo_execution 11 4) 2,
      assign_execution (demo_execution 10 5) 3], c)"
    using demo_pass by blast
  from schedule_queued_fair [OF demo_wf this] show ?thesis by blast
qed

text \<open>Scheduling never lets a pool exceed its instance limit: running and idle instances
  together stay within it through a whole pass over the queue.\<close>

theorem schedule_queued_within_limits:
  assumes "cluster_wf c" "within_limits c" "schedule_queued c = Some (es, c')"
  shows "\<forall>q p l. hm_get (pools c') q = Some p \<longrightarrow> pool_max_instances p = Some l \<longrightarrow>
      active_count c' q + idle_total c' q \<le> unat l"
  using schedule_queued_limits [OF assms(1,3,2)] by (simp add: within_limits_def instances_def)

theorem schedule_queued_within_limits_witness:
  "\<exists>es c'. schedule_queued demo = Some (es, c') \<and>
     (\<forall>q p l. hm_get (pools c') q = Some p \<longrightarrow> pool_max_instances p = Some l \<longrightarrow>
        active_count c' q + idle_total c' q \<le> unat l)"
  using demo_pass schedule_queued_within_limits [OF demo_wf demo_limits] by blast

text \<open>C23: the decisions do not depend on the order in which the hash maps are iterated: clusters
  with the same contents place the same executions on the same nodes and end with the same
  contents.\<close>

theorem schedule_queued_deterministic:
  assumes "cluster_wf c" "cluster_wf d" "same_content c d" "schedule_queued c = Some (es, c')"
  shows "\<exists>d'. schedule_queued d = Some (es, d') \<and> same_content c' d'"
  using schedule_each_same_content [OF assms(1-3)] queued_order_same_content [OF assms(1-3)] assms(4)
  by (simp add: schedule_queued_def)

definition demo_reordered :: cluster where
  "demo_reordered = demo\<lparr>nodes := [(2, demo_node 2), (3, demo_node 3)],
     executions := [(11, demo_execution 11 4), (10, demo_execution 10 5)]\<rparr>"

theorem schedule_queued_deterministic_witness:
  "demo_reordered \<noteq> demo \<and> (\<exists>d'. schedule_queued demo_reordered = Some
     ([assign_execution (demo_execution 11 4) 2, assign_execution (demo_execution 10 5) 3], d'))"
proof -
  have wf: "cluster_wf demo_reordered"
    by (simp add: demo_reordered_def demo_defs cluster_wf_def nodes_wf_def node_wf_def hm_get_def)
  have same: "same_content demo demo_reordered"
    by (auto simp: same_content_def demo_reordered_def demo_def hm_get_def)
  obtain c where pass: "schedule_queued demo = Some ([assign_execution (demo_execution 11 4) 2,
      assign_execution (demo_execution 10 5) 3], c)"
    using demo_pass by blast
  have "demo_reordered \<noteq> demo"
    by (simp add: demo_reordered_def demo_defs)
  with schedule_queued_deterministic [OF demo_wf wf same pass] show ?thesis by blast
qed

text \<open>As long as no instance is idle and the pool has no limit, consecutive executions of a
  pool go round its candidate nodes in order: the k-th one lands on candidate
  \<open>(round_robin + k) mod n\<close>.\<close>

theorem schedule_round_robin:
  assumes "cluster_wf c" "unlimited_cold c p" "distinct eids"
    "\<And>i. i \<in> set eids \<Longrightarrow> \<exists>e. hm_get (executions c) i = Some e \<and> exec_pool e = pool_name p"
    "cands = candidates p True (hm_values (nodes c))" "cands \<noteq> []"
    "unat (round_robin c) + length eids \<le> 2 ^ 64"
  shows "\<exists>es c'. schedule_each eids c = Some (es, c') \<and> map exec_id es = eids \<and>
    map exec_node es
      = map (\<lambda>k. Some (snd (cands ! ((unat (round_robin c) + k) mod length cands))))
          [0..<length eids]"
  by (rule schedule_each_rotates [OF assms])

definition demo_unlimited :: cluster where
  "demo_unlimited = demo\<lparr>pools := [(''web'', demo_pool\<lparr>pool_max_instances := None\<rparr>)]\<rparr>"

theorem schedule_round_robin_witness:
  "\<exists>es c'. schedule_each [10, 11] demo_unlimited = Some (es, c') \<and>
     map exec_node es = [Some 2, Some 3]"
proof -
  let ?p = "demo_pool\<lparr>pool_max_instances := None\<rparr>"
  have wf: "cluster_wf demo_unlimited"
    by (simp add: demo_unlimited_def demo_defs cluster_wf_def nodes_wf_def node_wf_def hm_get_def)
  have cold: "unlimited_cold demo_unlimited ?p"
    by (simp add: unlimited_cold_def demo_unlimited_def demo_eval split: if_splits)
  have cands: "[(True, 2), (True, 3)] = candidates ?p True (hm_values (nodes demo_unlimited))"
    by (simp add: demo_unlimited_def demo_eval)
  have execs: "\<exists>e. hm_get (executions demo_unlimited) i = Some e \<and> exec_pool e = pool_name ?p"
    if "i \<in> set [10, 11]" for i
    using that by (auto simp: demo_unlimited_def demo_eval)
  let ?cands = "[(True, 2), (True, 3)] :: (bool \<times> uuid) list"
  have start: "round_robin demo_unlimited = 0" by (simp add: demo_unlimited_def demo_defs)
  have "\<exists>es c'. schedule_each [10, 11] demo_unlimited = Some (es, c') \<and> map exec_id es = [10, 11] \<and>
      map exec_node es = map (\<lambda>k. Some (snd (?cands
        ! ((unat (round_robin demo_unlimited) + k) mod length ?cands)))) [0..<length [10, 11 :: uuid]]"
    by (rule schedule_round_robin [OF wf cold _ execs cands]) (simp_all add: start)
  then show ?thesis by (auto simp: start upt_rec)
qed

subsection \<open>Warm instances\<close>

text \<open>The target of a pool is divided over the hosts that can run it: the shares add up to
  the target without wrapping and any two shares differ by at most one.\<close>

theorem warm_targets_balanced:
  assumes "cluster_wf c" "0 < length (warm_hosts c p)" "length (warm_hosts c p) < 2 ^ 32"
  shows "hm_keys (warm_targets c p) = warm_hosts c p \<and>
    sum_list (map unat (hm_values (warm_targets c p))) = unat (warm_target c p) \<and>
    (\<forall>i j t u. hm_get (warm_targets c p) i = Some t \<longrightarrow> hm_get (warm_targets c p) j = Some u \<longrightarrow>
       unat t \<le> unat u + 1)"
proof -
  have ok: "host_count_ok c p" using assms by (simp add: host_count_ok_def)
  have "unat t \<le> unat u + 1"
    if "hm_get (warm_targets c p) i = Some t" "hm_get (warm_targets c p) j = Some u" for i j t u
    using warm_target_cases [OF assms(1) that(1)] warm_target_cases [OF assms(1) that(2)] by auto
  then show ?thesis
    using keys_warm_targets [OF assms(1) ok] sum_warm_targets [OF assms(1) ok] by blast
qed

lemma demo_hosts: "warm_hosts demo demo_pool = [2, 3]"
  by (simp add: demo_eval)

theorem warm_targets_balanced_witness:
  "hm_keys (warm_targets demo demo_pool) = [2, 3] \<and>
   sum_list (map unat (hm_values (warm_targets demo demo_pool))) = 3"
proof -
  have "unat (warm_target demo demo_pool) = 3" by (simp add: demo_eval)
  with warm_targets_balanced [OF demo_wf, of demo_pool] show ?thesis by (simp add: demo_hosts)
qed

text \<open>The read-only check and the mutating operation agree: an instance is added exactly when
  \<open>warm_instance_needed\<close> says so, and then the node gets one more idle instance of the pool
  and its resources are reserved.\<close>

theorem add_warm_iff_needed:
  assumes "cluster_wf c"
  shows "fst (add_warm_instance nid name c) = warm_instance_needed nid name c \<and>
    (if warm_instance_needed nid name c
     then \<exists>p n. hm_get (pools c) name = Some p \<and> hm_get (nodes c) nid = Some n \<and> warm_host p n \<and>
       snd (add_warm_instance nid name c)
         = c\<lparr>nodes := hm_insert nid (set_idle name (idle_on name n + 1) (reserve p n)) (nodes c)\<rparr>
     else snd (add_warm_instance nid name c) = c)"
  using assms
  by (cases rule: add_warm_cases [of c nid name]) (auto simp: started_def)

theorem add_warm_iff_needed_witness:
  "fst (add_warm_instance 2 ''web'' demo)"
  using add_warm_iff_needed [OF demo_wf, of 2 "''web''"] demo_needed by simp

text \<open>Keeping the pool warm never breaks the instance limits, neither when an instance is
  added nor when one is removed; the 32-bit sum of running and idle instances that the code
  compares with the limit cannot wrap.\<close>

theorem warm_operations_within_limits:
  assumes "cluster_wf c" "within_limits c"
  shows "within_limits (snd (add_warm_instance nid name c)) \<and>
    within_limits (snd (remove_idle_instance nid name c))"
  using add_warm_limits [OF assms] remove_idle_limits [OF assms] by blast

theorem warm_operations_within_limits_witness:
  "within_limits (snd (add_warm_instance 2 ''web'' demo)) \<and>
   within_limits (snd (remove_idle_instance 2 ''web'' demo))"
  by (rule warm_operations_within_limits [OF demo_wf demo_limits])

text \<open>C24: no flapping: an instance that was just added is not removed by the next idle check of
  the same node, and after a removal the node does not ask for an instance again.\<close>

theorem warm_no_flapping:
  assumes "cluster_wf c"
  shows "(\<forall>c'. add_warm_instance nid name c = (True, c') \<longrightarrow>
      remove_idle_instance nid name c' = (False, c')) \<and>
    (\<forall>c'. remove_idle_instance nid name c = (True, c') \<longrightarrow> \<not> warm_instance_needed nid name c')"
  using add_then_keep [OF assms] remove_then_keep [OF assms] by blast

theorem warm_no_flapping_witness:
  "\<exists>c'. add_warm_instance 2 ''web'' demo = (True, c') \<and>
     remove_idle_instance 2 ''web'' c' = (False, c')"
  using demo_added warm_no_flapping [OF demo_wf] by blast

text \<open>When no node asks for an instance any more, the pool holds at least its target of warm
  instances.\<close>

theorem warm_pool_converges:
  assumes "cluster_wf c" "hm_get (pools c) name = Some p"
    "0 < length (warm_hosts c p)" "length (warm_hosts c p) < 2 ^ 32"
    "idle_total c name + active_count c name < 2 ^ 32"
    "\<And>nid. \<not> warm_instance_needed nid name c"
  shows "warm_target c p \<le> warm_count c p name"
  by (rule warm_converged [OF assms(1,2) _ assms(5,6)]) (use assms in \<open>simp add: host_count_ok_def\<close>)

definition demo_warm :: cluster where
  "demo_warm = demo\<lparr>nodes := [(3, (demo_node 3)\<lparr>node_idle_instances := [(''web'', 2)]\<rparr>),
     (2, (demo_node 2)\<lparr>node_idle_instances := [(''web'', 2)]\<rparr>)]\<rparr>"

theorem warm_pool_converges_witness:
  "warm_target demo_warm demo_pool \<le> warm_count demo_warm demo_pool ''web''"
proof -
  have wf: "cluster_wf demo_warm"
    by (simp add: demo_warm_def demo_defs cluster_wf_def nodes_wf_def node_wf_def hm_get_def
        hm_wf_def)
  have hosts: "warm_hosts demo_warm demo_pool = [2, 3]" by (simp add: demo_warm_def demo_eval)
  have quiet: "\<not> warm_instance_needed nid ''web'' demo_warm" for nid
    by (simp add: demo_warm_def demo_eval)
  show ?thesis
    by (rule warm_pool_converges [OF wf _ _ _ _ quiet])
      (simp_all add: hosts, simp_all add: demo_warm_def demo_eval)
qed

subsection \<open>Releasing and resetting\<close>

text \<open>Releasing an execution right after its placement restores the node's books: the
  reserved resources are returned when a new instance was started, the idle instance when one was
  taken.\<close>

theorem release_undoes_schedule:
  assumes "cluster_wf c" "schedule eid c = Some (True, c')"
    "\<And>p n. p \<in> set (hm_values (pools c)) \<Longrightarrow> n \<in> set (hm_values (nodes c)) \<Longrightarrow> no_overflow p n"
  shows "\<exists>e nid n n'. hm_get (executions c') eid = Some e \<and> exec_node e = Some nid \<and>
    hm_get (nodes c) nid = Some n \<and>
    hm_get (nodes (release eid (0 < idle_on (exec_pool e) n) c')) nid = Some n' \<and>
    node_used_cpu_millis n' = node_used_cpu_millis n \<and>
    node_used_memory_mib n' = node_used_memory_mib n \<and> (\<forall>q. idle_on q n' = idle_on q n)"
proof -
  obtain e nid p n where e: "hm_get (executions c') eid = Some e" "exec_node e = Some nid"
      "hm_get (pools c) (exec_pool e) = Some p" "hm_get (nodes c) nid = Some n"
      "pool_name p = exec_pool e"
      "\<And>k. hm_get (nodes (release eid k c')) nid = Some (release_slot p k (take_slot p n))"
    using release_after_schedule [OF assms(1,2)] by blast
  have "no_overflow p n" using assms(3) e(3,4) hm_values_in by metis
  from release_take_slot [OF this] show ?thesis
    using e by (auto simp: same_books_def)
qed

theorem release_undoes_schedule_witness:
  "\<exists>c' e nid n n'. schedule 10 demo = Some (True, c') \<and> hm_get (executions c') 10 = Some e \<and>
     exec_node e = Some nid \<and> hm_get (nodes demo) nid = Some n \<and>
     hm_get (nodes (release 10 (0 < idle_on (exec_pool e) n) c')) nid = Some n' \<and>
     node_used_cpu_millis n' = node_used_cpu_millis n"
proof -
  obtain c' where c': "schedule 10 demo = Some (True, c')" using demo_schedule by blast
  have "no_overflow p n" if "p \<in> set (hm_values (pools demo))" "n \<in> set (hm_values (nodes demo))"
    for p n
    using that by (auto simp: no_overflow_def demo_defs hm_values_def)
  from release_undoes_schedule [OF demo_wf c' this] c' show ?thesis by blast
qed

text \<open>Resetting a node, as the controller does when the node reconnects, forgets every idle
  instance and returns the resources of all of them, and nothing else changes.\<close>

theorem reset_returns_idle:
  assumes "hm_get (nodes c) nid = Some n"
  shows "\<exists>n'. reset_idle_instances nid c = c\<lparr>nodes := hm_insert nid n' (nodes c)\<rparr> \<and>
    same_profile n' n \<and> (\<forall>q. idle_on q n' = 0) \<and>
    unat (node_used_cpu_millis n') = unat (node_used_cpu_millis n)
      - idle_load pool_cpu_millis (pools c) (node_idle_instances n) \<and>
    unat (node_used_memory_mib n') = unat (node_used_memory_mib n)
      - idle_load pool_memory_mib (pools c) (node_idle_instances n)"
proof -
  obtain n' where n': "hm_get (nodes (reset_idle_instances nid c)) nid = Some n'"
      "same_profile n' n" "\<And>q. idle_on q n' = 0"
      "unat (node_used_cpu_millis n') = unat (node_used_cpu_millis n)
        - idle_load pool_cpu_millis (pools c) (node_idle_instances n)"
      "unat (node_used_memory_mib n') = unat (node_used_memory_mib n)
        - idle_load pool_memory_mib (pools c) (node_idle_instances n)"
    using reset_idle_node [OF assms] by metis
  moreover have "reset_idle_instances nid c = c\<lparr>nodes := hm_insert nid n' (nodes c)\<rparr>"
    using n'(1) by (auto simp: reset_idle_instances_def assms)
  ultimately show ?thesis by blast
qed

theorem reset_returns_idle_witness:
  "\<exists>n'. reset_idle_instances 2 demo_warm
     = demo_warm\<lparr>nodes := hm_insert 2 n' (nodes demo_warm)\<rparr> \<and> idle_on ''web'' n' = 0"
proof -
  have "hm_get (nodes demo_warm) 2
      = Some ((demo_node 2)\<lparr>node_idle_instances := [(''web'', 2)]\<rparr>)"
    by (simp add: demo_warm_def hm_get_def)
  from reset_returns_idle [OF this] show ?thesis by blast
qed

end
