(* ===== verification/Storage.thy ===== *)
theory Storage
  imports Cluster_Types "HOL-Library.Product_Lexorder"
begin

section \<open>The execution store\<close>

text \<open>
  \<open>platform/src/storage.rs\<close>: the SQLite database of the controller and the cipher for execution
  secrets. The table \<open>executions\<close> is a list of rows (an arbitrary order: a query without
  ORDER BY, and ties under ORDER BY, leave it open), the table \<open>metadata\<close> is one field per key.
  Each operation returns \<open>None\<close> for \<open>Err\<close>; a transaction that fails leaves the database as it
  was. Text and byte encodings of third-party crates (\<open>serde_json\<close>, \<open>uuid\<close>) and the AEAD of
  \<open>ring\<close> are parameters. A \<open>u64\<close> that does not fit SQLite's signed 64-bit integers is refused
  when it is bound, as rusqlite 0.32 does; sizes, which count bytes that are in memory, are \<open>nat\<close>.
\<close>

type_synonym bytes = "u8 list"

record codec =
  uuid_text :: "uuid \<Rightarrow> string"
  uuid_parse :: "string \<Rightarrow> uuid option"
  json_bytes :: "json \<Rightarrow> bytes"
  json_parse :: "bytes \<Rightarrow> json option"
  vars_bytes :: "(string, string) hashmap \<Rightarrow> bytes"
  vars_parse :: "bytes \<Rightarrow> (string, string) hashmap option"
  metrics_bytes :: "execution_metrics \<Rightarrow> bytes"
  metrics_parse :: "bytes \<Rightarrow> execution_metrics option"
  cluster_bytes :: "cluster \<Rightarrow> bytes"
  cluster_parse :: "bytes \<Rightarrow> cluster option"

subsection \<open>Rows\<close>

record row =
  row_id :: string
  row_pool :: string
  row_node :: "string option"
  row_status :: string
  row_payload :: bytes
  row_result :: "bytes option"
  row_error :: "string option"
  row_created_at_ms :: u64
  row_started_at_ms :: "u64 option"
  row_finished_at_ms :: "u64 option"
  row_environment :: "string option"
  row_metrics :: "bytes option"
  row_variables :: bytes
  row_secrets :: "bytes option"
  row_size_bytes :: nat

record database =
  db_rows :: "row list"
  db_cluster :: "bytes option"
  db_controller_id :: "string option"
  db_retention_ms :: u64
  db_max_storage_bytes :: u64

definition DEFAULT_RETENTION_MS :: u64 where
  "DEFAULT_RETENTION_MS = 24 * 60 * 60 * 1000"

definition DEFAULT_STORAGE_BYTES :: u64 where
  "DEFAULT_STORAGE_BYTES = 2 * 1024 * 1024 * 1024"

text \<open>\<open>Database::open\<close> on a new file: the tables are empty and the settings have their defaults.\<close>

definition open_database :: database where
  "open_database =
     \<lparr>db_rows = [], db_cluster = None, db_controller_id = None,
      db_retention_ms = DEFAULT_RETENTION_MS, db_max_storage_bytes = DEFAULT_STORAGE_BYTES\<rparr>"

fun status_name :: "execution_status \<Rightarrow> string" where
  "status_name Queued = ''queued''"
| "status_name Assigned = ''assigned''"
| "status_name Running = ''running''"
| "status_name Succeeded = ''succeeded''"
| "status_name Failed = ''failed''"
| "status_name TimedOut = ''timed_out''"

definition status :: "string \<Rightarrow> execution_status option" where
  "status s =
     (if s = ''queued'' then Some Queued
      else if s = ''assigned'' then Some Assigned
      else if s = ''running'' then Some Running
      else if s = ''succeeded'' then Some Succeeded
      else if s = ''failed'' then Some Failed
      else if s = ''timed_out'' then Some TimedOut
      else None)"

definition status_active :: "string \<Rightarrow> bool" where
  "status_active s \<longleftrightarrow> s \<in> {''queued'', ''assigned'', ''running''}"

definition status_final :: "string \<Rightarrow> bool" where
  "status_final s \<longleftrightarrow> s \<in> {''succeeded'', ''failed'', ''timed_out''}"

text \<open>Decoding: \<open>transpose\<close> turns an optional failure into a failure.\<close>

definition optional :: "('a \<Rightarrow> 'b option) \<Rightarrow> 'a option \<Rightarrow> 'b option option" where
  "optional f v = (case v of None \<Rightarrow> Some None | Some x \<Rightarrow> map_option Some (f x))"

definition execution_from_row :: "codec \<Rightarrow> row \<Rightarrow> execution option" where
  "execution_from_row cd r =
     (case uuid_parse cd (row_id r) of None \<Rightarrow> None
      | Some i \<Rightarrow>
     (case optional (uuid_parse cd) (row_node r) of None \<Rightarrow> None
      | Some nid \<Rightarrow>
     (case status (row_status r) of None \<Rightarrow> None
      | Some st \<Rightarrow>
     (case json_parse cd (row_payload r) of None \<Rightarrow> None
      | Some payload \<Rightarrow>
     (case optional (json_parse cd) (row_result r) of None \<Rightarrow> None
      | Some res \<Rightarrow>
     (case optional (uuid_parse cd) (row_environment r) of None \<Rightarrow> None
      | Some env \<Rightarrow>
     (case optional (metrics_parse cd) (row_metrics r) of None \<Rightarrow> None
      | Some metrics \<Rightarrow>
     (case vars_parse cd (row_variables r) of None \<Rightarrow> None
      | Some vars \<Rightarrow>
        Some \<lparr>exec_id = i, exec_pool = row_pool r, exec_node = nid, exec_status = st,
              exec_payload = payload, exec_variables = vars, exec_result = res,
              exec_error = row_error r, exec_created_at_ms = row_created_at_ms r,
              exec_started_at_ms = row_started_at_ms r,
              exec_finished_at_ms = row_finished_at_ms r, exec_environment = env,
              exec_metrics = metrics\<rparr>))))))))"

definition execution_view_from_row :: "codec \<Rightarrow> row \<Rightarrow> execution_view option" where
  "execution_view_from_row cd r =
     (case uuid_parse cd (row_id r) of None \<Rightarrow> None
      | Some i \<Rightarrow>
     (case optional (uuid_parse cd) (row_node r) of None \<Rightarrow> None
      | Some nid \<Rightarrow>
     (case status (row_status r) of None \<Rightarrow> None
      | Some st \<Rightarrow>
     (case optional (uuid_parse cd) (row_environment r) of None \<Rightarrow> None
      | Some env \<Rightarrow>
     (case optional (metrics_parse cd) (row_metrics r) of None \<Rightarrow> None
      | Some metrics \<Rightarrow>
        Some \<lparr>view_id = i, view_pool = row_pool r, view_node = nid, view_status = st,
              view_error = row_error r, view_created_at_ms = row_created_at_ms r,
              view_started_at_ms = row_started_at_ms r,
              view_finished_at_ms = row_finished_at_ms r, view_environment = env,
              view_metrics = metrics\<rparr>)))))"

subsection \<open>Writing an execution\<close>

definition option_length :: "'a list option \<Rightarrow> nat" where
  "option_length v = (case v of None \<Rightarrow> 0 | Some xs \<Rightarrow> length xs)"

definition execution_size :: "codec \<Rightarrow> execution \<Rightarrow> nat" where
  "execution_size cd e =
     length (json_bytes cd (exec_payload e)) + length (vars_bytes cd (exec_variables e))
     + option_length (map_option (json_bytes cd) (exec_result e))
     + option_length (map_option (metrics_bytes cd) (exec_metrics e))
     + option_length (exec_error e)"

definition row_of_execution :: "codec \<Rightarrow> execution \<Rightarrow> row" where
  "row_of_execution cd e =
     \<lparr>row_id = uuid_text cd (exec_id e), row_pool = exec_pool e,
      row_node = map_option (uuid_text cd) (exec_node e), row_status = status_name (exec_status e),
      row_payload = json_bytes cd (exec_payload e),
      row_result = map_option (json_bytes cd) (exec_result e), row_error = exec_error e,
      row_created_at_ms = exec_created_at_ms e, row_started_at_ms = exec_started_at_ms e,
      row_finished_at_ms = exec_finished_at_ms e,
      row_environment = map_option (uuid_text cd) (exec_environment e),
      row_metrics = map_option (metrics_bytes cd) (exec_metrics e),
      row_variables = vars_bytes cd (exec_variables e), row_secrets = None,
      row_size_bytes = execution_size cd e\<rparr>"

text \<open>
  ON CONFLICT(id) DO UPDATE: the creation time and the secrets of the stored row stay, and the
  secrets keep counting.
\<close>

definition merge_row :: "row \<Rightarrow> row \<Rightarrow> row" where
  "merge_row old excluded =
     excluded\<lparr>row_created_at_ms := row_created_at_ms old, row_secrets := row_secrets old,
       row_size_bytes := row_size_bytes excluded + option_length (row_secrets old)\<rparr>"

definition upsert_row :: "row \<Rightarrow> row list \<Rightarrow> row list" where
  "upsert_row r rs =
     (if \<exists>x \<in> set rs. row_id x = row_id r
      then map (\<lambda>x. if row_id x = row_id r then merge_row x r else x) rs
      else rs @ [r])"

definition fits_i64 :: "u64 \<Rightarrow> bool" where
  "fits_i64 t \<longleftrightarrow> unat t < 2 ^ 63"

definition bindable :: "execution \<Rightarrow> bool" where
  "bindable e \<longleftrightarrow>
     fits_i64 (exec_created_at_ms e) \<and>
     (case exec_started_at_ms e of None \<Rightarrow> True | Some t \<Rightarrow> fits_i64 t) \<and>
     (case exec_finished_at_ms e of None \<Rightarrow> True | Some t \<Rightarrow> fits_i64 t)"

definition upsert_execution :: "codec \<Rightarrow> execution \<Rightarrow> database \<Rightarrow> database option" where
  "upsert_execution cd e db =
     (if bindable e then Some (db\<lparr>db_rows := upsert_row (row_of_execution cd e) (db_rows db)\<rparr>)
      else None)"

definition delete_row :: "string \<Rightarrow> row list \<Rightarrow> row list" where
  "delete_row i rs = filter (\<lambda>r. row_id r \<noteq> i) rs"

definition update_where :: "string \<Rightarrow> (row \<Rightarrow> row) \<Rightarrow> row list \<Rightarrow> row list" where
  "update_where i f rs = map (\<lambda>r. if row_id r = i then f r else r) rs"

subsection \<open>Retention and the storage limit\<close>

definition rows_size :: "row list \<Rightarrow> nat" where
  "rows_size rs = sum_list (map row_size_bytes rs)"

definition storage_used :: "database \<Rightarrow> nat" where
  "storage_used db = rows_size (db_rows db)"

definition expired :: "u64 \<Rightarrow> row \<Rightarrow> bool" where
  "expired cutoff r \<longleftrightarrow> status_final (row_status r) \<and>
     (case row_finished_at_ms r of None \<Rightarrow> False | Some t \<Rightarrow> t \<le> cutoff)"

text \<open>NULL sorts before every number in SQLite.\<close>

definition eviction_key :: "row \<Rightarrow> nat \<times> nat" where
  "eviction_key r =
     ((case row_finished_at_ms r of None \<Rightarrow> 0 | Some t \<Rightarrow> Suc (unat t)),
      unat (row_created_at_ms r))"

definition eviction_candidates :: "string option \<Rightarrow> row list \<Rightarrow> (string \<times> nat) list" where
  "eviction_candidates protected rs =
     map (\<lambda>r. (row_id r, row_size_bytes r)) (sort_key eviction_key
       (filter (\<lambda>r. status_final (row_status r) \<and>
          (case protected of None \<Rightarrow> True | Some i \<Rightarrow> row_id r \<noteq> i)) rs))"

fun evict :: "nat \<Rightarrow> (string \<times> nat) list \<Rightarrow> nat \<Rightarrow> row list \<Rightarrow> row list" where
  "evict limit [] used rs = rs"
| "evict limit ((i, sz) # cands) used rs =
     (let rs' = delete_row i rs; used' = used - sz in
      if used' \<le> limit then rs' else evict limit cands used' rs')"

definition prune_rows :: "codec \<Rightarrow> u64 \<Rightarrow> u64 \<Rightarrow> u64 \<Rightarrow> uuid option \<Rightarrow> row list \<Rightarrow> row list" where
  "prune_rows cd retention limit now protected rs =
     (let kept = filter (\<lambda>r. \<not> expired (saturating_sub now retention) r) rs in
      if rows_size kept \<le> unat limit then kept
      else evict (unat limit)
             (eviction_candidates (map_option (uuid_text cd) protected) kept)
             (rows_size kept) kept)"

definition prune :: "codec \<Rightarrow> u64 \<Rightarrow> uuid option \<Rightarrow> database \<Rightarrow> database option" where
  "prune cd now protected db =
     (if fits_i64 (saturating_sub now (db_retention_ms db))
      then Some (db\<lparr>db_rows :=
        prune_rows cd (db_retention_ms db) (db_max_storage_bytes db) now protected (db_rows db)\<rparr>)
      else None)"

subsection \<open>The operations of the database\<close>

definition find_row :: "string \<Rightarrow> row list \<Rightarrow> row option" where
  "find_row i rs = List.find (\<lambda>r. row_id r = i) rs"

definition add_secrets :: "bytes \<Rightarrow> row \<Rightarrow> row" where
  "add_secrets secrets r =
     r\<lparr>row_secrets := Some secrets, row_size_bytes := row_size_bytes r + length secrets\<rparr>"

definition clear_secrets :: "row \<Rightarrow> row" where
  "clear_secrets r =
     r\<lparr>row_size_bytes := row_size_bytes r - option_length (row_secrets r), row_secrets := None\<rparr>"

definition insert_execution :: "codec \<Rightarrow> execution \<Rightarrow> bytes \<Rightarrow> database \<Rightarrow> (bool \<times> database) option" where
  "insert_execution cd e secrets db =
     (case upsert_execution cd e db of
        None \<Rightarrow> None
      | Some db1 \<Rightarrow>
        let i = uuid_text cd (exec_id e);
            db2 = (if secrets = [] then db1
                   else db1\<lparr>db_rows := update_where i (add_secrets secrets) (db_rows db1)\<rparr>)
        in (case prune cd (exec_created_at_ms e) (Some (exec_id e)) db2 of
              None \<Rightarrow> None
            | Some db3 \<Rightarrow>
                if unat (db_max_storage_bytes db3) < storage_used db3
                then Some (False, db3\<lparr>db_rows := delete_row i (db_rows db3)\<rparr>)
                else Some (True, db3)))"

definition save_execution :: "codec \<Rightarrow> execution \<Rightarrow> database \<Rightarrow> database option" where
  "save_execution cd e db = upsert_execution cd e db"

fun save_executions :: "codec \<Rightarrow> execution list \<Rightarrow> database \<Rightarrow> database option" where
  "save_executions cd [] db = Some db"
| "save_executions cd (e # es) db =
     (case upsert_execution cd e db of None \<Rightarrow> None | Some db' \<Rightarrow> save_executions cd es db')"

definition db_complete_execution :: "codec \<Rightarrow> execution \<Rightarrow> database \<Rightarrow> (execution \<times> database) option" where
  "db_complete_execution cd e db =
     (case upsert_execution cd e db of
        None \<Rightarrow> None
      | Some db1 \<Rightarrow>
        let db2 = db1\<lparr>db_rows := update_where (uuid_text cd (exec_id e)) clear_secrets (db_rows db1)\<rparr>
        in (case prune cd (case exec_finished_at_ms e of Some t \<Rightarrow> t | None \<Rightarrow> exec_created_at_ms e)
                   (Some (exec_id e)) db2 of
              None \<Rightarrow> None
            | Some db3 \<Rightarrow>
                if unat (db_max_storage_bytes db3) < storage_used db3
                then
                  let saved = e\<lparr>exec_status := Failed, exec_result := None,
                        exec_error := Some ''controller execution storage is full''\<rparr>
                  in map_option (\<lambda>db4. (saved, db4)) (upsert_execution cd saved db3)
                else Some (e, db3)))"

definition delete_execution :: "codec \<Rightarrow> uuid \<Rightarrow> database \<Rightarrow> database" where
  "delete_execution cd i db = db\<lparr>db_rows := delete_row (uuid_text cd i) (db_rows db)\<rparr>"

text \<open>The outer option is the \<open>Result\<close>, the inner one the optional row.\<close>

definition db_execution :: "codec \<Rightarrow> uuid \<Rightarrow> database \<Rightarrow> execution option option" where
  "db_execution cd i db = optional (execution_from_row cd) (find_row (uuid_text cd i) (db_rows db))"

definition execution_secrets :: "codec \<Rightarrow> uuid \<Rightarrow> database \<Rightarrow> bytes option" where
  "execution_secrets cd i db =
     map_option (\<lambda>r. case row_secrets r of Some s \<Rightarrow> s | None \<Rightarrow> [])
       (find_row (uuid_text cd i) (db_rows db))"

fun collect_results :: "'a option list \<Rightarrow> 'a list option" where
  "collect_results [] = Some []"
| "collect_results (x # xs) =
     (case x of None \<Rightarrow> None | Some y \<Rightarrow> map_option (\<lambda>ys. y # ys) (collect_results xs))"

lemma collect_results_Some:
  "collect_results xs = Some ys \<longleftrightarrow> xs = map Some ys"
  by (induction xs arbitrary: ys) (auto split: option.splits)

definition newest_first :: "row list \<Rightarrow> row list" where
  "newest_first rs = sort_key (\<lambda>r. - int (unat (row_created_at_ms r))) rs"

definition list_executions :: "codec \<Rightarrow> usize option \<Rightarrow> database \<Rightarrow> execution_view list option" where
  "list_executions cd limit db =
     (case limit of
        None \<Rightarrow> collect_results (map (execution_view_from_row cd) (newest_first (db_rows db)))
      | Some n \<Rightarrow>
          if fits_i64 n then
            collect_results (map (execution_view_from_row cd)
              (take (unat n) (newest_first (db_rows db))))
          else None)"

text \<open>A restart puts every unfinished execution back in the queue.\<close>

definition requeue_row :: "row \<Rightarrow> row" where
  "requeue_row r =
     (if status_active (row_status r)
      then r\<lparr>row_status := ''queued'', row_node := None, row_started_at_ms := None\<rparr> else r)"

definition load_active_executions :: "codec \<Rightarrow> database \<Rightarrow> execution list option \<times> database" where
  "load_active_executions cd db =
     (let rs = map requeue_row (db_rows db) in
      (collect_results (map (execution_from_row cd)
         (sort_key row_created_at_ms (filter (\<lambda>r. row_status r = ''queued'') rs))),
       db\<lparr>db_rows := rs\<rparr>))"

definition load_cluster :: "codec \<Rightarrow> database \<Rightarrow> cluster option option" where
  "load_cluster cd db = optional (cluster_parse cd) (db_cluster db)"

definition save_cluster :: "codec \<Rightarrow> cluster \<Rightarrow> database \<Rightarrow> database" where
  "save_cluster cd c db = db\<lparr>db_cluster := Some (cluster_bytes cd c)\<rparr>"

definition controller_id :: "codec \<Rightarrow> uuid \<Rightarrow> uuid option \<Rightarrow> database \<Rightarrow> uuid option \<times> database" where
  "controller_id cd fresh legacy db =
     (case db_controller_id db of
        Some v \<Rightarrow> (uuid_parse cd v, db)
      | None \<Rightarrow>
          let i = (case legacy of Some l \<Rightarrow> l | None \<Rightarrow> fresh)
          in (Some i, db\<lparr>db_controller_id := Some (uuid_text cd i)\<rparr>))"

subsection \<open>Settings\<close>

record storage_settings =
  settings_retention_hours :: u64
  settings_max_storage_bytes :: u64

record storage_view =
  storage_settings :: storage_settings
  storage_used_bytes :: nat

definition settings :: "database \<Rightarrow> storage_view" where
  "settings db =
     \<lparr>storage_settings =
        \<lparr>settings_retention_hours = db_retention_ms db div 3600000,
         settings_max_storage_bytes = db_max_storage_bytes db\<rparr>,
      storage_used_bytes = storage_used db\<rparr>"

definition update_settings :: "storage_settings \<Rightarrow> database \<Rightarrow> database option" where
  "update_settings s db =
     (if unat (settings_retention_hours s) * 3600000 < 2 ^ 64
      then Some (db\<lparr>db_retention_ms := settings_retention_hours s * 3600000,
                    db_max_storage_bytes := settings_max_storage_bytes s\<rparr>)
      else None)"

subsection \<open>The cipher for execution secrets\<close>

text \<open>
  \<open>seal key nonce aad plaintext\<close> and \<open>open key nonce aad ciphertext\<close> are the AEAD, \<open>nonce\<close> is the
  random nonce, \<open>text\<close> and \<open>parse\<close> are the JSON encoding of the secrets.
\<close>

definition uuid_bytes :: "uuid \<Rightarrow> bytes" where
  "uuid_bytes u = map (\<lambda>k. ucast (drop_bit (8 * k) u)) (rev [0..<16])"

definition from_bytes :: "bytes \<Rightarrow> bytes option" where
  "from_bytes key = (if length key = 32 then Some key else None)"

text \<open>
  The key file when it is read: missing, with some content, or with an error. \<open>load_key\<close> reads it,
  or creates it with a random key; the result is the key, if any, and the file that is left. The creation
  succeeds, or is cut short after some bytes of the key, or its \<open>sync_all\<close> fails, or the file has appeared
  meanwhile, made by another process, or it cannot be created.
\<close>

datatype key_file = NoFile | KeyFile bytes | Unreadable

datatype key_creation = KeyMade | KeyCut nat | KeyUnsynced | KeyAppeared key_file | KeyRefused

definition read_key :: "key_file \<Rightarrow> bytes option" where
  "read_key f = (case f of KeyFile k \<Rightarrow> from_bytes k | _ \<Rightarrow> None)"

definition load_key :: "bytes option \<Rightarrow> key_creation \<Rightarrow> key_file \<Rightarrow> bytes option \<times> key_file" where
  "load_key random creation f =
     (if f \<noteq> NoFile then (read_key f, f)
      else (case random of
          None \<Rightarrow> (None, f)
        | Some key \<Rightarrow>
            (case creation of
               KeyMade \<Rightarrow> (Some key, KeyFile key)
             | KeyCut written \<Rightarrow> (None, KeyFile (take written key))
             | KeyUnsynced \<Rightarrow> (None, KeyFile key)
             | KeyAppeared appeared \<Rightarrow> (read_key appeared, appeared)
             | KeyRefused \<Rightarrow> (None, f))))"

definition encrypt :: "(bytes \<Rightarrow> bytes \<Rightarrow> bytes \<Rightarrow> bytes \<Rightarrow> bytes option) \<Rightarrow>
    ((string, string) hashmap \<Rightarrow> bytes) \<Rightarrow> bytes \<Rightarrow> bytes \<Rightarrow> uuid \<Rightarrow> (string, string) hashmap \<Rightarrow>
    bytes option" where
  "encrypt seal enc key nonce i secrets =
     (if secrets = [] then Some []
      else map_option (\<lambda>ct. nonce @ ct) (seal key nonce (uuid_bytes i) (enc secrets)))"

definition decrypt :: "(bytes \<Rightarrow> bytes \<Rightarrow> bytes \<Rightarrow> bytes \<Rightarrow> bytes option) \<Rightarrow>
    (bytes \<Rightarrow> (string, string) hashmap option) \<Rightarrow> bytes \<Rightarrow> uuid \<Rightarrow> bytes \<Rightarrow>
    (string, string) hashmap option" where
  "decrypt unseal dec key i encrypted =
     (if encrypted = [] then Some []
      else if length encrypted < 12 then None
      else (case unseal key (take 12 encrypted) (uuid_bytes i) (drop 12 encrypted) of
              None \<Rightarrow> None
            | Some plaintext \<Rightarrow> dec plaintext))"

end
