(* ===== verification/Storage_Facts.thy ===== *)
theory Storage_Facts
  imports Storage
begin

section \<open>What the execution store guarantees\<close>

subsection \<open>Rows by identifier\<close>

text \<open>
  A table with a primary key is a store: the locale states what a lookup returns after each of the
  statements the code issues, and derives what several of them in sequence do.
\<close>

locale row_store =
  fixes look :: "'i \<Rightarrow> 't \<Rightarrow> 'r option"
    and upsert :: "'i \<Rightarrow> 'r \<Rightarrow> 't \<Rightarrow> 't"
    and modify :: "'i \<Rightarrow> ('r \<Rightarrow> 'r) \<Rightarrow> 't \<Rightarrow> 't"
    and erase :: "'i \<Rightarrow> 't \<Rightarrow> 't"
    and merge :: "'r \<Rightarrow> 'r \<Rightarrow> 'r"
    and entry :: "'i \<Rightarrow> 'r \<Rightarrow> bool"
  assumes look_upsert: "entry i r \<Longrightarrow> look j (upsert i r t)
      = (if j = i then Some (case look i t of None \<Rightarrow> r | Some x \<Rightarrow> merge x r) else look j t)"
    and look_modify: "(\<And>x. entry i x \<Longrightarrow> entry i (f x)) \<Longrightarrow>
      look j (modify i f t) = (if j = i then map_option f (look i t) else look j t)"
    and look_erase: "look j (erase i t) = (if j = i then None else look j t)"
begin

lemma look_upsert_same: "entry i r \<Longrightarrow> look i (upsert i r t) \<noteq> None"
  by (simp add: look_upsert)

lemma modify_after_upsert:
  "entry i r \<Longrightarrow> (\<And>x. entry i x \<Longrightarrow> entry i (f x)) \<Longrightarrow>
   look i (modify i f (upsert i r t)) = Some (f (case look i t of None \<Rightarrow> r | Some x \<Rightarrow> merge x r))"
  by (simp add: look_upsert look_modify)

lemma erase_undoes_upsert:
  "entry i r \<Longrightarrow> look i t = None \<Longrightarrow> look j (erase i (upsert i r t)) = look j t"
  by (simp add: look_upsert look_erase)

end

lemma find_row_Nil [simp]: "find_row i [] = None"
  by (simp add: find_row_def)

lemma find_row_Cons [simp]: "find_row i (r # rs) = (if row_id r = i then Some r else find_row i rs)"
  by (simp add: find_row_def)

lemma find_row_append:
  "find_row i (rs @ ss) = (case find_row i rs of None \<Rightarrow> find_row i ss | Some r \<Rightarrow> Some r)"
  by (induction rs) auto

lemma find_row_SomeD: "find_row i rs = Some r \<Longrightarrow> r \<in> set rs \<and> row_id r = i"
  by (induction rs) (auto split: if_splits)

lemma find_row_None: "find_row i rs = None \<longleftrightarrow> i \<notin> row_id ` set rs"
  by (induction rs) auto

lemma find_row_in: "distinct (map row_id rs) \<Longrightarrow> r \<in> set rs \<Longrightarrow> find_row (row_id r) rs = Some r"
  by (induction rs) (auto simp: rev_image_eqI)

lemma merge_row_id [simp]: "row_id (merge_row x r) = row_id r"
  by (simp add: merge_row_def)

lemma find_row_map:
  "(\<And>r. row_id (f r) = row_id r) \<Longrightarrow> find_row j (map f rs) = map_option f (find_row j rs)"
  by (induction rs) auto

lemma find_row_upsert:
  "find_row j (upsert_row r rs)
    = (if j = row_id r then Some (case find_row j rs of None \<Rightarrow> r | Some x \<Rightarrow> merge_row x r)
       else find_row j rs)"
proof (cases "\<exists>x \<in> set rs. row_id x = row_id r")
  case True
  then have "find_row (row_id r) rs \<noteq> None" by (auto simp: find_row_None rev_image_eqI)
  then obtain y where y: "find_row (row_id r) rs = Some y" "row_id y = row_id r"
    by (auto dest: find_row_SomeD)
  have "find_row j (upsert_row r rs)
      = map_option (\<lambda>x. if row_id x = row_id r then merge_row x r else x) (find_row j rs)"
    unfolding upsert_row_def using True by (simp add: find_row_map)
  with y show ?thesis
    by (cases "find_row j rs") (auto dest: find_row_SomeD)
next
  case False
  then have "find_row (row_id r) rs = None" by (auto simp: find_row_None)
  with False show ?thesis
    by (auto simp: upsert_row_def find_row_append split: option.splits)
qed

lemma find_row_update_where:
  "(\<And>r. row_id r = i \<Longrightarrow> row_id (f r) = i) \<Longrightarrow>
   find_row j (update_where i f rs) = (if j = i then map_option f (find_row i rs) else find_row j rs)"
  by (induction rs) (auto simp: update_where_def)

lemma find_row_delete: "find_row j (delete_row i rs) = (if j = i then None else find_row j rs)"
  by (induction rs) (auto simp: delete_row_def)

interpretation table: row_store find_row "\<lambda>_. upsert_row" update_where delete_row merge_row
    "\<lambda>i r. row_id r = i"
  by unfold_locales (auto simp: find_row_upsert find_row_update_where find_row_delete)

lemma upsert_row_ids:
  "map row_id (upsert_row r rs)
    = (if row_id r \<in> row_id ` set rs then map row_id rs else map row_id rs @ [row_id r])"
  by (auto simp: upsert_row_def intro: rev_image_eqI)

lemma distinct_upsert [wf_intros]:
  "distinct (map row_id rs) \<Longrightarrow> distinct (map row_id (upsert_row r rs))"
  by (simp add: upsert_row_ids)

lemma distinct_update_where [wf_intros]:
  "(\<And>r. row_id (f r) = row_id r) \<Longrightarrow>
   distinct (map row_id (update_where i f rs)) \<longleftrightarrow> distinct (map row_id rs)"
proof -
  assume "\<And>r. row_id (f r) = row_id r"
  then have "map row_id (update_where i f rs) = map row_id rs" by (simp add: update_where_def)
  then show ?thesis by (simp only:)
qed

lemma distinct_filter_rows [wf_intros]:
  "distinct (map row_id rs) \<Longrightarrow> distinct (map row_id (filter P rs))"
  by (rule distinct_map_filter)

lemma distinct_delete [wf_intros]:
  "distinct (map row_id rs) \<Longrightarrow> distinct (map row_id (delete_row i rs))"
  by (simp add: delete_row_def distinct_map_filter)

subsection \<open>Eviction\<close>

definition without :: "string set \<Rightarrow> row list \<Rightarrow> row list" where
  "without ids rs = filter (\<lambda>r. row_id r \<notin> ids) rs"

lemma rows_size_delete:
  assumes "distinct (map row_id rs)" "r \<in> set rs"
  shows "rows_size (delete_row (row_id r) rs) + row_size_bytes r = rows_size rs"
  using assms
proof (induction rs)
  case (Cons x rs)
  show ?case
  proof (cases "x = r")
    case True
    then have "delete_row (row_id r) rs = rs"
      using Cons.prems by (auto simp: delete_row_def intro!: filter_True rev_image_eqI)
    with True show ?thesis by (simp add: delete_row_def rows_size_def)
  next
    case False
    then have "r \<in> set rs" "row_id x \<noteq> row_id r" using Cons.prems by auto
    with Cons show ?thesis by (simp add: delete_row_def rows_size_def)
  qed
qed simp

text \<open>The loop deletes a prefix of the candidates, just as long as the limit is exceeded.\<close>

lemma evict_prefix:
  assumes "distinct (map row_id rs)" "distinct (map fst cands)"
    "\<And>i s. (i, s) \<in> set cands \<Longrightarrow> \<exists>r \<in> set rs. row_id r = i \<and> row_size_bytes r = s"
    "limit < rows_size rs"
  shows "\<exists>k \<le> length cands. evict limit cands (rows_size rs) rs
      = without (set (map fst (take k cands))) rs \<and>
    (k < length cands \<longrightarrow> rows_size (evict limit cands (rows_size rs) rs) \<le> limit) \<and>
    (\<forall>j < k. limit < rows_size (without (set (map fst (take j cands))) rs))"
  using assms
proof (induction cands arbitrary: rs)
  case Nil
  then show ?case by (auto simp: without_def)
next
  case (Cons c cands)
  obtain i s where c: "c = (i, s)" by (cases c)
  obtain r where r: "r \<in> set rs" "row_id r = i" "row_size_bytes r = s"
    using Cons.prems(3) [of i s] c by auto
  let ?rs = "delete_row i rs"
  have size: "rows_size ?rs = rows_size rs - s"
    using rows_size_delete [OF Cons.prems(1) r(1)] r by simp
  have wo: "without (set (map fst (take j cands))) ?rs
      = without (set (map fst (take (Suc j) (c # cands)))) rs" for j
    by (auto simp: without_def delete_row_def c intro: filter_cong)
  have zero: "without (set (map fst (take 0 (c # cands)))) rs = rs" by (simp add: without_def)
  show ?case
  proof (cases "rows_size ?rs \<le> limit")
    case True
    then have ev: "evict limit (c # cands) (rows_size rs) rs = ?rs"
      by (simp add: c Let_def size)
    have one: "without (set (map fst (take (Suc 0) (c # cands)))) rs = ?rs"
      by (simp add: without_def delete_row_def c)
    show ?thesis
      by (rule exI [of _ "Suc 0"])
        (use True ev one zero Cons.prems(4) in \<open>simp only: less_Suc0, simp\<close>)
  next
    case False
    have dist: "distinct (map row_id ?rs)" "distinct (map fst cands)"
      using Cons.prems(1,2) by (simp_all add: wf_intros)
    have there: "\<exists>r \<in> set ?rs. row_id r = i' \<and> row_size_bytes r = s'" if "(i', s') \<in> set cands" for i' s'
    proof -
      have "i' \<noteq> i" using that Cons.prems(2) c by (force simp: image_iff)
      moreover have "(i', s') \<in> set (c # cands)" using that by simp
      from Cons.prems(3) [OF this] obtain r' where
        "r' \<in> set rs" "row_id r' = i'" "row_size_bytes r' = s'"
        by blast
      ultimately show ?thesis by (auto simp: delete_row_def)
    qed
    from False have big: "limit < rows_size ?rs" by simp
    have ev: "evict limit (c # cands) (rows_size rs) rs = evict limit cands (rows_size ?rs) ?rs"
      using False by (simp add: c Let_def size)
    obtain k where k: "k \<le> length cands"
        "evict limit cands (rows_size ?rs) ?rs = without (set (map fst (take k cands))) ?rs"
        "k < length cands \<longrightarrow> rows_size (evict limit cands (rows_size ?rs) ?rs) \<le> limit"
        "\<forall>j < k. limit < rows_size (without (set (map fst (take j cands))) ?rs)"
      using Cons.IH [OF dist there big] by blast
    have "limit < rows_size (without (set (map fst (take j (c # cands)))) rs)" if "j < Suc k" for j
    proof (cases j)
      case 0
      with Cons.prems(4) zero show ?thesis by simp
    next
      case (Suc j')
      with that k(4) wo show ?thesis by simp
    qed
    then show ?thesis
      by (intro exI [of _ "Suc k"] conjI) (use k ev wo [of k] in simp_all)
  qed
qed

subsection \<open>Pruning\<close>

definition evictable :: "string option \<Rightarrow> row \<Rightarrow> bool" where
  "evictable protected r \<longleftrightarrow> status_final (row_status r) \<and> protected \<noteq> Some (row_id r)"

lemma eviction_candidates_alt:
  "eviction_candidates protected rs
    = map (\<lambda>r. (row_id r, row_size_bytes r)) (sort_key eviction_key (filter (evictable protected) rs))"
  unfolding eviction_candidates_def evictable_def
  by (rule arg_cong [of _ _ "\<lambda>xs. map _ (sort_key _ xs)"], rule filter_cong)
    (auto split: option.splits)

text \<open>
  What pruning keeps: nothing is invented, an active row always stays, a protected row only goes
  when its retention is over, and rows go in the order of their age until the limit is met or no
  evictable row is left, and not a moment longer: the limit would be exceeded with the youngest row
  that was evicted.
\<close>

definition evicted :: "u64 \<Rightarrow> row list \<Rightarrow> row list \<Rightarrow> row set" where
  "evicted cutoff rs rs' = {r \<in> set rs - set rs'. \<not> expired cutoff r}"

definition prune_spec ::
    "u64 \<Rightarrow> nat \<Rightarrow> string option \<Rightarrow> row list \<Rightarrow> row list \<Rightarrow> bool" where
  "prune_spec cutoff limit protected rs rs' \<longleftrightarrow>
     (\<exists>P. rs' = filter P rs) \<and>
     (\<forall>r \<in> set rs. \<not> status_final (row_status r) \<longrightarrow> r \<in> set rs') \<and>
     (\<forall>r \<in> set rs. protected = Some (row_id r) \<longrightarrow> \<not> expired cutoff r \<longrightarrow> r \<in> set rs') \<and>
     (\<forall>r \<in> set rs'. \<not> expired cutoff r) \<and>
     (rows_size rs' \<le> limit \<or> (\<forall>r \<in> set rs'. \<not> evictable protected r)) \<and>
     (\<forall>r \<in> set rs - set rs'. \<forall>r' \<in> set rs'. \<not> expired cutoff r \<longrightarrow> evictable protected r' \<longrightarrow>
        eviction_key r \<le> eviction_key r') \<and>
     (evicted cutoff rs rs' \<noteq> {} \<longrightarrow>
        (\<exists>r \<in> evicted cutoff rs rs'. limit < rows_size rs' + row_size_bytes r \<and>
           (\<forall>x \<in> evicted cutoff rs rs'. eviction_key x \<le> eviction_key r)))"

lemma sorted_key_take_drop:
  assumes "sorted (map f xs)" "x \<in> set (take k xs)" "y \<in> set xs" "y \<notin> set (take k xs)"
  shows "f x \<le> f y"
proof -
  have "y \<in> set (drop k xs)"
    using assms(3,4) by (metis Un_iff append_take_drop_id set_append)
  moreover have "sorted (map f (take k xs) @ map f (drop k xs))"
    using assms(1) by (simp flip: map_append)
  ultimately show ?thesis using assms(2) by (auto simp: sorted_append)
qed

lemma prune_rows_spec:
  assumes dist: "distinct (map row_id rs)"
  shows "prune_spec (saturating_sub now retention) (unat limit) (map_option (uuid_text cd) protected)
    rs (prune_rows cd retention limit now protected rs)"
proof -
  let ?cut = "saturating_sub now retention" and ?p = "map_option (uuid_text cd) protected"
  let ?kept = "filter (\<lambda>r. \<not> expired ?cut r) rs"
  let ?out = "prune_rows cd retention limit now protected rs"
  have final: "status_final (row_status r)" if "expired ?cut r" for r
    using that by (simp add: expired_def)
  show ?thesis
  proof (cases "rows_size ?kept \<le> unat limit")
    case True
    then have "?out = ?kept" by (simp add: prune_rows_def)
    with True final show ?thesis unfolding prune_spec_def evicted_def by auto
  next
    case False
    let ?sorted = "sort_key eviction_key (filter (evictable ?p) ?kept)"
    let ?cands = "eviction_candidates ?p ?kept"
    have cands: "map fst ?cands = map row_id ?sorted" by (simp add: eviction_candidates_alt comp_def)
    have dkept: "distinct (map row_id ?kept)" using dist by (rule distinct_filter_rows)
    have "mset (map row_id ?sorted) = mset (map row_id (filter (evictable ?p) ?kept))" by simp
    then have dsort: "distinct (map row_id ?sorted)"
      using distinct_filter_rows [OF dkept] mset_eq_imp_distinct_iff by blast
    obtain k where k: "k \<le> length ?cands"
        "evict (unat limit) ?cands (rows_size ?kept) ?kept
          = without (set (map fst (take k ?cands))) ?kept"
        "k < length ?cands \<longrightarrow>
          rows_size (evict (unat limit) ?cands (rows_size ?kept) ?kept) \<le> unat limit"
        "\<forall>j < k. unat limit < rows_size (without (set (map fst (take j ?cands))) ?kept)"
    proof -
      have "distinct (map fst ?cands)" using dsort by (simp only: cands)
      moreover have "\<exists>r \<in> set ?kept. row_id r = i \<and> row_size_bytes r = s"
        if "(i, s) \<in> set ?cands" for i s
        using that by (auto simp: eviction_candidates_alt)
      ultimately show ?thesis
        using evict_prefix [OF dkept, of ?cands "unat limit"] False that by auto
    qed
    have prefix: "set (map fst (take j ?cands)) = row_id ` set (take j ?sorted)" for j
    proof -
      have "map fst (take j ?cands) = map row_id (take j ?sorted)"
        by (simp only: take_map [symmetric] cands)
      then show ?thesis by (metis set_map)
    qed
    have out: "?out = without (row_id ` set (take k ?sorted)) ?kept"
      using False k(2) prefix [of k] by (simp only: prune_rows_def Let_def if_False)
    have gone: "r \<in> set (take k ?sorted)" if "r \<in> set ?kept" "r \<notin> set ?out" for r
    proof -
      have "row_id r \<in> row_id ` set (take k ?sorted)"
        using that unfolding out without_def by simp
      then obtain x where x: "row_id r = row_id x" "x \<in> set (take k ?sorted)"
        by (rule imageE)
      then have "x \<in> set ?kept" by (auto dest: in_set_takeD)
      then have "x = r"
        using find_row_in [OF dkept] find_row_in [OF dkept that(1)] x(1) by fastforce
      with x(2) show ?thesis by simp
    qed
    have ev: "evictable ?p r" if "r \<in> set (take k ?sorted)" for r
      using that by (auto dest: in_set_takeD)
    have sub: "r \<in> set ?kept" if "r \<in> set ?out" for r using that by (simp add: out without_def)
    show ?thesis
      unfolding prune_spec_def
    proof (intro conjI ballI impI)
      show "\<exists>P. ?out = filter P rs" by (simp add: out without_def) blast
      show "r \<in> set ?out" if "r \<in> set rs" "\<not> status_final (row_status r)" for r
        using that gone [of r] ev [of r] final [of r] by (auto simp: evictable_def)
      show "r \<in> set ?out" if "r \<in> set rs" "?p = Some (row_id r)" "\<not> expired ?cut r" for r
        using that gone [of r] ev [of r] by (auto simp: evictable_def)
      show "\<not> expired ?cut r" if "r \<in> set ?out" for r
        using sub [OF that] by simp
      show "rows_size ?out \<le> unat limit \<or> (\<forall>r \<in> set ?out. \<not> evictable ?p r)"
      proof (cases "k < length ?cands")
        case True
        then show ?thesis using k(3) False by (simp add: prune_rows_def Let_def)
      next
        case False
        then have "take k ?sorted = ?sorted" by (simp add: eviction_candidates_alt)
        then show ?thesis by (auto simp: out without_def)
      qed
      show "eviction_key r \<le> eviction_key r'"
        if "r \<in> set rs - set ?out" "r' \<in> set ?out" "\<not> expired ?cut r" "evictable ?p r'" for r r'
      proof (rule sorted_key_take_drop [of eviction_key ?sorted r k r'])
        show "sorted (map eviction_key ?sorted)" by simp
        show "r \<in> set (take k ?sorted)" using gone that by simp
        show "r' \<in> set ?sorted" using sub [OF that(2)] that(4) by simp
        show "r' \<notin> set (take k ?sorted)" using that(2) by (auto simp: out without_def)
      qed
      show "\<exists>r \<in> evicted ?cut rs ?out. unat limit < rows_size ?out + row_size_bytes r \<and>
          (\<forall>x \<in> evicted ?cut rs ?out. eviction_key x \<le> eviction_key r)"
        if some: "evicted ?cut rs ?out \<noteq> {}"
      proof -
        have all: "x \<in> set (take k ?sorted)" if "x \<in> evicted ?cut rs ?out" for x
          using that gone by (simp add: evicted_def)
        then have "take k ?sorted \<noteq> []" using some by fastforce
        then obtain j where j: "k = Suc j" by (cases k) auto
        have "length ?cands = length ?sorted" by (simp add: eviction_candidates_alt)
        then have "j < length ?sorted" using k(1) j by simp
        then have take: "take k ?sorted = take j ?sorted @ [?sorted ! j]"
          unfolding j by (rule take_Suc_conv_app_nth)
        let ?r = "?sorted ! j" and ?rest = "without (row_id ` set (take j ?sorted)) ?kept"
        have "?r \<in> set ?sorted" using \<open>j < length ?sorted\<close> by (rule nth_mem)
        then have r: "?r \<in> set ?kept" by simp
        have fresh: "row_id ?r \<notin> row_id ` set (take j ?sorted)"
        proof -
          have "distinct (map row_id (take k ?sorted))" using distinct_take [OF dsort, of k] by (simp only: take_map)
          then show ?thesis unfolding take by auto
        qed
        then have rest: "?r \<in> set ?rest" using r unfolding without_def by simp
        have cut: "?out = delete_row (row_id ?r) ?rest"
          unfolding out take by (auto simp: without_def delete_row_def intro: filter_cong)
        have "distinct (map row_id ?rest)" unfolding without_def by (rule distinct_filter_rows [OF dkept])
        from rows_size_delete [OF this rest]
        have size: "rows_size ?out + row_size_bytes ?r = rows_size ?rest" by (simp only: cut)
        have big: "unat limit < rows_size ?rest"
          using k(4) [unfolded j, rule_format, of j] by (simp only: prefix lessI)
        have "?r \<notin> set ?out" unfolding cut delete_row_def by simp
        then have last: "?r \<in> evicted ?cut rs ?out" using r by (simp add: evicted_def)
        have oldest: "eviction_key x \<le> eviction_key ?r" if x: "x \<in> evicted ?cut rs ?out" for x
        proof -
          have "sorted (map eviction_key (take j ?sorted @ [?r]))"
            unfolding take [symmetric] by (simp only: take_map [symmetric] sorted_sort_key sorted_wrt_take)
          moreover have "x \<in> set (take j ?sorted @ [?r])" using all [OF x] by (simp only: take)
          ultimately show ?thesis by (auto simp: sorted_append)
        qed
        show ?thesis
          by (rule bexI [OF _ last], intro conjI ballI) (use size big in linarith, rule oldest)
      qed
    qed
  qed
qed

lemma pruneD:
  assumes "prune cd now protected db = Some db'" "distinct (map row_id (db_rows db))"
  shows "prune_spec (saturating_sub now (db_retention_ms db)) (unat (db_max_storage_bytes db))
      (map_option (uuid_text cd) protected) (db_rows db) (db_rows db')"
    "distinct (map row_id (db_rows db'))" "set (db_rows db') \<subseteq> set (db_rows db)"
    "db_retention_ms db' = db_retention_ms db"
    "db_max_storage_bytes db' = db_max_storage_bytes db"
    "db_cluster db' = db_cluster db" "db_controller_id db' = db_controller_id db"
proof -
  from assms(1) show spec: "prune_spec (saturating_sub now (db_retention_ms db))
      (unat (db_max_storage_bytes db)) (map_option (uuid_text cd) protected)
      (db_rows db) (db_rows db')"
    using prune_rows_spec [OF assms(2)] by (auto simp: prune_def split: if_splits)
  then obtain P where "db_rows db' = filter P (db_rows db)"
    unfolding prune_spec_def by blast
  then show "distinct (map row_id (db_rows db'))" "set (db_rows db') \<subseteq> set (db_rows db)"
    using distinct_filter_rows [OF assms(2)] by auto
qed (use assms(1) in \<open>auto simp: prune_def split: if_splits\<close>)

subsection \<open>Size accounting\<close>

text \<open>The column \<open>size_bytes\<close> is the number of bytes the row holds, and every statement keeps it so.\<close>

definition row_bytes :: "row \<Rightarrow> nat" where
  "row_bytes r = length (row_payload r) + length (row_variables r) + option_length (row_result r)
     + option_length (row_metrics r) + option_length (row_error r) + option_length (row_secrets r)"

definition db_wf :: "database \<Rightarrow> bool" where
  "db_wf db \<longleftrightarrow> distinct (map row_id (db_rows db)) \<and>
     (\<forall>r \<in> set (db_rows db). row_size_bytes r = row_bytes r)"

lemma row_of_execution_bytes: "row_size_bytes (row_of_execution cd e) = row_bytes (row_of_execution cd e)"
  by (simp add: row_of_execution_def row_bytes_def execution_size_def option_length_def)

lemma merge_row_bytes:
  "row_size_bytes r = row_bytes r \<Longrightarrow> row_secrets r = None \<Longrightarrow>
   row_size_bytes (merge_row x r) = row_bytes (merge_row x r)"
  by (simp add: merge_row_def row_bytes_def option_length_def)

lemma db_wf_upsert:
  assumes "db_wf db" "upsert_execution cd e db = Some db'"
  shows "db_wf db'"
proof -
  let ?r = "row_of_execution cd e"
  have db': "db' = db\<lparr>db_rows := upsert_row ?r (db_rows db)\<rparr>"
    using assms(2) by (simp add: upsert_execution_def split: if_splits)
  have "row_size_bytes x = row_bytes x" if "x \<in> set (upsert_row ?r (db_rows db))" for x
    using that assms(1) merge_row_bytes [OF row_of_execution_bytes, of cd e]
    by (auto simp: upsert_row_def db_wf_def row_of_execution_bytes split: if_splits)
      (auto simp: row_of_execution_def)
  then show ?thesis
    using assms(1) by (simp add: db' db_wf_def distinct_upsert)
qed

lemma db_wf_update_where:
  assumes "db_wf db" "\<And>r. row_id (f r) = row_id r"
    "\<And>r. row_size_bytes r = row_bytes r \<Longrightarrow> row_id r = i \<Longrightarrow> r \<in> set (db_rows db) \<Longrightarrow>
      row_size_bytes (f r) = row_bytes (f r)"
  shows "db_wf (db\<lparr>db_rows := update_where i f (db_rows db)\<rparr>)"
  using assms(1,3) by (auto simp: db_wf_def distinct_update_where assms(2)) (auto simp: update_where_def)

lemma clear_secrets_simps [simp]:
  "row_id (clear_secrets r) = row_id r" "row_secrets (clear_secrets r) = None"
  "row_size_bytes r = row_bytes r \<Longrightarrow> row_size_bytes (clear_secrets r) = row_bytes (clear_secrets r)"
  by (simp_all add: clear_secrets_def row_bytes_def option_length_def)

lemma add_secrets_simps [simp]:
  "row_id (add_secrets s r) = row_id r" "row_secrets (add_secrets s r) = Some s"
  "row_size_bytes r = row_bytes r \<Longrightarrow> row_secrets r = None \<Longrightarrow>
   row_size_bytes (add_secrets s r) = row_bytes (add_secrets s r)"
  by (simp_all add: add_secrets_def row_bytes_def option_length_def)

lemma db_wf_prune:
  assumes "db_wf db" "prune cd now protected db = Some db'"
  shows "db_wf db'"
  using pruneD [OF assms(2)] assms(1) by (auto simp: db_wf_def)

lemma db_wf_delete: "db_wf db \<Longrightarrow> db_wf (db\<lparr>db_rows := delete_row i (db_rows db)\<rparr>)"
  by (auto simp: db_wf_def wf_intros) (auto simp: delete_row_def)

end
