(* ===== verification/Storage_Properties.thy ===== *)
theory Storage_Properties
  imports Storage_Facts Cluster_Properties
begin

section \<open>The properties of the execution store\<close>

text \<open>
  Round trips through the table, admission under the storage limit, completion, pruning, recovery
  after a restart, settings and the secrets cipher, with witnesses on a small codec.
\<close>

subsection \<open>Encodings\<close>

text \<open>What the code relies on: parsing a printed identifier or value gives it back.\<close>

definition ids_roundtrip :: "codec \<Rightarrow> bool" where
  "ids_roundtrip cd \<longleftrightarrow> (\<forall>u. uuid_parse cd (uuid_text cd u) = Some u)"

definition data_roundtrips :: "codec \<Rightarrow> execution \<Rightarrow> bool" where
  "data_roundtrips cd e \<longleftrightarrow>
     json_parse cd (json_bytes cd (exec_payload e)) = Some (exec_payload e) \<and>
     (case exec_result e of None \<Rightarrow> True | Some v \<Rightarrow> json_parse cd (json_bytes cd v) = Some v) \<and>
     (case exec_metrics e of None \<Rightarrow> True
      | Some v \<Rightarrow> metrics_parse cd (metrics_bytes cd v) = Some v) \<and>
     (\<exists>m. vars_parse cd (vars_bytes cd (exec_variables e)) = Some m \<and>
        hm_get m = hm_get (exec_variables e))"

lemma uuid_text_eq: "ids_roundtrip cd \<Longrightarrow> uuid_text cd u = uuid_text cd v \<longleftrightarrow> u = v"
  by (metis ids_roundtrip_def option.inject)

lemma status_roundtrip [simp]: "status (status_name s) = Some s"
  by (cases s) (simp_all add: status_def)

lemma status_name_kinds [simp]:
  "status_active (status_name s) \<longleftrightarrow> s \<in> {Queued, Assigned, Running}"
  "status_final (status_name s) \<longleftrightarrow> s \<in> {Succeeded, Failed, TimedOut}"
  by (cases s; simp add: status_active_def status_final_def)+

lemma status_exclusive: "status_active s \<Longrightarrow> \<not> status_final s"
  by (auto simp: status_active_def status_final_def)

lemma optional_map:
  "(\<And>x. v = Some x \<Longrightarrow> f (g x) = Some x) \<Longrightarrow> optional f (map_option g v) = Some v"
  by (cases v) (simp_all add: optional_def)

text \<open>Only the creation time, the secrets and the size of the row may differ.\<close>

lemma execution_from_row_of:
  assumes "ids_roundtrip cd" "data_roundtrips cd e"
    and "r = (row_of_execution cd e)\<lparr>row_created_at_ms := t, row_secrets := s, row_size_bytes := n\<rparr>"
  shows "\<exists>m. hm_get m = hm_get (exec_variables e) \<and>
    execution_from_row cd r = Some (e\<lparr>exec_variables := m, exec_created_at_ms := t\<rparr>)"
proof -
  obtain m where m: "vars_parse cd (vars_bytes cd (exec_variables e)) = Some m"
      "hm_get m = hm_get (exec_variables e)"
    using assms(2) unfolding data_roundtrips_def by blast
  have "optional (json_parse cd) (map_option (json_bytes cd) (exec_result e)) = Some (exec_result e)"
    "optional (metrics_parse cd) (map_option (metrics_bytes cd) (exec_metrics e)) = Some (exec_metrics e)"
    by (rule optional_map, use assms(2) in \<open>simp add: data_roundtrips_def\<close>)+
  moreover have "optional (uuid_parse cd) (map_option (uuid_text cd) v) = Some v" for v
    by (rule optional_map) (use assms(1) in \<open>simp add: ids_roundtrip_def\<close>)
  ultimately show ?thesis
    using m assms(1,2)
    by (intro exI [of _ m])
      (simp add: assms(3) execution_from_row_def row_of_execution_def ids_roundtrip_def
        data_roundtrips_def)
qed

text \<open>The codec of the witnesses.\<close>

definition demo_codec :: codec where
  "demo_codec =
     \<lparr>uuid_text = (\<lambda>u. replicate (unat u) CHR ''x''), uuid_parse = (\<lambda>s. Some (word_of_nat (length s))),
      json_bytes = (\<lambda>_. [0]), json_parse = (\<lambda>_. Some JNull),
      vars_bytes = (\<lambda>_. [1, 2]), vars_parse = (\<lambda>_. Some []),
      metrics_bytes = (\<lambda>_. []), metrics_parse = (\<lambda>_. None),
      cluster_bytes = (\<lambda>_. []), cluster_parse = (\<lambda>_. Some empty_cluster)\<rparr>"

lemma demo_codec_ids: "ids_roundtrip demo_codec"
  by (simp add: ids_roundtrip_def demo_codec_def)

lemma demo_codec_data: "data_roundtrips demo_codec (demo_execution i t)"
  by (simp add: data_roundtrips_def demo_codec_def demo_execution_def hm_get_def fun_eq_iff)

lemmas storage_eval = demo_codec_def demo_execution_def open_database_def upsert_execution_def
  bindable_def fits_i64_def row_of_execution_def upsert_row_def

text \<open>What is written is read back: after an upsert the lookup finds the execution, with the
  creation time of an existing row, and every other row is as before.\<close>

theorem upsert_roundtrip:
  assumes "ids_roundtrip cd" "data_roundtrips cd e" "upsert_execution cd e db = Some db'"
  shows "\<exists>m. hm_get m = hm_get (exec_variables e) \<and>
    db_execution cd (exec_id e) db' = Some (Some (e\<lparr>exec_variables := m, exec_created_at_ms :=
      (case find_row (uuid_text cd (exec_id e)) (db_rows db) of
         None \<Rightarrow> exec_created_at_ms e | Some r \<Rightarrow> row_created_at_ms r)\<rparr>)) \<and>
    (\<forall>i. i \<noteq> exec_id e \<longrightarrow> db_execution cd i db' = db_execution cd i db)"
proof -
  let ?r = "row_of_execution cd e" and ?i = "uuid_text cd (exec_id e)"
  let ?old = "find_row ?i (db_rows db)"
  let ?new = "case ?old of None \<Rightarrow> ?r | Some x \<Rightarrow> merge_row x ?r"
  have db': "db' = db\<lparr>db_rows := upsert_row ?r (db_rows db)\<rparr>"
    using assms(3) by (simp add: upsert_execution_def split: if_splits)
  have rid: "row_id ?r = ?i" by (simp add: row_of_execution_def)
  have find: "find_row (uuid_text cd i) (db_rows db')
      = (if i = exec_id e then Some ?new else find_row (uuid_text cd i) (db_rows db))" for i
    using table.look_upsert [OF rid, of "uuid_text cd i" "db_rows db"]
    by (simp add: db' uuid_text_eq [OF assms(1)])
  have "?new = ?r\<lparr>row_created_at_ms := (case ?old of None \<Rightarrow> exec_created_at_ms e
        | Some r \<Rightarrow> row_created_at_ms r), row_secrets := Option.bind ?old row_secrets,
      row_size_bytes := row_size_bytes ?new\<rparr>"
    by (cases ?old) (simp_all add: merge_row_def row_of_execution_def)
  from execution_from_row_of [OF assms(1,2) this] obtain m where
    "hm_get m = hm_get (exec_variables e)"
    "execution_from_row cd ?new = Some (e\<lparr>exec_variables := m, exec_created_at_ms :=
      (case ?old of None \<Rightarrow> exec_created_at_ms e | Some r \<Rightarrow> row_created_at_ms r)\<rparr>)"
    by blast
  then show ?thesis
    by (intro exI [of _ m]) (simp add: db_execution_def find optional_def)
qed

theorem upsert_roundtrip_witness:
  "\<exists>db' m. upsert_execution demo_codec (demo_execution 2 5) open_database = Some db' \<and>
     db_execution demo_codec 2 db' = Some (Some ((demo_execution 2 5)\<lparr>exec_variables := m\<rparr>))"
proof -
  obtain db' where db': "upsert_execution demo_codec (demo_execution 2 5) open_database = Some db'"
    by (simp add: storage_eval)
  from upsert_roundtrip [OF demo_codec_ids demo_codec_data db'] show ?thesis
    using db' by (simp add: demo_execution_def open_database_def) blast
qed

subsection \<open>Admission under the storage limit\<close>

lemma prune_find_active:
  assumes "prune cd now protected db = Some db'" "distinct (map row_id (db_rows db))"
    "find_row i (db_rows db) = Some r" "\<not> status_final (row_status r)"
  shows "find_row i (db_rows db') = Some r"
proof -
  have "r \<in> set (db_rows db')" "row_id r = i"
    using pruneD(1) [OF assms(1,2)] find_row_SomeD [OF assms(3)] assms(4)
    by (auto simp: prune_spec_def)
  with find_row_in [OF pruneD(2) [OF assms(1,2)]] show ?thesis by auto
qed

lemma prune_find_rest:
  assumes "prune cd now protected db = Some db'" "distinct (map row_id (db_rows db))"
  shows "find_row i (db_rows db') \<in> {None, find_row i (db_rows db)}"
proof (cases "find_row i (db_rows db')")
  case (Some r)
  then have "r \<in> set (db_rows db)" "row_id r = i"
    using find_row_SomeD [OF Some] pruneD(3) [OF assms] by auto
  with find_row_in [OF assms(2)] Some show ?thesis by auto
qed simp

text \<open>
  When the protected execution is unfinished, pruning meets the limit exactly when the rows it must
  keep do.
\<close>

lemma rows_size_filter_le: "rows_size (filter P rs) \<le> rows_size rs"
  by (induction rs) (simp_all add: rows_size_def)

lemma prune_fits:
  assumes "prune cd now (Some i) db = Some db'" "distinct (map row_id (db_rows db))"
    and "r \<in> set (db_rows db')" "row_id r = uuid_text cd i" "\<not> status_final (row_status r)"
  shows "storage_used db' \<le> unat (db_max_storage_bytes db) \<longleftrightarrow>
    rows_size (filter (\<lambda>r. \<not> status_final (row_status r)) (db_rows db)) \<le> unat (db_max_storage_bytes db)"
proof -
  let ?n = "\<lambda>r. \<not> status_final (row_status r)"
  note spec = pruneD(1) [OF assms(1,2), unfolded prune_spec_def]
  then obtain P where P: "db_rows db' = filter P (db_rows db)" by blast
  have same: "filter ?n (db_rows db') = filter ?n (db_rows db)"
    using spec P by (auto simp: conj_commute intro!: filter_cong)
  then have kept: "rows_size (filter ?n (db_rows db)) \<le> storage_used db'"
    using rows_size_filter_le [of ?n "db_rows db'"] by (simp add: storage_used_def)
  show ?thesis
  proof
    assume "rows_size (filter ?n (db_rows db)) \<le> unat (db_max_storage_bytes db)"
    moreover have "storage_used db' = rows_size (filter ?n (db_rows db))"
      if none: "\<forall>x \<in> set (db_rows db'). \<not> evictable (Some (uuid_text cd i)) x"
    proof -
      have "?n x" if x: "x \<in> set (db_rows db')" for x
      proof (cases "row_id x = uuid_text cd i")
        case True
        then have "x = r"
          using find_row_in [OF pruneD(2) [OF assms(1,2)] x]
            find_row_in [OF pruneD(2) [OF assms(1,2)] assms(3)] assms(4) by simp
        with assms(5) show ?thesis by simp
      next
        case False
        with none x show ?thesis by (auto simp: evictable_def)
      qed
      then have "filter ?n (db_rows db') = db_rows db'" by (simp add: filter_id_conv)
      with same show ?thesis by (simp add: storage_used_def)
    qed
    ultimately show "storage_used db' \<le> unat (db_max_storage_bytes db)"
      using spec by (auto simp: storage_used_def)
  qed (use kept in simp)
qed

text \<open>The row that a fresh execution has after \<open>insert_execution\<close>.\<close>

definition inserted_row :: "codec \<Rightarrow> execution \<Rightarrow> bytes \<Rightarrow> row" where
  "inserted_row cd e secrets =
     (if secrets = [] then row_of_execution cd e else add_secrets secrets (row_of_execution cd e))"

lemma insert_executionE:
  assumes "insert_execution cd e secrets db = Some (b, db')"
  obtains db2 db3 where
    "db2 = db\<lparr>db_rows := (if secrets = [] then upsert_row (row_of_execution cd e) (db_rows db)
      else update_where (uuid_text cd (exec_id e)) (add_secrets secrets)
        (upsert_row (row_of_execution cd e) (db_rows db)))\<rparr>"
    "prune cd (exec_created_at_ms e) (Some (exec_id e)) db2 = Some db3"
    "b \<longleftrightarrow> storage_used db3 \<le> unat (db_max_storage_bytes db3)"
    "db' = (if b then db3
      else db3\<lparr>db_rows := delete_row (uuid_text cd (exec_id e)) (db_rows db3)\<rparr>)"
  using assms
  by (cases "bindable e")
    (auto simp: insert_execution_def upsert_execution_def Let_def not_less
      split: option.splits if_splits)

lemma insert_stage:
  assumes wf: "db_wf db" and new: "find_row (uuid_text cd (exec_id e)) (db_rows db) = None"
    and db2: "db2 = db\<lparr>db_rows := (if secrets = [] then upsert_row (row_of_execution cd e) (db_rows db)
      else update_where (uuid_text cd (exec_id e)) (add_secrets secrets)
        (upsert_row (row_of_execution cd e) (db_rows db)))\<rparr>"
  shows "db_wf db2" "find_row i (db_rows db2)
    = (if i = uuid_text cd (exec_id e) then Some (inserted_row cd e secrets)
       else find_row i (db_rows db))"
proof -
  have rid: "row_id (row_of_execution cd e) = uuid_text cd (exec_id e)"
    by (simp add: row_of_execution_def)
  have absent: "\<forall>x \<in> set (db_rows db). row_id x \<noteq> uuid_text cd (exec_id e)"
    using new by (metis find_row_None image_eqI)
  have "upsert_row (row_of_execution cd e) (db_rows db) = db_rows db @ [row_of_execution cd e]"
    using absent rid by (auto simp: upsert_row_def)
  then have fresh: "row_secrets r = None"
    if "r \<in> set (upsert_row (row_of_execution cd e) (db_rows db))" "row_id r = uuid_text cd (exec_id e)"
    for r
    using that absent by (auto simp: row_of_execution_def)
  have wf1: "db_wf (db\<lparr>db_rows := upsert_row (row_of_execution cd e) (db_rows db)\<rparr>)"
    using wf \<open>upsert_row _ _ = _\<close> new rid by (auto simp: db_wf_def find_row_None row_of_execution_bytes)
  show "db_wf db2"
    using wf1 db_wf_update_where [OF wf1, of "add_secrets secrets" "uuid_text cd (exec_id e)"] fresh
    by (auto simp: db2)
  show "find_row i (db_rows db2) = (if i = uuid_text cd (exec_id e)
      then Some (inserted_row cd e secrets) else find_row i (db_rows db))"
    using new by (simp add: db2 inserted_row_def find_row_upsert find_row_update_where rid)
qed

lemma inserted_rows:
  assumes "find_row (uuid_text cd (exec_id e)) (db_rows db) = None"
    and "db2 = db\<lparr>db_rows := (if secrets = [] then upsert_row (row_of_execution cd e) (db_rows db)
      else update_where (uuid_text cd (exec_id e)) (add_secrets secrets)
        (upsert_row (row_of_execution cd e) (db_rows db)))\<rparr>"
  shows "db_rows db2 = db_rows db @ [inserted_row cd e secrets]"
proof -
  have rid: "row_id (row_of_execution cd e) = uuid_text cd (exec_id e)"
    by (simp add: row_of_execution_def)
  have absent: "\<forall>x \<in> set (db_rows db). row_id x \<noteq> uuid_text cd (exec_id e)"
    using assms(1) by (metis find_row_None image_eqI)
  then have "upsert_row (row_of_execution cd e) (db_rows db) = db_rows db @ [row_of_execution cd e]"
    using rid by (auto simp: upsert_row_def)
  moreover have "map (\<lambda>x. if row_id x = uuid_text cd (exec_id e) then add_secrets secrets x else x) (db_rows db) = db_rows db"
    using absent by (intro map_idI) simp
  ultimately show ?thesis
    using rid by (simp add: assms(2) inserted_row_def update_where_def)
qed

lemma insert_execution_admits:
  assumes "db_wf db" "find_row (uuid_text cd (exec_id e)) (db_rows db) = None"
    "exec_status e \<in> {Queued, Assigned, Running}"
    "insert_execution cd e secrets db = Some (b, db')"
  shows "db_wf db' \<and>
    b = (rows_size (filter (\<lambda>r. \<not> status_final (row_status r)) (db_rows db))
         + row_size_bytes (inserted_row cd e secrets) \<le> unat (db_max_storage_bytes db)) \<and>
    (if b then storage_used db' \<le> unat (db_max_storage_bytes db) \<and>
       find_row (uuid_text cd (exec_id e)) (db_rows db') = Some (inserted_row cd e secrets)
     else find_row (uuid_text cd (exec_id e)) (db_rows db') = None) \<and>
    (\<forall>i r. i \<noteq> uuid_text cd (exec_id e) \<longrightarrow> find_row i (db_rows db) = Some r \<longrightarrow>
       status_active (row_status r) \<longrightarrow> find_row i (db_rows db') = Some r) \<and>
    (\<forall>i. i \<noteq> uuid_text cd (exec_id e) \<longrightarrow> find_row i (db_rows db') \<in> {None, find_row i (db_rows db)})"
proof -
  let ?i = "uuid_text cd (exec_id e)"
  obtain db2 db3 where
    db2: "db2 = db\<lparr>db_rows := (if secrets = [] then upsert_row (row_of_execution cd e) (db_rows db)
      else update_where ?i (add_secrets secrets) (upsert_row (row_of_execution cd e) (db_rows db)))\<rparr>"
    and db3: "prune cd (exec_created_at_ms e) (Some (exec_id e)) db2 = Some db3"
    and b: "b \<longleftrightarrow> storage_used db3 \<le> unat (db_max_storage_bytes db3)"
    and db': "db' = (if b then db3 else db3\<lparr>db_rows := delete_row ?i (db_rows db3)\<rparr>)"
    using insert_executionE [OF assms(4)] by metis
  note stage = insert_stage [OF assms(1,2) db2]
  have dist: "distinct (map row_id (db_rows db2))" using stage(1) by (simp add: db_wf_def)
  have wf3: "db_wf db3" using db_wf_prune [OF stage(1) db3] .
  have limit: "db_max_storage_bytes db3 = db_max_storage_bytes db"
    using pruneD(5) [OF db3 dist] by (simp add: db2)
  have final: "\<not> status_final (row_status (inserted_row cd e secrets))"
    using assms(3) by (auto simp: inserted_row_def row_of_execution_def add_secrets_def)
  have new: "find_row ?i (db_rows db3) = Some (inserted_row cd e secrets)"
    using prune_find_active [OF db3 dist _ final] stage(2) by simp
  have others: "find_row i (db_rows db3) = Some r"
    if "i \<noteq> ?i" "find_row i (db_rows db) = Some r" "status_active (row_status r)" for i r
    using prune_find_active [OF db3 dist, of i r] that stage(2) [of i] status_exclusive by simp
  have rest: "find_row i (db_rows db3) \<in> {None, find_row i (db_rows db)}" if "i \<noteq> ?i" for i
    using prune_find_rest [OF db3 dist, of i] stage(2) [of i] that by simp
  have size: "b = (rows_size (filter (\<lambda>r. \<not> status_final (row_status r)) (db_rows db))
      + row_size_bytes (inserted_row cd e secrets) \<le> unat (db_max_storage_bytes db))"
  proof -
    let ?n = "\<lambda>r. \<not> status_final (row_status r)"
    have "rows_size (filter ?n (db_rows db2)) =
        rows_size (filter ?n (db_rows db)) + row_size_bytes (inserted_row cd e secrets)"
      using final by (simp add: inserted_rows [OF assms(2) db2] rows_size_def)
    moreover have "storage_used db3 \<le> unat (db_max_storage_bytes db) \<longleftrightarrow>
        rows_size (filter ?n (db_rows db2)) \<le> unat (db_max_storage_bytes db)"
      using prune_fits [OF db3 dist, of "inserted_row cd e secrets"] new final limit
        find_row_SomeD [OF new] by (simp add: db2)
    ultimately show ?thesis using b limit by simp
  qed
  show ?thesis
    using new others rest size wf3 b limit
    by (auto simp: db' db_wf_delete find_row_delete)
qed

text \<open>C37: a new active execution is admitted exactly when it fits beside what pruning cannot remove: when
  its row with the encrypted secrets, together with the rows of unfinished executions, is within the
  limit. Then its row is there and the store is within the limit; a refused one leaves no row. Either
  way no other unfinished execution is touched, a finished one is as before or pruned, and the size
  accounting stays exact.\<close>

theorem insert_admission:
  assumes "db_wf db" "find_row (uuid_text cd (exec_id e)) (db_rows db) = None"
    "exec_status e \<in> {Queued, Assigned, Running}"
    "insert_execution cd e secrets db = Some (b, db')"
  shows "db_wf db' \<and>
    b = (rows_size (filter (\<lambda>r. \<not> status_final (row_status r)) (db_rows db))
         + row_size_bytes (inserted_row cd e secrets) \<le> unat (db_max_storage_bytes db)) \<and>
    (if b then storage_used db' \<le> unat (db_max_storage_bytes db) \<and>
       find_row (uuid_text cd (exec_id e)) (db_rows db') = Some (inserted_row cd e secrets)
     else find_row (uuid_text cd (exec_id e)) (db_rows db') = None) \<and>
    (\<forall>i r. i \<noteq> uuid_text cd (exec_id e) \<longrightarrow> find_row i (db_rows db) = Some r \<longrightarrow>
       status_active (row_status r) \<longrightarrow> find_row i (db_rows db') = Some r) \<and>
    (\<forall>i. i \<noteq> uuid_text cd (exec_id e) \<longrightarrow> find_row i (db_rows db') \<in> {None, find_row i (db_rows db)})"
  using insert_execution_admits [OF assms] .

lemma demo_insert:
  "\<exists>db'. insert_execution demo_codec (demo_execution 2 5) [9] open_database = Some (True, db')"
  by (simp add: insert_execution_def storage_eval update_where_def add_secrets_def prune_def
      prune_rows_def expired_def status_final_def storage_used_def rows_size_def saturating_sub_def
      DEFAULT_STORAGE_BYTES_def DEFAULT_RETENTION_MS_def execution_size_def option_length_def)

theorem insert_admission_witness:
  "\<exists>db'. insert_execution demo_codec (demo_execution 2 5) [9] open_database = Some (True, db') \<and>
     db_wf db' \<and> find_row (uuid_text demo_codec 2) (db_rows db') \<noteq> None"
proof -
  obtain db' where db': "insert_execution demo_codec (demo_execution 2 5) [9] open_database
      = Some (True, db')"
    using demo_insert by blast
  have "db_wf open_database" by (simp add: db_wf_def open_database_def)
  from insert_admission [OF this _ _ db'] db' show ?thesis
    by (simp add: open_database_def demo_execution_def)
qed

subsection \<open>Pruning\<close>

text \<open>C38: pruning only deletes, never deletes an unfinished execution, deletes everything whose
  retention is over, spares the protected execution from eviction, evicts the oldest first, stops
  only when the store is within its limit or nothing evictable is left, and evicts no more than it
  takes: with the youngest of the evicted rows the store would still exceed its limit. In particular
  nothing is evicted from a store that is within its limit once the expired rows are gone.\<close>

theorem prune_correct:
  assumes "db_wf db" "prune cd now protected db = Some db'"
  shows "set (db_rows db') \<subseteq> set (db_rows db) \<and>
    (\<forall>r \<in> set (db_rows db). status_active (row_status r) \<longrightarrow> r \<in> set (db_rows db')) \<and>
    (\<forall>r \<in> set (db_rows db'). \<not> expired (saturating_sub now (db_retention_ms db)) r) \<and>
    (\<forall>r \<in> set (db_rows db). map_option (uuid_text cd) protected = Some (row_id r) \<longrightarrow>
       \<not> expired (saturating_sub now (db_retention_ms db)) r \<longrightarrow> r \<in> set (db_rows db')) \<and>
    (storage_used db' \<le> unat (db_max_storage_bytes db) \<or>
     (\<forall>r \<in> set (db_rows db'). status_final (row_status r) \<longrightarrow>
        map_option (uuid_text cd) protected = Some (row_id r))) \<and>
    (\<forall>r \<in> set (db_rows db) - set (db_rows db'). \<forall>r' \<in> set (db_rows db').
       \<not> expired (saturating_sub now (db_retention_ms db)) r \<longrightarrow> status_final (row_status r') \<longrightarrow>
       map_option (uuid_text cd) protected \<noteq> Some (row_id r') \<longrightarrow> eviction_key r \<le> eviction_key r') \<and>
    (let gone = {r \<in> set (db_rows db) - set (db_rows db').
         \<not> expired (saturating_sub now (db_retention_ms db)) r}
     in gone \<noteq> {} \<longrightarrow> (\<exists>r \<in> gone. unat (db_max_storage_bytes db) < storage_used db' + row_size_bytes r \<and>
          (\<forall>x \<in> gone. eviction_key x \<le> eviction_key r)))"
proof -
  have dist: "distinct (map row_id (db_rows db))" using assms(1) by (simp add: db_wf_def)
  note spec = pruneD(1) [OF assms(2) dist, unfolded prune_spec_def evicted_def]
  have "\<forall>r \<in> set (db_rows db). status_active (row_status r) \<longrightarrow> r \<in> set (db_rows db')"
    using spec status_exclusive by blast
  moreover have "storage_used db' \<le> unat (db_max_storage_bytes db) \<or>
     (\<forall>r \<in> set (db_rows db'). status_final (row_status r) \<longrightarrow>
        map_option (uuid_text cd) protected = Some (row_id r))"
    using spec unfolding storage_used_def evictable_def by blast
  moreover have "\<forall>r \<in> set (db_rows db) - set (db_rows db'). \<forall>r' \<in> set (db_rows db').
       \<not> expired (saturating_sub now (db_retention_ms db)) r \<longrightarrow> status_final (row_status r') \<longrightarrow>
       map_option (uuid_text cd) protected \<noteq> Some (row_id r') \<longrightarrow> eviction_key r \<le> eviction_key r'"
    using spec unfolding evictable_def by blast
  moreover have "let gone = {r \<in> set (db_rows db) - set (db_rows db').
         \<not> expired (saturating_sub now (db_retention_ms db)) r}
     in gone \<noteq> {} \<longrightarrow> (\<exists>r \<in> gone. unat (db_max_storage_bytes db) < storage_used db' + row_size_bytes r \<and>
          (\<forall>x \<in> gone. eviction_key x \<le> eviction_key r))"
    using spec unfolding Let_def storage_used_def by blast
  ultimately show ?thesis
    using spec pruneD(3) [OF assms(2) dist] by (elim conjE) (intro conjI; assumption)
qed

definition demo_row :: "string \<Rightarrow> string \<Rightarrow> u64 option \<Rightarrow> row" where
  "demo_row i st t =
     \<lparr>row_id = i, row_pool = ''web'', row_node = None, row_status = st, row_payload = [0],
      row_result = None, row_error = None, row_created_at_ms = 1, row_started_at_ms = None,
      row_finished_at_ms = t, row_environment = None, row_metrics = None, row_variables = [1, 2],
      row_secrets = None, row_size_bytes = 3\<rparr>"

definition demo_db :: database where
  "demo_db = open_database\<lparr>db_max_storage_bytes := 7,
     db_rows := [demo_row ''xxxx'' ''succeeded'' (Some 30), demo_row ''xxx'' ''failed'' (Some 20),
       demo_row ''xx'' ''running'' None]\<rparr>"

lemma demo_db_wf: "db_wf demo_db"
  by (simp add: demo_db_def db_wf_def demo_row_def row_bytes_def option_length_def)

lemmas prune_eval = prune_def prune_rows_def expired_def status_final_def storage_used_def
  rows_size_def saturating_sub_def fits_i64_def eviction_candidates_def eviction_key_def
  delete_row_def DEFAULT_STORAGE_BYTES_def DEFAULT_RETENTION_MS_def

lemma demo_prune:
  "prune demo_codec 40 None demo_db = Some (demo_db\<lparr>db_rows :=
     [demo_row ''xxxx'' ''succeeded'' (Some 30), demo_row ''xx'' ''running'' None]\<rparr>)"
  by (simp add: demo_db_def open_database_def demo_row_def prune_eval)

theorem prune_correct_witness:
  "storage_used (demo_db\<lparr>db_rows :=
     [demo_row ''xxxx'' ''succeeded'' (Some 30), demo_row ''xx'' ''running'' None]\<rparr>) \<le> 7"
  using prune_correct [OF demo_db_wf demo_prune]
  by (simp add: demo_db_def demo_row_def status_final_def)

subsection \<open>Completion\<close>

lemma completeE:
  assumes "db_complete_execution cd e db = Some (saved, db')"
  obtains db1 db2 db3 where "upsert_execution cd e db = Some db1"
    "db2 = db1\<lparr>db_rows := update_where (uuid_text cd (exec_id e)) clear_secrets (db_rows db1)\<rparr>"
    "prune cd (case exec_finished_at_ms e of Some t \<Rightarrow> t | None \<Rightarrow> exec_created_at_ms e)
      (Some (exec_id e)) db2 = Some db3"
    "storage_used db3 \<le> unat (db_max_storage_bytes db3) \<and> saved = e \<and> db' = db3 \<or>
     unat (db_max_storage_bytes db3) < storage_used db3 \<and>
     saved = e\<lparr>exec_status := Failed, exec_result := None,
       exec_error := Some ''controller execution storage is full''\<rparr> \<and>
     upsert_execution cd saved db3 = Some db'"
  using assms
  by (auto simp: db_complete_execution_def Let_def not_less split: option.splits if_splits)

text \<open>Completing an execution erases its secrets whatever happens to its result: afterwards the
  row, if retention kept it, holds no secrets, and the caller is told either the execution as
  given, with the store within its limit, or a failed execution without a result. Unfinished
  executions other than this one are untouched and the size accounting stays exact.\<close>

theorem complete_clears_secrets:
  assumes "db_wf db" "db_complete_execution cd e db = Some (saved, db')"
  shows "db_wf db' \<and> execution_secrets cd (exec_id e) db' \<in> {None, Some []} \<and>
    (saved = e \<and> storage_used db' \<le> unat (db_max_storage_bytes db) \<or>
     exec_status saved = Failed \<and> exec_result saved = None) \<and>
    (\<forall>i r. i \<noteq> uuid_text cd (exec_id e) \<longrightarrow> find_row i (db_rows db) = Some r \<longrightarrow>
       status_active (row_status r) \<longrightarrow> find_row i (db_rows db') = Some r)"
proof -
  let ?i = "uuid_text cd (exec_id e)"
  obtain db1 db2 db3 where
    db1: "upsert_execution cd e db = Some db1" and
    db2: "db2 = db1\<lparr>db_rows := update_where ?i clear_secrets (db_rows db1)\<rparr>" and
    db3: "prune cd (case exec_finished_at_ms e of Some t \<Rightarrow> t | None \<Rightarrow> exec_created_at_ms e)
      (Some (exec_id e)) db2 = Some db3" and
    out: "storage_used db3 \<le> unat (db_max_storage_bytes db3) \<and> saved = e \<and> db' = db3 \<or>
     unat (db_max_storage_bytes db3) < storage_used db3 \<and>
     saved = e\<lparr>exec_status := Failed, exec_result := None,
       exec_error := Some ''controller execution storage is full''\<rparr> \<and>
     upsert_execution cd saved db3 = Some db'"
    using completeE [OF assms(2)] by metis
  have wf1: "db_wf db1" using db_wf_upsert [OF assms(1) db1] .
  then have wf2: "db_wf db2" unfolding db2 by (rule db_wf_update_where) simp_all
  then have dist: "distinct (map row_id (db_rows db2))" by (simp add: db_wf_def)
  have wf3: "db_wf db3" using db_wf_prune [OF wf2 db3] .
  have limit: "db_max_storage_bytes db3 = db_max_storage_bytes db"
    using pruneD(5) [OF db3 dist] db1 by (auto simp: db2 upsert_execution_def split: if_splits)
  have rid: "row_id (row_of_execution cd x) = uuid_text cd (exec_id x)" for x
    by (simp add: row_of_execution_def)
  have rows1: "db_rows db1 = upsert_row (row_of_execution cd e) (db_rows db)"
    using db1 by (auto simp: upsert_execution_def split: if_splits)
  have clear: "row_secrets r = None" if "r \<in> set (db_rows db3)" "row_id r = ?i" for r
  proof -
    have "r \<in> set (db_rows db2)" using pruneD(3) [OF db3 dist] that(1) by blast
    with that(2) show ?thesis by (auto simp: db2 update_where_def split: if_splits)
  qed
  have others: "find_row i (db_rows db3) = Some r"
    if "i \<noteq> ?i" "find_row i (db_rows db) = Some r" "status_active (row_status r)" for i r
    using prune_find_active [OF db3 dist, of i r] that status_exclusive
    by (simp add: db2 rows1 find_row_update_where find_row_upsert rid)
  show ?thesis
    using out
  proof
    assume "storage_used db3 \<le> unat (db_max_storage_bytes db3) \<and> saved = e \<and> db' = db3"
    then show ?thesis
      using wf3 others limit clear
      by (cases "find_row ?i (db_rows db3)")
        (auto simp: execution_secrets_def dest: find_row_SomeD)
  next
    assume full: "unat (db_max_storage_bytes db3) < storage_used db3 \<and>
      saved = e\<lparr>exec_status := Failed, exec_result := None,
        exec_error := Some ''controller execution storage is full''\<rparr> \<and>
      upsert_execution cd saved db3 = Some db'"
    then have rows': "db_rows db' = upsert_row (row_of_execution cd saved) (db_rows db3)"
      by (auto simp: upsert_execution_def split: if_splits)
    have sid: "row_id (row_of_execution cd saved) = ?i" "row_secrets (row_of_execution cd saved) = None"
      using full by (simp_all add: row_of_execution_def)
    have "execution_secrets cd (exec_id e) db' = Some []"
      using clear sid find_row_SomeD [of ?i "db_rows db3"]
      by (auto simp: execution_secrets_def rows' find_row_upsert merge_row_def split: option.splits)
    moreover have "db_wf db'" using db_wf_upsert [OF wf3] full by blast
    ultimately show ?thesis
      using full others sid by (auto simp: rows' find_row_upsert)
  qed
qed

definition demo_finished :: "uuid \<Rightarrow> execution" where
  "demo_finished i = (demo_execution i 1)\<lparr>exec_status := Succeeded, exec_finished_at_ms := Some 40\<rparr>"

definition demo_running_db :: database where
  "demo_running_db = open_database\<lparr>db_rows := [demo_row ''xx'' ''running'' None]\<rparr>"

lemma demo_running_db_wf: "db_wf demo_running_db"
  by (simp add: demo_running_db_def db_wf_def demo_row_def row_bytes_def option_length_def)

definition demo_done_row :: row where
  "demo_done_row =
     \<lparr>row_id = ''xx'', row_pool = ''web'', row_node = None, row_status = ''succeeded'',
      row_payload = [0], row_result = None, row_error = None, row_created_at_ms = 1,
      row_started_at_ms = None, row_finished_at_ms = Some 40, row_environment = None,
      row_metrics = None, row_variables = [1, 2], row_secrets = None, row_size_bytes = 3\<rparr>"

lemma replicate_two: "replicate 2 x = [x, x]"
  by (simp add: numeral_eq_Suc)

lemma demo_complete_upsert:
  "upsert_execution demo_codec (demo_finished 2) demo_running_db
    = Some (demo_running_db\<lparr>db_rows := [demo_done_row]\<rparr>)"
  by (simp add: demo_finished_def demo_running_db_def storage_eval demo_row_def demo_done_row_def
      merge_row_def execution_size_def option_length_def replicate_two)

lemma demo_complete_prune:
  "prune demo_codec 40 (Some 2) (demo_running_db\<lparr>db_rows := [demo_done_row]\<rparr>)
    = Some (demo_running_db\<lparr>db_rows := [demo_done_row]\<rparr>)"
  by (simp add: demo_running_db_def open_database_def demo_done_row_def prune_eval)

lemma demo_complete:
  "db_complete_execution demo_codec (demo_finished 2) demo_running_db
     = Some (demo_finished 2, demo_running_db\<lparr>db_rows := [demo_done_row]\<rparr>)"
proof -
  have "update_where i clear_secrets [demo_done_row] = [demo_done_row]" for i
    by (simp add: update_where_def clear_secrets_def demo_done_row_def option_length_def)
  moreover have "exec_finished_at_ms (demo_finished 2) = Some 40" "exec_id (demo_finished 2) = 2"
    by (simp_all add: demo_finished_def demo_execution_def)
  moreover have "storage_used (demo_running_db\<lparr>db_rows := [demo_done_row]\<rparr>) = 3"
    "unat (db_max_storage_bytes demo_running_db) = 2147483648"
    by (simp_all add: storage_used_def rows_size_def demo_done_row_def demo_running_db_def
        open_database_def DEFAULT_STORAGE_BYTES_def)
  ultimately show ?thesis
    by (simp add: db_complete_execution_def demo_complete_upsert demo_complete_prune Let_def)
qed

theorem complete_clears_secrets_witness:
  "\<exists>db'. db_complete_execution demo_codec (demo_finished 2) demo_running_db = Some (demo_finished 2, db') \<and>
     execution_secrets demo_codec 2 db' \<in> {None, Some []}"
proof -
  obtain db' where "db_complete_execution demo_codec (demo_finished 2) demo_running_db
      = Some (demo_finished 2, db')"
    using demo_complete by blast
  with complete_clears_secrets [OF demo_running_db_wf this] show ?thesis
    by (auto simp: demo_finished_def demo_execution_def)
qed

text \<open>The price of a refusal: an execution that does not fit is refused only after every
  finished execution has been evicted to make room for it, so one oversized submission erases the
  whole history of results.\<close>

theorem refusal_clears_history:
  assumes "db_wf db" "find_row (uuid_text cd (exec_id e)) (db_rows db) = None"
    "exec_status e \<in> {Queued, Assigned, Running}"
    "insert_execution cd e secrets db = Some (False, db')"
  shows "\<forall>r \<in> set (db_rows db'). \<not> status_final (row_status r)"
proof -
  let ?i = "uuid_text cd (exec_id e)"
  obtain db2 db3 where
    db2: "db2 = db\<lparr>db_rows := (if secrets = [] then upsert_row (row_of_execution cd e) (db_rows db)
      else update_where ?i (add_secrets secrets) (upsert_row (row_of_execution cd e) (db_rows db)))\<rparr>"
    and db3: "prune cd (exec_created_at_ms e) (Some (exec_id e)) db2 = Some db3"
    and full: "False \<longleftrightarrow> storage_used db3 \<le> unat (db_max_storage_bytes db3)"
    and db': "db' = (if False then db3
      else db3\<lparr>db_rows := delete_row ?i (db_rows db3)\<rparr>)"
    using insert_executionE [OF assms(4)] by metis
  have dist: "distinct (map row_id (db_rows db2))"
    using insert_stage(1) [OF assms(1,2) db2] by (simp add: db_wf_def)
  have "\<forall>r \<in> set (db_rows db3). \<not> evictable (Some ?i) r"
    using pruneD(1,5) [OF db3 dist] full unfolding prune_spec_def storage_used_def by auto
  then show ?thesis by (auto simp: db' delete_row_def evictable_def)
qed

lemma demo_refused:
  "\<exists>db'. insert_execution demo_codec (demo_execution 2 5) []
     (open_database\<lparr>db_max_storage_bytes := 2, db_rows := [demo_row ''x'' ''failed'' (Some 30)]\<rparr>)
     = Some (False, db')"
  by (simp add: insert_execution_def storage_eval demo_row_def update_where_def add_secrets_def
      execution_size_def option_length_def replicate_two prune_eval)

theorem refusal_clears_history_witness:
  "\<exists>db'. insert_execution demo_codec (demo_execution 2 5) []
     (open_database\<lparr>db_max_storage_bytes := 2, db_rows := [demo_row ''x'' ''failed'' (Some 30)]\<rparr>)
     = Some (False, db') \<and> (\<forall>r \<in> set (db_rows db'). \<not> status_final (row_status r))"
proof -
  let ?db = "open_database\<lparr>db_max_storage_bytes := 2,
    db_rows := [demo_row ''x'' ''failed'' (Some 30)]\<rparr>"
  obtain db' where db': "insert_execution demo_codec (demo_execution 2 5) [] ?db = Some (False, db')"
    using demo_refused by blast
  have "db_wf ?db" by (simp add: db_wf_def demo_row_def row_bytes_def option_length_def)
  moreover have "find_row (uuid_text demo_codec (exec_id (demo_execution 2 5))) (db_rows ?db) = None"
    by (simp add: demo_row_def demo_codec_def demo_execution_def replicate_two)
  moreover have "exec_status (demo_execution 2 5) \<in> {Queued, Assigned, Running}"
    by (simp add: demo_execution_def)
  ultimately show ?thesis using refusal_clears_history [OF _ _ _ db'] db' by blast
qed

subsection \<open>Recovery after a restart\<close>

lemma requeue_row_simps [simp]:
  "row_id (requeue_row r) = row_id r"
  "row_status (requeue_row r) = ''queued'' \<longleftrightarrow> status_active (row_status r)"
  "\<not> status_active (row_status r) \<Longrightarrow> requeue_row r = r"
  "requeue_row (requeue_row r) = requeue_row r"
  by (auto simp: requeue_row_def status_active_def)

text \<open>A restart recovers exactly the unfinished executions: each comes back queued, without a
  node and without a start time, oldest first; finished rows keep their contents; and recovering
  twice is the same as recovering once.\<close>

theorem recovery_requeues:
  assumes "ids_roundtrip cd" "load_active_executions cd db = (Some es, db')"
  shows "(\<forall>e \<in> set es. exec_status e = Queued \<and> exec_node e = None \<and> exec_started_at_ms e = None) \<and>
    sorted (map exec_created_at_ms es) \<and>
    (\<forall>i. (\<exists>e \<in> set es. exec_id e = i) \<longleftrightarrow>
       (\<exists>r \<in> set (db_rows db). status_active (row_status r) \<and> uuid_parse cd (row_id r) = Some i)) \<and>
    (\<forall>r \<in> set (db_rows db). status_final (row_status r) \<longrightarrow> r \<in> set (db_rows db')) \<and>
    map row_id (db_rows db') = map row_id (db_rows db) \<and>
    load_active_executions cd db' = (Some es, db')"
proof -
  let ?rs = "map requeue_row (db_rows db)"
  let ?q = "sort_key row_created_at_ms (filter (\<lambda>r. row_status r = ''queued'') ?rs)"
  have db': "db' = db\<lparr>db_rows := ?rs\<rparr>" and es: "map (execution_from_row cd) ?q = map Some es"
    using assms(2) by (simp_all add: load_active_executions_def Let_def collect_results_Some)
  have row: "exec_created_at_ms e = row_created_at_ms r \<and> uuid_parse cd (row_id r) = Some (exec_id e) \<and>
      status (row_status r) = Some (exec_status e) \<and>
      optional (uuid_parse cd) (row_node r) = Some (exec_node e) \<and>
      exec_started_at_ms e = row_started_at_ms r"
    if "execution_from_row cd r = Some e" for r e
    using that by (auto simp: execution_from_row_def split: option.splits)
  have map_eq: "map exec_created_at_ms es = map row_created_at_ms ?q"
  proof (rule nth_equalityI)
    show len: "length (map exec_created_at_ms es) = length (map row_created_at_ms ?q)"
      using es by (metis length_map)
    show "map exec_created_at_ms es ! k = map row_created_at_ms ?q ! k"
      if "k < length (map exec_created_at_ms es)" for k
    proof -
      have "execution_from_row cd (?q ! k) = Some (es ! k)"
        using arg_cong [OF es, of "\<lambda>xs. xs ! k"] that len by (simp only: nth_map length_map)
      from row [OF this] that len show ?thesis by (simp only: nth_map length_map)
    qed
  qed
  have in_es: "e \<in> set es \<longleftrightarrow> (\<exists>r \<in> set (db_rows db). status_active (row_status r) \<and>
      execution_from_row cd (requeue_row r) = Some e)" for e
  proof -
    have "e \<in> set es \<longleftrightarrow> Some e \<in> set (map (execution_from_row cd) ?q)" by (simp only: es) auto
    then show ?thesis by (auto simp: image_iff)
  qed
  have queued: "exec_status e = Queued \<and> exec_node e = None \<and> exec_started_at_ms e = None"
    if e: "e \<in> set es" for e
  proof -
    obtain r where r: "status_active (row_status r)" "execution_from_row cd (requeue_row r) = Some e"
      using e in_es by blast
    then show ?thesis
      using row [OF r(2)] by (auto simp: requeue_row_def optional_def status_def)
  qed
  have ids: "(\<exists>e \<in> set es. exec_id e = i) \<longleftrightarrow>
      (\<exists>r \<in> set (db_rows db). status_active (row_status r) \<and> uuid_parse cd (row_id r) = Some i)" for i
  proof
    assume "\<exists>e \<in> set es. exec_id e = i"
    then show "\<exists>r \<in> set (db_rows db). status_active (row_status r) \<and> uuid_parse cd (row_id r) = Some i"
      using in_es row by (metis requeue_row_simps(1))
  next
    assume "\<exists>r \<in> set (db_rows db). status_active (row_status r) \<and> uuid_parse cd (row_id r) = Some i"
    then obtain r where r: "r \<in> set (db_rows db)" "status_active (row_status r)"
        "uuid_parse cd (row_id r) = Some i"
      by blast
    then have "requeue_row r \<in> set ?q" by simp
    then have "execution_from_row cd (requeue_row r) \<in> set (map Some es)"
      unfolding es [symmetric] by (simp only: set_map) blast
    then obtain e where "e \<in> set es" "execution_from_row cd (requeue_row r) = Some e" by auto
    with row r(3) show "\<exists>e \<in> set es. exec_id e = i" by fastforce
  qed
  have "sorted (map exec_created_at_ms es)" by (simp only: map_eq) simp
  moreover have idem: "map requeue_row (db_rows db') = ?rs" "db'\<lparr>db_rows := ?rs\<rparr> = db'"
    by (simp_all add: db')
  have "load_active_executions cd db' = (collect_results (map (execution_from_row cd) ?q), db')"
    by (simp only: load_active_executions_def Let_def idem)
  then have "load_active_executions cd db' = (Some es, db')"
    using es by (simp only: collect_results_Some [THEN iffD2])
  moreover have "\<forall>r \<in> set (db_rows db). status_final (row_status r) \<longrightarrow> r \<in> set (db_rows db')"
    using status_exclusive by (force simp: db' image_iff)
  ultimately show ?thesis
    using queued ids by (simp add: db')
qed

theorem recovery_requeues_witness:
  "\<exists>es db'. load_active_executions demo_codec demo_running_db = (Some es, db') \<and>
     map exec_status es = [Queued] \<and> load_active_executions demo_codec db' = (Some es, db')"
proof -
  obtain es db' where l: "load_active_executions demo_codec demo_running_db = (Some es, db')"
      "map exec_status es = [Queued]"
    by (simp add: load_active_executions_def demo_running_db_def open_database_def demo_row_def
        requeue_row_def status_active_def execution_from_row_def demo_codec_def optional_def
        status_def)
  with recovery_requeues [OF demo_codec_ids l(1)] show ?thesis
    by (intro exI [of _ es] exI [of _ db']) simp
qed

subsection \<open>Settings and secrets\<close>

text \<open>The retention set in hours is read back in hours, and a number of hours whose
  milliseconds do not fit 64 bits is refused instead of wrapping.\<close>

theorem settings_roundtrip:
  "case update_settings s db of
     None \<Rightarrow> 2 ^ 64 \<le> unat (settings_retention_hours s) * 3600000
   | Some db' \<Rightarrow> storage_settings (settings db') = s \<and> db_rows db' = db_rows db \<and>
       unat (db_retention_ms db') = unat (settings_retention_hours s) * 3600000"
proof -
  have div: "unat (settings_retention_hours s * 3600000)
      = unat (settings_retention_hours s) * 3600000"
    if "unat (settings_retention_hours s) * 3600000 < 2 ^ 64"
    using that by (simp add: unat_word_ariths)
  have "settings_retention_hours s * 3600000 div 3600000 = settings_retention_hours s"
    if "unat (settings_retention_hours s) * 3600000 < 2 ^ 64"
    by (rule word_unat_eq_iff [THEN iffD2]) (simp add: unat_div_distrib div [OF that])
  with div show ?thesis
    by (auto simp: update_settings_def settings_def not_less)
qed

text \<open>Secrets survive encryption: what was encrypted for an execution decrypts, for that
  execution, to the same secrets, given that opening inverts sealing, that a nonce has 12 bytes
  and that the JSON encoding of the secrets is invertible.\<close>

theorem secrets_roundtrip:
  assumes "length nonce = 12"
    "\<And>k n a p ct. seal k n a p = Some ct \<Longrightarrow> unseal k n a ct = Some p"
    "dec (enc secrets) = Some secrets" "encrypt seal enc key nonce i secrets = Some ct"
  shows "decrypt unseal dec key i ct = Some secrets"
  using assms by (auto simp: encrypt_def decrypt_def split: if_splits)

theorem secrets_roundtrip_witness:
  "decrypt (\<lambda>k n a ct. Some ct) (\<lambda>b. Some [(''T'', ''s'')]) [] 3 (replicate 12 0 @ [7])
    = Some [(''T'', ''s'')]"
  by (rule secrets_roundtrip [where nonce = "replicate 12 0" and seal = "\<lambda>k n a p. Some p"
        and enc = "\<lambda>_. [7]"]) (simp_all add: encrypt_def)

subsection \<open>The key of the cipher\<close>

lemma load_key_again:
  assumes "load_key random creation f = (Some key, f')" "\<And>k. random = Some k \<Longrightarrow> length k = 32"
  shows "load_key random' creation' f' = (Some key, f')"
  using assms
  by (auto simp: load_key_def read_key_def from_bytes_def split: if_splits option.splits key_file.splits key_creation.splits)

text \<open>C39: secrets survive a restart: when a start of the controller has found or made a key, every later
  start finds the same one, whatever it would make itself, and what was encrypted for an execution
  decrypts for it to the same secrets; given that opening inverts sealing, that a nonce has 12 bytes and a
  random key 32, and that the JSON encoding of the secrets is invertible.\<close>

theorem secrets_survive_restart:
  assumes "load_key random creation f = (Some key, f')" "\<And>k. random = Some k \<Longrightarrow> length k = 32"
    and "length nonce = 12" "\<And>k n a p ct. seal k n a p = Some ct \<Longrightarrow> unseal k n a ct = Some p"
    and "dec (enc secrets) = Some secrets" "encrypt seal enc key nonce i secrets = Some ct"
    and "load_key random' creation' f' = (key', f'')"
  shows "\<exists>k. key' = Some k \<and> f'' = f' \<and> decrypt unseal dec k i ct = Some secrets"
proof -
  have "key' = Some key" "f'' = f'"
    using load_key_again [OF assms(1,2)] assms(7) by simp_all
  moreover have "decrypt unseal dec key i ct = Some secrets"
    using assms(3-6) by (auto simp: encrypt_def decrypt_def split: if_splits)
  ultimately show ?thesis by blast
qed

theorem secrets_survive_restart_witness:
  "\<exists>k. fst (load_key None KeyRefused (KeyFile (replicate 32 5))) = Some k \<and>
    decrypt (\<lambda>k n a ct. Some ct) (\<lambda>b. Some [(''T'', ''s'')]) k 3 (replicate 12 0 @ [7]) = Some [(''T'', ''s'')]"
proof -
  have made: "load_key (Some (replicate 32 5)) KeyMade NoFile = (Some (replicate 32 5), KeyFile (replicate 32 5))"
    by (simp add: load_key_def)
  have again: "load_key None KeyRefused (KeyFile (replicate 32 5))
      = (fst (load_key None KeyRefused (KeyFile (replicate 32 5))), KeyFile (replicate 32 5))"
    by (simp add: load_key_def)
  from secrets_survive_restart [OF made _ _ _ _ _ again, of "replicate 12 0" "\<lambda>k n a p. Some p"
      "\<lambda>k n a ct. Some ct" "\<lambda>b. Some [(''T'', ''s'')]" "\<lambda>_. [7]" "[(''T'', ''s'')]" 3 "replicate 12 0 @ [7]"]
  show ?thesis by (simp add: encrypt_def)
qed

text \<open>
  The key is written after the file is made: a start that is interrupted between the two leaves a file
  without a whole key, and no later start gets over it.
\<close>

lemma interrupted_key_stays_broken:
  assumes "length key = 32" "written < 32"
  shows "load_key (Some key) (KeyCut written) NoFile = (None, KeyFile (take written key)) \<and>
    load_key random creation (KeyFile (take written key)) = (None, KeyFile (take written key))"
  using assms by (simp add: load_key_def read_key_def from_bytes_def)

end
