(* ===== verification/Text.thy ===== *)
theory Text
  imports Prelude "HOL-Library.Char_ord" "HOL-Library.List_Lexorder"
begin

section \<open>Strings as the code uses them\<close>

text \<open>
  Rust strings are their UTF-8 bytes, one \<open>char\<close> per byte, ordered byte by byte. Here are the
  standard library's functions on them that the controller and the node call: \<open>trim\<close> (White_Space
  characters with their UTF-8 encodings), \<open>to_ascii_lowercase\<close>, \<open>starts_with\<close>, \<open>strip_prefix\<close>,
  \<open>contains\<close>, \<open>split\<close>, and \<open>sort\<close> followed by \<open>dedup\<close> on lists of strings.
\<close>

definition byte :: "char \<Rightarrow> u8" where
  "byte c = word_of_nat (of_char c)"

lemma byte_eq [simp]: "byte c = byte d \<longleftrightarrow> c = d"
proof
  assume "byte c = byte d"
  then have "(of_char c :: nat) mod 2 ^ 8 = of_char d mod 2 ^ 8"
    by (simp add: byte_def word_of_nat_eq_iff take_bit_eq_mod)
  moreover have "(of_char c :: nat) < 256" "(of_char d :: nat) < 256"
    using of_char_of [where 'a = nat] by (simp_all add: of_char_def char.size)
  ultimately have "(of_char c :: nat) = of_char d" by simp
  then show "c = d" by simp
qed simp

subsection \<open>White space\<close>

definition bytes_string :: "nat list \<Rightarrow> string" where
  "bytes_string ns = map char_of ns"

definition white_space :: "string list" where
  "white_space = map bytes_string
     ([[9], [10], [11], [12], [13], [32], [0xC2, 0x85], [0xC2, 0xA0], [0xE1, 0x9A, 0x80]]
      @ map (\<lambda>k. [0xE2, 0x80, k]) [0x80, 0x81, 0x82, 0x83, 0x84, 0x85, 0x86, 0x87, 0x88, 0x89, 0x8A]
      @ [[0xE2, 0x80, 0xA8], [0xE2, 0x80, 0xA9], [0xE2, 0x80, 0xAF], [0xE2, 0x81, 0x9F],
         [0xE3, 0x80, 0x80]])"

definition strip_prefix :: "string \<Rightarrow> string \<Rightarrow> string option" where
  "strip_prefix p s = (if take (length p) s = p then Some (drop (length p) s) else None)"

definition starts_with :: "string \<Rightarrow> string \<Rightarrow> bool" where
  "starts_with p s \<longleftrightarrow> take (length p) s = p"

lemma strip_prefix_shorter: "strip_prefix p s = Some r \<Longrightarrow> p \<noteq> [] \<Longrightarrow> length r < length s"
  by (cases s) (auto simp: strip_prefix_def split: if_splits)

lemma white_space_nonempty: "w \<in> set white_space \<Longrightarrow> w \<noteq> []"
  by (auto simp: white_space_def bytes_string_def)

fun first_prefix :: "string list \<Rightarrow> string \<Rightarrow> string option" where
  "first_prefix [] s = None"
| "first_prefix (w # ws) s =
     (case strip_prefix w s of Some r \<Rightarrow> Some r | None \<Rightarrow> first_prefix ws s)"

lemma first_prefix_shorter:
  "first_prefix ws s = Some r \<Longrightarrow> \<forall>w \<in> set ws. w \<noteq> [] \<Longrightarrow> length r < length s"
  by (induction ws) (auto split: option.splits dest: strip_prefix_shorter)

function trim_prefixes :: "string list \<Rightarrow> string \<Rightarrow> string" where
  "trim_prefixes ws s =
     (case first_prefix (filter (\<lambda>w. w \<noteq> []) ws) s of
        None \<Rightarrow> s | Some r \<Rightarrow> trim_prefixes ws r)"
  by auto
termination
  by (relation "measure (\<lambda>(ws, s). length s)") (auto dest: first_prefix_shorter)

declare trim_prefixes.simps [simp del]

definition trim_start :: "string \<Rightarrow> string" where
  "trim_start s = trim_prefixes white_space s"

definition trim_end :: "string \<Rightarrow> string" where
  "trim_end s = rev (trim_prefixes (map rev white_space) (rev s))"

definition trim :: "string \<Rightarrow> string" where
  "trim s = trim_end (trim_start s)"

lemma trim_prefixes_fixed:
  "first_prefix (filter (\<lambda>w. w \<noteq> []) ws) (trim_prefixes ws s) = None"
proof (induction ws s rule: trim_prefixes.induct)
  case (1 ws s)
  show ?case
  proof (cases "first_prefix (filter (\<lambda>w. w \<noteq> []) ws) s")
    case None
    then show ?thesis by (simp add: trim_prefixes.simps [of ws s])
  next
    case (Some r)
    with 1 show ?thesis by (simp add: trim_prefixes.simps [of ws s])
  qed
qed

lemma trim_prefixes_idem [simp]: "trim_prefixes ws (trim_prefixes ws s) = trim_prefixes ws s"
  by (subst trim_prefixes.simps) (simp add: trim_prefixes_fixed)

lemma first_prefix_none:
  "list_all (\<lambda>w. w \<noteq> [] \<longrightarrow> hd w \<noteq> c) ws \<Longrightarrow>
   first_prefix (filter (\<lambda>w. w \<noteq> []) ws) (c # cs) = None"
proof (induction ws)
  case (Cons w ws)
  then show ?case by (cases w) (auto simp: strip_prefix_def)
qed simp

subsection \<open>Case and prefixes\<close>

definition lower :: "char \<Rightarrow> char" where
  "lower c =
     (let n = (of_char c :: nat) in if 65 \<le> n \<and> n \<le> 90 then char_of (n + 32) else c)"

definition to_ascii_lowercase :: "string \<Rightarrow> string" where
  "to_ascii_lowercase = map lower"

text \<open>\<open>split(sep).next()\<close>: the part before the first separator.\<close>

definition first_part :: "char \<Rightarrow> string \<Rightarrow> string" where
  "first_part sep s = takeWhile (\<lambda>c. c \<noteq> sep) s"

subsection \<open>Sorting and removing duplicates\<close>

definition sort_dedup :: "string list \<Rightarrow> string list" where
  "sort_dedup xs = remdups_adj (sort xs)"

lemma sort_dedup_set [simp]: "set (sort_dedup xs) = set xs"
  by (simp add: sort_dedup_def)

lemma sorted_remdups_adj: "sorted xs \<Longrightarrow> sorted (remdups_adj xs)"
  by (induction xs rule: remdups_adj.induct) auto

lemma distinct_remdups_adj_sorted: "sorted xs \<Longrightarrow> distinct (remdups_adj xs)"
  by (induction xs rule: remdups_adj.induct) (auto simp: order.order_iff_strict)

lemma sort_dedup_canonical:
  "set xs = set ys \<longleftrightarrow> sort_dedup xs = sort_dedup ys"
proof
  assume "set xs = set ys"
  then show "sort_dedup xs = sort_dedup ys"
    by (intro sorted_distinct_set_unique)
      (simp_all add: sort_dedup_def sorted_remdups_adj distinct_remdups_adj_sorted)
next
  assume "sort_dedup xs = sort_dedup ys"
  then show "set xs = set ys" by (metis sort_dedup_set)
qed

text \<open>The parts of a path between slashes.\<close>

fun split_slashes :: "string \<Rightarrow> string list" where
  "split_slashes [] = [[]]"
| "split_slashes (c # cs) =
     (if c = CHR ''/'' then [] # split_slashes cs
      else (case split_slashes cs of [] \<Rightarrow> [[c]] | p # ps \<Rightarrow> (c # p) # ps))"

lemma split_slashes_plain: "CHR ''/'' \<notin> set s \<Longrightarrow> split_slashes s = [s]"
  by (induction s) auto

lemma split_slashes_part: "CHR ''/'' \<notin> set s \<Longrightarrow> split_slashes (s @ CHR ''/'' # r) = s # split_slashes r"
  by (induction s) auto

end
