(* ===== verification/Decimal.thy ===== *)
theory Decimal
  imports Text
begin

section \<open>Decimal numbers\<close>

text \<open>
  \<open>Display\<close> and \<open>FromStr\<close> of Rust's unsigned integers, as \<open>platform/src/node.rs\<close> and
  \<open>platform/src/join.rs\<close> use them to build keys, addresses and configuration values.
\<close>

definition digit :: "nat \<Rightarrow> char" where
  "digit d = char_of (48 + d)"

fun decimal :: "nat \<Rightarrow> string" where
  "decimal n = (if n < 10 then [digit n] else decimal (n div 10) @ [digit (n mod 10)])"

declare decimal.simps [simp del]

definition is_digit :: "char \<Rightarrow> bool" where
  "is_digit c \<longleftrightarrow> (let n = (of_char c :: nat) in 48 \<le> n \<and> n \<le> 57)"

definition digit_value :: "char \<Rightarrow> nat" where
  "digit_value c = of_char c - 48"

text \<open>\<open>parse\<close> for a type whose largest value is \<open>limit\<close>: an optional plus sign, then digits.\<close>

definition parse_digits :: "nat \<Rightarrow> string \<Rightarrow> nat option" where
  "parse_digits limit s =
     (if s = [] \<or> \<not> list_all is_digit s then None
      else let n = fold (\<lambda>c n. 10 * n + digit_value c) s 0 in if n \<le> limit then Some n else None)"

definition parse_unsigned :: "nat \<Rightarrow> string \<Rightarrow> nat option" where
  "parse_unsigned limit s =
     (case s of [] \<Rightarrow> None | c # cs \<Rightarrow> parse_digits limit (if c = CHR ''+'' then cs else s))"

lemma of_char_digit: "d < 10 \<Longrightarrow> (of_char (digit d) :: nat) = 48 + d"
  by (simp add: digit_def)

lemma is_digit_digit [simp]: "d < 10 \<Longrightarrow> is_digit (digit d)"
  by (simp add: is_digit_def of_char_digit)

lemma digit_value_digit [simp]: "d < 10 \<Longrightarrow> digit_value (digit d) = d"
  by (simp add: digit_value_def of_char_digit)

lemma decimal_digits: "list_all is_digit (decimal n)"
  by (induction n rule: decimal.induct) (subst decimal.simps, simp)

lemma decimal_nonempty [simp]: "decimal n \<noteq> []"
  by (subst decimal.simps) simp

lemma decimal_value: "fold (\<lambda>c n. 10 * n + digit_value c) (decimal n) 0 = n"
  by (induction n rule: decimal.induct) (subst decimal.simps, simp)

lemma decimal_inject [simp]: "decimal m = decimal n \<longleftrightarrow> m = n"
  by (metis decimal_value)

lemma parse_decimal: "n \<le> limit \<Longrightarrow> parse_unsigned limit (decimal n) = Some n"
proof -
  assume n: "n \<le> limit"
  obtain c cs where d: "decimal n = c # cs" by (metis decimal_nonempty list.exhaust)
  then have "is_digit c" using decimal_digits [of n] by simp
  then have "c \<noteq> CHR ''+''" by (auto simp: is_digit_def)
  then have "parse_unsigned limit (decimal n) = parse_digits limit (decimal n)"
    by (simp add: parse_unsigned_def d)
  then show ?thesis using n decimal_digits by (simp add: parse_digits_def decimal_value)
qed

text \<open>A separator that is not a digit ends a number.\<close>

lemma decimal_sep:
  assumes "decimal m @ c # r = decimal n @ d # t" "\<not> is_digit c" "\<not> is_digit d"
  shows "m = n \<and> c = d \<and> r = t"
proof -
  have w: "takeWhile is_digit (decimal k @ e # u) = decimal k"
      "dropWhile is_digit (decimal k @ e # u) = e # u" if "\<not> is_digit e" for k e u
    using that decimal_digits [of k] by (auto simp: takeWhile_append dropWhile_append list_all_iff)
  show ?thesis using assms w by (metis decimal_inject list.inject)
qed

end
