(* ===== verification/Storage_Open.thy ===== *)
theory Storage_Open
  imports Storage_Properties Decimal "HOL-Library.Monad_Syntax"
begin

section \<open>Opening the database file\<close>

text \<open>
  \<open>Database::open\<close> of \<open>platform/src/storage.rs\<close> on whatever file it finds: a new one, one of an
  earlier version, whose table \<open>executions\<close> lacks the columns \<open>variables\<close> or \<open>secrets\<close>, or one of
  this version. A file is its two tables, if they exist: \<open>metadata\<close> maps keys to values, \<open>executions\<close>
  has columns and, per row, a value for each of them. The values are those of SQLite. Failures of the
  disk and the PRAGMAs, which change how the file is written and not what it holds, are left out.

  \<open>database_of\<close> reads a file as the other operations do, with rusqlite's conversions; it relates the
  tables to the record \<open>database\<close> of the theory Storage.
\<close>

datatype sql_value = SqlNull | SqlInteger int | SqlText string | SqlBlob bytes

record table =
  table_columns :: "string list"
  table_rows :: "(string, sql_value) hashmap list"

record db_file =
  file_metadata :: "(string, sql_value) hashmap option"
  file_executions :: "table option"

definition EXECUTION_COLUMNS :: "string list" where
  "EXECUTION_COLUMNS =
     [''id'', ''pool'', ''node'', ''status'', ''payload'', ''result'', ''error'',
      ''created_at_ms'', ''started_at_ms'', ''finished_at_ms'', ''environment'', ''metrics'',
      ''variables'', ''secrets'', ''size_bytes'']"

text \<open>
  The statements of \<open>open\<close>, each with the file it leaves, or \<open>None\<close> for an error that leaves the file
  as it was. CREATE TABLE IF NOT EXISTS, CREATE INDEX IF NOT EXISTS on a column, ALTER TABLE ADD COLUMN
  (every row gets the default) and INSERT OR IGNORE INTO metadata.
\<close>

definition create_metadata :: "db_file \<Rightarrow> db_file option" where
  "create_metadata f =
     Some (if file_metadata f = None then f\<lparr>file_metadata := Some []\<rparr> else f)"

definition create_executions :: "db_file \<Rightarrow> db_file option" where
  "create_executions f =
     Some (if file_executions f = None
           then f\<lparr>file_executions := Some \<lparr>table_columns = EXECUTION_COLUMNS, table_rows = []\<rparr>\<rparr>
           else f)"

definition column_exists :: "string \<Rightarrow> db_file \<Rightarrow> bool" where
  "column_exists c f =
     (case file_executions f of None \<Rightarrow> False | Some t \<Rightarrow> c \<in> set (table_columns t))"

definition create_index :: "string \<Rightarrow> db_file \<Rightarrow> db_file option" where
  "create_index c f = (if column_exists c f then Some f else None)"

definition add_column :: "string \<Rightarrow> sql_value \<Rightarrow> db_file \<Rightarrow> db_file option" where
  "add_column c v f =
     (case file_executions f of
        None \<Rightarrow> None
      | Some t \<Rightarrow> Some (f\<lparr>file_executions := Some
          \<lparr>table_columns = table_columns t @ [c],
           table_rows = map (\<lambda>r. r @ [(c, v)]) (table_rows t)\<rparr>\<rparr>))"

definition ensure_column :: "string \<Rightarrow> sql_value \<Rightarrow> db_file \<Rightarrow> db_file option" where
  "ensure_column c v f = (if \<not> column_exists c f then add_column c v f else Some f)"

definition set_default :: "string \<Rightarrow> u64 \<Rightarrow> db_file \<Rightarrow> db_file option" where
  "set_default key v f =
     (case file_metadata f of
        None \<Rightarrow> None
      | Some m \<Rightarrow> Some (f\<lparr>file_metadata := Some
          (if hm_get m key = None then hm_insert key (SqlText (decimal (unat v))) m else m)\<rparr>))"

definition open_statements :: "(db_file \<Rightarrow> db_file option) list" where
  "open_statements =
     [create_metadata, create_executions,
      create_index ''created_at_ms'', create_index ''finished_at_ms'', create_index ''status'',
      ensure_column ''variables'' (SqlBlob [0x7B, 0x7D]), ensure_column ''secrets'' SqlNull,
      set_default ''retention_ms'' DEFAULT_RETENTION_MS,
      set_default ''max_storage_bytes'' DEFAULT_STORAGE_BYTES]"

fun run_statements :: "('s \<Rightarrow> 's option) list \<Rightarrow> 's \<Rightarrow> bool \<times> 's" where
  "run_statements [] f = (True, f)"
| "run_statements (s # ss) f =
     (case s f of None \<Rightarrow> (False, f) | Some f' \<Rightarrow> run_statements ss f')"

definition open_file :: "db_file \<Rightarrow> bool \<times> db_file" where
  "open_file f = run_statements open_statements f"

subsection \<open>Reading the tables\<close>

definition sql_text :: "sql_value \<Rightarrow> string option" where
  "sql_text v = (case v of SqlText s \<Rightarrow> Some s | _ \<Rightarrow> None)"

definition sql_blob :: "sql_value \<Rightarrow> bytes option" where
  "sql_blob v = (case v of SqlBlob b \<Rightarrow> Some b | _ \<Rightarrow> None)"

definition sql_u64 :: "sql_value \<Rightarrow> u64 option" where
  "sql_u64 v = (case v of SqlInteger i \<Rightarrow> if 0 \<le> i then Some (of_int i) else None | _ \<Rightarrow> None)"

definition nullable :: "(sql_value \<Rightarrow> 'a option) \<Rightarrow> sql_value \<Rightarrow> 'a option option" where
  "nullable f v = (if v = SqlNull then Some None else map_option Some (f v))"

definition setting :: "db_file \<Rightarrow> string \<Rightarrow> u64 option" where
  "setting f key = do {
     m \<leftarrow> file_metadata f;
     v \<leftarrow> hm_get m key;
     s \<leftarrow> sql_text v;
     map_option of_nat (parse_unsigned (2 ^ 64 - 1) s)
   }"

definition read_row :: "(string, sql_value) hashmap \<Rightarrow> row option" where
  "read_row r = do {
     i \<leftarrow> hm_get r ''id'' \<bind> sql_text;
     pool \<leftarrow> hm_get r ''pool'' \<bind> sql_text;
     node \<leftarrow> hm_get r ''node'' \<bind> nullable sql_text;
     st \<leftarrow> hm_get r ''status'' \<bind> sql_text;
     payload \<leftarrow> hm_get r ''payload'' \<bind> sql_blob;
     res \<leftarrow> hm_get r ''result'' \<bind> nullable sql_blob;
     err \<leftarrow> hm_get r ''error'' \<bind> nullable sql_text;
     created \<leftarrow> hm_get r ''created_at_ms'' \<bind> sql_u64;
     started \<leftarrow> hm_get r ''started_at_ms'' \<bind> nullable sql_u64;
     finished \<leftarrow> hm_get r ''finished_at_ms'' \<bind> nullable sql_u64;
     env \<leftarrow> hm_get r ''environment'' \<bind> nullable sql_text;
     metrics \<leftarrow> hm_get r ''metrics'' \<bind> nullable sql_blob;
     vars \<leftarrow> hm_get r ''variables'' \<bind> sql_blob;
     secrets \<leftarrow> hm_get r ''secrets'' \<bind> nullable sql_blob;
     size \<leftarrow> hm_get r ''size_bytes'' \<bind> sql_u64;
     Some \<lparr>row_id = i, row_pool = pool, row_node = node, row_status = st, row_payload = payload,
       row_result = res, row_error = err, row_created_at_ms = created,
       row_started_at_ms = started, row_finished_at_ms = finished, row_environment = env,
       row_metrics = metrics, row_variables = vars, row_secrets = secrets,
       row_size_bytes = unat size\<rparr>
   }"

definition database_of :: "db_file \<Rightarrow> database option" where
  "database_of f = do {
     m \<leftarrow> file_metadata f;
     t \<leftarrow> file_executions f;
     rows \<leftarrow> collect_results (map read_row (table_rows t));
     cluster \<leftarrow> optional sql_blob (hm_get m ''cluster'');
     controller \<leftarrow> optional sql_text (hm_get m ''controller_id'');
     retention \<leftarrow> setting f ''retention_ms'';
     max_bytes \<leftarrow> setting f ''max_storage_bytes'';
     Some \<lparr>db_rows = rows, db_cluster = cluster, db_controller_id = controller,
       db_retention_ms = retention, db_max_storage_bytes = max_bytes\<rparr>
   }"

subsection \<open>What a version of the program has stored\<close>

text \<open>
  The values of a row under all columns of today, and the file an earlier version with the columns
  \<open>cols\<close> has written; \<open>settings\<close> says whether it has stored its settings.
\<close>

definition sql_optional :: "('a \<Rightarrow> sql_value) \<Rightarrow> 'a option \<Rightarrow> sql_value" where
  "sql_optional f v = (case v of None \<Rightarrow> SqlNull | Some x \<Rightarrow> f x)"

definition sql_integer :: "u64 \<Rightarrow> sql_value" where
  "sql_integer t = SqlInteger (uint t)"

definition sql_row :: "row \<Rightarrow> (string, sql_value) hashmap" where
  "sql_row r =
     [(''id'', SqlText (row_id r)), (''pool'', SqlText (row_pool r)),
      (''node'', sql_optional SqlText (row_node r)), (''status'', SqlText (row_status r)),
      (''payload'', SqlBlob (row_payload r)), (''result'', sql_optional SqlBlob (row_result r)),
      (''error'', sql_optional SqlText (row_error r)),
      (''created_at_ms'', sql_integer (row_created_at_ms r)),
      (''started_at_ms'', sql_optional sql_integer (row_started_at_ms r)),
      (''finished_at_ms'', sql_optional sql_integer (row_finished_at_ms r)),
      (''environment'', sql_optional SqlText (row_environment r)),
      (''metrics'', sql_optional SqlBlob (row_metrics r)),
      (''variables'', SqlBlob (row_variables r)),
      (''secrets'', sql_optional SqlBlob (row_secrets r)),
      (''size_bytes'', SqlInteger (int (row_size_bytes r)))]"

definition stored_file :: "string list \<Rightarrow> bool \<Rightarrow> database \<Rightarrow> db_file" where
  "stored_file cols with_settings db =
     \<lparr>file_metadata = Some (
        (if with_settings then
           [(''retention_ms'', SqlText (decimal (unat (db_retention_ms db)))),
            (''max_storage_bytes'', SqlText (decimal (unat (db_max_storage_bytes db))))]
         else [])
        @ (case db_cluster db of None \<Rightarrow> [] | Some b \<Rightarrow> [(''cluster'', SqlBlob b)])
        @ (case db_controller_id db of None \<Rightarrow> [] | Some s \<Rightarrow> [(''controller_id'', SqlText s)])),
      file_executions = Some
        \<lparr>table_columns = cols,
         table_rows = map (\<lambda>r. filter (\<lambda>(c, v). c \<in> set cols) (sql_row r)) (db_rows db)\<rparr>\<rparr>"

definition upgraded_row :: "string list \<Rightarrow> row \<Rightarrow> row" where
  "upgraded_row cols r =
     r\<lparr>row_variables := (if ''variables'' \<in> set cols then row_variables r else [0x7B, 0x7D]),
       row_secrets := (if ''secrets'' \<in> set cols then row_secrets r else None)\<rparr>"

definition upgraded :: "string list \<Rightarrow> bool \<Rightarrow> database \<Rightarrow> database" where
  "upgraded cols with_settings db =
     db\<lparr>db_rows := map (upgraded_row cols) (db_rows db),
        db_retention_ms := (if with_settings then db_retention_ms db else DEFAULT_RETENTION_MS),
        db_max_storage_bytes :=
          (if with_settings then db_max_storage_bytes db else DEFAULT_STORAGE_BYTES)\<rparr>"

subsection \<open>Statements that can be repeated\<close>

text \<open>
  A statement that has been executed is one that changes nothing any more. If every statement is
  executed after it ran, and stays executed whatever other statement runs, a list of them can be
  interrupted at any point and started again.
\<close>

locale repeatable =
  fixes stmts :: "('s \<Rightarrow> 's option) list"
  assumes settles: "s \<in> set stmts \<Longrightarrow> s f = Some f' \<Longrightarrow> s f' = Some f'"
    and stays: "s \<in> set stmts \<Longrightarrow> t \<in> set stmts \<Longrightarrow> s f = Some f \<Longrightarrow> t f = Some f' \<Longrightarrow> s f' = Some f'"
begin

lemma stays_run:
  "s \<in> set stmts \<Longrightarrow> set ss \<subseteq> set stmts \<Longrightarrow> s f = Some f \<Longrightarrow>
     s (snd (run_statements ss f)) = Some (snd (run_statements ss f))"
proof (induction ss arbitrary: f)
  case (Cons t ss)
  show ?case
  proof (cases "t f")
    case None
    then show ?thesis using Cons.prems(3) by simp
  next
    case (Some f')
    have "s f' = Some f'" by (rule stays [of s t f f']) (use Cons.prems Some in simp_all)
    then show ?thesis using Cons.IH [of f'] Cons.prems(1,2) Some by simp
  qed
qed simp

lemma restart_part:
  "set ss \<subseteq> set stmts \<Longrightarrow>
     run_statements ss (snd (run_statements (take n ss) f)) = run_statements ss f"
proof (induction ss arbitrary: n f)
  case (Cons s ss)
  show ?case
  proof (cases n)
    case (Suc k)
    show ?thesis
    proof (cases "s f")
      case (Some f')
      let ?g = "snd (run_statements (take k ss) f')"
      have "set (take k ss) \<subseteq> set stmts" using Cons.prems set_take_subset [of k ss] by auto
      moreover have "s f' = Some f'" by (rule settles [of s f f']) (use Cons.prems Some in simp_all)
      ultimately have "s ?g = Some ?g" using stays_run [of s] Cons.prems by simp
      then show ?thesis using Cons.IH [of k f'] Cons.prems Suc Some by simp
    qed (simp add: Suc)
  qed simp
qed simp

lemma restart:
  "run_statements stmts (snd (run_statements (take n stmts) f)) = run_statements stmts f"
  by (rule restart_part) simp

end

lemmas statement_defs = create_metadata_def create_executions_def create_index_def ensure_column_def
  add_column_def set_default_def column_exists_def

text \<open>What the statements check for only ever appears.\<close>

definition has_key :: "string \<Rightarrow> db_file \<Rightarrow> bool" where
  "has_key k f = (case file_metadata f of None \<Rightarrow> False | Some m \<Rightarrow> hm_get m k \<noteq> None)"

lemma create_metadata_settled: "create_metadata f = Some f \<longleftrightarrow> file_metadata f \<noteq> None"
  by (cases f) (auto simp: create_metadata_def)

lemma create_executions_settled: "create_executions f = Some f \<longleftrightarrow> file_executions f \<noteq> None"
  by (cases f) (auto simp: create_executions_def)

lemma create_index_settled: "create_index c f = Some f \<longleftrightarrow> column_exists c f"
  by (simp add: create_index_def)

lemma add_column_new: "add_column c v f = Some f' \<Longrightarrow> f' \<noteq> f \<and> column_exists c f'"
  by (cases f; cases "file_executions f") (auto simp: add_column_def column_exists_def dest!: arg_cong [of _ _ table_columns])

lemma ensure_column_settled: "ensure_column c v f = Some f \<longleftrightarrow> column_exists c f"
  using add_column_new [of c v f f] by (auto simp: ensure_column_def)

lemma set_default_settled: "set_default k v f = Some f \<longleftrightarrow> has_key k f"
proof (cases "file_metadata f")
  case (Some m)
  have "hm_insert k x m \<noteq> m" if "hm_get m k = None" for x
  proof
    assume "hm_insert k x m = m"
    moreover have "hm_get (hm_insert k x m) k = Some x" by simp
    ultimately show False using that by simp
  qed
  then show ?thesis using Some by (cases f) (auto simp: set_default_def has_key_def)
qed (simp add: set_default_def has_key_def)

lemmas settled = create_metadata_settled create_executions_settled create_index_settled
  ensure_column_settled set_default_settled

definition grows :: "db_file \<Rightarrow> db_file \<Rightarrow> bool" where
  "grows f f' \<longleftrightarrow> (file_metadata f \<noteq> None \<longrightarrow> file_metadata f' \<noteq> None) \<and>
     (file_executions f \<noteq> None \<longrightarrow> file_executions f' \<noteq> None) \<and>
     (\<forall>c. column_exists c f \<longrightarrow> column_exists c f') \<and> (\<forall>k. has_key k f \<longrightarrow> has_key k f')"

lemma open_statement_cases:
  assumes "s \<in> set open_statements"
  obtains "s = create_metadata" | "s = create_executions" | c where "s = create_index c"
  | c v where "s = ensure_column c v" | k v where "s = set_default k v"
  using assms by (auto simp: open_statements_def)

lemma statement_settles:
  assumes "s \<in> set open_statements" "s f = Some f'"
  shows "s f' = Some f'"
  using assms(1)
proof (cases rule: open_statement_cases)
  case 4
  then show ?thesis
    using assms(2) add_column_new by (auto simp: ensure_column_settled ensure_column_def split: if_splits)
next
  case (5 k v)
  then show ?thesis
    using assms(2) by (auto simp: set_default_settled set_default_def has_key_def split: option.splits if_splits)
qed (use assms(2) in \<open>auto simp: settled create_metadata_def create_executions_def create_index_def
       split: if_splits\<close>)

lemma statement_grows:
  assumes "s \<in> set open_statements" "s f = Some f'"
  shows "grows f f'"
  using assms(1)
proof (cases rule: open_statement_cases)
  case 4
  then show ?thesis
    using assms(2) by (auto simp: grows_def ensure_column_def add_column_def column_exists_def has_key_def
        split: if_splits option.splits)
next
  case (5 k v)
  then show ?thesis
    using assms(2) by (auto simp: grows_def set_default_def column_exists_def has_key_def
        split: option.splits if_splits)
qed (use assms(2) in \<open>auto simp: grows_def create_metadata_def create_executions_def create_index_def
       column_exists_def has_key_def split: if_splits\<close>)

lemma settled_grows:
  assumes "s \<in> set open_statements" "s f = Some f" "grows f f'"
  shows "s f' = Some f'"
  using assms(1)
  by (cases rule: open_statement_cases) (use assms(2,3) in \<open>simp_all add: settled grows_def\<close>)

interpretation statements: repeatable open_statements
  by unfold_locales (blast intro: statement_settles, blast intro: settled_grows statement_grows)

subsection \<open>What was stored is kept\<close>

definition metadata_value :: "string \<Rightarrow> db_file \<Rightarrow> sql_value option" where
  "metadata_value k f = file_metadata f \<bind> (\<lambda>m. hm_get m k)"

text \<open>
  Every entry of the metadata has its value, and every row its values in the columns it had; new
  columns are appended to the table, with one value for all rows.
\<close>

definition preserves :: "db_file \<Rightarrow> db_file \<Rightarrow> bool" where
  "preserves f f' \<longleftrightarrow>
     (\<forall>k v. metadata_value k f = Some v \<longrightarrow> metadata_value k f' = Some v) \<and>
     (\<forall>t. file_executions f = Some t \<longrightarrow> (\<exists>new. file_executions f' = Some
        \<lparr>table_columns = table_columns t @ map fst new,
         table_rows = map (\<lambda>r. r @ new) (table_rows t)\<rparr>))"

lemma preserves_refl: "preserves f f"
  by (auto simp: preserves_def intro: exI [of _ "[]"])

lemma preserves_trans:
  assumes "preserves f g" "preserves g h"
  shows "preserves f h"
  unfolding preserves_def
proof (intro conjI allI impI)
  show "metadata_value k h = Some v" if "metadata_value k f = Some v" for k v
    using assms that by (simp add: preserves_def)
next
  fix t
  assume "file_executions f = Some t"
  then obtain new where new: "file_executions g = Some
      \<lparr>table_columns = table_columns t @ map fst new, table_rows = map (\<lambda>r. r @ new) (table_rows t)\<rparr>"
    using assms(1) unfolding preserves_def by blast
  then obtain more where "file_executions h = Some
      \<lparr>table_columns = (table_columns t @ map fst new) @ map fst more,
       table_rows = map (\<lambda>r. r @ more) (map (\<lambda>r. r @ new) (table_rows t))\<rparr>"
    using assms(2) unfolding preserves_def by fastforce
  then show "\<exists>new. file_executions h = Some
      \<lparr>table_columns = table_columns t @ map fst new, table_rows = map (\<lambda>r. r @ new) (table_rows t)\<rparr>"
    by (intro exI [of _ "new @ more"]) simp
qed

lemma statement_preserves:
  assumes "s \<in> set open_statements" "s f = Some f'"
  shows "preserves f f'"
  using assms(1)
proof (cases rule: open_statement_cases)
  case 1
  then show ?thesis
    using assms(2) preserves_refl [of f]
    by (auto simp: create_metadata_def preserves_def metadata_value_def split: if_splits)
next
  case 2
  then show ?thesis
    using assms(2) preserves_refl [of f]
    by (auto simp: create_executions_def preserves_def metadata_value_def split: if_splits)
next
  case 3
  then show ?thesis using assms(2) by (simp add: create_index_def preserves_refl split: if_splits)
next
  case (4 c v)
  show ?thesis
  proof (cases "column_exists c f")
    case False
    then have "add_column c v f = Some f'" using 4 assms(2) by (simp add: ensure_column_def)
    then show ?thesis
      by (auto simp: preserves_def add_column_def metadata_value_def split: option.splits
          intro: exI [of _ "[(c, v)]"])
  qed (use 4 assms(2) in \<open>simp add: ensure_column_def preserves_refl\<close>)
next
  case (5 k v)
  then show ?thesis
    using assms(2) preserves_refl [of f]
    by (auto simp: set_default_def preserves_def metadata_value_def split: option.splits if_splits)
qed

lemma run_preserves:
  "set ss \<subseteq> set open_statements \<Longrightarrow> preserves f (snd (run_statements ss f))"
proof (induction ss arbitrary: f)
  case (Cons s ss)
  show ?case
  proof (cases "s f")
    case (Some f')
    have "preserves f f'" by (rule statement_preserves [of s f f']) (use Cons.prems Some in simp_all)
    moreover have "preserves f' (snd (run_statements ss f'))" by (rule Cons.IH) (use Cons.prems in simp)
    ultimately show ?thesis using Some by (simp add: preserves_trans)
  qed (simp add: preserves_refl)
qed (simp add: preserves_refl)

text \<open>C35: Opening a database file can stop after any of its statements, by a crash or an error, and be
  repeated: the next opening leaves the file, and has the outcome, of one that was never interrupted
  (so opening an opened file changes nothing). Neither the interrupted nor the finished opening loses
  an entry of the metadata or a value of an execution.
\<close>

theorem interrupted_opening_is_repeated:
  "open_file (snd (run_statements (take n open_statements) f)) = open_file f
   \<and> preserves f (snd (run_statements (take n open_statements) f)) \<and> preserves f (snd (open_file f))"
proof -
  have "set (take n open_statements) \<subseteq> set open_statements" by (rule set_take_subset)
  then show ?thesis
    unfolding open_file_def using statements.restart [of n f] by (auto intro: run_preserves)
qed

subsection \<open>The file of an earlier version\<close>

lemma sql_conversions [simp]:
  "sql_text (SqlText s) = Some s"
  "sql_blob (SqlBlob b) = Some b"
  "sql_u64 (sql_integer t) = Some t"
  "nullable sql_text (sql_optional SqlText x) = Some x"
  "nullable sql_blob (sql_optional SqlBlob y) = Some y"
  "nullable sql_u64 (sql_optional sql_integer z) = Some z"
  "nullable h SqlNull = Some None"
  by (auto simp: sql_text_def sql_blob_def sql_u64_def sql_integer_def nullable_def sql_optional_def
      split: option.splits)

lemma setting_stored:
  assumes "file_metadata f = Some m" "hm_get m key = Some (SqlText (decimal (unat (v :: u64))))"
  shows "setting f key = Some v"
proof -
  have "unat v \<le> 2 ^ 64 - 1" using unsigned_less [of v, where 'a = nat] by simp
  then show ?thesis using assms by (simp add: setting_def parse_decimal del: One_nat_def)
qed

text \<open>The columns every version had.\<close>

definition OLD_COLUMNS :: "string list" where
  "OLD_COLUMNS =
     [''id'', ''pool'', ''node'', ''status'', ''payload'', ''result'', ''error'', ''created_at_ms'',
      ''started_at_ms'', ''finished_at_ms'', ''environment'', ''metrics'', ''size_bytes'']"

lemma old_columns:
  assumes "set OLD_COLUMNS \<subseteq> set cols"
  shows "list_all (\<lambda>c. c \<in> set cols) OLD_COLUMNS"
  using assms by (auto simp: list_all_iff)

lemma stored_row_values:
  assumes "set OLD_COLUMNS \<subseteq> set cols"
    and "new = (if ''variables'' \<in> set cols then [] else [(''variables'', SqlBlob [0x7B, 0x7D])])
     @ (if ''secrets'' \<in> set cols then [] else [(''secrets'', SqlNull)])"
  shows "hm_get (filter (\<lambda>(c, v). c \<in> set cols) (sql_row r) @ new) = hm_get (sql_row (upgraded_row cols r))"
  using old_columns [OF assms(1)]
  by (cases "''variables'' \<in> set cols"; cases "''secrets'' \<in> set cols")
    (auto simp: assms(2) OLD_COLUMNS_def sql_row_def upgraded_row_def hm_get_def sql_optional_def fun_eq_iff)

lemma read_stored_row:
  assumes "row_size_bytes r < 2 ^ 64" "hm_get m = hm_get (sql_row r)"
  shows "read_row m = Some r"
proof -
  have "sql_u64 (SqlInteger (int (row_size_bytes r))) = Some (of_nat (row_size_bytes r))"
    by (simp add: sql_u64_def)
  moreover have "unat (of_nat (row_size_bytes r) :: u64) = row_size_bytes r"
    using assms(1) by (simp add: unsigned_of_nat take_bit_nat_eq_self)
  ultimately show ?thesis
    unfolding read_row_def assms(2) by (simp add: sql_row_def hm_get_def)
qed

lemma opened_stored_file:
  assumes "set OLD_COLUMNS \<subseteq> set cols"
  shows "\<exists>m cols'. open_file (stored_file cols ws db) = (True, \<lparr>file_metadata = Some m,
      file_executions = Some \<lparr>table_columns = cols',
        table_rows = map (\<lambda>r. filter (\<lambda>(c, v). c \<in> set cols) (sql_row r)
          @ (if ''variables'' \<in> set cols then [] else [(''variables'', SqlBlob [0x7B, 0x7D])])
          @ (if ''secrets'' \<in> set cols then [] else [(''secrets'', SqlNull)])) (db_rows db)\<rparr>\<rparr>)
    \<and> hm_get m ''cluster'' = map_option SqlBlob (db_cluster db)
    \<and> hm_get m ''controller_id'' = map_option SqlText (db_controller_id db)
    \<and> hm_get m ''retention_ms'' = Some (SqlText (decimal (unat
        (if ws then db_retention_ms db else DEFAULT_RETENTION_MS))))
    \<and> hm_get m ''max_storage_bytes'' = Some (SqlText (decimal (unat
        (if ws then db_max_storage_bytes db else DEFAULT_STORAGE_BYTES))))"
  using old_columns [OF assms]
  by (cases "db_cluster db"; cases "db_controller_id db"; cases ws)
    (simp_all add: OLD_COLUMNS_def open_file_def open_statements_def stored_file_def statement_defs
      hm_get_def hm_insert_def comp_def)

text \<open>C36: Opening the file of an earlier version, whose table of executions may lack the variables, the
  secrets or both and whose metadata may lack the settings, succeeds, and the file then reads as the
  same database: every execution with empty variables and without secrets where there was no column for
  them, and the default retention and storage limit where none were stored. A new file reads as the
  empty database with the default settings.
\<close>

theorem old_databases_open:
  assumes "set OLD_COLUMNS \<subseteq> set cols" "\<forall>r \<in> set (db_rows db). row_size_bytes r < 2 ^ 64"
  shows "(\<exists>f. open_file (stored_file cols with_settings db) = (True, f) \<and>
      database_of f = Some (upgraded cols with_settings db))
    \<and> open_file (stored_file EXECUTION_COLUMNS True db) = (True, stored_file EXECUTION_COLUMNS True db)
    \<and> database_of (snd (open_file \<lparr>file_metadata = None, file_executions = None\<rparr>)) = Some open_database"
    (is "?old \<and> ?same \<and> ?new")
proof (intro conjI)
  let ?new = "(if ''variables'' \<in> set cols then [] else [(''variables'', SqlBlob [0x7B, 0x7D])])
     @ (if ''secrets'' \<in> set cols then [] else [(''secrets'', SqlNull)])"
  let ?rows = "map (\<lambda>r. filter (\<lambda>(c, v). c \<in> set cols) (sql_row r) @ ?new) (db_rows db)"
  obtain m cols' where f: "open_file (stored_file cols with_settings db) = (True,
        \<lparr>file_metadata = Some m,
         file_executions = Some \<lparr>table_columns = cols', table_rows = ?rows\<rparr>\<rparr>)" (is "_ = (True, ?f)")
    and m: "hm_get m ''cluster'' = map_option SqlBlob (db_cluster db)"
      "hm_get m ''controller_id'' = map_option SqlText (db_controller_id db)"
      "hm_get m ''retention_ms'' = Some (SqlText (decimal (unat
         (if with_settings then db_retention_ms db else DEFAULT_RETENTION_MS))))"
      "hm_get m ''max_storage_bytes'' = Some (SqlText (decimal (unat
         (if with_settings then db_max_storage_bytes db else DEFAULT_STORAGE_BYTES))))"
    using opened_stored_file [OF assms(1), of with_settings db] by blast
  have "read_row (filter (\<lambda>(c, v). c \<in> set cols) (sql_row r) @ ?new) = Some (upgraded_row cols r)"
    if "r \<in> set (db_rows db)" for r
    using that assms(2) by (intro read_stored_row stored_row_values [OF assms(1) refl])
      (simp add: upgraded_row_def)
  then have "collect_results (map read_row ?rows) = Some (map (upgraded_row cols) (db_rows db))"
    by (simp add: collect_results_Some)
  moreover have "setting ?f ''retention_ms'' =
      Some (if with_settings then db_retention_ms db else DEFAULT_RETENTION_MS)"
    by (rule setting_stored [of _ m]) (simp_all add: m(3))
  moreover have "setting ?f ''max_storage_bytes'' =
      Some (if with_settings then db_max_storage_bytes db else DEFAULT_STORAGE_BYTES)"
    by (rule setting_stored [of _ m]) (simp_all add: m(4))
  moreover have "optional sql_blob (map_option SqlBlob x) = Some x"
    "optional sql_text (map_option SqlText y) = Some y" for x y
    by (cases x; cases y; simp add: optional_def)+
  ultimately have "database_of ?f = Some (upgraded cols with_settings db)"
    by (cases db) (simp add: database_of_def upgraded_def m(1,2))
  then show ?old using f by blast
next
  show ?same
    by (simp add: open_file_def open_statements_def stored_file_def statement_defs EXECUTION_COLUMNS_def
        hm_get_def)
next
  have "setting \<lparr>file_metadata = Some
        [(''retention_ms'', SqlText (decimal (unat DEFAULT_RETENTION_MS))),
         (''max_storage_bytes'', SqlText (decimal (unat DEFAULT_STORAGE_BYTES)))],
      file_executions = t\<rparr> k = Some v"
    if "(k, v) \<in> {(''retention_ms'', DEFAULT_RETENTION_MS), (''max_storage_bytes'', DEFAULT_STORAGE_BYTES)}"
    for t k v
    by (rule setting_stored) (use that in \<open>auto simp: hm_get_def\<close>)
  then show ?new
    by (simp add: open_file_def open_statements_def statement_defs EXECUTION_COLUMNS_def hm_get_def
        hm_insert_def database_of_def open_database_def optional_def)
qed

definition legacy_database :: database where
  "legacy_database = open_database\<lparr>db_rows := [
     \<lparr>row_id = ''e1'', row_pool = ''python'', row_node = None, row_status = ''succeeded'',
      row_payload = [1], row_result = Some [2], row_error = None, row_created_at_ms = 5,
      row_started_at_ms = Some 6, row_finished_at_ms = Some 7, row_environment = None,
      row_metrics = None, row_variables = [3], row_secrets = Some [4], row_size_bytes = 3\<rparr>],
     db_controller_id := Some ''c1''\<rparr>"

lemma old_databases_open_witness:
  "\<exists>f. open_file (stored_file OLD_COLUMNS False legacy_database) = (True, f) \<and>
     (\<exists>db. database_of f = Some db \<and> map row_variables (db_rows db) = [[0x7B, 0x7D]] \<and>
        map row_secrets (db_rows db) = [None] \<and> db_controller_id db = Some ''c1'')"
proof -
  have "\<forall>r \<in> set (db_rows legacy_database). row_size_bytes r < 2 ^ 64"
    by (simp add: legacy_database_def)
  then obtain f where "open_file (stored_file OLD_COLUMNS False legacy_database) = (True, f)"
    "database_of f = Some (upgraded OLD_COLUMNS False legacy_database)"
    using old_databases_open [of OLD_COLUMNS legacy_database False] by blast
  then show ?thesis
    by (simp add: upgraded_def upgraded_row_def legacy_database_def OLD_COLUMNS_def)
qed

text \<open>A file whose table of executions has no status column is refused.\<close>

lemma foreign_tables_are_refused:
  "\<not> fst (open_file \<lparr>file_metadata = None,
     file_executions = Some \<lparr>table_columns = [''created_at_ms'', ''finished_at_ms''], table_rows = []\<rparr>\<rparr>)"
  by (simp add: open_file_def open_statements_def statement_defs)

end
