(* ===== verification/Api_Base.thy ===== *)
theory Api_Base
  imports Scheduler_Queue Warm_Pool Storage Text
begin

section \<open>The controller: state, responses, authentication\<close>

text \<open>
  The common part of \<open>platform/src/api.rs\<close>. A handler is a function from the application state
  to a response and the state it leaves; the state is returned on every path, since an error
  after a mutation (a failed save) leaves the mutated cluster in memory. A panic (an \<open>unwrap\<close> or
  an index that fails) is a response of its own. Parameters of a request stand for what
  lies outside the source: the digest \<open>H\<close> (SHA-256 in hexadecimal), the text encodings \<open>cd\<close>, the
  clock \<open>now\<close>, fresh identifiers and secrets, and \<open>io\<close>, which says for the n-th database call of
  the handler whether it succeeds.
\<close>

datatype status_code = OK | CREATED | ACCEPTED | NO_CONTENT | BAD_REQUEST | UNAUTHORIZED
  | FORBIDDEN | NOT_FOUND | CONFLICT | INTERNAL_SERVER_ERROR | SERVICE_UNAVAILABLE
  | INSUFFICIENT_STORAGE

datatype 'a response = Reply status_code 'a | Fail status_code string | Panic

record app =
  app_cluster :: cluster
  app_db :: database
  app_working_dirs :: "(string, string) hashmap"

definition JOIN_TOKEN_TTL_MS :: u64 where
  "JOIN_TOKEN_TTL_MS = 10 * 60 * 1000"

definition internal_error :: "'a response" where
  "internal_error = Fail INTERNAL_SERVER_ERROR ''internal error''"

subsection \<open>Persistence\<close>

definition with_cluster :: "cluster \<Rightarrow> app \<Rightarrow> app" where
  "with_cluster c a = a\<lparr>app_cluster := c\<rparr>"

definition save :: "codec \<Rightarrow> bool \<Rightarrow> app \<Rightarrow> app option" where
  "save cd ok a =
     (if ok then Some (a\<lparr>app_db := save_cluster cd (app_cluster a) (app_db a)\<rparr>) else None)"

definition app_save_executions :: "codec \<Rightarrow> bool \<Rightarrow> execution list \<Rightarrow> app \<Rightarrow> app option" where
  "app_save_executions cd ok es a =
     (if ok then map_option (\<lambda>db. a\<lparr>app_db := db\<rparr>) (save_executions cd es (app_db a)) else None)"

text \<open>\<open>save(&app, &cluster).await?\<close> followed by a reply.\<close>

definition save_then :: "codec \<Rightarrow> bool \<Rightarrow> 'a response \<Rightarrow> app \<Rightarrow> 'a response \<times> app" where
  "save_then cd ok r a = (case save cd ok a of None \<Rightarrow> (internal_error, a) | Some a' \<Rightarrow> (r, a'))"

text \<open>
  The tail of most node handlers: schedule the queue, save the cluster, save what was scheduled.
\<close>

definition schedule_and_save ::
    "codec \<Rightarrow> (nat \<Rightarrow> bool) \<Rightarrow> (app \<Rightarrow> 'a response) \<Rightarrow> app \<Rightarrow> 'a response \<times> app" where
  "schedule_and_save cd io r a =
     (case schedule_queued (app_cluster a) of
        None \<Rightarrow> (Panic, a)
      | Some (scheduled, c) \<Rightarrow>
        let a1 = with_cluster c a in
        (case save cd (io 0) a1 of
           None \<Rightarrow> (internal_error, a1)
         | Some a2 \<Rightarrow>
        (case app_save_executions cd (io 1) scheduled a2 of
           None \<Rightarrow> (internal_error, a2)
         | Some a3 \<Rightarrow> (r a3, a3))))"

subsection \<open>Secrets and node credentials\<close>

definition same_hash :: "string \<Rightarrow> string \<Rightarrow> bool" where
  "same_hash left right \<longleftrightarrow>
     length left = length right \<and>
     fold (\<lambda>(l, r) difference. Bit_Operations.or difference (Bit_Operations.xor (byte l) (byte r)))
       (zip left right) 0 = 0"

lemma or_eq_zero: "Bit_Operations.or (x :: u8) y = 0 \<longleftrightarrow> x = 0 \<and> y = 0"
  by (auto simp: bit_eq_iff bit_or_iff)

lemma xor_eq_zero: "Bit_Operations.xor (x :: u8) y = 0 \<longleftrightarrow> x = y"
  by (auto simp: bit_eq_iff bit_xor_iff)

lemma same_hash_eq: "same_hash l r \<longleftrightarrow> l = r"
proof -
  have "fold (\<lambda>(l, r) d. Bit_Operations.or d (Bit_Operations.xor (byte l) (byte r))) (zip l r) d = 0
      \<longleftrightarrow> d = 0 \<and> l = r" if "length l = length r" for d :: u8
    using that
    by (induction l r arbitrary: d rule: list_induct2) (auto simp: or_eq_zero xor_eq_zero)
  then show ?thesis by (auto simp: same_hash_def)
qed

text \<open>
  \<open>auth\<close> is the Authorization header when it is there and readable. The credentials are searched in
  iteration order.
\<close>

definition authenticated_node ::
    "(string \<Rightarrow> string) \<Rightarrow> string option \<Rightarrow> cluster \<Rightarrow> uuid response" where
  "authenticated_node H auth c =
     (case Option.bind auth (strip_prefix ''Bearer '') of
        None \<Rightarrow> Fail UNAUTHORIZED ''node credential required''
      | Some token \<Rightarrow>
     (case List.find (\<lambda>(nid, expected). same_hash expected (H token)) (node_credentials c) of
        None \<Rightarrow> Fail UNAUTHORIZED ''invalid node credential''
      | Some (nid, expected) \<Rightarrow> Reply OK nid))"

text \<open>A handler that runs as the authenticated node \<open>nid\<close>, or only as the node \<open>want\<close>.\<close>

definition as_node :: "(string \<Rightarrow> string) \<Rightarrow> string option \<Rightarrow> (uuid \<Rightarrow> app \<Rightarrow> 'a response \<times> app) \<Rightarrow>
    app \<Rightarrow> 'a response \<times> app" where
  "as_node H auth h a =
     (case authenticated_node H auth (app_cluster a) of
        Reply _ nid \<Rightarrow> h nid a | Fail s m \<Rightarrow> (Fail s m, a) | Panic \<Rightarrow> (Panic, a))"

definition as_this_node :: "(string \<Rightarrow> string) \<Rightarrow> string option \<Rightarrow> uuid \<Rightarrow>
    (app \<Rightarrow> 'a response \<times> app) \<Rightarrow> app \<Rightarrow> 'a response \<times> app" where
  "as_this_node H auth want h =
     as_node H auth (\<lambda>nid a.
       if nid \<noteq> want then (Fail FORBIDDEN ''node identity mismatch'', a) else h a)"

lemma authenticated_nodeD:
  assumes "authenticated_node H auth c = Reply s nid"
  obtains token where "auth = Some (''Bearer '' @ token)" "(nid, H token) \<in> set (node_credentials c)"
proof -
  obtain hdr token where v: "auth = Some hdr" "strip_prefix ''Bearer '' hdr = Some token"
    using assms by (auto simp: authenticated_node_def split: option.splits bind_splits)
  then have "hdr = ''Bearer '' @ token"
    by (metis append_take_drop_id option.distinct(1) option.inject strip_prefix_def)
  moreover have "(nid, H token) \<in> set (node_credentials c)"
    using assms v
    by (auto simp: authenticated_node_def same_hash_eq find_Some_iff split: option.splits)
      (metis nth_mem)
  ultimately show ?thesis using that v by blast
qed

subsection \<open>Paths and references\<close>

definition lower_hex :: "char \<Rightarrow> bool" where
  "lower_hex c \<longleftrightarrow>
     (let n = (of_char c :: nat) in 48 \<le> n \<and> n \<le> 57 \<or> 97 \<le> n \<and> n \<le> 102)"

text \<open>The directory \<open>working-dirs\<close> maps file names to contents. The file name of a digest, if it is one.\<close>

definition working_dir_path :: "string \<Rightarrow> string response" where
  "working_dir_path digest =
     (if length digest \<noteq> 64 \<or> \<not> list_all lower_hex digest
      then Fail BAD_REQUEST ''invalid working directory hash''
      else Reply OK (digest @ ''.zip''))"

definition working_dir_exists :: "string \<Rightarrow> app \<Rightarrow> unit response" where
  "working_dir_exists digest a =
     (case working_dir_path digest of
        Fail s m \<Rightarrow> Fail s m | Panic \<Rightarrow> Panic
      | Reply _ p \<Rightarrow>
          if hm_get (app_working_dirs a) p \<noteq> None then Reply NO_CONTENT ()
          else Fail NOT_FOUND ''working directory not found'')"

text \<open>\<open>io\<close>: writing the partial file and renaming it both succeed.\<close>

definition upload_working_dir ::
    "(string \<Rightarrow> string) \<Rightarrow> bool \<Rightarrow> string \<Rightarrow> string \<Rightarrow> app \<Rightarrow> unit response \<times> app" where
  "upload_working_dir H io digest body a =
     (case working_dir_path digest of
        Fail s m \<Rightarrow> (Fail s m, a) | Panic \<Rightarrow> (Panic, a)
      | Reply _ p \<Rightarrow>
          if hm_get (app_working_dirs a) p \<noteq> None then (Reply NO_CONTENT (), a)
          else if H body \<noteq> digest
          then (Fail BAD_REQUEST ''working directory hash does not match content'', a)
          else if \<not> io then (internal_error, a)
          else (Reply CREATED (), a\<lparr>app_working_dirs := hm_insert p body (app_working_dirs a)\<rparr>))"

definition registry :: "string \<Rightarrow> string" where
  "registry reference =
     (let first = first_part CHR ''/'' reference in
      if CHR ''/'' \<in> set reference \<and>
         (CHR ''.'' \<in> set first \<or> CHR '':'' \<in> set first \<or> first = ''localhost'')
      then first else ''docker.io'')"

end
