(* ===== verification/Api_Pools.thy ===== *)
theory Api_Pools
  imports Api_Base
begin

section \<open>Images and pools\<close>

text \<open>
  The handlers of \<open>platform/src/api.rs\<close> for images and pools: \<open>list_images\<close>, the commit of
  \<open>import_image\<close>, \<open>update_image\<close>, \<open>delete_image\<close>, \<open>create_pool\<close>, \<open>delete_pool\<close>. The
  Docker build that precedes the commit of an import is not modelled: its image is an argument.
\<close>

definition list_images :: "app \<Rightarrow> (image \<times> bool) list" where
  "list_images a =
     map (\<lambda>i. (i, image_ready (app_cluster a) (image_id i))) (hm_values (images (app_cluster a)))"

text \<open>The checks before the build, and the commit after it.\<close>

definition strip_scheme :: "string \<Rightarrow> string" where
  "strip_scheme s =
     (case strip_prefix ''http://'' s of Some r \<Rightarrow> r
      | None \<Rightarrow> (case strip_prefix ''https://'' s of Some r \<Rightarrow> r | None \<Rightarrow> s))"

definition non_empty :: "string option \<Rightarrow> string option" where
  "non_empty v = (case v of Some s \<Rightarrow> if s = [] then None else Some s | None \<Rightarrow> None)"

definition import_checks ::
    "string \<Rightarrow> string \<Rightarrow> string option \<Rightarrow> string option \<Rightarrow> app \<Rightarrow> (string \<times> string) response" where
  "import_checks name reference username password a =
     (let n = trim name; r = strip_scheme (trim reference) in
      if n = [] \<or> r = [] then Fail BAD_REQUEST ''name and Docker image are required''
      else if (non_empty (map_option trim username) \<noteq> None) \<noteq> (non_empty password \<noteq> None)
      then Fail BAD_REQUEST ''registry username and password must be provided together''
      else if list_ex (\<lambda>i. image_name i = n) (hm_values (images (app_cluster a)))
      then Fail CONFLICT ''image name already exists''
      else Reply OK (n, r))"

definition import_kind :: "image_kind option \<Rightarrow> string option \<Rightarrow> image_kind" where
  "import_kind requested executor =
     (case requested of Some k \<Rightarrow> k
      | None \<Rightarrow> if executor \<noteq> None then RuntimeImage else MicroVmImage)"

definition import_commit ::
    "codec \<Rightarrow> (nat \<Rightarrow> bool) \<Rightarrow> uuid \<Rightarrow> string \<Rightarrow> image_kind option \<Rightarrow> string option \<Rightarrow> string \<Rightarrow>
     string \<Rightarrow> u64 \<Rightarrow> app \<Rightarrow> image response \<times> app" where
  "import_commit cd io fresh name requested executor docker_source sha256 sz a =
     (let kind = import_kind requested executor in
      if kind = RuntimeImage \<and> executor = None
      then (Fail BAD_REQUEST ''runtime image must contain cloudpickle'', a)
      else
        let img = \<lparr>image_id = fresh, image_name = name, image_sha256 = sha256, image_size = sz,
              image_compatible = True,
              image_executor = (if kind = RuntimeImage then executor else None),
              image_kind = kind, image_docker_source = Some docker_source\<rparr>;
            c = app_cluster a
        in save_then cd (io 0) (Reply CREATED img)
             (with_cluster (c\<lparr>nodes := hm_map_values (\<lambda>n. n\<lparr>node_status := Syncing\<rparr>) (nodes c),
                images := hm_insert fresh img (images c)\<rparr>) a))"

definition update_image ::
    "codec \<Rightarrow> (nat \<Rightarrow> bool) \<Rightarrow> uuid \<Rightarrow> string \<Rightarrow> string option \<Rightarrow> app \<Rightarrow> image response \<times> app" where
  "update_image cd io i name executor a =
     (let c = app_cluster a in
      if trim name = [] then (Fail BAD_REQUEST ''image name is required'', a)
      else if list_ex (\<lambda>img. image_id img \<noteq> i \<and> image_name img = name) (hm_values (images c))
      then (Fail CONFLICT ''image name already exists'', a)
      else
        (case hm_get (images c) i of
           None \<Rightarrow> (Fail NOT_FOUND ''image not found'', a)
         | Some img \<Rightarrow>
           let ex = (case executor of Some s \<Rightarrow> if trim s = [] then None else Some s | None \<Rightarrow> None);
               img' = img\<lparr>image_name := name, image_executor := ex,
                 image_kind := (if ex \<noteq> None then RuntimeImage else MicroVmImage)\<rparr>
           in save_then cd (io 0) (Reply OK img')
                (with_cluster (c\<lparr>images := hm_insert i img' (images c)\<rparr>) a)))"

text \<open>
  Afterwards the image file and, when no other image uses it, the Docker image are removed; both
  are outside the model and their failure is ignored by the code.
\<close>

definition delete_image :: "codec \<Rightarrow> (nat \<Rightarrow> bool) \<Rightarrow> uuid \<Rightarrow> app \<Rightarrow> unit response \<times> app" where
  "delete_image cd io i a =
     (let c = app_cluster a in
      if list_ex (\<lambda>p. pool_image p = i) (hm_values (pools c)) \<or>
         list_ex (\<lambda>e. env_image e = i) (hm_values (environments c))
      then (Fail CONFLICT ''image is in use'', a)
      else
        (case hm_get (images c) i of
           None \<Rightarrow> (Fail NOT_FOUND ''image not found'', a)
         | Some img \<Rightarrow>
           save_then cd (io 0) (Reply NO_CONTENT ())
             (with_cluster (c\<lparr>images := hm_remove i (images c),
                nodes := hm_map_values (\<lambda>n. n\<lparr>node_images := node_images n - {i}\<rparr>) (nodes c)\<rparr>) a)))"

subsection \<open>Pools\<close>

text \<open>The loop over the ports, with the names and ports seen so far.\<close>

fun check_ports :: "string set \<Rightarrow> (port_protocol \<times> u16) set \<Rightarrow> (port_protocol \<times> u16) set \<Rightarrow>
    port_spec list \<Rightarrow> string option" where
  "check_ports names guest host [] = None"
| "check_ports names guest host (p # ps) =
     (if trim (port_name p) = [] \<or> port_name p \<in> names
      then Some ''port names must be unique and non-empty''
      else if port_guest_port p = 0 \<or> (port_protocol p, port_guest_port p) \<in> guest
      then Some ''guest ports must be unique and non-zero''
      else
        let names' = insert (port_name p) names;
            guest' = insert (port_protocol p, port_guest_port p) guest
        in (case port_host_port p of
              None \<Rightarrow> check_ports names' guest' host ps
            | Some h \<Rightarrow>
                if h = 0 \<or> (port_protocol p, h) \<in> host
                then Some ''host ports must be unique and non-zero''
                else check_ports names' guest' (insert (port_protocol p, h) host) ps))"

definition check_pool :: "pool \<Rightarrow> cluster \<Rightarrow> (status_code \<times> string) option" where
  "check_pool p c =
     (case hm_get (images c) (pool_image p) of
        None \<Rightarrow> Some (BAD_REQUEST, ''unknown image'')
      | Some img \<Rightarrow>
        if image_kind img \<noteq> MicroVmImage
        then Some (BAD_REQUEST, ''runtime images belong to execution environments'')
        else if pool_managed_by p \<noteq> None \<or> pool_environment p \<noteq> None \<or> pool_preload p \<noteq> []
        then Some (BAD_REQUEST, ''managed fields are reserved'')
        else if \<not> image_compatible img
        then Some (BAD_REQUEST, ''image is not Scraperack compatible'')
        else if \<not> image_ready c (pool_image p)
        then Some (CONFLICT, ''image is still distributing'')
        else if hm_get (pools c) (pool_name p) \<noteq> None
        then Some (CONFLICT, ''pool already exists'')
        else if pool_max_instances p = Some 0
        then Some (BAD_REQUEST, ''max instances must be positive'')
        else if (case pool_max_instances p of None \<Rightarrow> False | Some l \<Rightarrow> l < pool_warm_instances p)
        then Some (BAD_REQUEST, ''warm instances cannot exceed max instances'')
        else if \<not> pool_network p \<and> pool_ports p \<noteq> []
        then Some (BAD_REQUEST, ''ports require networking'')
        else map_option (\<lambda>m. (BAD_REQUEST, m)) (check_ports {} {} {} (pool_ports p)))"

definition create_pool ::
    "codec \<Rightarrow> (nat \<Rightarrow> bool) \<Rightarrow> pool \<Rightarrow> app \<Rightarrow> pool response \<times> app" where
  "create_pool cd io p a =
     (let c = app_cluster a in
      (case check_pool p c of
         Some (s, m) \<Rightarrow> (Fail s m, a)
       | None \<Rightarrow>
           save_then cd (io 0) (Reply CREATED p)
             (with_cluster (c\<lparr>pools := hm_insert (pool_name p) p (pools c)\<rparr>) a)))"

definition unfinished :: "execution \<Rightarrow> bool" where
  "unfinished e \<longleftrightarrow> exec_status e = Queued \<or> exec_status e = Assigned \<or> exec_status e = Running"

text \<open>Forget the idle instances of a removed pool and give their resources back.\<close>

definition drop_idle :: "string \<Rightarrow> pool \<Rightarrow> node \<Rightarrow> node" where
  "drop_idle name p n =
     (let idle = idle_on name n in
      n\<lparr>node_idle_instances := hm_remove name (node_idle_instances n),
        node_used_cpu_millis :=
          saturating_sub (node_used_cpu_millis n) (saturating_mul (pool_cpu_millis p) idle),
        node_used_memory_mib :=
          saturating_sub (node_used_memory_mib n) (saturating_mul (pool_memory_mib p) idle)\<rparr>)"

definition drop_pool :: "string \<Rightarrow> cluster \<Rightarrow> cluster" where
  "drop_pool name c =
     (case hm_get (pools c) name of
        None \<Rightarrow> c
      | Some p \<Rightarrow>
          c\<lparr>pools := hm_remove name (pools c),
            nodes := hm_map_values (drop_idle (pool_name p) p) (nodes c)\<rparr>)"

definition delete_pool ::
    "codec \<Rightarrow> (nat \<Rightarrow> bool) \<Rightarrow> string \<Rightarrow> app \<Rightarrow> unit response \<times> app" where
  "delete_pool cd io name a =
     (let c = app_cluster a in
      if list_ex (\<lambda>e. exec_pool e = name \<and> unfinished e) (hm_values (executions c))
      then (Fail CONFLICT ''pool has active executions'', a)
      else
        (case hm_get (pools c) name of
           None \<Rightarrow> (Fail NOT_FOUND ''pool not found'', a)
         | Some p \<Rightarrow>
             save_then cd (io 0) (Reply NO_CONTENT ())
               (with_cluster (c\<lparr>pools := hm_remove name (pools c),
                  nodes := hm_map_values (drop_idle name p) (nodes c)\<rparr>) a)))"

end
