(* ===== verification/Api_Environments.thy ===== *)
theory Api_Environments
  imports Api_Pools
begin

section \<open>Environments\<close>

text \<open>
  The environment handlers of \<open>platform/src/api.rs\<close>. Creating and updating take the lock twice:
  the checks run on the cluster they read, the artifact is built without the lock, and the commit
  runs on the cluster as it is then. Both halves are definitions of their own; \<open>create_environment\<close>
  and \<open>update_environment\<close> compose them on one state, and other requests may run in between.
\<close>

record create_request =
  req_name :: string
  req_image :: uuid
  req_packages :: "string list"
  req_preload :: "string list"
  req_warm_instances :: u32
  req_max_instances :: "u32 option"
  req_cpu_millis :: u32
  req_memory_mib :: u32
  req_disk_mib :: u32
  req_timeout_secs :: u64
  req_idle_timeout_secs :: u64
  req_reuse :: bool
  req_network :: bool

definition clean_list :: "string list \<Rightarrow> string list" where
  "clean_list xs = sort_dedup (filter (\<lambda>s. s \<noteq> []) (map trim xs))"

definition normalize_request :: "create_request \<Rightarrow> create_request" where
  "normalize_request r =
     r\<lparr>req_name := trim (req_name r), req_packages := clean_list (req_packages r),
       req_preload := clean_list (req_preload r)\<rparr>"

definition limits_invalid :: "create_request \<Rightarrow> bool" where
  "limits_invalid r \<longleftrightarrow>
     req_max_instances r = Some 0 \<or>
     (case req_max_instances r of None \<Rightarrow> False | Some l \<Rightarrow> l < req_warm_instances r)"

definition python_executor :: "string \<Rightarrow> bool" where
  "python_executor ex \<longleftrightarrow> starts_with ''python '' (to_ascii_lowercase ex)"

definition check_runtime_image :: "cluster \<Rightarrow> uuid \<Rightarrow> image response" where
  "check_runtime_image c i =
     (case hm_get (images c) i of
        None \<Rightarrow> Fail BAD_REQUEST ''unknown runtime image''
      | Some img \<Rightarrow>
        if image_kind img \<noteq> RuntimeImage \<or>
           (case image_executor img of None \<Rightarrow> True | Some ex \<Rightarrow> \<not> python_executor ex)
        then Fail BAD_REQUEST ''image does not provide the Python executor''
        else if \<not> image_ready c (image_id img)
        then Fail CONFLICT ''runtime image is still distributing''
        else Reply OK img)"

text \<open>\<open>r\<close> is the normalised request.\<close>

definition create_environment_checks :: "create_request \<Rightarrow> cluster \<Rightarrow> image response" where
  "create_environment_checks r c =
     (if req_name r = [] then Fail BAD_REQUEST ''environment name is required''
      else if limits_invalid r then Fail BAD_REQUEST ''invalid instance limits''
      else if list_ex (\<lambda>e. env_name e = req_name r) (hm_values (environments c))
      then Fail CONFLICT ''environment name already exists''
      else check_runtime_image c (req_image r))"

definition environment_key :: "(string \<Rightarrow> string) \<Rightarrow> string \<Rightarrow> string list \<Rightarrow> string" where
  "environment_key H sha packages =
     H (''v2'' @ sha @ concat (map (\<lambda>p. char_of (0 :: nat) # p) packages))"

text \<open>\<open>built\<close>: the refusal of the build, or hash and size of the artifact that is there afterwards.\<close>

definition prepare_environment_artifact ::
    "(string \<Rightarrow> string) \<Rightarrow> (status_code \<times> string) + (string \<times> u64) \<Rightarrow> image \<Rightarrow> string list \<Rightarrow>
     (string option \<times> string option \<times> u64) response" where
  "prepare_environment_artifact H built img packages =
     (if packages = [] then Reply OK (None, None, 0)
      else (case image_docker_source img of
          None \<Rightarrow> Fail BAD_REQUEST
            ''package environments require a Docker-imported runtime image''
        | Some src \<Rightarrow>
           (case built of
              Inl (reason, message) \<Rightarrow> Fail reason message
            | Inr (sha, sz) \<Rightarrow>
                Reply OK (Some (environment_key H (image_sha256 img) packages), Some sha, sz))))"

definition environment_of ::
    "uuid \<Rightarrow> create_request \<Rightarrow> uuid \<Rightarrow> string option \<times> string option \<times> u64 \<Rightarrow> string \<Rightarrow>
     environment" where
  "environment_of i r img = (\<lambda>(artifact, sha, sz) pname.
     \<lparr>env_id = i, env_name = req_name r, env_image = img, env_packages = req_packages r,
      env_preload = req_preload r, env_artifact = artifact, env_sha256 = sha, env_size = sz,
      env_pool = pname, env_warm_instances = req_warm_instances r,
      env_max_instances = req_max_instances r, env_cpu_millis = req_cpu_millis r,
      env_memory_mib = req_memory_mib r, env_disk_mib = req_disk_mib r,
      env_timeout_secs = req_timeout_secs r, env_idle_timeout_secs = req_idle_timeout_secs r,
      env_reuse = req_reuse r, env_network = req_network r\<rparr>)"

definition environment_pool :: "environment \<Rightarrow> pool" where
  "environment_pool e =
     \<lparr>pool_name = env_pool e, pool_image = env_image e, pool_warm_instances = env_warm_instances e,
      pool_max_instances = env_max_instances e, pool_cpu_millis = env_cpu_millis e,
      pool_memory_mib = env_memory_mib e, pool_disk_mib = env_disk_mib e,
      pool_timeout_secs = env_timeout_secs e, pool_idle_timeout_secs = env_idle_timeout_secs e,
      pool_reuse = env_reuse e, pool_network = env_network e, pool_ports = [],
      pool_managed_by = Some ''python-executor'', pool_environment = Some (env_id e),
      pool_environment_artifact = env_artifact e, pool_preload = env_preload e\<rparr>"

text \<open>\<open>fresh\<close> is the new identifier; the pool built in line equals \<open>environment_pool\<close>.\<close>

definition create_environment_commit ::
    "codec \<Rightarrow> (nat \<Rightarrow> bool) \<Rightarrow> uuid \<Rightarrow> create_request \<Rightarrow> uuid \<Rightarrow>
     string option \<times> string option \<times> u64 \<Rightarrow> app \<Rightarrow> (environment \<times> bool) response \<times> app" where
  "create_environment_commit cd io fresh r img art a =
     (let pname = ''environment-'' @ uuid_text cd fresh;
          e = environment_of fresh r img art pname;
          c = app_cluster a;
          c' = c\<lparr>pools := hm_insert pname (environment_pool e) (pools c),
                 environments := hm_insert fresh e (environments c)\<rparr>
      in save_then cd (io 0) (Reply CREATED (e, environment_ready c' e)) (with_cluster c' a))"

definition create_environment ::
    "codec \<Rightarrow> (string \<Rightarrow> string) \<Rightarrow> (nat \<Rightarrow> bool) \<Rightarrow> uuid \<Rightarrow> (status_code \<times> string) + (string \<times> u64) \<Rightarrow> create_request \<Rightarrow>
     app \<Rightarrow> (environment \<times> bool) response \<times> app" where
  "create_environment cd H io fresh built request a =
     (let r = normalize_request request in
      (case create_environment_checks r (app_cluster a) of
         Fail s m \<Rightarrow> (Fail s m, a) | Panic \<Rightarrow> (Panic, a)
       | Reply _ img \<Rightarrow>
      (case prepare_environment_artifact H built img (req_packages r) of
         Fail s m \<Rightarrow> (Fail s m, a) | Panic \<Rightarrow> (Panic, a)
       | Reply _ art \<Rightarrow> create_environment_commit cd io fresh r (image_id img) art a)))"

subsection \<open>Restarting the pool of an environment\<close>

definition movable :: "string \<Rightarrow> execution \<Rightarrow> bool" where
  "movable old e \<longleftrightarrow> exec_pool e = old \<and> (exec_status e = Queued \<or> exec_status e = Assigned)"

text \<open>One iteration of the loop; \<open>None\<close> when the indexing would panic.\<close>

definition requeue_in :: "string \<Rightarrow> uuid \<Rightarrow> cluster \<Rightarrow> cluster option" where
  "requeue_in pname eid c =
     (case hm_get (executions c) eid of
        None \<Rightarrow> None
      | Some e \<Rightarrow>
        let c1 = (if exec_status e = Assigned then release eid False c else c) in
        (case hm_get (executions c1) eid of
           None \<Rightarrow> None
         | Some e1 \<Rightarrow>
             Some (c1\<lparr>executions := hm_insert eid
               (e1\<lparr>exec_pool := pname, exec_node := None, exec_status := Queued,
                  exec_started_at_ms := None\<rparr>) (executions c1)\<rparr>)))"

fun requeue_all :: "string \<Rightarrow> uuid list \<Rightarrow> cluster \<Rightarrow> cluster option" where
  "requeue_all pname [] c = Some c"
| "requeue_all pname (eid # eids) c =
     (case requeue_in pname eid c of None \<Rightarrow> None | Some c' \<Rightarrow> requeue_all pname eids c')"

definition retire_pool :: "string \<Rightarrow> cluster \<Rightarrow> cluster option" where
  "retire_pool old c =
     (if list_ex (\<lambda>e. exec_pool e = old \<and> exec_status e = Running) (hm_values (executions c))
      then (case hm_get (pools c) old of
              None \<Rightarrow> None
            | Some p \<Rightarrow>
                Some (c\<lparr>pools := hm_insert old (p\<lparr>pool_warm_instances := 0\<rparr>) (pools c)\<rparr>))
      else Some (drop_pool old c))"

definition restart_environment_pool ::
    "codec \<Rightarrow> string \<Rightarrow> environment \<Rightarrow> cluster \<Rightarrow> (uuid list \<times> environment \<times> cluster) option" where
  "restart_environment_pool cd suffix e c =
     (let old = env_pool e;
          pname = ''environment-'' @ uuid_text cd (env_id e) @ ''-'' @ take 8 suffix;
          e' = e\<lparr>env_pool := pname\<rparr>;
          reassigned = map exec_id (filter (movable old) (hm_values (executions c)))
      in (case requeue_all pname reassigned c of
            None \<Rightarrow> None
          | Some c1 \<Rightarrow>
         (case retire_pool old c1 of
            None \<Rightarrow> None
          | Some c2 \<Rightarrow>
              Some (reassigned, e',
                c2\<lparr>pools := hm_insert pname (environment_pool e') (pools c2)\<rparr>))))"

text \<open>
  The common tail of update and restart: store the environment, schedule, save the cluster, save the
  reassigned and the scheduled executions.
\<close>

definition lookup_all :: "cluster \<Rightarrow> uuid list \<Rightarrow> execution list option" where
  "lookup_all c ids = collect_results (map (hm_get (executions c)) ids)"

definition finish_environment ::
    "codec \<Rightarrow> (nat \<Rightarrow> bool) \<Rightarrow> uuid list \<Rightarrow> environment \<Rightarrow> uuid \<Rightarrow> app \<Rightarrow>
     (environment \<times> bool) response \<times> app" where
  "finish_environment cd io reassigned e i a =
     (let c1 = (app_cluster a)\<lparr>environments := hm_insert i e (environments (app_cluster a))\<rparr> in
      (case schedule_queued c1 of
         None \<Rightarrow> (Panic, with_cluster c1 a)
       | Some (scheduled, c2) \<Rightarrow>
         let a2 = with_cluster c2 a in
         (case save cd (io 0) a2 of
            None \<Rightarrow> (internal_error, a2)
          | Some a3 \<Rightarrow>
         (case lookup_all c2 reassigned of
            None \<Rightarrow> (Panic, a3)
          | Some moved \<Rightarrow>
         (case app_save_executions cd (io 1) (moved @ scheduled) a3 of
            None \<Rightarrow> (internal_error, a3)
          | Some a4 \<Rightarrow> (Reply OK (e, environment_ready c2 e), a4))))))"

definition restart_environment ::
    "codec \<Rightarrow> (nat \<Rightarrow> bool) \<Rightarrow> string \<Rightarrow> uuid \<Rightarrow> app \<Rightarrow> (environment \<times> bool) response \<times> app" where
  "restart_environment cd io suffix i a =
     (case hm_get (environments (app_cluster a)) i of
        None \<Rightarrow> (Fail NOT_FOUND ''environment not found'', a)
      | Some e \<Rightarrow>
        (case restart_environment_pool cd suffix e (app_cluster a) of
           None \<Rightarrow> (Panic, a)
         | Some (reassigned, e', c') \<Rightarrow>
             finish_environment cd io reassigned e' i (with_cluster c' a)))"

subsection \<open>Updating and deleting\<close>

definition update_environment_checks ::
    "create_request \<Rightarrow> uuid \<Rightarrow> cluster \<Rightarrow> (environment \<times> image) response" where
  "update_environment_checks r i c =
     (if req_name r = [] then Fail BAD_REQUEST ''environment name is required''
      else if limits_invalid r then Fail BAD_REQUEST ''invalid instance limits''
      else (case hm_get (environments c) i of
          None \<Rightarrow> Fail NOT_FOUND ''environment not found''
        | Some old \<Rightarrow>
          if list_ex (\<lambda>e. env_id e \<noteq> i \<and> env_name e = req_name r) (hm_values (environments c))
          then Fail CONFLICT ''environment name already exists''
          else (case check_runtime_image c (req_image r) of
              Reply s img \<Rightarrow> Reply s (old, img) | Fail s m \<Rightarrow> Fail s m | Panic \<Rightarrow> Panic)))"

definition needs_rebuild :: "environment \<Rightarrow> uuid \<Rightarrow> create_request \<Rightarrow> bool" where
  "needs_rebuild old img r \<longleftrightarrow>
     env_image old \<noteq> img \<or> env_packages old \<noteq> req_packages r \<or> env_preload old \<noteq> req_preload r \<or>
     env_cpu_millis old \<noteq> req_cpu_millis r \<or> env_memory_mib old \<noteq> req_memory_mib r \<or>
     env_disk_mib old \<noteq> req_disk_mib r \<or> env_network old \<noteq> req_network r"

text \<open>The artifact: a new one when the image or the packages change, else the one there was.\<close>

definition update_artifact ::
    "(string \<Rightarrow> string) \<Rightarrow> (status_code \<times> string) + (string \<times> u64) \<Rightarrow> environment \<Rightarrow> image \<Rightarrow> create_request \<Rightarrow>
     (string option \<times> string option \<times> u64) response" where
  "update_artifact H built old img r =
     (if env_image old \<noteq> image_id img \<or> env_packages old \<noteq> req_packages r
      then prepare_environment_artifact H built img (req_packages r)
      else Reply OK (env_artifact old, env_sha256 old, env_size old))"

definition update_environment_commit ::
    "codec \<Rightarrow> (nat \<Rightarrow> bool) \<Rightarrow> string \<Rightarrow> uuid \<Rightarrow> environment \<Rightarrow> uuid \<Rightarrow> create_request \<Rightarrow>
     string option \<times> string option \<times> u64 \<Rightarrow> app \<Rightarrow> (environment \<times> bool) response \<times> app" where
  "update_environment_commit cd io suffix i old img r art a =
     (let e = environment_of i r img art (env_pool old); c = app_cluster a in
      if needs_rebuild old img r
      then (case restart_environment_pool cd suffix e c of
              None \<Rightarrow> (Panic, a)
            | Some (reassigned, e', c') \<Rightarrow>
                finish_environment cd io reassigned e' i (with_cluster c' a))
      else finish_environment cd io [] e i
             (with_cluster (c\<lparr>pools := hm_insert (env_pool e) (environment_pool e) (pools c)\<rparr>) a))"

definition update_environment ::
    "codec \<Rightarrow> (string \<Rightarrow> string) \<Rightarrow> (nat \<Rightarrow> bool) \<Rightarrow> string \<Rightarrow> (status_code \<times> string) + (string \<times> u64) \<Rightarrow> uuid \<Rightarrow>
     create_request \<Rightarrow> app \<Rightarrow> (environment \<times> bool) response \<times> app" where
  "update_environment cd H io suffix built i request a =
     (let r = normalize_request request in
      (case update_environment_checks r i (app_cluster a) of
         Fail s m \<Rightarrow> (Fail s m, a) | Panic \<Rightarrow> (Panic, a)
       | Reply _ (old, img) \<Rightarrow>
      (case update_artifact H built old img r of
         Fail s m \<Rightarrow> (Fail s m, a) | Panic \<Rightarrow> (Panic, a)
       | Reply _ art \<Rightarrow>
           update_environment_commit cd io suffix i old (image_id img) r art a)))"

definition delete_environment ::
    "codec \<Rightarrow> (nat \<Rightarrow> bool) \<Rightarrow> uuid \<Rightarrow> app \<Rightarrow> unit response \<times> app" where
  "delete_environment cd io i a =
     (let c = app_cluster a in
      if list_ex (\<lambda>e. exec_environment e = Some i \<and> unfinished e) (hm_values (executions c))
      then (Fail CONFLICT ''environment has active executions'', a)
      else
        (case hm_get (environments c) i of
           None \<Rightarrow> (Fail NOT_FOUND ''environment not found'', a)
         | Some e \<Rightarrow>
           let envs = hm_remove i (environments c);
               c1 = drop_pool (env_pool e) (c\<lparr>environments := envs\<rparr>);
               c2 = (case env_artifact e of
                   None \<Rightarrow> c1
                 | Some art \<Rightarrow>
                     if list_ex (\<lambda>o'. env_artifact o' = Some art) (hm_values envs) then c1
                     else c1\<lparr>nodes := hm_map_values
                       (\<lambda>n. n\<lparr>node_environments := node_environments n - {art}\<rparr>) (nodes c1)\<rparr>)
           in save_then cd (io 0) (Reply NO_CONTENT ()) (with_cluster c2 a)))"

definition list_environments :: "app \<Rightarrow> (environment \<times> bool) list" where
  "list_environments a =
     map (\<lambda>e. (e, environment_ready (app_cluster a) e)) (hm_values (environments (app_cluster a)))"

end
