(* ===== verification/Api_Executions.thy ===== *)
theory Api_Executions
  imports Api_Environments
begin

section \<open>Executions\<close>

text \<open>
  The handlers of \<open>platform/src/api.rs\<close> that create, hand out and complete executions, the queries
  on them, and the storage settings. \<open>seal\<close> and \<open>unseal\<close> are the cipher's \<open>encrypt\<close> and
  \<open>decrypt\<close> under the controller's key. A poll for work is one iteration of the loop in
  \<open>next_work\<close>: between iterations the handler waits for a notification without holding the lock.
\<close>

record create_execution_request =
  creq_pool :: "string option"
  creq_environment :: "string option"
  creq_payload :: json
  creq_variables :: "(string, string) hashmap"
  creq_secrets :: "(string, string) hashmap"
  creq_queue :: bool

definition check_working_dir :: "json \<Rightarrow> app \<Rightarrow> (status_code \<times> string) option" where
  "check_working_dir payload a =
     (case json_get ''working_dir'' payload of
        None \<Rightarrow> None
      | Some v \<Rightarrow>
     (case json_as_str v of
        None \<Rightarrow> Some (BAD_REQUEST, ''working directory hash must be a string'')
      | Some digest \<Rightarrow>
     (case working_dir_path digest of
        Fail s m \<Rightarrow> Some (s, m)
      | Panic \<Rightarrow> None
      | Reply _ p \<Rightarrow>
          if hm_get (app_working_dirs a) p \<noteq> None then None
          else Some (BAD_REQUEST, ''working directory was not uploaded''))))"

definition find_environment :: "codec \<Rightarrow> string \<Rightarrow> cluster \<Rightarrow> environment option" where
  "find_environment cd key c =
     (case Option.bind (uuid_parse cd key) (hm_get (environments c)) of
        Some e \<Rightarrow> Some e
      | None \<Rightarrow> List.find (\<lambda>e. env_name e = key) (hm_values (environments c)))"

definition python_encoding :: "json \<Rightarrow> bool" where
  "python_encoding payload \<longleftrightarrow>
     json_get_str ''encoding'' payload
       \<in> {Some ''cloudpickle'', Some ''python-function'', Some ''python-source''}"

text \<open>Where a request runs: the pool and the environment, or why it is refused.\<close>

definition resolve_target ::
    "codec \<Rightarrow> create_execution_request \<Rightarrow> cluster \<Rightarrow> (string \<times> uuid) response" where
  "resolve_target cd r c =
     (let env = Option.bind (creq_environment r) (\<lambda>key. find_environment cd key c) in
      if creq_environment r \<noteq> None \<and> env = None then Fail BAD_REQUEST ''unknown environment''
      else (case (case env of Some e \<Rightarrow> Some (env_pool e) | None \<Rightarrow> creq_pool r) of
          None \<Rightarrow> Fail BAD_REQUEST ''environment is required''
        | Some pname \<Rightarrow>
        (case hm_get (pools c) pname of
          None \<Rightarrow> Fail BAD_REQUEST ''unknown execution environment''
        | Some p \<Rightarrow>
        (case (case env of Some e \<Rightarrow> Some (env_id e) | None \<Rightarrow> pool_environment p) of
          None \<Rightarrow> Fail BAD_REQUEST ''VM pools cannot execute functions directly''
        | Some eid \<Rightarrow>
        (case hm_get (images c) (pool_image p) of
          None \<Rightarrow> Panic
        | Some img \<Rightarrow>
        (case image_executor img of
          None \<Rightarrow> Fail BAD_REQUEST ''pool image has no executor''
        | Some ex \<Rightarrow>
            if python_encoding (creq_payload r) \<and> \<not> python_executor ex
            then Fail BAD_REQUEST ''pool image does not have a Python executor''
            else Reply OK (pname, eid)))))))"

definition new_execution ::
    "uuid \<Rightarrow> u64 \<Rightarrow> create_execution_request \<Rightarrow> string \<Rightarrow> uuid \<Rightarrow> execution" where
  "new_execution i now r pname env =
     \<lparr>exec_id = i, exec_pool = pname, exec_node = None, exec_status = Queued,
      exec_payload = creq_payload r, exec_variables = creq_variables r, exec_result = None,
      exec_error = None, exec_created_at_ms = now, exec_started_at_ms = None,
      exec_finished_at_ms = None, exec_environment = Some env, exec_metrics = None\<rparr>"

definition db_insert ::
    "codec \<Rightarrow> bool \<Rightarrow> execution \<Rightarrow> bytes \<Rightarrow> app \<Rightarrow> (bool \<times> app) option" where
  "db_insert cd ok e secrets a =
     (if ok then map_option (\<lambda>(b, db). (b, a\<lparr>app_db := db\<rparr>)) (insert_execution cd e secrets (app_db a))
      else None)"

definition admit_execution ::
    "codec \<Rightarrow> (nat \<Rightarrow> bool) \<Rightarrow> bool \<Rightarrow> execution \<Rightarrow> app \<Rightarrow> execution_view response \<times> app" where
  "admit_execution cd io queue e a =
     (let i = exec_id e;
          c1 = (app_cluster a)\<lparr>executions := hm_insert i e (executions (app_cluster a))\<rparr>
      in (case schedule i c1 of
            None \<Rightarrow> (Panic, with_cluster c1 a)
          | Some (placed, c2) \<Rightarrow>
            if \<not> placed \<and> \<not> queue then
              let a2 = with_cluster (c2\<lparr>executions := hm_remove i (executions c2)\<rparr>) a in
              if io 1
              then (Fail SERVICE_UNAVAILABLE ''cluster is full'',
                    a2\<lparr>app_db := delete_execution cd i (app_db a2)\<rparr>)
              else (internal_error, a2)
            else
              (case hm_get (executions c2) i of
                 None \<Rightarrow> (Panic, with_cluster c2 a)
               | Some e2 \<Rightarrow>
                 (case app_save_executions cd (io 2) [e2] (with_cluster c2 a) of
                    None \<Rightarrow> (internal_error, with_cluster c2 a)
                  | Some a3 \<Rightarrow> (Reply ACCEPTED (view_of_execution e2), a3)))))"

definition create_execution ::
    "codec \<Rightarrow> (uuid \<Rightarrow> (string, string) hashmap \<Rightarrow> bytes option) \<Rightarrow> (nat \<Rightarrow> bool) \<Rightarrow> u64 \<Rightarrow> uuid \<Rightarrow>
     create_execution_request \<Rightarrow> app \<Rightarrow> execution_view response \<times> app" where
  "create_execution cd seal io now fresh r a =
     (case check_working_dir (creq_payload r) a of
        Some (s, m) \<Rightarrow> (Fail s m, a)
      | None \<Rightarrow>
     (case resolve_target cd r (app_cluster a) of
        Fail s m \<Rightarrow> (Fail s m, a)
      | Panic \<Rightarrow> (Panic, a)
      | Reply _ (pname, env) \<Rightarrow>
        let e = new_execution fresh now r pname env in
        (case seal fresh (creq_secrets r) of
           None \<Rightarrow> (internal_error, a)
         | Some secrets \<Rightarrow>
        (case db_insert cd (io 0) e secrets a of
           None \<Rightarrow> (internal_error, a)
         | Some (False, a1) \<Rightarrow>
             (Fail INSUFFICIENT_STORAGE ''controller execution storage is full'', a1)
         | Some (True, a1) \<Rightarrow> admit_execution cd io (creq_queue r) e a1))))"

subsection \<open>Handing out work\<close>

definition waiting_for :: "uuid \<Rightarrow> execution \<Rightarrow> bool" where
  "waiting_for nid e \<longleftrightarrow> exec_node e = Some nid \<and> exec_status e = Assigned"

definition start_execution :: "u64 \<Rightarrow> execution \<Rightarrow> execution" where
  "start_execution now e = e\<lparr>exec_status := Running, exec_started_at_ms := Some now\<rparr>"

text \<open>A look for work under the lock, and what follows when there is some.\<close>

definition look_for_work ::
    "codec \<Rightarrow> (uuid \<Rightarrow> bytes \<Rightarrow> (string, string) hashmap option) \<Rightarrow> (nat \<Rightarrow> bool) \<Rightarrow> u64 \<Rightarrow> uuid \<Rightarrow> app \<Rightarrow>
     work option response \<times> app" where
  "look_for_work cd unseal io now nid a =
     (let c = app_cluster a in
      if hm_get (nodes c) nid = None then (Fail NOT_FOUND ''node not found'', a)
      else (case List.find (\<lambda>(_, e). waiting_for nid e) (executions c) of
          None \<Rightarrow> (Reply OK None, a)
        | Some (key, e) \<Rightarrow>
          let e1 = start_execution now e;
              a1 = with_cluster (c\<lparr>executions := hm_insert key e1 (executions c)\<rparr>) a
          in (case hm_get (pools c) (exec_pool e) of
                None \<Rightarrow> (Panic, a1)
              | Some p \<Rightarrow>
             (case app_save_executions cd (io 0) [e1] a1 of
                None \<Rightarrow> (internal_error, a1)
              | Some a2 \<Rightarrow>
                if \<not> io 1 then (internal_error, a2)
                else
                  let encrypted = (case execution_secrets cd (exec_id e1) (app_db a2) of
                                     Some s \<Rightarrow> s | None \<Rightarrow> [])
                  in (case unseal (exec_id e1) encrypted of
                        None \<Rightarrow> (internal_error, a2)
                      | Some secrets \<Rightarrow>
                          (Reply OK (Some \<lparr>work_execution = e1, work_pool = p,
                             work_secrets = secrets\<rparr>), a2))))))"

text \<open>A request that does not wait: the loop of \<open>next_work\<close> with \<open>wait_ms\<close> zero.\<close>

definition poll_work ::
    "codec \<Rightarrow> (string \<Rightarrow> string) \<Rightarrow> (uuid \<Rightarrow> bytes \<Rightarrow> (string, string) hashmap option) \<Rightarrow>
     (nat \<Rightarrow> bool) \<Rightarrow> u64 \<Rightarrow> string option \<Rightarrow> uuid \<Rightarrow> app \<Rightarrow> work option response \<times> app" where
  "poll_work cd H unseal io now auth nid = as_this_node H auth nid (look_for_work cd unseal io now nid)"

subsection \<open>Completing\<close>

record complete_request =
  done_result :: "json option"
  done_error :: "string option"
  done_timed_out :: "bool option"
  done_metrics :: "execution_metrics option"
  done_keep_idle :: bool

definition completed :: "complete_request \<Rightarrow> u64 \<Rightarrow> execution \<Rightarrow> execution" where
  "completed r now e =
     e\<lparr>exec_status :=
         (if done_timed_out r = Some True then TimedOut
          else if done_error r \<noteq> None then Failed else Succeeded),
       exec_result := done_result r, exec_error := done_error r, exec_metrics := done_metrics r,
       exec_finished_at_ms := Some now\<rparr>"

definition stale_pool :: "string \<Rightarrow> cluster \<Rightarrow> bool" where
  "stale_pool pname c \<longleftrightarrow>
     \<not> list_ex (\<lambda>env. env_pool env = pname) (hm_values (environments c)) \<and>
     \<not> list_ex (\<lambda>e. exec_pool e = pname \<and> unfinished e) (hm_values (executions c))"

text \<open>What happens to the cluster: finish, release, retire a stale pool, schedule, forget.\<close>

definition finish_in_cluster ::
    "complete_request \<Rightarrow> u64 \<Rightarrow> uuid \<Rightarrow> execution \<Rightarrow> cluster \<Rightarrow>
     (execution list \<times> execution \<times> cluster) option" where
  "finish_in_cluster r now i e c =
     (let c1 = c\<lparr>executions := hm_insert i (completed r now e) (executions c)\<rparr>;
          c2 = release i (done_keep_idle r) c1;
          c3 = (if stale_pool (exec_pool e) c2 then drop_pool (exec_pool e) c2 else c2)
      in (case schedule_queued c3 of
            None \<Rightarrow> None
          | Some (scheduled, c4) \<Rightarrow>
         (case hm_get (executions c4) i of
            None \<Rightarrow> None
          | Some e' \<Rightarrow>
              Some (scheduled, e', c4\<lparr>executions := hm_remove i (executions c4)\<rparr>))))"

definition complete_execution ::
    "codec \<Rightarrow> (string \<Rightarrow> string) \<Rightarrow> (nat \<Rightarrow> bool) \<Rightarrow> u64 \<Rightarrow> string option \<Rightarrow> uuid \<Rightarrow> complete_request \<Rightarrow>
     app \<Rightarrow> unit response \<times> app" where
  "complete_execution cd H io now auth i r =
     as_node H auth (\<lambda>nid a.
       case hm_get (executions (app_cluster a)) i of
         None \<Rightarrow> (Fail NOT_FOUND ''execution not found'', a)
       | Some e \<Rightarrow>
         if exec_node e \<noteq> Some nid
         then (Fail FORBIDDEN ''execution belongs to another node'', a)
         else
         (case finish_in_cluster r now i e (app_cluster a) of
            None \<Rightarrow> (Panic, a)
          | Some (scheduled, e', c') \<Rightarrow>
            let a1 = with_cluster c' a in
            (case save cd (io 0) a1 of
               None \<Rightarrow> (internal_error, a1)
             | Some a2 \<Rightarrow>
            (case app_save_executions cd (io 1) scheduled a2 of
               None \<Rightarrow> (internal_error, a2)
             | Some a3 \<Rightarrow>
            (case (if io 2 then db_complete_execution cd e' (app_db a3) else None) of
               None \<Rightarrow> (internal_error, a3)
             | Some (saved, db) \<Rightarrow> (Reply NO_CONTENT (), a3\<lparr>app_db := db\<rparr>))))))"

subsection \<open>Queries\<close>

definition finished_status :: "execution_status \<Rightarrow> bool" where
  "finished_status s \<longleftrightarrow> s = Succeeded \<or> s = Failed \<or> s = TimedOut"

definition load_execution :: "codec \<Rightarrow> bool \<Rightarrow> uuid \<Rightarrow> app \<Rightarrow> execution response" where
  "load_execution cd ok i a =
     (case (if ok then db_execution cd i (app_db a) else None) of
        None \<Rightarrow> internal_error
      | Some None \<Rightarrow> Fail NOT_FOUND ''execution not found''
      | Some (Some e) \<Rightarrow> Reply OK e)"

definition get_execution :: "codec \<Rightarrow> bool \<Rightarrow> uuid \<Rightarrow> app \<Rightarrow> execution_view response" where
  "get_execution cd ok i a =
     (case load_execution cd ok i a of
        Reply s e \<Rightarrow> Reply s (view_of_execution e) | Fail s m \<Rightarrow> Fail s m | Panic \<Rightarrow> Panic)"

definition get_execution_payload :: "codec \<Rightarrow> bool \<Rightarrow> uuid \<Rightarrow> app \<Rightarrow> json response" where
  "get_execution_payload cd ok i a =
     (case load_execution cd ok i a of
        Reply s e \<Rightarrow> Reply s (exec_payload e) | Fail s m \<Rightarrow> Fail s m | Panic \<Rightarrow> Panic)"

record execution_result =
  result_status :: execution_status
  result_value :: "json option"
  result_error :: "string option"

definition get_execution_result :: "codec \<Rightarrow> bool \<Rightarrow> uuid \<Rightarrow> app \<Rightarrow> execution_result response" where
  "get_execution_result cd ok i a =
     (case load_execution cd ok i a of
        Fail s m \<Rightarrow> Fail s m | Panic \<Rightarrow> Panic
      | Reply _ e \<Rightarrow>
          if \<not> finished_status (exec_status e) then Fail CONFLICT ''execution is not finished''
          else Reply OK \<lparr>result_status = exec_status e,
                 result_value = Option.bind (exec_result e) (json_get ''value''),
                 result_error = exec_error e\<rparr>)"

definition get_execution_logs :: "codec \<Rightarrow> bool \<Rightarrow> uuid \<Rightarrow> app \<Rightarrow> (string \<times> string) response" where
  "get_execution_logs cd ok i a =
     (case load_execution cd ok i a of
        Fail s m \<Rightarrow> Fail s m | Panic \<Rightarrow> Panic
      | Reply _ e \<Rightarrow>
          let field = (\<lambda>k. case Option.bind (exec_result e) (json_get_str k) of
                Some s \<Rightarrow> s | None \<Rightarrow> [])
          in Reply OK (field ''stdout'', field ''stderr''))"

definition api_list_executions ::
    "codec \<Rightarrow> bool \<Rightarrow> usize option \<Rightarrow> app \<Rightarrow> execution_view list response" where
  "api_list_executions cd ok limit a =
     (case (if ok then list_executions cd limit (app_db a) else None) of
        None \<Rightarrow> internal_error | Some vs \<Rightarrow> Reply OK vs)"

subsection \<open>Storage settings\<close>

definition update_storage_settings ::
    "codec \<Rightarrow> (nat \<Rightarrow> bool) \<Rightarrow> u64 \<Rightarrow> storage_settings \<Rightarrow> app \<Rightarrow> storage_view response \<times> app" where
  "update_storage_settings cd io now s a =
     (if \<not> (1 \<le> settings_retention_hours s \<and> settings_retention_hours s \<le> 24) \<or>
         settings_max_storage_bytes s = 0
      then (Fail BAD_REQUEST
        ''retention must be 1-24 hours and storage limit must be greater than zero'', a)
      else (case (if io 0 then update_settings s (app_db a) else None) of
          None \<Rightarrow> (internal_error, a)
        | Some db1 \<Rightarrow>
        (case (if io 1 then prune cd now None db1 else None) of
          None \<Rightarrow> (internal_error, a\<lparr>app_db := db1\<rparr>)
        | Some db2 \<Rightarrow>
            (if io 2 then Reply OK (settings db2) else internal_error, a\<lparr>app_db := db2\<rparr>))))"

subsection \<open>Starting the controller\<close>

text \<open>
  \<open>migrate_legacy\<close> gives every unmanaged pool of an executor image an environment of its own;
  \<open>fresh\<close> supplies one identifier per pool.
\<close>

definition legacy_pool :: "cluster \<Rightarrow> pool \<Rightarrow> bool" where
  "legacy_pool c p \<longleftrightarrow> pool_managed_by p = None \<and>
     (case hm_get (images c) (pool_image p) of None \<Rightarrow> False | Some img \<Rightarrow> image_executor img \<noteq> None)"

definition legacy_environment :: "uuid \<Rightarrow> pool \<Rightarrow> environment" where
  "legacy_environment i p =
     \<lparr>env_id = i, env_name = pool_name p, env_image = pool_image p, env_packages = [],
      env_preload = [], env_artifact = None, env_sha256 = None, env_size = 0,
      env_pool = pool_name p, env_warm_instances = pool_warm_instances p,
      env_max_instances = pool_max_instances p, env_cpu_millis = pool_cpu_millis p,
      env_memory_mib = pool_memory_mib p, env_disk_mib = pool_disk_mib p,
      env_timeout_secs = pool_timeout_secs p, env_idle_timeout_secs = pool_idle_timeout_secs p,
      env_reuse = pool_reuse p, env_network = pool_network p\<rparr>"

definition migrate_one :: "uuid \<times> pool \<Rightarrow> cluster \<Rightarrow> cluster" where
  "migrate_one = (\<lambda>(i, old) c.
     c\<lparr>pools := (case hm_get (pools c) (pool_name old) of
          None \<Rightarrow> pools c
        | Some p \<Rightarrow> hm_insert (pool_name old)
            (p\<lparr>pool_managed_by := Some ''python-executor'', pool_environment := Some i\<rparr>) (pools c)),
       executions := hm_map_values
         (\<lambda>e. if exec_pool e = pool_name old then e\<lparr>exec_environment := Some i\<rparr> else e)
         (executions c),
       environments := hm_insert i (legacy_environment i old) (environments c)\<rparr>)"

definition migrate_legacy :: "uuid list \<Rightarrow> cluster \<Rightarrow> cluster" where
  "migrate_legacy fresh c =
     fold migrate_one (zip fresh (filter (legacy_pool c) (hm_values (pools c)))) c"

text \<open>The state \<open>serve\<close> starts with, \<open>None\<close> when the database cannot be read.\<close>

definition boot :: "codec \<Rightarrow> uuid list \<Rightarrow> u64 \<Rightarrow> (string, string) hashmap \<Rightarrow> database \<Rightarrow> app option" where
  "boot cd fresh now dirs db =
     (case load_cluster cd db of
        None \<Rightarrow> None
      | Some stored \<Rightarrow>
        let c = migrate_legacy fresh (case stored of Some c \<Rightarrow> c | None \<Rightarrow> empty_cluster) in
        (case load_active_executions cd db of
           (None, _) \<Rightarrow> None
         | (Some es, db1) \<Rightarrow>
           let c1 = c\<lparr>executions := fold (\<lambda>e. hm_insert (exec_id e) e) es (executions c)\<rparr>;
               db2 = save_cluster cd c1 db1
           in map_option (\<lambda>db3.
                \<lparr>app_cluster = c1, app_db = db3, app_working_dirs = dirs\<rparr>) (prune cd now None db2)))"

end
