(* ===== verification/Api_Nodes.thy ===== *)
theory Api_Nodes
  imports Api_Base
begin

section \<open>Joining and nodes\<close>

text \<open>
  The handlers of \<open>platform/src/api.rs\<close> for join tokens, enrolment and nodes. \<open>fresh\<close> stands for
  \<open>Uuid::new_v4()\<close>, \<open>token\<close> and \<open>credential\<close> for \<open>secret()\<close>, \<open>now\<close> for \<open>now_ms()\<close>.
\<close>

subsection \<open>Join tokens\<close>

record join_token_view =
  jview_id :: uuid
  jview_token :: "string option"
  jview_expires_at_ms :: u64
  jview_status :: string

definition create_join_token ::
    "codec \<Rightarrow> (string \<Rightarrow> string) \<Rightarrow> (nat \<Rightarrow> bool) \<Rightarrow> u64 \<Rightarrow> uuid \<Rightarrow> string \<Rightarrow> app \<Rightarrow>
     join_token_view response \<times> app" where
  "create_join_token cd H io now fresh token a =
     (let c = app_cluster a;
          join = \<lparr>token_id = fresh, token_hash = H token,
                  token_expires_at_ms = now + JOIN_TOKEN_TTL_MS, token_used_at_ms = None\<rparr>;
          view = \<lparr>jview_id = fresh, jview_token = Some token,
                  jview_expires_at_ms = token_expires_at_ms join, jview_status = ''pending''\<rparr>;
          kept = hm_retain (\<lambda>t. now \<le> token_expires_at_ms t + 86400000) (join_tokens c)
      in save_then cd (io 0) (Reply OK view)
           (with_cluster (c\<lparr>join_tokens := hm_insert fresh join kept\<rparr>) a))"

definition join_token_status :: "u64 \<Rightarrow> join_token \<Rightarrow> string" where
  "join_token_status now t =
     (if token_used_at_ms t \<noteq> None then ''used''
      else if token_expires_at_ms t \<le> now then ''expired'' else ''pending'')"

definition get_join_token :: "u64 \<Rightarrow> uuid \<Rightarrow> app \<Rightarrow> join_token_view response" where
  "get_join_token now i a =
     (case hm_get (join_tokens (app_cluster a)) i of
        None \<Rightarrow> Fail NOT_FOUND ''join token not found''
      | Some t \<Rightarrow>
          Reply OK \<lparr>jview_id = i, jview_token = None,
            jview_expires_at_ms = token_expires_at_ms t, jview_status = join_token_status now t\<rparr>)"

record join_credentials =
  cred_node_id :: uuid
  cred_credential :: string

definition token_valid :: "(string \<Rightarrow> string) \<Rightarrow> u64 \<Rightarrow> string \<Rightarrow> join_token \<Rightarrow> bool" where
  "token_valid H now token t \<longleftrightarrow>
     token_used_at_ms t = None \<and> now < token_expires_at_ms t \<and> same_hash (token_hash t) (H token)"

definition join_cluster ::
    "codec \<Rightarrow> (string \<Rightarrow> string) \<Rightarrow> (nat \<Rightarrow> bool) \<Rightarrow> u64 \<Rightarrow> uuid \<Rightarrow> string \<Rightarrow> string \<Rightarrow> app \<Rightarrow>
     join_credentials response \<times> app" where
  "join_cluster cd H io now fresh credential token a =
     (let c = app_cluster a in
      (case List.find (token_valid H now token) (hm_values (join_tokens c)) of
         None \<Rightarrow> (Fail UNAUTHORIZED ''invalid or expired join token'', a)
       | Some found \<Rightarrow>
      (case hm_get (join_tokens c) (token_id found) of
         None \<Rightarrow> (Panic, a)
       | Some t \<Rightarrow>
           save_then cd (io 0)
             (Reply OK \<lparr>cred_node_id = fresh, cred_credential = credential\<rparr>)
             (with_cluster
               (c\<lparr>join_tokens := hm_insert (token_id found) (t\<lparr>token_used_at_ms := Some now\<rparr>)
                    (join_tokens c),
                  node_credentials := hm_insert fresh (H credential) (node_credentials c)\<rparr>) a))))"

definition local_join ::
    "codec \<Rightarrow> (string \<Rightarrow> string) \<Rightarrow> (nat \<Rightarrow> bool) \<Rightarrow> bool \<Rightarrow> uuid \<Rightarrow> string \<Rightarrow> uuid option \<Rightarrow> app \<Rightarrow>
     join_credentials response \<times> app" where
  "local_join cd H io loopback fresh credential requested a =
     (if \<not> loopback then (Fail FORBIDDEN ''local enrollment only'', a)
      else
        let nid = (case requested of Some i \<Rightarrow> i | None \<Rightarrow> fresh); c = app_cluster a
        in save_then cd (io 0) (Reply OK \<lparr>cred_node_id = nid, cred_credential = credential\<rparr>)
             (with_cluster
               (c\<lparr>node_credentials := hm_insert nid (H credential) (node_credentials c)\<rparr>) a))"

subsection \<open>Nodes as the administrator sees them\<close>

definition update_node ::
    "codec \<Rightarrow> (nat \<Rightarrow> bool) \<Rightarrow> uuid \<Rightarrow> usize \<Rightarrow> app \<Rightarrow> node response \<times> app" where
  "update_node cd io i concurrency a =
     (if concurrency = 0
      then (Fail BAD_REQUEST ''VM start concurrency must be at least 1'', a)
      else
        let c = app_cluster a in
        (case hm_get (nodes c) i of
           None \<Rightarrow> (Fail NOT_FOUND ''node not found'', a)
         | Some n \<Rightarrow>
           let n' = n\<lparr>node_vm_start_concurrency := Some concurrency\<rparr>
           in save_then cd (io 0) (Reply OK n')
                (with_cluster (c\<lparr>nodes := hm_insert i n' (nodes c)\<rparr>) a)))"

definition delete_node ::
    "codec \<Rightarrow> (nat \<Rightarrow> bool) \<Rightarrow> uuid \<Rightarrow> app \<Rightarrow> unit response \<times> app" where
  "delete_node cd io i a =
     (let c = app_cluster a in
      if list_ex (\<lambda>e. exec_node e = Some i \<and> active_status (exec_status e))
           (hm_values (executions c))
      then (Fail CONFLICT ''node has active executions'', a)
      else
        let c1 = c\<lparr>nodes := hm_remove i (nodes c)\<rparr> in
        if hm_get (nodes c) i = None \<and> hm_get (node_credentials c) i = None
        then (Fail NOT_FOUND ''node not found'', with_cluster c1 a)
        else schedule_and_save cd io (\<lambda>_. Reply NO_CONTENT ())
               (with_cluster (c1\<lparr>node_credentials := hm_remove i (node_credentials c)\<rparr>) a))"

record vm_view =
  vview_vm :: micro_vm
  vview_node :: uuid
  vview_node_name :: string
  vview_node_address :: "ip_addr option"
  vview_last_seen_ms :: u64

definition list_vms :: "u64 \<Rightarrow> app \<Rightarrow> vm_view list" where
  "list_vms now a =
     concat (map (\<lambda>n. map (\<lambda>v.
         \<lparr>vview_vm = v, vview_node = node_id n, vview_node_name = node_name n,
          vview_node_address = node_address n, vview_last_seen_ms = node_last_seen_ms n\<rparr>) (node_vms n))
       (filter (\<lambda>n. saturating_sub now 10000 \<le> node_last_seen_ms n)
         (hm_values (nodes (app_cluster a)))))"

subsection \<open>Reports of a node\<close>

record register_request =
  reg_id :: "uuid option"
  reg_name :: string
  reg_cpu_millis :: u32
  reg_memory_mib :: u32
  reg_vm_start_concurrency :: "usize option"
  reg_address :: "ip_addr option"
  reg_reset_idle :: bool
  reg_vms :: "micro_vm list"

definition new_node :: "uuid \<Rightarrow> register_request \<Rightarrow> u64 \<Rightarrow> node" where
  "new_node i r now =
     \<lparr>node_id = i, node_name = reg_name r, node_cpu_millis = reg_cpu_millis r,
      node_memory_mib = reg_memory_mib r, node_vm_start_concurrency = None,
      node_address = reg_address r, node_used_cpu_millis = 0, node_used_memory_mib = 0,
      node_images = {}, node_environments = {}, node_idle_instances = [], node_vms = [],
      node_status = Syncing, node_last_seen_ms = now\<rparr>"

definition report_node :: "register_request \<Rightarrow> u64 \<Rightarrow> node \<Rightarrow> node" where
  "report_node r now n =
     n\<lparr>node_name := reg_name r, node_cpu_millis := reg_cpu_millis r,
       node_memory_mib := reg_memory_mib r,
       node_vm_start_concurrency :=
         (case node_vm_start_concurrency n of
            None \<Rightarrow> map_option (\<lambda>v. max v 1) (reg_vm_start_concurrency r)
          | Some v \<Rightarrow> Some v),
       node_address := reg_address r, node_last_seen_ms := now, node_vms := reg_vms r\<rparr>"

definition register_node ::
    "codec \<Rightarrow> (string \<Rightarrow> string) \<Rightarrow> (nat \<Rightarrow> bool) \<Rightarrow> u64 \<Rightarrow> string option \<Rightarrow> register_request \<Rightarrow> app \<Rightarrow>
     node response \<times> app" where
  "register_node cd H io now auth r =
     as_node H auth (\<lambda>nid a.
       if reg_id r \<noteq> Some nid then (Fail FORBIDDEN ''node identity mismatch'', a)
       else
         let c = app_cluster a;
             n = (case hm_get (nodes c) nid of Some n \<Rightarrow> n | None \<Rightarrow> new_node nid r now);
             c1 = c\<lparr>nodes := hm_insert nid (report_node r now n) (nodes c)\<rparr>;
             c2 = (if reg_reset_idle r then reset_idle_instances nid c1 else c1);
             c3 = refresh_node nid c2
         in schedule_and_save cd io
              (\<lambda>a'. case hm_get (nodes (app_cluster a')) nid of
                 Some n' \<Rightarrow> Reply OK n' | None \<Rightarrow> Panic)
              (with_cluster c3 a))"

definition report_image_ready ::
    "codec \<Rightarrow> (string \<Rightarrow> string) \<Rightarrow> (nat \<Rightarrow> bool) \<Rightarrow> string option \<Rightarrow> uuid \<Rightarrow> uuid \<Rightarrow> app \<Rightarrow>
     unit response \<times> app" where
  "report_image_ready cd H io auth i img =
     as_this_node H auth i (\<lambda>a.
       let c = app_cluster a in
       if hm_get (images c) img = None then (Fail NOT_FOUND ''image not found'', a)
       else (case hm_get (nodes c) i of
           None \<Rightarrow> (Fail NOT_FOUND ''node not found'', a)
         | Some n \<Rightarrow>
             schedule_and_save cd io (\<lambda>_. Reply NO_CONTENT ())
               (with_cluster (refresh_node i
                 (c\<lparr>nodes := hm_insert i (n\<lparr>node_images := insert img (node_images n)\<rparr>)
                    (nodes c)\<rparr>)) a)))"

definition report_environment_ready ::
    "codec \<Rightarrow> (string \<Rightarrow> string) \<Rightarrow> (nat \<Rightarrow> bool) \<Rightarrow> string option \<Rightarrow> uuid \<Rightarrow> string \<Rightarrow> app \<Rightarrow>
     unit response \<times> app" where
  "report_environment_ready cd H io auth i artifact =
     as_this_node H auth i (\<lambda>a.
       let c = app_cluster a in
       if \<not> list_ex (\<lambda>e. env_artifact e = Some artifact) (hm_values (environments c))
       then (Fail NOT_FOUND ''environment not found'', a)
       else (case hm_get (nodes c) i of
           None \<Rightarrow> (Fail NOT_FOUND ''node not found'', a)
         | Some n \<Rightarrow>
             schedule_and_save cd io (\<lambda>_. Reply NO_CONTENT ())
               (with_cluster
                 (c\<lparr>nodes := hm_insert i
                    (n\<lparr>node_environments := insert artifact (node_environments n)\<rparr>) (nodes c)\<rparr>) a)))"

definition api_warm_instance_needed ::
    "(string \<Rightarrow> string) \<Rightarrow> string option \<Rightarrow> uuid \<Rightarrow> string \<Rightarrow> app \<Rightarrow> bool response \<times> app" where
  "api_warm_instance_needed H auth i name =
     as_this_node H auth i (\<lambda>a. (Reply OK (warm_instance_needed i name (app_cluster a)), a))"

definition api_add_warm_instance ::
    "codec \<Rightarrow> (string \<Rightarrow> string) \<Rightarrow> (nat \<Rightarrow> bool) \<Rightarrow> string option \<Rightarrow> uuid \<Rightarrow> string \<Rightarrow> app \<Rightarrow>
     bool response \<times> app" where
  "api_add_warm_instance cd H io auth i name =
     as_this_node H auth i (\<lambda>a.
       case add_warm_instance i name (app_cluster a) of
         (False, c) \<Rightarrow> (Reply OK False, with_cluster c a)
       | (True, c) \<Rightarrow> schedule_and_save cd io (\<lambda>_. Reply OK True) (with_cluster c a))"

definition api_remove_idle_instance ::
    "codec \<Rightarrow> (string \<Rightarrow> string) \<Rightarrow> (nat \<Rightarrow> bool) \<Rightarrow> string option \<Rightarrow> uuid \<Rightarrow> string \<Rightarrow> app \<Rightarrow>
     bool response \<times> app" where
  "api_remove_idle_instance cd H io auth i name =
     as_this_node H auth i (\<lambda>a.
       case remove_idle_instance i name (app_cluster a) of
         (False, c) \<Rightarrow> (Reply OK False, with_cluster c a)
       | (True, c) \<Rightarrow> schedule_and_save cd io (\<lambda>_. Reply OK True) (with_cluster c a))"

end
