(* ===== verification/Api_Invariant.thy ===== *)
theory Api_Invariant
  imports Api_Executions Api_Nodes Release_Facts
begin

section \<open>The invariant of the controller\<close>

text \<open>
  What every handler relies on when it looks a value up by an identifier read from another: the
  executions in memory are unfinished, an execution is queued exactly while it has no node, the
  pool and the node of an assigned or running one exist, and pools belong to at most one
  environment, whose executions they run.
\<close>

definition link_ok :: "cluster \<Rightarrow> execution \<Rightarrow> bool" where
  "link_ok c e \<longleftrightarrow>
     (exec_status e = Queued \<longrightarrow> exec_node e = None) \<and>
     (active_status (exec_status e) \<longrightarrow>
        hm_get (pools c) (exec_pool e) \<noteq> None \<and>
        (\<exists>nid. exec_node e = Some nid \<and> hm_get (nodes c) nid \<noteq> None))"

definition links :: "cluster \<Rightarrow> bool" where
  "links c \<longleftrightarrow> (\<forall>i e. hm_get (executions c) i = Some e \<longrightarrow> link_ok c e)"

definition all_unfinished :: "cluster \<Rightarrow> bool" where
  "all_unfinished c \<longleftrightarrow> (\<forall>i e. hm_get (executions c) i = Some e \<longrightarrow> unfinished e)"

definition env_ok :: "cluster \<Rightarrow> uuid \<Rightarrow> environment \<Rightarrow> bool" where
  "env_ok c i env \<longleftrightarrow>
     (\<forall>j env'. hm_get (environments c) j = Some env' \<longrightarrow> env_pool env' = env_pool env \<longrightarrow> j = i) \<and>
     (\<forall>k e. hm_get (executions c) k = Some e \<longrightarrow> exec_pool e = env_pool env \<longrightarrow>
        exec_environment e = Some i) \<and>
     (\<forall>p. hm_get (pools c) (env_pool env) = Some p \<longrightarrow> pool_environment p \<in> {None, Some i})"

definition envs_ok :: "cluster \<Rightarrow> bool" where
  "envs_ok c \<longleftrightarrow> (\<forall>i env. hm_get (environments c) i = Some env \<longrightarrow> env_ok c i env)"

definition ctl_inv :: "cluster \<Rightarrow> bool" where
  "ctl_inv c \<longleftrightarrow> cluster_wf c \<and> links c \<and> all_unfinished c \<and> envs_ok c"

subsection \<open>Comparing clusters\<close>

text \<open>Every entry of the later map was there before with the same value of \<open>f\<close>.\<close>

definition comes_from :: "('v \<Rightarrow> 'a) \<Rightarrow> ('k, 'v) hashmap \<Rightarrow> ('k, 'v) hashmap \<Rightarrow> bool" where
  "comes_from f m m' \<longleftrightarrow>
     (\<forall>k x. hm_get m' k = Some x \<longrightarrow> (\<exists>y. hm_get m k = Some y \<and> f y = f x))"

lemma comes_from_refl [simp]: "comes_from f m m"
  by (simp add: comes_from_def)

lemma comes_from_trans: "comes_from f a b \<Longrightarrow> comes_from f b c \<Longrightarrow> comes_from f a c"
  unfolding comes_from_def by metis

lemma comes_fromD:
  "comes_from f m m' \<Longrightarrow> hm_get m' k = Some x \<Longrightarrow> \<exists>y. hm_get m k = Some y \<and> f y = f x"
  by (simp add: comes_from_def)

lemma comes_from_insert:
  "hm_get m k = Some y \<Longrightarrow> f y = f x \<Longrightarrow> comes_from f m (hm_insert k x m)"
  by (simp add: comes_from_def)

lemma comes_from_remove: "comes_from f m (hm_remove k m)"
  by (simp add: comes_from_def)

text \<open>Everything the environment part looks at came from \<open>c\<close>.\<close>

definition owner :: "execution \<Rightarrow> string \<times> uuid option" where
  "owner e = (exec_pool e, exec_environment e)"

definition from_env :: "cluster \<Rightarrow> cluster \<Rightarrow> bool" where
  "from_env c c' \<longleftrightarrow> comes_from env_pool (environments c) (environments c') \<and>
     comes_from owner (executions c) (executions c') \<and>
     comes_from pool_environment (pools c) (pools c')"

lemma from_env_refl [simp]: "from_env c c"
  by (simp add: from_env_def)

lemma from_env_trans [trans]: "from_env a b \<Longrightarrow> from_env b c \<Longrightarrow> from_env a c"
  unfolding from_env_def by (blast intro: comes_from_trans)

lemma envs_ok_from:
  assumes ok: "envs_ok c" and f: "from_env c c'"
  shows "envs_ok c'"
  unfolding envs_ok_def
proof (intro allI impI)
  fix i env
  assume new: "hm_get (environments c') i = Some env"
  have fs: "comes_from env_pool (environments c) (environments c')"
      "comes_from owner (executions c) (executions c')"
      "comes_from pool_environment (pools c) (pools c')"
    using f by (simp_all add: from_env_def)
  obtain old where old: "hm_get (environments c) i = Some old" "env_pool old = env_pool env"
    using comes_fromD [OF fs(1) new] by blast
  have E: "env_ok c i old" using ok old(1) by (simp add: envs_ok_def)
  show "env_ok c' i env"
    unfolding env_ok_def
  proof (intro conjI allI impI)
    fix j env'
    assume j: "hm_get (environments c') j = Some env'" "env_pool env' = env_pool env"
    then obtain x where "hm_get (environments c) j = Some x" "env_pool x = env_pool old"
      using comes_fromD [OF fs(1) j(1)] old(2) by auto
    then show "j = i" using E unfolding env_ok_def by blast
  next
    fix k e
    assume e: "hm_get (executions c') k = Some e" "exec_pool e = env_pool env"
    obtain x where "hm_get (executions c) k = Some x" "owner x = owner e"
      using comes_fromD [OF fs(2) e(1)] by blast
    then show "exec_environment e = Some i"
      using E old(2) e(2) unfolding env_ok_def owner_def by auto
  next
    fix p
    assume p: "hm_get (pools c') (env_pool env) = Some p"
    obtain x where "hm_get (pools c) (env_pool old) = Some x"
        "pool_environment x = pool_environment p"
      using comes_fromD [OF fs(3) p] old(2) by auto
    moreover from this have "pool_environment x \<in> {None, Some i}"
      using E by (simp add: env_ok_def)
    ultimately show "pool_environment p \<in> {None, Some i}" by simp
  qed
qed

text \<open>Nodes and pools that are still there.\<close>

definition keeps :: "cluster \<Rightarrow> cluster \<Rightarrow> bool" where
  "keeps c c' \<longleftrightarrow>
     (\<forall>nid. hm_get (nodes c) nid \<noteq> None \<longrightarrow> hm_get (nodes c') nid \<noteq> None) \<and>
     (\<forall>q. hm_get (pools c) q \<noteq> None \<longrightarrow> hm_get (pools c') q \<noteq> None)"

lemma keeps_refl [simp]: "keeps c c"
  by (simp add: keeps_def)

lemma keeps_trans [trans]: "keeps a b \<Longrightarrow> keeps b c \<Longrightarrow> keeps a c"
  by (simp add: keeps_def)

lemma link_ok_keeps: "link_ok c e \<Longrightarrow> keeps c c' \<Longrightarrow> link_ok c' e"
  unfolding link_ok_def keeps_def by blast

lemma links_keeps: "links c \<Longrightarrow> keeps c c' \<Longrightarrow> executions c' = executions c \<Longrightarrow> links c'"
  unfolding links_def by (auto intro: link_ok_keeps)

subsection \<open>Scheduling\<close>

lemma link_ok_assigned:
  assumes "hm_get (pools c) (exec_pool e) \<noteq> None" "hm_get (nodes c) nid \<noteq> None"
  shows "link_ok c (assign_execution e nid)"
  using assms by (simp add: link_ok_def assign_execution_def)

lemma schedule_links:
  assumes wf: "cluster_wf c" and s: "schedule eid c = Some (b, c')"
  shows "keeps c c' \<and> from_env c c' \<and> (links c \<longrightarrow> links c') \<and>
    (all_unfinished c \<longrightarrow> all_unfinished c')"
  using wf
proof (cases rule: schedule_cases [of c eid])
  case refused
  with s show ?thesis by simp
next
  case (assigned e p n)
  have c': "c' = assigned_cluster eid e p n c" using assigned s by simp
  have ex: "hm_get (executions c) eid = Some e" "hm_get (pools c) (exec_pool e) = Some p"
    using assigned(2) by (auto simp: placeable_Some)
  have keeps: "keeps c c'" by (simp add: keeps_def c')
  moreover have "from_env c c'"
    using ex comes_from_insert [OF ex(1), of owner]
    by (simp add: from_env_def c' assigned_cluster_def assign_execution_def owner_def)
  moreover have "links c'" if "links c"
    unfolding links_def
  proof (intro allI impI)
    fix i x
    assume x: "hm_get (executions c') i = Some x"
    show "link_ok c' x"
    proof (cases "i = eid")
      case True
      with x have "x = assign_execution e (node_id n)" by (simp add: c')
      then show ?thesis using ex(2) by (simp only:) (rule link_ok_assigned; simp add: c')
    next
      case False
      with x that have "link_ok c x" by (simp add: c' links_def)
      then show ?thesis using keeps by (rule link_ok_keeps)
    qed
  qed
  moreover have "all_unfinished c'" if "all_unfinished c"
    using that by (auto simp: all_unfinished_def c' unfinished_def assign_execution_def)
  ultimately show ?thesis by blast
qed

lemma schedule_each_links:
  assumes "schedule_each eids c = Some (es, c')" "cluster_wf c"
  shows "cluster_wf c' \<and> keeps c c' \<and> from_env c c' \<and> (links c \<longrightarrow> links c') \<and>
    (all_unfinished c \<longrightarrow> all_unfinished c')"
  using assms
proof (induction eids arbitrary: c es)
  case Nil
  then show ?case by simp
next
  case (Cons i eids)
  obtain b c1 where s: "schedule i c = Some (b, c1)"
    using schedule_total [OF Cons.prems(2)] by blast
  have wf1: "cluster_wf c1" using schedule_wf [OF Cons.prems(2) s] by simp
  obtain es1 where rec: "schedule_each eids c1 = Some (es1, c')"
    using Cons.prems(1) s by (cases b) (auto split: option.splits)
  show ?case
    using Cons.IH [OF rec wf1] schedule_links [OF Cons.prems(2) s]
    by (meson keeps_trans from_env_trans)
qed

lemma schedule_queued_links:
  assumes "schedule_queued c = Some (es, c')" "cluster_wf c"
  shows "cluster_wf c'" "keeps c c'" "from_env c c'" "links c \<Longrightarrow> links c'"
    "all_unfinished c \<Longrightarrow> all_unfinished c'"
  using schedule_each_links [of "queued_order c" c es c'] assms by (simp_all add: schedule_queued_def)

lemma schedule_queued_inv:
  assumes "ctl_inv c" "schedule_queued c = Some (es, c')"
  shows "ctl_inv c'"
  using assms schedule_queued_links [OF assms(2)] envs_ok_from by (auto simp: ctl_inv_def)

lemma schedule_queued_some: "cluster_wf c \<Longrightarrow> \<exists>es c'. schedule_queued c = Some (es, c')"
  using schedule_queued_ok by blast

text \<open>Changes that keep executions, pools and environments and every node.\<close>

lemma ctl_inv_nodes:
  assumes "ctl_inv c" "cluster_wf c'" "executions c' = executions c" "pools c' = pools c"
    "environments c' = environments c"
    "\<And>nid. hm_get (nodes c) nid \<noteq> None \<Longrightarrow> hm_get (nodes c') nid \<noteq> None"
  shows "ctl_inv c'"
proof -
  have "keeps c c'" using assms(4,6) by (simp add: keeps_def)
  moreover have "from_env c c'" using assms(3-5) by (simp add: from_env_def)
  ultimately show ?thesis
    using assms(1-3) links_keeps envs_ok_from by (auto simp: ctl_inv_def all_unfinished_def)
qed

subsection \<open>The tails of the handlers\<close>

lemma save_cases:
  "save cd ok a = (if ok then Some (a\<lparr>app_db := save_cluster cd (app_cluster a) (app_db a)\<rparr>) else None)"
  by (rule save_def)

lemma app_save_executions_cluster:
  "app_save_executions cd ok es a = Some a' \<Longrightarrow>
   app_cluster a' = app_cluster a \<and> app_working_dirs a' = app_working_dirs a"
  by (auto simp: app_save_executions_def split: if_splits)

lemma with_cluster_simps [simp]:
  "app_cluster (with_cluster c a) = c" "app_db (with_cluster c a) = app_db a"
  "app_working_dirs (with_cluster c a) = app_working_dirs a"
  by (simp_all add: with_cluster_def)

lemma save_then_cluster [simp]:
  "app_cluster (snd (save_then cd ok r a)) = app_cluster a"
  "app_working_dirs (snd (save_then cd ok r a)) = app_working_dirs a"
  by (simp_all add: save_then_def save_def)

lemma save_then_no_panic [simp]:
  "r \<noteq> Panic \<Longrightarrow> fst (save_then cd ok r a) \<noteq> Panic"
  by (simp add: save_then_def save_def internal_error_def)

lemma schedule_and_save_inv:
  assumes "ctl_inv (app_cluster a)"
  shows "ctl_inv (app_cluster (snd (schedule_and_save cd io r a)))"
proof -
  obtain es c' where s: "schedule_queued (app_cluster a) = Some (es, c')"
    using schedule_queued_some [of "app_cluster a"] assms by (auto simp: ctl_inv_def)
  then show ?thesis
    using schedule_queued_inv [OF assms s]
    by (auto simp: schedule_and_save_def Let_def save_def dest: app_save_executions_cluster
        split: option.splits)
qed

lemma schedule_and_save_cluster:
  assumes "cluster_wf (app_cluster a)"
  obtains es c' where "schedule_queued (app_cluster a) = Some (es, c')"
    "app_cluster (snd (schedule_and_save cd io r a)) = c'"
proof -
  obtain es c' where s: "schedule_queued (app_cluster a) = Some (es, c')"
    using schedule_queued_some assms by blast
  moreover have "app_cluster (snd (schedule_and_save cd io r a)) = c'"
    using s by (auto simp: schedule_and_save_def Let_def save_def dest: app_save_executions_cluster
        split: option.splits)
  ultimately show ?thesis using that by blast
qed

lemma schedule_and_save_no_panic:
  assumes "cluster_wf (app_cluster a)"
    "\<And>a' es c'. schedule_queued (app_cluster a) = Some (es, c') \<Longrightarrow> app_cluster a' = c' \<Longrightarrow>
       r a' \<noteq> Panic"
  shows "fst (schedule_and_save cd io r a) \<noteq> Panic"
proof -
  obtain es c' where "schedule_queued (app_cluster a) = Some (es, c')"
    using schedule_queued_some assms(1) by blast
  with assms(2) show ?thesis
    by (auto simp: schedule_and_save_def Let_def save_def internal_error_def
        dest!: app_save_executions_cluster split: option.splits)
qed

end
