(* ===== verification/Api_Handlers.thy ===== *)
theory Api_Handlers
  imports Api_Invariant
begin

section \<open>Every handler preserves the invariant\<close>

lemma ctl_invD:
  assumes "ctl_inv c"
  shows "cluster_wf c" "links c" "all_unfinished c" "envs_ok c"
  using assms by (simp_all add: ctl_inv_def)

lemma ctl_inv_frame:
  assumes "ctl_inv c" "cluster_wf c'" "keeps c c'" "from_env c c'" "executions c' = executions c"
  shows "ctl_inv c'"
  using assms links_keeps [of c c'] envs_ok_from [of c c'] by (simp add: ctl_inv_def all_unfinished_def)

lemma wf_parts:
  assumes "cluster_wf c"
  shows "keyed image_id (images c)" "keyed pool_name (pools c)" "nodes_wf (nodes c)"
    "keyed exec_id (executions c)" "keyed env_id (environments c)" "keyed token_id (join_tokens c)"
    "hm_wf (node_credentials c)"
  using assms by (simp_all add: cluster_wf_def)

subsection \<open>Images and pools\<close>

lemma import_commit_inv:
  assumes inv: "ctl_inv (app_cluster a)"
  shows "ctl_inv (app_cluster (snd (import_commit cd io fresh name req ex src sha sz a)))"
proof -
  let ?c = "app_cluster a"
  note wf = wf_parts [OF ctl_invD(1) [OF inv]]
  have "cluster_wf (?c\<lparr>nodes := hm_map_values (\<lambda>n. n\<lparr>node_status := Syncing\<rparr>) (nodes ?c),
      images := hm_insert fresh img (images ?c)\<rparr>)" if "image_id img = fresh" for img
    using wf that by (auto simp: cluster_wf_def node_wf_def intro!: keyed_insert nodes_wf_map_values)
  from ctl_inv_frame [OF inv this] show ?thesis
    using inv by (auto simp: import_commit_def Let_def keeps_def from_env_def)
qed

lemma update_image_inv:
  assumes inv: "ctl_inv (app_cluster a)"
  shows "ctl_inv (app_cluster (snd (update_image cd io i name ex a)))"
proof -
  let ?c = "app_cluster a"
  note wf = wf_parts [OF ctl_invD(1) [OF inv]]
  have "cluster_wf (?c\<lparr>images := hm_insert i (img\<lparr>image_name := nm, image_executor := x,
      image_kind := k\<rparr>) (images ?c)\<rparr>)" if "hm_get (images ?c) i = Some img" for img nm x k
    using wf that keyed_get [OF wf(1) that] by (auto simp: cluster_wf_def intro!: keyed_insert)
  from ctl_inv_frame [OF inv this] show ?thesis
    using inv by (auto simp: update_image_def Let_def keeps_def from_env_def split: option.splits)
qed

lemma delete_image_inv:
  assumes inv: "ctl_inv (app_cluster a)"
  shows "ctl_inv (app_cluster (snd (delete_image cd io i a)))"
proof -
  let ?c = "app_cluster a"
  note wf = wf_parts [OF ctl_invD(1) [OF inv]]
  have "cluster_wf (?c\<lparr>images := hm_remove i (images ?c),
      nodes := hm_map_values (\<lambda>n. n\<lparr>node_images := node_images n - {i}\<rparr>) (nodes ?c)\<rparr>)"
    using wf by (auto simp: cluster_wf_def node_wf_def intro!: keyed_remove nodes_wf_map_values)
  from ctl_inv_frame [OF inv this] show ?thesis
    using inv by (auto simp: delete_image_def Let_def keeps_def from_env_def split: option.splits)
qed

lemma insert_pool_inv:
  assumes inv: "ctl_inv c" and q: "pool_name p = q"
    and own: "\<And>i env. hm_get (environments c) i = Some env \<Longrightarrow> env_pool env = q \<Longrightarrow>
      pool_environment p \<in> {None, Some i}"
  shows "ctl_inv (c\<lparr>pools := hm_insert q p (pools c)\<rparr>)"
proof -
  let ?c = "c\<lparr>pools := hm_insert q p (pools c)\<rparr>"
  note wf = wf_parts [OF ctl_invD(1) [OF inv]]
  have "cluster_wf ?c" using wf q by (auto simp: cluster_wf_def intro!: keyed_insert)
  moreover have "links ?c" using ctl_invD(2) [OF inv] by (rule links_keeps) (simp_all add: keeps_def)
  moreover have "envs_ok ?c"
    using ctl_invD(4) [OF inv] own by (auto simp: envs_ok_def env_ok_def)
  ultimately show ?thesis using ctl_invD(3) [OF inv] by (simp add: ctl_inv_def all_unfinished_def)
qed

lemma check_pool_managed: "check_pool p c = None \<Longrightarrow> pool_environment p = None"
  by (auto simp: check_pool_def split: option.splits if_splits)

lemma create_pool_inv:
  assumes "ctl_inv (app_cluster a)"
  shows "ctl_inv (app_cluster (snd (create_pool cd io p a)))"
proof (cases "check_pool p (app_cluster a)")
  case None
  then have "ctl_inv ((app_cluster a)\<lparr>pools := hm_insert (pool_name p) p (pools (app_cluster a))\<rparr>)"
    by (intro insert_pool_inv [OF assms]) (simp_all add: check_pool_managed)
  with None show ?thesis by (simp add: create_pool_def Let_def)
qed (use assms in \<open>auto simp: create_pool_def Let_def\<close>)

lemma drop_idle_simps [simp]:
  "node_id (drop_idle q p n) = node_id n" "node_wf n \<Longrightarrow> node_wf (drop_idle q p n)"
  by (simp_all add: drop_idle_def Let_def node_wf_def)

lemma remove_pool_inv:
  assumes inv: "ctl_inv c"
    and unused: "\<And>i e. hm_get (executions c) i = Some e \<Longrightarrow> exec_pool e = q \<Longrightarrow>
      \<not> active_status (exec_status e)"
  shows "ctl_inv (c\<lparr>pools := hm_remove q (pools c),
    nodes := hm_map_values (drop_idle r p) (nodes c)\<rparr>)" (is "ctl_inv ?c")
proof -
  note wf = wf_parts [OF ctl_invD(1) [OF inv]]
  have "cluster_wf ?c"
    using wf by (auto simp: cluster_wf_def intro!: keyed_remove nodes_wf_map_values)
  moreover have "links ?c"
    using ctl_invD(2) [OF inv] unused by (auto simp: links_def link_ok_def)
  moreover have "from_env c ?c" by (simp add: from_env_def comes_from_remove)
  then have "envs_ok ?c" by (rule envs_ok_from [OF ctl_invD(4) [OF inv]])
  ultimately show ?thesis using ctl_invD(3) [OF inv] by (simp add: ctl_inv_def all_unfinished_def)
qed

lemma drop_pool_inv:
  assumes "ctl_inv c"
    "\<And>i e. hm_get (executions c) i = Some e \<Longrightarrow> exec_pool e = q \<Longrightarrow> \<not> active_status (exec_status e)"
  shows "ctl_inv (drop_pool q c)"
  using remove_pool_inv [OF assms] assms(1) by (auto simp: drop_pool_def split: option.splits)

lemma active_unfinished: "active_status (exec_status e) \<Longrightarrow> unfinished e"
  by (auto simp: active_status_def unfinished_def)

lemma no_unfinished_in:
  "\<not> list_ex P (hm_values m) \<Longrightarrow> hm_get m i = Some e \<Longrightarrow> \<not> P e"
  using hm_values_in by (fastforce simp: list_ex_iff)

lemma delete_pool_inv:
  assumes inv: "ctl_inv (app_cluster a)"
  shows "ctl_inv (app_cluster (snd (delete_pool cd io q a)))"
proof -
  let ?c = "app_cluster a"
  have "ctl_inv (?c\<lparr>pools := hm_remove q (pools ?c),
      nodes := hm_map_values (drop_idle q p) (nodes ?c)\<rparr>)"
    if "\<not> list_ex (\<lambda>e. exec_pool e = q \<and> unfinished e) (hm_values (executions ?c))" for p
    using no_unfinished_in [OF that] active_unfinished by (intro remove_pool_inv [OF inv]) blast
  then show ?thesis
    using inv by (auto simp: delete_pool_def Let_def split: option.splits)
qed

subsection \<open>Joining and nodes\<close>

lemma ctl_inv_same:
  assumes "ctl_inv c" "cluster_wf c'" "executions c' = executions c" "pools c' = pools c"
    "environments c' = environments c" "nodes c' = nodes c"
  shows "ctl_inv c'"
  using assms by (auto intro: ctl_inv_nodes)

lemma create_join_token_inv:
  assumes inv: "ctl_inv (app_cluster a)"
  shows "ctl_inv (app_cluster (snd (create_join_token cd H io now fresh token a)))"
proof -
  note wf = wf_parts [OF ctl_invD(1) [OF inv]]
  have "keyed token_id (hm_retain p (join_tokens (app_cluster a)))" for p
    using wf(6) by (auto simp: keyed_def hm_get_retain split: option.splits if_splits)
  then show ?thesis
    using wf by (auto simp: create_join_token_def Let_def cluster_wf_def
        intro!: ctl_inv_same [OF inv] keyed_insert)
qed

lemma join_cluster_inv:
  assumes inv: "ctl_inv (app_cluster a)"
  shows "ctl_inv (app_cluster (snd (join_cluster cd H io now fresh cred token a)))"
proof -
  note wf = wf_parts [OF ctl_invD(1) [OF inv]]
  show ?thesis
    using wf inv keyed_get [OF wf(6)]
    by (auto simp: join_cluster_def Let_def cluster_wf_def split: option.splits
        intro!: ctl_inv_same [OF inv] keyed_insert)
qed

lemma local_join_inv:
  assumes inv: "ctl_inv (app_cluster a)"
  shows "ctl_inv (app_cluster (snd (local_join cd H io loopback fresh cred req a)))"
  using wf_parts [OF ctl_invD(1) [OF inv]] inv
  by (auto simp: local_join_def Let_def cluster_wf_def intro!: ctl_inv_same [OF inv])

text \<open>Replacing a node by one with the same identifier.\<close>

lemma node_update_inv:
  assumes inv: "ctl_inv c" and n: "node_id n = i" "node_wf n"
  shows "ctl_inv (c\<lparr>nodes := hm_insert i n (nodes c)\<rparr>)"
proof -
  note wf = wf_parts [OF ctl_invD(1) [OF inv]]
  show ?thesis
    by (rule ctl_inv_nodes [OF inv])
      (use wf n in \<open>auto simp: cluster_wf_def intro!: nodes_wf_insert\<close>)
qed

lemma update_node_inv:
  assumes inv: "ctl_inv (app_cluster a)"
  shows "ctl_inv (app_cluster (snd (update_node cd io i k a)))"
proof -
  note wf = wf_parts [OF ctl_invD(1) [OF inv]]
  show ?thesis
    using inv nodes_wf_get [OF wf(3)]
    by (auto simp: update_node_def Let_def node_wf_def split: option.splits
        intro!: node_update_inv)
qed

lemma delete_node_inv:
  assumes inv: "ctl_inv (app_cluster a)"
  shows "ctl_inv (app_cluster (snd (delete_node cd io i a)))"
proof -
  let ?c = "app_cluster a"
  note wf = wf_parts [OF ctl_invD(1) [OF inv]]
  have *: "ctl_inv (?c\<lparr>nodes := hm_remove i (nodes ?c), node_credentials := creds\<rparr>)"
    if "\<not> list_ex (\<lambda>e. exec_node e = Some i \<and> active_status (exec_status e)) (hm_values (executions ?c))"
      "hm_wf creds" for creds
  proof -
    let ?d = "?c\<lparr>nodes := hm_remove i (nodes ?c), node_credentials := creds\<rparr>"
    have "cluster_wf ?d" using wf that(2) by (auto simp: cluster_wf_def intro!: nodes_wf_remove)
    moreover have "links ?d"
      using ctl_invD(2) [OF inv] no_unfinished_in [OF that(1)]
      by (fastforce simp: links_def link_ok_def)
    moreover have "from_env ?c ?d" by (simp add: from_env_def)
    then have "envs_ok ?d" by (rule envs_ok_from [OF ctl_invD(4) [OF inv]])
    ultimately show ?thesis
      using ctl_invD(3) [OF inv] by (simp add: ctl_inv_def all_unfinished_def)
  qed
  from * [of "node_credentials ?c"] * [of "hm_remove i (node_credentials ?c)"] show ?thesis
    using inv wf(7)
    by (auto simp: delete_node_def Let_def intro!: schedule_and_save_inv)
qed

lemma as_node_inv:
  assumes "ctl_inv (app_cluster a)"
    "\<And>nid. ctl_inv (app_cluster (snd (h nid a)))"
  shows "ctl_inv (app_cluster (snd (as_node H auth h a)))"
  using assms by (auto simp: as_node_def split: response.splits)

lemma as_this_node_inv:
  assumes "ctl_inv (app_cluster a)" "ctl_inv (app_cluster (snd (h a)))"
  shows "ctl_inv (app_cluster (snd (as_this_node H auth i h a)))"
  unfolding as_this_node_def by (rule as_node_inv) (use assms in auto)

lemma refresh_node_inv:
  assumes inv: "ctl_inv c"
  shows "ctl_inv (refresh_node i c)"
proof -
  note wf = wf_parts [OF ctl_invD(1) [OF inv]]
  show ?thesis
    using inv nodes_wf_get [OF wf(3)]
    by (auto simp: refresh_node_def node_wf_def split: option.splits intro!: node_update_inv)
qed

lemma reset_idle_inv:
  assumes inv: "ctl_inv c"
  shows "ctl_inv (reset_idle_instances i c)"
  by (rule ctl_inv_nodes [OF inv reset_idle_wf [OF ctl_invD(1) [OF inv]]])
    (auto simp: reset_idle_instances_def split: option.splits)

lemma register_node_inv:
  assumes inv: "ctl_inv (app_cluster a)"
  shows "ctl_inv (app_cluster (snd (register_node cd H io now auth r a)))"
proof -
  let ?c = "app_cluster a"
  note wf = wf_parts [OF ctl_invD(1) [OF inv]]
  have rep: "node_id (report_node r now n) = node_id n" "node_wf (report_node r now n) = node_wf n"
    for n by (simp_all add: report_node_def node_wf_def)
  have new: "node_id (new_node nid r now) = nid" "node_wf (new_node nid r now)" for nid
    by (simp_all add: new_node_def node_wf_def)
  have "ctl_inv (?c\<lparr>nodes := hm_insert nid (report_node r now
      (case hm_get (nodes ?c) nid of Some n \<Rightarrow> n | None \<Rightarrow> new_node nid r now)) (nodes ?c)\<rparr>)" for nid
    using nodes_wf_get [OF wf(3)]
    by (intro node_update_inv [OF inv])
      (auto simp: rep new split: option.splits)
  then show ?thesis
    using inv unfolding register_node_def
    by (auto simp: Let_def intro!: as_node_inv schedule_and_save_inv refresh_node_inv reset_idle_inv)
qed

lemma report_image_ready_inv:
  assumes inv: "ctl_inv (app_cluster a)"
  shows "ctl_inv (app_cluster (snd (report_image_ready cd H io auth i img a)))"
proof -
  note wf = wf_parts [OF ctl_invD(1) [OF inv]]
  have "ctl_inv ((app_cluster a)\<lparr>nodes := hm_insert i (n\<lparr>node_images := s\<rparr>) (nodes (app_cluster a))\<rparr>)"
    if "hm_get (nodes (app_cluster a)) i = Some n" for n s
    using nodes_wf_get [OF wf(3) that] by (intro node_update_inv [OF inv]) (auto simp: node_wf_def)
  then show ?thesis
    using inv unfolding report_image_ready_def
    by (auto simp: Let_def split: option.splits
        intro!: as_this_node_inv schedule_and_save_inv refresh_node_inv)
qed

lemma report_environment_ready_inv:
  assumes inv: "ctl_inv (app_cluster a)"
  shows "ctl_inv (app_cluster (snd (report_environment_ready cd H io auth i art a)))"
proof -
  note wf = wf_parts [OF ctl_invD(1) [OF inv]]
  have "ctl_inv ((app_cluster a)\<lparr>nodes := hm_insert i (n\<lparr>node_environments := s\<rparr>)
      (nodes (app_cluster a))\<rparr>)"
    if "hm_get (nodes (app_cluster a)) i = Some n" for n s
    using nodes_wf_get [OF wf(3) that] by (intro node_update_inv [OF inv]) (auto simp: node_wf_def)
  then show ?thesis
    using inv unfolding report_environment_ready_def
    by (auto simp: Let_def split: option.splits intro!: as_this_node_inv schedule_and_save_inv)
qed

lemma warm_ops_inv:
  assumes inv: "ctl_inv c"
  shows "ctl_inv (snd (add_warm_instance i q c))" "ctl_inv (snd (remove_idle_instance i q c))"
proof -
  note wf = ctl_invD(1) [OF inv]
  show "ctl_inv (snd (add_warm_instance i q c))"
    using wf
  proof (cases rule: add_warm_cases [of c i q])
    case (added p n target)
    then show ?thesis
      using nodes_wf_get [OF wf_parts(3) [OF wf] added(7)] by (simp add: node_update_inv [OF inv])
  qed (use inv in simp)
  show "ctl_inv (snd (remove_idle_instance i q c))"
    using wf
  proof (cases rule: remove_idle_cases [of c i q])
    case (removed p n target)
    then show ?thesis
      using nodes_wf_get [OF wf_parts(3) [OF wf] removed(6)] by (simp add: node_update_inv [OF inv])
  qed (use inv in simp)
qed

lemma api_warm_inv:
  assumes inv: "ctl_inv (app_cluster a)"
  shows "ctl_inv (app_cluster (snd (api_add_warm_instance cd H io auth i q a)))"
    "ctl_inv (app_cluster (snd (api_remove_idle_instance cd H io auth i q a)))"
    "ctl_inv (app_cluster (snd (api_warm_instance_needed H auth i q a)))"
  using inv warm_ops_inv [OF inv, of i q]
  unfolding api_add_warm_instance_def api_remove_idle_instance_def api_warm_instance_needed_def
  by (auto intro!: as_this_node_inv schedule_and_save_inv split: prod.split bool.split)

subsection \<open>Executions\<close>

text \<open>Replacing an execution by one with the same identifier, pool and environment.\<close>

lemma execution_update_inv:
  assumes inv: "ctl_inv c" and e: "hm_get (executions c) i = Some e" "exec_id e' = i"
      "owner e' = owner e"
    and ok: "link_ok c e'" "unfinished e'"
  shows "ctl_inv (c\<lparr>executions := hm_insert i e' (executions c)\<rparr>)"
proof -
  let ?c = "c\<lparr>executions := hm_insert i e' (executions c)\<rparr>"
  note wf = wf_parts [OF ctl_invD(1) [OF inv]]
  have K: "keeps c ?c" by (simp add: keeps_def)
  have "links ?c"
    using ctl_invD(2) [OF inv] ok(1) by (auto simp: links_def intro: link_ok_keeps [OF _ K])
  moreover have "from_env c ?c"
    using comes_from_insert [OF e(1), of owner e'] e(3) by (simp add: from_env_def)
  then have "envs_ok ?c" by (rule envs_ok_from [OF ctl_invD(4) [OF inv]])
  moreover have "cluster_wf ?c" using wf e(2) by (auto simp: cluster_wf_def intro!: keyed_insert)
  ultimately show ?thesis
    using ctl_invD(3) [OF inv] ok(2) by (auto simp: ctl_inv_def all_unfinished_def)
qed

lemma remove_execution_inv:
  assumes inv: "ctl_inv c"
  shows "ctl_inv (c\<lparr>executions := hm_remove i (executions c)\<rparr>)"
proof -
  let ?c = "c\<lparr>executions := hm_remove i (executions c)\<rparr>"
  note wf = wf_parts [OF ctl_invD(1) [OF inv]]
  have "from_env c ?c" by (simp add: from_env_def comes_from_remove)
  then have "envs_ok ?c" by (rule envs_ok_from [OF ctl_invD(4) [OF inv]])
  moreover have "links ?c" using ctl_invD(2) [OF inv] by (auto simp: links_def link_ok_def)
  moreover have "cluster_wf ?c" using wf by (auto simp: cluster_wf_def intro!: keyed_remove)
  ultimately show ?thesis
    using ctl_invD(3) [OF inv] by (auto simp: ctl_inv_def all_unfinished_def)
qed

lemma look_for_work_inv:
  assumes inv: "ctl_inv (app_cluster a)"
  shows "ctl_inv (app_cluster (snd (look_for_work cd unseal io now nid a)))"
proof -
  let ?c = "app_cluster a"
  note wf = wf_parts [OF ctl_invD(1) [OF inv]]
  have *: "ctl_inv (?c\<lparr>executions := hm_insert k (start_execution now e) (executions ?c)\<rparr>)"
    if "List.find (\<lambda>(_, e). waiting_for nid e) (executions ?c) = Some (k, e)" for k e
  proof -
    have mem: "(k, e) \<in> set (executions ?c)" "waiting_for nid e"
      using that by (auto simp: find_Some_iff) (metis nth_mem)
    have "hm_wf (executions ?c)" using wf(4) by (rule keyed_wf)
    then have get: "hm_get (executions ?c) k = Some e" using mem(1) hm.entries_get by metis
    moreover have "exec_id e = k" using keyed_get [OF wf(4) get] .
    moreover have "link_ok ?c e" using ctl_invD(2) [OF inv] get by (simp add: links_def)
    ultimately show ?thesis
      using mem(2)
      by (intro execution_update_inv [OF inv])
        (auto simp: start_execution_def owner_def link_ok_def waiting_for_def unfinished_def
          active_status_def)
  qed
  show ?thesis
    unfolding look_for_work_def
    using inv * by (auto simp: Let_def dest!: app_save_executions_cluster split: option.splits)
qed

lemma poll_work_inv:
  assumes inv: "ctl_inv (app_cluster a)"
  shows "ctl_inv (app_cluster (snd (poll_work cd H unseal io now auth nid a)))"
  unfolding poll_work_def by (rule as_this_node_inv [OF inv]) (rule look_for_work_inv [OF inv])

lemma insert_execution_inv:
  assumes inv: "ctl_inv c" and e: "exec_id e = i" "exec_status e = Queued" "exec_node e = None"
    and own: "\<And>j env. hm_get (environments c) j = Some env \<Longrightarrow> env_pool env = exec_pool e \<Longrightarrow>
      exec_environment e = Some j"
  shows "ctl_inv (c\<lparr>executions := hm_insert i e (executions c)\<rparr>)"
proof -
  let ?c = "c\<lparr>executions := hm_insert i e (executions c)\<rparr>"
  note wf = wf_parts [OF ctl_invD(1) [OF inv]]
  have "links ?c"
    using ctl_invD(2) [OF inv] e by (auto simp: links_def link_ok_def active_status_def)
  moreover have "envs_ok ?c"
    using ctl_invD(4) [OF inv] own by (auto simp: envs_ok_def env_ok_def)
  moreover have "cluster_wf ?c" using wf e(1) by (auto simp: cluster_wf_def intro!: keyed_insert)
  ultimately show ?thesis
    using ctl_invD(3) [OF inv] e(2) by (auto simp: ctl_inv_def all_unfinished_def unfinished_def)
qed

lemma schedule_inv:
  assumes inv: "ctl_inv c" and s: "schedule eid c = Some (b, c')"
  shows "ctl_inv c'"
  using schedule_links [OF ctl_invD(1) [OF inv] s] schedule_wf [OF ctl_invD(1) [OF inv] s] inv
    envs_ok_from by (auto simp: ctl_inv_def)

text \<open>The target of a request belongs to the environment it names.\<close>

lemma find_environment_get:
  assumes "cluster_wf c" "find_environment cd key c = Some env"
  shows "hm_get (environments c) (env_id env) = Some env"
proof -
  note wf = wf_parts [OF assms(1)]
  show ?thesis
  proof (cases "Option.bind (uuid_parse cd key) (hm_get (environments c))")
    case None
    with assms(2) have "List.find (\<lambda>e. env_name e = key) (hm_values (environments c)) = Some env"
      by (simp add: find_environment_def)
    then have "env \<in> set (hm_values (environments c))" by (auto simp: find_Some_iff)
    then show ?thesis by (simp add: keyed_values_get [OF wf(5)])
  next
    case (Some x)
    with assms(2) obtain j where "hm_get (environments c) j = Some env"
      by (auto simp: find_environment_def split: bind_splits)
    then show ?thesis using keyed_get [OF wf(5)] by metis
  qed
qed

lemma resolve_target_owner:
  assumes inv: "ctl_inv c" and r: "resolve_target cd r c = Reply s (q, i)"
    and env: "hm_get (environments c) j = Some env" "env_pool env = q"
  shows "i = j"
proof -
  have ok: "env_ok c j env" using ctl_invD(4) [OF inv] env(1) by (simp add: envs_ok_def)
  show ?thesis
  proof (cases "Option.bind (creq_environment r) (\<lambda>key. find_environment cd key c)")
    case None
    with r obtain p where "hm_get (pools c) q = Some p" "pool_environment p = Some i"
      by (auto simp: resolve_target_def Let_def split: option.splits if_splits)
    then show ?thesis using ok env(2) by (auto simp: env_ok_def)
  next
    case (Some x)
    then obtain key where "find_environment cd key c = Some x" by (auto split: bind_splits)
    then have get: "hm_get (environments c) (env_id x) = Some x"
      by (rule find_environment_get [OF ctl_invD(1) [OF inv]])
    have "env_pool x = q" "env_id x = i"
      using r Some by (auto simp: resolve_target_def Let_def split: option.splits if_splits)
    with ok get env(2) show ?thesis by (auto simp: env_ok_def)
  qed
qed

lemma db_insert_cluster:
  "db_insert cd ok e secrets a = Some (b, a') \<Longrightarrow>
   app_cluster a' = app_cluster a \<and> app_working_dirs a' = app_working_dirs a"
  by (auto simp: db_insert_def split: if_splits prod.splits)

lemma admit_inv:
  assumes inv: "ctl_inv (app_cluster a)"
    and e: "exec_status e = Queued" "exec_node e = None"
    and own: "\<And>j env. hm_get (environments (app_cluster a)) j = Some env \<Longrightarrow>
      env_pool env = exec_pool e \<Longrightarrow> exec_environment e = Some j"
  shows "ctl_inv (app_cluster (snd (admit_execution cd io q e a)))"
proof -
  let ?c1 = "(app_cluster a)\<lparr>executions := hm_insert (exec_id e) e (executions (app_cluster a))\<rparr>"
  have inv1: "ctl_inv ?c1" by (rule insert_execution_inv [OF inv refl e own])
  obtain b c2 where s: "schedule (exec_id e) ?c1 = Some (b, c2)"
    using schedule_total [OF ctl_invD(1) [OF inv1]] by blast
  have inv2: "ctl_inv c2" by (rule schedule_inv [OF inv1 s])
  show ?thesis
    using inv2 remove_execution_inv [OF inv2]
    by (auto simp: admit_execution_def Let_def s dest!: app_save_executions_cluster
        split: option.splits)
qed

lemma create_execution_inv:
  assumes inv: "ctl_inv (app_cluster a)"
  shows "ctl_inv (app_cluster (snd (create_execution cd seal io now fresh r a)))"
proof -
  have admit: "ctl_inv (app_cluster (snd (admit_execution cd io q
      (new_execution fresh now r pname env) a')))"
    if "resolve_target cd r (app_cluster a) = Reply s (pname, env)" "app_cluster a' = app_cluster a"
    for s pname env a' q
    using resolve_target_owner [OF inv that(1)] inv that(2)
    by (intro admit_inv) (auto simp: new_execution_def)
  show ?thesis
    using inv admit
    by (auto simp: create_execution_def Let_def dest!: db_insert_cluster
        split: option.splits response.splits bool.splits)
qed

end
