(* ===== verification/Api_Lifecycle.thy ===== *)
theory Api_Lifecycle
  imports Api_Handlers
begin

section \<open>Completing executions and restarting environments\<close>

text \<open>
  The two handlers that move executions through intermediate states in which the invariant does not
  hold: completion keeps a finished execution in memory while it schedules, and the restart of an
  environment moves its executions to a new pool one by one.
\<close>

definition base_inv :: "cluster \<Rightarrow> bool" where
  "base_inv c \<longleftrightarrow> cluster_wf c \<and> links c \<and> envs_ok c"

lemma ctl_inv_base: "ctl_inv c \<longleftrightarrow> base_inv c \<and> all_unfinished c"
  by (auto simp: ctl_inv_def base_inv_def)

lemma drop_pool_base:
  assumes inv: "base_inv c"
    and unused: "\<And>i e. hm_get (executions c) i = Some e \<Longrightarrow> exec_pool e = q \<Longrightarrow>
      \<not> active_status (exec_status e)"
  shows "base_inv (drop_pool q c)"
proof (cases "hm_get (pools c) q")
  case None
  with inv show ?thesis by (simp add: drop_pool_def)
next
  case (Some p)
  let ?c = "c\<lparr>pools := hm_remove q (pools c),
    nodes := hm_map_values (drop_idle (pool_name p) p) (nodes c)\<rparr>"
  have wf: "cluster_wf c" using inv by (simp add: base_inv_def)
  have "cluster_wf ?c"
    using wf_parts [OF wf] by (auto simp: cluster_wf_def intro!: keyed_remove nodes_wf_map_values)
  moreover have "links ?c"
    using inv unused by (auto simp: base_inv_def links_def link_ok_def)
  moreover have "from_env c ?c" by (simp add: from_env_def comes_from_remove)
  then have "envs_ok ?c" using inv envs_ok_from by (auto simp: base_inv_def)
  ultimately show ?thesis by (simp add: drop_pool_def Some base_inv_def)
qed

lemma drop_pool_frame [simp]:
  "executions (drop_pool q c) = executions c" "environments (drop_pool q c) = environments c"
  "images (drop_pool q c) = images c"
  by (simp_all add: drop_pool_def split: option.split)

lemma release_base:
  assumes "base_inv c"
  shows "base_inv (release i k c)"
proof -
  have "keeps c (release i k c)"
    by (auto simp: keeps_def release_def split: option.splits)
  moreover have "from_env c (release i k c)" by (simp add: from_env_def)
  ultimately show ?thesis
    using assms release_wf links_keeps envs_ok_from by (auto simp: base_inv_def)
qed

lemma completed_simps [simp]:
  "exec_id (completed r now e) = exec_id e" "owner (completed r now e) = owner e"
  "exec_pool (completed r now e) = exec_pool e"
  "finished_status (exec_status (completed r now e))"
  by (simp_all add: completed_def owner_def finished_status_def)

lemma finished_not: "finished_status s \<Longrightarrow> s \<noteq> Queued \<and> \<not> active_status s"
  by (auto simp: finished_status_def active_status_def)

lemma finish_in_cluster_inv:
  assumes inv: "ctl_inv c" and e: "hm_get (executions c) i = Some e"
  obtains scheduled c' where
    "finish_in_cluster r now i e c = Some (scheduled, completed r now e, c')" "ctl_inv c'"
    "hm_get (executions c') i = None"
    "\<And>j x. hm_get (executions c) j = Some x \<Longrightarrow> j \<noteq> i \<Longrightarrow>
      (\<exists>x'. hm_get (executions c') j = Some x' \<and>
        (x' = x \<or> exec_status x = Queued \<and> (\<exists>nid. x' = assign_execution x nid)))"
proof -
  let ?e = "completed r now e"
  define c1 where "c1 = c\<lparr>executions := hm_insert i ?e (executions c)\<rparr>"
  define c2 where "c2 = release i (done_keep_idle r) c1"
  define c3 where "c3 = (if stale_pool (exec_pool e) c2 then drop_pool (exec_pool e) c2 else c2)"
  note wf = wf_parts [OF ctl_invD(1) [OF inv]]
  have K: "keeps c c1" by (simp add: keeps_def c1_def)
  have "link_ok c1 ?e"
    using finished_not [of "exec_status ?e"] by (simp add: link_ok_def)
  then have "links c1"
    using ctl_invD(2) [OF inv] by (auto simp: c1_def links_def intro: link_ok_keeps [OF _ K [unfolded c1_def]])
  moreover have "from_env c c1"
    using comes_from_insert [OF e, of owner ?e] by (simp add: from_env_def c1_def)
  then have "envs_ok c1" by (rule envs_ok_from [OF ctl_invD(4) [OF inv]])
  moreover have "cluster_wf c1"
    using wf keyed_get [OF wf(4) e] by (auto simp: c1_def cluster_wf_def intro!: keyed_insert)
  ultimately have "base_inv c1" by (simp add: base_inv_def)
  then have b2: "base_inv c2" unfolding c2_def by (rule release_base)
  have ex2: "executions c2 = hm_insert i ?e (executions c)" by (simp add: c2_def c1_def)
  have b3: "base_inv c3"
  proof (cases "stale_pool (exec_pool e) c2")
    case True
    then have "\<not> active_status (exec_status x)"
      if "hm_get (executions c2) j = Some x" "exec_pool x = exec_pool e" for j x
      using no_unfinished_in [OF _ that(1), of "\<lambda>y. exec_pool y = exec_pool e \<and> unfinished y"]
        that(2) active_unfinished by (auto simp: stale_pool_def)
    then have "base_inv (drop_pool (exec_pool e) c2)" by (rule drop_pool_base [OF b2])
    with True show ?thesis by (simp add: c3_def)
  qed (use b2 in \<open>simp add: c3_def\<close>)
  have ex3: "executions c3 = hm_insert i ?e (executions c)" using ex2 by (simp add: c3_def)
  obtain es c4 where s: "schedule_queued c3 = Some (es, c4)"
    using schedule_queued_some [of c3] b3 by (auto simp: base_inv_def)
  have wf3: "cluster_wf c3" using b3 by (simp add: base_inv_def)
  have b4: "base_inv c4"
    using schedule_queued_links [OF s wf3] b3 envs_ok_from by (auto simp: base_inv_def)
  have get4: "hm_get (executions c4) i = Some ?e"
  proof -
    have "hm_get (executions c4) i \<noteq> None"
      using schedule_queued_dom [OF wf3 s, of i] ex3 by simp
    then obtain x where x: "hm_get (executions c4) i = Some x" by blast
    show ?thesis
      using wf3 s x
    proof (cases rule: schedule_queued_exec)
      case kept
      with x ex3 show ?thesis by simp
    next
      case (placed y nid)
      then have "y = ?e" using ex3 by simp
      with placed(2) finished_not [of "exec_status ?e"] show ?thesis by simp
    qed
  qed
  let ?c' = "c4\<lparr>executions := hm_remove i (executions c4)\<rparr>"
  have wf4: "cluster_wf c4" using b4 by (simp add: base_inv_def)
  have "cluster_wf ?c'"
    using wf_parts [OF wf4] by (simp add: cluster_wf_def keyed_remove)
  moreover have "links ?c'" using b4 by (auto simp: base_inv_def links_def link_ok_def)
  moreover have "envs_ok ?c'"
    by (rule envs_ok_from [of c4]) (use b4 in \<open>simp_all add: base_inv_def from_env_def comes_from_remove\<close>)
  moreover have "all_unfinished ?c'"
    unfolding all_unfinished_def
  proof (intro allI impI)
    fix j x
    assume "hm_get (executions ?c') j = Some x"
    then have j: "j \<noteq> i" "hm_get (executions c4) j = Some x" by (auto split: if_splits)
    show "unfinished x"
      using wf3 s j(2)
    proof (cases rule: schedule_queued_exec)
      case kept
      then show ?thesis using j(1) ex3 ctl_invD(3) [OF inv] by (auto simp: all_unfinished_def)
    qed (simp add: unfinished_def assign_execution_def)
  qed
  ultimately have inv': "ctl_inv ?c'" by (simp add: ctl_inv_def)
  have fin: "finish_in_cluster r now i e c = Some (es, ?e, ?c')"
    by (simp only: finish_in_cluster_def Let_def c1_def [symmetric] c2_def [symmetric]
      c3_def [symmetric] s get4 option.case prod.case)
  have others: "\<exists>x'. hm_get (executions ?c') j = Some x' \<and>
      (x' = x \<or> exec_status x = Queued \<and> (\<exists>nid. x' = assign_execution x nid))"
    if "hm_get (executions c) j = Some x" "j \<noteq> i" for j x
  proof -
    have x3: "hm_get (executions c3) j = Some x" using that ex3 by simp
    then have "hm_get (executions c4) j \<noteq> None"
      using schedule_queued_dom [OF wf3 s, of j] by simp
    then obtain x' where x': "hm_get (executions c4) j = Some x'" by blast
    show ?thesis
      using wf3 s x' by (cases rule: schedule_queued_exec) (use x3 x' that(2) in auto)
  qed
  show ?thesis by (rule that [OF fin inv' _ others]) simp_all
qed

lemma complete_execution_inv:
  assumes inv: "ctl_inv (app_cluster a)"
  shows "ctl_inv (app_cluster (snd (complete_execution cd H io now auth i r a)))"
  unfolding complete_execution_def
proof (rule as_node_inv [OF inv], goal_cases)
  case (1 nid)
  show ?case
  proof (cases "hm_get (executions (app_cluster a)) i")
    case (Some e)
    obtain scheduled c' where f: "finish_in_cluster r now i e (app_cluster a)
        = Some (scheduled, completed r now e, c')" "ctl_inv c'"
      by (rule finish_in_cluster_inv [OF inv Some])
    show ?thesis
      using Some f inv
      by (auto simp: Let_def save_def dest!: app_save_executions_cluster split: option.splits)
  qed (use inv in simp)
qed

subsection \<open>Environments\<close>

text \<open>A pool name that no pool, no environment and no execution uses.\<close>

definition pool_fresh :: "cluster \<Rightarrow> string \<Rightarrow> bool" where
  "pool_fresh c q \<longleftrightarrow> hm_get (pools c) q = None \<and>
     (\<forall>j env. hm_get (environments c) j = Some env \<longrightarrow> env_pool env \<noteq> q) \<and>
     (\<forall>k e. hm_get (executions c) k = Some e \<longrightarrow> exec_pool e \<noteq> q)"

lemma environment_pool_simps [simp]:
  "pool_name (environment_pool e) = env_pool e" "pool_environment (environment_pool e) = Some (env_id e)"
  by (simp_all add: environment_pool_def)

lemma environment_of_simps [simp]:
  "env_id (environment_of i r img art q) = i" "env_pool (environment_of i r img art q) = q"
  by (cases art, simp add: environment_of_def)+

text \<open>Storing an environment under its identifier, given that its pool belongs to it.\<close>

lemma insert_environment_inv:
  assumes inv: "ctl_inv c" and i: "env_id env = i"
    and uniq: "\<And>j x. hm_get (environments c) j = Some x \<Longrightarrow> env_pool x = env_pool env \<Longrightarrow> j = i"
    and execs: "\<And>k e. hm_get (executions c) k = Some e \<Longrightarrow> exec_pool e = env_pool env \<Longrightarrow>
      exec_environment e = Some i"
    and pool: "\<And>p. hm_get (pools c) (env_pool env) = Some p \<Longrightarrow> pool_environment p \<in> {None, Some i}"
  shows "ctl_inv (c\<lparr>environments := hm_insert i env (environments c)\<rparr>)" (is "ctl_inv ?c")
proof -
  note wf = wf_parts [OF ctl_invD(1) [OF inv]]
  have "cluster_wf ?c" using wf i by (auto simp: cluster_wf_def intro!: keyed_insert)
  moreover have "links ?c" using ctl_invD(2) [OF inv] by (simp add: links_def link_ok_def)
  moreover have "envs_ok ?c"
    unfolding envs_ok_def
  proof (intro allI impI)
    fix j x
    assume x: "hm_get (environments ?c) j = Some x"
    show "env_ok ?c j x"
    proof (cases "j = i")
      case True
      with x have "x = env" by simp
      with True uniq execs pool show ?thesis by (auto simp: env_ok_def)
    next
      case False
      with x have x': "hm_get (environments c) j = Some x" by simp
      then have "env_ok c j x" using ctl_invD(4) [OF inv] by (simp add: envs_ok_def)
      moreover have "env_pool env \<noteq> env_pool x" using uniq [OF x'] False by metis
      ultimately show ?thesis by (auto simp: env_ok_def split: if_splits)
    qed
  qed
  ultimately show ?thesis using ctl_invD(3) [OF inv] by (simp add: ctl_inv_def all_unfinished_def)
qed

lemma create_environment_commit_inv:
  assumes inv: "ctl_inv (app_cluster a)"
    and fresh: "pool_fresh (app_cluster a) (''environment-'' @ uuid_text cd i)"
  shows "ctl_inv (app_cluster (snd (create_environment_commit cd io i r img art a)))"
proof -
  let ?q = "''environment-'' @ uuid_text cd i" and ?c = "app_cluster a"
  let ?e = "environment_of i r img art ?q"
  have p: "ctl_inv (?c\<lparr>pools := hm_insert ?q (environment_pool ?e) (pools ?c)\<rparr>)"
    using fresh by (intro insert_pool_inv [OF inv]) (auto simp: pool_fresh_def)
  have "ctl_inv ((?c\<lparr>pools := hm_insert ?q (environment_pool ?e) (pools ?c)\<rparr>)
      \<lparr>environments := hm_insert i ?e (environments ?c)\<rparr>)"
    using insert_environment_inv [OF p, of ?e i] fresh by (auto simp: pool_fresh_def)
  then show ?thesis by (simp add: create_environment_commit_def Let_def)
qed

lemma requeue_in_inv:
  assumes inv: "ctl_inv c" and fresh: "\<And>j env. hm_get (environments c) j = Some env \<Longrightarrow> env_pool env \<noteq> q"
    and e: "hm_get (executions c) i = Some e"
  obtains c' where "requeue_in q i c = Some c'" "ctl_inv c'" "environments c' = environments c"
    "pools c' = pools c"
    "executions c' = hm_insert i (e\<lparr>exec_pool := q, exec_node := None, exec_status := Queued,
      exec_started_at_ms := None\<rparr>) (executions c)"
proof -
  let ?e = "e\<lparr>exec_pool := q, exec_node := None, exec_status := Queued, exec_started_at_ms := None\<rparr>"
  define c1 where "c1 = (if exec_status e = Assigned then release i False c else c)"
  have frame: "executions c1 = executions c" "environments c1 = environments c" "pools c1 = pools c"
    by (simp_all add: c1_def)
  have "base_inv c1"
    using inv release_base by (simp add: c1_def ctl_inv_base)
  then have inv1: "ctl_inv c1"
    using inv by (simp add: ctl_inv_base all_unfinished_def frame)
  have id: "exec_id e = i" using wf_parts(4) [OF ctl_invD(1) [OF inv]] e keyed_get by metis
  have "ctl_inv (c1\<lparr>executions := hm_insert i ?e (executions c1)\<rparr>)"
    using fresh by (intro insert_execution_inv [OF inv1]) (auto simp: id frame)
  with that [of "c1\<lparr>executions := hm_insert i ?e (executions c1)\<rparr>"] e show ?thesis
    by (simp add: requeue_in_def Let_def c1_def [symmetric] frame)
qed

lemma requeue_all_inv:
  assumes "ctl_inv c" "\<And>j env. hm_get (environments c) j = Some env \<Longrightarrow> env_pool env \<noteq> q"
    "\<And>i. i \<in> set ids \<Longrightarrow> hm_get (executions c) i \<noteq> None"
  shows "\<exists>c'. requeue_all q ids c = Some c' \<and> ctl_inv c' \<and> environments c' = environments c \<and>
    pools c' = pools c \<and>
    (\<forall>j. hm_get (executions c') j = (if j \<in> set ids then map_option
       (\<lambda>e. e\<lparr>exec_pool := q, exec_node := None, exec_status := Queued, exec_started_at_ms := None\<rparr>)
       (hm_get (executions c) j) else hm_get (executions c) j))"
  using assms
proof (induction ids arbitrary: c)
  case Nil
  then show ?case by simp
next
  case (Cons i ids)
  obtain e where e: "hm_get (executions c) i = Some e" using Cons.prems(3) [of i] by auto
  obtain c1 where c1: "requeue_in q i c = Some c1" "ctl_inv c1" "environments c1 = environments c"
    "pools c1 = pools c"
    "executions c1 = hm_insert i (e\<lparr>exec_pool := q, exec_node := None, exec_status := Queued,
      exec_started_at_ms := None\<rparr>) (executions c)"
    by (rule requeue_in_inv [OF Cons.prems(1,2) e])
  have "\<exists>c'. requeue_all q ids c1 = Some c' \<and> ctl_inv c' \<and> environments c' = environments c1 \<and>
    pools c' = pools c1 \<and>
    (\<forall>j. hm_get (executions c') j = (if j \<in> set ids then map_option
       (\<lambda>e. e\<lparr>exec_pool := q, exec_node := None, exec_status := Queued, exec_started_at_ms := None\<rparr>)
       (hm_get (executions c1) j) else hm_get (executions c1) j))"
    by (rule Cons.IH [OF c1(2)]) (use Cons.prems c1 in auto)
  then show ?case using c1 e by auto
qed

text \<open>
  Restarting the pool \<open>old\<close> of environment \<open>i\<close>: every queued or assigned execution of it is queued in
  the new pool, running ones stay where they are, and the old pool survives only for those.
\<close>

definition requeued :: "string \<Rightarrow> execution \<Rightarrow> execution" where
  "requeued q e = e\<lparr>exec_pool := q, exec_node := None, exec_status := Queued,
     exec_started_at_ms := None\<rparr>"

lemma requeued_simps [simp]:
  "exec_pool (requeued q e) = q" "exec_status (requeued q e) = Queued"
  "exec_node (requeued q e) = None" "exec_environment (requeued q e) = exec_environment e"
  by (simp_all add: requeued_def)

lemma set_movable:
  assumes "cluster_wf c"
  shows "i \<in> set (map exec_id (filter (movable q) (hm_values (executions c))))
    \<longleftrightarrow> (\<exists>e. hm_get (executions c) i = Some e \<and> movable q e)"
proof -
  note wf = wf_parts [OF assms]
  have "i \<in> set (map exec_id (filter (movable q) (hm_values (executions c))))
      \<longleftrightarrow> (\<exists>e. e \<in> set (hm_values (executions c)) \<and> movable q e \<and> exec_id e = i)"
    by auto
  then show ?thesis
    using keyed_values_get [OF wf(4)] keyed_get [OF wf(4)] by metis
qed

lemma restart_pool_inv:
  assumes inv: "ctl_inv c" and e: "env_id e = i"
    and q: "q = ''environment-'' @ uuid_text cd i @ ''-'' @ take 8 suffix" and fresh: "pool_fresh c q"
    and neq: "q \<noteq> env_pool e"
  obtains ids c' where
    "restart_environment_pool cd suffix e c = Some (ids, e\<lparr>env_pool := q\<rparr>, c')"
    "ctl_inv c'" "environments c' = environments c"
    "\<And>j. hm_get (executions c') j = map_option
      (\<lambda>y. if movable (env_pool e) y then requeued q y else y) (hm_get (executions c) j)"
    "\<And>j. j \<in> set ids \<longleftrightarrow> (\<exists>y. hm_get (executions c) j = Some y \<and> movable (env_pool e) y)"
    "hm_get (pools c') q = Some (environment_pool (e\<lparr>env_pool := q\<rparr>))"
    "hm_get (pools c') (env_pool e) = None \<or>
     (\<exists>j y. hm_get (executions c) j = Some y \<and> exec_pool y = env_pool e \<and> exec_status y = Running)"
proof -
  let ?old = "env_pool e"
  define ids where "ids = map exec_id (filter (movable ?old) (hm_values (executions c)))"
  have wf: "cluster_wf c" using inv by (simp add: ctl_inv_def)
  have ids: "j \<in> set ids \<longleftrightarrow> (\<exists>y. hm_get (executions c) j = Some y \<and> movable ?old y)" for j
    unfolding ids_def by (rule set_movable [OF wf])
  obtain c1 where c1: "requeue_all q ids c = Some c1" "ctl_inv c1" "environments c1 = environments c"
      "pools c1 = pools c"
      "\<And>j. hm_get (executions c1) j = (if j \<in> set ids then map_option (requeued q)
         (hm_get (executions c) j) else hm_get (executions c) j)"
    using requeue_all_inv [OF inv, of q ids] fresh ids
    unfolding pool_fresh_def requeued_def by blast
  have ex1: "hm_get (executions c1) j = map_option
      (\<lambda>y. if movable ?old y then requeued q y else y) (hm_get (executions c) j)" for j
    using c1(5) [of j] ids [of j] by (cases "hm_get (executions c) j") auto
  have in_old: "exec_status y = Running"
    if y: "hm_get (executions c1) j = Some y" "exec_pool y = ?old" for j y
  proof -
    obtain z where z: "hm_get (executions c) j = Some z"
        "y = (if movable ?old z then requeued q z else z)"
      using y(1) ex1 [of j] by auto
    with y(2) neq have "y = z" "\<not> movable ?old z" by (auto split: if_splits)
    moreover have "unfinished z" using inv z(1) by (auto simp: ctl_inv_def all_unfinished_def)
    ultimately show ?thesis using y(2) by (auto simp: movable_def unfinished_def)
  qed
  obtain c2 where c2: "retire_pool ?old c1 = Some c2" "ctl_inv c2"
      "environments c2 = environments c" "executions c2 = executions c1"
      "hm_get (pools c2) ?old = None \<or>
       (\<exists>j y. hm_get (executions c) j = Some y \<and> exec_pool y = ?old \<and> exec_status y = Running)"
  proof (cases "list_ex (\<lambda>y. exec_pool y = ?old \<and> exec_status y = Running) (hm_values (executions c1))")
    case True
    then obtain y where y: "y \<in> set (hm_values (executions c1))" "exec_pool y = ?old"
        "exec_status y = Running"
      by (auto simp: list_ex_iff)
    then obtain j where j: "hm_get (executions c1) j = Some y"
      using hm_set_values c1(2) keyed_wf wf_parts(4) [OF ctl_invD(1)] by metis
    then have "link_ok c1 y" using ctl_invD(2) [OF c1(2)] by (simp add: links_def)
    then have "hm_get (pools c1) ?old \<noteq> None"
      using y(2,3) by (simp add: link_ok_def active_status_def)
    then obtain p where p: "hm_get (pools c1) ?old = Some p" by blast
    have pn: "pool_name p = ?old"
      using keyed_get [OF wf_parts(2) [OF ctl_invD(1) [OF c1(2)]] p] .
    have own: "pool_environment p \<in> {None, Some k}"
      if "hm_get (environments c1) k = Some env" "env_pool env = ?old" for k env
    proof -
      have "env_ok c1 k env" using ctl_invD(4) [OF c1(2)] that(1) by (simp add: envs_ok_def)
      then show ?thesis using that(2) p by (simp add: env_ok_def)
    qed
    have "ctl_inv (c1\<lparr>pools := hm_insert ?old (p\<lparr>pool_warm_instances := 0\<rparr>) (pools c1)\<rparr>)"
      by (rule insert_pool_inv [OF c1(2)]) (use pn own in auto)
    moreover have "\<exists>j y. hm_get (executions c) j = Some y \<and> exec_pool y = ?old \<and>
        exec_status y = Running"
    proof -
      obtain z where "hm_get (executions c) j = Some z"
          "y = (if movable ?old z then requeued q z else z)"
        using j ex1 [of j] by auto
      with y(2,3) show ?thesis by (auto split: if_splits)
    qed
    ultimately show ?thesis
      using that True p c1(3) by (simp add: retire_pool_def)
  next
    case False
    have "ctl_inv (drop_pool ?old c1)"
      using in_old no_unfinished_in [OF False] by (intro drop_pool_inv [OF c1(2)]) blast
    moreover have "hm_get (pools (drop_pool ?old c1)) ?old = None"
      by (simp add: drop_pool_def split: option.split)
    ultimately show ?thesis
      using that False c1(3) by (simp add: retire_pool_def)
  qed
  let ?e = "e\<lparr>env_pool := q\<rparr>"
  let ?c3 = "c2\<lparr>pools := hm_insert q (environment_pool ?e) (pools c2)\<rparr>"
  have "ctl_inv ?c3"
    using fresh by (intro insert_pool_inv [OF c2(2)]) (auto simp: pool_fresh_def c2(3))
  moreover have "restart_environment_pool cd suffix e c = Some (ids, ?e, ?c3)"
    using c1(1) c2(1) q e by (simp add: restart_environment_pool_def Let_def ids_def)
  ultimately show ?thesis
    using ex1 ids c2(3,4,5) neq by (intro that [of ids ?c3]) auto
qed

lemma finish_environment_inv:
  assumes inv: "ctl_inv ((app_cluster a)\<lparr>environments := hm_insert i e (environments (app_cluster a))\<rparr>)"
    and ids: "\<And>j. j \<in> set ids \<Longrightarrow> hm_get (executions (app_cluster a)) j \<noteq> None"
  shows "ctl_inv (app_cluster (snd (finish_environment cd io ids e i a)))"
    "fst (finish_environment cd io ids e i a) \<noteq> Panic"
proof -
  let ?c1 = "(app_cluster a)\<lparr>environments := hm_insert i e (environments (app_cluster a))\<rparr>"
  have wf1: "cluster_wf ?c1" using inv by (simp add: ctl_inv_def)
  obtain es c2 where s: "schedule_queued ?c1 = Some (es, c2)"
    using schedule_queued_some [OF wf1] by blast
  have inv2: "ctl_inv c2" by (rule schedule_queued_inv [OF inv s])
  have "hm_get (executions c2) j \<noteq> None" if "j \<in> set ids" for j
    using schedule_queued_dom [OF wf1 s, of j] ids [OF that] by simp
  then have "map (hm_get (executions c2)) ids
      = map Some (map (\<lambda>j. the (hm_get (executions c2) j)) ids)"
    by auto
  then obtain moved where "lookup_all c2 ids = Some moved"
    by (metis collect_results_Some lookup_all_def)
  then show "ctl_inv (app_cluster (snd (finish_environment cd io ids e i a)))"
    "fst (finish_environment cd io ids e i a) \<noteq> Panic"
    using inv2
    by (auto simp: finish_environment_def Let_def s save_def internal_error_def
        dest!: app_save_executions_cluster split: option.splits)
qed

lemma restarted_inv:
  assumes inv: "ctl_inv (app_cluster a)"
    and old: "env_ok (app_cluster a) i x" "env_pool x = env_pool e" "env_id e = i"
    and fresh: "pool_fresh (app_cluster a) (''environment-'' @ uuid_text cd i @ ''-'' @ take 8 suffix)"
    and neq: "''environment-'' @ uuid_text cd i @ ''-'' @ take 8 suffix \<noteq> env_pool e"
    and r: "restart_environment_pool cd suffix e (app_cluster a) = Some (ids, e', c')"
  shows "ctl_inv (app_cluster (snd (finish_environment cd io ids e' i (with_cluster c' a))))"
    "fst (finish_environment cd io ids e' i (with_cluster c' a)) \<noteq> Panic"
proof -
  define q where "q = ''environment-'' @ uuid_text cd i @ ''-'' @ take 8 suffix"
  let ?q = q
  note fresh = fresh [folded q_def] and neq = neq [folded q_def]
  obtain ids' c'' where R': "restart_environment_pool cd suffix e (app_cluster a)
      = Some (ids', e\<lparr>env_pool := ?q\<rparr>, c'')"
    "ctl_inv c''" "environments c'' = environments (app_cluster a)"
    "\<And>j. hm_get (executions c'') j = map_option
      (\<lambda>y. if movable (env_pool e) y then requeued ?q y else y) (hm_get (executions (app_cluster a)) j)"
    "\<And>j. j \<in> set ids' \<longleftrightarrow> (\<exists>y. hm_get (executions (app_cluster a)) j = Some y \<and> movable (env_pool e) y)"
    "hm_get (pools c'') ?q = Some (environment_pool (e\<lparr>env_pool := ?q\<rparr>))"
    by (rule restart_pool_inv [OF inv old(3) q_def fresh neq]) (rule that; blast)
  have eqs: "ids' = ids" "c'' = c'" "e' = e\<lparr>env_pool := ?q\<rparr>" using r R'(1) by simp_all
  have R: "ctl_inv c'" "environments c' = environments (app_cluster a)" "e' = e\<lparr>env_pool := ?q\<rparr>"
    "\<And>j. hm_get (executions c') j = map_option
      (\<lambda>y. if movable (env_pool e) y then requeued ?q y else y) (hm_get (executions (app_cluster a)) j)"
    "\<And>j. j \<in> set ids \<longleftrightarrow> (\<exists>y. hm_get (executions (app_cluster a)) j = Some y \<and> movable (env_pool e) y)"
    "hm_get (pools c') ?q = Some (environment_pool (e\<lparr>env_pool := ?q\<rparr>))"
    using R'(2-6) eqs by simp_all
  have own: "exec_environment y = Some i"
    if "hm_get (executions (app_cluster a)) k = Some y" "exec_pool y = env_pool e" for k y
    using that old(1,2) by (simp add: env_ok_def)
  have "ctl_inv (c'\<lparr>environments := hm_insert i e' (environments c')\<rparr>)"
  proof (rule insert_environment_inv [OF R(1)])
    show "env_id e' = i" by (simp add: R(3) old(3))
    show "j = i" if "hm_get (environments c') j = Some y" "env_pool y = env_pool e'" for j y
      using that fresh by (auto simp: R(2,3) pool_fresh_def)
    show "exec_environment y = Some i"
      if "hm_get (executions c') k = Some y" "exec_pool y = env_pool e'" for k y
    proof -
      note k = that
      obtain z where z: "hm_get (executions (app_cluster a)) k = Some z"
          "y = (if movable (env_pool e) z then requeued q z else z)"
        using k(1) R(4) [of k] by auto
      have "exec_pool z \<noteq> q" using fresh z(1) by (simp add: pool_fresh_def)
      then have "movable (env_pool e) z" using that(2) z(2) by (auto simp: R(3) split: if_splits)
      then show ?thesis using own [OF z(1)] z(2) by (simp add: movable_def)
    qed
    show "pool_environment p \<in> {None, Some i}" if "hm_get (pools c') (env_pool e') = Some p" for p
      using that by (auto simp: R(3,6) old(3))
  qed
  moreover have "hm_get (executions c') j \<noteq> None" if "j \<in> set ids" for j
    using that R(4) [of j] R(5) [of j] by auto
  ultimately show "ctl_inv (app_cluster (snd (finish_environment cd io ids e' i (with_cluster c' a))))"
    "fst (finish_environment cd io ids e' i (with_cluster c' a)) \<noteq> Panic"
    using finish_environment_inv [where a = "with_cluster c' a"] by simp_all
qed

lemma restart_environment_inv:
  assumes inv: "ctl_inv (app_cluster a)"
    and fresh: "pool_fresh (app_cluster a) (''environment-'' @ uuid_text cd i @ ''-'' @ take 8 suffix)"
  shows "ctl_inv (app_cluster (snd (restart_environment cd io suffix i a)))"
    "fst (restart_environment cd io suffix i a) \<noteq> Panic"
proof -
  have "ctl_inv (app_cluster (snd (restart_environment cd io suffix i a)))
      \<and> fst (restart_environment cd io suffix i a) \<noteq> Panic"
  proof (cases "hm_get (environments (app_cluster a)) i")
    case None
    then show ?thesis using inv by (simp add: restart_environment_def)
  next
    case (Some x)
    have id: "env_id x = i"
      using keyed_get [OF wf_parts(5) [OF ctl_invD(1) [OF inv]] Some] .
    have ok: "env_ok (app_cluster a) i x" using ctl_invD(4) [OF inv] Some by (simp add: envs_ok_def)
    have neq: "''environment-'' @ uuid_text cd i @ ''-'' @ take 8 suffix \<noteq> env_pool x"
      using fresh Some unfolding pool_fresh_def by metis
    obtain ids c' where r: "restart_environment_pool cd suffix x (app_cluster a)
        = Some (ids, x\<lparr>env_pool := ''environment-'' @ uuid_text cd i @ ''-'' @ take 8 suffix\<rparr>, c')"
      by (rule restart_pool_inv [OF inv id refl fresh neq])
    from restarted_inv [OF inv ok refl id fresh neq r] show ?thesis
      by (simp add: restart_environment_def Some r)
  qed
  then show "ctl_inv (app_cluster (snd (restart_environment cd io suffix i a)))"
    "fst (restart_environment cd io suffix i a) \<noteq> Panic" by simp_all
qed

lemma check_runtime_image_no_panic [simp]: "check_runtime_image c i \<noteq> Panic"
  by (simp add: check_runtime_image_def split: option.split)

lemma prepare_no_panic [simp]: "prepare_environment_artifact H built img ps \<noteq> Panic"
  by (simp add: prepare_environment_artifact_def split: option.split sum.split)

lemma update_artifact_no_panic [simp]: "update_artifact H built old img r \<noteq> Panic"
  by (simp add: update_artifact_def)

lemma update_environment_commit_inv:
  assumes inv: "ctl_inv (app_cluster a)" and eo: "env_ok (app_cluster a) i old"
    and fresh: "pool_fresh (app_cluster a) (''environment-'' @ uuid_text cd i @ ''-'' @ take 8 suffix)"
    and neq: "''environment-'' @ uuid_text cd i @ ''-'' @ take 8 suffix \<noteq> env_pool old"
  shows "ctl_inv (app_cluster (snd (update_environment_commit cd io suffix i old img r art a)))
    \<and> fst (update_environment_commit cd io suffix i old img r art a) \<noteq> Panic"
proof -
  let ?e = "environment_of i r img art (env_pool old)" and ?c = "app_cluster a"
  show ?thesis
  proof (cases "needs_rebuild old img r")
    case True
    obtain ids c' where rp: "restart_environment_pool cd suffix ?e ?c
        = Some (ids, ?e\<lparr>env_pool := ''environment-'' @ uuid_text cd i @ ''-'' @ take 8 suffix\<rparr>, c')"
      by (rule restart_pool_inv [OF inv _ refl fresh, of ?e]) (use neq in simp_all)
    have "env_pool old = env_pool ?e" "env_id ?e = i" by simp_all
    from restarted_inv [OF inv eo this fresh _ rp] neq show ?thesis
      by (simp add: update_environment_commit_def Let_def True rp)
  next
    case False
    let ?c1 = "?c\<lparr>pools := hm_insert (env_pool ?e) (environment_pool ?e) (pools ?c)\<rparr>"
    have inv1: "ctl_inv ?c1"
      by (rule insert_pool_inv [OF inv]) (use eo in \<open>auto simp: env_ok_def\<close>)
    have "ctl_inv (?c1\<lparr>environments := hm_insert i ?e (environments ?c1)\<rparr>)"
      by (rule insert_environment_inv [OF inv1]) (use eo in \<open>auto simp: env_ok_def\<close>)
    then show ?thesis
      using finish_environment_inv [where a = "with_cluster ?c1 a" and i = i and e = ?e and ids = "[]"] False
      by (simp add: update_environment_commit_def Let_def)
  qed
qed

lemma update_environment_inv:
  assumes inv: "ctl_inv (app_cluster a)"
    and fresh: "pool_fresh (app_cluster a) (''environment-'' @ uuid_text cd i @ ''-'' @ take 8 suffix)"
  shows "ctl_inv (app_cluster (snd (update_environment cd H io suffix built i req a)))
    \<and> fst (update_environment cd H io suffix built i req a) \<noteq> Panic"
proof (cases "update_environment_checks (normalize_request req) i (app_cluster a)")
  case (Reply s oi)
  obtain old img where oi: "oi = (old, img)" by (cases oi)
  with Reply have old: "hm_get (environments (app_cluster a)) i = Some old"
    by (auto simp: update_environment_checks_def split: if_splits option.splits response.splits)
  have "env_ok (app_cluster a) i old" using ctl_invD(4) [OF inv] old by (simp add: envs_ok_def)
  moreover have "''environment-'' @ uuid_text cd i @ ''-'' @ take 8 suffix \<noteq> env_pool old"
    using fresh old unfolding pool_fresh_def by metis
  ultimately show ?thesis
    using update_environment_commit_inv [OF inv _ fresh] inv
    by (auto simp: update_environment_def Let_def Reply oi split: response.split)
next
  case Panic
  then show ?thesis
    by (auto simp: update_environment_checks_def split: if_splits option.splits response.splits)
qed (use inv in \<open>simp add: update_environment_def Let_def\<close>)

lemma create_environment_inv:
  assumes inv: "ctl_inv (app_cluster a)"
    and fresh: "pool_fresh (app_cluster a) (''environment-'' @ uuid_text cd i)"
  shows "ctl_inv (app_cluster (snd (create_environment cd H io i built req a)))
    \<and> fst (create_environment cd H io i built req a) \<noteq> Panic"
proof -
  have "create_environment_checks (normalize_request req) (app_cluster a) \<noteq> Panic"
    by (simp add: create_environment_checks_def)
  then show ?thesis
    using create_environment_commit_inv [OF inv fresh] inv
    by (auto simp: create_environment_def Let_def split: response.splits)
      (auto simp: create_environment_commit_def Let_def)
qed

lemma delete_environment_inv:
  assumes inv: "ctl_inv (app_cluster a)"
  shows "ctl_inv (app_cluster (snd (delete_environment cd io i a)))"
proof -
  let ?c = "app_cluster a"
  note wf = wf_parts [OF ctl_invD(1) [OF inv]]
  show ?thesis
  proof (cases "list_ex (\<lambda>e. exec_environment e = Some i \<and> unfinished e) (hm_values (executions ?c))
      \<or> hm_get (environments ?c) i = None")
    case True
    then show ?thesis using inv by (auto simp: delete_environment_def Let_def)
  next
    case False
    then obtain e where e: "hm_get (environments ?c) i = Some e" by auto
    let ?c0 = "(app_cluster a)\<lparr>environments := hm_remove i (environments (app_cluster a))\<rparr>"
    have eo: "env_ok (app_cluster a) i e" using ctl_invD(4) [OF inv] e by (simp add: envs_ok_def)
    have kept: "from_env (app_cluster a) ?c0" by (simp add: from_env_def comes_from_remove)
    have "cluster_wf ?c0" using wf by (simp add: cluster_wf_def keyed_remove)
    then have inv0: "ctl_inv ?c0"
      by (intro ctl_inv_frame [OF inv]) (simp_all add: keeps_def kept)
    have "\<not> active_status (exec_status x)"
      if "hm_get (executions ?c0) k = Some x" "exec_pool x = env_pool e" for k x
    proof -
      have "exec_environment x = Some i" using eo that by (simp add: env_ok_def)
      then show ?thesis
        using False no_unfinished_in [of "\<lambda>e. exec_environment e = Some i \<and> unfinished e"
          "executions ?c" k x] that(1) active_unfinished by auto
    qed
    then have inv1: "ctl_inv (drop_pool (env_pool e) ?c0)" by (rule drop_pool_inv [OF inv0])
    have inv2: "ctl_inv ((drop_pool (env_pool e) ?c0)\<lparr>nodes := hm_map_values
        (\<lambda>n. n\<lparr>node_environments := node_environments n - {art}\<rparr>) (nodes (drop_pool (env_pool e) ?c0))\<rparr>)"
      for art
      using wf_parts [OF ctl_invD(1) [OF inv1]]
      by (intro ctl_inv_nodes [OF inv1])
        (auto simp: cluster_wf_def node_wf_def intro!: nodes_wf_map_values)
    show ?thesis
      using False e inv1 inv2
      by (auto simp: delete_environment_def Let_def split: option.split)
  qed
qed

end
