(* ===== verification/Api_System.thy ===== *)
theory Api_System
  imports Api_Lifecycle
begin

section \<open>Handlers that do not panic\<close>

text \<open>
  Under the controller's invariant every index and \<open>unwrap\<close> of \<open>platform/src/api.rs\<close> succeeds,
  with one exception: \<open>create_execution\<close> indexes the images by the image of a pool.
\<close>

subsection \<open>Images, pools, environments and nodes\<close>

lemma as_node_no_panic:
  assumes "\<And>nid. fst (h nid a) \<noteq> Panic"
  shows "fst (as_node H auth h a) \<noteq> Panic"
  using assms by (auto simp: as_node_def authenticated_node_def split: option.splits prod.splits)

lemma as_this_node_no_panic:
  assumes "fst (h a) \<noteq> Panic"
  shows "fst (as_this_node H auth i h a) \<noteq> Panic"
  unfolding as_this_node_def by (rule as_node_no_panic) (use assms in simp)

lemma schedule_and_save_reply [simp]:
  "cluster_wf (app_cluster a) \<Longrightarrow> fst (schedule_and_save cd io (\<lambda>_. Reply s v) a) \<noteq> Panic"
  by (rule schedule_and_save_no_panic) simp_all

lemma image_pool_no_panic:
  "fst (import_commit cd io fresh name req ex src sha sz a) \<noteq> Panic"
  "fst (update_image cd io i name ex a) \<noteq> Panic" "fst (delete_image cd io i a) \<noteq> Panic"
  "fst (create_pool cd io p a) \<noteq> Panic" "fst (delete_pool cd io q a) \<noteq> Panic"
  by (auto simp: import_commit_def update_image_def delete_image_def create_pool_def delete_pool_def
      Let_def split: option.splits)

lemma create_environment_commit_no_panic:
  "fst (create_environment_commit cd io i r img art a) \<noteq> Panic"
  by (simp add: create_environment_commit_def Let_def)

lemma delete_environment_no_panic: "fst (delete_environment cd io i a) \<noteq> Panic"
  by (auto simp: delete_environment_def Let_def split: option.split)

lemma join_no_panic:
  assumes "ctl_inv (app_cluster a)"
  shows "fst (create_join_token cd H io now fresh token a) \<noteq> Panic"
    "fst (join_cluster cd H io now fresh cred token a) \<noteq> Panic"
    "fst (local_join cd H io loopback fresh cred req a) \<noteq> Panic"
proof -
  have keyed: "keyed token_id (join_tokens (app_cluster a))"
    using wf_parts(6) [OF ctl_invD(1) [OF assms]] .
  have "hm_get (join_tokens (app_cluster a)) (token_id t) = Some t"
    if "List.find (token_valid H now token) (hm_values (join_tokens (app_cluster a))) = Some t" for t
  proof -
    have "t \<in> set (hm_values (join_tokens (app_cluster a)))"
      using that by (auto simp: find_Some_iff)
    then show ?thesis by (simp add: keyed_values_get [OF keyed])
  qed
  then show "fst (join_cluster cd H io now fresh cred token a) \<noteq> Panic"
    by (auto simp: join_cluster_def Let_def split: option.split)
qed (auto simp: create_join_token_def local_join_def Let_def)

lemma update_node_no_panic: "fst (update_node cd io i k a) \<noteq> Panic"
  by (auto simp: update_node_def Let_def split: option.split)

lemma delete_node_no_panic:
  assumes inv: "ctl_inv (app_cluster a)"
  shows "fst (delete_node cd io i a) \<noteq> Panic"
proof -
  have "cluster_wf ((app_cluster a)\<lparr>nodes := hm_remove i (nodes (app_cluster a)),
      node_credentials := hm_remove i (node_credentials (app_cluster a))\<rparr>)"
    using wf_parts [OF ctl_invD(1) [OF inv]] by (auto simp: cluster_wf_def intro!: nodes_wf_remove)
  then show ?thesis
    by (auto simp: delete_node_def Let_def)
qed

lemma refresh_node_dom [simp]:
  "hm_get (nodes (refresh_node i c)) j = None \<longleftrightarrow> hm_get (nodes c) j = None"
  by (auto simp: refresh_node_def split: option.splits)

lemma reset_idle_dom [simp]:
  "hm_get (nodes (reset_idle_instances i c)) j = None \<longleftrightarrow> hm_get (nodes c) j = None"
  by (auto simp: reset_idle_instances_def split: option.splits)

lemma register_node_no_panic:
  assumes inv: "ctl_inv (app_cluster a)"
  shows "fst (register_node cd H io now auth r a) \<noteq> Panic"
  unfolding register_node_def
proof (rule as_node_no_panic, goal_cases)
  case (1 nid)
  let ?c = "app_cluster a"
  let ?n = "case hm_get (nodes ?c) nid of Some n \<Rightarrow> n | None \<Rightarrow> new_node nid r now"
  let ?c1 = "?c\<lparr>nodes := hm_insert nid (report_node r now ?n) (nodes ?c)\<rparr>"
  let ?c3 = "refresh_node nid (if reg_reset_idle r then reset_idle_instances nid ?c1 else ?c1)"
  note wf = wf_parts [OF ctl_invD(1) [OF inv]]
  have "ctl_inv ?c1"
    using nodes_wf_get [OF wf(3)]
    by (intro node_update_inv [OF inv])
      (auto simp: report_node_def new_node_def node_wf_def split: option.splits)
  then have "ctl_inv ?c3" by (simp add: refresh_node_inv reset_idle_inv)
  then have wf3: "cluster_wf ?c3" by (simp add: ctl_inv_def)
  have "hm_get (nodes c') nid \<noteq> None" if "schedule_queued ?c3 = Some (es, c')" for es c'
  proof -
    have "hm_get (nodes ?c3) nid \<noteq> None" by (simp del: not_None_eq)
    then show ?thesis
      using schedule_queued_links(2) [OF that wf3] unfolding keeps_def by blast
  qed
  then have "fst (schedule_and_save cd io (\<lambda>a'. case hm_get (nodes (app_cluster a')) nid of
      Some n' \<Rightarrow> Reply OK n' | None \<Rightarrow> Panic) (with_cluster ?c3 a)) \<noteq> Panic"
    by (intro schedule_and_save_no_panic) (use wf3 in \<open>auto split: option.split\<close>)
  then show ?case by (simp add: Let_def)
qed

lemma report_no_panic:
  assumes inv: "ctl_inv (app_cluster a)"
  shows "fst (report_image_ready cd H io auth i img a) \<noteq> Panic"
    "fst (report_environment_ready cd H io auth i art a) \<noteq> Panic"
proof -
  note wf = wf_parts [OF ctl_invD(1) [OF inv]]
  have upd: "ctl_inv ((app_cluster a)\<lparr>nodes := hm_insert i n' (nodes (app_cluster a))\<rparr>)"
    if "hm_get (nodes (app_cluster a)) i = Some n" "node_id n' = node_id n"
      "node_idle_instances n' = node_idle_instances n" for n n'
    using nodes_wf_get [OF wf(3) that(1)] that(2,3)
    by (intro node_update_inv [OF inv]) (auto simp: node_wf_def)
  have "ctl_inv (refresh_node i ((app_cluster a)\<lparr>nodes := hm_insert i
      (n\<lparr>node_images := insert img (node_images n)\<rparr>) (nodes (app_cluster a))\<rparr>))"
    if "hm_get (nodes (app_cluster a)) i = Some n" for n
    by (rule refresh_node_inv [OF upd [OF that]]) simp_all
  then show "fst (report_image_ready cd H io auth i img a) \<noteq> Panic"
    unfolding report_image_ready_def
    by (intro as_this_node_no_panic)
      (auto simp: Let_def ctl_inv_def split: option.split)
  have "ctl_inv ((app_cluster a)\<lparr>nodes := hm_insert i
      (n\<lparr>node_environments := insert art (node_environments n)\<rparr>) (nodes (app_cluster a))\<rparr>)"
    if "hm_get (nodes (app_cluster a)) i = Some n" for n
    by (rule upd [OF that]) simp_all
  then show "fst (report_environment_ready cd H io auth i art a) \<noteq> Panic"
    unfolding report_environment_ready_def
    by (intro as_this_node_no_panic)
      (auto simp: Let_def ctl_inv_def split: option.split)
qed

lemma warm_no_panic:
  assumes inv: "ctl_inv (app_cluster a)"
  shows "fst (api_add_warm_instance cd H io auth i q a) \<noteq> Panic"
    "fst (api_remove_idle_instance cd H io auth i q a) \<noteq> Panic"
proof -
  obtain b c where add: "add_warm_instance i q (app_cluster a) = (b, c)" by fastforce
  obtain b' c' where rem: "remove_idle_instance i q (app_cluster a) = (b', c')" by fastforce
  have wf: "cluster_wf c" "cluster_wf c'"
    using warm_ops_inv [OF inv, of i q] by (simp_all add: ctl_inv_def add rem)
  show "fst (api_add_warm_instance cd H io auth i q a) \<noteq> Panic"
    unfolding api_add_warm_instance_def
    by (rule as_this_node_no_panic, cases b) (simp_all add: add wf)
  show "fst (api_remove_idle_instance cd H io auth i q a) \<noteq> Panic"
    unfolding api_remove_idle_instance_def
    by (rule as_this_node_no_panic, cases b') (simp_all add: rem wf)
qed


text \<open>Scheduling neither adds nor removes nodes.\<close>

lemma schedule_nodes_dom:
  assumes "cluster_wf c" "schedule eid c = Some (b, c')"
  shows "hm_get (nodes c') j = None \<longleftrightarrow> hm_get (nodes c) j = None"
  using assms(1)
proof (cases rule: schedule_cases [of c eid])
  case refused
  with assms show ?thesis by simp
next
  case (assigned e p n)
  then show ?thesis using assms(2) by (auto simp: assigned_cluster_def)
qed

lemma schedule_each_nodes_dom:
  assumes "schedule_each eids c = Some (es, c')" "cluster_wf c"
  shows "hm_get (nodes c') j = None \<longleftrightarrow> hm_get (nodes c) j = None"
  using assms
proof (induction eids arbitrary: c es)
  case (Cons i eids)
  obtain b c1 where s: "schedule i c = Some (b, c1)"
    using schedule_total [OF Cons.prems(2)] by blast
  have wf1: "cluster_wf c1" using schedule_wf [OF Cons.prems(2) s] by simp
  obtain es1 where "schedule_each eids c1 = Some (es1, c')"
    using Cons.prems(1) s by (cases b) (auto split: option.splits)
  then show ?case using Cons.IH [OF _ wf1] schedule_nodes_dom [OF Cons.prems(2) s] by blast
qed simp

lemma schedule_queued_nodes_dom:
  "cluster_wf c \<Longrightarrow> schedule_queued c = Some (es, c') \<Longrightarrow>
   hm_get (nodes c') j = None \<longleftrightarrow> hm_get (nodes c) j = None"
  using schedule_each_nodes_dom by (simp add: schedule_queued_def)

subsection \<open>Executions\<close>

lemma find_waiting:
  assumes inv: "ctl_inv c" and f: "List.find (\<lambda>(_, e). waiting_for nid e) (executions c) = Some (k, e)"
  shows "hm_get (executions c) k = Some e" "waiting_for nid e" "exec_id e = k"
    "hm_get (pools c) (exec_pool e) \<noteq> None"
proof -
  note wf = wf_parts [OF ctl_invD(1) [OF inv]]
  have mem: "(k, e) \<in> set (executions c)" and w: "waiting_for nid e"
    using f by (auto simp: find_Some_iff) (metis nth_mem)
  show get: "hm_get (executions c) k = Some e"
    using mem hm.entries_get [OF keyed_wf [OF wf(4)]] by metis
  show "waiting_for nid e" by (rule w)
  show "exec_id e = k" using keyed_get [OF wf(4) get] .
  have "link_ok c e" using ctl_invD(2) [OF inv] get by (simp add: links_def)
  then show "hm_get (pools c) (exec_pool e) \<noteq> None"
    using w by (simp add: link_ok_def waiting_for_def active_status_def)
qed

lemma poll_work_no_panic:
  assumes inv: "ctl_inv (app_cluster a)"
  shows "fst (poll_work cd H unseal io now auth nid a) \<noteq> Panic"
  unfolding poll_work_def look_for_work_def
  by (rule as_this_node_no_panic)
    (auto simp: Let_def internal_error_def split: option.split dest: find_waiting(4) [OF inv])

lemma complete_execution_no_panic:
  assumes inv: "ctl_inv (app_cluster a)"
  shows "fst (complete_execution cd H io now auth i r a) \<noteq> Panic"
  unfolding complete_execution_def
proof (rule as_node_no_panic, goal_cases)
  case (1 nid)
  show ?case
  proof (cases "hm_get (executions (app_cluster a)) i")
    case (Some e)
    obtain scheduled c' where "finish_in_cluster r now i e (app_cluster a)
        = Some (scheduled, completed r now e, c')"
      by (rule finish_in_cluster_inv [OF inv Some])
    with Some show ?thesis
      by (auto simp: Let_def internal_error_def split: option.split)
  qed simp
qed

lemma schedule_keeps_get:
  assumes "cluster_wf c" "schedule eid c = Some (b, c')" "hm_get (executions c) j \<noteq> None"
  shows "hm_get (executions c') j \<noteq> None"
  using assms(1)
proof (cases rule: schedule_cases [of c eid])
  case refused
  with assms show ?thesis by simp
next
  case (assigned e p n)
  then show ?thesis using assms by (simp add: assigned_cluster_def)
qed

lemma admit_no_panic:
  assumes wf: "cluster_wf ((app_cluster a)\<lparr>executions := hm_insert (exec_id e) e
    (executions (app_cluster a))\<rparr>)"
  shows "fst (admit_execution cd io q e a) \<noteq> Panic"
proof -
  let ?c1 = "(app_cluster a)\<lparr>executions := hm_insert (exec_id e) e (executions (app_cluster a))\<rparr>"
  obtain b c2 where s: "schedule (exec_id e) ?c1 = Some (b, c2)"
    using schedule_total [OF wf] by blast
  have "hm_get (executions c2) (exec_id e) \<noteq> None"
    by (rule schedule_keeps_get [OF wf s]) simp
  then show ?thesis
    by (auto simp: admit_execution_def Let_def s internal_error_def split: option.split)
qed

lemma create_execution_panic:
  assumes inv: "ctl_inv (app_cluster a)"
    and p: "fst (create_execution cd seal io now fresh r a) = Panic"
  shows "resolve_target cd r (app_cluster a) = Panic" "snd (create_execution cd seal io now fresh r a) = a"
proof -
  have wf: "cluster_wf ((app_cluster a)\<lparr>executions := hm_insert (exec_id e) e
      (executions (app_cluster a))\<rparr>)" for e
    using wf_parts [OF ctl_invD(1) [OF inv]] by (auto simp: cluster_wf_def intro!: keyed_insert)
  have admit: "fst (admit_execution cd io q e a') \<noteq> Panic" if "app_cluster a' = app_cluster a" for q e a'
    using wf by (intro admit_no_panic) (simp add: that)
  show "resolve_target cd r (app_cluster a) = Panic" "snd (create_execution cd seal io now fresh r a) = a"
    using p admit
    by (auto simp: create_execution_def Let_def internal_error_def dest!: db_insert_cluster
        split: option.splits response.splits prod.splits bool.splits)
qed

lemma resolve_target_panic:
  assumes "resolve_target cd r c = Panic"
  shows "\<exists>q p. hm_get (pools c) q = Some p \<and> hm_get (images c) (pool_image p) = None"
  using assms by (auto simp: resolve_target_def Let_def split: option.splits if_splits)

end
