(* ===== verification/Api_Runs.thy ===== *)
theory Api_Runs
  imports Api_System Transition_System
begin

section \<open>The running controller\<close>

text \<open>
  The handlers of \<open>platform/src/api.rs\<close> as one transition system, the runs of the controller from
  its start on a new database (\<open>serve\<close>), and the invariants of these runs. Every handler is one
  step, except \<open>create_environment\<close> and \<open>update_environment\<close>: they check the request under one
  lock and commit it under another, so the system remembers the checked requests and commits them
  in a later step, with any others in between. The pool that an update found for its environment may
  have been retired by then; its name is taken to be used by nothing else. Fresh identifiers, secrets, the clock and the
  success of each database call are arbitrary; identifiers of new environments and the suffixes of
  restarted pools are unused names, as \<open>Uuid::new_v4\<close> makes them. A step is labelled with its
  handler and says whether it panicked.
\<close>

subsection \<open>The steps of the controller\<close>

record controller =
  ctl_app :: app
  ctl_checked :: "(create_request \<times> uuid \<times> string option \<times> string option \<times> u64) list"
  ctl_updates :: "(uuid \<times> environment \<times> uuid \<times> create_request \<times> string option \<times> string option \<times> u64) list"

datatype handler =
    ImportImage | UpdateImage | DeleteImage | CreatePool | DeletePool
  | CheckEnvironment | CommitEnvironment | CheckUpdate | CommitUpdate | RestartEnvironment
  | DeleteEnvironment | CreateJoinToken | JoinCluster | LocalJoinNode | UpdateNode | DeleteNode
  | RegisterNode | ImageReady | EnvironmentReady | AddWarm | RemoveIdle | CreateExecution
  | NextWork | Complete | UpdateStorage | UploadWorkingDir | CollectGarbage

definition outcome :: "'a response \<times> app \<Rightarrow> bool \<times> app" where
  "outcome r = (fst r = Panic, snd r)"

text \<open>The handlers whose work is done under one lock.\<close>

inductive handles :: "codec \<Rightarrow> (string \<Rightarrow> string) \<Rightarrow> handler \<Rightarrow> app \<Rightarrow> bool \<times> app \<Rightarrow> bool"
  for cd :: codec and H :: "string \<Rightarrow> string" where
  "handles cd H ImportImage a (outcome (import_commit cd io fresh name req ex src sha sz a))"
| "handles cd H UpdateImage a (outcome (update_image cd io i name ex a))"
| "handles cd H DeleteImage a (outcome (delete_image cd io i a))"
| "handles cd H CreatePool a (outcome (create_pool cd io p a))"
| "handles cd H DeletePool a (outcome (delete_pool cd io q a))"
| "pool_fresh (app_cluster a) (''environment-'' @ uuid_text cd i @ ''-'' @ take 8 suffix) \<Longrightarrow>
   handles cd H RestartEnvironment a (outcome (restart_environment cd io suffix i a))"
| "handles cd H DeleteEnvironment a (outcome (delete_environment cd io i a))"
| "handles cd H CreateJoinToken a (outcome (create_join_token cd H io now fresh token a))"
| "handles cd H JoinCluster a (outcome (join_cluster cd H io now fresh cred token a))"
| "handles cd H LocalJoinNode a (outcome (local_join cd H io loopback fresh cred requested a))"
| "handles cd H UpdateNode a (outcome (update_node cd io i k a))"
| "handles cd H DeleteNode a (outcome (delete_node cd io i a))"
| "handles cd H RegisterNode a (outcome (register_node cd H io now auth r a))"
| "handles cd H ImageReady a (outcome (report_image_ready cd H io auth i img a))"
| "handles cd H EnvironmentReady a (outcome (report_environment_ready cd H io auth i art a))"
| "handles cd H AddWarm a (outcome (api_add_warm_instance cd H io auth i q a))"
| "handles cd H RemoveIdle a (outcome (api_remove_idle_instance cd H io auth i q a))"
| "handles cd H CreateExecution a (outcome (create_execution cd seal io now fresh r a))"
| "handles cd H NextWork a (outcome (poll_work cd H unseal io now auth nid a))"
| "handles cd H Complete a (outcome (complete_execution cd H io now auth i done a))"
| "handles cd H UpdateStorage a (outcome (update_storage_settings cd io now s a))"
| "handles cd H UploadWorkingDir a (outcome (upload_working_dir H ok digest body a))"
| "prune cd now None (app_db a) = Some db \<Longrightarrow>
   handles cd H CollectGarbage a (False, a\<lparr>app_db := db\<rparr>)"

inductive controller_step ::
    "codec \<Rightarrow> (string \<Rightarrow> string) \<Rightarrow> handler \<Rightarrow> controller \<Rightarrow> bool \<times> controller \<Rightarrow> bool"
  for cd :: codec and H :: "string \<Rightarrow> string" where
  one_lock: "handles cd H h (ctl_app s) (panicked, a') \<Longrightarrow>
    controller_step cd H h s (panicked, s\<lparr>ctl_app := a'\<rparr>)"
| check_environment:
    "create_environment_checks (normalize_request req) (app_cluster (ctl_app s)) = Reply st img \<Longrightarrow>
     prepare_environment_artifact H built img (req_packages (normalize_request req)) = Reply st' art \<Longrightarrow>
     controller_step cd H CheckEnvironment s
       (False, s\<lparr>ctl_checked := (normalize_request req, image_id img, art) # ctl_checked s\<rparr>)"
| commit_environment:
    "(r, img, art) \<in> set (ctl_checked s) \<Longrightarrow>
     pool_fresh (app_cluster (ctl_app s)) (''environment-'' @ uuid_text cd i) \<Longrightarrow>
     outcome (create_environment_commit cd io i r img art (ctl_app s)) = (panicked, a') \<Longrightarrow>
     controller_step cd H CommitEnvironment s
       (panicked, s\<lparr>ctl_app := a', ctl_checked := remove1 (r, img, art) (ctl_checked s)\<rparr>)"
| check_update:
    "update_environment_checks (normalize_request req) i (app_cluster (ctl_app s)) = Reply st (old, img) \<Longrightarrow>
     update_artifact H built old img (normalize_request req) = Reply st' art \<Longrightarrow>
     controller_step cd H CheckUpdate s
       (False, s\<lparr>ctl_updates := (i, old, image_id img, normalize_request req, art) # ctl_updates s\<rparr>)"
| commit_update:
    "(i, old, img, r, art) \<in> set (ctl_updates s) \<Longrightarrow> env_ok (app_cluster (ctl_app s)) i old \<Longrightarrow>
     q = ''environment-'' @ uuid_text cd i @ ''-'' @ take 8 suffix \<Longrightarrow>
     pool_fresh (app_cluster (ctl_app s)) q \<Longrightarrow> q \<noteq> env_pool old \<Longrightarrow>
     outcome (update_environment_commit cd io suffix i old img r art (ctl_app s)) = (panicked, a') \<Longrightarrow>
     controller_step cd H CommitUpdate s
       (panicked, s\<lparr>ctl_app := a', ctl_updates := remove1 (i, old, img, r, art) (ctl_updates s)\<rparr>)"

text \<open>The controller on a new database.\<close>

definition controller_start :: "codec \<Rightarrow> controller \<Rightarrow> bool" where
  "controller_start cd s \<longleftrightarrow> ctl_checked s = [] \<and> ctl_updates s = [] \<and>
     (\<exists>fresh now. boot cd fresh now [] open_database = Some (ctl_app s))"

definition controller_steps :: "codec \<Rightarrow> (string \<Rightarrow> string) \<Rightarrow> controller \<Rightarrow> controller \<Rightarrow> bool" where
  "controller_steps cd H s t \<longleftrightarrow> (\<exists>h panicked. controller_step cd H h s (panicked, t))"


subsection \<open>The invariant of the cluster holds in every run\<close>

lemma outcome_iff: "outcome r = (p, a') \<longleftrightarrow> p = (fst r = Panic) \<and> a' = snd r"
  and outcome_iff_sym: "(p, a') = outcome r \<longleftrightarrow> p = (fst r = Panic) \<and> a' = snd r"
  by (auto simp: outcome_def)

lemma update_storage_cluster [simp]:
  "app_cluster (snd (update_storage_settings cd io now s a)) = app_cluster a"
  "app_working_dirs (snd (update_storage_settings cd io now s a)) = app_working_dirs a"
  "fst (update_storage_settings cd io now s a) \<noteq> Panic"
  by (auto simp: update_storage_settings_def internal_error_def split: option.split)

lemma working_dir_path_no_panic [simp]: "working_dir_path d \<noteq> Panic"
  by (simp add: working_dir_path_def)

lemma upload_working_dir_cluster [simp]:
  "app_cluster (snd (upload_working_dir H ok d b a)) = app_cluster a"
  "fst (upload_working_dir H ok d b a) \<noteq> Panic"
  by (auto simp: upload_working_dir_def internal_error_def split: response.split)

lemmas handler_invs =
  import_commit_inv update_image_inv delete_image_inv create_pool_inv delete_pool_inv
  delete_environment_inv create_join_token_inv join_cluster_inv local_join_inv update_node_inv
  delete_node_inv register_node_inv report_image_ready_inv report_environment_ready_inv
  api_warm_inv create_execution_inv poll_work_inv complete_execution_inv

lemmas handler_no_panics =
  image_pool_no_panic delete_environment_no_panic join_no_panic update_node_no_panic
  delete_node_no_panic register_node_no_panic report_no_panic warm_no_panic poll_work_no_panic
  complete_execution_no_panic

lemma handles_inv:
  assumes "handles cd H h a (p, a')" "ctl_inv (app_cluster a)"
  shows "ctl_inv (app_cluster a')"
  using assms(1)
proof (cases rule: handles.cases)
  case (6 i suffix io)
  then show ?thesis using restart_environment_inv(1) [OF assms(2) 6(3)] by (simp only: outcome_iff_sym)
qed (simp_all add: outcome_iff_sym assms(2) handler_invs)

lemma handles_panic:
  assumes "handles cd H h a (True, a')" "ctl_inv (app_cluster a)"
  shows "h = CreateExecution \<and> a' = a \<and>
    (\<exists>q p. hm_get (pools (app_cluster a)) q = Some p \<and>
       hm_get (images (app_cluster a)) (pool_image p) = None)"
  using assms(1)
proof (cases rule: handles.cases)
  case (6 i suffix io)
  then show ?thesis using restart_environment_inv(2) [OF assms(2) 6(3)] by (simp only: outcome_iff_sym) blast
next
  case (18 seal io now fresh r)
  then have p: "fst (create_execution cd seal io now fresh r a) = Panic"
    and a': "a' = snd (create_execution cd seal io now fresh r a)"
    by (simp_all add: outcome_iff_sym)
  show ?thesis
    using create_execution_panic [OF assms(2) p] resolve_target_panic 18(1) a' by metis
qed (simp_all add: outcome_iff_sym assms(2) handler_no_panics)

lemma controller_step_inv:
  assumes "controller_step cd H h s (p, t)" "ctl_inv (app_cluster (ctl_app s))"
  shows "ctl_inv (app_cluster (ctl_app t))"
  using assms(1)
proof (cases rule: controller_step.cases)
  case (one_lock a')
  then show ?thesis using handles_inv assms(2) by simp
next
  case (commit_environment r img art i io a')
  then have "ctl_inv (app_cluster a')"
    using create_environment_commit_inv [OF assms(2) commit_environment(4)] by (simp only: outcome_iff)
  with commit_environment show ?thesis by simp
next
  case (commit_update i old img r art q suffix io a')
  then have "ctl_inv (app_cluster a')"
    using update_environment_commit_inv [OF assms(2) commit_update(4), of cd suffix] by (simp only: outcome_iff) blast
  with commit_update show ?thesis by simp
qed (simp_all add: assms(2))

lemma controller_step_panic:
  assumes "controller_step cd H h s (True, t)" "ctl_inv (app_cluster (ctl_app s))"
  shows "h = CreateExecution \<and> t = s \<and>
    (\<exists>q p. hm_get (pools (app_cluster (ctl_app s))) q = Some p \<and>
       hm_get (images (app_cluster (ctl_app s))) (pool_image p) = None)"
  using assms(1)
proof (cases rule: controller_step.cases)
  case (one_lock a')
  then show ?thesis using handles_panic [OF _ assms(2)] by (cases s) auto
next
  case (commit_environment r img art i io a')
  then show ?thesis using create_environment_commit_no_panic by (metis outcome_iff)
next
  case (commit_update i old img r art q suffix io a')
  then have "fst (update_environment_commit cd io suffix i old img r art (ctl_app s)) = Panic"
    by (simp only: outcome_iff)
  with update_environment_commit_inv [OF assms(2) commit_update(4), of cd suffix] commit_update(5-7)
  show ?thesis by blast
qed simp_all

lemma ctl_inv_empty: "ctl_inv empty_cluster"
  by (simp add: ctl_inv_def cluster_wf_def links_def all_unfinished_def envs_ok_def
      empty_cluster_def nodes_wf_def)

lemma boot_new:
  "boot cd fresh now dirs open_database = Some a \<Longrightarrow>
   app_cluster a = empty_cluster \<and> app_working_dirs a = dirs"
  by (auto simp: boot_def open_database_def load_cluster_def optional_def load_active_executions_def
      migrate_legacy_def empty_cluster_def hm_values_def Let_def)

interpretation ctl: invariant_system "controller_start cd" "controller_steps cd H"
    "\<lambda>s. ctl_inv (app_cluster (ctl_app s))" for cd H
proof (unfold_locales, goal_cases)
  case (1 s)
  then show ?case using boot_new ctl_inv_empty by (auto simp: controller_start_def)
next
  case (2 s t)
  then show ?case using controller_step_inv by (auto simp: controller_steps_def)
qed

end
