(* ===== verification/Api_Properties.thy ===== *)
theory Api_Properties
  imports Api_Runs Storage_Properties
begin

section \<open>What the controller guarantees\<close>

text \<open>
  The properties of the handlers and of the runs of the controller, with witnesses on a small
  cluster: two nodes with credentials, an execution assigned to one of them and another queued.
\<close>

subsection \<open>The cluster of the witnesses\<close>

definition demo_live :: cluster where
  "demo_live = demo\<lparr>executions :=
     [(10, assign_execution (demo_execution 10 5) 3), (11, demo_execution 11 6)],
     node_credentials := [(3, ''k3''), (2, ''k2'')]\<rparr>"

definition demo_app :: app where
  "demo_app = \<lparr>app_cluster = demo_live, app_db = open_database, app_working_dirs = []\<rparr>"

definition demo_done :: complete_request where
  "demo_done = \<lparr>done_result = None, done_error = None, done_timed_out = None, done_metrics = None,
     done_keep_idle = False\<rparr>"

lemma hm_all_entries:
  "hm_wf m \<Longrightarrow> (\<forall>k v. hm_get m k = Some v \<longrightarrow> P k v) \<longleftrightarrow> list_all (\<lambda>(k, v). P k v) m"
  by (auto simp: list_all_iff hm.entries_get [symmetric])

lemma demo_live_execs: "hm_wf (executions demo_live)"
  by (simp add: demo_live_def hm_wf_def)

lemma demo_live_inv: "ctl_inv demo_live"
proof -
  have "cluster_wf demo_live"
    by (simp add: demo_live_def demo_defs cluster_wf_def nodes_wf_def node_wf_def hm_get_def
        assign_execution_def hm_wf_def)
  moreover have "links demo_live" "all_unfinished demo_live"
    unfolding links_def all_unfinished_def hm_all_entries [OF demo_live_execs]
    by (simp_all add: demo_live_def demo_defs link_ok_def active_status_def assign_execution_def
        hm_get_def unfinished_def)
  moreover have "envs_ok demo_live" by (simp add: envs_ok_def demo_live_def demo_defs hm_get_def)
  ultimately show ?thesis by (simp add: ctl_inv_def)
qed

lemma demo_auth: "authenticated_node (\<lambda>t. t) (Some ''Bearer k3'') demo_live = Reply OK 3"
  by (simp add: authenticated_node_def demo_live_def strip_prefix_def same_hash_eq)

subsection \<open>Runs\<close>

text \<open>C3: in every state that the controller can reach from its start on a new database, whatever
  requests arrive, whatever database calls fail, and whatever happens between the two halves of the
  creation of an environment, the cluster is well formed: executions in memory are unfinished, the
  pool and the node of an assigned or running one exist, a queued one has no node, and a pool belongs
  to at most one environment, whose executions it runs.\<close>

theorem controller_runs_keep_invariant:
  assumes "reachable (controller_start cd) (controller_steps cd H) s"
  shows "ctl_inv (app_cluster (ctl_app s))"
  by (rule ctl.reachable_inv [OF assms])

definition demo_start :: controller where
  "demo_start = \<lparr>ctl_app = \<lparr>app_cluster = empty_cluster,
       app_db = save_cluster demo_codec empty_cluster open_database, app_working_dirs = []\<rparr>,
     ctl_checked = [], ctl_updates = []\<rparr>"

lemma demo_start: "controller_start demo_codec demo_start"
  unfolding controller_start_def
proof (intro conjI exI [of _ "[]"] exI [of _ 0])
  show "boot demo_codec [] 0 [] open_database = Some (ctl_app demo_start)"
    by (simp add: demo_start_def boot_def open_database_def load_cluster_def optional_def Let_def
        load_active_executions_def migrate_legacy_def empty_cluster_def hm_values_def prune_def
        fits_i64_def saturating_sub_def prune_rows_def rows_size_def save_cluster_def)
qed (simp_all add: demo_start_def)

theorem controller_runs_keep_invariant_witness:
  "ctl_inv (app_cluster (ctl_app demo_start))"
  by (rule controller_runs_keep_invariant [where H = "\<lambda>t. t"], rule reachable_initial,
      rule demo_start)

text \<open>C4: while the invariant holds no step of the controller panics, neither a handler nor one of the
  later halves of a creation or an update, except \<open>create_execution\<close>, and that one only when some
  pool runs an image that is gone; it then changes nothing.\<close>

theorem only_create_execution_panics:
  assumes "ctl_inv (app_cluster (ctl_app s))" "controller_step cd H h s (True, t)"
  shows "h = CreateExecution \<and> t = s \<and>
    (\<exists>q p. hm_get (pools (app_cluster (ctl_app s))) q = Some p \<and>
       hm_get (images (app_cluster (ctl_app s))) (pool_image p) = None)"
  by (rule controller_step_panic [OF assms(2,1)])

lemma trim_prefixes_none:
  "first_prefix (filter (\<lambda>w. w \<noteq> []) ws) s = None \<Longrightarrow> trim_prefixes ws s = s"
  by (simp add: trim_prefixes.simps [of ws s])

lemma trim_env: "trim ''env'' = ''env''"
proof -
  have "list_all (\<lambda>w. w \<noteq> [] \<longrightarrow> hd w \<noteq> CHR ''e'') white_space"
    "list_all (\<lambda>w. w \<noteq> [] \<longrightarrow> hd w \<noteq> CHR ''v'') (map rev white_space)"
    by (simp_all add: white_space_def bytes_string_def char_of_eq_iff)
  then show ?thesis
    by (simp add: trim_def trim_start_def trim_end_def trim_prefixes_none first_prefix_none)
qed

definition race_request :: create_request where
  "race_request = \<lparr>req_name = ''env'', req_image = 7, req_packages = [], req_preload = [],
     req_warm_instances = 0, req_max_instances = None, req_cpu_millis = 500, req_memory_mib = 256,
     req_disk_mib = 64, req_timeout_secs = 60, req_idle_timeout_secs = 30, req_reuse = True,
     req_network = False\<rparr>"

lemma race_normal: "normalize_request race_request = race_request"
  by (simp add: normalize_request_def race_request_def trim_env clean_list_def sort_dedup_def)

definition race_execution :: "codec \<Rightarrow> create_execution_request" where
  "race_execution cd = \<lparr>creq_pool = Some (''environment-'' @ uuid_text cd 5),
     creq_environment = None, creq_payload = JNull, creq_variables = [], creq_secrets = [],
     creq_queue = True\<rparr>"

lemma python_3: "python_executor ''Python 3''"
  by code_simp


definition race_image :: image where
  "race_image = \<lparr>image_id = 7, image_name = ''py'', image_sha256 = ''00'', image_size = 1,
     image_compatible = True, image_executor = Some ''Python 3'', image_kind = RuntimeImage,
     image_docker_source = Some ''src''\<rparr>"

definition race_1 :: app where
  "race_1 = snd (import_commit demo_codec (\<lambda>_. True) 7 ''py'' None (Some ''Python 3'') ''src'' ''00'' 1
     (ctl_app demo_start))"

definition race_2 :: app where
  "race_2 = snd (delete_image demo_codec (\<lambda>_. True) 7 race_1)"

definition race_3 :: app where
  "race_3 = snd (create_environment_commit demo_codec (\<lambda>_. True) 5 race_request 7 (None, None, 0) race_2)"

lemma race_clusters:
  "app_cluster race_1 = empty_cluster\<lparr>images := [(7, race_image)]\<rparr>"
  "app_cluster race_2 = empty_cluster"
  "app_cluster race_3 = empty_cluster
     \<lparr>pools := [(''environment-'' @ uuid_text demo_codec 5, environment_pool
        (environment_of 5 race_request 7 (None, None, 0) (''environment-'' @ uuid_text demo_codec 5)))],
      environments := [(5, environment_of 5 race_request 7 (None, None, 0)
        (''environment-'' @ uuid_text demo_codec 5))]\<rparr>"
  by (simp_all add: race_1_def race_2_def race_3_def demo_start_def import_commit_def import_kind_def
      delete_image_def create_environment_commit_def save_then_def save_def with_cluster_def Let_def
      race_image_def empty_cluster_def hm_defs hm_remove_def)

lemma race_checks:
  "create_environment_checks race_request (app_cluster race_1) = Reply OK race_image"
  by (simp add: create_environment_checks_def race_clusters empty_cluster_def
      race_request_def limits_invalid_def check_runtime_image_def hm_defs race_image_def python_3
      image_ready_def)

lemma race_fields:
  "req_packages race_request = []" "image_id race_image = 7" "ctl_checked demo_start = []"
  by (simp_all add: race_request_def race_image_def demo_start_def)

lemma handles_step:
  "handles cd H h (ctl_app s) (outcome r) \<Longrightarrow> controller_steps cd H s (s\<lparr>ctl_app := snd r\<rparr>)"
  unfolding controller_steps_def outcome_def by (intro exI controller_step.one_lock)

lemma reach_controller_step:
  "reachable (controller_start cd) (controller_steps cd H) s \<Longrightarrow> controller_step cd H h s (p, t) \<Longrightarrow>
   reachable (controller_start cd) (controller_steps cd H) t"
  by (erule reachable_step) (auto simp: controller_steps_def)

lemma race_reachable:
  "reachable (controller_start demo_codec) (controller_steps demo_codec (\<lambda>t. t))
     (\<lparr>ctl_app = race_3, ctl_checked = [], ctl_updates = []\<rparr>)"
proof -
  let ?R = "reachable (controller_start demo_codec) (controller_steps demo_codec (\<lambda>t. t))"
  let ?r = "(race_request, 7, None, None, 0)"
  have "?R demo_start" by (rule reachable_initial) (rule demo_start)
  then have "?R (demo_start\<lparr>ctl_app := race_1\<rparr>)"
    unfolding race_1_def by (rule reachable_step) (rule handles_step, rule handles.intros(1))
  then have r1: "?R \<lparr>ctl_app = race_1, ctl_checked = [], ctl_updates = []\<rparr>" by (simp add: demo_start_def)
  have "controller_step demo_codec (\<lambda>t. t) CheckEnvironment (\<lparr>ctl_app = race_1, ctl_checked = [], ctl_updates = []\<rparr>)
      (False, \<lparr>ctl_app = race_1, ctl_checked = [?r], ctl_updates = []\<rparr>)"
    using controller_step.check_environment [of race_request "\<lparr>ctl_app = race_1, ctl_checked = [], ctl_updates = []\<rparr>" OK
        race_image "\<lambda>t. t" "Inl (BAD_REQUEST, [])" OK "(None, None, 0)" demo_codec]
    by (simp add: race_checks race_fields prepare_environment_artifact_def race_normal)
  then have "?R (\<lparr>ctl_app = race_1, ctl_checked = [?r], ctl_updates = []\<rparr>)"
    by (rule reach_controller_step [OF r1])
  then have "?R ((\<lparr>ctl_app = race_1, ctl_checked = [?r], ctl_updates = []\<rparr>)\<lparr>ctl_app := race_2\<rparr>)"
    unfolding race_2_def
    by (rule reachable_step) (rule handles_step [where h = DeleteImage], simp add: handles.intros(3))
  then have r2: "?R (\<lparr>ctl_app = race_2, ctl_checked = [?r], ctl_updates = []\<rparr>)" by simp
  have "controller_step demo_codec (\<lambda>t. t) CommitEnvironment
      (\<lparr>ctl_app = race_2, ctl_checked = [?r], ctl_updates = []\<rparr>)
      (False, \<lparr>ctl_app = race_3, ctl_checked = [], ctl_updates = []\<rparr>)"
    using controller_step.commit_environment [of race_request 7 "(None, None, 0)"
        "\<lparr>ctl_app = race_2, ctl_checked = [?r], ctl_updates = []\<rparr>" demo_codec 5 "\<lambda>_. True" False race_3]
    by (simp add: race_clusters pool_fresh_def empty_cluster_def outcome_iff race_3_def
        create_environment_commit_no_panic)
  then show ?thesis by (rule reach_controller_step [OF r2])
qed

lemma race_panics:
  "create_execution demo_codec (\<lambda>_ _. None) (\<lambda>_. True) 0 9 (race_execution demo_codec) race_3
     = (Panic, race_3)"
  by (simp add: create_execution_def check_working_dir_def race_execution_def resolve_target_def
      race_clusters empty_cluster_def hm_defs environment_pool_def environment_of_def)

text \<open>The panic is reachable: the image is deleted between the two halves of a creation.\<close>

definition race_end :: controller where
  "race_end = \<lparr>ctl_app = race_3, ctl_checked = [], ctl_updates = []\<rparr>"

lemma race_end_panics: "controller_step demo_codec (\<lambda>t. t) CreateExecution race_end (True, race_end)"
proof -
  have "handles demo_codec (\<lambda>t. t) CreateExecution race_3 (True, race_3)"
    using handles.intros(18) [of demo_codec "\<lambda>t. t" race_3 "\<lambda>_ _. None" "\<lambda>_. True" 0 9
        "race_execution demo_codec"]
    by (simp add: race_panics outcome_def)
  then show ?thesis
    using controller_step.one_lock [of demo_codec "\<lambda>t. t" CreateExecution race_end True race_3]
    by (simp add: race_end_def)
qed

lemma create_execution_panic_reachable:
  "\<exists>s. reachable (controller_start demo_codec) (controller_steps demo_codec (\<lambda>t. t)) s \<and>
     controller_step demo_codec (\<lambda>t. t) CreateExecution s (True, s)"
  using race_reachable race_end_panics unfolding race_end_def by blast

theorem only_create_execution_panics_witness:
  "\<exists>q p. hm_get (pools (app_cluster race_3)) q = Some p \<and>
     hm_get (images (app_cluster race_3)) (pool_image p) = None"
proof -
  have "ctl_inv (app_cluster (ctl_app race_end))"
    using ctl.reachable_inv [OF race_reachable] by (simp add: race_end_def)
  from only_create_execution_panics [OF this race_end_panics] show ?thesis by (simp add: race_end_def)
qed

subsection \<open>Completing and handing out work\<close>

lemma as_node_Reply:
  "authenticated_node H auth (app_cluster a) = Reply s nid \<Longrightarrow> as_node H auth h a = h nid a"
  by (simp add: as_node_def)

lemma complete_execution_missing:
  assumes "hm_get (executions (app_cluster a)) i = None"
  shows "\<exists>s m. complete_execution cd H io now auth i r a = (Fail s m, a)"
  using assms
  by (auto simp: complete_execution_def as_node_def authenticated_node_def
      split: option.splits prod.splits)

lemma complete_execution_takes_out:
  assumes inv: "ctl_inv (app_cluster a)"
    and e: "hm_get (executions (app_cluster a)) i = Some e" "exec_node e = Some nid"
    and auth: "authenticated_node H auth (app_cluster a) = Reply s nid"
    and a': "a' = snd (complete_execution cd H io now auth i r a)"
  shows "hm_get (executions (app_cluster a')) i = None \<and>
    (\<forall>j x. hm_get (executions (app_cluster a)) j = Some x \<longrightarrow> j \<noteq> i \<longrightarrow>
      (\<exists>x'. hm_get (executions (app_cluster a')) j = Some x' \<and>
        (x' = x \<or> exec_status x = Queued \<and> (\<exists>n. x' = assign_execution x n))))"
proof -
  obtain es c' where f: "finish_in_cluster r now i e (app_cluster a) = Some (es, completed r now e, c')"
      "hm_get (executions c') i = None"
      "\<And>j x. hm_get (executions (app_cluster a)) j = Some x \<Longrightarrow> j \<noteq> i \<Longrightarrow>
        \<exists>x'. hm_get (executions c') j = Some x' \<and>
          (x' = x \<or> exec_status x = Queued \<and> (\<exists>n. x' = assign_execution x n))"
    by (rule finish_in_cluster_inv [OF inv e(1)]) blast
  have "app_cluster a' = c'"
    using e f(1)
    by (auto simp: a' complete_execution_def as_node_Reply [OF auth] Let_def save_def
        dest!: app_save_executions_cluster split: option.split)
  then show ?thesis using f(2,3) by simp
qed

text \<open>C5: an execution is completed only by the node that it is assigned to: the request carries a
  credential whose hash is stored for that node.\<close>

theorem completion_needs_assigned_node:
  assumes "complete_execution cd H io now auth i r a = (resp, a')"
    and "a' \<noteq> a \<or> resp = Reply NO_CONTENT ()"
  shows "\<exists>token nid e. auth = Some (''Bearer '' @ token) \<and>
    (nid, H token) \<in> set (node_credentials (app_cluster a)) \<and>
    hm_get (executions (app_cluster a)) i = Some e \<and> exec_node e = Some nid"
proof -
  obtain s nid where auth: "authenticated_node H auth (app_cluster a) = Reply s nid"
    using assms by (auto simp: complete_execution_def as_node_def split: response.splits)
  then obtain token where token: "auth = Some (''Bearer '' @ token)"
      "(nid, H token) \<in> set (node_credentials (app_cluster a))"
    by (rule authenticated_nodeD)
  obtain e where "hm_get (executions (app_cluster a)) i = Some e" "exec_node e = Some nid"
    using assms
    by (auto simp: complete_execution_def as_node_Reply [OF auth] split: option.splits if_splits)
  with token show ?thesis by blast
qed

lemma demo_app_cluster: "app_cluster demo_app = demo_live"
  by (simp add: demo_app_def)

lemma demo_app_auth: "authenticated_node (\<lambda>t. t) (Some ''Bearer k3'') (app_cluster demo_app) = Reply OK 3"
  by (simp add: demo_app_cluster demo_auth)

lemma demo_completion:
  "snd (complete_execution demo_codec (\<lambda>t. t) (\<lambda>_. False) 0 (Some ''Bearer k3'') 10 demo_done demo_app)
     \<noteq> demo_app"
proof -
  have e: "hm_get (executions demo_live) 10 = Some (assign_execution (demo_execution 10 5) 3)"
    by (simp add: demo_live_def hm_get_def)
  obtain es c' where f: "finish_in_cluster demo_done 0 10 (assign_execution (demo_execution 10 5) 3)
      demo_live = Some (es, completed demo_done 0 (assign_execution (demo_execution 10 5) 3), c')"
      "hm_get (executions c') 10 = None"
    by (rule finish_in_cluster_inv [OF demo_live_inv e])
  note f(1)
  then have "app_cluster (snd (complete_execution demo_codec (\<lambda>t. t) (\<lambda>_. False) 0
      (Some ''Bearer k3'') 10 demo_done demo_app)) = c'"
    by (simp add: complete_execution_def as_node_Reply [OF demo_app_auth] demo_app_cluster e
        assign_execution_def save_def Let_def)
  then show ?thesis using e f(2) by (auto simp: demo_app_def)
qed

theorem completion_needs_assigned_node_witness:
  "\<exists>token nid e. Some ''Bearer k3'' = Some (''Bearer '' @ token) \<and>
    (nid, token) \<in> set (node_credentials demo_live) \<and>
    hm_get (executions demo_live) 10 = Some e \<and> exec_node e = Some nid"
  using completion_needs_assigned_node [OF surjective_pairing disjI1 [OF demo_completion]]
  by (simp add: demo_app_def)

text \<open>C6: the completion by the assigned node takes the execution out of memory, whatever happens to
  the database writes behind it; every other execution stays as it is or, when it was queued, is
  assigned. No later completion of the same execution is accepted or changes anything.\<close>

theorem completion_exactly_once:
  assumes inv: "ctl_inv (app_cluster a)"
    and e: "hm_get (executions (app_cluster a)) i = Some e" "exec_node e = Some nid"
    and auth: "authenticated_node H auth (app_cluster a) = Reply s nid"
    and a': "a' = snd (complete_execution cd H io now auth i r a)"
  shows "hm_get (executions (app_cluster a')) i = None \<and>
    (\<forall>j x. hm_get (executions (app_cluster a)) j = Some x \<longrightarrow> j \<noteq> i \<longrightarrow>
      (\<exists>x'. hm_get (executions (app_cluster a')) j = Some x' \<and>
        (x' = x \<or> exec_status x = Queued \<and> (\<exists>n. x' = assign_execution x n)))) \<and>
    (\<forall>io' now' auth' r'. \<exists>s m. complete_execution cd H io' now' auth' i r' a' = (Fail s m, a'))"
  using complete_execution_takes_out [OF inv e auth a'] complete_execution_missing by simp

theorem completion_exactly_once_witness:
  "hm_get (executions (app_cluster (snd (complete_execution demo_codec (\<lambda>t. t) (\<lambda>_. True) 0
     (Some ''Bearer k3'') 10 demo_done demo_app)))) 10 = None"
proof -
  have "hm_get (executions (app_cluster demo_app)) 10 = Some (assign_execution (demo_execution 10 5) 3)"
    by (simp add: demo_app_cluster demo_live_def hm_get_def)
  moreover have "ctl_inv (app_cluster demo_app)" by (simp add: demo_app_cluster demo_live_inv)
  ultimately show ?thesis
    using completion_exactly_once [OF _ _ _ demo_app_auth refl] by (simp add: assign_execution_def)
qed


lemma poll_work_answers:
  assumes inv: "ctl_inv (app_cluster a)"
    and r: "poll_work cd H unseal io now auth nid a = (Reply s answer, a')"
  shows "\<exists>st. authenticated_node H auth (app_cluster a) = Reply st nid \<and>
    (case answer of
       None \<Rightarrow> a' = a \<and> (\<forall>i e. hm_get (executions (app_cluster a)) i = Some e \<longrightarrow> \<not> waiting_for nid e)
     | Some w \<Rightarrow> \<exists>e p. hm_get (executions (app_cluster a)) (exec_id e) = Some e \<and> waiting_for nid e \<and>
         hm_get (pools (app_cluster a)) (exec_pool e) = Some p \<and>
         work_execution w = start_execution now e \<and> work_pool w = p \<and>
         app_cluster a' = (app_cluster a)\<lparr>executions :=
           hm_insert (exec_id e) (start_execution now e) (executions (app_cluster a))\<rparr>)"
proof -
  let ?c = "app_cluster a"
  obtain st where auth: "authenticated_node H auth ?c = Reply st nid"
    using r by (auto simp: poll_work_def look_for_work_def as_this_node_def as_node_def split: response.splits if_splits)
  have wf: "hm_wf (executions ?c)" using wf_parts(4) [OF ctl_invD(1) [OF inv]] by (rule keyed_wf)
  have node: "hm_get (nodes ?c) nid \<noteq> None"
    using r by (auto simp: poll_work_def look_for_work_def as_this_node_def as_node_Reply [OF auth] Let_def split: if_splits)
  show ?thesis
  proof (cases "List.find (\<lambda>(_, e). waiting_for nid e) (executions ?c)")
    case None
    then have "answer = None" "a' = a"
      using r node by (auto simp: poll_work_def look_for_work_def as_this_node_def as_node_Reply [OF auth] Let_def)
    moreover have "\<not> waiting_for nid e" if "hm_get (executions ?c) i = Some e" for i e
    proof -
      have "(i, e) \<in> set (executions ?c)" using that hm.entries_get [OF wf] by metis
      with None show ?thesis by (auto simp: find_None_iff)
    qed
    ultimately show ?thesis using auth by auto
  next
    case (Some ke)
    obtain k e where ke: "ke = (k, e)" by (cases ke)
    note w = find_waiting [OF inv Some [unfolded ke]]
    obtain p where p: "hm_get (pools ?c) (exec_pool e) = Some p" using w(4) by blast
    have "\<exists>x. answer = Some x \<and> work_execution x = start_execution now e \<and> work_pool x = p \<and>
        app_cluster a' = ?c\<lparr>executions := hm_insert k (start_execution now e) (executions ?c)\<rparr>"
      using r node Some ke p
      by (auto simp: poll_work_def look_for_work_def as_this_node_def as_node_Reply [OF auth] Let_def internal_error_def
          dest!: app_save_executions_cluster split: option.splits if_splits)
    with auth w p show ?thesis by auto
  qed
qed

text \<open>C7: a poll hands a node work only when the request is the node's own, the work is an execution
  assigned to that node, and it is then running: no later poll, by any node, finds it again. When the
  poll answers that there is none, no execution is assigned to the node.\<close>

theorem work_is_handed_out_once:
  assumes inv: "ctl_inv (app_cluster a)"
    and r: "poll_work cd H unseal io now auth nid a = (Reply s answer, a')"
  shows "\<exists>token. auth = Some (''Bearer '' @ token) \<and>
      (nid, H token) \<in> set (node_credentials (app_cluster a)) \<and>
    (case answer of
       None \<Rightarrow> a' = a \<and> (\<forall>i e. hm_get (executions (app_cluster a)) i = Some e \<longrightarrow> \<not> waiting_for nid e)
     | Some w \<Rightarrow> \<exists>e p. hm_get (executions (app_cluster a)) (exec_id e) = Some e \<and> waiting_for nid e \<and>
         hm_get (pools (app_cluster a)) (exec_pool e) = Some p \<and>
         work_execution w = start_execution now e \<and> work_pool w = p \<and>
         app_cluster a' = (app_cluster a)\<lparr>executions :=
           hm_insert (exec_id e) (start_execution now e) (executions (app_cluster a))\<rparr> \<and>
         (\<forall>n. \<not> waiting_for n (work_execution w)))"
proof -
  obtain st where auth: "authenticated_node H auth (app_cluster a) = Reply st nid"
    using poll_work_answers [OF inv r] by blast
  then obtain token where "auth = Some (''Bearer '' @ token)"
      "(nid, H token) \<in> set (node_credentials (app_cluster a))"
    by (rule authenticated_nodeD)
  then show ?thesis
    using poll_work_answers [OF inv r]
    by (cases answer) (auto simp: waiting_for_def start_execution_def)
qed


lemma demo_poll:
  "\<exists>w a'. poll_work demo_codec (\<lambda>t. t) (\<lambda>_ _. Some []) (\<lambda>_. True) 7 (Some ''Bearer k3'') 3 demo_app
     = (Reply OK (Some w), a')"
proof -
  have "hm_get (nodes demo_live) 3 = Some (demo_node 3)" "hm_get (pools demo_live) ''web'' = Some demo_pool"
    "List.find (\<lambda>(_, e). waiting_for 3 e) (executions demo_live)
       = Some (10, assign_execution (demo_execution 10 5) 3)"
    "exec_pool (assign_execution (demo_execution 10 5) 3) = ''web''"
    by (simp_all add: demo_live_def demo_defs hm_get_def waiting_for_def assign_execution_def)
  moreover have "\<exists>db. save_executions demo_codec [start_execution 7 (assign_execution (demo_execution 10 5) 3)]
      open_database = Some db"
    by (simp add: storage_eval find_row_def start_execution_def assign_execution_def split: option.split)
  ultimately show ?thesis
    by (auto simp: poll_work_def look_for_work_def as_this_node_def as_node_Reply [OF demo_app_auth] demo_app_cluster
        app_save_executions_def Let_def) (simp add: demo_app_def)
qed


theorem work_is_handed_out_once_witness:
  "\<exists>w a' e. poll_work demo_codec (\<lambda>t. t) (\<lambda>_ _. Some []) (\<lambda>_. True) 7 (Some ''Bearer k3'') 3 demo_app
       = (Reply OK (Some w), a') \<and>
     hm_get (executions demo_live) (exec_id e) = Some e \<and> work_execution w = start_execution 7 e"
proof -
  obtain w a' where r: "poll_work demo_codec (\<lambda>t. t) (\<lambda>_ _. Some []) (\<lambda>_. True) 7
      (Some ''Bearer k3'') 3 demo_app = (Reply OK (Some w), a')"
    using demo_poll by blast
  have "ctl_inv (app_cluster demo_app)" by (simp add: demo_app_cluster demo_live_inv)
  from work_is_handed_out_once [OF this r] r show ?thesis by (auto simp: demo_app_cluster)
qed

subsection \<open>Enrolment\<close>

text \<open>No other token has the hash, as SHA-256 of fresh random tokens makes it.\<close>

definition hash_unique :: "(string \<Rightarrow> string) \<Rightarrow> string \<Rightarrow> cluster \<Rightarrow> bool" where
  "hash_unique H token c \<longleftrightarrow>
     (\<forall>i j t u. hm_get (join_tokens c) i = Some t \<longrightarrow> hm_get (join_tokens c) j = Some u \<longrightarrow>
        token_hash t = H token \<longrightarrow> token_hash u = H token \<longrightarrow> i = j)"

lemma join_cluster_Reply:
  assumes "ctl_inv (app_cluster a)" "join_cluster cd H io now fresh cred token a = (Reply s v, a')"
  obtains t where "hm_get (join_tokens (app_cluster a)) (token_id t) = Some t"
    "token_valid H now token t" "v = \<lparr>cred_node_id = fresh, cred_credential = cred\<rparr>"
    "app_cluster a' = (app_cluster a)
       \<lparr>join_tokens := hm_insert (token_id t) (t\<lparr>token_used_at_ms := Some now\<rparr>)
          (join_tokens (app_cluster a)),
        node_credentials := hm_insert fresh (H cred) (node_credentials (app_cluster a))\<rparr>"
proof -
  note keyed = wf_parts(6) [OF ctl_invD(1) [OF assms(1)]]
  obtain t where t: "List.find (token_valid H now token) (hm_values (join_tokens (app_cluster a))) = Some t"
    using assms(2) by (auto simp: join_cluster_def Let_def split: option.splits)
  then have "t \<in> set (hm_values (join_tokens (app_cluster a)))" "token_valid H now token t"
    by (auto simp: find_Some_iff)
  then have "hm_get (join_tokens (app_cluster a)) (token_id t) = Some t" "token_valid H now token t"
    by (simp_all add: keyed_values_get [OF keyed])
  with that t assms(2) show ?thesis
    by (auto simp: join_cluster_def save_then_def save_def internal_error_def Let_def split: if_splits)
qed

lemma join_cluster_refused:
  assumes "ctl_inv (app_cluster a)"
    "\<And>i t. hm_get (join_tokens (app_cluster a)) i = Some t \<Longrightarrow> \<not> token_valid H now token t"
  shows "join_cluster cd H io now fresh cred token a
    = (Fail UNAUTHORIZED ''invalid or expired join token'', a)"
proof -
  note keyed = wf_parts(6) [OF ctl_invD(1) [OF assms(1)]]
  have "List.find (token_valid H now token) (hm_values (join_tokens (app_cluster a))) = None"
    using assms(2) by (auto simp: find_None_iff hm_set_values [OF keyed_wf [OF keyed]])
  then show ?thesis by (simp add: join_cluster_def)
qed

text \<open>C9: a node enrols with a join token only before the token expires and only once: after a
  successful enrolment the same token is refused at every later time, and the credential handed out
  authenticates the new node (when no two tokens or credentials share a hash).\<close>

theorem join_token_single_use:
  assumes inv: "ctl_inv (app_cluster a)" and unique: "hash_unique H token (app_cluster a)"
    and creds: "H cred \<notin> set (hm_values (node_credentials (app_cluster a)))"
    and joined: "join_cluster cd H io now fresh cred token a = (Reply s v, a')"
  shows "(\<exists>i t. hm_get (join_tokens (app_cluster a)) i = Some t \<and> token_hash t = H token \<and>
       now < token_expires_at_ms t \<and> token_used_at_ms t = None) \<and>
     cred_node_id v = fresh \<and>
     authenticated_node H (Some (''Bearer '' @ cred_credential v)) (app_cluster a') = Reply OK fresh \<and>
     (\<forall>io' now' fresh' cred'. join_cluster cd H io' now' fresh' cred' token a'
        = (Fail UNAUTHORIZED ''invalid or expired join token'', a'))"
proof -
  obtain t where t: "hm_get (join_tokens (app_cluster a)) (token_id t) = Some t"
    "token_valid H now token t" "v = \<lparr>cred_node_id = fresh, cred_credential = cred\<rparr>"
    "app_cluster a' = (app_cluster a)
       \<lparr>join_tokens := hm_insert (token_id t) (t\<lparr>token_used_at_ms := Some now\<rparr>)
          (join_tokens (app_cluster a)),
        node_credentials := hm_insert fresh (H cred) (node_credentials (app_cluster a))\<rparr>"
    by (rule join_cluster_Reply [OF inv joined])
  have valid: "token_hash t = H token" "now < token_expires_at_ms t" "token_used_at_ms t = None"
    using t(2) by (simp_all add: token_valid_def same_hash_eq)
  have inv': "ctl_inv (app_cluster a')"
    using join_cluster_inv [OF inv, of cd H io now fresh cred token] joined by simp
  have "\<not> token_valid H now' token u" if "hm_get (join_tokens (app_cluster a')) j = Some u" for now' j u
  proof (cases "j = token_id t")
    case True
    then show ?thesis using that by (auto simp: t(4) token_valid_def)
  next
    case False
    then have "hm_get (join_tokens (app_cluster a)) j = Some u" using that by (simp add: t(4))
    then have "token_hash u \<noteq> H token"
      using unique t(1) valid(1) False unfolding hash_unique_def by blast
    then show ?thesis by (simp add: token_valid_def same_hash_eq)
  qed
  then have refused: "join_cluster cd H io' now' fresh' cred' token a'
      = (Fail UNAUTHORIZED ''invalid or expired join token'', a')" for io' now' fresh' cred'
    by (intro join_cluster_refused [OF inv']) blast
  let ?creds = "hm_insert fresh (H cred) (node_credentials (app_cluster a))"
  have wf: "hm_wf (node_credentials (app_cluster a))" by (rule wf_parts(7) [OF ctl_invD(1) [OF inv]])
  have ins: "(n, h) \<in> set ?creds \<longleftrightarrow> hm_get ?creds n = Some h" for n h
    by (rule hm.entries_get) (simp add: wf)
  have "List.find (\<lambda>(nid, expected). same_hash expected (H cred)) ?creds \<noteq> None"
    using ins [of fresh "H cred"] by (auto simp: find_None_iff same_hash_eq)
  then obtain n h where f: "List.find (\<lambda>(nid, expected). same_hash expected (H cred)) ?creds = Some (n, h)"
    by fastforce
  then have nh: "(n, h) \<in> set ?creds" "h = H cred"
    by (auto simp: find_Some_iff same_hash_eq) (metis nth_mem)
  have "n = fresh"
  proof (rule ccontr)
    assume "n \<noteq> fresh"
    then have "hm_get (node_credentials (app_cluster a)) n = Some (H cred)" using nh ins by simp
    then show False using creds hm_values_in by metis
  qed
  with f have "authenticated_node H (Some (''Bearer '' @ cred)) (app_cluster a') = Reply OK fresh"
    by (simp add: authenticated_node_def strip_prefix_def t(4))
  with t valid refused show ?thesis by auto
qed


definition demo_joining :: app where
  "demo_joining = demo_app\<lparr>app_cluster := demo_live\<lparr>join_tokens :=
     [(1, \<lparr>token_id = 1, token_hash = ''jt'', token_expires_at_ms = 100, token_used_at_ms = None\<rparr>)]\<rparr>\<rparr>"

lemma demo_joining_inv: "ctl_inv (app_cluster demo_joining)"
  unfolding demo_joining_def
  by (rule ctl_inv_same [OF demo_live_inv])
    (use wf_parts [OF ctl_invD(1) [OF demo_live_inv]] in \<open>simp_all add: cluster_wf_def\<close>)

lemma demo_join:
  "\<exists>a'. join_cluster demo_codec (\<lambda>t. t) (\<lambda>_. True) 50 4 ''k4'' ''jt'' demo_joining
     = (Reply OK \<lparr>cred_node_id = 4, cred_credential = ''k4''\<rparr>, a')"
  by (simp add: join_cluster_def demo_joining_def hm_values_def hm_get_def token_valid_def same_hash_eq
      save_then_def save_def)

theorem join_token_single_use_witness:
  "\<exists>a'. join_cluster demo_codec (\<lambda>t. t) (\<lambda>_. True) 50 4 ''k4'' ''jt'' demo_joining
      = (Reply OK \<lparr>cred_node_id = 4, cred_credential = ''k4''\<rparr>, a') \<and>
    authenticated_node (\<lambda>t. t) (Some ''Bearer k4'') (app_cluster a') = Reply OK 4"
proof -
  obtain a' where j: "join_cluster demo_codec (\<lambda>t. t) (\<lambda>_. True) 50 4 ''k4'' ''jt'' demo_joining
      = (Reply OK \<lparr>cred_node_id = 4, cred_credential = ''k4''\<rparr>, a')"
    using demo_join by blast
  have "hash_unique (\<lambda>t. t) ''jt'' (app_cluster demo_joining)"
    by (simp add: hash_unique_def demo_joining_def hm_get_def)
  moreover have "''k4'' \<notin> set (hm_values (node_credentials (app_cluster demo_joining)))"
    by (simp add: demo_joining_def demo_live_def hm_values_def)
  ultimately show ?thesis using join_token_single_use [OF demo_joining_inv _ _ j] j by simp
qed

text \<open>Once a node has been deleted, no credential authenticates as it, its entry is gone, and
  no execution in memory is assigned to it or runs on it.\<close>

theorem deleted_node_is_revoked:
  assumes inv: "ctl_inv (app_cluster a)"
    and deleted: "delete_node cd io i a = (Reply s v, a')"
  shows "(\<forall>auth st. authenticated_node H auth (app_cluster a') \<noteq> Reply st i) \<and>
    hm_get (nodes (app_cluster a')) i = None \<and>
    (\<forall>j e. hm_get (executions (app_cluster a')) j = Some e \<longrightarrow> active_status (exec_status e) \<longrightarrow>
       exec_node e \<noteq> Some i)"
proof -
  let ?c = "(app_cluster a)\<lparr>nodes := hm_remove i (nodes (app_cluster a)),
    node_credentials := hm_remove i (node_credentials (app_cluster a))\<rparr>"
  have wf: "cluster_wf ?c"
    using wf_parts [OF ctl_invD(1) [OF inv]] by (auto simp: cluster_wf_def intro!: nodes_wf_remove)
  have a': "a' = snd (schedule_and_save cd io (\<lambda>_. Reply NO_CONTENT ()) (with_cluster ?c a))"
    using deleted by (auto simp: delete_node_def Let_def split: if_splits)
  obtain es c' where sched: "schedule_queued ?c = Some (es, c')" "app_cluster a' = c'"
    using schedule_and_save_cluster [of "with_cluster ?c a"] wf
    unfolding a' with_cluster_simps by metis
  have inv': "ctl_inv c'"
    using delete_node_inv [OF inv, of cd io i] deleted sched(2) by simp
  have cfg: "same_config c' ?c" by (rule schedule_queued_config [OF wf sched(1)])
  have "hm_get (nodes c') i = None"
    using schedule_queued_nodes_dom [OF wf sched(1)] by simp
  moreover have "authenticated_node H auth c' \<noteq> Reply st i" for auth st
  proof
    assume "authenticated_node H auth c' = Reply st i"
    then obtain token where "(i, H token) \<in> set (node_credentials c')" by (rule authenticated_nodeD)
    then show False
      using cfg wf_parts(7) [OF ctl_invD(1) [OF inv]] hm.entries_get [of "node_credentials c'"]
      by (simp add: same_config_def)
  qed
  moreover have "exec_node e \<noteq> Some i"
    if "hm_get (executions c') j = Some e" "active_status (exec_status e)" for j e
  proof -
    have "link_ok c' e" using ctl_invD(2) [OF inv'] that(1) by (simp add: links_def)
    then show ?thesis using that(2) calculation(1) by (auto simp: link_ok_def)
  qed
  ultimately show ?thesis using sched(2) by simp
qed


lemma demo_delete:
  "\<exists>a'. delete_node demo_codec (\<lambda>_. True) 2 (demo_app\<lparr>app_cluster := demo_live\<lparr>executions := []\<rparr>\<rparr>)
     = (Reply NO_CONTENT (), a')"
  by (simp add: delete_node_def demo_live_def demo_defs hm_defs hm_remove_def schedule_and_save_def
      schedule_queued_def queued_order_def Let_def save_def app_save_executions_def)

theorem deleted_node_is_revoked_witness:
  "\<exists>a'. delete_node demo_codec (\<lambda>_. True) 2 (demo_app\<lparr>app_cluster := demo_live\<lparr>executions := []\<rparr>\<rparr>)
      = (Reply NO_CONTENT (), a') \<and> hm_get (nodes (app_cluster a')) 2 = None"
proof -
  let ?c = "demo_live\<lparr>executions := []\<rparr>"
  have "ctl_inv ?c"
    using wf_parts [OF ctl_invD(1) [OF demo_live_inv]]
    by (simp add: ctl_inv_def cluster_wf_def links_def all_unfinished_def envs_ok_def)
      (simp add: demo_live_def demo_defs)
  then have "ctl_inv (app_cluster (demo_app\<lparr>app_cluster := ?c\<rparr>))" by simp
  then show ?thesis using deleted_node_is_revoked demo_delete by blast
qed

end
