(* ===== verification/Api_Requests.thy ===== *)
theory Api_Requests
  imports Api_Properties
begin

section \<open>What the requests are checked for, and what they leave behind\<close>

text \<open>
  Validation of pools and environments, the store of working directories, and the outcomes of
  creating an execution and of restarting an environment.
\<close>

subsection \<open>Pools\<close>

definition host_ports :: "port_spec list \<Rightarrow> (port_protocol \<times> u16) list" where
  "host_ports ps = List.map_filter (\<lambda>p. map_option (Pair (port_protocol p)) (port_host_port p)) ps"

definition guest_ports :: "port_spec list \<Rightarrow> (port_protocol \<times> u16) list" where
  "guest_ports ps = map (\<lambda>p. (port_protocol p, port_guest_port p)) ps"

text \<open>The ports of a pool as a whole.\<close>

definition ports_valid :: "port_spec list \<Rightarrow> bool" where
  "ports_valid ps \<longleftrightarrow>
     list_all (\<lambda>p. trim (port_name p) \<noteq> [] \<and> port_guest_port p \<noteq> 0 \<and> port_host_port p \<noteq> Some 0) ps \<and>
     distinct (map port_name ps) \<and> distinct (guest_ports ps) \<and> distinct (host_ports ps)"

lemma host_ports_simps [simp]:
  "host_ports [] = []"
  "host_ports (p # ps) = (case port_host_port p of None \<Rightarrow> host_ports ps
     | Some h \<Rightarrow> (port_protocol p, h) # host_ports ps)"
  by (simp_all add: host_ports_def List.map_filter_def split: option.split)

lemma check_ports_iff:
  "check_ports names guest host ps = None \<longleftrightarrow> ports_valid ps \<and>
     set (map port_name ps) \<inter> names = {} \<and> set (guest_ports ps) \<inter> guest = {} \<and>
     set (host_ports ps) \<inter> host = {}"
proof (induction ps arbitrary: names guest host)
  case (Cons p ps)
  show ?case
    by (cases "port_host_port p") (auto simp: Cons.IH Let_def ports_valid_def guest_ports_def)
qed (simp add: ports_valid_def guest_ports_def)

text \<open>A pool is created exactly when its image is a compatible micro-VM image that every node has,
  it claims no managed field, its name is free, its limits are consistent, and its ports (named,
  non-zero, without duplicates among names, guest ports and host ports per protocol) come with
  networking. Otherwise the controller's state is unchanged.\<close>

theorem create_pool_accepts_iff:
  "(fst (create_pool cd io p a) = Reply CREATED p \<longleftrightarrow> io 0 \<and> check_pool p (app_cluster a) = None) \<and>
   (check_pool p (app_cluster a) = None \<longleftrightarrow>
      (\<exists>img. hm_get (images (app_cluster a)) (pool_image p) = Some img \<and>
         image_kind img = MicroVmImage \<and> image_compatible img) \<and>
      image_ready (app_cluster a) (pool_image p) \<and>
      pool_managed_by p = None \<and> pool_environment p = None \<and> pool_preload p = [] \<and>
      hm_get (pools (app_cluster a)) (pool_name p) = None \<and>
      (\<forall>l. pool_max_instances p = Some l \<longrightarrow> l \<noteq> 0 \<and> pool_warm_instances p \<le> l) \<and>
      (pool_ports p = [] \<or> pool_network p) \<and> ports_valid (pool_ports p)) \<and>
   (check_pool p (app_cluster a) \<noteq> None \<longrightarrow> snd (create_pool cd io p a) = a)"
proof (intro conjI)
  show "fst (create_pool cd io p a) = Reply CREATED p \<longleftrightarrow> io 0 \<and> check_pool p (app_cluster a) = None"
    by (auto simp: create_pool_def save_then_def save_def internal_error_def Let_def split: option.split)
  show "check_pool p (app_cluster a) \<noteq> None \<longrightarrow> snd (create_pool cd io p a) = a"
    by (auto simp: create_pool_def Let_def)
  show "check_pool p (app_cluster a) = None \<longleftrightarrow>
      (\<exists>img. hm_get (images (app_cluster a)) (pool_image p) = Some img \<and>
         image_kind img = MicroVmImage \<and> image_compatible img) \<and>
      image_ready (app_cluster a) (pool_image p) \<and>
      pool_managed_by p = None \<and> pool_environment p = None \<and> pool_preload p = [] \<and>
      hm_get (pools (app_cluster a)) (pool_name p) = None \<and>
      (\<forall>l. pool_max_instances p = Some l \<longrightarrow> l \<noteq> 0 \<and> pool_warm_instances p \<le> l) \<and>
      (pool_ports p = [] \<or> pool_network p) \<and> ports_valid (pool_ports p)"
    by (cases "hm_get (images (app_cluster a)) (pool_image p)"; cases "pool_max_instances p")
      (auto simp: check_pool_def check_ports_iff not_less)
qed

lemma demo_pool_checks:
  "check_pool (demo_pool\<lparr>pool_name := ''new''\<rparr>) (app_cluster demo_app) = None"
  by (simp add: check_pool_def demo_app_def demo_live_def demo_defs hm_defs image_ready_def)

theorem create_pool_accepts_iff_witness:
  "fst (create_pool demo_codec (\<lambda>_. True) (demo_pool\<lparr>pool_name := ''new''\<rparr>) demo_app)
     = Reply CREATED (demo_pool\<lparr>pool_name := ''new''\<rparr>)"
  using create_pool_accepts_iff [of demo_codec "\<lambda>_. True" "demo_pool\<lparr>pool_name := ''new''\<rparr>" demo_app]
    demo_pool_checks by simp

subsection \<open>Environments\<close>

definition NUL :: char where
  "NUL = char_of (0 :: nat)"

lemma split_at_NUL:
  assumes "NUL \<notin> set s" "NUL \<notin> set t" "s @ NUL # r = t @ NUL # r'"
  shows "s = t \<and> r = r'"
  using assms
proof (induction s arbitrary: t)
  case Nil
  then show ?case by (cases t) auto
next
  case (Cons c s)
  then show ?case by (cases t) auto
qed

lemma packages_inject:
  assumes "\<And>p. p \<in> set ps \<union> set qs \<Longrightarrow> NUL \<notin> set p" "NUL \<notin> set s" "NUL \<notin> set t"
    "s @ concat (map (\<lambda>p. NUL # p) ps) = t @ concat (map (\<lambda>p. NUL # p) qs)"
  shows "s = t \<and> ps = qs"
  using assms
proof (induction ps arbitrary: qs s t)
  case Nil
  then show ?case by (cases qs) auto
next
  case (Cons p ps)
  show ?case
  proof (cases qs)
    case Nil
    with Cons.prems(4) have "t = s @ NUL # p @ concat (map (\<lambda>p. NUL # p) ps)" by simp
    with Cons.prems(3) show ?thesis by simp
  next
    case qs: (Cons q qs')
    have "s @ NUL # (p @ concat (map (\<lambda>p. NUL # p) ps)) = t @ NUL # (q @ concat (map (\<lambda>p. NUL # p) qs'))"
      using Cons.prems(4) by (simp add: qs)
    then have st: "s = t" "p @ concat (map (\<lambda>p. NUL # p) ps) = q @ concat (map (\<lambda>p. NUL # p) qs')"
      using split_at_NUL [OF Cons.prems(2,3)] by blast+
    have "p = q \<and> ps = qs'"
      by (rule Cons.IH [OF _ _ _ st(2)]) (use Cons.prems(1) qs in auto)
    with st(1) show ?thesis by (simp add: qs)
  qed
qed

lemma first_prefix_suffix: "first_prefix ws s = Some r \<Longrightarrow> \<exists>p. s = p @ r"
proof (induction ws)
  case (Cons w ws)
  show ?case
  proof (cases "strip_prefix w s")
    case None
    with Cons show ?thesis by simp
  next
    case (Some x)
    then have "s = take (length w) s @ x"
      by (metis append_take_drop_id option.distinct(1) option.inject strip_prefix_def)
    with Cons.prems Some show ?thesis by auto
  qed
qed simp

lemma set_trim_prefixes: "set (trim_prefixes ws s) \<subseteq> set s"
proof (induction ws s rule: trim_prefixes.induct)
  case (1 ws s)
  show ?case
  proof (cases "first_prefix (filter (\<lambda>w. w \<noteq> []) ws) s")
    case (Some r)
    then obtain p where "s = p @ r" using first_prefix_suffix by blast
    with 1 Some show ?thesis by (subst trim_prefixes.simps) auto
  qed (simp add: trim_prefixes_none)
qed

lemma set_trim: "set (trim s) \<subseteq> set s"
  using set_trim_prefixes by (auto simp: trim_def trim_start_def trim_end_def) (metis set_rev subsetD)

lemma clean_list_iff:
  "clean_list xs = clean_list ys \<longleftrightarrow> trim ` set xs - {[]} = trim ` set ys - {[]}"
proof -
  have "set (filter (\<lambda>s. s \<noteq> []) (map trim zs)) = trim ` set zs - {[]}" for zs by auto
  then show ?thesis
    using sort_dedup_canonical [of "filter (\<lambda>s. s \<noteq> []) (map trim xs)" "filter (\<lambda>s. s \<noteq> []) (map trim ys)"]
    by (simp add: clean_list_def)
qed

text \<open>The text whose digest names an environment artifact.\<close>

definition key_text :: "string \<Rightarrow> string list \<Rightarrow> string" where
  "key_text sha packages = ''v2'' @ sha @ concat (map (\<lambda>p. NUL # p) packages)"

text \<open>Two environments share an artifact exactly when they are built from the same image content
  and, up to surrounding white space, order and repetition, the same packages, as long as the digest
  does not collide and no package contains a zero byte.\<close>

theorem environment_key_canonical:
  assumes collision_free: "inj_on H {key_text sha (clean_list xs), key_text sha' (clean_list ys)}"
    and no_zero: "\<And>p. p \<in> set xs \<union> set ys \<Longrightarrow> NUL \<notin> set p" "NUL \<notin> set sha" "NUL \<notin> set sha'"
  shows "environment_key H sha (clean_list xs) = environment_key H sha' (clean_list ys) \<longleftrightarrow>
    sha = sha' \<and> trim ` set xs - {[]} = trim ` set ys - {[]}"
proof -
  have key: "environment_key H s ps = H (key_text s ps)" for s ps
    by (simp add: environment_key_def key_text_def NUL_def)
  have nz: "NUL \<notin> set p" if "p \<in> set (clean_list xs) \<union> set (clean_list ys)" for p
    using that no_zero(1) set_trim by (auto simp: clean_list_def)
  have "key_text sha (clean_list xs) = key_text sha' (clean_list ys) \<longleftrightarrow>
      sha = sha' \<and> clean_list xs = clean_list ys"
    using packages_inject [OF nz no_zero(2,3)] by (auto simp: key_text_def)
  moreover have "H (key_text sha (clean_list xs)) = H (key_text sha' (clean_list ys)) \<longleftrightarrow>
      key_text sha (clean_list xs) = key_text sha' (clean_list ys)"
    by (rule inj_on_eq_iff [OF collision_free]) simp_all
  ultimately show ?thesis by (simp only: key clean_list_iff)
qed

text \<open>The zero byte in a package name joins two packages.\<close>

lemma environment_key_zero_byte:
  "environment_key H sha [p @ NUL # q] = environment_key H sha [p, q]"
  by (simp add: environment_key_def NUL_def)

theorem environment_key_canonical_witness:
  "environment_key (\<lambda>t. t) ''00'' (clean_list [''env'']) = environment_key (\<lambda>t. t) ''00'' (clean_list [''env'', ''env''])"
proof -
  have "NUL \<notin> set ''env''" "NUL \<notin> set ''00''" by (simp_all add: NUL_def char_of_eq_iff)
  moreover have only: "p \<in> set [''env''] \<union> set [''env'', ''env''] \<longleftrightarrow> p = ''env''" for p by auto
  ultimately have "environment_key (\<lambda>t. t) ''00'' (clean_list [''env''])
      = environment_key (\<lambda>t. t) ''00'' (clean_list [''env'', ''env'']) \<longleftrightarrow>
      ''00'' = ''00'' \<and> trim ` set [''env''] - {[]} = trim ` set [''env'', ''env''] - {[]}"
    by (intro environment_key_canonical) (simp_all add: insert_absorb only)
  then show ?thesis by simp
qed


subsection \<open>Working directories\<close>

lemma schedule_and_save_dirs [simp]:
  "app_working_dirs (snd (schedule_and_save cd io r a)) = app_working_dirs a"
  by (auto simp: schedule_and_save_def Let_def save_def dest!: app_save_executions_cluster
      split: option.split)

lemma as_node_dirs:
  assumes "\<And>nid. app_working_dirs (snd (h nid a)) = app_working_dirs a"
  shows "app_working_dirs (snd (as_node H auth h a)) = app_working_dirs a"
  using assms by (auto simp: as_node_def split: response.split)

lemma as_this_node_dirs:
  assumes "app_working_dirs (snd (h a)) = app_working_dirs a"
  shows "app_working_dirs (snd (as_this_node H auth i h a)) = app_working_dirs a"
  unfolding as_this_node_def by (rule as_node_dirs) (use assms in simp)

lemma image_pool_dirs:
  "app_working_dirs (snd (import_commit cd io fresh name req ex src sha sz a)) = app_working_dirs a"
  "app_working_dirs (snd (update_image cd io i name ex a)) = app_working_dirs a"
  "app_working_dirs (snd (delete_image cd io i a)) = app_working_dirs a"
  "app_working_dirs (snd (create_pool cd io p a)) = app_working_dirs a"
  "app_working_dirs (snd (delete_pool cd io q a)) = app_working_dirs a"
  by (auto simp: import_commit_def update_image_def delete_image_def create_pool_def delete_pool_def
      Let_def split: option.split)

lemma finish_environment_dirs [simp]:
  "app_working_dirs (snd (finish_environment cd io ids e i a)) = app_working_dirs a"
  by (auto simp: finish_environment_def Let_def save_def dest!: app_save_executions_cluster
      split: option.split)

lemma environment_dirs:
  "app_working_dirs (snd (create_environment_commit cd io i r img art a)) = app_working_dirs a"
  "app_working_dirs (snd (update_environment_commit cd io suffix i old img r art a)) = app_working_dirs a"
  "app_working_dirs (snd (restart_environment cd io suffix i a)) = app_working_dirs a"
  "app_working_dirs (snd (delete_environment cd io i a)) = app_working_dirs a"
  by (auto simp: create_environment_commit_def update_environment_commit_def restart_environment_def
      delete_environment_def Let_def split: option.split)

lemma node_dirs:
  "app_working_dirs (snd (create_join_token cd H io now fresh token a)) = app_working_dirs a"
  "app_working_dirs (snd (join_cluster cd H io now fresh cred token a)) = app_working_dirs a"
  "app_working_dirs (snd (local_join cd H io loopback fresh cred req a)) = app_working_dirs a"
  "app_working_dirs (snd (update_node cd io i k a)) = app_working_dirs a"
  "app_working_dirs (snd (delete_node cd io i a)) = app_working_dirs a"
  "app_working_dirs (snd (register_node cd H io now auth r a)) = app_working_dirs a"
  "app_working_dirs (snd (report_image_ready cd H io auth i img a)) = app_working_dirs a"
  "app_working_dirs (snd (report_environment_ready cd H io auth i art a)) = app_working_dirs a"
  "app_working_dirs (snd (api_add_warm_instance cd H io auth i q a)) = app_working_dirs a"
  "app_working_dirs (snd (api_remove_idle_instance cd H io auth i q a)) = app_working_dirs a"
  by (auto simp: create_join_token_def join_cluster_def local_join_def update_node_def delete_node_def
      register_node_def report_image_ready_def report_environment_ready_def
      api_add_warm_instance_def api_remove_idle_instance_def Let_def
      split: option.split prod.split bool.split intro!: as_node_dirs as_this_node_dirs)

lemma admit_dirs: "app_working_dirs (snd (admit_execution cd io q e a)) = app_working_dirs a"
  by (auto simp: admit_execution_def Let_def dest!: app_save_executions_cluster split: option.split)

lemma execution_dirs:
  "app_working_dirs (snd (create_execution cd seal io now fresh r a)) = app_working_dirs a"
  "app_working_dirs (snd (poll_work cd H unseal io now auth nid a)) = app_working_dirs a"
  "app_working_dirs (snd (complete_execution cd H io now auth i done a)) = app_working_dirs a"
proof -
  show "app_working_dirs (snd (create_execution cd seal io now fresh r a)) = app_working_dirs a"
    by (auto simp: create_execution_def Let_def admit_dirs dest!: db_insert_cluster
        split: option.split response.split bool.split)
  show "app_working_dirs (snd (poll_work cd H unseal io now auth nid a)) = app_working_dirs a"
    unfolding poll_work_def look_for_work_def
    by (rule as_this_node_dirs) (auto simp: Let_def dest!: app_save_executions_cluster split: option.split)
  show "app_working_dirs (snd (complete_execution cd H io now auth i done a)) = app_working_dirs a"
    unfolding complete_execution_def
    by (rule as_node_dirs) (auto simp: Let_def save_def dest!: app_save_executions_cluster split: option.split)
qed

lemma handles_dirs:
  assumes "handles cd H h a (p, a')" "h \<noteq> UploadWorkingDir"
  shows "app_working_dirs a' = app_working_dirs a"
  using assms(1)
  by (cases rule: handles.cases)
    (use assms(2) in \<open>simp_all add: outcome_iff_sym image_pool_dirs environment_dirs
      node_dirs execution_dirs\<close>)

text \<open>Every stored file is named by the digest of its content, in 64 hexadecimal digits.\<close>

definition dirs_ok :: "(string \<Rightarrow> string) \<Rightarrow> (string, string) hashmap \<Rightarrow> bool" where
  "dirs_ok H dirs \<longleftrightarrow> (\<forall>name body. hm_get dirs name = Some body \<longrightarrow>
     name = H body @ ''.zip'' \<and> length (H body) = 64 \<and> list_all lower_hex (H body))"

lemma upload_dirs_ok:
  assumes "dirs_ok H (app_working_dirs a)"
  shows "dirs_ok H (app_working_dirs (snd (upload_working_dir H ok d body a)))"
  using assms
  by (auto simp: upload_working_dir_def working_dir_path_def dirs_ok_def split: if_splits)

lemma controller_step_dirs_ok:
  assumes "controller_step cd H h s (p, t)" "dirs_ok H (app_working_dirs (ctl_app s))"
  shows "dirs_ok H (app_working_dirs (ctl_app t))"
  using assms(1)
proof (cases rule: controller_step.cases)
  case (one_lock a')
  have "dirs_ok H (app_working_dirs a')"
  proof (cases "h = UploadWorkingDir")
    case True
    with one_lock(2) obtain ok d body where "a' = snd (upload_working_dir H ok d body (ctl_app s))"
      by (auto elim: handles.cases simp: outcome_iff_sym)
    then show ?thesis using upload_dirs_ok [OF assms(2)] by simp
  next
    case False
    then show ?thesis using handles_dirs [OF one_lock(2)] assms(2) by simp
  qed
  with one_lock show ?thesis by simp
qed (use assms(2) in \<open>auto simp: outcome_iff environment_dirs\<close>)

interpretation store: invariant_system "controller_start cd" "controller_steps cd H"
    "\<lambda>s. dirs_ok H (app_working_dirs (ctl_app s))" for cd H
proof (unfold_locales, goal_cases)
  case (1 s)
  then show ?case using boot_new by (auto simp: controller_start_def dirs_ok_def)
next
  case (2 s t)
  then show ?case using controller_step_dirs_ok by (auto simp: controller_steps_def)
qed

text \<open>In every run, whatever is uploaded, a working directory that the controller holds for a digest
  has that digest, so an execution that names it gets the content it was created for.\<close>

theorem working_dirs_content_addressed:
  assumes "reachable (controller_start cd) (controller_steps cd H) s"
    and "working_dir_path digest = Reply OK name"
    and "hm_get (app_working_dirs (ctl_app s)) name = Some body"
  shows "H body = digest"
  using store.reachable_inv [OF assms(1)] assms(2,3)
  by (auto simp: dirs_ok_def working_dir_path_def split: if_splits)


definition digest_a :: string where
  "digest_a = replicate 64 CHR ''a''"

lemma digest_a_path: "working_dir_path digest_a = Reply OK (digest_a @ ''.zip'')"
  by (simp add: working_dir_path_def digest_a_def lower_hex_def list_all_iff)

theorem working_dirs_content_addressed_witness:
  "\<exists>s. reachable (controller_start demo_codec) (controller_steps demo_codec (\<lambda>_. digest_a)) s \<and>
     hm_get (app_working_dirs (ctl_app s)) (digest_a @ ''.zip'') = Some ''zip'' \<and>
     (\<lambda>_. digest_a) ''zip'' = digest_a"
proof -
  let ?R = "reachable (controller_start demo_codec) (controller_steps demo_codec (\<lambda>_. digest_a))"
  let ?t = "demo_start\<lparr>ctl_app :=
    snd (upload_working_dir (\<lambda>_. digest_a) True digest_a ''zip'' (ctl_app demo_start))\<rparr>"
  have "?R demo_start" by (rule reachable_initial) (rule demo_start)
  then have R: "?R ?t"
    by (rule reachable_step) (rule handles_step [where h = UploadWorkingDir], simp add: handles.intros(22))
  have get: "hm_get (app_working_dirs (ctl_app ?t)) (digest_a @ ''.zip'') = Some ''zip''"
    by (simp add: upload_working_dir_def digest_a_path demo_start_def)
  from working_dirs_content_addressed [OF R digest_a_path get] R get show ?thesis by blast
qed

subsection \<open>Creating an execution\<close>

lemma app_save_one_row:
  assumes "app_save_executions cd ok [e] a = Some a'"
  shows "find_row j (db_rows (app_db a')) =
    (if j = uuid_text cd (exec_id e)
     then Some (case find_row j (db_rows (app_db a)) of
         None \<Rightarrow> row_of_execution cd e | Some x \<Rightarrow> merge_row x (row_of_execution cd e))
     else find_row j (db_rows (app_db a)))"
proof -
  have "row_id (row_of_execution cd e) = uuid_text cd (exec_id e)" by (simp add: row_of_execution_def)
  with assms show ?thesis
    by (auto simp: app_save_executions_def upsert_execution_def find_row_upsert split: if_splits)
qed

lemma find_row_deleted: "find_row i (delete_row i rs) = None"
  by (auto simp: find_row_None delete_row_def)

text \<open>
  An execution that is in memory after its submission: queued, when the request allows it, or assigned.
\<close>

definition placed_as :: "bool \<Rightarrow> execution \<Rightarrow> execution \<Rightarrow> bool" where
  "placed_as queue e e' \<longleftrightarrow> e' = e \<and> queue \<or> (\<exists>n. e' = assign_execution e n)"

text \<open>The ways in which admitting a fresh execution with the row \<open>x\<close> can end.\<close>

lemma admit_cases:
  assumes inv: "ctl_inv ((app_cluster a)\<lparr>executions := hm_insert i e (executions (app_cluster a))\<rparr>)"
    and i: "exec_id e = i" and new: "hm_get (executions (app_cluster a)) i = None"
    and x: "find_row (uuid_text cd i) (db_rows (app_db a)) = Some x"
  obtains (accepted) e' a' where
      "admit_execution cd io q e a = (Reply ACCEPTED (view_of_execution e'), a')"
      "hm_get (executions (app_cluster a')) i = Some e'" "placed_as q e e'"
      "\<And>j. j \<noteq> i \<Longrightarrow> hm_get (executions (app_cluster a')) j = hm_get (executions (app_cluster a)) j"
      "\<And>j. find_row j (db_rows (app_db a')) = (if j = uuid_text cd i
         then Some (merge_row x (row_of_execution cd e')) else find_row j (db_rows (app_db a)))"
  | (full) a' where "\<not> q" "admit_execution cd io q e a = (Fail SERVICE_UNAVAILABLE ''cluster is full'', a')"
      "app_cluster a' = (app_cluster a)\<lparr>executions := hm_remove i (hm_insert i e (executions (app_cluster a)))\<rparr>"
      "\<And>j. find_row j (db_rows (app_db a')) = (if j = uuid_text cd i then None else find_row j (db_rows (app_db a)))"
  | (undeleted) a' where "\<not> q" "admit_execution cd io q e a = (internal_error, a')"
      "app_cluster a' = (app_cluster a)\<lparr>executions := hm_remove i (hm_insert i e (executions (app_cluster a)))\<rparr>"
      "app_db a' = app_db a"
  | (unsaved) e' a' where "admit_execution cd io q e a = (internal_error, a')"
      "hm_get (executions (app_cluster a')) i = Some e'" "placed_as q e e'"
      "\<And>j. j \<noteq> i \<Longrightarrow> hm_get (executions (app_cluster a')) j = hm_get (executions (app_cluster a)) j"
      "app_db a' = app_db a"
proof -
  let ?c1 = "(app_cluster a)\<lparr>executions := hm_insert i e (executions (app_cluster a))\<rparr>"
  have wf: "cluster_wf ?c1" using inv by (simp add: ctl_inv_def)
  show ?thesis
    using wf
  proof (cases rule: schedule_cases [of ?c1 i])
    case refused
    show ?thesis
    proof (cases q)
      case True
      have get: "hm_get (executions ?c1) i = Some e" by simp
      show ?thesis
      proof (cases "app_save_executions cd (io 2) [e] (with_cluster ?c1 a)")
        case None
        then show ?thesis
          using True by (intro unsaved [of "with_cluster ?c1 a" e]) (auto simp: admit_execution_def Let_def i refused(1) placed_as_def)
      next
        case (Some a3)
        then have "admit_execution cd io q e a = (Reply ACCEPTED (view_of_execution e), a3)"
          by (simp add: admit_execution_def Let_def i refused(1) True)
        then show ?thesis
          using app_save_executions_cluster [OF Some] app_save_one_row [OF Some] True i x
          by (intro accepted [of e a3]) (auto simp: placed_as_def)
      qed
    next
      case False
      then show ?thesis
        using full undeleted i refused(1)
        by (cases "io 1") (auto simp: admit_execution_def Let_def delete_execution_def find_row_delete)
    qed
  next
    case (assigned e0 p n)
    have e0: "e0 = e" using assigned(2) by (simp add: placeable_Some)
    let ?e' = "assign_execution e (node_id n)"
    let ?c2 = "assigned_cluster i e p n ?c1"
    have get: "hm_get (executions ?c2) i = Some ?e'" by (simp add: assigned_cluster_def)
    have others: "hm_get (executions ?c2) j = hm_get (executions (app_cluster a)) j" if "j \<noteq> i" for j
      using that by (simp add: assigned_cluster_def)
    show ?thesis
    proof (cases "app_save_executions cd (io 2) [?e'] (with_cluster ?c2 a)")
      case None
      then show ?thesis
        using assigned(1) get others
        by (intro unsaved [of "with_cluster ?c2 a" ?e']) (auto simp: admit_execution_def Let_def i e0 placed_as_def)
    next
      case (Some a3)
      then have "admit_execution cd io q e a = (Reply ACCEPTED (view_of_execution ?e'), a3)"
        using assigned(1) get by (simp add: admit_execution_def Let_def i e0)
      then show ?thesis
        using app_save_executions_cluster [OF Some] app_save_one_row [OF Some] get others i x
        by (intro accepted [of ?e' a3]) (auto simp: placed_as_def)
    qed
  qed
qed


text \<open>C11: what a submission ends in, for an identifier that is new in memory and in the database, when the
  controller has its invariant and the database its primary key. Accepted: the execution is in memory with what
  was submitted, queued (only when the request allows it) or assigned, and its row is the one of that
  execution with its encrypted secrets. Refused because the cluster is full: only when the request does
  not queue, and it has left neither memory nor a row. Refused because the store is full: the cluster is
  as before, and it has no row. An internal error: nothing has changed, or the execution was stored, as
  it was before it was placed and with its secrets, and either it was to be refused because the cluster
  is full and only its row remains, or it is in memory, queued or assigned, like an accepted one. Refused
  for any other reason, or a panic: nothing has changed. In every case the other executions in memory are
  as before, and so are the other rows, but for finished ones that pruning may have removed.\<close>

theorem create_execution_outcomes:
  assumes inv: "ctl_inv (app_cluster a)" and new: "hm_get (executions (app_cluster a)) i = None"
    and db: "db_wf (app_db a)" "find_row (uuid_text cd i) (db_rows (app_db a)) = None"
    and r: "create_execution cd seal io now i r a = (resp, a')"
  shows "(\<forall>j. j \<noteq> i \<longrightarrow> hm_get (executions (app_cluster a')) j = hm_get (executions (app_cluster a)) j) \<and>
    (\<forall>j. j \<noteq> uuid_text cd i \<longrightarrow>
       find_row j (db_rows (app_db a')) \<in> {None, find_row j (db_rows (app_db a))} \<and>
       (\<forall>x. find_row j (db_rows (app_db a)) = Some x \<longrightarrow> status_active (row_status x) \<longrightarrow>
          find_row j (db_rows (app_db a')) = Some x)) \<and>
    (case resp of
      Reply s v \<Rightarrow> s = ACCEPTED \<and>
        (\<exists>pname env secrets e'. resolve_target cd r (app_cluster a) = Reply OK (pname, env) \<and>
          seal i (creq_secrets r) = Some secrets \<and>
          placed_as (creq_queue r) (new_execution i now r pname env) e' \<and>
          hm_get (executions (app_cluster a')) i = Some e' \<and> v = view_of_execution e' \<and>
          find_row (uuid_text cd i) (db_rows (app_db a')) =
            Some (merge_row (inserted_row cd (new_execution i now r pname env) secrets) (row_of_execution cd e')))
    | Fail s m \<Rightarrow>
        if s = SERVICE_UNAVAILABLE then
          \<not> creq_queue r \<and> hm_get (executions (app_cluster a')) i = None \<and>
          nodes (app_cluster a') = nodes (app_cluster a) \<and>
          find_row (uuid_text cd i) (db_rows (app_db a')) = None
        else if s = INSUFFICIENT_STORAGE then
          app_cluster a' = app_cluster a \<and> find_row (uuid_text cd i) (db_rows (app_db a')) = None
        else if s = INTERNAL_SERVER_ERROR then
          a' = a \<or>
          (\<exists>pname env secrets. resolve_target cd r (app_cluster a) = Reply OK (pname, env) \<and>
            seal i (creq_secrets r) = Some secrets \<and>
            find_row (uuid_text cd i) (db_rows (app_db a')) =
              Some (inserted_row cd (new_execution i now r pname env) secrets) \<and>
            (\<not> creq_queue r \<and> hm_get (executions (app_cluster a')) i = None \<and>
               nodes (app_cluster a') = nodes (app_cluster a) \<or>
             (\<exists>e'. placed_as (creq_queue r) (new_execution i now r pname env) e' \<and>
               hm_get (executions (app_cluster a')) i = Some e')))
        else a' = a
    | Panic \<Rightarrow> a' = a)"
proof (cases "check_working_dir (creq_payload r) a")
  case (Some sm)
  obtain s m where sm: "sm = (s, m)" by (cases sm)
  then have "a' = a" "resp = Fail s m" using r Some by (simp_all add: create_execution_def)
  moreover have "s \<notin> {SERVICE_UNAVAILABLE, INSUFFICIENT_STORAGE}"
    using Some sm
    by (auto simp: check_working_dir_def working_dir_path_def split: option.splits response.splits if_splits)
  ultimately show ?thesis by simp
next
  case checked: None
  show ?thesis
  proof (cases "resolve_target cd r (app_cluster a)")
    case (Fail s m)
    then have "s = BAD_REQUEST"
      by (auto simp: resolve_target_def Let_def split: option.splits if_splits)
    moreover have "a' = a" "resp = Fail s m" using r checked Fail by (simp_all add: create_execution_def)
    ultimately show ?thesis by simp
  next
    case Panic
    then have "a' = a" "resp = Panic" using r checked by (simp_all add: create_execution_def)
    then show ?thesis by simp
  next
    case (Reply s t)
    obtain pname env where t: "t = (pname, env)" by (cases t)
    have "s = OK" using Reply by (auto simp: resolve_target_def Let_def split: option.splits if_splits)
    with Reply t have target: "resolve_target cd r (app_cluster a) = Reply OK (pname, env)" by simp
    let ?e = "new_execution i now r pname env"
    show ?thesis
    proof (cases "seal i (creq_secrets r)")
      case None
      then have "a' = a" "\<exists>m. resp = Fail INTERNAL_SERVER_ERROR m"
        using r checked target by (auto simp: create_execution_def internal_error_def)
      then show ?thesis by auto
    next
      case (Some secrets)
      note sealed = this
      show ?thesis
      proof (cases "db_insert cd (io 0) ?e secrets a")
        case None
        then have "a' = a" "\<exists>m. resp = Fail INTERNAL_SERVER_ERROR m"
          using r checked target sealed by (auto simp: create_execution_def Let_def internal_error_def)
        then show ?thesis by auto
      next
        case (Some ba)
        obtain b a1 where ba: "ba = (b, a1)" by (cases ba)
        have c1: "app_cluster a1 = app_cluster a"
          using db_insert_cluster [OF Some [unfolded ba]] by simp
        have insert: "insert_execution cd ?e secrets (app_db a) = Some (b, app_db a1)"
          using Some ba by (auto simp: db_insert_def split: if_splits)
        have e: "exec_id ?e = i" "exec_status ?e = Queued" by (simp_all add: new_execution_def)
        note row = insert_execution_admits [OF db(1) _ _ insert, unfolded e, OF db(2)]
        have others: "find_row j (db_rows (app_db a1)) \<in> {None, find_row j (db_rows (app_db a))}"
          "\<And>x. find_row j (db_rows (app_db a)) = Some x \<Longrightarrow> status_active (row_status x) \<Longrightarrow>
             find_row j (db_rows (app_db a1)) = Some x" if "j \<noteq> uuid_text cd i" for j
          using row that by auto
        show ?thesis
        proof (cases b)
          case False
          then have "a' = a1" "\<exists>m. resp = Fail INSUFFICIENT_STORAGE m"
            using r checked target sealed Some ba by (auto simp: create_execution_def Let_def)
          moreover have "find_row (uuid_text cd i) (db_rows (app_db a1)) = None" using row False by auto
          ultimately show ?thesis using c1 others by auto
        next
          case True
          have admit: "admit_execution cd io (creq_queue r) ?e a1 = (resp, a')"
            using r checked target sealed Some ba True by (simp add: create_execution_def Let_def)
          have "ctl_inv ((app_cluster a1)\<lparr>executions := hm_insert i ?e (executions (app_cluster a1))\<rparr>)"
            using resolve_target_owner [OF inv target] inv
            by (intro insert_execution_inv) (auto simp: c1 new_execution_def)
          moreover note e(1)
          moreover have "hm_get (executions (app_cluster a1)) i = None" by (simp add: c1 new)
          moreover have stored: "find_row (uuid_text cd i) (db_rows (app_db a1)) = Some (inserted_row cd ?e secrets)"
            using row True by auto
          ultimately show ?thesis
          proof (cases rule: admit_cases [where cd = cd and io = io and q = "creq_queue r"])
            case (accepted e' a2)
            then have res: "a2 = a'" "resp = Reply ACCEPTED (view_of_execution e')" using admit by simp_all
            show ?thesis
              using accepted(2-5) target sealed others unfolding res response.case c1 by auto
          next
            case (full a2)
            then have res: "a2 = a'" "resp = Fail SERVICE_UNAVAILABLE ''cluster is full''" using admit by simp_all
            show ?thesis using full(1,3,4) others new unfolding res response.case c1 by simp
          next
            case (undeleted a2)
            then have res: "a2 = a'" "\<exists>m. resp = Fail INTERNAL_SERVER_ERROR m"
              using admit by (auto simp: internal_error_def)
            then show ?thesis using undeleted(1,3,4) others new target sealed stored c1 by auto
          next
            case (unsaved e' a2)
            then have res: "a2 = a'" "\<exists>m. resp = Fail INTERNAL_SERVER_ERROR m"
              using admit by (auto simp: internal_error_def)
            then show ?thesis using unsaved(2-5) others target sealed stored c1 by auto
          qed
        qed
      qed
    qed
  qed
qed

text \<open>A cluster with an environment and no node.\<close>

definition demo_env_app :: app where
  "demo_env_app = race_3\<lparr>app_cluster := (app_cluster race_3)\<lparr>images := [(7, race_image)]\<rparr>,
     app_db := open_database\<rparr>"

lemma demo_env_inv: "ctl_inv (app_cluster demo_env_app)"
proof -
  have "ctl_inv (app_cluster race_3)" using ctl.reachable_inv [OF race_reachable] by simp
  then show ?thesis
    unfolding demo_env_app_def
  proof (rule ctl_inv_frame)
    show "cluster_wf (app_cluster (race_3\<lparr>app_cluster := (app_cluster race_3)
        \<lparr>images := [(7, race_image)]\<rparr>, app_db := open_database\<rparr>))"
      using wf_parts [OF ctl_invD(1) [OF \<open>ctl_inv (app_cluster race_3)\<close>]]
      by (simp add: cluster_wf_def race_image_def)
  qed (simp_all add: keeps_def from_env_def)
qed

lemma demo_env_create:
  "\<exists>v a'. create_execution demo_codec (\<lambda>_ _. Some [9]) (\<lambda>_. True) 5 9 (race_execution demo_codec)
     demo_env_app = (Reply ACCEPTED v, a')"
  by (simp add: create_execution_def check_working_dir_def race_execution_def resolve_target_def
      demo_env_app_def race_clusters empty_cluster_def hm_defs environment_pool_def environment_of_def
      race_image_def python_encoding_def json_get_str_def Let_def db_insert_def insert_execution_def
      new_execution_def storage_eval prune_eval update_where_def add_secrets_def option_length_def
      admit_execution_def schedule_def limit_reached_def active_count_def idle_total_def candidates_def
      app_save_executions_def execution_size_def active_in_def active_status_def view_of_execution_def race_request_def)


theorem create_execution_outcomes_witness:
  "\<exists>v a' e. create_execution demo_codec (\<lambda>_ _. Some [9]) (\<lambda>_. True) 5 9 (race_execution demo_codec)
     demo_env_app = (Reply ACCEPTED v, a') \<and>
     hm_get (executions (app_cluster a')) 9 = Some e \<and> v = view_of_execution e"
proof -
  obtain v a' where r: "create_execution demo_codec (\<lambda>_ _. Some [9]) (\<lambda>_. True) 5 9
      (race_execution demo_codec) demo_env_app = (Reply ACCEPTED v, a')"
    using demo_env_create by blast
  have "hm_get (executions (app_cluster demo_env_app)) 9 = None"
    by (simp add: demo_env_app_def race_clusters empty_cluster_def)
  moreover have "db_wf (app_db demo_env_app)" "find_row (uuid_text demo_codec 9) (db_rows (app_db demo_env_app)) = None"
    by (simp_all add: demo_env_app_def open_database_def db_wf_def)
  ultimately show ?thesis using create_execution_outcomes [OF demo_env_inv _ _ _ r] r by auto
qed

subsection \<open>Restarting an environment\<close>

text \<open>C12: restarting an environment loses no work: every execution of its old pool that was queued or
  assigned is in the new pool, under the same identifier and with its payload, as queued work or
  already assigned again; running ones stay where they are, and the old pool remains only for them.\<close>

theorem restart_loses_no_work:
  assumes inv: "ctl_inv (app_cluster a)" and env: "hm_get (environments (app_cluster a)) i = Some x"
    and fresh: "pool_fresh (app_cluster a) (''environment-'' @ uuid_text cd i @ ''-'' @ take 8 suffix)"
    and r: "restart_environment cd io suffix i a = (resp, a')"
  shows "(\<forall>j e. hm_get (executions (app_cluster a)) j = Some e \<longrightarrow>
    (\<exists>e'. hm_get (executions (app_cluster a')) j = Some e' \<and> exec_payload e' = exec_payload e \<and>
       exec_variables e' = exec_variables e \<and>
       (movable (env_pool x) e \<longrightarrow>
          exec_pool e' = ''environment-'' @ uuid_text cd i @ ''-'' @ take 8 suffix \<and>
          exec_status e' \<in> {Queued, Assigned}) \<and>
       (exec_status e = Running \<longrightarrow> e' = e))) \<and>
    (hm_get (pools (app_cluster a')) (env_pool x) = None \<or>
     (\<exists>j e. hm_get (executions (app_cluster a)) j = Some e \<and> exec_pool e = env_pool x \<and>
        exec_status e = Running))"
proof -
  define q where "q = ''environment-'' @ uuid_text cd i @ ''-'' @ take 8 suffix"
  have id: "env_id x = i" using keyed_get [OF wf_parts(5) [OF ctl_invD(1) [OF inv]] env] .
  have neq: "q \<noteq> env_pool x" using fresh env unfolding q_def pool_fresh_def by metis
  obtain ids c' where R: "restart_environment_pool cd suffix x (app_cluster a)
      = Some (ids, x\<lparr>env_pool := q\<rparr>, c')" "ctl_inv c'"
    "\<And>j. hm_get (executions c') j = map_option
      (\<lambda>y. if movable (env_pool x) y then requeued q y else y) (hm_get (executions (app_cluster a)) j)"
    "hm_get (pools c') (env_pool x) = None \<or>
     (\<exists>j y. hm_get (executions (app_cluster a)) j = Some y \<and> exec_pool y = env_pool x \<and>
        exec_status y = Running)"
    by (rule restart_pool_inv [OF inv id q_def fresh [folded q_def] neq]) blast
  let ?c1 = "c'\<lparr>environments := hm_insert i (x\<lparr>env_pool := q\<rparr>) (environments c')\<rparr>"
  have wf1: "cluster_wf ?c1"
    using wf_parts [OF ctl_invD(1) [OF R(2)]] id by (auto simp: cluster_wf_def intro!: keyed_insert)
  obtain es c2 where s: "schedule_queued ?c1 = Some (es, c2)"
    using schedule_queued_some [OF wf1] by blast
  have a': "app_cluster a' = c2"
    using r
    by (auto simp: restart_environment_def env R(1) finish_environment_def Let_def s save_def
        dest!: app_save_executions_cluster split: option.splits if_splits)
  have ps: "pools (app_cluster a') = pools c'"
    using schedule_queued_config [OF wf1 s] by (simp add: same_config_def a')
  have moved: "\<exists>e'. hm_get (executions (app_cluster a')) j = Some e' \<and> exec_payload e' = exec_payload e \<and>
       exec_variables e' = exec_variables e \<and>
       (movable (env_pool x) e \<longrightarrow>
          exec_pool e' = ''environment-'' @ uuid_text cd i @ ''-'' @ take 8 suffix \<and>
          exec_status e' \<in> {Queued, Assigned}) \<and>
       (exec_status e = Running \<longrightarrow> e' = e)"
    if e: "hm_get (executions (app_cluster a)) j = Some e" for j e
  proof -
    let ?e1 = "if movable (env_pool x) e then requeued q e else e"
    have e1: "hm_get (executions ?c1) j = Some ?e1" using R(3) [of j] e by simp
    then have "hm_get (executions c2) j \<noteq> None" using schedule_queued_dom [OF wf1 s, of j] by simp
    then obtain e' where e': "hm_get (executions c2) j = Some e'" by blast
    have "e' = ?e1 \<or> exec_status ?e1 = Queued \<and> (\<exists>n. e' = assign_execution ?e1 n)"
      using wf1 s e' by (cases rule: schedule_queued_exec) (use e1 in auto)
    then show ?thesis
      unfolding a' q_def [symmetric] e'
      by (intro exI [of _ e'])
        (auto simp: movable_def requeued_def assign_execution_def split: if_splits)
  qed
  show ?thesis
    by (intro conjI allI impI) (erule moved, use R(4) in \<open>simp only: ps\<close>)
qed

theorem restart_loses_no_work_witness:
  "\<exists>resp a'. restart_environment demo_codec (\<lambda>_. True) ''0123456789'' 5 demo_env_app = (resp, a') \<and>
     hm_get (pools (app_cluster a')) (''environment-'' @ uuid_text demo_codec 5) = None"
proof -
  obtain resp a' where r: "restart_environment demo_codec (\<lambda>_. True) ''0123456789'' 5 demo_env_app = (resp, a')"
    by fastforce
  let ?x = "environment_of 5 race_request 7 (None, None, 0) (''environment-'' @ uuid_text demo_codec 5)"
  have env: "hm_get (environments (app_cluster demo_env_app)) 5 = Some ?x"
    by (simp add: demo_env_app_def race_clusters hm_get_def)
  have fresh: "pool_fresh (app_cluster demo_env_app)
      (''environment-'' @ uuid_text demo_codec 5 @ ''-'' @ take 8 ''0123456789'')"
    by (simp add: pool_fresh_def demo_env_app_def race_clusters empty_cluster_def hm_get_def demo_codec_def)
  have none: "hm_get (executions (app_cluster demo_env_app)) j = None" for j
    by (simp add: demo_env_app_def race_clusters empty_cluster_def)
  from restart_loses_no_work [OF demo_env_inv env fresh r] r none show ?thesis by auto
qed

subsection \<open>An update that commits late\<close>

text \<open>
  \<open>update_environment\<close> lets go of the lock while the artifact is built, and commits what it read
  before: an environment that was deleted in between is there again, with a pool under its old name.
\<close>

lemma late_update_restores_environment:
  assumes inv: "ctl_inv (app_cluster a)" and ok: "env_ok (app_cluster a) i old"
    and gone: "hm_get (environments (app_cluster a)) i = None" and same: "\<not> needs_rebuild old img r"
    and a': "a' = snd (update_environment_commit cd io suffix i old img r art a)"
  shows "hm_get (environments (app_cluster a')) i = Some (environment_of i r img art (env_pool old)) \<and>
    hm_get (pools (app_cluster a')) (env_pool old) \<noteq> None"
proof -
  let ?e = "environment_of i r img art (env_pool old)" and ?c = "app_cluster a"
  let ?c1 = "?c\<lparr>pools := hm_insert (env_pool old) (environment_pool ?e) (pools ?c)\<rparr>"
  let ?c2 = "?c1\<lparr>environments := hm_insert i ?e (environments ?c1)\<rparr>"
  have inv1: "ctl_inv ?c1"
    by (rule insert_pool_inv [OF inv]) (use ok in \<open>auto simp: env_ok_def\<close>)
  have "ctl_inv ?c2"
    by (rule insert_environment_inv [OF inv1]) (use ok in \<open>auto simp: env_ok_def\<close>)
  then have wf2: "cluster_wf ?c2" by (simp add: ctl_inv_def)
  obtain es c3 where s: "schedule_queued ?c2 = Some (es, c3)"
    using schedule_queued_some [OF wf2] by blast
  have "same_config c3 ?c2" by (rule schedule_queued_config [OF wf2 s])
  moreover have "app_cluster a' = c3"
    using same s unfolding a' update_environment_commit_def
    by (auto simp: finish_environment_def Let_def lookup_all_def save_def internal_error_def
        dest!: app_save_executions_cluster split: option.splits)
  ultimately show ?thesis by (simp add: same_config_def)
qed

end
