(* ===== verification/Api_Waiting.thy ===== *)
theory Api_Waiting
  imports Api_Properties
begin

section \<open>Waiting for work and for results\<close>

text \<open>
  The loops of \<open>next_work\<close> and \<open>wait_execution\<close> in \<open>platform/src/api.rs\<close>. A handler that may have
  assigned work calls \<open>notify_waiters\<close> after it has let go of the lock, and a waiting request asks to
  be notified (\<open>notified()\<close>) before it looks. As \<open>tokio\<close> documents it, such a future is complete as
  soon as \<open>notify_waiters\<close> has been called after the future was made, even when it is not waited for
  yet. So a notification is a number that grows, and a future remembers the number it was made at.
\<close>

subsection \<open>Handlers that notify\<close>

text \<open>What a handler reports to those who wait: whether it notified, and whether the database failed.\<close>

definition report :: "('a \<Rightarrow> bool) \<Rightarrow> 'a response \<times> app \<Rightarrow> bool \<times> bool \<times> app" where
  "report done r =
     (case fst r of
        Reply _ x \<Rightarrow> (done x, False, snd r)
      | Fail s _ \<Rightarrow> (False, s = INTERNAL_SERVER_ERROR, snd r)
      | Panic \<Rightarrow> (False, True, snd r))"

text \<open>
  The handlers that call \<open>work.notify_waiters()\<close> as the last thing before they answer; the two for
  warm instances do so only when they added or removed one.
\<close>

inductive announces :: "codec \<Rightarrow> (string \<Rightarrow> string) \<Rightarrow> app \<Rightarrow> bool \<times> bool \<times> app \<Rightarrow> bool"
  for cd :: codec and H :: "string \<Rightarrow> string" where
  "pool_fresh (app_cluster a) (''environment-'' @ uuid_text cd i @ ''-'' @ take 8 suffix) \<Longrightarrow>
   announces cd H a (report (\<lambda>_. True) (restart_environment cd io suffix i a))"
| "env_ok (app_cluster a) i old \<Longrightarrow> q = ''environment-'' @ uuid_text cd i @ ''-'' @ take 8 suffix \<Longrightarrow>
   pool_fresh (app_cluster a) q \<Longrightarrow> q \<noteq> env_pool old \<Longrightarrow>
   announces cd H a (report (\<lambda>_. True) (update_environment_commit cd io suffix i old img r art a))"
| "announces cd H a (report (\<lambda>_. True) (delete_node cd io i a))"
| "announces cd H a (report (\<lambda>_. True) (register_node cd H io now auth reg a))"
| "announces cd H a (report (\<lambda>_. True) (report_image_ready cd H io auth i imgid a))"
| "announces cd H a (report (\<lambda>_. True) (report_environment_ready cd H io auth i artid a))"
| "announces cd H a (report (\<lambda>added. added) (api_add_warm_instance cd H io auth i p a))"
| "announces cd H a (report (\<lambda>removed. removed) (api_remove_idle_instance cd H io auth i p a))"
| "announces cd H a (report (\<lambda>_. True) (create_execution cd seal io now fresh creq a))"
| "announces cd H a (report (\<lambda>_. True) (complete_execution cd H io now auth i dreq a))"

definition quiet :: "handler \<Rightarrow> bool" where
  "quiet h \<longleftrightarrow> h \<in> {ImportImage, UpdateImage, DeleteImage, CreatePool, DeletePool, DeleteEnvironment,
     CreateJoinToken, JoinCluster, LocalJoinNode, UpdateNode, NextWork, UpdateStorage, UploadWorkingDir,
     CollectGarbage}"

definition has_work :: "uuid \<Rightarrow> app \<Rightarrow> bool" where
  "has_work nid a \<longleftrightarrow> (\<exists>i e. hm_get (executions (app_cluster a)) i = Some e \<and> waiting_for nid e)"

subsection \<open>The loop of a poll\<close>

datatype poll_phase = Entering | Watching nat | Sleeping nat | Answered "work option response"

record long_poll =
  lp_app :: app
  lp_calls :: nat
  lp_owed :: nat
  lp_failed :: bool
  lp_phase :: poll_phase

text \<open>
  One poll of node \<open>nid\<close>, after its authentication, among all the other requests. \<open>lp_owed\<close> counts the
  handlers that have let go of the lock and have still to notify, \<open>lp_failed\<close> says whether some
  handler was ended by the database, before it could notify. The deadline may pass at any time.
\<close>

inductive poll_step ::
    "codec \<Rightarrow> (string \<Rightarrow> string) \<Rightarrow> (uuid \<Rightarrow> bytes \<Rightarrow> (string, string) hashmap option) \<Rightarrow> uuid \<Rightarrow> u64 \<Rightarrow>
     long_poll \<Rightarrow> long_poll \<Rightarrow> bool"
  for cd :: codec and H :: "string \<Rightarrow> string" and unseal :: "uuid \<Rightarrow> bytes \<Rightarrow> (string, string) hashmap option"
    and nid :: uuid and wait_ms :: u64 where
  watch: "lp_phase s = Entering \<Longrightarrow> poll_step cd H unseal nid wait_ms s (s\<lparr>lp_phase := Watching (lp_calls s)\<rparr>)"
| found: "lp_phase s = Watching g \<Longrightarrow> look_for_work cd unseal io now nid (lp_app s) = (r, a') \<Longrightarrow>
    r \<noteq> Reply OK None \<Longrightarrow>
    poll_step cd H unseal nid wait_ms s (s\<lparr>lp_app := a', lp_phase := Answered r\<rparr>)"
| not_found: "lp_phase s = Watching g \<Longrightarrow>
    look_for_work cd unseal io now nid (lp_app s) = (Reply OK None, a') \<Longrightarrow>
    poll_step cd H unseal nid wait_ms s (s\<lparr>lp_app := a',
      lp_phase := if wait_ms = 0 then Answered (Reply OK None) else Sleeping g\<rparr>)"
| wake: "lp_phase s = Sleeping g \<Longrightarrow> g \<noteq> lp_calls s \<Longrightarrow>
    poll_step cd H unseal nid wait_ms s (s\<lparr>lp_phase := Entering\<rparr>)"
| deadline: "lp_phase s = Sleeping g \<Longrightarrow>
    poll_step cd H unseal nid wait_ms s (s\<lparr>lp_phase := Answered (Reply OK None)\<rparr>)"
| quiet_handler: "handles cd H h (lp_app s) (p, a') \<Longrightarrow> quiet h \<Longrightarrow>
    poll_step cd H unseal nid wait_ms s (s\<lparr>lp_app := a'\<rparr>)"
| commit_environment: "pool_fresh (app_cluster (lp_app s)) (''environment-'' @ uuid_text cd i) \<Longrightarrow>
    a' = snd (create_environment_commit cd io i r img art (lp_app s)) \<Longrightarrow>
    poll_step cd H unseal nid wait_ms s (s\<lparr>lp_app := a'\<rparr>)"
| announcing_handler: "announces cd H (lp_app s) (told, failed, a') \<Longrightarrow>
    poll_step cd H unseal nid wait_ms s (s\<lparr>lp_app := a',
      lp_owed := lp_owed s + (if told then 1 else 0), lp_failed := lp_failed s \<or> failed\<rparr>)"
| notify: "lp_owed s \<noteq> 0 \<Longrightarrow>
    poll_step cd H unseal nid wait_ms s (s\<lparr>lp_calls := lp_calls s + 1, lp_owed := lp_owed s - 1\<rparr>)"

definition poll_start :: "long_poll \<Rightarrow> bool" where
  "poll_start s \<longleftrightarrow> ctl_inv (app_cluster (lp_app s)) \<and> lp_phase s = Entering"

subsection \<open>Handlers that do not notify assign nothing\<close>

lemma drop_pool_executions [simp]: "executions (drop_pool q c) = executions c"
  by (simp add: drop_pool_def split: option.split)

lemma image_pool_executions [simp]:
  "executions (app_cluster (snd (import_commit cd io fresh name req ex src sha sz a))) = executions (app_cluster a)"
  "executions (app_cluster (snd (update_image cd io i name ex a))) = executions (app_cluster a)"
  "executions (app_cluster (snd (delete_image cd io i a))) = executions (app_cluster a)"
  "executions (app_cluster (snd (create_pool cd io p a))) = executions (app_cluster a)"
  "executions (app_cluster (snd (delete_pool cd io q a))) = executions (app_cluster a)"
  by (auto simp: import_commit_def update_image_def delete_image_def create_pool_def delete_pool_def
      Let_def split: option.split)

lemma environment_executions [simp]:
  "executions (app_cluster (snd (create_environment_commit cd io i r img art a))) = executions (app_cluster a)"
  "executions (app_cluster (snd (delete_environment cd io i a))) = executions (app_cluster a)"
  by (auto simp: create_environment_commit_def delete_environment_def Let_def split: option.split)

lemma node_executions [simp]:
  "executions (app_cluster (snd (create_join_token cd H io now fresh token a))) = executions (app_cluster a)"
  "executions (app_cluster (snd (join_cluster cd H io now fresh cred token a))) = executions (app_cluster a)"
  "executions (app_cluster (snd (local_join cd H io loopback fresh cred req a))) = executions (app_cluster a)"
  "executions (app_cluster (snd (update_node cd io i k a))) = executions (app_cluster a)"
  by (auto simp: create_join_token_def join_cluster_def local_join_def update_node_def Let_def
      split: option.split prod.split bool.split)

lemma look_none:
  assumes "ctl_inv (app_cluster a)" "look_for_work cd unseal io now nid a = (Reply OK None, a')"
  shows "a' = a \<and> \<not> has_work nid a"
proof -
  have wf: "hm_wf (executions (app_cluster a))" using wf_parts(4) [OF ctl_invD(1) [OF assms(1)]] by (rule keyed_wf)
  from assms(2) have "a' = a" and none: "List.find (\<lambda>(_, e). waiting_for nid e) (executions (app_cluster a)) = None"
    by (auto simp: look_for_work_def Let_def internal_error_def split: if_splits option.splits)
  have "\<not> waiting_for nid e" if "hm_get (executions (app_cluster a)) i = Some e" for i e
  proof -
    have "(i, e) \<in> set (executions (app_cluster a))" using that hm.entries_get [OF wf] by metis
    with none show ?thesis by (auto simp: find_None_iff)
  qed
  with \<open>a' = a\<close> show ?thesis by (auto simp: has_work_def)
qed

lemma look_executions:
  "executions (app_cluster (snd (look_for_work cd unseal io now n a))) = executions (app_cluster a) \<or>
   (\<exists>k e. executions (app_cluster (snd (look_for_work cd unseal io now n a)))
      = hm_insert k (start_execution now e) (executions (app_cluster a)))"
proof (cases "List.find (\<lambda>(_, e). waiting_for n e) (executions (app_cluster a))")
  case None
  then show ?thesis by (simp add: look_for_work_def Let_def)
next
  case (Some ke)
  obtain k e where "ke = (k, e)" by (cases ke)
  with Some have "executions (app_cluster (snd (look_for_work cd unseal io now n a))) = executions (app_cluster a) \<or>
      executions (app_cluster (snd (look_for_work cd unseal io now n a)))
        = hm_insert k (start_execution now e) (executions (app_cluster a))"
    by (auto simp: look_for_work_def Let_def dest!: app_save_executions_cluster split: option.splits)
  then show ?thesis by blast
qed

lemma look_takes_work:
  assumes "has_work nid (snd (look_for_work cd unseal io now n a))"
  shows "has_work nid a"
proof -
  from assms obtain j x where
    x: "hm_get (executions (app_cluster (snd (look_for_work cd unseal io now n a)))) j = Some x" "waiting_for nid x"
    by (auto simp: has_work_def)
  then have "hm_get (executions (app_cluster a)) j = Some x"
    using look_executions [of cd unseal io now n a]
    by (auto simp: waiting_for_def start_execution_def split: if_splits)
  with x(2) show ?thesis by (auto simp: has_work_def)
qed

lemma as_node_work:
  assumes "has_work nid (snd (as_node H auth h a))" "\<And>n. has_work nid (snd (h n a)) \<Longrightarrow> has_work nid a"
  shows "has_work nid a"
proof (cases "authenticated_node H auth (app_cluster a)")
  case (Reply s n)
  then show ?thesis using assms(1) by (simp add: as_node_def assms(2))
qed (use assms(1) in \<open>simp_all add: as_node_def\<close>)

lemma poll_takes_work:
  assumes "has_work nid (snd (poll_work cd H unseal io now auth n a))"
  shows "has_work nid a"
  using assms unfolding poll_work_def as_this_node_def
proof (rule as_node_work)
  fix m
  assume "has_work nid (snd ((if m \<noteq> n then (Fail FORBIDDEN ''node identity mismatch'', a)
    else look_for_work cd unseal io now n a)))"
  then show "has_work nid a" by (cases "m = n") (auto dest: look_takes_work)
qed

lemma quiet_assigns_nothing:
  assumes "handles cd H h a (p, a')" "quiet h" "has_work nid a'"
  shows "has_work nid a"
  using assms(1)
proof (cases rule: handles.cases)
  case (19 unseal io now auth n)
  then show ?thesis using assms(3) poll_takes_work by (simp only: outcome_iff_sym)
qed (use assms(2,3) in \<open>simp_all add: outcome_iff_sym quiet_def has_work_def\<close>)

subsection \<open>Handlers that notify assign nothing without it\<close>

text \<open>An error that is not the database's, of a handler that assigns.\<close>

definition refuses :: "'a response \<times> app \<Rightarrow> bool" where
  "refuses r \<longleftrightarrow> (\<exists>s m. fst r = Fail s m \<and> s \<noteq> INTERNAL_SERVER_ERROR)"

lemma refuses_simps [simp]:
  "\<not> refuses (internal_error, a)" "\<not> refuses (Panic, a)" "\<not> refuses (Reply s x, a)"
  "refuses (Fail s m, a) \<longleftrightarrow> s \<noteq> INTERNAL_SERVER_ERROR"
  by (simp_all add: refuses_def internal_error_def)

lemma schedule_and_save_never_refuses [simp]:
  assumes "\<And>a'. \<exists>s x. r a' = Reply s x \<or> r a' = Panic"
  shows "\<not> refuses (schedule_and_save cd io r a)"
proof
  assume "refuses (schedule_and_save cd io r a)"
  then obtain a' s m where "r a' = Fail s m"
    by (auto simp: schedule_and_save_def Let_def refuses_def internal_error_def split: option.splits)
  with assms [of a'] show False by auto
qed

lemma schedule_and_save_reply_never_refuses [simp]: "\<not> refuses (schedule_and_save cd io (\<lambda>_. Reply s x) a)"
  by (rule schedule_and_save_never_refuses) blast

lemma finish_environment_never_refuses [simp]: "\<not> refuses (finish_environment cd io ids e i a)"
  by (auto simp: finish_environment_def Let_def split: option.splits)

lemma as_node_refuses:
  assumes "\<And>n. refuses (h n a) \<Longrightarrow> executions (app_cluster (snd (h n a))) = executions (app_cluster a)"
    and "refuses (as_node H auth h a)"
  shows "executions (app_cluster (snd (as_node H auth h a))) = executions (app_cluster a)"
  using assms by (auto simp: as_node_def split: response.splits)

lemma refused_keeps_executions:
  "refuses (restart_environment cd io suffix i a) \<Longrightarrow>
    executions (app_cluster (snd (restart_environment cd io suffix i a))) = executions (app_cluster a)"
  "refuses (update_environment_commit cd io suffix i old img r art a) \<Longrightarrow>
    executions (app_cluster (snd (update_environment_commit cd io suffix i old img r art a))) = executions (app_cluster a)"
  "refuses (delete_node cd io i a) \<Longrightarrow>
    executions (app_cluster (snd (delete_node cd io i a))) = executions (app_cluster a)"
  by (auto simp: restart_environment_def update_environment_commit_def delete_node_def Let_def
      split: option.splits if_splits)

lemma node_refused_keeps_executions:
  "refuses (register_node cd H io now auth reg a) \<Longrightarrow>
    executions (app_cluster (snd (register_node cd H io now auth reg a))) = executions (app_cluster a)"
  "refuses (report_image_ready cd H io auth i imgid a) \<Longrightarrow>
    executions (app_cluster (snd (report_image_ready cd H io auth i imgid a))) = executions (app_cluster a)"
  "refuses (report_environment_ready cd H io auth i artid a) \<Longrightarrow>
    executions (app_cluster (snd (report_environment_ready cd H io auth i artid a))) = executions (app_cluster a)"
  "refuses (api_add_warm_instance cd H io auth i p a) \<Longrightarrow>
    executions (app_cluster (snd (api_add_warm_instance cd H io auth i p a))) = executions (app_cluster a)"
  "refuses (api_remove_idle_instance cd H io auth i p a) \<Longrightarrow>
    executions (app_cluster (snd (api_remove_idle_instance cd H io auth i p a))) = executions (app_cluster a)"
  "refuses (complete_execution cd H io now auth i dreq a) \<Longrightarrow>
    executions (app_cluster (snd (complete_execution cd H io now auth i dreq a))) = executions (app_cluster a)"
proof -
  note defs = register_node_def report_image_ready_def report_environment_ready_def api_add_warm_instance_def
    api_remove_idle_instance_def complete_execution_def as_this_node_def
  show "refuses (register_node cd H io now auth reg a) \<Longrightarrow>
    executions (app_cluster (snd (register_node cd H io now auth reg a))) = executions (app_cluster a)"
    unfolding defs by (erule as_node_refuses [rotated]) (auto simp: Let_def split: option.splits if_splits)
  show "refuses (report_image_ready cd H io auth i imgid a) \<Longrightarrow>
    executions (app_cluster (snd (report_image_ready cd H io auth i imgid a))) = executions (app_cluster a)"
    unfolding defs by (erule as_node_refuses [rotated]) (auto simp: Let_def split: option.splits if_splits)
  show "refuses (report_environment_ready cd H io auth i artid a) \<Longrightarrow>
    executions (app_cluster (snd (report_environment_ready cd H io auth i artid a))) = executions (app_cluster a)"
    unfolding defs by (erule as_node_refuses [rotated]) (auto simp: Let_def split: option.splits if_splits)
  show "refuses (api_add_warm_instance cd H io auth i p a) \<Longrightarrow>
    executions (app_cluster (snd (api_add_warm_instance cd H io auth i p a))) = executions (app_cluster a)"
    unfolding defs by (erule as_node_refuses [rotated]) (auto split: prod.splits bool.splits if_splits)
  show "refuses (api_remove_idle_instance cd H io auth i p a) \<Longrightarrow>
    executions (app_cluster (snd (api_remove_idle_instance cd H io auth i p a))) = executions (app_cluster a)"
    unfolding defs by (erule as_node_refuses [rotated]) (auto split: prod.splits bool.splits if_splits)
  show "refuses (complete_execution cd H io now auth i dreq a) \<Longrightarrow>
    executions (app_cluster (snd (complete_execution cd H io now auth i dreq a))) = executions (app_cluster a)"
    unfolding defs by (erule as_node_refuses [rotated]) (auto simp: Let_def split: option.splits if_splits)
qed

text \<open>\<open>create_execution\<close> may remove what it has just inserted.\<close>

lemma admit_refused_work:
  assumes "cluster_wf ((app_cluster a)\<lparr>executions := hm_insert (exec_id e) e (executions (app_cluster a))\<rparr>)"
    and "refuses (admit_execution cd io q e a)" "has_work nid (snd (admit_execution cd io q e a))"
  shows "has_work nid a"
proof -
  let ?c1 = "(app_cluster a)\<lparr>executions := hm_insert (exec_id e) e (executions (app_cluster a))\<rparr>"
  obtain b c2 where s: "schedule (exec_id e) ?c1 = Some (b, c2)" using schedule_total [OF assms(1)] by blast
  with assms(2) have "\<not> b" "app_cluster (snd (admit_execution cd io q e a)) = c2\<lparr>executions := hm_remove (exec_id e) (executions c2)\<rparr>"
    by (auto simp: admit_execution_def Let_def split: option.splits if_splits)
  moreover have "c2 = ?c1"
    using assms(1) s \<open>\<not> b\<close> by (cases rule: schedule_cases [of ?c1 "exec_id e"]) auto
  ultimately show ?thesis using assms(3) by (auto simp: has_work_def split: if_splits)
qed

lemma create_execution_cases:
  obtains (admitted) q e a1 where "create_execution cd seal io now fresh r a = admit_execution cd io q e a1"
      "app_cluster a1 = app_cluster a"
  | (stopped) "app_cluster (snd (create_execution cd seal io now fresh r a)) = app_cluster a"
proof (cases "check_working_dir (creq_payload r) a")
  case None
  note dir = None
  show ?thesis
  proof (cases "resolve_target cd r (app_cluster a)")
    case (Reply st t)
    obtain pname env where t: "t = (pname, env)" by (cases t)
    let ?e = "new_execution fresh now r pname env"
    show ?thesis
    proof (cases "\<exists>secrets a1. seal fresh (creq_secrets r) = Some secrets \<and> db_insert cd (io 0) ?e secrets a = Some (True, a1)")
      case True
      then obtain secrets a1 where "seal fresh (creq_secrets r) = Some secrets"
          "db_insert cd (io 0) ?e secrets a = Some (True, a1)" by blast
      with dir Reply t show ?thesis
        by (intro admitted [of "creq_queue r" ?e a1]) (auto simp: create_execution_def dest: db_insert_cluster)
    next
      case False
      with dir Reply t show ?thesis
        by (intro stopped) (auto simp: create_execution_def Let_def dest: db_insert_cluster
            split: option.split bool.split)
    qed
  qed (use dir in \<open>simp_all add: stopped create_execution_def\<close>)
qed (auto simp: stopped create_execution_def)

lemma create_execution_refused_work:
  assumes inv: "ctl_inv (app_cluster a)"
    and "refuses (create_execution cd seal io now fresh r a)" "has_work nid (snd (create_execution cd seal io now fresh r a))"
  shows "has_work nid a"
proof (cases rule: create_execution_cases [of cd seal io now fresh r a])
  case (admitted q e a1)
  note wf = wf_parts [OF ctl_invD(1) [OF inv]]
  have "cluster_wf ((app_cluster a1)\<lparr>executions := hm_insert (exec_id e) e (executions (app_cluster a1))\<rparr>)"
    using wf by (auto simp: admitted(2) cluster_wf_def intro!: keyed_insert)
  from admit_refused_work [OF this] assms(2,3) show ?thesis by (simp add: admitted has_work_def)
next
  case stopped
  with assms(3) show ?thesis by (simp add: has_work_def)
qed

lemma report_quiet_refuses:
  assumes "report d r = (False, False, a')"
  obtains "refuses r" "a' = snd r" | s x where "fst r = Reply s x" "\<not> d x" "a' = snd r"
  using assms by (auto simp: report_def refuses_def split: response.splits)

text \<open>The handlers for warm instances, when they did nothing.\<close>

lemma warm_keeps_executions:
  "add_warm_instance nid q c = (b, c') \<Longrightarrow> executions c' = executions c"
  "remove_idle_instance nid q c = (b, c') \<Longrightarrow> executions c' = executions c"
  by (auto simp: add_warm_instance_def remove_idle_instance_def Let_def split: option.splits if_splits)

lemma warm_nothing_done:
  "fst (api_add_warm_instance cd H io auth i p a) = Reply s False \<Longrightarrow>
   executions (app_cluster (snd (api_add_warm_instance cd H io auth i p a))) = executions (app_cluster a)"
  "fst (api_remove_idle_instance cd H io auth i p a) = Reply s False \<Longrightarrow>
   executions (app_cluster (snd (api_remove_idle_instance cd H io auth i p a))) = executions (app_cluster a)"
proof -
  have never: "fst (schedule_and_save cd io (\<lambda>_. Reply OK True) x) \<noteq> Reply s False" for x s
    by (auto simp: schedule_and_save_def Let_def internal_error_def split: option.split)
  show "fst (api_add_warm_instance cd H io auth i p a) = Reply s False \<Longrightarrow>
   executions (app_cluster (snd (api_add_warm_instance cd H io auth i p a))) = executions (app_cluster a)"
    using never
    by (auto simp: api_add_warm_instance_def as_this_node_def as_node_def dest: warm_keeps_executions
        split: response.splits if_splits prod.splits bool.splits)
  show "fst (api_remove_idle_instance cd H io auth i p a) = Reply s False \<Longrightarrow>
   executions (app_cluster (snd (api_remove_idle_instance cd H io auth i p a))) = executions (app_cluster a)"
    using never
    by (auto simp: api_remove_idle_instance_def as_this_node_def as_node_def dest: warm_keeps_executions
        split: response.splits if_splits prod.splits bool.splits)
qed

lemma same_work:
  "has_work nid a' \<Longrightarrow> executions (app_cluster a') = executions (app_cluster a) \<Longrightarrow> has_work nid a"
  by (simp add: has_work_def)

lemma untold_assigns_nothing:
  assumes "announces cd H a (False, False, a')" "ctl_inv (app_cluster a)" "has_work nid a'"
  shows "has_work nid a"
  using assms(1)
proof (cases rule: announces.cases)
  case (7 io auth i p)
  from 7 [symmetric] show ?thesis
    by (rule report_quiet_refuses)
      (use assms(3) node_refused_keeps_executions(4) warm_nothing_done(1) same_work in auto)
next
  case (8 io auth i p)
  from 8 [symmetric] show ?thesis
    by (rule report_quiet_refuses)
      (use assms(3) node_refused_keeps_executions(5) warm_nothing_done(2) same_work in auto)
next
  case (9 seal io now fresh creq)
  from 9 [symmetric] show ?thesis
    by (rule report_quiet_refuses) (use assms(3) create_execution_refused_work [OF assms(2)] in auto)
qed (elim report_quiet_refuses [OF sym],
  use assms(3) refused_keeps_executions node_refused_keeps_executions same_work in auto)+

lemma report_app: "report d r = (told, failed, a') \<Longrightarrow> a' = snd r"
  by (auto simp: report_def split: response.splits)

lemma announces_inv:
  assumes "announces cd H a (told, failed, a')" "ctl_inv (app_cluster a)"
  shows "ctl_inv (app_cluster a')"
  using assms(1)
proof (cases rule: announces.cases)
  case (1 i suffix io)
  then show ?thesis using report_app restart_environment_inv(1) [OF assms(2)] by metis
next
  case (2 i old q suffix io img r art)
  then show ?thesis using report_app update_environment_commit_inv [OF assms(2) 2(2), of cd suffix] by metis
qed (use assms(2) in \<open>auto dest!: report_app [OF sym] simp: handler_invs\<close>)

subsection \<open>No wake-up is lost\<close>

definition poll_ok :: "uuid \<Rightarrow> long_poll \<Rightarrow> bool" where
  "poll_ok nid s \<longleftrightarrow> ctl_inv (app_cluster (lp_app s)) \<and>
     (\<forall>g. lp_phase s = Watching g \<longrightarrow> g \<le> lp_calls s) \<and>
     (\<forall>g. lp_phase s = Sleeping g \<longrightarrow> g \<le> lp_calls s \<and>
        (g = lp_calls s \<longrightarrow> lp_owed s = 0 \<longrightarrow> \<not> lp_failed s \<longrightarrow> \<not> has_work nid (lp_app s)))"

lemma poll_step_ok:
  assumes "poll_ok nid s" "poll_step cd H unseal nid wait_ms s t"
  shows "poll_ok nid t"
  using assms(2)
proof (cases rule: poll_step.cases)
  case (found g io now r a')
  have "ctl_inv (app_cluster a')"
    using look_for_work_inv [of "lp_app s" cd unseal io now nid] assms(1) found by (simp add: poll_ok_def)
  with found show ?thesis by (simp add: poll_ok_def)
next
  case (not_found g io now a')
  then show ?thesis
    using look_none [OF _ not_found(3)] assms(1) by (auto simp: poll_ok_def)
next
  case (quiet_handler h p a')
  have "ctl_inv (app_cluster a')"
    using handles_inv [OF quiet_handler(2)] assms(1) by (simp add: poll_ok_def)
  moreover have "has_work nid a' \<Longrightarrow> has_work nid (lp_app s)"
    by (rule quiet_assigns_nothing [OF quiet_handler(2,3)])
  ultimately show ?thesis using assms(1) quiet_handler(1) by (auto simp: poll_ok_def)
next
  case (commit_environment i a' io img r art)
  have "ctl_inv (app_cluster a')"
    using create_environment_commit_inv [OF _ commit_environment(2)] assms(1)
    by (simp add: commit_environment(3) poll_ok_def)
  moreover have "has_work nid a' = has_work nid (lp_app s)"
    by (simp add: commit_environment(3) has_work_def)
  ultimately show ?thesis using assms(1) commit_environment(1) by (auto simp: poll_ok_def)
next
  case (announcing_handler told failed a')
  have "ctl_inv (app_cluster a')"
    using announces_inv [OF announcing_handler(2)] assms(1) by (simp add: poll_ok_def)
  moreover have "has_work nid (lp_app s)" if "\<not> told" "\<not> failed" "has_work nid a'"
    using untold_assigns_nothing announcing_handler(2) assms(1) that by (auto simp: poll_ok_def)
  ultimately show ?thesis using assms(1) announcing_handler(1) by (auto simp: poll_ok_def)
qed (use assms(1) in \<open>auto simp: poll_ok_def\<close>)

interpretation poll: invariant_system poll_start "poll_step cd H unseal nid wait_ms" "poll_ok nid"
  for cd H unseal nid wait_ms
proof (unfold_locales, goal_cases)
  case (1 s)
  then show ?case by (simp add: poll_start_def poll_ok_def)
qed (rule poll_step_ok)

text \<open>C8: no wake-up of a poll is lost. While a poll sleeps, whatever other requests do between its
  steps, work that is assigned to its node has been announced since the poll began to watch, so that
  it wakes, or is about to be: the handler that assigned it has let go of the lock and has still to
  notify. The exception is a handler that the database ended before it could notify.\<close>

theorem no_wake_up_is_lost:
  assumes "reachable poll_start (poll_step cd H unseal nid wait_ms) s"
    and "lp_phase s = Sleeping g" "\<not> lp_failed s"
    and "hm_get (executions (app_cluster (lp_app s))) i = Some e" "waiting_for nid e"
  shows "(\<exists>t. poll_step cd H unseal nid wait_ms s t \<and> lp_phase t = Entering) \<or> 0 < lp_owed s"
proof -
  have "g \<noteq> lp_calls s \<or> lp_owed s \<noteq> 0"
    using poll.reachable_inv [OF assms(1)] assms(2-5) by (auto simp: poll_ok_def has_work_def)
  then show ?thesis
    using poll_step.wake [OF assms(2), of cd H unseal nid wait_ms] by auto
qed

text \<open>The witness: a poll of node 2 sleeps, and the deletion of a node places two queued executions.\<close>

definition waiting_app :: app where
  "waiting_app = \<lparr>app_cluster = demo\<lparr>node_credentials := [(9, ''k9'')]\<rparr>, app_db = open_database,
     app_working_dirs = []\<rparr>"

lemma waiting_inv: "ctl_inv (app_cluster waiting_app)"
proof -
  have "hm_wf (executions demo)" by (simp add: demo_defs hm_wf_def)
  then have "links (app_cluster waiting_app)" "all_unfinished (app_cluster waiting_app)"
    using hm_all_entries [of "executions demo"]
    unfolding links_def all_unfinished_def
    by (simp_all add: waiting_app_def demo_defs link_ok_def active_status_def unfinished_def hm_get_def)
  moreover have "cluster_wf (app_cluster waiting_app)"
    by (simp add: waiting_app_def demo_defs cluster_wf_def nodes_wf_def node_wf_def hm_get_def hm_wf_def)
  moreover have "envs_ok (app_cluster waiting_app)"
    by (simp add: envs_ok_def waiting_app_def demo_defs hm_get_def)
  ultimately show ?thesis by (simp add: ctl_inv_def)
qed

lemma waiting_pass:
  "\<exists>c es. schedule_queued (demo\<lparr>node_credentials := []\<rparr>) = Some (es, c) \<and>
     es = [assign_execution (demo_execution 11 4) 2, assign_execution (demo_execution 10 5) 3] \<and>
     hm_get (executions c) 11 = Some (assign_execution (demo_execution 11 4) 2)"
  by (simp add: demo_eval)

lemma waiting_deletion:
  "\<exists>a'. delete_node demo_codec (\<lambda>_. True) 9 waiting_app = (Reply NO_CONTENT (), a') \<and>
     hm_get (executions (app_cluster a')) 11 = Some (assign_execution (demo_execution 11 4) 2)"
proof -
  obtain c es where c: "schedule_queued (demo\<lparr>node_credentials := []\<rparr>) = Some (es, c)"
    "es = [assign_execution (demo_execution 11 4) 2, assign_execution (demo_execution 10 5) 3]"
    "hm_get (executions c) 11 = Some (assign_execution (demo_execution 11 4) 2)"
    using waiting_pass by blast
  have "demo\<lparr>nodes := hm_remove 9 (nodes demo), node_credentials := []\<rparr> = demo\<lparr>node_credentials := []\<rparr>"
    by (simp add: demo_defs hm_remove_def)
  moreover have "\<exists>db. save_executions demo_codec es (save_cluster demo_codec c open_database) = Some db"
    by (simp add: c(2) storage_eval find_row_def assign_execution_def save_cluster_def split: option.split)
  ultimately show ?thesis
    using c(1,3)
    by (auto simp: delete_node_def waiting_app_def Let_def schedule_and_save_def save_def app_save_executions_def
        hm_remove_def) (simp_all add: demo_defs hm_defs active_status_def)
qed

definition waiting_poll :: "app \<Rightarrow> nat \<Rightarrow> poll_phase \<Rightarrow> long_poll" where
  "waiting_poll a owed phase =
     \<lparr>lp_app = a, lp_calls = 0, lp_owed = owed, lp_failed = False, lp_phase = phase\<rparr>"

lemma waiting_reachable:
  assumes "delete_node demo_codec (\<lambda>_. True) 9 waiting_app = (Reply NO_CONTENT (), a')"
  shows "reachable poll_start (poll_step demo_codec (\<lambda>t. t) unseal 2 1000) (waiting_poll a' 1 (Sleeping 0))"
proof -
  let ?R = "reachable poll_start (poll_step demo_codec (\<lambda>t. t) unseal 2 1000)"
  have "?R (waiting_poll waiting_app 0 Entering)"
    by (rule reachable_initial) (simp add: poll_start_def waiting_poll_def waiting_inv)
  moreover have "poll_step demo_codec (\<lambda>t. t) unseal 2 1000 (waiting_poll waiting_app 0 Entering)
      (waiting_poll waiting_app 0 (Watching 0))"
    using poll_step.watch [of "waiting_poll waiting_app 0 Entering" demo_codec "\<lambda>t. t" unseal 2 1000]
    by (simp add: waiting_poll_def)
  ultimately have watching: "?R (waiting_poll waiting_app 0 (Watching 0))" by (rule reachable_step)
  have "look_for_work demo_codec unseal (\<lambda>_. True) 0 2 waiting_app = (Reply OK None, waiting_app)"
    by (simp add: look_for_work_def waiting_app_def demo_defs hm_get_def waiting_for_def)
  then have "poll_step demo_codec (\<lambda>t. t) unseal 2 1000 (waiting_poll waiting_app 0 (Watching 0))
      (waiting_poll waiting_app 0 (Sleeping 0))"
    using poll_step.not_found [of "waiting_poll waiting_app 0 (Watching 0)" 0 demo_codec unseal "\<lambda>_. True" 0 2
        waiting_app "\<lambda>t. t" 1000]
    by (simp add: waiting_poll_def)
  with watching have sleeping: "?R (waiting_poll waiting_app 0 (Sleeping 0))" by (rule reachable_step)
  have "announces demo_codec (\<lambda>t. t) waiting_app (True, False, a')"
    using announces.intros(3) [of demo_codec "\<lambda>t. t" waiting_app "\<lambda>_. True" 9] assms by (simp add: report_def)
  then have "poll_step demo_codec (\<lambda>t. t) unseal 2 1000 (waiting_poll waiting_app 0 (Sleeping 0))
      (waiting_poll a' 1 (Sleeping 0))"
    using poll_step.announcing_handler [of demo_codec "\<lambda>t. t" "waiting_poll waiting_app 0 (Sleeping 0)" True False a'
        unseal 2 1000]
    by (simp add: waiting_poll_def)
  with sleeping show ?thesis by (rule reachable_step)
qed

theorem no_wake_up_is_lost_witness:
  "\<exists>a'. reachable poll_start (poll_step demo_codec (\<lambda>t. t) (\<lambda>_ _. None) 2 1000) (waiting_poll a' 1 (Sleeping 0)) \<and>
     ((\<exists>t. poll_step demo_codec (\<lambda>t. t) (\<lambda>_ _. None) 2 1000 (waiting_poll a' 1 (Sleeping 0)) t \<and>
         lp_phase t = Entering) \<or> 0 < lp_owed (waiting_poll a' 1 (Sleeping 0)))"
proof -
  obtain a' where a': "delete_node demo_codec (\<lambda>_. True) 9 waiting_app = (Reply NO_CONTENT (), a')"
    "hm_get (executions (app_cluster a')) 11 = Some (assign_execution (demo_execution 11 4) 2)"
    using waiting_deletion by blast
  let ?s = "waiting_poll a' 1 (Sleeping 0)"
  have phase: "lp_phase ?s = Sleeping 0" "\<not> lp_failed ?s" by (simp_all add: waiting_poll_def)
  have e: "hm_get (executions (app_cluster (lp_app ?s))) 11 = Some (assign_execution (demo_execution 11 4) 2)"
    "waiting_for 2 (assign_execution (demo_execution 11 4) 2)"
    using a'(2) by (simp_all add: waiting_poll_def waiting_for_def assign_execution_def)
  show ?thesis
    using no_wake_up_is_lost [OF waiting_reachable [OF a'(1)] phase e] waiting_reachable [OF a'(1)] by blast
qed

subsection \<open>Waiting for a result\<close>

text \<open>
  \<open>wait_execution\<close>: the rounds of its loop that end with a wake-up before the deadline, each with
  whether the database can be read, what it holds, and whether the deadline has passed when the round
  looks at the clock; and what the last reading, after the deadline, finds.
\<close>

fun wait_execution :: "codec \<Rightarrow> uuid \<Rightarrow> (bool \<times> app \<times> bool) list \<Rightarrow> bool \<times> app \<Rightarrow> execution_view response" where
  "wait_execution cd i [] (ok, a) = get_execution cd ok i a"
| "wait_execution cd i ((ok, a, late) # rounds) final =
     (case load_execution cd ok i a of
        Reply s e \<Rightarrow>
          if finished_status (exec_status e) \<or> late then Reply s (view_of_execution e)
          else wait_execution cd i rounds final
      | Fail s m \<Rightarrow> Fail s m
      | Panic \<Rightarrow> Panic)"

text \<open>
  It answers with the first finished execution that it reads, whatever came before; with the
  execution as it is, finished or not, only after the deadline.
\<close>

lemma wait_execution_answers_finished:
  assumes "list_all (\<lambda>(ok, a, late). \<not> late \<and>
      (\<exists>s x. load_execution cd ok i a = Reply s x \<and> \<not> finished_status (exec_status x))) before"
    and "load_execution cd True i a = Reply OK e" "finished_status (exec_status e)"
  shows "wait_execution cd i (before @ (True, a, late) # rounds) final = Reply OK (view_of_execution e)"
  using assms(1) by (induction before) (auto simp: assms(2,3))

lemma wait_execution_unfinished:
  assumes "wait_execution cd i rounds (ok, a) = Reply s v"
  shows "(\<exists>ok' a' late e. (ok', a', late) \<in> set rounds \<and> load_execution cd ok' i a' = Reply s e \<and>
      v = view_of_execution e \<and> (finished_status (exec_status e) \<or> late)) \<or>
    get_execution cd ok i a = Reply s v"
  using assms
proof (induction rounds)
  case (Cons r rounds)
  obtain ok' a' late where r: "r = (ok', a', late)" by (cases r)
  show ?case
  proof (cases "load_execution cd ok' i a'")
    case (Reply s' e)
    show ?thesis
    proof (cases "finished_status (exec_status e) \<or> late")
      case True
      then have "s' = s" "v = view_of_execution e" using Cons.prems Reply r by auto
      with True Reply r show ?thesis
        by (intro disjI1 exI [of _ ok'] exI [of _ a'] exI [of _ late] exI [of _ e]) auto
    next
      case False
      then have "wait_execution cd i rounds (ok, a) = Reply s v" using Cons.prems Reply r by auto
      from Cons.IH [OF this] show ?thesis by (metis list.set_intros(2))
    qed
  qed (use Cons.prems r in simp_all)
qed simp

end
