(* ===== verification/Api_Limits.thy ===== *)
theory Api_Limits
  imports Api_Properties
begin

section \<open>The instance limits in every run\<close>

text \<open>
  The scheduler and the warm pool respect the limit of a pool (\<open>max_instances\<close>). This theory follows
  the limit through every handler of the controller, and so through its runs: what a handler does to
  the nodes, executions and pools either never adds an instance (\<open>no_more\<close>), or is one of the
  placements that look at the limit. The one exception is an update that lowers the limit of a pool
  in place.
\<close>

subsection \<open>Changes that add no instance\<close>

text \<open>A node has idle instances of pools that exist only.\<close>

definition limits_ok :: "cluster \<Rightarrow> bool" where
  "limits_ok c \<longleftrightarrow> within_limits c \<and> (\<forall>q. hm_get (pools c) q = None \<longrightarrow> idle_total c q = 0)"

definition no_more :: "cluster \<Rightarrow> cluster \<Rightarrow> bool" where
  "no_more c c' \<longleftrightarrow> (\<forall>q. instances c' q \<le> instances c q) \<and>
     (\<forall>q p'. hm_get (pools c') q = Some p' \<longrightarrow>
        (\<exists>p. hm_get (pools c) q = Some p \<and> pool_max_instances p' = pool_max_instances p)) \<and>
     (\<forall>q. hm_get (pools c') q = None \<longrightarrow> idle_total c' q = 0 \<or>
        hm_get (pools c) q = None \<and> idle_total c' q \<le> idle_total c q)"

lemma no_more_refl [simp]: "no_more c c"
  by (auto simp: no_more_def)

lemma no_more_trans:
  assumes "no_more a b" "no_more b c"
  shows "no_more a c"
  unfolding no_more_def
proof (intro conjI allI impI)
  fix q
  show "instances c q \<le> instances a q" using assms by (meson no_more_def order_trans)
  show "\<exists>p. hm_get (pools a) q = Some p \<and> pool_max_instances p' = pool_max_instances p"
    if "hm_get (pools c) q = Some p'" for p'
    using assms that unfolding no_more_def by metis
  show "idle_total c q = 0 \<or> hm_get (pools a) q = None \<and> idle_total c q \<le> idle_total a q"
    if "hm_get (pools c) q = None"
    using assms that unfolding no_more_def by (metis le_zero_eq order_trans)
qed

lemma no_more_limits:
  assumes "limits_ok c" "no_more c c'"
  shows "limits_ok c'"
  unfolding limits_ok_def within_limits_def
proof (intro conjI allI impI)
  fix q p' l
  assume "hm_get (pools c') q = Some p'" "pool_max_instances p' = Some l"
  then obtain p where "hm_get (pools c) q = Some p" "pool_max_instances p = Some l"
    using assms(2) unfolding no_more_def by metis
  then have "instances c q \<le> unat l" using assms(1) by (auto simp: limits_ok_def within_limits_def)
  moreover have "instances c' q \<le> instances c q" using assms(2) by (simp add: no_more_def)
  ultimately show "instances c' q \<le> unat l" by simp
next
  fix q
  assume "hm_get (pools c') q = None"
  then have "idle_total c' q = 0 \<or> hm_get (pools c) q = None \<and> idle_total c' q \<le> idle_total c q"
    using assms(2) by (simp add: no_more_def)
  moreover have "hm_get (pools c) q = None \<Longrightarrow> idle_total c q = 0"
    using assms(1) by (simp add: limits_ok_def)
  ultimately show "idle_total c' q = 0" by auto
qed

text \<open>Only nodes, executions and pools matter.\<close>

lemma instances_cong:
  "nodes c' = nodes c \<Longrightarrow> executions c' = executions c \<Longrightarrow> instances c' q = instances c q"
  "nodes c' = nodes c \<Longrightarrow> idle_total c' q = idle_total c q"
  "executions c' = executions c \<Longrightarrow> active_count c' q = active_count c q"
  by (simp_all add: instances_def active_count_def idle_total_def)

lemma no_more_frame:
  "nodes c' = nodes c \<Longrightarrow> executions c' = executions c \<Longrightarrow> pools c' = pools c \<Longrightarrow> no_more c c'"
  by (simp add: no_more_def instances_def active_count_def idle_total_def)

lemma limits_ok_frame:
  "nodes c' = nodes c \<Longrightarrow> executions c' = executions c \<Longrightarrow> pools c' = pools c \<Longrightarrow> limits_ok c' = limits_ok c"
  by (metis no_more_frame no_more_limits)

text \<open>Nodes with no more idle instances, executions no more of which are active, and the same limits.\<close>

lemma no_moreI:
  assumes "\<And>q. active_count c' q \<le> active_count c q" "\<And>q. idle_total c' q \<le> idle_total c q"
    and "\<And>q p'. hm_get (pools c') q = Some p' \<Longrightarrow>
      \<exists>p. hm_get (pools c) q = Some p \<and> pool_max_instances p' = pool_max_instances p"
    and "\<And>q. hm_get (pools c') q = None \<Longrightarrow> hm_get (pools c) q = None \<or> idle_total c' q = 0"
  shows "no_more c c'"
  unfolding no_more_def instances_def
proof (intro conjI allI impI)
  fix q
  show "active_count c' q + idle_total c' q \<le> active_count c q + idle_total c q"
    by (rule add_mono) (rule assms)+
next
  fix q p'
  assume "hm_get (pools c') q = Some p'"
  then show "\<exists>p. hm_get (pools c) q = Some p \<and> pool_max_instances p' = pool_max_instances p" by (rule assms)
next
  fix q
  assume "hm_get (pools c') q = None"
  from assms(4) [OF this] assms(2) [of q]
  show "idle_total c' q = 0 \<or> hm_get (pools c) q = None \<and> idle_total c' q \<le> idle_total c q" by blast
qed

lemma idle_total_map:
  "(\<And>n. idle_on q (f n) = idle_on q n) \<Longrightarrow> nodes c' = hm_map_values f (nodes c) \<Longrightarrow>
   idle_total c' q = idle_total c q"
  by (simp add: idle_total_def comp_def)

lemma no_more_map_nodes:
  assumes "\<And>n q. idle_on q (f n) = idle_on q n"
    and "nodes c' = hm_map_values f (nodes c)" "executions c' = executions c" "pools c' = pools c"
  shows "no_more c c'"
proof (rule no_moreI)
  fix q
  show "active_count c' q \<le> active_count c q" using assms(3) by (simp add: active_count_def)
  show "idle_total c' q \<le> idle_total c q" using idle_total_map [of q f c' c, OF assms(1,2)] by simp
qed (simp_all add: assms(4))

lemma no_more_put_node:
  assumes wf: "hm_wf (nodes c)"
    and old: "\<And>n q. hm_get (nodes c) i = Some n \<Longrightarrow> idle_on q m \<le> idle_on q n"
    and new: "\<And>q. hm_get (nodes c) i = None \<Longrightarrow> idle_on q m = 0"
  shows "no_more c (c\<lparr>nodes := hm_insert i m (nodes c)\<rparr>)"
proof (rule no_moreI)
  fix q
  show "idle_total (c\<lparr>nodes := hm_insert i m (nodes c)\<rparr>) q \<le> idle_total c q"
  proof (cases "hm_get (nodes c) i")
    case None
    then show ?thesis
      using hm_sum_new [OF wf None, of "\<lambda>n. unat (idle_on q n)" m] new by (simp add: idle_total_def)
  next
    case (Some n)
    then have "unat (idle_on q m) \<le> unat (idle_on q n)" using old by (simp add: word_le_nat_alt)
    with idle_total_update [OF wf Some, of m q] show ?thesis by simp
  qed
qed (simp_all add: active_count_def idle_total_def)

lemma no_more_remove_node:
  assumes "hm_wf (nodes c)" "nodes c' = hm_remove i (nodes c)" "executions c' = executions c" "pools c' = pools c"
  shows "no_more c c'"
proof (rule no_moreI)
  fix q
  show "idle_total c' q \<le> idle_total c q"
  proof (cases "hm_get (nodes c) i")
    case None
    then have "hm_remove i (nodes c) = nodes c"
      by (simp add: hm_remove_def hm_get_def map_of_eq_None_iff AList.delete_idem)
    then show ?thesis using assms(2) by (simp add: idle_total_def)
  next
    case (Some n)
    from hm_sum_del [OF assms(1) this, of "\<lambda>n. unat (idle_on q n)"] show ?thesis
      using assms(2) by (simp add: idle_total_def)
  qed
qed (use assms in \<open>simp_all add: active_count_def\<close>)

lemma no_more_put_execution:
  assumes wf: "hm_wf (executions c)"
    and old: "\<And>q. active_in q e \<Longrightarrow> \<exists>x. hm_get (executions c) i = Some x \<and> active_in q x"
  shows "no_more c (c\<lparr>executions := hm_insert i e (executions c)\<rparr>)"
proof (rule no_moreI)
  fix q
  show "active_count (c\<lparr>executions := hm_insert i e (executions c)\<rparr>) q \<le> active_count c q"
  proof (cases "hm_get (executions c) i")
    case None
    then show ?thesis
      using hm_count_new [OF wf None, of "active_in q" e] old [of q] by (auto simp: active_count_def)
  next
    case (Some x)
    then show ?thesis
      using hm_count_old [OF wf Some, of "active_in q" e] old [of q]
      by (auto simp: active_count_def split: if_splits)
  qed
qed (simp_all add: active_count_def idle_total_def)

lemma no_more_remove_execution:
  assumes wf: "hm_wf (executions c)"
  shows "no_more c (c\<lparr>executions := hm_remove i (executions c)\<rparr>)"
proof (rule no_moreI)
  fix q
  show "active_count (c\<lparr>executions := hm_remove i (executions c)\<rparr>) q \<le> active_count c q"
  proof (cases "hm_get (executions c) i")
    case None
    then have "hm_remove i (executions c) = executions c"
      by (simp add: hm_remove_def hm_get_def map_of_eq_None_iff AList.delete_idem)
    then show ?thesis by simp
  next
    case (Some x)
    from hm_count_del [OF wf this, of "active_in q"] show ?thesis by (simp add: active_count_def)
  qed
qed (simp_all add: active_count_def idle_total_def)

subsection \<open>Pools that come and go\<close>

lemma idle_on_drop_idle: "idle_on r (drop_idle q p n) = (if r = q then 0 else idle_on r n)"
  by (simp add: idle_on_def drop_idle_def Let_def)

lemma no_more_drop_idle:
  assumes "nodes c' = hm_map_values (drop_idle q p) (nodes c)" "pools c' = hm_remove q (pools c)"
    "executions c' = executions c"
  shows "no_more c c'"
proof (rule no_moreI)
  fix r
  show "active_count c' r \<le> active_count c r" using assms(3) by (simp add: active_count_def)
  have total: "idle_total c' r = (if r = q then 0 else idle_total c r)" for r
    using assms(1) by (simp add: idle_total_def comp_def idle_on_drop_idle)
  show "idle_total c' r \<le> idle_total c r" by (simp add: total)
  show "hm_get (pools c) r = None \<or> idle_total c' r = 0" if "hm_get (pools c') r = None"
    using that assms(2) by (auto simp: total)
qed (use assms(2) in \<open>auto split: if_splits\<close>)

lemma no_more_drop_pool:
  assumes "cluster_wf c"
  shows "no_more c (drop_pool q c)"
proof (cases "hm_get (pools c) q")
  case (Some p)
  then have "pool_name p = q" using wf_parts(2) [OF assms] keyed_get by metis
  then show ?thesis
    by (intro no_more_drop_idle [of _ q p]) (simp_all add: drop_pool_def Some)
qed (simp add: drop_pool_def)

text \<open>A pool that is not there has no instance.\<close>

lemma absent_no_instances:
  assumes inv: "ctl_inv c" and lim: "limits_ok c" and none: "hm_get (pools c) q = None"
  shows "instances c q = 0"
proof -
  have "\<not> active_in q e" if "e \<in> set (hm_values (executions c))" for e
  proof -
    have "hm_get (executions c) (exec_id e) = Some e"
      using keyed_values_get [OF wf_parts(4) [OF ctl_invD(1) [OF inv]]] that by blast
    then have "link_ok c e" using ctl_invD(2) [OF inv] by (simp add: links_def)
    then show ?thesis using none by (auto simp: link_ok_def active_in_def)
  qed
  then have "active_count c q = 0" by (simp add: active_count_def filter_empty_conv)
  moreover have "idle_total c q = 0" using lim none by (simp add: limits_ok_def)
  ultimately show ?thesis by (simp add: instances_def)
qed

text \<open>Limits that are lowered while the pool is there.\<close>

definition lowers_limit :: "cluster \<Rightarrow> cluster \<Rightarrow> bool" where
  "lowers_limit c c' \<longleftrightarrow>
     (\<exists>q p p' l'. hm_get (pools c) q = Some p \<and> hm_get (pools c') q = Some p' \<and>
        pool_max_instances p' = Some l' \<and>
        (case pool_max_instances p of None \<Rightarrow> True | Some l \<Rightarrow> l' < l))"

lemma insert_pool_limits:
  assumes lim: "limits_ok c" and none: "hm_get (pools c) q = None \<Longrightarrow> instances c q = 0"
    and keep: "\<not> lowers_limit c (c\<lparr>pools := hm_insert q p (pools c)\<rparr>)"
  shows "limits_ok (c\<lparr>pools := hm_insert q p (pools c)\<rparr>)" (is "limits_ok ?c")
proof -
  have same: "instances ?c r = instances c r" "idle_total ?c r = idle_total c r" for r
    by (simp_all add: instances_def active_count_def idle_total_def)
  have "instances c r \<le> unat l"
    if r: "hm_get (pools ?c) r = Some p'" "pool_max_instances p' = Some l" for r p' l
  proof (cases "hm_get (pools c) r")
    case None
    with r(1) none show ?thesis by (auto split: if_splits)
  next
    case (Some p0)
    with keep r obtain l0 where "pool_max_instances p0 = Some l0" "l0 \<le> l"
      unfolding lowers_limit_def by (metis not_less option.case_eq_if option.collapse)
    moreover from this Some lim have "instances c r \<le> unat l0"
      by (auto simp: limits_ok_def within_limits_def)
    ultimately show ?thesis by (simp add: word_le_nat_alt)
  qed
  moreover have "idle_total c r = 0" if "hm_get (pools ?c) r = None" for r
    using that lim by (simp add: limits_ok_def split: if_splits)
  ultimately show ?thesis by (simp add: limits_ok_def within_limits_def same)
qed

lemma new_pool_limits:
  assumes "limits_ok c" "hm_get (pools c) q = None" "instances c q = 0"
  shows "limits_ok (c\<lparr>pools := hm_insert q p (pools c)\<rparr>)"
  using assms by (intro insert_pool_limits) (auto simp: lowers_limit_def split: if_splits)

subsection \<open>Scheduling\<close>

lemma schedule_idle:
  assumes wf: "cluster_wf c" and s: "schedule eid c = Some (b, c')"
  shows "idle_total c' q \<le> idle_total c q"
  using wf
proof (cases rule: schedule_cases [of c eid])
  case refused
  with s show ?thesis by simp
next
  case (assigned e p n)
  have c': "c' = assigned_cluster eid e p n c" using assigned s by simp
  have "unat (idle_on q (take_slot p n)) \<le> unat (idle_on q n)"
    using idle_on_take_slot_le [of q p n] by (simp add: word_le_nat_alt)
  moreover have "idle_total c' q = idle_total (c\<lparr>nodes := hm_insert (node_id n) (take_slot p n) (nodes c)\<rparr>) q"
    by (simp add: idle_total_def c')
  ultimately show ?thesis
    using idle_total_update [OF cluster_wf_nodes [OF wf] assigned(3), of "take_slot p n" q] by simp
qed

lemma schedule_limits_ok:
  assumes wf: "cluster_wf c" and lim: "limits_ok c" and s: "schedule eid c = Some (b, c')"
    and queued: "\<And>e. hm_get (executions c) eid = Some e \<Longrightarrow> \<not> active_status (exec_status e)"
  shows "limits_ok c'"
proof -
  have "within_limits c'"
    by (rule schedule_within_limits [OF wf _ s]) (use lim queued in \<open>simp_all add: limits_ok_def\<close>)
  moreover have "pools c' = pools c" using schedule_wf [OF wf s] by (simp add: same_config_def)
  ultimately show ?thesis
    using lim schedule_idle [OF wf s] by (auto simp: limits_ok_def) (metis le_zero_eq)
qed

lemma schedule_each_idle:
  assumes "schedule_each eids c = Some (es, c')" "cluster_wf c"
  shows "idle_total c' q \<le> idle_total c q"
  using assms
proof (induction eids arbitrary: c es)
  case (Cons i eids)
  obtain b c1 where s: "schedule i c = Some (b, c1)"
    using schedule_total [OF Cons.prems(2)] by blast
  have wf1: "cluster_wf c1" using schedule_wf [OF Cons.prems(2) s] by simp
  obtain es1 where rec: "schedule_each eids c1 = Some (es1, c')"
    using Cons.prems(1) s by (cases b) (auto split: option.splits)
  show ?case
    using Cons.IH [OF rec wf1] schedule_idle [OF Cons.prems(2) s, of q] by simp
qed simp

lemma schedule_queued_limits_ok:
  assumes wf: "cluster_wf c" and s: "schedule_queued c = Some (es, c')" and lim: "limits_ok c"
  shows "limits_ok c'" "pools c' = pools c"
proof -
  show p: "pools c' = pools c" using schedule_queued_config [OF wf s] by (simp add: same_config_def)
  have "within_limits c'" using schedule_queued_limits [OF wf s] lim by (simp add: limits_ok_def)
  moreover have "idle_total c' q \<le> idle_total c q" for q
    using s wf unfolding schedule_queued_def by (rule schedule_each_idle)
  ultimately show "limits_ok c'"
    using lim p by (auto simp: limits_ok_def) (metis le_zero_eq)
qed

lemma schedule_and_save_limits:
  assumes wf: "cluster_wf (app_cluster a)" and lim: "limits_ok (app_cluster a)"
  shows "limits_ok (app_cluster (snd (schedule_and_save cd io r a)))"
  by (rule schedule_and_save_cluster [OF wf, of cd io r]) (simp add: schedule_queued_limits_ok(1) [OF wf _ lim])

subsection \<open>Images, tokens and nodes\<close>

lemma image_limits:
  assumes lim: "limits_ok (app_cluster a)"
  shows "limits_ok (app_cluster (snd (import_commit cd io fresh name req ex src sha sz a)))"
    "limits_ok (app_cluster (snd (update_image cd io i nm x a)))"
    "limits_ok (app_cluster (snd (delete_image cd io i a)))"
proof -
  let ?c = "app_cluster a"
  have frame: "limits_ok (?c\<lparr>images := m\<rparr>)" for m
    by (rule no_more_limits [OF lim]) (rule no_more_frame; simp)
  have mapped: "limits_ok (?c\<lparr>nodes := hm_map_values f (nodes ?c), images := m\<rparr>)"
    if "\<And>n q. idle_on q (f n) = idle_on q n" for f m
    by (rule no_more_limits [OF lim], rule no_more_map_nodes [of f]) (simp_all add: that)
  have mapped': "limits_ok (?c\<lparr>images := m, nodes := hm_map_values f (nodes ?c)\<rparr>)"
    if "\<And>n q. idle_on q (f n) = idle_on q n" for f m
    by (rule no_more_limits [OF lim], rule no_more_map_nodes [of f]) (simp_all add: that)
  show "limits_ok (app_cluster (snd (import_commit cd io fresh name req ex src sha sz a)))"
    using lim by (auto simp: import_commit_def Let_def idle_on_def intro!: mapped)
  show "limits_ok (app_cluster (snd (update_image cd io i nm x a)))"
    using lim frame by (auto simp: update_image_def Let_def split: option.split)
  show "limits_ok (app_cluster (snd (delete_image cd io i a)))"
    using lim by (auto simp: delete_image_def Let_def idle_on_def intro!: mapped' split: option.split)
qed

lemma join_limits:
  assumes lim: "limits_ok (app_cluster a)"
  shows "limits_ok (app_cluster (snd (create_join_token cd H io now fresh token a)))"
    "limits_ok (app_cluster (snd (join_cluster cd H io now fresh cred token a)))"
    "limits_ok (app_cluster (snd (local_join cd H io loopback fresh cred requested a)))"
proof -
  have frame: "limits_ok ((app_cluster a)\<lparr>join_tokens := m\<rparr>)"
    "limits_ok ((app_cluster a)\<lparr>join_tokens := m, node_credentials := k\<rparr>)"
    "limits_ok ((app_cluster a)\<lparr>node_credentials := k\<rparr>)" for m k
    by (rule no_more_limits [OF lim], rule no_more_frame; simp)+
  show "limits_ok (app_cluster (snd (create_join_token cd H io now fresh token a)))"
    "limits_ok (app_cluster (snd (join_cluster cd H io now fresh cred token a)))"
    "limits_ok (app_cluster (snd (local_join cd H io loopback fresh cred requested a)))"
    using lim frame by (auto simp: create_join_token_def join_cluster_def local_join_def Let_def split: option.split)
qed

text \<open>Replacing a node by one with the same idle instances, and adding one without any.\<close>

lemma put_node_limits:
  assumes wf: "cluster_wf c" and lim: "limits_ok c"
    and old: "\<And>n q. hm_get (nodes c) i = Some n \<Longrightarrow> idle_on q m = idle_on q n"
    and new: "\<And>q. hm_get (nodes c) i = None \<Longrightarrow> idle_on q m = 0"
  shows "limits_ok (c\<lparr>nodes := hm_insert i m (nodes c)\<rparr>)"
  by (rule no_more_limits [OF lim], rule no_more_put_node [OF cluster_wf_nodes [OF wf]]) (simp_all add: old new)

lemma refresh_node_limits:
  assumes "cluster_wf c" "limits_ok c"
  shows "limits_ok (refresh_node i c)"
  using assms(2) unfolding refresh_node_def
  by (auto split: option.split intro!: put_node_limits [OF assms] simp: idle_on_def)

lemma reset_idle_limits:
  assumes wf: "cluster_wf c" and lim: "limits_ok c"
  shows "limits_ok (reset_idle_instances i c)"
proof (cases "hm_get (nodes c) i")
  case None
  with lim show ?thesis by (simp add: reset_idle_instances_def)
next
  case (Some n)
  have "no_more c (c\<lparr>nodes := hm_insert i (fold (give_back (pools c)) (node_idle_instances n)
      (n\<lparr>node_idle_instances := []\<rparr>)) (nodes c)\<rparr>)"
    by (rule no_more_put_node [OF cluster_wf_nodes [OF wf]]) (simp_all add: Some idle_on_def fold_give_back)
  from no_more_limits [OF lim this] show ?thesis by (simp add: reset_idle_instances_def Some)
qed

lemma as_node_limits:
  assumes "limits_ok (app_cluster a)" "\<And>nid. limits_ok (app_cluster (snd (h nid a)))"
  shows "limits_ok (app_cluster (snd (as_node H auth h a)))"
  using assms by (auto simp: as_node_def split: response.splits)

lemma as_this_node_limits:
  assumes "limits_ok (app_cluster a)" "limits_ok (app_cluster (snd (h a)))"
  shows "limits_ok (app_cluster (snd (as_this_node H auth i h a)))"
  unfolding as_this_node_def by (rule as_node_limits) (use assms in auto)

lemma update_node_limits:
  assumes inv: "ctl_inv (app_cluster a)" and lim: "limits_ok (app_cluster a)"
  shows "limits_ok (app_cluster (snd (update_node cd io i k a)))"
  using lim unfolding update_node_def
  by (auto simp: Let_def idle_on_def split: option.split intro!: put_node_limits [OF ctl_invD(1) [OF inv] lim])

lemma delete_node_limits:
  assumes inv: "ctl_inv (app_cluster a)" and lim: "limits_ok (app_cluster a)"
  shows "limits_ok (app_cluster (snd (delete_node cd io i a)))"
proof -
  let ?c = "app_cluster a"
  note wf = wf_parts [OF ctl_invD(1) [OF inv]]
  have gone: "limits_ok (?c\<lparr>nodes := hm_remove i (nodes ?c)\<rparr>)"
    "limits_ok (?c\<lparr>nodes := hm_remove i (nodes ?c), node_credentials := k\<rparr>)" for k
    by (rule no_more_limits [OF lim], rule no_more_remove_node [OF cluster_wf_nodes [OF ctl_invD(1) [OF inv]]]; simp)+
  have "cluster_wf (?c\<lparr>nodes := hm_remove i (nodes ?c), node_credentials := hm_remove i (node_credentials ?c)\<rparr>)"
    using wf by (auto simp: cluster_wf_def intro!: nodes_wf_remove)
  then show ?thesis
    using lim gone by (auto simp: delete_node_def Let_def intro!: schedule_and_save_limits)
qed

lemma register_node_limits:
  assumes inv: "ctl_inv (app_cluster a)" and lim: "limits_ok (app_cluster a)"
  shows "limits_ok (app_cluster (snd (register_node cd H io now auth r a)))"
proof -
  let ?c = "app_cluster a"
  let ?node = "\<lambda>nid. report_node r now (case hm_get (nodes ?c) nid of Some n \<Rightarrow> n | None \<Rightarrow> new_node nid r now)"
  let ?put = "\<lambda>nid. ?c\<lparr>nodes := hm_insert nid (?node nid) (nodes ?c)\<rparr>"
  note wf = wf_parts [OF ctl_invD(1) [OF inv]]
  have idle: "idle_on q (report_node r now n) = idle_on q n" "idle_on q (new_node nid r now) = 0" for q n nid
    by (simp_all add: report_node_def new_node_def idle_on_def)
  have put: "ctl_inv (?put nid)" "limits_ok (?put nid)" for nid
  proof -
    show "ctl_inv (?put nid)"
      using nodes_wf_get [OF wf(3)]
      by (intro node_update_inv [OF inv])
        (auto simp: report_node_def new_node_def node_wf_def split: option.splits)
    show "limits_ok (?put nid)"
      by (rule put_node_limits [OF ctl_invD(1) [OF inv] lim]) (auto simp: idle)
  qed
  show ?thesis
    using lim put unfolding register_node_def
    by (auto simp: Let_def intro!: as_node_limits schedule_and_save_limits refresh_node_limits reset_idle_limits
        ctl_invD(1) reset_idle_inv refresh_node_inv)
qed

lemma report_limits:
  assumes inv: "ctl_inv (app_cluster a)" and lim: "limits_ok (app_cluster a)"
  shows "limits_ok (app_cluster (snd (report_image_ready cd H io auth i img a)))"
    "limits_ok (app_cluster (snd (report_environment_ready cd H io auth i art a)))"
proof -
  let ?c = "app_cluster a"
  note wf = wf_parts [OF ctl_invD(1) [OF inv]]
  have put: "cluster_wf (?c\<lparr>nodes := hm_insert i m (nodes ?c)\<rparr>)" "limits_ok (?c\<lparr>nodes := hm_insert i m (nodes ?c)\<rparr>)"
    if "hm_get (nodes ?c) i = Some n" "m = n\<lparr>node_images := s\<rparr> \<or> m = n\<lparr>node_environments := t\<rparr>" for n m s t
  proof -
    have "ctl_inv (?c\<lparr>nodes := hm_insert i m (nodes ?c)\<rparr>)"
      using nodes_wf_get [OF wf(3) that(1)] that(2) by (intro node_update_inv [OF inv]) (auto simp: node_wf_def)
    then show "cluster_wf (?c\<lparr>nodes := hm_insert i m (nodes ?c)\<rparr>)" by (rule ctl_invD)
    show "limits_ok (?c\<lparr>nodes := hm_insert i m (nodes ?c)\<rparr>)"
      by (rule put_node_limits [OF ctl_invD(1) [OF inv] lim]) (use that in \<open>auto simp: idle_on_def\<close>)
  qed
  have r: "cluster_wf (refresh_node j c)" if "cluster_wf c" for j c
    using that by (auto simp: refresh_node_def cluster_wf_def node_wf_def
        dest: nodes_wf_get split: option.split intro!: nodes_wf_insert)
  show "limits_ok (app_cluster (snd (report_image_ready cd H io auth i img a)))"
    using lim put(1) [OF _ disjI1 [OF refl]] put(2) [OF _ disjI1 [OF refl]] unfolding report_image_ready_def
    by (auto simp: Let_def split: option.splits
        intro!: as_this_node_limits schedule_and_save_limits refresh_node_limits r)
  show "limits_ok (app_cluster (snd (report_environment_ready cd H io auth i art a)))"
    using lim put(1) [OF _ disjI2 [OF refl]] put(2) [OF _ disjI2 [OF refl]] unfolding report_environment_ready_def
    by (auto simp: Let_def split: option.splits intro!: as_this_node_limits schedule_and_save_limits)
qed

lemma warm_limits:
  assumes inv: "ctl_inv c" and lim: "limits_ok c"
  shows "limits_ok (snd (add_warm_instance i q c))" "limits_ok (snd (remove_idle_instance i q c))"
proof -
  note wf = ctl_invD(1) [OF inv]
  show "limits_ok (snd (add_warm_instance i q c))"
    using wf
  proof (cases rule: add_warm_cases [of c i q])
    case (added p n target)
    let ?c = "c\<lparr>nodes := hm_insert i (started p n) (nodes c)\<rparr>"
    have eq: "snd (add_warm_instance i q c) = ?c" using added by simp
    have "idle_total ?c r = 0" if "hm_get (pools c) r = None" for r
    proof -
      have "r \<noteq> pool_name p" using that added(1,2) by auto
      then have "idle_on r (started p n) = idle_on r n" by simp
      then have "idle_total ?c r = idle_total c r"
        using idle_total_update [OF cluster_wf_nodes [OF wf] added(7), of "started p n" r] by simp
      then show ?thesis using lim that by (simp add: limits_ok_def)
    qed
    moreover have "within_limits ?c" using add_warm_limits [OF wf, of i q] lim eq by (simp add: limits_ok_def)
    ultimately show ?thesis unfolding eq by (simp add: limits_ok_def)
  qed (use lim in simp)
  show "limits_ok (snd (remove_idle_instance i q c))"
    using wf
  proof (cases rule: remove_idle_cases [of c i q])
    case (removed p n target)
    have "no_more c (c\<lparr>nodes := hm_insert i (stopped p n) (nodes c)\<rparr>)"
    proof (rule no_more_put_node [OF cluster_wf_nodes [OF wf]])
      show "idle_on r (stopped p n) \<le> idle_on r m" if "hm_get (nodes c) i = Some m" for m r
        using that removed(2,6,8) by (simp add: word_le_nat_alt unat_pred)
    qed (simp add: removed(6))
    from no_more_limits [OF lim this] show ?thesis by (simp add: removed)
  qed (use lim in simp)
qed

lemma api_warm_limits:
  assumes inv: "ctl_inv (app_cluster a)" and lim: "limits_ok (app_cluster a)"
  shows "limits_ok (app_cluster (snd (api_add_warm_instance cd H io auth i q a)))"
    "limits_ok (app_cluster (snd (api_remove_idle_instance cd H io auth i q a)))"
  using lim warm_ops_inv [OF inv, of i q, THEN ctl_invD(1)] warm_limits [OF inv lim, of i q]
  unfolding api_add_warm_instance_def api_remove_idle_instance_def
  by (auto intro!: as_this_node_limits schedule_and_save_limits split: prod.split bool.split)

subsection \<open>Pools and environments\<close>

lemma create_pool_limits:
  assumes inv: "ctl_inv (app_cluster a)" and lim: "limits_ok (app_cluster a)"
  shows "limits_ok (app_cluster (snd (create_pool cd io p a)))"
proof (cases "check_pool p (app_cluster a)")
  case None
  then have new: "hm_get (pools (app_cluster a)) (pool_name p) = None"
    by (auto simp: check_pool_def split: option.splits if_splits)
  have "limits_ok ((app_cluster a)\<lparr>pools := hm_insert (pool_name p) p (pools (app_cluster a))\<rparr>)"
    by (rule new_pool_limits [OF lim new absent_no_instances [OF inv lim new]])
  with None show ?thesis by (simp add: create_pool_def Let_def)
qed (use lim in \<open>auto simp: create_pool_def Let_def\<close>)

lemma delete_pool_limits:
  assumes lim: "limits_ok (app_cluster a)"
  shows "limits_ok (app_cluster (snd (delete_pool cd io q a)))"
proof -
  let ?c = "app_cluster a"
  have "limits_ok (?c\<lparr>pools := hm_remove q (pools ?c), nodes := hm_map_values (drop_idle q p) (nodes ?c)\<rparr>)" for p
    by (rule no_more_limits [OF lim], rule no_more_drop_idle [of _ q p]) simp_all
  then show ?thesis using lim by (auto simp: delete_pool_def Let_def split: option.splits)
qed

lemma limits_ok_environments [simp]: "limits_ok (c\<lparr>environments := m\<rparr>) = limits_ok c"
  by (rule limits_ok_frame) simp_all

lemma create_environment_commit_limits:
  assumes inv: "ctl_inv (app_cluster a)" and lim: "limits_ok (app_cluster a)"
    and fresh: "pool_fresh (app_cluster a) (''environment-'' @ uuid_text cd i)"
  shows "limits_ok (app_cluster (snd (create_environment_commit cd io i r img art a)))"
proof -
  let ?q = "''environment-'' @ uuid_text cd i" and ?c = "app_cluster a"
  have new: "hm_get (pools ?c) ?q = None" using fresh by (simp add: pool_fresh_def)
  have "limits_ok (?c\<lparr>pools := hm_insert ?q p (pools ?c)\<rparr>)" for p
    by (rule new_pool_limits [OF lim new absent_no_instances [OF inv lim new]])
  then have "limits_ok ((?c\<lparr>pools := hm_insert ?q p (pools ?c)\<rparr>)\<lparr>environments := m\<rparr>)" for p m
    by (simp only: limits_ok_environments)
  then show ?thesis by (simp add: create_environment_commit_def Let_def)
qed

lemma finish_environment_limits:
  assumes wf: "cluster_wf ((app_cluster a)\<lparr>environments := hm_insert i e (environments (app_cluster a))\<rparr>)"
    and lim: "limits_ok (app_cluster a)"
  shows "limits_ok (app_cluster (snd (finish_environment cd io ids e i a)))"
proof -
  let ?c1 = "(app_cluster a)\<lparr>environments := hm_insert i e (environments (app_cluster a))\<rparr>"
  obtain es c2 where s: "schedule_queued ?c1 = Some (es, c2)" using schedule_queued_some [OF wf] by blast
  have "limits_ok c2" using schedule_queued_limits_ok(1) [OF wf s] lim by simp
  then show ?thesis
    by (auto simp: finish_environment_def Let_def s save_def dest!: app_save_executions_cluster
        split: option.splits)
qed

lemma finish_environment_limits_pools:
  assumes wf: "cluster_wf ((app_cluster a)\<lparr>environments := hm_insert i e (environments (app_cluster a))\<rparr>)"
  shows "pools (app_cluster (snd (finish_environment cd io ids e i a))) = pools (app_cluster a)"
proof -
  let ?c1 = "(app_cluster a)\<lparr>environments := hm_insert i e (environments (app_cluster a))\<rparr>"
  obtain es c2 where s: "schedule_queued ?c1 = Some (es, c2)" using schedule_queued_some [OF wf] by blast
  have "pools c2 = pools (app_cluster a)" using schedule_queued_config [OF wf s] by (simp add: same_config_def)
  then show ?thesis
    by (auto simp: finish_environment_def Let_def s save_def dest!: app_save_executions_cluster
        split: option.splits)
qed

lemma release_no_more:
  assumes "cluster_wf c"
  shows "no_more c (release i False c)"
proof (cases rule: release_cases [of i False c])
  case (freed e nid p n)
  have "no_more c (c\<lparr>nodes := hm_insert nid (release_slot p False n) (nodes c)\<rparr>)"
    by (rule no_more_put_node [OF cluster_wf_nodes [OF assms]]) (simp_all add: freed(4) release_slot_def)
  then show ?thesis by (simp only: freed(5))
qed simp

lemma requeue_in_no_more:
  assumes wf: "cluster_wf c" and r: "requeue_in q i c = Some c'"
  shows "no_more c c'"
proof -
  define c1 where "c1 = (if (case hm_get (executions c) i of Some e \<Rightarrow> exec_status e = Assigned | None \<Rightarrow> False)
      then release i False c else c)"
  have m: "no_more c c1" using release_no_more [OF wf] by (simp add: c1_def)
  have "hm_wf (executions c1)"
    using wf_parts(4) [OF wf] keyed_wf by (auto simp: c1_def split: option.split)
  then have m': "no_more c1 (c1\<lparr>executions := hm_insert i e (executions c1)\<rparr>)"
    if "exec_status e = Queued" for e
    by (rule no_more_put_execution) (simp add: active_in_def active_status_def that)
  obtain e where "c' = c1\<lparr>executions := hm_insert i e (executions c1)\<rparr>" "exec_status e = Queued"
    using r by (auto simp: requeue_in_def Let_def c1_def split: option.splits if_splits)
  with no_more_trans [OF m m'] show ?thesis by simp
qed

lemma requeue_all_no_more:
  assumes "ctl_inv c" "\<And>j env. hm_get (environments c) j = Some env \<Longrightarrow> env_pool env \<noteq> q"
    and "requeue_all q ids c = Some c'"
  shows "no_more c c'"
  using assms
proof (induction ids arbitrary: c)
  case (Cons i ids)
  from Cons.prems(3) obtain c1 where c1: "requeue_in q i c = Some c1" "requeue_all q ids c1 = Some c'"
    by (auto split: option.splits)
  from c1(1) obtain e where e: "hm_get (executions c) i = Some e"
    by (auto simp: requeue_in_def split: option.splits)
  have "ctl_inv c1 \<and> environments c1 = environments c"
    by (rule requeue_in_inv [OF Cons.prems(1,2) e]) (use c1(1) in simp_all)
  then have "no_more c1 c'" using Cons.IH [OF _ _ c1(2)] Cons.prems(2) by simp
  with requeue_in_no_more [OF ctl_invD(1) [OF Cons.prems(1)] c1(1)] show ?case by (rule no_more_trans)
qed simp

lemma retire_pool_no_more:
  assumes wf: "cluster_wf c" and r: "retire_pool q c = Some c'"
  shows "no_more c c'"
proof (cases "c' = drop_pool q c")
  case True
  then show ?thesis using no_more_drop_pool [OF wf] by simp
next
  case False
  with r obtain p where p: "hm_get (pools c) q = Some p"
      "c' = c\<lparr>pools := hm_insert q (p\<lparr>pool_warm_instances := 0\<rparr>) (pools c)\<rparr>"
    by (auto simp: retire_pool_def split: if_splits option.splits)
  show ?thesis
    by (rule no_moreI) (use p in \<open>auto simp: active_count_def idle_total_def split: if_splits\<close>)
qed

text \<open>A restart moves executions to a pool that has no instances, and puts no limit on the old one.\<close>

lemma restart_pool_limits:
  assumes inv: "ctl_inv c" and lim: "limits_ok c" and e: "env_id e = i"
    and q: "q = ''environment-'' @ uuid_text cd i @ ''-'' @ take 8 suffix" and fresh: "pool_fresh c q"
    and neq: "q \<noteq> env_pool e"
    and r: "restart_environment_pool cd suffix e c = Some (ids, e', c')"
  shows "limits_ok c'"
proof -
  define moved where "moved = map exec_id (filter (movable (env_pool e)) (hm_values (executions c)))"
  obtain c1 c2 where c1: "requeue_all q moved c = Some c1" and c2: "retire_pool (env_pool e) c1 = Some c2"
      and c': "c' = c2\<lparr>pools := hm_insert q (environment_pool (e\<lparr>env_pool := q\<rparr>)) (pools c2)\<rparr>"
    using r e by (auto simp: restart_environment_pool_def Let_def q moved_def split: option.splits)
  have env: "\<And>j x. hm_get (environments c) j = Some x \<Longrightarrow> env_pool x \<noteq> q"
    using fresh by (simp add: pool_fresh_def)
  have ids: "\<And>j. j \<in> set moved \<Longrightarrow> hm_get (executions c) j \<noteq> None"
    using set_movable [OF ctl_invD(1) [OF inv], of _ "env_pool e"] by (simp add: moved_def) blast
  obtain d where "requeue_all q moved c = Some d" "ctl_inv d" "pools d = pools c"
    using requeue_all_inv [OF inv, of q moved] env ids by blast
  with c1 have "ctl_inv c1" and pools1: "pools c1 = pools c" by simp_all
  have m: "no_more c c2"
    by (rule no_more_trans [OF requeue_all_no_more [OF inv env c1]
          retire_pool_no_more [OF ctl_invD(1) [OF \<open>ctl_inv c1\<close>] c2]])
  have absent: "hm_get (pools c) q = None" using fresh by (simp add: pool_fresh_def)
  then have "instances c q = 0" by (rule absent_no_instances [OF inv lim])
  then have none: "instances c2 q = 0" using m by (simp add: no_more_def) (metis le_zero_eq)
  have "hm_get (pools c2) q = None"
    using c2 absent neq pools1 by (auto simp: retire_pool_def drop_pool_def split: if_splits option.splits)
  then show ?thesis unfolding c' using no_more_limits [OF lim m] none by (intro new_pool_limits)
qed

lemma restart_environment_limits:
  assumes inv: "ctl_inv (app_cluster a)" and lim: "limits_ok (app_cluster a)"
    and fresh: "pool_fresh (app_cluster a) (''environment-'' @ uuid_text cd i @ ''-'' @ take 8 suffix)"
  shows "limits_ok (app_cluster (snd (restart_environment cd io suffix i a)))"
proof (cases "hm_get (environments (app_cluster a)) i")
  case None
  then show ?thesis using lim by (simp add: restart_environment_def)
next
  case (Some x)
  let ?q = "''environment-'' @ uuid_text cd i @ ''-'' @ take 8 suffix"
  have id: "env_id x = i" using keyed_get [OF wf_parts(5) [OF ctl_invD(1) [OF inv]] Some] .
  have neq: "?q \<noteq> env_pool x" using fresh Some unfolding pool_fresh_def by metis
  obtain ids c' where r: "restart_environment_pool cd suffix x (app_cluster a) = Some (ids, x\<lparr>env_pool := ?q\<rparr>, c')"
      "ctl_inv c'"
    by (rule restart_pool_inv [OF inv id refl fresh neq])
  have "limits_ok c'" by (rule restart_pool_limits [OF inv lim id refl fresh neq r(1)])
  moreover have "cluster_wf (c'\<lparr>environments := hm_insert i (x\<lparr>env_pool := ?q\<rparr>) (environments c')\<rparr>)"
    using wf_parts [OF ctl_invD(1) [OF r(2)]] id by (auto simp: cluster_wf_def intro!: keyed_insert)
  ultimately show ?thesis
    using finish_environment_limits [where a = "with_cluster c' a" and i = i and e = "x\<lparr>env_pool := ?q\<rparr>"]
    by (simp add: restart_environment_def Some r(1))
qed

lemma update_environment_commit_limits:
  assumes inv: "ctl_inv (app_cluster a)" and lim: "limits_ok (app_cluster a)" and eo: "env_ok (app_cluster a) i old"
    and fresh: "pool_fresh (app_cluster a) (''environment-'' @ uuid_text cd i @ ''-'' @ take 8 suffix)"
    and neq: "''environment-'' @ uuid_text cd i @ ''-'' @ take 8 suffix \<noteq> env_pool old"
    and keep: "\<not> lowers_limit (app_cluster a)
      (app_cluster (snd (update_environment_commit cd io suffix i old img r art a)))"
  shows "limits_ok (app_cluster (snd (update_environment_commit cd io suffix i old img r art a)))"
proof -
  let ?e = "environment_of i r img art (env_pool old)" and ?c = "app_cluster a"
  let ?q = "''environment-'' @ uuid_text cd i @ ''-'' @ take 8 suffix"
  have put: "cluster_wf (c\<lparr>environments := hm_insert i e (environments c)\<rparr>)" if "ctl_inv c" "env_id e = i" for c e
    using wf_parts [OF ctl_invD(1) [OF that(1)]] that(2) by (auto simp: cluster_wf_def intro!: keyed_insert)
  show ?thesis
  proof (cases "needs_rebuild old img r")
    case True
    have e: "env_id ?e = i" "?q \<noteq> env_pool ?e" using neq by simp_all
    obtain ids c' where rp: "restart_environment_pool cd suffix ?e ?c = Some (ids, ?e\<lparr>env_pool := ?q\<rparr>, c')" "ctl_inv c'"
      by (rule restart_pool_inv [OF inv e(1) refl fresh e(2)])
    have "limits_ok c'" by (rule restart_pool_limits [OF inv lim e(1) refl fresh e(2) rp(1)])
    moreover have "cluster_wf (c'\<lparr>environments := hm_insert i (?e\<lparr>env_pool := ?q\<rparr>) (environments c')\<rparr>)"
      by (rule put [OF rp(2)]) simp
    ultimately show ?thesis
      using finish_environment_limits [where a = "with_cluster c' a" and i = i and e = "?e\<lparr>env_pool := ?q\<rparr>"]
      by (simp add: update_environment_commit_def Let_def True rp(1))
  next
    case False
    let ?c1 = "?c\<lparr>pools := hm_insert (env_pool ?e) (environment_pool ?e) (pools ?c)\<rparr>"
    have "ctl_inv ?c1"
      by (rule insert_pool_inv [OF inv]) (use eo in \<open>auto simp: env_ok_def\<close>)
    then have wf: "cluster_wf ((app_cluster (with_cluster ?c1 a))
        \<lparr>environments := hm_insert i ?e (environments (app_cluster (with_cluster ?c1 a)))\<rparr>)"
      using put [of ?c1 ?e] by simp
    have eq: "update_environment_commit cd io suffix i old img r art a
        = finish_environment cd io [] ?e i (with_cluster ?c1 a)"
      by (simp add: update_environment_commit_def Let_def False)
    have "pools (app_cluster (snd (update_environment_commit cd io suffix i old img r art a))) = pools ?c1"
      unfolding eq using finish_environment_limits_pools [OF wf] by simp
    with keep have "\<not> lowers_limit ?c ?c1" by (simp add: lowers_limit_def)
    then have "limits_ok ?c1"
      by (intro insert_pool_limits [OF lim] absent_no_instances [OF inv lim])
    then show ?thesis unfolding eq by (intro finish_environment_limits [OF wf]) simp
  qed
qed

lemma delete_environment_limits:
  assumes inv: "ctl_inv (app_cluster a)" and lim: "limits_ok (app_cluster a)"
  shows "limits_ok (app_cluster (snd (delete_environment cd io i a)))"
proof -
  let ?c = "app_cluster a"
  let ?c0 = "?c\<lparr>environments := hm_remove i (environments ?c)\<rparr>"
  have wf: "cluster_wf ?c0" using wf_parts [OF ctl_invD(1) [OF inv]] by (simp add: cluster_wf_def keyed_remove)
  have drop: "limits_ok (drop_pool q ?c0)" for q
    by (rule no_more_limits [OF _ no_more_drop_pool [OF wf]]) (simp add: lim)
  have "limits_ok ((drop_pool q ?c0)\<lparr>nodes := hm_map_values
        (\<lambda>n. n\<lparr>node_environments := node_environments n - {art}\<rparr>) (nodes (drop_pool q ?c0))\<rparr>)" for q art
    by (rule no_more_limits [OF drop [of q]],
        rule no_more_map_nodes [of "\<lambda>n. n\<lparr>node_environments := node_environments n - {art}\<rparr>"])
      (simp_all add: idle_on_def)
  with drop show ?thesis
    using lim by (auto simp: delete_environment_def Let_def split: option.split)
qed

subsection \<open>Executions\<close>

lemma look_for_work_limits:
  assumes inv: "ctl_inv (app_cluster a)" and lim: "limits_ok (app_cluster a)"
  shows "limits_ok (app_cluster (snd (look_for_work cd unseal io now nid a)))"
proof -
  let ?c = "app_cluster a"
  have wf: "hm_wf (executions ?c)" using wf_parts(4) [OF ctl_invD(1) [OF inv]] by (rule keyed_wf)
  have *: "limits_ok (?c\<lparr>executions := hm_insert k (start_execution now e) (executions ?c)\<rparr>)"
    if "List.find (\<lambda>(_, e). waiting_for nid e) (executions ?c) = Some (k, e)" for k e
  proof -
    have mem: "(k, e) \<in> set (executions ?c)" "waiting_for nid e"
      using that by (auto simp: find_Some_iff) (metis nth_mem)
    have "hm_get (executions ?c) k = Some e" using mem(1) hm.entries_get [OF wf] by metis
    moreover have "active_in q (start_execution now e) = active_in q e" for q
      using mem(2) by (auto simp: active_in_def start_execution_def waiting_for_def active_status_def)
    ultimately show ?thesis
      by (intro no_more_limits [OF lim no_more_put_execution [OF wf]]) auto
  qed
  show ?thesis
    unfolding look_for_work_def
    using lim * by (auto simp: Let_def dest!: app_save_executions_cluster split: option.splits)
qed

lemma poll_work_limits:
  assumes inv: "ctl_inv (app_cluster a)" and lim: "limits_ok (app_cluster a)"
  shows "limits_ok (app_cluster (snd (poll_work cd H unseal io now auth nid a)))"
  unfolding poll_work_def by (rule as_this_node_limits [OF lim]) (rule look_for_work_limits [OF inv lim])

lemma admit_limits:
  assumes inv: "ctl_inv (app_cluster a)" and lim: "limits_ok (app_cluster a)" and e: "exec_status e = Queued"
  shows "limits_ok (app_cluster (snd (admit_execution cd io q e a)))"
proof -
  let ?c = "app_cluster a" and ?i = "exec_id e"
  let ?c1 = "?c\<lparr>executions := hm_insert ?i e (executions ?c)\<rparr>"
  note wf = wf_parts [OF ctl_invD(1) [OF inv]]
  have wf1: "cluster_wf ?c1" using wf by (auto simp: cluster_wf_def intro!: keyed_insert)
  have "limits_ok ?c1"
    by (rule no_more_limits [OF lim no_more_put_execution [OF keyed_wf [OF wf(4)]]])
      (simp add: active_in_def active_status_def e)
  moreover obtain b c2 where s: "schedule ?i ?c1 = Some (b, c2)" using schedule_total [OF wf1] by blast
  ultimately have lim2: "limits_ok c2"
    by (intro schedule_limits_ok [OF wf1 _ s]) (auto simp: active_status_def e)
  have "cluster_wf c2" using schedule_wf [OF wf1 s] by simp
  then have "limits_ok (c2\<lparr>executions := hm_remove ?i (executions c2)\<rparr>)"
    using wf_parts(4) keyed_wf by (intro no_more_limits [OF lim2 no_more_remove_execution]) blast
  with lim2 show ?thesis
    by (auto simp: admit_execution_def Let_def s dest!: app_save_executions_cluster split: option.splits)
qed

lemma create_execution_limits:
  assumes inv: "ctl_inv (app_cluster a)" and lim: "limits_ok (app_cluster a)"
  shows "limits_ok (app_cluster (snd (create_execution cd seal io now fresh r a)))"
proof -
  have "limits_ok (app_cluster (snd (admit_execution cd io q (new_execution fresh now r p env) a')))"
    if "app_cluster a' = app_cluster a" for p env a' q
    using inv lim that by (intro admit_limits) (simp_all add: new_execution_def)
  then show ?thesis
    using lim
    by (auto simp: create_execution_def Let_def dest!: db_insert_cluster
        split: option.splits response.splits bool.splits)
qed

text \<open>A completed execution may leave one idle instance, which is the one it had.\<close>

lemma completed_no_more:
  assumes inv: "ctl_inv c" and e: "hm_get (executions c) i = Some e" "active_status (exec_status e)"
  shows "no_more c (release i k (c\<lparr>executions := hm_insert i (completed r now e) (executions c)\<rparr>))"
proof -
  let ?e = "completed r now e" and ?c1 = "c\<lparr>executions := hm_insert i (completed r now e) (executions c)\<rparr>"
  note wf = wf_parts [OF ctl_invD(1) [OF inv]]
  have fin: "\<not> active_in q ?e" for q
    using finished_not [of "exec_status ?e"] by (simp add: active_in_def)
  have act: "active_count ?c1 q + (if exec_pool e = q then 1 else 0) = active_count c q" for q
    using hm_count_old [OF keyed_wf [OF wf(4)] e(1), of "active_in q" ?e] e(2) fin [of q]
    by (simp add: active_count_def active_in_def [of q e])
  have m1: "no_more c ?c1"
    by (rule no_more_put_execution [OF keyed_wf [OF wf(4)]]) (simp add: fin)
  show ?thesis
  proof (cases rule: release_cases [of i k ?c1])
    case unchanged
    with m1 show ?thesis by simp
  next
    case (freed x nid p n)
    have p: "hm_get (pools c) (exec_pool e) = Some p" "hm_get (nodes c) nid = Some n"
      using freed(1,3,4) by auto
    have name: "pool_name p = exec_pool e" using keyed_get [OF wf(2) p(1)] .
    let ?c2 = "?c1\<lparr>nodes := hm_insert nid (release_slot p k n) (nodes ?c1)\<rparr>"
    have inc: "unat (x + 1) \<le> Suc (unat x)" for x :: u32 by (simp add: unat_word_ariths)
    have slot: "unat (idle_on q (release_slot p k n)) \<le> unat (idle_on q n) + (if exec_pool e = q then 1 else 0)" for q
      by (simp add: release_slot_def name inc)
    have total: "idle_total ?c2 q + unat (idle_on q n) = idle_total c q + unat (idle_on q (release_slot p k n))" for q
      using idle_total_update [OF cluster_wf_nodes [OF ctl_invD(1) [OF inv]] p(2), of "release_slot p k n" q]
      by (simp add: idle_total_def)
    have idle: "idle_total ?c2 q \<le> idle_total c q + (if exec_pool e = q then 1 else 0)" for q
      using total [of q] slot [of q] by linarith
    have "no_more c ?c2"
      unfolding no_more_def
    proof (intro conjI allI impI)
      fix q
      have "active_count ?c2 q = active_count ?c1 q" by (simp add: active_count_def)
      with act [of q] idle [of q] show "instances ?c2 q \<le> instances c q" by (simp add: instances_def)
      show "\<exists>p. hm_get (pools c) q = Some p \<and> pool_max_instances p' = pool_max_instances p"
        if "hm_get (pools ?c2) q = Some p'" for p' using that by simp
      show "idle_total ?c2 q = 0 \<or> hm_get (pools c) q = None \<and> idle_total ?c2 q \<le> idle_total c q"
        if "hm_get (pools ?c2) q = None"
      proof -
        have "exec_pool e \<noteq> q" "hm_get (pools c) q = None" using that p(1) by auto
        with idle [of q] show ?thesis by simp
      qed
    qed
    with freed(5) show ?thesis by simp
  qed
qed

lemma finish_in_cluster_limits:
  assumes inv: "ctl_inv c" and lim: "limits_ok c"
    and e: "hm_get (executions c) i = Some e" "exec_node e \<noteq> None"
    and f: "finish_in_cluster r now i e c = Some (scheduled, e', c')"
  shows "limits_ok c'"
proof -
  define c1 where "c1 = c\<lparr>executions := hm_insert i (completed r now e) (executions c)\<rparr>"
  define c2 where "c2 = release i (done_keep_idle r) c1"
  define c3 where "c3 = (if stale_pool (exec_pool e) c2 then drop_pool (exec_pool e) c2 else c2)"
  note wf = wf_parts [OF ctl_invD(1) [OF inv]]
  have "link_ok c e" "unfinished e"
    using ctl_invD(2,3) [OF inv] e(1) by (auto simp: links_def all_unfinished_def)
  then have active: "active_status (exec_status e)"
    using e(2) by (auto simp: link_ok_def unfinished_def active_status_def)
  have "cluster_wf c1"
    using wf keyed_get [OF wf(4) e(1)] by (auto simp: c1_def cluster_wf_def intro!: keyed_insert)
  then have wf2: "cluster_wf c2" unfolding c2_def by (rule release_wf)
  have "limits_ok c2"
    using no_more_limits [OF lim completed_no_more [OF inv e(1) active]] by (simp add: c2_def c1_def)
  then have lim3: "limits_ok c3"
    using no_more_limits [OF _ no_more_drop_pool [OF wf2]] by (simp add: c3_def)
  have wf3: "cluster_wf c3"
    using wf2 by (auto simp: c3_def drop_pool_def cluster_wf_def
        intro!: keyed_remove nodes_wf_map_values split: option.split)
  obtain es c4 where s: "schedule_queued c3 = Some (es, c4)" using schedule_queued_some [OF wf3] by blast
  have "hm_wf (executions c4)"
    using wf_parts(4) [OF schedule_queued_wf [OF wf3 s]] by (rule keyed_wf)
  from no_more_limits [OF schedule_queued_limits_ok(1) [OF wf3 s lim3] no_more_remove_execution [OF this, of i]]
  moreover have "finish_in_cluster r now i e c = (case hm_get (executions c4) i of None \<Rightarrow> None
      | Some e' \<Rightarrow> Some (es, e', c4\<lparr>executions := hm_remove i (executions c4)\<rparr>))"
    by (simp only: finish_in_cluster_def Let_def c1_def [symmetric] c2_def [symmetric]
      c3_def [symmetric] s option.case prod.case)
  ultimately show ?thesis using f by (simp split: option.splits)
qed

lemma complete_execution_limits:
  assumes inv: "ctl_inv (app_cluster a)" and lim: "limits_ok (app_cluster a)"
  shows "limits_ok (app_cluster (snd (complete_execution cd H io now auth i r a)))"
  unfolding complete_execution_def
proof (rule as_node_limits [OF lim], goal_cases)
  case (1 nid)
  show ?case
  proof (cases "hm_get (executions (app_cluster a)) i")
    case (Some e)
    obtain scheduled c' where f: "finish_in_cluster r now i e (app_cluster a)
        = Some (scheduled, completed r now e, c')"
      by (rule finish_in_cluster_inv [OF inv Some])
    have "limits_ok c'" if "exec_node e = Some nid"
      by (rule finish_in_cluster_limits [OF inv lim Some _ f]) (simp add: that)
    then show ?thesis
      using Some f lim
      by (auto simp: Let_def save_def dest!: app_save_executions_cluster split: option.splits)
  qed (use lim in simp)
qed

subsection \<open>Runs\<close>

lemmas limits_of_handlers =
  image_limits create_pool_limits delete_pool_limits delete_environment_limits join_limits
  update_node_limits delete_node_limits register_node_limits report_limits api_warm_limits
  create_execution_limits poll_work_limits complete_execution_limits

lemma handles_limits:
  assumes "handles cd H h a (p, a')" "ctl_inv (app_cluster a)" "limits_ok (app_cluster a)"
  shows "limits_ok (app_cluster a')"
  using assms(1)
proof (cases rule: handles.cases)
  case (6 i suffix io)
  then show ?thesis using restart_environment_limits [OF assms(2,3) 6(3)] by (simp only: outcome_iff_sym)
qed (simp_all add: outcome_iff_sym assms(2,3) limits_of_handlers)

lemma controller_step_limits:
  assumes "controller_step cd H h s (p, t)" "ctl_inv (app_cluster (ctl_app s))" "limits_ok (app_cluster (ctl_app s))"
    and "\<not> lowers_limit (app_cluster (ctl_app s)) (app_cluster (ctl_app t))"
  shows "limits_ok (app_cluster (ctl_app t))"
  using assms(1)
proof (cases rule: controller_step.cases)
  case (one_lock a')
  then show ?thesis using handles_limits assms(2,3) by simp
next
  case (commit_environment r img art i io a')
  then have "limits_ok (app_cluster a')"
    using create_environment_commit_limits [OF assms(2,3) commit_environment(4)] by (simp only: outcome_iff)
  with commit_environment show ?thesis by simp
next
  case (commit_update i old img r art q suffix io a')
  then have a': "a' = snd (update_environment_commit cd io suffix i old img r art (ctl_app s))"
    by (simp only: outcome_iff)
  have "\<not> lowers_limit (app_cluster (ctl_app s)) (app_cluster a')"
    using assms(4) commit_update by simp
  then have "limits_ok (app_cluster a')"
    unfolding a' using commit_update(4-7)
    by (intro update_environment_commit_limits [OF assms(2,3)]) simp_all
  with commit_update show ?thesis by simp
qed (simp_all add: assms(3))

text \<open>The runs in which no limit of a pool is lowered while the pool is there.\<close>

definition steady_steps :: "codec \<Rightarrow> (string \<Rightarrow> string) \<Rightarrow> controller \<Rightarrow> controller \<Rightarrow> bool" where
  "steady_steps cd H s t \<longleftrightarrow> controller_steps cd H s t \<and>
     \<not> lowers_limit (app_cluster (ctl_app s)) (app_cluster (ctl_app t))"

lemma limits_ok_empty: "limits_ok empty_cluster"
  by (simp add: limits_ok_def within_limits_def empty_cluster_def idle_total_def hm_values_def)

interpretation steady: invariant_system "controller_start cd" "steady_steps cd H"
    "\<lambda>s. ctl_inv (app_cluster (ctl_app s)) \<and> limits_ok (app_cluster (ctl_app s))" for cd H
proof (unfold_locales, goal_cases)
  case (1 s)
  then show ?case using boot_new ctl_inv_empty limits_ok_empty by (auto simp: controller_start_def)
next
  case (2 s t)
  then show ?case
    using controller_step_inv controller_step_limits by (auto simp: steady_steps_def controller_steps_def)
qed

text \<open>C2: in every run of the controller in which no limit is lowered under a pool that is there, a
  pool with a limit never has more instances, assigned, running and idle together, than its limit
  allows: whatever nodes join, leave, restart or report, and whichever environments are updated,
  restarted or deleted in between.\<close>

theorem pools_stay_within_limits:
  assumes "reachable (controller_start cd) (steady_steps cd H) s"
    and "hm_get (pools (app_cluster (ctl_app s))) q = Some p" "pool_max_instances p = Some l"
  shows "active_count (app_cluster (ctl_app s)) q + idle_total (app_cluster (ctl_app s)) q \<le> unat l"
  using steady.reachable_inv [OF assms(1)] assms(2,3)
  by (simp add: limits_ok_def within_limits_def instances_def)

text \<open>
  A run that reaches a limit: an image and a pool of one instance, a node that enrols, registers and
  has the image, and the instance it is allowed to start.
\<close>

definition one_pool :: pool where
  "one_pool =
     \<lparr>pool_name = ''p'', pool_image = 7, pool_warm_instances = 1, pool_max_instances = Some 1,
      pool_cpu_millis = 500, pool_memory_mib = 256, pool_disk_mib = 0, pool_timeout_secs = 30,
      pool_idle_timeout_secs = 60, pool_reuse = True, pool_network = False, pool_ports = [],
      pool_managed_by = None, pool_environment = None, pool_environment_artifact = None,
      pool_preload = []\<rparr>"

definition one_node :: register_request where
  "one_node = \<lparr>reg_id = Some 3, reg_name = ''n'', reg_cpu_millis = 4000, reg_memory_mib = 4096,
     reg_vm_start_concurrency = None, reg_address = None, reg_reset_idle = True, reg_vms = []\<rparr>"

definition one_1 :: app where
  "one_1 = snd (import_commit demo_codec (\<lambda>_. True) 7 ''py'' None None ''src'' ''00'' 1 (ctl_app demo_start))"

definition one_2 :: app where
  "one_2 = snd (create_pool demo_codec (\<lambda>_. True) one_pool one_1)"

definition one_3 :: app where
  "one_3 = snd (local_join demo_codec (\<lambda>t. t) (\<lambda>_. True) True 3 ''s'' None one_2)"

definition one_4 :: app where
  "one_4 = snd (register_node demo_codec (\<lambda>t. t) (\<lambda>_. True) 5 (Some ''Bearer s'') one_node one_3)"

definition one_5 :: app where
  "one_5 = snd (report_image_ready demo_codec (\<lambda>t. t) (\<lambda>_. True) (Some ''Bearer s'') 3 7 one_4)"

definition one_6 :: app where
  "one_6 = snd (api_add_warm_instance demo_codec (\<lambda>t. t) (\<lambda>_. True) (Some ''Bearer s'') 3 ''p'' one_5)"

definition one_image :: image where
  "one_image = \<lparr>image_id = 7, image_name = ''py'', image_sha256 = ''00'', image_size = 1,
     image_compatible = True, image_executor = None, image_kind = MicroVmImage,
     image_docker_source = Some ''src''\<rparr>"

definition one_cluster :: "node list \<Rightarrow> cluster" where
  "one_cluster ns = empty_cluster\<lparr>images := [(7, one_image)], pools := [(''p'', one_pool)],
     node_credentials := [(3, ''s'')], nodes := map (\<lambda>n. (3, n)) ns\<rparr>"

definition one_host :: node where
  "one_host = (report_node one_node 5 (new_node 3 one_node 5))\<lparr>node_images := {7}, node_status := Ready\<rparr>"

lemma idle_queue:
  assumes "executions (app_cluster a) = []"
  shows "app_cluster (snd (schedule_and_save cd io r a)) = app_cluster a"
  using assms
  by (auto simp: schedule_and_save_def schedule_queued_def queued_order_def hm_values_def Let_def save_def
      dest!: app_save_executions_cluster split: option.splits)

lemma one_auth: "node_credentials c = [(3, ''s'')] \<Longrightarrow>
    authenticated_node (\<lambda>t. t) (Some ''Bearer s'') c = Reply OK 3"
  by (simp add: authenticated_node_def same_hash_eq strip_prefix_def)

lemma one_warm: "add_warm_instance 3 ''p'' (one_cluster [one_host])
    = (True, one_cluster [set_idle ''p'' 1 (reserve one_pool one_host)])"
  by (simp add: one_cluster_def one_host_def one_pool_def one_node_def new_node_def report_node_def
      empty_cluster_def hm_defs scheduler_defs warm_defs Let_def reserve_def set_idle_def add_warm_instance_def)

lemma one_clusters:
  "app_cluster one_1 = empty_cluster\<lparr>images := [(7, one_image)]\<rparr>"
  "app_cluster one_2 = empty_cluster\<lparr>images := [(7, one_image)], pools := [(''p'', one_pool)]\<rparr>"
  "app_cluster one_3 = one_cluster []"
  "app_cluster one_4 = one_cluster [report_node one_node 5 (new_node 3 one_node 5)]"
  "app_cluster one_5 = one_cluster [one_host]"
  "app_cluster one_6 = one_cluster [set_idle ''p'' 1 (reserve one_pool one_host)]"
proof -
  show 1: "app_cluster one_1 = empty_cluster\<lparr>images := [(7, one_image)]\<rparr>"
    by (simp add: one_1_def demo_start_def import_commit_def import_kind_def save_then_def save_def
        with_cluster_def Let_def one_image_def empty_cluster_def hm_defs)
  show 2: "app_cluster one_2 = empty_cluster\<lparr>images := [(7, one_image)], pools := [(''p'', one_pool)]\<rparr>"
    by (simp add: one_2_def create_pool_def check_pool_def 1 one_pool_def one_image_def image_ready_def
        save_then_def save_def with_cluster_def Let_def empty_cluster_def hm_defs)
  show 3: "app_cluster one_3 = one_cluster []"
    by (simp add: one_3_def local_join_def 2 one_cluster_def save_then_def save_def with_cluster_def Let_def
        empty_cluster_def hm_defs)
  have cred: "node_credentials (one_cluster ns) = [(3, ''s'')]" "executions (one_cluster ns) = []" for ns
    by (simp_all add: one_cluster_def empty_cluster_def)
  show 4: "app_cluster one_4 = one_cluster [report_node one_node 5 (new_node 3 one_node 5)]"
    by (simp add: one_4_def register_node_def as_node_def one_auth 3 cred idle_queue one_node_def Let_def
        one_cluster_def reset_idle_instances_def refresh_node_def hm_defs new_node_def report_node_def
        empty_cluster_def)
  show 5: "app_cluster one_5 = one_cluster [one_host]"
    by (simp add: one_5_def report_image_ready_def as_this_node_def as_node_def one_auth 4 cred idle_queue Let_def
        one_cluster_def refresh_node_def hm_defs new_node_def report_node_def one_host_def
        empty_cluster_def)
  show "app_cluster one_6 = one_cluster [set_idle ''p'' 1 (reserve one_pool one_host)]"
    by (simp add: one_6_def api_add_warm_instance_def as_this_node_def as_node_def one_auth 5 cred idle_queue
        one_warm)
qed

lemma steady_reach:
  assumes "reachable (controller_start cd) (steady_steps cd H) (s\<lparr>ctl_app := a\<rparr>)"
    and "handles cd H h a (outcome r)" "b = snd r" "\<not> lowers_limit (app_cluster a) (app_cluster b)"
  shows "reachable (controller_start cd) (steady_steps cd H) (s\<lparr>ctl_app := b\<rparr>)"
  using assms(1)
proof (rule reachable_step)
  have "handles cd H h (ctl_app (s\<lparr>ctl_app := a\<rparr>)) (outcome r)" using assms(2) by simp
  from handles_step [OF this] assms(3,4)
  show "steady_steps cd H (s\<lparr>ctl_app := a\<rparr>) (s\<lparr>ctl_app := b\<rparr>)" by (simp add: steady_steps_def)
qed

lemma same_limits: "pools c' = pools c \<Longrightarrow> \<not> lowers_limit c c'" "pools c = [] \<Longrightarrow> \<not> lowers_limit c c'"
  by (auto simp: lowers_limit_def hm_defs split: option.splits)

theorem pools_stay_within_limits_witness:
  "\<exists>s. reachable (controller_start demo_codec) (steady_steps demo_codec (\<lambda>t. t)) s \<and>
     hm_get (pools (app_cluster (ctl_app s))) ''p'' = Some one_pool \<and> ctl_app s = one_6 \<and>
     idle_total (app_cluster (ctl_app s)) ''p'' = 1 \<and>
     active_count (app_cluster (ctl_app s)) ''p'' + idle_total (app_cluster (ctl_app s)) ''p'' \<le> unat (1 :: u32)"
proof -
  let ?R = "reachable (controller_start demo_codec) (steady_steps demo_codec (\<lambda>t. t))"
  let ?s = "\<lambda>a. demo_start\<lparr>ctl_app := a\<rparr>"
  note pools = one_clusters one_cluster_def empty_cluster_def
  have "?R demo_start" by (rule reachable_initial) (rule demo_start)
  then have r0: "?R (?s (ctl_app demo_start))" by simp
  have zero: "app_cluster (ctl_app demo_start) = empty_cluster" by (simp add: demo_start_def)
  from r0 have r1: "?R (?s one_1)"
    by (rule steady_reach [OF _ handles.intros(1) one_1_def]) (rule same_limits(2), simp add: pools zero)
  from r1 have r2: "?R (?s one_2)"
    by (rule steady_reach [OF _ handles.intros(4) one_2_def]) (rule same_limits(2), simp add: pools zero)
  from r2 have r3: "?R (?s one_3)"
    by (rule steady_reach [OF _ handles.intros(10) one_3_def]) (rule same_limits(1), simp add: pools zero)
  from r3 have r4: "?R (?s one_4)"
    by (rule steady_reach [OF _ handles.intros(13) one_4_def]) (rule same_limits(1), simp add: pools zero)
  from r4 have r5: "?R (?s one_5)"
    by (rule steady_reach [OF _ handles.intros(14) one_5_def]) (rule same_limits(1), simp add: pools zero)
  from r5 have r6: "?R (?s one_6)"
    by (rule steady_reach [OF _ handles.intros(16) one_6_def]) (rule same_limits(1), simp add: pools zero)
  have p: "hm_get (pools (app_cluster (ctl_app (?s one_6)))) ''p'' = Some one_pool"
    by (simp add: pools hm_defs)
  have "idle_total (app_cluster (ctl_app (?s one_6))) ''p'' = 1"
    by (simp add: one_clusters one_cluster_def idle_total_def hm_values_def)
  with pools_stay_within_limits [OF r6 p, of 1] r6 p show ?thesis
    by (intro exI [of _ "?s one_6"]) (simp add: one_pool_def)
qed

end
