(* ===== verification/Node_Files.thy ===== *)
theory Node_Files
  imports Cluster_Types Text Transition_System
begin

section \<open>The files that a node fetches from the controller\<close>

text \<open>
  \<open>sync_images\<close>, \<open>sync_environments\<close> and \<open>ensure_working_dir\<close> of \<open>platform/src/node.rs\<close>: how a
  node fetches images, environments and working directories, checks their digest, remembers the
  check in a marker file beside them, tells the controller what is ready, and removes what is no
  longer wanted. A directory maps file names to contents. What a function does to the disk and the
  reports it sends are a list of operations in their order: a crash of the node, or an operation
  that fails (each error ends the function), leaves a beginning of that list done. A download writes
  another file, and counts when that file is renamed. \<open>H\<close> is the SHA-256 digest in hexadecimal;
  \<open>server\<close> is what a download of an item brings, \<open>None\<close> when it fails.
\<close>

type_synonym directory = "string \<Rightarrow> string option"

datatype file_op = WriteFile string string | RemoveFile string | ReportReady string

record node_files =
  nf_dir :: directory
  nf_reported :: "(string \<times> string option) list"

text \<open>\<open>Path::with_extension\<close> of a file name.\<close>

definition file_stem :: "string \<Rightarrow> string" where
  "file_stem name =
     (case dropWhile (\<lambda>c. c \<noteq> CHR ''.'') (rev name) of
        [] \<Rightarrow> name
      | _ # before \<Rightarrow> if before = [] then name else rev before)"

definition with_extension :: "string \<Rightarrow> string \<Rightarrow> string" where
  "with_extension name ext = file_stem name @ ''.'' @ ext"

definition marker_of :: "string \<Rightarrow> string" where
  "marker_of name = with_extension name ''sha256''"

text \<open>A report is recorded with what the node holds when it sends it.\<close>

fun apply_op :: "file_op \<Rightarrow> node_files \<Rightarrow> node_files" where
  "apply_op (WriteFile n c) s = s\<lparr>nf_dir := (nf_dir s)(n \<mapsto> c)\<rparr>"
| "apply_op (RemoveFile n) s = s\<lparr>nf_dir := (nf_dir s)(n := None)\<rparr>"
| "apply_op (ReportReady n) s = s\<lparr>nf_reported := (n, nf_dir s n) # nf_reported s\<rparr>"

definition file_ops :: "file_op list \<Rightarrow> node_files \<Rightarrow> node_files" where
  "file_ops ops s = fold apply_op ops s"

subsection \<open>Fetching one item\<close>

definition read_or_default :: "directory \<Rightarrow> string \<Rightarrow> string" where
  "read_or_default d n = (case d n of None \<Rightarrow> [] | Some c \<Rightarrow> c)"

definition hash_differs :: "(string \<Rightarrow> string) \<Rightarrow> directory \<Rightarrow> string \<Rightarrow> string \<Rightarrow> bool" where
  "hash_differs H d n sha \<longleftrightarrow> (case d n of None \<Rightarrow> True | Some c \<Rightarrow> H c \<noteq> sha)"

definition fetch :: "(string \<Rightarrow> string) \<Rightarrow> string option \<Rightarrow> string \<Rightarrow> string \<Rightarrow> directory \<Rightarrow> file_op list \<times> bool" where
  "fetch H body n sha d =
     (let verified = (read_or_default d (marker_of n) = sha) in
      if d n = None \<or> \<not> verified
      then if d n = None \<or> hash_differs H d n sha
           then case body of
               None \<Rightarrow> ([], False)
             | Some b \<Rightarrow>
                 if H b \<noteq> sha then ([WriteFile n b], False)
                 else ([WriteFile n b, WriteFile (marker_of n) sha], True)
           else ([WriteFile (marker_of n) sha], True)
      else ([], True))"

text \<open>An ext4 file system has the bytes 0x53, 0xEF at 1080.\<close>

definition is_ext4 :: "string \<Rightarrow> bool" where
  "is_ext4 c \<longleftrightarrow> take 2 (drop 1080 c) = [CHR 0x53, CHR 0xEF]"

definition sync_image ::
    "(string \<Rightarrow> string) \<Rightarrow> string option \<Rightarrow> string \<Rightarrow> string \<Rightarrow> node_files \<Rightarrow> file_op list \<times> bool" where
  "sync_image H body n sha s =
     (case fetch H body n sha (nf_dir s) of
        (ops, False) \<Rightarrow> (ops, False)
      | (ops, True) \<Rightarrow>
          if is_ext4 (read_or_default (nf_dir (file_ops ops s)) n) then (ops @ [ReportReady n], True)
          else (ops, True))"

definition sync_environment ::
    "(string \<Rightarrow> string) \<Rightarrow> string option \<Rightarrow> string \<Rightarrow> string \<Rightarrow> node_files \<Rightarrow> file_op list \<times> bool" where
  "sync_environment H body n sha s =
     (case fetch H body n sha (nf_dir s) of
        (ops, False) \<Rightarrow> (ops, False)
      | (ops, True) \<Rightarrow> (ops @ [ReportReady n], True))"

subsection \<open>The loops over the items\<close>

text \<open>The items of a controller's answer, each with its digest; the first failure ends the loop.\<close>

fun sync_items ::
    "(string \<Rightarrow> string \<Rightarrow> node_files \<Rightarrow> file_op list \<times> bool) \<Rightarrow> (string \<times> string) list \<Rightarrow> node_files \<Rightarrow>
     file_op list \<times> bool" where
  "sync_items one [] s = ([], True)"
| "sync_items one ((n, sha) # items) s =
     (case one n sha s of
        (ops, False) \<Rightarrow> (ops, False)
      | (ops, True) \<Rightarrow>
          (case sync_items one items (file_ops ops s) of (ops', ok) \<Rightarrow> (ops @ ops', ok)))"

text \<open>
  Removing what is no longer wanted, for the names that \<open>read_dir\<close> lists. That a file cannot be removed
  ends the function; that its marker cannot is ignored (\<open>.ok()\<close>), and the markers in \<open>stuck\<close> are those.
\<close>

definition image_garbage :: "(string \<Rightarrow> uuid option) \<Rightarrow> uuid set \<Rightarrow> string \<Rightarrow> bool" where
  "image_garbage parse wanted n \<longleftrightarrow> (case parse n of None \<Rightarrow> False | Some i \<Rightarrow> i \<notin> wanted)"

definition ends_with :: "string \<Rightarrow> string \<Rightarrow> bool" where
  "ends_with e s \<longleftrightarrow> length e \<le> length s \<and> drop (length s - length e) s = e"

definition environment_garbage :: "string set \<Rightarrow> string \<Rightarrow> bool" where
  "environment_garbage wanted n \<longleftrightarrow> \<not> ends_with ''.sha256'' n \<and> n \<notin> wanted"

definition removals :: "(string \<Rightarrow> bool) \<Rightarrow> (string \<Rightarrow> bool) \<Rightarrow> string list \<Rightarrow> file_op list" where
  "removals stuck garbage names =
     concat (map (\<lambda>n. RemoveFile n # (if stuck (marker_of n) then [] else [RemoveFile (marker_of n)]))
       (filter garbage names))"

definition sync_images ::
    "(string \<Rightarrow> string) \<Rightarrow> (uuid \<Rightarrow> string) \<Rightarrow> (string \<Rightarrow> uuid option) \<Rightarrow> (string \<Rightarrow> string option) \<Rightarrow>
     (string \<Rightarrow> bool) \<Rightarrow> image list \<Rightarrow> string list \<Rightarrow> node_files \<Rightarrow> file_op list \<times> bool" where
  "sync_images H show_id parse server stuck views listing s =
     (case sync_items (\<lambda>n. sync_image H (server n) n)
             (map (\<lambda>i. (show_id (image_id i), image_sha256 i)) views) s of
        (ops, False) \<Rightarrow> (ops, False)
      | (ops, True) \<Rightarrow> (ops @ removals stuck (image_garbage parse (set (map image_id views))) listing, True))"

definition environment_item :: "environment \<Rightarrow> (string \<times> string) option" where
  "environment_item e =
     (case env_artifact e of
        None \<Rightarrow> None
      | Some a \<Rightarrow> Some (a, case env_sha256 e of None \<Rightarrow> [] | Some sha \<Rightarrow> sha))"

definition sync_environments ::
    "(string \<Rightarrow> string) \<Rightarrow> (string \<Rightarrow> string option) \<Rightarrow> (string \<Rightarrow> bool) \<Rightarrow> environment list \<Rightarrow> string list \<Rightarrow>
     node_files \<Rightarrow> file_op list \<times> bool" where
  "sync_environments H server stuck views listing s =
     (case sync_items (\<lambda>n. sync_environment H (server n) n) (List.map_filter environment_item views) s of
        (ops, False) \<Rightarrow> (ops, False)
      | (ops, True) \<Rightarrow>
          (ops @ removals stuck (environment_garbage (set (List.map_filter env_artifact views))) listing, True))"

subsection \<open>Working directories\<close>

definition is_digest :: "string \<Rightarrow> bool" where
  "is_digest d \<longleftrightarrow> length d = 64 \<and>
     list_all (\<lambda>c. (48 \<le> (of_char c :: nat) \<and> of_char c \<le> (57 :: nat)) \<or>
       (97 \<le> (of_char c :: nat) \<and> of_char c \<le> (102 :: nat))) d"

text \<open>The result is the name of the file, or \<open>None\<close> for an error.\<close>

definition ensure_working_dir ::
    "(string \<Rightarrow> string) \<Rightarrow> string option \<Rightarrow> string \<Rightarrow> directory \<Rightarrow> file_op list \<times> string option" where
  "ensure_working_dir H body digest d =
     (if \<not> is_digest digest then ([], None)
      else
        let n = digest @ ''.zip'' in
        if d n \<noteq> None \<and> read_or_default d (marker_of n) = digest then ([], Some n)
        else if d n \<noteq> None \<and> \<not> hash_differs H d n digest
        then ([WriteFile (marker_of n) digest], Some n)
        else
          (case body of
             None \<Rightarrow> ([], None)
           | Some b \<Rightarrow>
               if H b \<noteq> digest then ([WriteFile n b], None)
               else ([WriteFile n b, WriteFile (marker_of n) digest], Some n)))"

text \<open>The third copy of the logic does what the first two do.\<close>

lemma ensure_working_dir_fetch:
  "is_digest digest \<Longrightarrow>
   ensure_working_dir H body digest d =
     (case fetch H body (digest @ ''.zip'') digest d of
        (ops, ok) \<Rightarrow> (ops, if ok then Some (digest @ ''.zip'') else None))"
  by (auto simp: ensure_working_dir_def fetch_def Let_def split: option.split)

subsection \<open>A state condition at every moment of a list of operations\<close>

fun always :: "(node_files \<Rightarrow> bool) \<Rightarrow> file_op list \<Rightarrow> node_files \<Rightarrow> bool" where
  "always P [] s = P s"
| "always P (op # ops) s = (P s \<and> always P ops (apply_op op s))"

lemma file_ops_simps [simp]:
  "file_ops [] s = s"
  "file_ops (op # ops) s = file_ops ops (apply_op op s)"
  "file_ops (xs @ ys) s = file_ops ys (file_ops xs s)"
  by (simp_all add: file_ops_def)

lemma always_now: "always P ops s \<Longrightarrow> P s"
  by (cases ops) simp_all

lemma always_take: "always P ops s \<Longrightarrow> P (file_ops (take k ops) s)"
  by (induction ops arbitrary: s k) (auto simp: take_Cons' dest: always_now)

lemma always_end: "always P ops s \<Longrightarrow> P (file_ops ops s)"
  using always_take [of P ops s "length ops"] by simp

lemma always_append: "always P (xs @ ys) s \<longleftrightarrow> always P xs s \<and> always P ys (file_ops xs s)"
  by (induction xs arbitrary: s) (auto dest: always_now)

subsection \<open>Markers tell the truth\<close>

text \<open>
  The items: different names have different markers, the name of a marker is no item, and the digest
  of an item is fixed and not empty.
\<close>

definition items_ok :: "(string \<Rightarrow> string) \<Rightarrow> string set \<Rightarrow> bool" where
  "items_ok sha N \<longleftrightarrow> inj_on marker_of N \<and> (\<forall>n. marker_of n \<notin> N) \<and> (\<forall>n \<in> N. sha n \<noteq> [])"

definition markers_ok :: "(string \<Rightarrow> string) \<Rightarrow> (string \<Rightarrow> string) \<Rightarrow> string set \<Rightarrow> directory \<Rightarrow> bool" where
  "markers_ok H sha N d \<longleftrightarrow>
     (\<forall>n \<in> N. d (marker_of n) = Some (sha n) \<longrightarrow> (\<exists>c. d n = Some c \<and> H c = sha n))"

definition reports_ok :: "(string \<Rightarrow> string) \<Rightarrow> (string \<Rightarrow> string) \<Rightarrow> string set \<Rightarrow>
    (string \<times> string option) list \<Rightarrow> bool" where
  "reports_ok H sha N rs \<longleftrightarrow> (\<forall>(n, c) \<in> set rs. n \<in> N \<longrightarrow> (\<exists>x. c = Some x \<and> H x = sha n))"

definition files_ok :: "(string \<Rightarrow> string) \<Rightarrow> (string \<Rightarrow> string) \<Rightarrow> string set \<Rightarrow> node_files \<Rightarrow> bool" where
  "files_ok H sha N s \<longleftrightarrow> markers_ok H sha N (nf_dir s) \<and> reports_ok H sha N (nf_reported s)"

definition has_item :: "(string \<Rightarrow> string) \<Rightarrow> string \<Rightarrow> string \<Rightarrow> directory \<Rightarrow> bool" where
  "has_item H n sha d \<longleftrightarrow> (\<exists>c. d n = Some c \<and> H c = sha)"

lemma items_okD:
  "items_ok sha N \<Longrightarrow> n \<in> N \<Longrightarrow> marker_of m \<noteq> n"
  "items_ok sha N \<Longrightarrow> n \<in> N \<Longrightarrow> sha n \<noteq> []"
  by (auto simp: items_ok_def)

lemma write_item_ok:
  assumes "items_ok sha N" "files_ok H sha N s" "n \<in> N" "nf_dir s (marker_of n) \<noteq> Some (sha n)"
  shows "files_ok H sha N (apply_op (WriteFile n b) s)"
  using assms items_okD(1) [OF assms(1,3)] by (auto simp: files_ok_def markers_ok_def items_ok_def)

lemma write_marker_ok:
  assumes "items_ok sha N" "files_ok H sha N s" "n \<in> N" "has_item H n (sha n) (nf_dir s)"
  shows "files_ok H sha N (apply_op (WriteFile (marker_of n) (sha n)) s)"
  using assms by (auto simp: files_ok_def markers_ok_def items_ok_def has_item_def inj_on_def)

lemma report_ok:
  assumes "files_ok H sha N s" "n \<in> N \<longrightarrow> has_item H n (sha n) (nf_dir s)"
  shows "files_ok H sha N (apply_op (ReportReady n) s)"
  using assms by (auto simp: files_ok_def reports_ok_def has_item_def)

text \<open>A fetch keeps the markers true at every moment, and after a success the item is there.\<close>

lemma fetch_ok:
  assumes ok: "items_ok sha N" "files_ok H sha N s" and n: "n \<in> N"
    and f: "fetch H body n (sha n) (nf_dir s) = (ops, r)"
  shows "always (files_ok H sha N) ops s \<and> (r \<longrightarrow> has_item H n (sha n) (nf_dir (file_ops ops s)))"
proof -
  let ?d = "nf_dir s"
  have "sha n \<noteq> []" "marker_of n \<noteq> n" using items_okD [OF ok(1) n] by simp_all
  show ?thesis
  proof (cases "?d n = None \<or> read_or_default ?d (marker_of n) \<noteq> sha n")
    case False
    then have "?d (marker_of n) = Some (sha n)"
      using \<open>sha n \<noteq> []\<close> by (auto simp: read_or_default_def split: option.splits)
    then have "has_item H n (sha n) ?d"
      using ok(2) n by (auto simp: files_ok_def markers_ok_def has_item_def)
    moreover have "ops = []" using f False by (auto simp: fetch_def Let_def split: if_splits)
    ultimately show ?thesis using ok(2) by simp
  next
    case True
    show ?thesis
    proof (cases "?d n = None \<or> hash_differs H ?d n (sha n)")
      case False
      then have "has_item H n (sha n) ?d" by (auto simp: hash_differs_def has_item_def split: option.splits)
      moreover have "ops = [WriteFile (marker_of n) (sha n)]"
        using f True False by (auto simp: fetch_def Let_def split: if_splits)
      ultimately show ?thesis
        using write_marker_ok [OF ok n] ok(2) \<open>marker_of n \<noteq> n\<close> by (auto simp: has_item_def)
    next
      case differs: True
      have "?d (marker_of n) \<noteq> Some (sha n)"
        using ok(2) n differs by (auto simp: files_ok_def markers_ok_def hash_differs_def)
      note written = write_item_ok [OF ok n this]
      show ?thesis
      proof (cases body)
        case None
        then show ?thesis using f True differs ok(2) by (auto simp: fetch_def Let_def split: if_splits)
      next
        case (Some b)
        let ?s = "apply_op (WriteFile n b) s"
        have "has_item H n (sha n) (nf_dir ?s)" if "H b = sha n" using that by (simp add: has_item_def)
        moreover note write_marker_ok [OF ok(1) written [of b] n]
        ultimately show ?thesis
          using f True differs Some ok(2) written [of b] \<open>marker_of n \<noteq> n\<close>
          by (auto simp: fetch_def Let_def has_item_def split: if_splits)
      qed
    qed
  qed
qed

text \<open>The fetch of another item, of which nothing is known, leaves them true as well.\<close>

lemma items_ok_subset: "items_ok sha N \<Longrightarrow> M \<subseteq> N \<Longrightarrow> items_ok sha M"
  unfolding items_ok_def by (meson inj_on_subset subset_eq)

lemma write_other_ok:
  assumes "items_ok sha N" "M \<subseteq> N" "n \<in> N" "n \<notin> M" "files_ok H sha M s"
  shows "files_ok H sha M (apply_op (WriteFile n c) s)" "files_ok H sha M (apply_op (WriteFile (marker_of n) c) s)"
proof -
  have other: "marker_of m \<noteq> n" "marker_of m \<noteq> marker_of n" "marker_of n \<noteq> m" "m \<noteq> n" if "m \<in> M" for m
    using assms that by (auto simp: items_ok_def inj_on_def)
  show "files_ok H sha M (apply_op (WriteFile n c) s)"
    using assms(5) other(1,4) by (simp add: files_ok_def markers_ok_def)
  show "files_ok H sha M (apply_op (WriteFile (marker_of n) c) s)"
    using assms(5) other(2,3) by (auto simp: files_ok_def markers_ok_def)
qed

lemma fetch_other_ok:
  assumes "items_ok sha N" "M \<subseteq> N" "n \<in> N" "n \<notin> M" "files_ok H sha M s"
  shows "always (files_ok H sha M) (fst (fetch H body n x (nf_dir s))) s"
  using write_other_ok(1) [OF assms] write_other_ok(2) [OF assms(1-4)] assms(5)
  by (auto simp: fetch_def Let_def split: option.splits simp del: apply_op.simps)

text \<open>The same of one item with its report.\<close>

definition one_ok ::
    "(string \<Rightarrow> string) \<Rightarrow> (string \<Rightarrow> string) \<Rightarrow> string set \<Rightarrow> string set \<Rightarrow>
     (string \<Rightarrow> string \<Rightarrow> node_files \<Rightarrow> file_op list \<times> bool) \<Rightarrow> bool" where
  "one_ok H sha M N one \<longleftrightarrow>
     (\<forall>n s. n \<in> N \<longrightarrow> files_ok H sha M s \<longrightarrow> always (files_ok H sha M) (fst (one n (sha n) s)) s)"

lemma fetch_any_ok:
  assumes "items_ok sha N" "M \<subseteq> N" "n \<in> N" "files_ok H sha M s"
    and "fetch H body n (sha n) (nf_dir s) = (ops, r)"
  shows "always (files_ok H sha M) ops s \<and>
    (r \<longrightarrow> always (files_ok H sha M) (ops @ [ReportReady n]) s)"
proof -
  have ops: "always (files_ok H sha M) ops s \<and> (r \<longrightarrow> n \<in> M \<longrightarrow> has_item H n (sha n) (nf_dir (file_ops ops s)))"
  proof (cases "n \<in> M")
    case True
    with fetch_ok [OF items_ok_subset [OF assms(1,2)] assms(4) True assms(5)] show ?thesis by simp
  next
    case False
    from fetch_other_ok [OF assms(1-3) False assms(4), of body "sha n"] False assms(5) show ?thesis by simp
  qed
  moreover from this have "files_ok H sha M (file_ops ops s)" using always_end by blast
  ultimately show ?thesis
    using report_ok [of H sha M "file_ops ops s" n] by (simp add: always_append del: apply_op.simps)
qed

lemma sync_image_ok: "items_ok sha N \<Longrightarrow> M \<subseteq> N \<Longrightarrow> one_ok H sha M N (\<lambda>n. sync_image H (server n) n)"
proof (unfold one_ok_def, intro allI impI)
  fix n s
  assume ok: "items_ok sha N" "M \<subseteq> N" "files_ok H sha M s" "n \<in> N"
  obtain ops r where f: "fetch H (server n) n (sha n) (nf_dir s) = (ops, r)" by fastforce
  from fetch_any_ok [OF ok(1,2,4,3) f] f
  show "always (files_ok H sha M) (fst (sync_image H (server n) n (sha n) s)) s"
    by (cases r) (simp_all add: sync_image_def)
qed

lemma sync_environment_ok:
  "items_ok sha N \<Longrightarrow> M \<subseteq> N \<Longrightarrow> one_ok H sha M N (\<lambda>n. sync_environment H (server n) n)"
proof (unfold one_ok_def, intro allI impI)
  fix n s
  assume ok: "items_ok sha N" "M \<subseteq> N" "files_ok H sha M s" "n \<in> N"
  obtain ops r where f: "fetch H (server n) n (sha n) (nf_dir s) = (ops, r)" by fastforce
  from fetch_any_ok [OF ok(1,2,4,3) f] f
  show "always (files_ok H sha M) (fst (sync_environment H (server n) n (sha n) s)) s"
    by (cases r) (simp_all add: sync_environment_def)
qed

lemma sync_items_ok:
  assumes "one_ok H sha M N one" "files_ok H sha M s" "\<forall>(n, x) \<in> set views. n \<in> N \<and> x = sha n"
  shows "always (files_ok H sha M) (fst (sync_items one views s)) s"
  using assms(2,3)
proof (induction views arbitrary: s)
  case (Cons v views)
  obtain n where v: "v = (n, sha n)" "n \<in> N" using Cons.prems(2) by auto
  obtain ops r where o: "one n (sha n) s = (ops, r)" by fastforce
  have ops: "always (files_ok H sha M) ops s"
    using assms(1) Cons.prems(1) v o unfolding one_ok_def by (metis fst_conv)
  then have "always (files_ok H sha M) (fst (sync_items one views (file_ops ops s))) (file_ops ops s)"
    using Cons.IH Cons.prems(2) always_end by force
  with ops o v show ?case by (cases r) (auto simp: always_append split: prod.splits)
qed simp

lemma removals_ok:
  assumes "items_ok sha N" "files_ok H sha N s"
  shows "files_ok H sha N (file_ops (removals (\<lambda>_. False) garbage names) s)"
  using assms(2)
proof (induction names arbitrary: s)
  case (Cons n names)
  have "files_ok H sha N (file_ops [RemoveFile n, RemoveFile (marker_of n)] s)"
    using Cons.prems assms(1) by (auto simp: files_ok_def markers_ok_def items_ok_def inj_on_def)
  with Cons show ?case by (simp add: removals_def)
qed (simp add: removals_def)

end
