(* ===== verification/Node_Files_Properties.thy ===== *)
theory Node_Files_Properties
  imports Node_Files
begin

section \<open>What a node reports is verified\<close>

text \<open>
  The steps of a node on its files: a synchronisation of the images or of the environments, complete
  or broken off at any point of the fetching (by a failed operation or a crash of the node), a
  working directory fetched for an execution, also broken off anywhere, and removals of complete
  pairs of a file and its marker.
\<close>

definition views_ok :: "(string \<Rightarrow> string) \<Rightarrow> string set \<Rightarrow> (string \<times> string) list \<Rightarrow> bool" where
  "views_ok sha N views \<longleftrightarrow> (\<forall>(n, x) \<in> set views. n \<in> N \<and> x = sha n)"

inductive fetch_step ::
    "(string \<Rightarrow> string) \<Rightarrow> (string \<Rightarrow> string) \<Rightarrow> string set \<Rightarrow> node_files \<Rightarrow> node_files \<Rightarrow> bool"
  for H :: "string \<Rightarrow> string" and sha :: "string \<Rightarrow> string" and N :: "string set" where
  images: "views_ok sha N (map (\<lambda>i. (show_id (image_id i), image_sha256 i)) views) \<Longrightarrow>
    fetch_step H sha N s (file_ops (fst (sync_images H show_id parse server (\<lambda>_. False) views listing s)) s)"
| images_cut: "views_ok sha N views \<Longrightarrow>
    fetch_step H sha N s
      (file_ops (take k (fst (sync_items (\<lambda>n. sync_image H (server n) n) views s))) s)"
| environments: "views_ok sha N (List.map_filter environment_item views) \<Longrightarrow>
    fetch_step H sha N s (file_ops (fst (sync_environments H server (\<lambda>_. False) views listing s)) s)"
| environments_cut: "views_ok sha N views \<Longrightarrow>
    fetch_step H sha N s
      (file_ops (take k (fst (sync_items (\<lambda>n. sync_environment H (server n) n) views s))) s)"
| working_dir: "views_ok sha N [(digest @ ''.zip'', digest)] \<Longrightarrow>
    fetch_step H sha N s (file_ops (take k (fst (ensure_working_dir H body digest (nf_dir s)))) s)"
| removed: "fetch_step H sha N s (file_ops (removals (\<lambda>_. False) garbage names) s)"

definition no_files :: "node_files \<Rightarrow> bool" where
  "no_files s \<longleftrightarrow> s = \<lparr>nf_dir = (\<lambda>_. None), nf_reported = []\<rparr>"

lemma sync_cut_ok:
  assumes "items_ok sha M" "files_ok H sha M s" "views_ok sha N views" "one_ok H sha M N one"
  shows "files_ok H sha M (file_ops (take k (fst (sync_items one views s))) s)"
  by (rule always_take [OF sync_items_ok]) (use assms in \<open>simp_all add: views_ok_def\<close>)

lemma sync_done_ok:
  assumes "items_ok sha M" "files_ok H sha M s" "views_ok sha N views" "one_ok H sha M N one"
    and "sync_items one views s = (ops, ok)"
  shows "files_ok H sha M (file_ops ops s)" "files_ok H sha M (file_ops (removals (\<lambda>_. False) g names) (file_ops ops s))"
  using sync_cut_ok [OF assms(1-4), of "length ops"] removals_ok [OF assms(1)] assms(5) by simp_all

lemma working_dir_ok:
  assumes "items_ok sha N" "files_ok H sha N s" "views_ok sha N [(digest @ ''.zip'', digest)]"
  shows "files_ok H sha N (file_ops (take k (fst (ensure_working_dir H body digest (nf_dir s)))) s)"
proof (cases "is_digest digest")
  case True
  let ?n = "digest @ ''.zip''"
  have n: "?n \<in> N" "sha ?n = digest" using assms(3) by (simp_all add: views_ok_def)
  obtain ops r where f: "fetch H body ?n digest (nf_dir s) = (ops, r)" by fastforce
  then have "always (files_ok H sha N) ops s"
    using fetch_ok [OF assms(1,2) n(1)] n(2) by metis
  moreover have "fst (ensure_working_dir H body digest (nf_dir s)) = ops"
    using True f by (simp add: ensure_working_dir_fetch)
  ultimately show ?thesis using always_take by simp
qed (simp add: ensure_working_dir_def assms(2))

lemma fetch_step_ok:
  assumes "items_ok sha N" "files_ok H sha N s" "fetch_step H sha N s t"
  shows "files_ok H sha N t"
  using assms(3)
proof (cases rule: fetch_step.cases)
  case (images show_id views parse server listing)
  obtain ops ok where o: "sync_items (\<lambda>n. sync_image H (server n) n)
      (map (\<lambda>i. (show_id (image_id i), image_sha256 i)) views) s = (ops, ok)" by fastforce
  note finished = sync_done_ok [OF assms(1,2) images(2) sync_image_ok [OF assms(1) subset_refl] o]
  show ?thesis unfolding images(1) sync_images_def o by (cases ok) (simp_all add: finished)
next
  case (environments views server listing)
  obtain ops ok where o: "sync_items (\<lambda>n. sync_environment H (server n) n)
      (List.map_filter environment_item views) s = (ops, ok)" by fastforce
  note finished = sync_done_ok [OF assms(1,2) environments(2) sync_environment_ok [OF assms(1) subset_refl] o]
  show ?thesis unfolding environments(1) sync_environments_def o by (cases ok) (simp_all add: finished)
next
  case working_dir
  then show ?thesis by (simp add: working_dir_ok [OF assms(1,2)])
next
  case removed
  then show ?thesis by (simp add: removals_ok [OF assms(1,2)])
qed (use assms sync_cut_ok sync_image_ok [OF assms(1) subset_refl] sync_environment_ok [OF assms(1) subset_refl] in blast)+

lemma fetch_reachable_ok:
  assumes "items_ok sha N" "reachable no_files (fetch_step H sha N) s"
  shows "files_ok H sha N s"
  using assms(2)
proof (induction rule: reachable.induct)
  case (reachable_initial s)
  then show ?case by (simp add: no_files_def files_ok_def markers_ok_def reports_ok_def)
qed (rule fetch_step_ok [OF assms(1)])

text \<open>Whatever the downloads bring, and wherever the fetching is broken off, a node reports
  an item ready only while it holds a file for it with the right digest, and a marker with that
  digest stands beside such a file only.\<close>

theorem reports_are_verified:
  assumes "items_ok sha N" "reachable no_files (fetch_step H sha N) s"
  shows "(\<forall>n c. (n, c) \<in> set (nf_reported s) \<longrightarrow> n \<in> N \<longrightarrow> (\<exists>x. c = Some x \<and> H x = sha n)) \<and>
    (\<forall>n \<in> N. nf_dir s (marker_of n) = Some (sha n) \<longrightarrow> (\<exists>c. nf_dir s n = Some c \<and> H c = sha n))"
  using fetch_reachable_ok [OF assms] by (auto simp: files_ok_def markers_ok_def reports_ok_def)

definition demo_sha :: "string \<Rightarrow> string" where
  "demo_sha n = ''good''"

lemma demo_items: "items_ok demo_sha {''a''}"
  by (auto simp: items_ok_def demo_sha_def marker_of_def with_extension_def)

lemma demo_marker: "marker_of ''a'' = ''a.sha256''"
  by (simp add: marker_of_def with_extension_def file_stem_def)

theorem reports_are_verified_witness:
  "(''a'', Some ''good'') \<in> set (nf_reported (file_ops (fst (sync_environment (\<lambda>x. x) (Some ''good'') ''a'' ''good''
      \<lparr>nf_dir = (\<lambda>_. None), nf_reported = []\<rparr>)) \<lparr>nf_dir = (\<lambda>_. None), nf_reported = []\<rparr>)) \<and>
    (\<exists>x. Some ''good'' = Some x \<and> x = demo_sha ''a'')"
proof -
  let ?s = "\<lparr>nf_dir = (\<lambda>_. None), nf_reported = []\<rparr>"
  let ?t = "file_ops (take 3 (fst (sync_items (\<lambda>n. sync_environment (\<lambda>x. x) (Some ''good'') n)
      [(''a'', ''good'')] ?s))) ?s"
  have "reachable no_files (fetch_step (\<lambda>x. x) demo_sha {''a''}) ?s"
    by (rule reachable_initial) (simp add: no_files_def)
  then have "reachable no_files (fetch_step (\<lambda>x. x) demo_sha {''a''}) ?t"
    by (rule reachable_step, intro fetch_step.environments_cut) (simp add: views_ok_def demo_sha_def)
  from reports_are_verified [OF demo_items this]
  show ?thesis
    by (simp add: sync_environment_def fetch_def read_or_default_def Let_def demo_marker)
qed

subsection \<open>A marker that outlives its file\<close>

text \<open>
  When the node stops between the removal of a file and that of its marker, or the second fails
  (which the code ignores), the marker stays. If the item is wanted again and its download is
  corrupt, the node fails once; the next synchronisation trusts the marker and reports the corrupt
  file ready.
\<close>

lemma stale_marker_is_trusted:
  fixes d :: directory
  defines "d \<equiv> (\<lambda>_. None)(''a'' \<mapsto> ''good'', ''a.sha256'' \<mapsto> ''good'')"
  defines "s1 \<equiv> file_ops (take 1 (removals (\<lambda>_. False) (environment_garbage {}) [''a''])) \<lparr>nf_dir = d, nf_reported = []\<rparr>"
  defines "s2 \<equiv> file_ops (fst (sync_environment (\<lambda>x. x) (Some ''bad'') ''a'' ''good'' s1)) s1"
  defines "s3 \<equiv> file_ops (fst (sync_environment (\<lambda>x. x) None ''a'' ''good'' s2)) s2"
  shows "(''a'', Some ''bad'') \<in> set (nf_reported s3)"
  by (simp add: d_def s1_def s2_def s3_def removals_def environment_garbage_def ends_with_def
      sync_environment_def fetch_def read_or_default_def hash_differs_def demo_marker Let_def)

end
