(* ===== verification/Api_Downloads.thy ===== *)
theory Api_Downloads
  imports Api_Requests Node_Files_Properties
begin

section \<open>What the controller serves to its nodes\<close>

text \<open>
  \<open>download_image\<close>, \<open>download_working_dir_for_node\<close> and \<open>download_environment\<close> of
  \<open>platform/src/api.rs\<close>. The body of an answer is the content of the file, which the code streams.
  The directories of images and of artifacts are a parameter \<open>stored\<close>, with \<open>None\<close> for a file that
  cannot be opened; that of working directories is part of the state, and \<open>io\<close> says that opening
  fails only when the file is missing. Then a working directory is followed from its upload to
  the node.
\<close>

definition download_image ::
    "(string \<Rightarrow> string) \<Rightarrow> (uuid \<Rightarrow> string option) \<Rightarrow> string option \<Rightarrow> uuid \<Rightarrow> app \<Rightarrow> string response \<times> app" where
  "download_image H stored auth i =
     as_node H auth (\<lambda>_ a.
       if hm_get (images (app_cluster a)) i = None then (Fail NOT_FOUND ''image not found'', a)
       else (case stored i of None \<Rightarrow> (internal_error, a) | Some body \<Rightarrow> (Reply OK body, a)))"

definition download_working_dir_for_node ::
    "(string \<Rightarrow> string) \<Rightarrow> bool \<Rightarrow> string option \<Rightarrow> string \<Rightarrow> app \<Rightarrow> string response \<times> app" where
  "download_working_dir_for_node H io auth digest =
     as_node H auth (\<lambda>_ a.
       case working_dir_path digest of
         Fail s m \<Rightarrow> (Fail s m, a) | Panic \<Rightarrow> (Panic, a)
       | Reply _ p \<Rightarrow>
           if \<not> io then (internal_error, a)
           else (case hm_get (app_working_dirs a) p of
               None \<Rightarrow> (Fail NOT_FOUND ''working directory not found'', a)
             | Some body \<Rightarrow> (Reply OK body, a)))"

definition download_environment ::
    "(string \<Rightarrow> string) \<Rightarrow> (string \<Rightarrow> string option) \<Rightarrow> string option \<Rightarrow> uuid \<Rightarrow> app \<Rightarrow> string response \<times> app" where
  "download_environment H stored auth i =
     as_node H auth (\<lambda>_ a.
       case Option.bind (hm_get (environments (app_cluster a)) i) env_artifact of
         None \<Rightarrow> (Fail NOT_FOUND ''environment artifact not found'', a)
       | Some artifact \<Rightarrow>
           (case stored artifact of None \<Rightarrow> (internal_error, a) | Some body \<Rightarrow> (Reply OK body, a)))"

text \<open>Nothing is served without the credential of a node, and serving changes nothing.\<close>

lemma as_node_reads:
  assumes "\<And>nid a. snd (h nid a) = a"
  shows "snd (as_node H auth h a) = a"
  using assms by (simp add: as_node_def split: response.split)

lemma downloads_only_read:
  "snd (download_image H stored auth i a) = a"
  "snd (download_working_dir_for_node H io auth digest a) = a"
  "snd (download_environment H stored' auth i a) = a"
  unfolding download_image_def download_working_dir_for_node_def download_environment_def
  by (rule as_node_reads; simp split: option.split response.split)+

lemma as_node_authenticated:
  assumes "fst (as_node H auth h a) = Reply st v"
  shows "\<exists>st' nid. authenticated_node H auth (app_cluster a) = Reply st' nid"
  using assms by (auto simp: as_node_def split: response.splits)

lemma downloads_need_credential:
  "fst (download_image H stored auth i a) = Reply st v \<Longrightarrow>
     \<exists>st' nid. authenticated_node H auth (app_cluster a) = Reply st' nid"
  "fst (download_working_dir_for_node H io auth digest a) = Reply st v \<Longrightarrow>
     \<exists>st' nid. authenticated_node H auth (app_cluster a) = Reply st' nid"
  "fst (download_environment H stored' auth i a) = Reply st v \<Longrightarrow>
     \<exists>st' nid. authenticated_node H auth (app_cluster a) = Reply st' nid"
  unfolding download_image_def download_working_dir_for_node_def download_environment_def
  by (erule as_node_authenticated)+

text \<open>
  An artifact is requested by its environment: when the environment is updated between the listing and
  the download, a node gets another artifact under the name of the old one, and refuses it for its
  digest.
\<close>

lemma download_environment_current:
  assumes "authenticated_node H auth (app_cluster a) = Reply st nid"
    and "hm_get (environments (app_cluster a)) i = Some e" "env_artifact e = Some artifact" "stored artifact = Some body"
  shows "fst (download_environment H stored auth i a) = Reply OK body"
  using assms by (simp add: download_environment_def as_node_def)

text \<open>What a node makes of an answer: the body, or an error of the request.\<close>

definition served :: "string response \<times> app \<Rightarrow> string option" where
  "served r = (case fst r of Reply _ body \<Rightarrow> Some body | _ \<Rightarrow> None)"

text \<open>Both sides check the form of a digest in the same way.\<close>

lemma is_digest_path: "is_digest digest \<longleftrightarrow> working_dir_path digest = Reply OK (digest @ ''.zip'')"
  by (auto simp: is_digest_def working_dir_path_def lower_hex_def Let_def list_all_iff)

text \<open>C21: a working directory that was uploaded in any run of the controller reaches every node: a node
  with a credential is served the content, which has the digest that it asks for, so that its check
  succeeds whatever an earlier attempt has left on its disk, and it ends with a file of that digest.\<close>

theorem working_directories_arrive:
  assumes "reachable (controller_start cd) (controller_steps cd H) s"
    and "authenticated_node H auth (app_cluster (ctl_app s)) = Reply st nid"
    and "is_digest digest" "hm_get (app_working_dirs (ctl_app s)) (digest @ ''.zip'') = Some body"
    and "items_ok sha N" "reachable no_files (fetch_step H sha N) n"
    and "digest @ ''.zip'' \<in> N" "sha (digest @ ''.zip'') = digest"
    and "ensure_working_dir H (served (download_working_dir_for_node H True auth digest (ctl_app s))) digest (nf_dir n)
      = (ops, result)"
  shows "H body = digest \<and> result = Some (digest @ ''.zip'') \<and>
    (\<exists>x. nf_dir (file_ops ops n) (digest @ ''.zip'') = Some x \<and> H x = digest)"
proof -
  have path: "working_dir_path digest = Reply OK (digest @ ''.zip'')" using assms(3) is_digest_path by simp
  have hash: "H body = digest"
    using store.reachable_inv [OF assms(1)] assms(4) by (auto simp: dirs_ok_def)
  have "served (download_working_dir_for_node H True auth digest (ctl_app s)) = Some body"
    by (simp add: served_def download_working_dir_for_node_def as_node_def assms(2,4) path)
  with assms(9) have e: "ensure_working_dir H (Some body) digest (nf_dir n) = (ops, result)" by simp
  obtain ok where f: "fetch H (Some body) (digest @ ''.zip'') (sha (digest @ ''.zip'')) (nf_dir n) = (ops, ok)"
      "result = (if ok then Some (digest @ ''.zip'') else None)"
    using e ensure_working_dir_fetch [OF assms(3), of H "Some body" "nf_dir n"] assms(8) by (auto split: prod.splits)
  have ok: ok using f(1) hash assms(8) by (auto simp: fetch_def Let_def split: if_splits)
  have "files_ok H sha N n" using fetch_reachable_ok [OF assms(5,6)] .
  from fetch_ok [OF assms(5) this assms(7) f(1)] ok f(2) hash assms(8) show ?thesis
    by (auto simp: has_item_def)
qed

definition arrived_node :: node_files where
  "arrived_node = \<lparr>nf_dir = (\<lambda>_. None), nf_reported = []\<rparr>"

lemma digest_items: "items_ok (\<lambda>_. digest_a) {digest_a @ ''.zip''}"
proof -
  have "marker_of n \<noteq> digest_a @ ''.zip''" for n
  proof
    assume "marker_of n = digest_a @ ''.zip''"
    then have "rev (marker_of n) = rev (digest_a @ ''.zip'')" by simp
    then show False by (simp add: marker_of_def with_extension_def)
  qed
  then show ?thesis by (simp add: items_ok_def digest_a_def)
qed

theorem working_directories_arrive_witness:
  "\<exists>s ops. reachable (controller_start demo_codec) (controller_steps demo_codec (\<lambda>_. digest_a)) s \<and>
     ensure_working_dir (\<lambda>_. digest_a)
       (served (download_working_dir_for_node (\<lambda>_. digest_a) True (Some ''Bearer s'') digest_a (ctl_app s)))
       digest_a (nf_dir arrived_node) = (ops, Some (digest_a @ ''.zip'')) \<and>
     nf_dir (file_ops ops arrived_node) (digest_a @ ''.zip'') \<noteq> None"
proof -
  let ?H = "\<lambda>_ :: string. digest_a"
  let ?R = "reachable (controller_start demo_codec) (controller_steps demo_codec ?H)"
  let ?j = "demo_start\<lparr>ctl_app := snd (local_join demo_codec ?H (\<lambda>_. True) True 3 ''s'' None (ctl_app demo_start))\<rparr>"
  let ?t = "?j\<lparr>ctl_app := snd (upload_working_dir ?H True digest_a ''zip'' (ctl_app ?j))\<rparr>"
  have "?R demo_start" by (rule reachable_initial) (rule demo_start)
  then have "?R ?j"
    by (rule reachable_step) (rule handles_step [where h = LocalJoinNode], simp add: handles.intros(10))
  then have R: "?R ?t"
    by (rule reachable_step) (rule handles_step [where h = UploadWorkingDir], simp add: handles.intros(22))
  have state: "node_credentials (app_cluster (ctl_app ?t)) = [(3, digest_a)]"
    "hm_get (app_working_dirs (ctl_app ?t)) (digest_a @ ''.zip'') = Some ''zip''"
    by (simp_all add: upload_working_dir_def digest_a_path demo_start_def local_join_def Let_def
        empty_cluster_def save_then_def save_def hm_defs)
  have auth: "authenticated_node ?H (Some ''Bearer s'') (app_cluster (ctl_app ?t)) = Reply OK 3"
    unfolding authenticated_node_def state(1) by (simp add: same_hash_eq strip_prefix_def)
  have dig: "is_digest digest_a" by (simp add: is_digest_path digest_a_path)
  obtain ops result where e: "ensure_working_dir ?H (served (download_working_dir_for_node ?H True (Some ''Bearer s'')
      digest_a (ctl_app ?t))) digest_a (nf_dir arrived_node) = (ops, result)" by fastforce
  have "reachable no_files (fetch_step ?H (\<lambda>_. digest_a) {digest_a @ ''.zip''}) arrived_node"
    by (rule reachable_initial) (simp add: no_files_def arrived_node_def)
  from working_directories_arrive [OF R auth dig state(2) digest_items this _ _ e] R e show ?thesis by auto
qed

end
