(* ===== verification/Api_Routes.thy ===== *)
theory Api_Routes
  imports Api_Downloads
begin

section \<open>The routes of the controller\<close>

text \<open>
  The table of routes that \<open>serve\<close> of \<open>platform/src/api.rs\<close> builds. How axum searches it is a parameter,
  with its documented behaviour as the law \<open>follows_routes\<close>: a path is cut at its slashes, a parameter
  stands for one part that is not empty, a path that matches no route is not found, one whose route has
  another method is not allowed, and HEAD is served by GET. Then the requests under \<open>/internal\<close> and the
  two downloads of artifacts, from the path, the credential and the body to the handler. \<open>decode\<close> is the
  percent decoding of parameters.
\<close>

datatype http_method = GET | HEAD | POST | PUT | PATCH | DELETE

datatype endpoint =
    GetHealth | GetImages | PostImport | PatchImage | DelImage | GetImageArtifact
  | HeadWorkingDir | PutWorkingDir | GetWorkingDir | GetPools | PostPool | DelPool
  | GetEnvironments | PostEnvironment | PutEnvironment | DelEnvironment | PostRestart
  | GetEnvironmentArtifact | GetNodes | PutNode | DelNode | GetStorage | PutStorage
  | PostJoinToken | GetJoinToken | GetVms | GetExecutions | PostExecution | GetExecution | GetWait
  | GetPayload | GetResult | GetLogs | PostRegister | GetIdentity | PostJoin | PostLocalJoin
  | PostImageReady | PostEnvironmentReady | GetIdle | PostIdle | DelIdle | GetWork | PostComplete

datatype segment = Lit string | Var

definition routes :: "(segment list \<times> (http_method \<times> endpoint) list) list" where
  "routes =
     [([Lit ''health''], [(GET, GetHealth)]),
      ([Lit ''v1'', Lit ''images''], [(GET, GetImages)]),
      ([Lit ''v1'', Lit ''images'', Lit ''import''], [(POST, PostImport)]),
      ([Lit ''v1'', Lit ''images'', Var], [(PATCH, PatchImage), (DELETE, DelImage)]),
      ([Lit ''v1'', Lit ''images'', Var, Lit ''artifact''], [(GET, GetImageArtifact)]),
      ([Lit ''v1'', Lit ''working-dirs'', Var], [(HEAD, HeadWorkingDir), (PUT, PutWorkingDir)]),
      ([Lit ''internal'', Lit ''working-dirs'', Var], [(GET, GetWorkingDir)]),
      ([Lit ''v1'', Lit ''pools''], [(GET, GetPools), (POST, PostPool)]),
      ([Lit ''v1'', Lit ''pools'', Var], [(DELETE, DelPool)]),
      ([Lit ''v1'', Lit ''environments''], [(GET, GetEnvironments), (POST, PostEnvironment)]),
      ([Lit ''v1'', Lit ''environments'', Var], [(PUT, PutEnvironment), (DELETE, DelEnvironment)]),
      ([Lit ''v1'', Lit ''environments'', Var, Lit ''restart''], [(POST, PostRestart)]),
      ([Lit ''v1'', Lit ''environments'', Var, Lit ''artifact''], [(GET, GetEnvironmentArtifact)]),
      ([Lit ''v1'', Lit ''nodes''], [(GET, GetNodes)]),
      ([Lit ''v1'', Lit ''nodes'', Var], [(PUT, PutNode), (DELETE, DelNode)]),
      ([Lit ''v1'', Lit ''settings'', Lit ''storage''], [(GET, GetStorage), (PUT, PutStorage)]),
      ([Lit ''v1'', Lit ''join-tokens''], [(POST, PostJoinToken)]),
      ([Lit ''v1'', Lit ''join-tokens'', Var], [(GET, GetJoinToken)]),
      ([Lit ''v1'', Lit ''vms''], [(GET, GetVms)]),
      ([Lit ''v1'', Lit ''executions''], [(GET, GetExecutions), (POST, PostExecution)]),
      ([Lit ''v1'', Lit ''executions'', Var], [(GET, GetExecution)]),
      ([Lit ''v1'', Lit ''executions'', Var, Lit ''wait''], [(GET, GetWait)]),
      ([Lit ''v1'', Lit ''executions'', Var, Lit ''payload''], [(GET, GetPayload)]),
      ([Lit ''v1'', Lit ''executions'', Var, Lit ''result''], [(GET, GetResult)]),
      ([Lit ''v1'', Lit ''executions'', Var, Lit ''logs''], [(GET, GetLogs)]),
      ([Lit ''internal'', Lit ''nodes'', Lit ''register''], [(POST, PostRegister)]),
      ([Lit ''internal'', Lit ''identity''], [(GET, GetIdentity)]),
      ([Lit ''internal'', Lit ''join''], [(POST, PostJoin)]),
      ([Lit ''internal'', Lit ''local-join''], [(POST, PostLocalJoin)]),
      ([Lit ''internal'', Lit ''nodes'', Var, Lit ''images'', Var, Lit ''ready''], [(POST, PostImageReady)]),
      ([Lit ''internal'', Lit ''nodes'', Var, Lit ''environments'', Var, Lit ''ready''],
        [(POST, PostEnvironmentReady)]),
      ([Lit ''internal'', Lit ''nodes'', Var, Lit ''pools'', Var, Lit ''idle''],
        [(GET, GetIdle), (POST, PostIdle), (DELETE, DelIdle)]),
      ([Lit ''internal'', Lit ''nodes'', Var, Lit ''work''], [(GET, GetWork)]),
      ([Lit ''internal'', Lit ''executions'', Var, Lit ''complete''], [(POST, PostComplete)])]"

fun match_segments :: "segment list \<Rightarrow> string list \<Rightarrow> string list option" where
  "match_segments [] [] = Some []"
| "match_segments (Lit l # ss) (p # ps) = (if p = l then match_segments ss ps else None)"
| "match_segments (Var # ss) (p # ps) =
     (if p = [] then None else map_option (\<lambda>vs. p # vs) (match_segments ss ps))"
| "match_segments _ _ = None"

datatype routed = NotFound | NotAllowed | Matched endpoint "string list"

definition method_endpoint :: "http_method \<Rightarrow> (http_method \<times> endpoint) list \<Rightarrow> endpoint option" where
  "method_endpoint m es =
     (case map_of es m of
        Some e \<Rightarrow> Some e
      | None \<Rightarrow> if m = HEAD then map_of es GET else None)"

definition match_path :: "segment list \<Rightarrow> string \<Rightarrow> string list option" where
  "match_path ss path =
     (case path of
        [] \<Rightarrow> None
      | c # rest \<Rightarrow> if c = CHR ''/'' then match_segments ss (split_slashes rest) else None)"

definition follows_routes :: "(http_method \<Rightarrow> string \<Rightarrow> routed) \<Rightarrow> bool" where
  "follows_routes rt \<longleftrightarrow> (\<forall>m path.
     case rt m path of
       NotFound \<Rightarrow> \<forall>(ss, es) \<in> set routes. match_path ss path = None
     | NotAllowed \<Rightarrow> \<exists>(ss, es) \<in> set routes. match_path ss path \<noteq> None \<and> method_endpoint m es = None
     | Matched e vs \<Rightarrow>
         \<exists>(ss, es) \<in> set routes. match_path ss path = Some vs \<and> method_endpoint m es = Some e)"

text \<open>A router that tries the routes in turn follows them.\<close>

fun find_route :: "(segment list \<times> (http_method \<times> endpoint) list) list \<Rightarrow> http_method \<Rightarrow> string \<Rightarrow> routed" where
  "find_route [] m path = NotFound"
| "find_route ((ss, es) # rs) m path =
     (case match_path ss path of
        None \<Rightarrow> find_route rs m path
      | Some vs \<Rightarrow> (case method_endpoint m es of None \<Rightarrow> NotAllowed | Some e \<Rightarrow> Matched e vs))"

definition first_route :: "http_method \<Rightarrow> string \<Rightarrow> routed" where
  "first_route = find_route routes"

lemma find_route_cases:
  "case find_route rs m path of
     NotFound \<Rightarrow> \<forall>(ss, es) \<in> set rs. match_path ss path = None
   | NotAllowed \<Rightarrow> \<exists>(ss, es) \<in> set rs. match_path ss path \<noteq> None \<and> method_endpoint m es = None
   | Matched e vs \<Rightarrow>
       \<exists>(ss, es) \<in> set rs. match_path ss path = Some vs \<and> method_endpoint m es = Some e"
proof (induction rs m path rule: find_route.induct)
  case (2 ss es rs m path)
  show ?case
  proof (cases "match_path ss path")
    case None
    with 2 [OF None] show ?thesis by (cases "find_route rs m path") simp_all
  qed (simp split: routed.split option.split)
qed simp

lemma first_route_follows: "follows_routes first_route"
  unfolding follows_routes_def first_route_def using find_route_cases by blast

subsection \<open>Requests of nodes\<close>

text \<open>
  A request with its body, as far as it can be parsed. A parameter or body that cannot be parsed is
  refused before the handler runs.
\<close>

record http_request =
  hr_method :: http_method
  hr_path :: string
  hr_auth :: "string option"
  hr_register :: "register_request option"
  hr_completion :: "complete_request option"

datatype reply = Unparsable | Replied status_code | Crashed

definition reply_of :: "'a response \<times> app \<Rightarrow> reply \<times> app" where
  "reply_of r = ((case fst r of Reply s _ \<Rightarrow> Replied s | Fail s _ \<Rightarrow> Replied s | Panic \<Rightarrow> Crashed), snd r)"

record outside_world =
  ow_io :: "nat \<Rightarrow> bool"
  ow_now :: u64
  ow_unseal :: "uuid \<Rightarrow> bytes \<Rightarrow> (string, string) hashmap option"
  ow_images :: "uuid \<Rightarrow> string option"
  ow_environments :: "string \<Rightarrow> string option"

definition on_id :: "codec \<Rightarrow> string \<Rightarrow> (uuid \<Rightarrow> app \<Rightarrow> reply \<times> app) \<Rightarrow> app \<Rightarrow> reply \<times> app" where
  "on_id cd s h a = (case uuid_parse cd s of None \<Rightarrow> (Unparsable, a) | Some i \<Rightarrow> h i a)"

definition on_body :: "'b option \<Rightarrow> ('b \<Rightarrow> app \<Rightarrow> reply \<times> app) \<Rightarrow> app \<Rightarrow> reply \<times> app" where
  "on_body b h a = (case b of None \<Rightarrow> (Unparsable, a) | Some x \<Rightarrow> h x a)"

definition GUARDED :: "endpoint list" where
  "GUARDED = [GetImageArtifact, GetEnvironmentArtifact, GetWorkingDir, PostRegister, PostImageReady,
     PostEnvironmentReady, GetIdle, PostIdle, DelIdle, GetWork, PostComplete]"

definition on_one :: "string list \<Rightarrow> (string \<Rightarrow> app \<Rightarrow> reply \<times> app) \<Rightarrow> app \<Rightarrow> reply \<times> app" where
  "on_one vs h a = (case vs of [v] \<Rightarrow> h v a | _ \<Rightarrow> (Unparsable, a))"

definition on_two :: "string list \<Rightarrow> (string \<Rightarrow> string \<Rightarrow> app \<Rightarrow> reply \<times> app) \<Rightarrow> app \<Rightarrow> reply \<times> app" where
  "on_two vs h a = (case vs of [v, u] \<Rightarrow> h v u a | _ \<Rightarrow> (Unparsable, a))"

definition node_handler ::
    "codec \<Rightarrow> (string \<Rightarrow> string) \<Rightarrow> outside_world \<Rightarrow> http_request \<Rightarrow> endpoint \<Rightarrow> string list \<Rightarrow> app \<Rightarrow> reply \<times> app" where
  "node_handler cd H w r e vs =
     (case e of
        GetImageArtifact \<Rightarrow> on_one vs (\<lambda>i. on_id cd i (\<lambda>i a.
          reply_of (download_image H (ow_images w) (hr_auth r) i a)))
      | GetEnvironmentArtifact \<Rightarrow> on_one vs (\<lambda>i. on_id cd i (\<lambda>i a.
          reply_of (download_environment H (ow_environments w) (hr_auth r) i a)))
      | GetWorkingDir \<Rightarrow> on_one vs (\<lambda>d a.
          reply_of (download_working_dir_for_node H (ow_io w 0) (hr_auth r) d a))
      | PostRegister \<Rightarrow> on_body (hr_register r) (\<lambda>q a.
          reply_of (register_node cd H (ow_io w) (ow_now w) (hr_auth r) q a))
      | PostImageReady \<Rightarrow> on_two vs (\<lambda>i img. on_id cd i (\<lambda>i. on_id cd img (\<lambda>img a.
          reply_of (report_image_ready cd H (ow_io w) (hr_auth r) i img a))))
      | PostEnvironmentReady \<Rightarrow> on_two vs (\<lambda>i art. on_id cd i (\<lambda>i a.
          reply_of (report_environment_ready cd H (ow_io w) (hr_auth r) i art a)))
      | GetIdle \<Rightarrow> on_two vs (\<lambda>i q. on_id cd i (\<lambda>i a.
          reply_of (api_warm_instance_needed H (hr_auth r) i q a)))
      | PostIdle \<Rightarrow> on_two vs (\<lambda>i q. on_id cd i (\<lambda>i a.
          reply_of (api_add_warm_instance cd H (ow_io w) (hr_auth r) i q a)))
      | DelIdle \<Rightarrow> on_two vs (\<lambda>i q. on_id cd i (\<lambda>i a.
          reply_of (api_remove_idle_instance cd H (ow_io w) (hr_auth r) i q a)))
      | GetWork \<Rightarrow> on_one vs (\<lambda>i. on_id cd i (\<lambda>i a.
          reply_of (poll_work cd H (ow_unseal w) (ow_io w) (ow_now w) (hr_auth r) i a)))
      | PostComplete \<Rightarrow> on_one vs (\<lambda>i. on_id cd i (\<lambda>i. on_body (hr_completion r) (\<lambda>q a.
          reply_of (complete_execution cd H (ow_io w) (ow_now w) (hr_auth r) i q a))))
      | _ \<Rightarrow> (\<lambda>a. (Unparsable, a)))"

definition serve_node ::
    "codec \<Rightarrow> (string \<Rightarrow> string) \<Rightarrow> (http_method \<Rightarrow> string \<Rightarrow> routed) \<Rightarrow> (string \<Rightarrow> string) \<Rightarrow> outside_world \<Rightarrow>
       http_request \<Rightarrow> app \<Rightarrow> (reply \<times> app) option" where
  "serve_node cd H rt decode w r a =
     (case rt (hr_method r) (hr_path r) of
        Matched e vs \<Rightarrow>
          if e \<in> set GUARDED then Some (node_handler cd H w r e (map decode vs) a) else None
      | _ \<Rightarrow> None)"

subsection \<open>Nothing for strangers\<close>

lemma method_endpoint_in: "method_endpoint m es = Some e \<Longrightarrow> e \<in> snd ` set es"
  by (auto simp: method_endpoint_def split: option.splits if_splits dest!: map_of_SomeD intro: rev_image_eqI)

lemma matched_route:
  assumes "follows_routes rt" "rt m path = Matched e vs"
  obtains ss es where "(ss, es) \<in> set routes" "match_path ss path = Some vs" "method_endpoint m es = Some e"
proof -
  have "\<exists>(ss, es) \<in> set routes. match_path ss path = Some vs \<and> method_endpoint m es = Some e"
    using assms(1) [unfolded follows_routes_def, rule_format, of path m] by (simp add: assms(2))
  then show ?thesis using that by blast
qed

text \<open>Every route under \<open>/internal\<close> is guarded, but for those by which a node joins.\<close>

lemma internal_routes:
  assumes "follows_routes rt" "rt m (''/internal/'' @ rest) = Matched e vs"
  shows "e \<in> set GUARDED \<union> {GetIdentity, PostJoin, PostLocalJoin}"
proof -
  have split: "split_slashes (''internal'' @ CHR ''/'' # rest) = ''internal'' # split_slashes rest"
    by (rule split_slashes_part) simp
  obtain ss es where r: "(ss, es) \<in> set routes" "match_path ss (''/internal/'' @ rest) = Some vs"
      "method_endpoint m es = Some e"
    by (rule matched_route [OF assms])
  have vs: "match_segments ss (''internal'' # split_slashes rest) = Some vs"
    using r(2) split by (simp add: match_path_def)
  have "list_all (\<lambda>(ss, es). (case ss of Lit l # _ \<Rightarrow> l = ''internal'' \<longrightarrow>
      snd ` set es \<subseteq> set GUARDED \<union> {GetIdentity, PostJoin, PostLocalJoin} | _ \<Rightarrow> False)) routes"
    by (simp add: routes_def GUARDED_def)
  then have s: "case ss of Lit l # _ \<Rightarrow> l = ''internal'' \<longrightarrow>
      snd ` set es \<subseteq> set GUARDED \<union> {GetIdentity, PostJoin, PostLocalJoin} | _ \<Rightarrow> False"
    using r(1) by (auto simp: list_all_iff)
  then obtain l ss' where "ss = Lit l # ss'" by (auto split: list.splits segment.splits)
  with s vs method_endpoint_in [OF r(3)] show ?thesis by (auto split: if_splits)
qed

lemma starts_with_rest: "starts_with p s \<Longrightarrow> \<exists>rest. s = p @ rest"
  using append_take_drop_id [of "length p" s, symmetric] by (auto simp: starts_with_def)

lemma as_node_unauthorized:
  "authenticated_node H auth (app_cluster a) = Fail s m \<Longrightarrow> as_node H auth h a = (Fail s m, a)"
  by (simp add: as_node_def)

definition refused :: "app \<Rightarrow> (app \<Rightarrow> reply \<times> app) \<Rightarrow> bool" where
  "refused a h \<longleftrightarrow> snd (h a) = a \<and> fst (h a) \<in> {Unparsable, Replied UNAUTHORIZED}"

lemma refused_wrappers:
  "(\<And>v. refused a (f v)) \<Longrightarrow> refused a (on_one vs f)"
  "(\<And>v u. refused a (g v u)) \<Longrightarrow> refused a (on_two vs g)"
  "(\<And>i. refused a (h i)) \<Longrightarrow> refused a (on_id cd t h)"
  "(\<And>x. refused a (k x)) \<Longrightarrow> refused a (on_body b k)"
  by (simp_all add: refused_def on_one_def on_two_def on_id_def on_body_def split: list.split option.split)

lemma node_handler_refuses:
  assumes "authenticated_node H (hr_auth r) (app_cluster a) = Fail UNAUTHORIZED m"
  shows "refused a (node_handler cd H w r e vs)"
proof -
  note no = as_node_unauthorized [OF assms]
  have handlers:
    "refused a (\<lambda>a. reply_of (download_image H stored (hr_auth r) i a))"
    "refused a (\<lambda>a. reply_of (download_environment H stored' (hr_auth r) i a))"
    "refused a (\<lambda>a. reply_of (download_working_dir_for_node H ok (hr_auth r) d a))"
    "refused a (\<lambda>a. reply_of (register_node cd H io now (hr_auth r) q a))"
    "refused a (\<lambda>a. reply_of (report_image_ready cd H io (hr_auth r) i img a))"
    "refused a (\<lambda>a. reply_of (report_environment_ready cd H io (hr_auth r) i art a))"
    "refused a (\<lambda>a. reply_of (api_warm_instance_needed H (hr_auth r) i d a))"
    "refused a (\<lambda>a. reply_of (api_add_warm_instance cd H io (hr_auth r) i d a))"
    "refused a (\<lambda>a. reply_of (api_remove_idle_instance cd H io (hr_auth r) i d a))"
    "refused a (\<lambda>a. reply_of (poll_work cd H unseal io now (hr_auth r) i a))"
    "refused a (\<lambda>a. reply_of (complete_execution cd H io now (hr_auth r) i result a))"
    for stored stored' i ok d io now q img art unseal result
    unfolding refused_def reply_of_def download_image_def download_environment_def
        download_working_dir_for_node_def register_node_def report_image_ready_def
        report_environment_ready_def api_warm_instance_needed_def api_add_warm_instance_def
        api_remove_idle_instance_def poll_work_def complete_execution_def as_this_node_def no
    by simp_all
  have "refused a (\<lambda>a. (Unparsable, a))" by (simp add: refused_def)
  then show ?thesis
    unfolding node_handler_def by (cases e) (simp_all add: refused_wrappers handlers)
qed

text \<open>C10: No request to a path under \<open>/internal\<close>, whatever its method, parameters and body, does anything
  without the credential of an enrolled node, unless it is one of the three by which a machine joins: it
  finds no route, or is refused as unauthorised or as unparsable, and the controller stays as it was.
  The same holds for the artifacts of images and environments.\<close>

theorem internal_requests_need_credentials:
  assumes "follows_routes rt"
    and "authenticated_node H (hr_auth r) (app_cluster a) = Fail UNAUTHORIZED m"
  shows "(case serve_node cd H rt decode w r a of
       Some (answer, a') \<Rightarrow> a' = a \<and> answer \<in> {Unparsable, Replied UNAUTHORIZED}
     | None \<Rightarrow>
         (case rt (hr_method r) (hr_path r) of
            Matched e vs \<Rightarrow> e \<notin> {GetImageArtifact, GetEnvironmentArtifact} \<and>
              (starts_with ''/internal/'' (hr_path r) \<longrightarrow> e \<in> {GetIdentity, PostJoin, PostLocalJoin})
          | _ \<Rightarrow> True))"
proof (cases "rt (hr_method r) (hr_path r)")
  case (Matched e vs)
  have "snd (node_handler cd H w r e (map decode vs) a) = a \<and>
      fst (node_handler cd H w r e (map decode vs) a) \<in> {Unparsable, Replied UNAUTHORIZED}"
    using node_handler_refuses [OF assms(2)] by (simp add: refused_def)
  moreover have "e \<in> {GetIdentity, PostJoin, PostLocalJoin}"
    if path: "starts_with ''/internal/'' (hr_path r)" and free: "e \<notin> set GUARDED"
  proof -
    obtain rest where p: "hr_path r = ''/internal/'' @ rest"
      using starts_with_rest [OF path] by blast
    show ?thesis using internal_routes [OF assms(1) Matched [unfolded p]] free by blast
  qed
  ultimately show ?thesis
    using Matched by (auto simp: serve_node_def GUARDED_def split: prod.split)
qed (simp_all add: serve_node_def)

subsection \<open>Names of pools in paths\<close>

text \<open>
  A node puts the name of a pool into a path as it is. The request arrives exactly when the name is not
  empty and has no slash, leaving aside what a URL makes of other characters; \<open>create_pool\<close> accepts every name.
\<close>

definition idle_path :: "string \<Rightarrow> string \<Rightarrow> string" where
  "idle_path node pool = ''/internal/nodes/'' @ node @ ''/pools/'' @ pool @ ''/idle''"

lemma split_slashes_length: "length (split_slashes s) = Suc (length (filter (\<lambda>c. c = CHR ''/'') s))"
  by (induction s) (auto split: list.splits)

lemma match_length: "match_segments ss ps = Some vs \<Longrightarrow> length ps = length ss"
  by (induction ss ps arbitrary: vs rule: match_segments.induct) (auto split: if_splits)

lemma match_idle_path:
  assumes "node \<noteq> []" "CHR ''/'' \<notin> set node"
  shows "match_path ss (idle_path node pool) =
    match_segments ss (''internal'' # ''nodes'' # node # ''pools'' # split_slashes (pool @ ''/idle''))"
proof -
  have "split_slashes (node @ CHR ''/'' # ''pools/'' @ pool @ ''/idle'') =
      node # split_slashes (''pools/'' @ pool @ ''/idle'')"
    by (rule split_slashes_part) (rule assms(2))
  then show ?thesis by (simp add: match_path_def idle_path_def)
qed

lemma unusual_pool_unmatched:
  assumes "node \<noteq> []" "CHR ''/'' \<notin> set node" "pool = [] \<or> CHR ''/'' \<in> set pool" "(ss, es) \<in> set routes"
  shows "match_path ss (idle_path node pool) = None"
proof (cases "pool = []")
  case True
  have "list_all (\<lambda>(ss, es). match_path ss (idle_path node []) = None) routes"
    using assms(1) by (simp add: match_idle_path [OF assms(1,2)] routes_def)
  then show ?thesis using assms(4) True by (auto simp: list_all_iff)
next
  case False
  let ?ps = "''internal'' # ''nodes'' # node # ''pools'' # split_slashes (pool @ ''/idle'')"
  from False assms(3) have "filter (\<lambda>c. c = CHR ''/'') pool \<noteq> []" by (auto simp: filter_empty_conv)
  then have long: "7 \<le> length ?ps"
    by (cases "filter (\<lambda>c. c = CHR ''/'') pool") (simp_all add: split_slashes_length)
  have "list_all (\<lambda>(ss, es). length ss < 7) routes" by (simp add: routes_def)
  then have "length ss < 7" using assms(4) by (auto simp: list_all_iff)
  then have "match_segments ss ?ps = None"
    using match_length [of ss ?ps] long by (cases "match_segments ss ?ps") auto
  then show ?thesis by (simp only: match_idle_path [OF assms(1,2)])
qed

lemma usual_pool_matched:
  assumes "node \<noteq> []" "CHR ''/'' \<notin> set node" "pool \<noteq> []" "CHR ''/'' \<notin> set pool" "(ss, es) \<in> set routes"
  shows "match_path ss (idle_path node pool) =
    (if es = [(GET, GetIdle), (POST, PostIdle), (DELETE, DelIdle)] then Some [node, pool] else None)"
proof -
  have p: "split_slashes (pool @ ''/idle'') = [pool, ''idle'']"
    using split_slashes_part [OF assms(4), of "''idle''"] by simp
  have "list_all (\<lambda>(ss, es). match_path ss (idle_path node pool) =
      (if es = [(GET, GetIdle), (POST, PostIdle), (DELETE, DelIdle)] then Some [node, pool] else None)) routes"
    using assms(1,3) by (simp add: match_idle_path [OF assms(1,2)] p routes_def)
  then show ?thesis using assms(5) by (auto simp: list_all_iff)
qed

lemma idle_requests_lost:
  assumes "follows_routes rt" "node \<noteq> []" "CHR ''/'' \<notin> set node" "pool = [] \<or> CHR ''/'' \<in> set pool"
  shows "rt m (idle_path node pool) = NotFound"
proof -
  have "case rt m (idle_path node pool) of NotFound \<Rightarrow> True | _ \<Rightarrow> False"
    using assms(1) [unfolded follows_routes_def, rule_format, of "idle_path node pool" m]
    by (auto simp: unusual_pool_unmatched [OF assms(2-4)] split: routed.splits)
  then show ?thesis by (simp split: routed.splits)
qed

lemma idle_requests_arrive:
  assumes "follows_routes rt" "node \<noteq> []" "CHR ''/'' \<notin> set node" "pool \<noteq> []" "CHR ''/'' \<notin> set pool"
  shows "rt GET (idle_path node pool) = Matched GetIdle [node, pool]"
    and "rt POST (idle_path node pool) = Matched PostIdle [node, pool]"
    and "rt DELETE (idle_path node pool) = Matched DelIdle [node, pool]"
proof -
  let ?es = "[(GET, GetIdle), (POST, PostIdle), (DELETE, DelIdle)]"
  have found: "rt m (idle_path node pool) =
      (case method_endpoint m ?es of None \<Rightarrow> NotAllowed | Some e \<Rightarrow> Matched e [node, pool])" for m
  proof -
    have in_table: "\<exists>ss. (ss, ?es) \<in> set routes" by (simp add: routes_def)
    show ?thesis
      using assms(1) [unfolded follows_routes_def, rule_format, of "idle_path node pool" m] in_table
      by (fastforce simp: usual_pool_matched [OF assms(2-5)] split: routed.splits if_splits)
  qed
  show "rt GET (idle_path node pool) = Matched GetIdle [node, pool]"
    "rt POST (idle_path node pool) = Matched PostIdle [node, pool]"
    "rt DELETE (idle_path node pool) = Matched DelIdle [node, pool]"
    by (simp_all add: found method_endpoint_def)
qed

text \<open>A machine nobody knows cannot report an idle instance: the request finds its handler, which refuses it.\<close>

definition stranger :: http_request where
  "stranger = \<lparr>hr_method = POST, hr_path = ''/internal/nodes/3/pools/p/idle'', hr_auth = None,
     hr_register = None, hr_completion = None\<rparr>"

definition quiet_world :: outside_world where
  "quiet_world = \<lparr>ow_io = (\<lambda>_. True), ow_now = 5, ow_unseal = (\<lambda>_ _. None), ow_images = (\<lambda>_. None),
     ow_environments = (\<lambda>_. None)\<rparr>"

lemma stranger_route: "first_route POST ''/internal/nodes/3/pools/p/idle'' = Matched PostIdle [''3'', ''p'']"
  by (simp add: first_route_def match_path_def routes_def method_endpoint_def)

theorem internal_requests_need_credentials_witness:
  "\<exists>answer. serve_node demo_codec (\<lambda>t. t) first_route (\<lambda>s. s) quiet_world stranger (ctl_app demo_start) =
     Some (answer, ctl_app demo_start) \<and> answer \<in> {Unparsable, Replied UNAUTHORIZED}"
proof -
  have "authenticated_node (\<lambda>t. t) (hr_auth stranger) (app_cluster (ctl_app demo_start)) =
      Fail UNAUTHORIZED ''node credential required''"
    by (simp add: authenticated_node_def stranger_def)
  note holds = internal_requests_need_credentials [OF first_route_follows this,
      of demo_codec "\<lambda>s. s" quiet_world, unfolded stranger_route]
  have "first_route (hr_method stranger) (hr_path stranger) = Matched PostIdle [''3'', ''p'']"
    by (simp add: stranger_def stranger_route)
  then obtain answer after where s:
    "serve_node demo_codec (\<lambda>t. t) first_route (\<lambda>s. s) quiet_world stranger (ctl_app demo_start) = Some (answer, after)"
    by (simp add: serve_node_def GUARDED_def) (metis surj_pair)
  with holds show ?thesis by simp
qed

end
