(* ===== verification/Node_Redaction.thy ===== *)
theory Node_Redaction
  imports Cluster_Types "HOL-Library.Sublist"
begin

section \<open>Completions and the redaction of secrets\<close>

text \<open>
  The \<open>Completion\<close> that a node reports for an execution and \<open>redact_completion\<close> of
  \<open>platform/src/node.rs\<close>, which masks the secrets in it. Strings are UTF-8 bytes, in which
  \<open>str::replace\<close> with a non-empty pattern finds the same matches as in the characters, since no
  character's encoding starts inside another's.
\<close>

record completion =
  comp_result :: "json option"
  comp_error :: "string option"
  comp_timed_out :: bool
  comp_metrics :: "execution_metrics option"
  comp_keep_idle :: bool

definition MASK :: string where
  "MASK = ''[REDACTED]''"

text \<open>\<open>replace\<close>: the matches of a non-empty pattern from left to right, without overlap.\<close>

function replace_all :: "string \<Rightarrow> string \<Rightarrow> string \<Rightarrow> string" where
  "replace_all p r s =
     (if p \<noteq> [] \<and> prefix p s then r @ replace_all p r (drop (length p) s)
      else case s of [] \<Rightarrow> [] | c # cs \<Rightarrow> c # replace_all p r cs)"
  by pat_completeness auto
termination
  by (relation "measure (\<lambda>(p, r, s). length s)") (auto simp: prefix_def)

declare replace_all.simps [simp del]

definition redact_field :: "string \<Rightarrow> string \<Rightarrow> json \<Rightarrow> json" where
  "redact_field secret field v =
     (case json_get_str field v of
        None \<Rightarrow> v
      | Some s \<Rightarrow> json_set_field field (JString (replace_all secret MASK s)) v)"

definition redact_secret :: "string \<Rightarrow> completion \<Rightarrow> completion" where
  "redact_secret secret r =
     r\<lparr>comp_error := map_option (replace_all secret MASK) (comp_error r),
       comp_result := map_option (\<lambda>v. redact_field secret ''stderr'' (redact_field secret ''stdout'' v))
         (comp_result r)\<rparr>"

definition redact_completion :: "(string, string) hashmap \<Rightarrow> completion \<Rightarrow> completion" where
  "redact_completion secrets r =
     fold redact_secret (filter (\<lambda>s. s \<noteq> []) (hm_values secrets)) r"

subsection \<open>Replacing\<close>

lemma replace_all_Nil [simp]: "replace_all p r [] = []"
  by (subst replace_all.simps) simp

lemma replace_all_match: "p \<noteq> [] \<Longrightarrow> replace_all p r (p @ s) = r @ replace_all p r s"
  by (subst replace_all.simps) simp

lemma replace_all_step: "\<not> prefix p (c # s) \<Longrightarrow> replace_all p r (c # s) = c # replace_all p r s"
  by (subst replace_all.simps) simp

lemma replace_induct [consumes 1, case_names empty match step]:
  assumes "p \<noteq> []" "P []" "\<And>s. P s \<Longrightarrow> P (p @ s)" "\<And>c s. \<not> prefix p (c # s) \<Longrightarrow> P s \<Longrightarrow> P (c # s)"
  shows "P s"
proof (induction "length s" arbitrary: s rule: less_induct)
  case less
  show ?case
  proof (cases "prefix p s")
    case True
    then obtain t where "s = p @ t" by (auto simp: prefix_def)
    with less assms(1,3) show ?thesis by simp
  next
    case False
    with less assms(2,4) show ?thesis by (cases s) auto
  qed
qed

text \<open>A text clashes with the mask when the two can share characters of a string.\<close>

definition clash :: "string \<Rightarrow> string \<Rightarrow> bool" where
  "clash q m \<longleftrightarrow> sublist q m \<or> sublist m q \<or>
     (\<exists>u. u \<noteq> [] \<and> suffix u m \<and> prefix u q) \<or> (\<exists>u. u \<noteq> [] \<and> prefix u m \<and> suffix u q)"

lemma disjoint_no_clash:
  assumes "set q \<inter> set m = {}" "q \<noteq> []" "m \<noteq> []"
  shows "\<not> clash q m"
proof -
  have "set u = {}" if "set u \<subseteq> set q" "set u \<subseteq> set m" for u :: string
    using assms(1) that by (metis Int_mono order_refl subset_empty Int_absorb)
  moreover have "set q \<noteq> {}" "set m \<noteq> {}" using assms(2,3) by simp_all
  ultimately show ?thesis
    by (metis clash_def order_refl set_empty set_mono_prefix set_mono_sublist set_mono_suffix)
qed

lemma sublist_around:
  assumes "sublist q (a @ m @ b)" "\<not> clash q m"
  shows "sublist q a \<or> sublist q b"
proof -
  consider "sublist q a" | "sublist q (m @ b)"
    | q1 q2 where "q = q1 @ q2" "suffix q1 a" "prefix q2 (m @ b)"
    using assms(1) by (auto simp: sublist_append [of q a])
  then show ?thesis
  proof cases
    case 2
    then consider "sublist q m" | "sublist q b"
      | q1 q2 where "q = q1 @ q2" "suffix q1 m" "prefix q2 b"
      by (auto simp: sublist_append [of q m])
    then show ?thesis
    proof cases
      case 3
      then show ?thesis using assms(2) by (cases "q1 = []") (auto simp: clash_def)
    qed (use assms(2) in \<open>auto simp: clash_def\<close>)
  next
    case 3
    then have "q2 = [] \<or> sublist m q \<or> prefix q2 m" by (auto simp: prefix_append sublist_append)
    moreover have "suffix q2 q" using 3(1) by (auto simp: suffix_def)
    ultimately show ?thesis using 3 assms(2) by (auto simp: clash_def)
  qed simp
qed

text \<open>Replacing brings in no text that does not clash with the mask.\<close>

lemma replace_all_no_new:
  assumes "p \<noteq> []" "\<not> clash q m" "sublist q (a @ replace_all p m s)"
  shows "sublist q (a @ s)"
  using assms(1,3)
proof (induction s arbitrary: a rule: replace_induct)
  case (match s)
  then have "sublist q a \<or> sublist q (replace_all p m s)"
    using assms(2) by (intro sublist_around) (simp_all add: assms(1) replace_all_match)
  then show ?case
  proof
    assume "sublist q (replace_all p m s)"
    then have "sublist q s" using match.IH [of "[]"] by simp
    then show ?thesis by (simp add: sublist_append)
  qed (simp add: sublist_append)
next
  case (step c s)
  then show ?case using step.IH [of "a @ [c]"] by (simp add: replace_all_step)
qed simp

lemma replace_all_gone:
  assumes "p \<noteq> []" "\<not> clash p m" "\<forall>i < length a. \<not> prefix p (drop i (a @ s))"
  shows "\<not> sublist p (a @ replace_all p m s)"
  using assms(1,3)
proof (induction s arbitrary: a rule: replace_induct)
  case empty
  show ?case
  proof
    assume "sublist p (a @ replace_all p m [])"
    then obtain u v where a: "a = u @ p @ v" by (auto simp: sublist_def)
    then have "prefix p (drop (length u) (a @ []))" by simp
    moreover have "length u < length a" using a assms(1) by simp
    ultimately show False using empty by blast
  qed
next
  case (match s)
  have "\<not> sublist p a"
  proof
    assume "sublist p a"
    then obtain u v where a: "a = u @ p @ v" by (auto simp: sublist_def)
    then have "prefix p (drop (length u) (a @ p @ s))" by simp
    moreover have "length u < length a" using a assms(1) by simp
    ultimately show False using match.prems by blast
  qed
  moreover have "\<not> sublist p (replace_all p m s)" using match.IH [of "[]"] by simp
  ultimately show ?case
    using sublist_around [OF _ assms(2)] by (auto simp: assms(1) replace_all_match)
next
  case (step c s)
  have "\<forall>i < length (a @ [c]). \<not> prefix p (drop i ((a @ [c]) @ s))"
    using step.prems step.hyps by (auto simp: less_Suc_eq)
  from step.IH [OF this] show ?case using step.hyps by (simp add: replace_all_step)
qed

lemma replace_all_clean: "p \<noteq> [] \<Longrightarrow> \<not> clash p m \<Longrightarrow> \<not> sublist p (replace_all p m s)"
  using replace_all_gone [of p m "[]" s] by simp

lemma replace_all_keeps:
  "p \<noteq> [] \<Longrightarrow> \<not> clash q m \<Longrightarrow> \<not> sublist q s \<Longrightarrow> \<not> sublist q (replace_all p m s)"
  using replace_all_no_new [of p q m "[]" s] by auto

subsection \<open>Redacting\<close>

lemma redact_field_get:
  "json_get_str g (redact_field secret f v)
    = (if g = f then map_option (replace_all secret MASK) (json_get_str f v) else json_get_str g v)"
  "g \<noteq> f \<Longrightarrow> json_get g (redact_field secret f v) = json_get g v"
  by (cases v; auto simp: redact_field_def json_get_str_def json_get_set_field bind_eq_Some_conv
      split: option.splits)+

text \<open>The three places of a completion that are masked.\<close>

definition masked_texts :: "completion \<Rightarrow> string option list" where
  "masked_texts r =
     [comp_error r, Option.bind (comp_result r) (json_get_str ''stdout''),
      Option.bind (comp_result r) (json_get_str ''stderr'')]"

lemma masked_texts_redact:
  "masked_texts (redact_secret secret r) = map (map_option (replace_all secret MASK)) (masked_texts r)"
  by (cases "comp_result r") (simp_all add: masked_texts_def redact_secret_def redact_field_get)

lemma redact_secret_frame:
  "comp_timed_out (redact_secret secret r) = comp_timed_out r"
  "comp_metrics (redact_secret secret r) = comp_metrics r"
  "comp_keep_idle (redact_secret secret r) = comp_keep_idle r"
  "g \<noteq> ''stdout'' \<Longrightarrow> g \<noteq> ''stderr'' \<Longrightarrow>
   Option.bind (comp_result (redact_secret secret r)) (json_get g) = Option.bind (comp_result r) (json_get g)"
  by (cases "comp_result r"; simp add: redact_secret_def redact_field_get)+

lemma masked_texts_fold:
  "masked_texts (fold redact_secret ss r)
    = map (map_option (fold (\<lambda>s. replace_all s MASK) ss)) (masked_texts r)"
  by (induction ss arbitrary: r)
    (simp_all add: masked_texts_redact option.map_comp comp_def option.map_id0)

lemma fold_redact_frame:
  "comp_timed_out (fold redact_secret ss r) = comp_timed_out r"
  "comp_metrics (fold redact_secret ss r) = comp_metrics r"
  "comp_keep_idle (fold redact_secret ss r) = comp_keep_idle r"
  "g \<noteq> ''stdout'' \<Longrightarrow> g \<noteq> ''stderr'' \<Longrightarrow>
   Option.bind (comp_result (fold redact_secret ss r)) (json_get g) = Option.bind (comp_result r) (json_get g)"
  by (induction ss arbitrary: r) (simp_all add: redact_secret_frame)

lemma fold_replace_clean:
  assumes "\<forall>s \<in> set ss. s \<noteq> [] \<and> \<not> clash s MASK"
  shows "q \<noteq> [] \<Longrightarrow> \<not> clash q MASK \<Longrightarrow> q \<in> set ss \<or> \<not> sublist q x \<Longrightarrow>
    \<not> sublist q (fold (\<lambda>s. replace_all s MASK) ss x)"
  using assms
proof (induction ss arbitrary: x)
  case (Cons s ss)
  then have "q \<in> set ss \<or> \<not> sublist q (replace_all s MASK x)"
    using replace_all_clean [of s MASK x] replace_all_keeps [of s q MASK x] by auto
  then show ?case using Cons by simp
qed simp

text \<open>C31: when no secret clashes with the mask (it is not part of it, does not contain it, and no end
  of one is the beginning of the other), no non-empty secret is left in the error, the standard output
  or the standard error of a redacted completion, whatever the order of the secrets, and the rest of
  the completion is as it was.\<close>

theorem secrets_are_redacted:
  assumes "\<forall>s \<in> set (hm_values secrets). s \<noteq> [] \<longrightarrow> \<not> clash s MASK"
  shows "(\<forall>s \<in> set (hm_values secrets). \<forall>t.
      s \<noteq> [] \<longrightarrow> Some t \<in> set (masked_texts (redact_completion secrets r)) \<longrightarrow> \<not> sublist s t) \<and>
    map (\<lambda>x. x = None) (masked_texts (redact_completion secrets r))
      = map (\<lambda>x. x = None) (masked_texts r) \<and>
    (\<forall>g. g \<noteq> ''stdout'' \<longrightarrow> g \<noteq> ''stderr'' \<longrightarrow>
      Option.bind (comp_result (redact_completion secrets r)) (json_get g)
        = Option.bind (comp_result r) (json_get g)) \<and>
    comp_timed_out (redact_completion secrets r) = comp_timed_out r \<and>
    comp_metrics (redact_completion secrets r) = comp_metrics r \<and>
    comp_keep_idle (redact_completion secrets r) = comp_keep_idle r"
proof -
  let ?ss = "filter (\<lambda>s. s \<noteq> []) (hm_values secrets)"
  have "\<forall>s \<in> set ?ss. s \<noteq> [] \<and> \<not> clash s MASK" using assms by auto
  from fold_replace_clean [OF this] have clean:
    "\<not> sublist s (fold (\<lambda>s. replace_all s MASK) ?ss x)" if "s \<in> set ?ss" for s x
    using that assms by simp
  show ?thesis
    unfolding redact_completion_def fold_redact_frame masked_texts_fold
    using clean by (auto simp: fold_redact_frame comp_def map_option_case split: option.splits)
qed

text \<open>A secret that contains another is only masked in part when the shorter one comes first.\<close>

lemma redaction_of_nested_secrets:
  "comp_error (redact_completion [(''A'', ''abc''), (''B'', ''abc-def'')]
      \<lparr>comp_result = None, comp_error = Some ''abc-def'', comp_timed_out = False, comp_metrics = None,
       comp_keep_idle = False\<rparr>)
    = Some ''[REDACTED]-def''"
  by (simp add: redact_completion_def redact_secret_def hm_values_def MASK_def replace_all.simps
      redact_field_def)

lemma hunter_no_clash: "\<not> clash ''hunter2'' MASK"
  by (rule disjoint_no_clash) (auto simp: MASK_def)

theorem secrets_are_redacted_witness:
  "\<not> sublist ''hunter2'' (replace_all ''hunter2'' MASK ''wrong password hunter2!'')"
proof -
  let ?r = "\<lparr>comp_result = None, comp_error = Some ''wrong password hunter2!'', comp_timed_out = False,
    comp_metrics = None, comp_keep_idle = False\<rparr>"
  have "masked_texts (redact_completion [(''P'', ''hunter2'')] ?r)
      = [Some (replace_all ''hunter2'' MASK ''wrong password hunter2!''), None, None]"
    by (simp add: masked_texts_def redact_completion_def hm_values_def redact_secret_def)
  with secrets_are_redacted [of "[(''P'', ''hunter2'')]" ?r] hunter_no_clash
  show ?thesis by (simp add: hm_values_def)
qed

end
