(* ===== verification/Node_Network.thy ===== *)
theory Node_Network
  imports Cluster_Types Decimal Transition_System
begin

section \<open>The network of a node\<close>

text \<open>
  \<open>Network\<close> in \<open>platform/src/node.rs\<close>: which /30 subnets of 10.240.0.0/16 and which host ports the
  virtual machines of a node hold. \<open>available\<close> says whether a host port can be bound
  (\<open>port_available\<close>), \<open>run\<close> whether a command on the host succeeds, \<open>simple\<close> is the text of
  \<open>Uuid::simple\<close>. A \<open>HashSet\<close> is a set.
\<close>

record network_state =
  next_subnet :: u16
  next_port :: u16
  used_subnets :: "u16 set"
  used_ports :: "(port_protocol \<times> u16) set"

record network_lease =
  lease_subnet :: u16
  lease_tap :: string
  lease_guest_ip :: ipv4
  lease_gateway :: ipv4
  lease_ports :: "published_port list"

definition PORT_START :: u16 where
  "PORT_START = 30000"

definition PORT_END :: u16 where
  "PORT_END = 49999"

definition network_start :: network_state where
  "network_start = \<lparr>next_subnet = 0, next_port = PORT_START, used_subnets = {}, used_ports = {}\<rparr>"

subsection \<open>Reserving under the lock\<close>

text \<open>The two search loops, with the number of rounds that are left.\<close>

fun find_subnet :: "nat \<Rightarrow> network_state \<Rightarrow> u16 option \<times> network_state" where
  "find_subnet 0 s = (None, s)"
| "find_subnet (Suc n) s =
     (let subnet = next_subnet s;
          s' = s\<lparr>next_subnet := (subnet + 1) mod 16384\<rparr>
      in if subnet \<notin> used_subnets s' then (Some subnet, s') else find_subnet n s')"

fun find_port ::
    "(port_protocol \<Rightarrow> u16 \<Rightarrow> bool) \<Rightarrow> port_protocol \<Rightarrow> nat \<Rightarrow> network_state \<Rightarrow> u16 option \<times> network_state" where
  "find_port available pr 0 s = (None, s)"
| "find_port available pr (Suc n) s =
     (let p = next_port s;
          s' = s\<lparr>next_port := (if p = PORT_END then PORT_START else p + 1)\<rparr>
      in if (pr, p) \<notin> used_ports s' \<and> available pr p then (Some p, s') else find_port available pr n s')"

definition port_rounds :: nat where
  "port_rounds = unat PORT_END - unat PORT_START + 1"

definition host_port ::
    "(port_protocol \<Rightarrow> u16 \<Rightarrow> bool) \<Rightarrow> port_spec \<Rightarrow> network_state \<Rightarrow> u16 option \<times> network_state" where
  "host_port available spec s =
     (case port_host_port spec of
        Some p \<Rightarrow>
          (if (port_protocol spec, p) \<in> used_ports s \<or> \<not> available (port_protocol spec) p
           then (None, s) else (Some p, s))
      | None \<Rightarrow> find_port available (port_protocol spec) port_rounds s)"

text \<open>
  The loop over the requested ports. When one cannot be had the loop is left, and the ports that
  it has already entered stay in the set.
\<close>

fun reserve_ports ::
    "(port_protocol \<Rightarrow> u16 \<Rightarrow> bool) \<Rightarrow> port_spec list \<Rightarrow> network_state \<Rightarrow>
     published_port list option \<times> network_state" where
  "reserve_ports available [] s = (Some [], s)"
| "reserve_ports available (spec # specs) s =
     (case host_port available spec s of
        (None, s1) \<Rightarrow> (None, s1)
      | (Some p, s1) \<Rightarrow>
        (case reserve_ports available specs
                (s1\<lparr>used_ports := insert (port_protocol spec, p) (used_ports s1)\<rparr>) of
           (None, s2) \<Rightarrow> (None, s2)
         | (Some ps, s2) \<Rightarrow>
             (Some (\<lparr>pub_name = port_name spec, pub_guest_port = port_guest_port spec,
                     pub_host_port = p, pub_protocol = port_protocol spec\<rparr> # ps), s2)))"

definition reserve_lease ::
    "(port_protocol \<Rightarrow> u16 \<Rightarrow> bool) \<Rightarrow> port_spec list \<Rightarrow> network_state \<Rightarrow>
     (u16 \<times> published_port list) option \<times> network_state" where
  "reserve_lease available specs s =
     (case find_subnet 16384 s of
        (None, s1) \<Rightarrow> (None, s1)
      | (Some subnet, s1) \<Rightarrow>
        (case reserve_ports available specs s1 of
           (None, s2) \<Rightarrow> (None, s2)
         | (Some ps, s2) \<Rightarrow>
             (Some (subnet, ps), s2\<lparr>used_subnets := insert subnet (used_subnets s2)\<rparr>)))"

subsection \<open>Leases\<close>

definition make_lease :: "(uuid \<Rightarrow> string) \<Rightarrow> uuid \<Rightarrow> u16 \<Rightarrow> published_port list \<Rightarrow> network_lease" where
  "make_lease simple i subnet ps =
     (let base = 10 * 2 ^ 24 + 240 * 2 ^ 16 + ucast subnet * 4 in
      \<lparr>lease_subnet = subnet, lease_tap = ''srk'' @ take 11 (simple i),
       lease_guest_ip = base + 2, lease_gateway = base + 1, lease_ports = ps\<rparr>)"

definition release_lease :: "network_lease \<Rightarrow> network_state \<Rightarrow> network_state" where
  "release_lease lease s =
     s\<lparr>used_subnets := used_subnets s - {lease_subnet lease},
       used_ports := used_ports s -
         set (map (\<lambda>p. (pub_protocol p, pub_host_port p)) (lease_ports lease))\<rparr>"

text \<open>The commands that configure a lease, each the program and its arguments.\<close>

definition ipv4_text :: "ipv4 \<Rightarrow> string" where
  "ipv4_text a = concat [decimal (unat (drop_bit 24 a)), ''.'', decimal (unat (drop_bit 16 a) mod 256),
     ''.'', decimal (unat (drop_bit 8 a) mod 256), ''.'', decimal (unat a mod 256)]"

definition protocol_text :: "port_protocol \<Rightarrow> string" where
  "protocol_text pr = (case pr of Tcp \<Rightarrow> ''tcp'' | Udp \<Rightarrow> ''udp'')"

definition nat_rule :: "string \<Rightarrow> network_lease \<Rightarrow> published_port \<Rightarrow> string \<times> string list" where
  "nat_rule action lease p =
     (''iptables'', [''-t'', ''nat'', action, ''SCRAPERACK'', ''-p'', protocol_text (pub_protocol p),
       ''--dport'', decimal (unat (pub_host_port p)), ''-j'', ''DNAT'', ''--to-destination'',
       concat [ipv4_text (lease_guest_ip lease), '':'', decimal (unat (pub_guest_port p))]])"

definition setup_commands :: "network_lease \<Rightarrow> (string \<times> string list) list" where
  "setup_commands lease =
     [(''ip'', [''tuntap'', ''add'', ''dev'', lease_tap lease, ''mode'', ''tap'']),
      (''ip'', [''addr'', ''add'', ipv4_text (lease_gateway lease) @ ''/30'', ''dev'', lease_tap lease]),
      (''ip'', [''link'', ''set'', ''dev'', lease_tap lease, ''up''])]
     @ map (nat_rule ''-A'' lease) (lease_ports lease)"

definition release_commands :: "network_lease \<Rightarrow> (string \<times> string list) list" where
  "release_commands lease =
     map (nat_rule ''-D'' lease) (lease_ports lease) @ [(''ip'', [''link'', ''del'', lease_tap lease])]"

text \<open>
  \<open>allocate\<close> returns the lease, or \<open>None\<close> with the state it leaves; when a command of the setup
  fails the lease is released again.
\<close>

definition allocate ::
    "(port_protocol \<Rightarrow> u16 \<Rightarrow> bool) \<Rightarrow> (string \<times> string list \<Rightarrow> bool) \<Rightarrow> (uuid \<Rightarrow> string) \<Rightarrow>
     uuid \<Rightarrow> port_spec list \<Rightarrow> network_state \<Rightarrow> network_lease option \<times> network_state" where
  "allocate available run simple i specs s =
     (case reserve_lease available specs s of
        (None, s1) \<Rightarrow> (None, s1)
      | (Some (subnet, ps), s1) \<Rightarrow>
        let lease = make_lease simple i subnet ps in
        if list_all run (setup_commands lease) then (Some lease, s1)
        else (None, release_lease lease s1))"

end
