(* ===== verification/Node_Vms.thy ===== *)
theory Node_Vms
  imports Node_Network Transition_System
begin

section \<open>The virtual machines of a node\<close>

text \<open>
  \<open>VmState\<close>, \<open>LiveVm\<close> and \<open>VmStartLimiter\<close> of \<open>platform/src/node.rs\<close>: the idle virtual machines and
  the running ones, how one is taken for an execution, and how many may start at once. An \<open>Instant\<close>
  is its number of ticks. The process, directory and socket of a machine are outside the model; its
  process identifier is what \<open>Child::id\<close> returns.
\<close>

record live_vm =
  live_id :: uuid
  live_pool :: pool
  live_pid :: "u32 option"
  live_network :: "network_lease option"
  live_functions :: "string set"
  live_working_dirs :: "string set"
  live_last_used :: nat

record vm_state =
  idle_vms :: "live_vm list"
  running_vms :: "(uuid, micro_vm) hashmap"
  active_cpu_millis :: u32
  active_memory_mib :: u32
  state_cpu_millis :: u32
  state_memory_mib :: u32

definition vm_report :: "live_vm \<Rightarrow> pool \<Rightarrow> vm_status \<Rightarrow> uuid option \<Rightarrow> micro_vm" where
  "vm_report vm p st e =
     \<lparr>vm_id = live_id vm, vm_pool = pool_name p, vm_status = st, vm_execution = e,
      vm_pid = live_pid vm, vm_cpu_millis = pool_cpu_millis p, vm_memory_mib = pool_memory_mib p,
      vm_guest_ip = map_option lease_guest_ip (live_network vm),
      vm_ports = (case live_network vm of Some l \<Rightarrow> lease_ports l | None \<Rightarrow> []),
      vm_environment = pool_environment p\<rparr>"

definition reports :: "vm_state \<Rightarrow> micro_vm list" where
  "reports s =
     sort_key vm_id (map (\<lambda>vm. vm_report vm (live_pool vm) VmIdle None) (idle_vms s)
       @ hm_values (running_vms s))"

subsection \<open>Taking and giving back\<close>

definition too_large :: "pool \<Rightarrow> vm_state \<Rightarrow> bool" where
  "too_large p s \<longleftrightarrow> state_cpu_millis s < pool_cpu_millis p \<or> state_memory_mib s < pool_memory_mib p"

definition add_active :: "pool \<Rightarrow> vm_state \<Rightarrow> vm_state" where
  "add_active p s =
     s\<lparr>active_cpu_millis := saturating_add (active_cpu_millis s) (pool_cpu_millis p),
       active_memory_mib := saturating_add (active_memory_mib s) (pool_memory_mib p)\<rparr>"

text \<open>\<open>max_by_key\<close> keeps the last of several largest elements.\<close>

fun latest :: "(nat \<times> live_vm) option \<Rightarrow> (nat \<times> live_vm) list \<Rightarrow> (nat \<times> live_vm) option" where
  "latest best [] = best"
| "latest best (x # xs) =
     (case best of
        None \<Rightarrow> latest (Some x) xs
      | Some y \<Rightarrow> if live_last_used (snd y) \<le> live_last_used (snd x) then latest (Some x) xs
          else latest (Some y) xs)"

definition swap_remove :: "nat \<Rightarrow> 'a list \<Rightarrow> 'a \<times> 'a list" where
  "swap_remove i xs = (xs ! i, butlast (xs[i := last xs]))"

definition vm_acquire :: "pool \<Rightarrow> vm_state \<Rightarrow> (string + live_vm option) \<times> vm_state" where
  "vm_acquire p s =
     (if too_large p s then (Inl ''instance resources exceed node capacity'', s)
      else
        let s1 = add_active p s in
        (case latest None (filter (\<lambda>(_, vm). pool_name (live_pool vm) = pool_name p)
                 (List.enumerate 0 (idle_vms s1))) of
           None \<Rightarrow> (Inr None, s1)
         | Some (i, _) \<Rightarrow>
             (case swap_remove i (idle_vms s1) of
                (vm, rest) \<Rightarrow> (Inr (Some vm), s1\<lparr>idle_vms := rest\<rparr>))))"

definition vm_release :: "pool \<Rightarrow> live_vm option \<Rightarrow> vm_state \<Rightarrow> vm_state" where
  "vm_release p vm s =
     (let s1 = s\<lparr>active_cpu_millis := saturating_sub (active_cpu_millis s) (pool_cpu_millis p),
                 active_memory_mib := saturating_sub (active_memory_mib s) (pool_memory_mib p)\<rparr>
      in case vm of None \<Rightarrow> s1 | Some v \<Rightarrow> s1\<lparr>idle_vms := idle_vms s1 @ [v]\<rparr>)"

definition reserve_warm :: "pool \<Rightarrow> vm_state \<Rightarrow> bool \<times> vm_state" where
  "reserve_warm p s = (if too_large p s then (False, s) else (True, add_active p s))"

definition default_vm_start_concurrency :: "u32 \<Rightarrow> usize" where
  "default_vm_start_concurrency cpu_millis = ucast (max (cpu_millis div 2000) 1)"

subsection \<open>Which machines move\<close>

lemma latest_kept: "latest (Some y) xs \<noteq> None"
  by (induction xs arbitrary: y) simp_all

lemma latest_None: "latest None xs = None \<longleftrightarrow> xs = []"
  by (cases xs) (simp_all only: latest.simps option.case latest_kept simp_thms list.distinct)

lemma latest_Some:
  "latest best xs = Some y \<Longrightarrow> y \<in> set_option best \<union> set xs \<and>
    (\<forall>x \<in> set_option best \<union> set xs. live_last_used (snd x) \<le> live_last_used (snd y))"
proof (induction xs arbitrary: best)
  case (Cons x xs)
  show ?case
  proof (cases best)
    case None
    with Cons.prems Cons.IH [of "Some x"] show ?thesis by auto
  next
    case (Some z)
    show ?thesis
    proof (cases "live_last_used (snd z) \<le> live_last_used (snd x)")
      case True
      with Some Cons.prems Cons.IH [of "Some x"] show ?thesis by force
    next
      case False
      with Some Cons.prems Cons.IH [of "Some z"] show ?thesis by force
    qed
  qed
qed simp

lemma mset_swap_remove:
  assumes "i < length xs"
  shows "mset xs = add_mset (xs ! i) (mset (butlast (xs[i := last xs])))"
proof (cases "i = length xs - 1")
  case True
  then have "xs[i := last xs] = xs" using assms by (metis last_conv_nth list_update_id list.size(3) not_less0)
  moreover have "mset xs = mset (butlast xs @ [last xs])"
    using assms by (metis append_butlast_last_id list.size(3) not_less0)
  moreover have "last xs = xs ! i" using True assms by (metis last_conv_nth list.size(3) not_less0)
  ultimately show ?thesis by simp
next
  case False
  then have i: "i < length (butlast xs)" using assms by simp
  have xs: "xs = butlast xs @ [last xs]" using assms by (metis append_butlast_last_id list.size(3) not_less0)
  then have "xs[i := last xs] = (butlast xs)[i := last xs] @ [last xs]"
    using i by (metis list_update_append1)
  then have "mset (butlast (xs[i := last xs])) = mset ((butlast xs)[i := last xs])" by simp
  also have "\<dots> = add_mset (last xs) (mset (butlast xs) - {#butlast xs ! i#})"
    using i by (rule mset_update)
  finally have "add_mset (xs ! i) (mset (butlast (xs[i := last xs])))
      = add_mset (last xs) (add_mset (butlast xs ! i) (mset (butlast xs) - {#butlast xs ! i#}))"
    using i by (simp add: nth_butlast)
  also have "\<dots> = add_mset (last xs) (mset (butlast xs))"
    using i by (simp add: nth_mem_mset)
  also have "\<dots> = mset (butlast xs @ [last xs])" by simp
  finally show ?thesis using xs by simp
qed

lemma vm_release_simps [simp]:
  "idle_vms (vm_release p None s) = idle_vms s"
  "idle_vms (vm_release p (Some vm) s) = idle_vms s @ [vm]"
  "running_vms (vm_release p x s) = running_vms s"
  by (auto simp: vm_release_def Let_def split: option.split)

lemma add_active_simps [simp]:
  "idle_vms (add_active p s) = idle_vms s" "running_vms (add_active p s) = running_vms s"
  by (simp_all add: add_active_def)

lemma vm_acquire_spec:
  "case vm_acquire p s of
     (Inl _, s') \<Rightarrow> too_large p s \<and> s' = s
   | (Inr None, s') \<Rightarrow> \<not> too_large p s \<and> s' = add_active p s \<and>
       (\<forall>vm \<in> set (idle_vms s). pool_name (live_pool vm) \<noteq> pool_name p)
   | (Inr (Some vm), s') \<Rightarrow> \<not> too_large p s \<and> pool_name (live_pool vm) = pool_name p \<and>
       (\<forall>x \<in> set (idle_vms s). pool_name (live_pool x) = pool_name p \<longrightarrow>
          live_last_used x \<le> live_last_used vm) \<and>
       mset (idle_vms s) = add_mset vm (mset (idle_vms s')) \<and> running_vms s' = running_vms s"
proof (cases "too_large p s")
  case True
  then show ?thesis by (simp add: vm_acquire_def)
next
  case False
  let ?s1 = "add_active p s"
  let ?own = "filter (\<lambda>(_, vm). pool_name (live_pool vm) = pool_name p) (List.enumerate 0 (idle_vms s))"
  have s1: "idle_vms ?s1 = idle_vms s" "running_vms ?s1 = running_vms s" by (simp_all add: add_active_def)
  have own: "(i, vm) \<in> set ?own \<longleftrightarrow> i < length (idle_vms s) \<and> idle_vms s ! i = vm \<and>
      pool_name (live_pool vm) = pool_name p" for i vm
    by (auto simp: in_set_enumerate_eq)
  show ?thesis
  proof (cases "latest None ?own")
    case None
    then have empty: "?own = []" by (simp add: latest_None)
    have "pool_name (live_pool vm) \<noteq> pool_name p" if mem: "vm \<in> set (idle_vms s)" for vm
    proof
      assume "pool_name (live_pool vm) = pool_name p"
      moreover obtain i where "i < length (idle_vms s)" "idle_vms s ! i = vm"
        using mem by (auto simp: in_set_conv_nth)
      ultimately have "(i, vm) \<in> set ?own" by (simp only: own)
      then show False by (simp add: empty)
    qed
    with False None s1 show ?thesis by (simp add: vm_acquire_def Let_def)
  next
    case (Some ivm)
    obtain i vm where ivm: "ivm = (i, vm)" by (cases ivm)
    note best = latest_Some [OF Some [unfolded ivm]]
    then have "(i, vm) \<in> set ?own" by simp
    then have i: "i < length (idle_vms s)" "idle_vms s ! i = vm" "pool_name (live_pool vm) = pool_name p"
      by (simp_all only: own)
    have "live_last_used x \<le> live_last_used vm"
      if mem: "x \<in> set (idle_vms s)" and same: "pool_name (live_pool x) = pool_name p" for x
    proof -
      obtain j where "j < length (idle_vms s)" "idle_vms s ! j = x"
        using mem by (auto simp: in_set_conv_nth)
      with same have "(j, x) \<in> set ?own" by (simp only: own)
      with best have "live_last_used (snd (j, x)) \<le> live_last_used (snd (i, vm))" by blast
      then show ?thesis by simp
    qed
    with False Some ivm i s1 mset_swap_remove [OF i(1)] show ?thesis
      by (simp add: vm_acquire_def Let_def swap_remove_def)
  qed
qed

lemma vm_acquire_cases:
  assumes "vm_acquire p s = (r, s')"
  obtains (too_large) e where "r = Inl e" "s' = s" "too_large p s"
  | (no_idle) "r = Inr None" "\<not> too_large p s" "idle_vms s' = idle_vms s" "running_vms s' = running_vms s"
      "\<forall>vm \<in> set (idle_vms s). pool_name (live_pool vm) \<noteq> pool_name p"
  | (idle) vm where "r = Inr (Some vm)" "\<not> too_large p s" "pool_name (live_pool vm) = pool_name p"
      "mset (idle_vms s) = add_mset vm (mset (idle_vms s'))" "running_vms s' = running_vms s"
  using vm_acquire_spec [of p s] assms by (cases r; cases "projr r") auto

lemma vm_acquire_moves:
  assumes "vm_acquire p s = (Inr x, s')"
  shows "mset (idle_vms s) = mset ((case x of None \<Rightarrow> [] | Some vm \<Rightarrow> [vm]) @ idle_vms s') \<and>
    running_vms s' = running_vms s"
  using assms by (cases rule: vm_acquire_cases) auto

subsection \<open>The limiter of starts\<close>

record limiter =
  lim_active :: usize
  lim_limit :: usize

definition limiter_new :: "usize \<Rightarrow> limiter" where
  "limiter_new limit = \<lparr>lim_active = 0, lim_limit = max limit 1\<rparr>"

text \<open>One look at the state in the loop of \<open>acquire\<close>.\<close>

definition try_acquire :: "limiter \<Rightarrow> bool \<times> limiter" where
  "try_acquire l =
     (if lim_active l < lim_limit l then (True, l\<lparr>lim_active := lim_active l + 1\<rparr>) else (False, l))"

definition set_limit :: "usize \<Rightarrow> limiter \<Rightarrow> bool \<times> limiter" where
  "set_limit limit l =
     (let limit' = max limit 1 in
      if lim_limit l = limit' then (False, l) else (True, l\<lparr>lim_limit := limit'\<rparr>))"

definition drop_permit :: "limiter \<Rightarrow> limiter" where
  "drop_permit l = l\<lparr>lim_active := saturating_sub (lim_active l) 1\<rparr>"

text \<open>
  The limiter with the tasks that use it: \<open>held\<close> permits, tasks that wait for a notification, and
  tasks that have been notified and will look again. \<open>Notify\<close> works as tokio documents it:
  \<open>notify_waiters\<close> wakes every waiting task, \<open>notify_one\<close> wakes one or, when none waits, stores a
  token that the next task to wait takes at once; \<open>enable\<close> registers a task before it looks, so
  a task that did not get a permit waits from that look on.
\<close>

record start_state =
  st_limiter :: limiter
  st_held :: nat
  st_waiting :: nat
  st_notified :: nat
  st_token :: bool

definition start_initial :: "start_state \<Rightarrow> bool" where
  "start_initial s \<longleftrightarrow> (\<exists>limit. s = \<lparr>st_limiter = limiter_new limit, st_held = 0, st_waiting = 0,
     st_notified = 0, st_token = False\<rparr>)"

text \<open>
  A task looks at the limiter and gets a permit, or waits. Its \<open>enable\<close> takes the token before the look, so
  the token is gone also when the task gets a permit.
\<close>

definition look :: "start_state \<Rightarrow> start_state" where
  "look s =
     (case try_acquire (st_limiter s) of
        (True, l) \<Rightarrow> s\<lparr>st_limiter := l, st_held := st_held s + 1, st_token := False\<rparr>
      | (False, l) \<Rightarrow>
          if st_token s then s\<lparr>st_token := False, st_notified := st_notified s + 1\<rparr>
          else s\<lparr>st_waiting := st_waiting s + 1\<rparr>)"

definition return_permit :: "start_state \<Rightarrow> start_state" where
  "return_permit s =
     (let s1 = s\<lparr>st_limiter := drop_permit (st_limiter s), st_held := st_held s - 1\<rparr> in
      if st_waiting s = 0 then s1\<lparr>st_token := True\<rparr>
      else s1\<lparr>st_waiting := st_waiting s - 1, st_notified := st_notified s + 1\<rparr>)"

definition change_limit :: "usize \<Rightarrow> start_state \<Rightarrow> start_state" where
  "change_limit limit s =
     (case set_limit limit (st_limiter s) of
        (False, l) \<Rightarrow> s
      | (True, l) \<Rightarrow> s\<lparr>st_limiter := l, st_waiting := 0, st_notified := st_notified s + st_waiting s\<rparr>)"

inductive start_step :: "start_state \<Rightarrow> start_state \<Rightarrow> bool" where
  arrive: "start_step s (look s)"
| retry: "0 < st_notified s \<Longrightarrow> start_step s (look (s\<lparr>st_notified := st_notified s - 1\<rparr>))"
| finish: "0 < st_held s \<Longrightarrow> start_step s (return_permit s)"
| limit: "start_step s (change_limit limit s)"

text \<open>
  The permits in use are counted, and no task is left waiting while a permit is free: as long as
  tasks wait, every free permit has a notified task on its way.
\<close>

definition start_ok :: "start_state \<Rightarrow> bool" where
  "start_ok s \<longleftrightarrow>
     unat (lim_active (st_limiter s)) = st_held s \<and> 0 < unat (lim_limit (st_limiter s)) \<and>
     (0 < st_waiting s \<longrightarrow> unat (lim_limit (st_limiter s)) - st_held s \<le> st_notified s)"

lemma look_cases:
  assumes "start_ok s"
  obtains (taken) "st_held s < unat (lim_limit (st_limiter s))"
      "look s = s\<lparr>st_limiter := (st_limiter s)\<lparr>lim_active := lim_active (st_limiter s) + 1\<rparr>,
        st_held := st_held s + 1, st_token := False\<rparr>"
      "unat (lim_active (st_limiter s) + 1) = st_held s + 1"
  | (waits) "unat (lim_limit (st_limiter s)) \<le> st_held s"
      "look s = (if st_token s then s\<lparr>st_token := False, st_notified := st_notified s + 1\<rparr>
        else s\<lparr>st_waiting := st_waiting s + 1\<rparr>)"
proof (cases "lim_active (st_limiter s) < lim_limit (st_limiter s)")
  case True
  then have "unat (lim_active (st_limiter s) + 1) = Suc (unat (lim_active (st_limiter s)))"
    by (rule unat_Suc_no_wrap)
  with True assms show ?thesis
    by (intro taken) (simp_all add: look_def try_acquire_def start_ok_def word_less_nat_alt)
next
  case False
  with assms show ?thesis
    by (intro waits) (simp_all add: look_def try_acquire_def start_ok_def word_less_nat_alt not_less)
qed

lemma look_ok:
  assumes "start_ok s"
  shows "start_ok (look s)"
  using assms
  by (cases rule: look_cases) (use assms in \<open>auto simp: start_ok_def\<close>)

interpretation starts: invariant_system start_initial start_step start_ok
proof (unfold_locales, goal_cases)
  case (1 s)
  then show ?case
    by (auto simp: start_initial_def start_ok_def limiter_new_def max_def word_le_nat_alt)
next
  case (2 s t)
  from 2(2) show ?case
  proof (cases rule: start_step.cases)
    case arrive
    then show ?thesis using look_ok [OF 2(1)] by simp
  next
    case retry
    show ?thesis
    proof (cases "st_held s < unat (lim_limit (st_limiter s))")
      case True
      then have "lim_active (st_limiter s) < lim_limit (st_limiter s)"
        using 2(1) by (simp add: start_ok_def word_less_nat_alt)
      moreover from this have "unat (lim_active (st_limiter s) + 1) = Suc (unat (lim_active (st_limiter s)))"
        by (rule unat_Suc_no_wrap)
      ultimately show ?thesis
        using 2(1) retry by (auto simp: look_def try_acquire_def start_ok_def)
    next
      case False
      then have "\<not> lim_active (st_limiter s) < lim_limit (st_limiter s)"
        using 2(1) by (simp add: start_ok_def word_less_nat_alt)
      then show ?thesis
        using 2(1) retry False by (auto simp: look_def try_acquire_def start_ok_def)
    qed
  next
    case finish
    have "unat (saturating_sub (lim_active (st_limiter s)) 1) = st_held s - 1"
      using 2(1) by (simp add: unat_saturating_sub start_ok_def)
    then show ?thesis
      using 2(1) finish by (auto simp: return_permit_def drop_permit_def start_ok_def Let_def)
  next
    case (limit l)
    have "0 < unat (max l 1)" by (simp add: max_def word_le_nat_alt)
    then show ?thesis
      using 2(1) limit by (auto simp: change_limit_def set_limit_def start_ok_def Let_def)
  qed
qed

end
