(* ===== verification/Repository_Tests.thy ===== *)
theory Repository_Tests
  imports Api_Requests Node_Redaction Node_Vms
begin

section \<open>The tests of the repository\<close>

text \<open>
  The unit tests of \<open>cluster.rs\<close>, \<open>node.rs\<close> and \<open>api.rs\<close>, run on the model: every assertion of a test
  is a conjunct, in its order. The tests of \<open>storage.rs\<close> are instances of the round trip, the pruning
  and the clearing of secrets in \<open>Storage_Properties\<close>. Names of nodes, which play no part, are empty. The
  lemmas are not used elsewhere; they show that the definitions answer as
  the authors of the code expect.
\<close>

definition test_node :: "uuid \<Rightarrow> uuid \<Rightarrow> node" where
  "test_node i img =
     \<lparr>node_id = i, node_name = [], node_cpu_millis = 1000, node_memory_mib = 512,
      node_vm_start_concurrency = None, node_address = None, node_used_cpu_millis = 0,
      node_used_memory_mib = 0, node_images = {img}, node_environments = {},
      node_idle_instances = [], node_vms = [], node_status = Ready, node_last_seen_ms = 0\<rparr>"

definition test_pool :: "u32 \<Rightarrow> u32 option \<Rightarrow> u32 \<Rightarrow> u32 \<Rightarrow> pool" where
  "test_pool warm limit cpu mem =
     \<lparr>pool_name = ''p'', pool_image = 7, pool_warm_instances = warm, pool_max_instances = limit,
      pool_cpu_millis = cpu, pool_memory_mib = mem, pool_disk_mib = 1024, pool_timeout_secs = 60,
      pool_idle_timeout_secs = 30, pool_reuse = True, pool_network = False, pool_ports = [],
      pool_managed_by = None, pool_environment = None, pool_environment_artifact = None,
      pool_preload = []\<rparr>"

definition test_execution :: "uuid \<Rightarrow> execution" where
  "test_execution i =
     \<lparr>exec_id = i, exec_pool = ''p'', exec_node = None, exec_status = Queued, exec_payload = JNull,
      exec_variables = [], exec_result = None, exec_error = None, exec_created_at_ms = 0,
      exec_started_at_ms = None, exec_finished_at_ms = None, exec_environment = None,
      exec_metrics = None\<rparr>"

definition test_cluster :: "node list \<Rightarrow> pool \<Rightarrow> cluster" where
  "test_cluster ns p = empty_cluster\<lparr>nodes := map (\<lambda>n. (node_id n, n)) ns, pools := [(''p'', p)]\<rparr>"

definition submit :: "uuid \<Rightarrow> cluster \<Rightarrow> cluster" where
  "submit i c = c\<lparr>executions := hm_insert i (test_execution i) (executions c)\<rparr>"

definition runs_on :: "uuid \<Rightarrow> cluster \<Rightarrow> uuid option" where
  "runs_on i c = Option.bind (hm_get (executions c) i) exec_node"

definition used_memory :: "uuid \<Rightarrow> cluster \<Rightarrow> u32 option" where
  "used_memory i c = map_option node_used_memory_mib (hm_get (nodes c) i)"

definition idle_count :: "uuid \<Rightarrow> cluster \<Rightarrow> u32 option" where
  "idle_count i c = Option.bind (hm_get (nodes c) i) (\<lambda>n. hm_get (node_idle_instances n) ''p'')"

lemmas test_defs = test_node_def test_pool_def test_execution_def test_cluster_def submit_def runs_on_def
  used_memory_def idle_count_def empty_cluster_def hm_defs scheduler_defs warm_defs Let_def
  schedule_def assign_execution_def take_slot_def set_idle_def reserve_def add_warm_instance_def
  saturating_add_def

lemma two_mod: "2 mod Suc (Suc 0) = (0 :: nat)"
  by (metis mod_self numeral_2_eq_2)

lemma small_words: "\<not> 2 \<le> (1 :: uuid)" "\<not> 2 \<le> (1 :: u32)" "\<not> 4 \<le> (1 :: u32)"
  by (simp_all add: word_le_nat_alt)

lemma schedules_round_robin_and_overcommits_capacity:
  "\<exists>c1 c2 c3 c4.
     schedule 11 (submit 11 (test_cluster [test_node 1 7, test_node 2 7] (test_pool 0 None 250 512))) = Some (True, c1) \<and>
     runs_on 11 c1 = Some 1 \<and>
     schedule 12 (submit 12 c1) = Some (True, c2) \<and> runs_on 12 c2 = Some 2 \<and>
     schedule 13 (submit 13 c2) = Some (True, c3) \<and> runs_on 13 c3 = Some 1 \<and>
     used_memory 1 c3 = Some 1024 \<and>
     add_warm_instance 2 ''p'' (c3\<lparr>pools := [(''p'', test_pool 4 None 250 512)]\<rparr>) = (True, c4) \<and>
     used_memory 2 c4 = Some 1024"
  by (simp add: test_defs small_words two_mod)

lemma rejects_an_instance_larger_than_a_node:
  "\<exists>c. schedule 11 (submit 11 (test_cluster [test_node 1 7] (test_pool 1 None 1001 513))) = Some (False, c) \<and>
     add_warm_instance 1 ''p'' c = (False, c)"
  by (simp add: test_defs small_words)

lemma reuses_idle_capacity_without_reserving_it_twice:
  "\<exists>c. schedule 11 (submit 11 (test_cluster [(test_node 1 7)\<lparr>node_used_cpu_millis := 250,
       node_used_memory_mib := 256, node_idle_instances := [(''p'', 1)]\<rparr>] (test_pool 0 (Some 1) 250 256))) = Some (True, c) \<and>
     idle_count 1 c = Some 0 \<and> used_memory 1 c = Some 256 \<and>
     idle_count 1 (release 11 True c) = Some 1 \<and> used_memory 1 (release 11 True c) = Some 256"
  by (simp add: test_defs small_words release_def release_slot_def)

text \<open>
  The test of the warm instances: each node gets its half of four; a pool that is spread unevenly is
  evened out one by one; a node that loses the image gives its instances to the other.
\<close>

definition warm_nodes :: "(u32 \<times> u32 \<times> u32) \<Rightarrow> (u32 \<times> u32 \<times> u32) \<Rightarrow> uuid set \<Rightarrow> cluster" where
  "warm_nodes a b imgs =
     (let node = (\<lambda>i (idle, cpu, mem). (test_node i 7)\<lparr>node_used_cpu_millis := cpu, node_used_memory_mib := mem,
        node_idle_instances := [(''p'', idle)]\<rparr>)
      in test_cluster [(node 1 a)\<lparr>node_images := imgs\<rparr>, node 2 b] (test_pool 4 None 250 256))"

lemma balances_warm_instances_filling:
  "\<exists>c1 c2 c3 c4. let c0 = test_cluster [test_node 1 7, test_node 2 7] (test_pool 4 None 250 256) in
     warm_instance_needed 1 ''p'' c0 \<and> add_warm_instance 1 ''p'' c0 = (True, c1) \<and>
     warm_instance_needed 1 ''p'' c1 \<and> add_warm_instance 1 ''p'' c1 = (True, c2) \<and>
     \<not> warm_instance_needed 1 ''p'' c2 \<and> add_warm_instance 1 ''p'' c2 = (False, c2) \<and>
     warm_instance_needed 2 ''p'' c2 \<and> add_warm_instance 2 ''p'' c2 = (True, c3) \<and>
     warm_instance_needed 2 ''p'' c3 \<and> add_warm_instance 2 ''p'' c3 = (True, c4) \<and>
     \<not> warm_instance_needed 2 ''p'' c4 \<and> add_warm_instance 2 ''p'' c4 = (False, c4) \<and>
     idle_count 1 c4 = Some 2 \<and> idle_count 2 c4 = Some 2"
  by (simp add: test_defs small_words)

lemma balances_warm_instances_evening:
  "\<exists>c1 c2 c3 c4.
     remove_idle_instance 1 ''p'' (warm_nodes (4, 1000, 1024) (0, 0, 0) {7}) = (True, c1) \<and>
     remove_idle_instance 1 ''p'' c1 = (False, c1) \<and> add_warm_instance 2 ''p'' c1 = (True, c2) \<and>
     remove_idle_instance 1 ''p'' c2 = (True, c3) \<and> add_warm_instance 2 ''p'' c3 = (True, c4) \<and>
     idle_count 1 c4 = Some 2 \<and> idle_count 2 c4 = Some 2 \<and>
     c4 = warm_nodes (2, 500, 512) (2, 500, 512) {7}"
  by (simp add: test_defs small_words warm_nodes_def remove_idle_instance_def unreserve_def saturating_sub_def)

lemma balances_warm_instances_moving:
  "\<exists>c1 c2 c3 c4.
     remove_idle_instance 1 ''p'' (warm_nodes (2, 500, 512) (2, 500, 512) {}) = (True, c1) \<and>
     add_warm_instance 2 ''p'' c1 = (True, c2) \<and>
     remove_idle_instance 1 ''p'' c2 = (True, c3) \<and> add_warm_instance 2 ''p'' c3 = (True, c4) \<and>
     idle_count 1 c4 = Some 0 \<and> idle_count 2 c4 = Some 4"
  by (simp add: test_defs small_words warm_nodes_def remove_idle_instance_def unreserve_def saturating_sub_def)

subsection \<open>The tests of a node\<close>

lemma vm_start_concurrency_is_half_the_node_vcpus_with_a_minimum_of_one:
  "default_vm_start_concurrency 500 = 1 \<and> default_vm_start_concurrency 1000 = 1 \<and>
   default_vm_start_concurrency 4000 = 2 \<and> default_vm_start_concurrency 8000 = 4 \<and>
   default_vm_start_concurrency 16000 = 8"
  by code_simp

lemma redacts_secrets_from_output_and_errors_but_not_results:
  "redact_completion [(''TOKEN'', ''secret-value'')]
     \<lparr>comp_result = Some (JObject [
        (''value'', JObject [(''encoding'', JString ''json''), (''data'', JString ''keep secret-value'')]),
        (''stdout'', JString ''printed secret-value''), (''stderr'', JString ''warned secret-value'')]),
      comp_error = Some ''failed with secret-value'', comp_timed_out = False, comp_metrics = None,
      comp_keep_idle = False\<rparr> =
     \<lparr>comp_result = Some (JObject [
        (''value'', JObject [(''encoding'', JString ''json''), (''data'', JString ''keep secret-value'')]),
        (''stdout'', JString ''printed [REDACTED]''), (''stderr'', JString ''warned [REDACTED]'')]),
      comp_error = Some ''failed with [REDACTED]'', comp_timed_out = False, comp_metrics = None,
      comp_keep_idle = False\<rparr>"
  by code_simp

subsection \<open>The tests of the controller\<close>

text \<open>The hash is injective enough for the tests: it puts a mark in front.\<close>

definition marked :: "string \<Rightarrow> string" where
  "marked t = CHR ''#'' # t"

lemma join_tokens_are_single_use_and_create_authenticated_nodes:
  "\<exists>v a1 c a2 a3 m1 m2.
     create_join_token demo_codec marked (\<lambda>_. True) 5 1 ''token'' (ctl_app demo_start) = (Reply OK v, a1) \<and>
     jview_token v = Some ''token'' \<and>
     list_all (\<lambda>t. token_hash t \<noteq> ''token'') (hm_values (join_tokens (app_cluster a1))) \<and>
     join_cluster demo_codec marked (\<lambda>_. True) 6 3 ''cred'' ''token'' a1 = (Reply OK c, a2) \<and>
     authenticated_node marked (Some (''Bearer '' @ cred_credential c)) (app_cluster a2) = Reply OK (cred_node_id c) \<and>
     delete_node demo_codec (\<lambda>_. True) (cred_node_id c) a2 = (Reply NO_CONTENT (), a3) \<and>
     authenticated_node marked (Some (''Bearer '' @ cred_credential c)) (app_cluster a3) = Fail UNAUTHORIZED m1 \<and>
     fst (join_cluster demo_codec marked (\<lambda>_. True) 7 4 ''other'' ''token'' a3) = Fail UNAUTHORIZED m2"
  by (simp add: create_join_token_def join_cluster_def delete_node_def authenticated_node_def demo_start_def
      save_then_def save_def with_cluster_def Let_def empty_cluster_def hm_defs hm_values_def hm_retain_def
      token_valid_def same_hash_eq marked_def strip_prefix_def schedule_and_save_def schedule_queued_def
      queued_order_def app_save_executions_def hm_remove_def JOIN_TOKEN_TTL_MS_def)

lemma local_enrollment_rejects_remote_clients:
  "fst (local_join demo_codec H io False fresh cred None a) = Fail FORBIDDEN ''local enrollment only''"
  by (simp add: local_join_def)

lemma stores_working_directories_by_verified_hash:
  assumes "H ''project archive'' = digest_a"
  shows "\<exists>a. upload_working_dir H True digest_a ''project archive'' (ctl_app demo_start) = (Reply CREATED (), a) \<and>
    working_dir_exists digest_a a = Reply NO_CONTENT () \<and>
    fst (upload_working_dir H True (replicate 64 CHR ''0'') ''project archive'' a)
      = Fail BAD_REQUEST ''working directory hash does not match content''"
proof -
  have zero: "working_dir_path (replicate 64 CHR ''0'') = Reply OK (replicate 64 CHR ''0'' @ ''.zip'')"
    by (simp add: working_dir_path_def lower_hex_def list_all_iff)
  have "replicate 64 CHR ''0'' \<noteq> digest_a" by (simp add: digest_a_def)
  then show ?thesis
    using assms zero by (simp add: upload_working_dir_def working_dir_exists_def digest_a_path demo_start_def hm_defs)
qed

end
