(* ===== verification/Node_Network_Facts.thy ===== *)
theory Node_Network_Facts
  imports Node_Network
begin

section \<open>Leases never overlap, and are refused only when there is none left\<close>

subsection \<open>Searching in a ring\<close>

text \<open>
  The two searches of the allocator share a contract: a cursor runs over a ring of \<open>m\<close> values, each
  round looks at the value under the cursor and advances. What is found is free, and after \<open>m\<close>
  rounds every value has been seen.
\<close>

locale ring_search =
  fixes search :: "nat \<Rightarrow> 's \<Rightarrow> 'v option \<times> 's"
    and cursor :: "'s \<Rightarrow> nat" and advance :: "'s \<Rightarrow> 's"
    and value_at :: "nat \<Rightarrow> 'v" and free :: "'s \<Rightarrow> 'v \<Rightarrow> bool"
    and valid :: "'s \<Rightarrow> bool" and m :: nat
  assumes search_0: "search 0 s = (None, s)"
    and search_Suc: "valid s \<Longrightarrow> search (Suc n) s =
      (if free s (value_at (cursor s)) then (Some (value_at (cursor s)), advance s)
       else search n (advance s))"
    and cursor_advance: "valid s \<Longrightarrow> cursor (advance s) = (cursor s + 1) mod m"
    and cursor_less: "valid s \<Longrightarrow> cursor s < m"
    and valid_advance: "valid s \<Longrightarrow> valid (advance s)"
    and free_advance: "free (advance s) = free s"
begin

lemma search_valid: "valid s \<Longrightarrow> valid (snd (search n s))"
  by (induction n arbitrary: s) (simp_all add: search_0 search_Suc valid_advance)

lemma search_found:
  "valid s \<Longrightarrow> search n s = (Some v, s') \<Longrightarrow> free s v \<and> (\<exists>i < m. v = value_at i)"
proof (induction n arbitrary: s)
  case 0
  then show ?case by (simp add: search_0)
next
  case (Suc n)
  show ?case
  proof (cases "free s (value_at (cursor s))")
    case True
    with Suc.prems cursor_less show ?thesis by (auto simp: search_Suc)
  next
    case False
    with Suc.prems have "search n (advance s) = (Some v, s')" by (simp add: search_Suc)
    from Suc.IH [OF valid_advance [OF Suc.prems(1)] this] show ?thesis by (simp add: free_advance)
  qed
qed

lemma search_failed:
  "valid s \<Longrightarrow> search n s = (None, s') \<Longrightarrow> j < n \<Longrightarrow> \<not> free s (value_at ((cursor s + j) mod m))"
proof (induction n arbitrary: s j)
  case 0
  then show ?case by simp
next
  case (Suc n)
  have taken: "\<not> free s (value_at (cursor s))" and rest: "search n (advance s) = (None, s')"
    using Suc.prems(1,2) by (auto simp: search_Suc split: if_splits)
  show ?case
  proof (cases j)
    case 0
    with taken cursor_less [OF Suc.prems(1)] show ?thesis by simp
  next
    case (Suc k)
    have "\<not> free (advance s) (value_at ((cursor (advance s) + k) mod m))"
      by (rule Suc.IH [OF valid_advance [OF Suc.prems(1)] rest]) (use Suc Suc.prems(3) in simp)
    then show ?thesis
      using Suc by (simp add: free_advance cursor_advance [OF Suc.prems(1)] mod_simps)
  qed
qed

lemma search_exhausted:
  assumes "valid s" "search m s = (None, s')" "i < m"
  shows "\<not> free s (value_at i)"
proof -
  have c: "cursor s < m" by (rule cursor_less [OF assms(1)])
  define j where "j = (i + (m - cursor s)) mod m"
  have "(cursor s + j) mod m = (cursor s + (i + (m - cursor s))) mod m"
    by (simp add: j_def mod_simps)
  also have "cursor s + (i + (m - cursor s)) = i + m" using c by simp
  also have "(i + m) mod m = i" using assms(3) by simp
  finally have "(cursor s + j) mod m = i" .
  moreover have "j < m" using assms(3) by (simp add: j_def)
  ultimately show ?thesis using search_failed [OF assms(1,2)] by metis
qed

end


definition subnet_valid :: "network_state \<Rightarrow> bool" where
  "subnet_valid s \<longleftrightarrow> unat (next_subnet s) < 16384"

definition port_valid :: "network_state \<Rightarrow> bool" where
  "port_valid s \<longleftrightarrow> unat PORT_START \<le> unat (next_port s) \<and> unat (next_port s) \<le> unat PORT_END"

lemma port_range: "unat PORT_START = 30000" "unat PORT_END = 49999" "port_rounds = 20000"
  by (simp_all add: PORT_START_def PORT_END_def port_rounds_def)

lemma next_port_cursor:
  assumes "port_valid s"
  shows "unat (if next_port s = PORT_END then PORT_START else next_port s + 1)
    = 30000 + (unat (next_port s) - 30000 + 1) mod 20000"
proof (cases "next_port s = PORT_END")
  case True
  then show ?thesis by (simp add: port_range)
next
  case False
  then have "unat (next_port s) \<noteq> 49999" using port_range(2) by (metis word_unat_eq_iff)
  with assms have b: "30000 \<le> unat (next_port s)" "unat (next_port s) < 49999"
    by (simp_all add: port_valid_def port_range)
  then have "unat (next_port s + 1) = Suc (unat (next_port s))"
    by (simp add: unat_word_ariths)
  with b False show ?thesis by simp
qed

interpretation subnets: ring_search find_subnet "\<lambda>s. unat (next_subnet s)"
    "\<lambda>s. s\<lparr>next_subnet := (next_subnet s + 1) mod 16384\<rparr>" word_of_nat
    "\<lambda>s v. v \<notin> used_subnets s" subnet_valid 16384
proof (unfold_locales, goal_cases)
  case (3 s)
  have "unat ((next_subnet s + 1) mod 16384) = unat (next_subnet s + 1) mod 16384"
    by (simp add: unat_mod)
  moreover have "unat (next_subnet s + 1) = unat (next_subnet s) + 1"
    using 3 by (simp add: subnet_valid_def unat_word_ariths)
  ultimately show ?case by simp
next
  case (5 s)
  show ?case by (simp add: subnet_valid_def unat_mod)
qed (simp_all add: subnet_valid_def Let_def fun_eq_iff)

interpretation ports: ring_search "find_port available pr" "\<lambda>s. unat (next_port s) - 30000"
    "\<lambda>s. s\<lparr>next_port := (if next_port s = PORT_END then PORT_START else next_port s + 1)\<rparr>"
    "\<lambda>i. word_of_nat (30000 + i)"
    "\<lambda>s v. (pr, v) \<notin> used_ports s \<and> available pr v" port_valid port_rounds
  for available pr
proof (unfold_locales, goal_cases)
  case (2 s n)
  then have "30000 + (unat (next_port s) - 30000) = unat (next_port s)"
    by (simp add: port_valid_def port_range)
  then have "word_of_nat (30000 + (unat (next_port s) - 30000)) = next_port s" by simp
  then show ?case by (simp add: Let_def del: of_nat_add)
next
  case (3 s)
  then show ?case using next_port_cursor [of s] by (simp add: port_range)
next
  case (4 s)
  then have "unat (next_port s) < 50000" by (simp add: port_valid_def port_range)
  then show ?case by (simp add: port_range)
next
  case (5 s)
  have "(unat (next_port s) - 30000 + 1) mod 20000 < 20000" by simp
  with next_port_cursor [OF 5] show ?case by (simp add: port_valid_def port_range)
qed (simp_all add: fun_eq_iff)


subsection \<open>What a reservation does\<close>

definition port_key :: "published_port \<Rightarrow> port_protocol \<times> u16" where
  "port_key p = (pub_protocol p, pub_host_port p)"

lemma port_key_make [simp]:
  "port_key \<lparr>pub_name = a, pub_guest_port = b, pub_host_port = c, pub_protocol = d\<rparr> = (d, c)"
  by (simp add: port_key_def)

definition lease_keys :: "network_lease \<Rightarrow> (port_protocol \<times> u16) list" where
  "lease_keys lease = map port_key (lease_ports lease)"

definition cursors_valid :: "network_state \<Rightarrow> bool" where
  "cursors_valid s \<longleftrightarrow> subnet_valid s \<and> port_valid s"

lemma find_subnet_frame:
  "used_subnets (snd (find_subnet n s)) = used_subnets s \<and> used_ports (snd (find_subnet n s)) = used_ports s \<and>
   next_port (snd (find_subnet n s)) = next_port s"
  by (induction n arbitrary: s) (simp_all add: Let_def)

lemma find_port_frame:
  "used_subnets (snd (find_port av pr n s)) = used_subnets s \<and> used_ports (snd (find_port av pr n s)) = used_ports s \<and>
   next_subnet (snd (find_port av pr n s)) = next_subnet s"
  by (induction n arbitrary: s) (simp_all add: Let_def)

lemma host_port_frame:
  assumes "host_port av spec s = (r, s')"
  shows "used_subnets s' = used_subnets s" "used_ports s' = used_ports s"
    "cursors_valid s \<Longrightarrow> cursors_valid s'"
    "cursors_valid s \<Longrightarrow> r = Some p \<Longrightarrow>
      (port_protocol spec, p) \<notin> used_ports s \<and> av (port_protocol spec) p"
proof -
  let ?f = "find_port av (port_protocol spec) port_rounds s"
  show "used_subnets s' = used_subnets s" "used_ports s' = used_ports s"
    using assms find_port_frame [of av "port_protocol spec" port_rounds s]
    by (auto simp: host_port_def split: option.splits if_splits)
  show "cursors_valid s'" if "cursors_valid s"
    using assms that find_port_frame [of av "port_protocol spec" port_rounds s]
      ports.search_valid [of s av "port_protocol spec" port_rounds]
    by (auto simp: host_port_def cursors_valid_def subnet_valid_def split: option.splits if_splits)
  show "(port_protocol spec, p) \<notin> used_ports s \<and> av (port_protocol spec) p"
    if "cursors_valid s" "r = Some p"
    using assms that ports.search_found [of s av "port_protocol spec" port_rounds p s']
    by (auto simp: host_port_def cursors_valid_def split: option.splits if_splits)
qed

lemma reserve_ports_spec:
  assumes "reserve_ports av specs s = (r, s')" "cursors_valid s"
  shows "used_subnets s' = used_subnets s \<and> used_ports s \<subseteq> used_ports s' \<and> cursors_valid s' \<and>
    (\<forall>ps. r = Some ps \<longrightarrow> distinct (map port_key ps) \<and> (\<forall>x \<in> set ps. port_key x \<notin> used_ports s) \<and>
       used_ports s' = used_ports s \<union> set (map port_key ps) \<and>
       list_all2 (\<lambda>spec p. pub_name p = port_name spec \<and> pub_guest_port p = port_guest_port spec \<and>
         pub_protocol p = port_protocol spec \<and>
         (\<forall>h. port_host_port spec = Some h \<longrightarrow> pub_host_port p = h)) specs ps)"
  using assms
proof (induction specs arbitrary: s r s')
  case Nil
  then show ?case by auto
next
  case (Cons spec specs)
  obtain h s1 where h: "host_port av spec s = (h, s1)" by fastforce
  note f = host_port_frame [OF h]
  show ?case
  proof (cases h)
    case None
    with Cons.prems h f show ?thesis by auto
  next
    case (Some p)
    let ?s1 = "s1\<lparr>used_ports := insert (port_protocol spec, p) (used_ports s1)\<rparr>"
    have v1: "cursors_valid ?s1"
      using f(3) Cons.prems(2) by (simp add: cursors_valid_def subnet_valid_def port_valid_def)
    obtain r2 s2 where r2: "reserve_ports av specs ?s1 = (r2, s2)" by fastforce
    have new: "(port_protocol spec, p) \<notin> used_ports s" using f(4) Cons.prems(2) Some by blast
    have ph: "port_host_port spec = Some q \<Longrightarrow> q = p" for q
      using h Some by (auto simp: host_port_def split: if_splits)
    note IH = Cons.IH [OF r2 v1]
    show ?thesis
    proof (cases r2)
      case None
      with Cons.prems(1) h Some r2 IH f show ?thesis by auto
    next
      case r2s: (Some ps)
      with Cons.prems(1) h Some r2 IH f new ph show ?thesis by auto blast
    qed
  qed
qed

lemma host_port_none:
  assumes "host_port av spec s = (None, s')" "cursors_valid s"
  shows "case port_host_port spec of
      Some p \<Rightarrow> (port_protocol spec, p) \<in> used_ports s \<or> \<not> av (port_protocol spec) p
    | None \<Rightarrow> \<forall>p. PORT_START \<le> p \<longrightarrow> p \<le> PORT_END \<longrightarrow>
        (port_protocol spec, p) \<in> used_ports s \<or> \<not> av (port_protocol spec) p"
proof (cases "port_host_port spec")
  case (Some p)
  with assms show ?thesis by (auto simp: host_port_def split: if_splits)
next
  case None
  have "(port_protocol spec, p) \<in> used_ports s \<or> \<not> av (port_protocol spec) p"
    if "PORT_START \<le> p" "p \<le> PORT_END" for p
  proof -
    have b: "30000 \<le> unat p" "unat p - 30000 < port_rounds"
      using that by (simp_all add: word_le_nat_alt port_range)
    then have "word_of_nat (30000 + (unat p - 30000)) = p" by simp
    then show ?thesis
      using ports.search_exhausted [of s av "port_protocol spec" s' "unat p - 30000"] assms None b(2)
      by (simp add: host_port_def cursors_valid_def del: of_nat_add)
  qed
  with None show ?thesis by simp
qed


subsection \<open>The leases of a node\<close>

text \<open>
  The allocator with the leases that virtual machines hold or that are being set up. The lock is
  released between the reservation and the setup, so a setup that fails is a release of its own.
\<close>

inductive net_step ::
    "(uuid \<Rightarrow> string) \<Rightarrow> network_state \<times> network_lease list \<Rightarrow> network_state \<times> network_lease list \<Rightarrow> bool"
  for simple :: "uuid \<Rightarrow> string" where
  reserved: "reserve_lease av specs s = (Some (subnet, ps), s') \<Longrightarrow>
    net_step simple (s, L) (s', make_lease simple i subnet ps # L)"
| refused: "reserve_lease av specs s = (None, s') \<Longrightarrow> net_step simple (s, L) (s', L)"
| released: "lease \<in> set L \<Longrightarrow> net_step simple (s, L) (release_lease lease s, remove1 lease L)"

inductive_cases net_stepE: "net_step simple (s, L) (s', L')"

definition net_initial :: "network_state \<times> network_lease list \<Rightarrow> bool" where
  "net_initial = (\<lambda>(s, L). s = network_start \<and> L = [])"

definition leases_ok :: "(uuid \<Rightarrow> string) \<Rightarrow> network_state \<Rightarrow> network_lease list \<Rightarrow> bool" where
  "leases_ok simple s L \<longleftrightarrow>
     cursors_valid s \<and> used_subnets s = set (map lease_subnet L) \<and> distinct (map lease_subnet L) \<and>
     distinct (concat (map lease_keys L)) \<and> set (concat (map lease_keys L)) \<subseteq> used_ports s \<and>
     (\<forall>lease \<in> set L. unat (lease_subnet lease) < 16384 \<and>
        (\<exists>i ps. lease = make_lease simple i (lease_subnet lease) ps))"

lemma make_lease_simps [simp]:
  "lease_subnet (make_lease simple i subnet ps) = subnet"
  "lease_keys (make_lease simple i subnet ps) = map port_key ps"
  by (simp_all add: make_lease_def lease_keys_def Let_def)

lemma reserve_lease_spec:
  assumes "reserve_lease av specs s = (r, s')" "cursors_valid s"
  shows "cursors_valid s' \<and>
    (case r of
       None \<Rightarrow> used_subnets s' = used_subnets s \<and> used_ports s \<subseteq> used_ports s'
     | Some (subnet, ps) \<Rightarrow> subnet \<notin> used_subnets s \<and> unat subnet < 16384 \<and>
         used_subnets s' = insert subnet (used_subnets s) \<and>
         distinct (map port_key ps) \<and> (\<forall>x \<in> set ps. port_key x \<notin> used_ports s) \<and>
         used_ports s' = used_ports s \<union> set (map port_key ps))"
proof -
  obtain k s1 where k: "find_subnet 16384 s = (k, s1)" by fastforce
  note f = find_subnet_frame [of 16384 s, unfolded k snd_conv]
  have v1: "cursors_valid s1"
    using subnets.search_valid [of s 16384] assms(2) k f by (simp add: cursors_valid_def port_valid_def)
  show ?thesis
  proof (cases k)
    case None
    with assms k f v1 show ?thesis by (auto simp: reserve_lease_def)
  next
    case (Some subnet)
    have "subnet \<notin> used_subnets s \<and> (\<exists>i < 16384. subnet = word_of_nat i)"
      using subnets.search_found [of s 16384 subnet s1] assms(2) k Some by (simp add: cursors_valid_def)
    then have sub: "subnet \<notin> used_subnets s" "unat subnet < 16384"
      by (auto simp: unat_of_nat)
    obtain q s2 where q: "reserve_ports av specs s1 = (q, s2)" by fastforce
    note spec = reserve_ports_spec [OF q v1]
    show ?thesis
      using assms(1) k Some q spec f sub
      by (cases q) (auto simp: reserve_lease_def cursors_valid_def subnet_valid_def port_valid_def)
  qed
qed

lemma concat_keys_remove1:
  "lease \<in> set L \<Longrightarrow> mset (concat (map lease_keys L))
     = mset (lease_keys lease) + mset (concat (map lease_keys (remove1 lease L)))"
  by (induction L) auto

lemma leases_ok_release:
  assumes ok: "leases_ok simple s L" and l: "lease \<in> set L"
  shows "leases_ok simple (release_lease lease s) (remove1 lease L)"
proof -
  have d: "distinct (map lease_subnet L)" "distinct (concat (map lease_keys L))"
    using ok by (simp_all add: leases_ok_def)
  have "distinct L" using d(1) by (simp add: distinct_map)
  have "lease_subnet x \<noteq> lease_subnet lease" if "x \<in> set L" "x \<noteq> lease" for x
    using d(1) l that by (auto simp: distinct_map inj_on_def)
  then have subs: "set (map lease_subnet (remove1 lease L)) = set (map lease_subnet L) - {lease_subnet lease}"
    using \<open>distinct L\<close> l by auto
  have m: "mset (concat (map lease_keys L))
      = mset (lease_keys lease @ concat (map lease_keys (remove1 lease L)))"
    using concat_keys_remove1 [OF l] by simp
  then have "distinct (lease_keys lease @ concat (map lease_keys (remove1 lease L)))"
    using d(2) mset_eq_imp_distinct_iff by blast
  then have keys: "distinct (concat (map lease_keys (remove1 lease L)))"
      "set (lease_keys lease) \<inter> set (concat (map lease_keys (remove1 lease L))) = {}"
    by simp_all
  have "set (concat (map lease_keys (remove1 lease L))) \<subseteq> set (concat (map lease_keys L))"
    using m by (metis mset_append set_append set_mset_mset sup_ge2)
  then have "set (concat (map lease_keys (remove1 lease L))) \<subseteq> used_ports s - set (lease_keys lease)"
    using ok keys(2) unfolding leases_ok_def by blast
  moreover have "distinct (map lease_subnet (remove1 lease L))"
    using d(1) by (simp add: distinct_map distinct_remove1 inj_on_def)
  moreover have "set (remove1 lease L) \<subseteq> set L" by (rule set_remove1_subset)
  moreover have "map (\<lambda>p. (pub_protocol p, pub_host_port p)) (lease_ports lease) = lease_keys lease"
    by (simp add: lease_keys_def port_key_def)
  ultimately show ?thesis
    using ok keys(1) subs
    by (auto simp: leases_ok_def release_lease_def cursors_valid_def subnet_valid_def port_valid_def)
qed

subsection \<open>Addresses\<close>

lemma guest_ip_unat:
  assumes "unat (subnet :: u16) < 16384"
  shows "unat (lease_guest_ip (make_lease simple i subnet ps)) = 183500800 + 4 * unat subnet + 2"
    "unat (lease_gateway (make_lease simple i subnet ps)) = 183500800 + 4 * unat subnet + 1"
proof -
  have "unat (ucast subnet :: u32) = unat subnet"
    using assms by (simp add: unsigned_ucast_eq take_bit_nat_eq_self)
  then show "unat (lease_guest_ip (make_lease simple i subnet ps)) = 183500800 + 4 * unat subnet + 2"
    "unat (lease_gateway (make_lease simple i subnet ps)) = 183500800 + 4 * unat subnet + 1"
    using assms by (simp_all add: make_lease_def Let_def unat_word_ariths)
qed

lemma leases_ok_addresses:
  assumes ok: "leases_ok simple s L"
  shows "distinct (map lease_guest_ip L) \<and> distinct (concat (map lease_keys L)) \<and>
    (\<forall>lease \<in> set L. 10 * 2 ^ 24 + 240 * 2 ^ 16 \<le> unat (lease_gateway lease) \<and>
       unat (lease_guest_ip lease) = unat (lease_gateway lease) + 1 \<and>
       unat (lease_gateway lease) div 4 = unat (lease_guest_ip lease) div 4 \<and>
       unat (lease_guest_ip lease) < 10 * 2 ^ 24 + 241 * 2 ^ 16)"
proof -
  have ip: "unat (lease_guest_ip x) = 183500800 + 4 * unat (lease_subnet x) + 2"
    "unat (lease_gateway x) = 183500800 + 4 * unat (lease_subnet x) + 1"
    "unat (lease_subnet x) < 16384" if "x \<in> set L" for x
    using ok that guest_ip_unat [of "lease_subnet x" simple] unfolding leases_ok_def by metis+
  have "inj_on lease_guest_ip (set L)"
  proof (rule inj_onI)
    fix x y
    assume xy: "x \<in> set L" "y \<in> set L" "lease_guest_ip x = lease_guest_ip y"
    then have "unat (lease_subnet x) = unat (lease_subnet y)" using ip(1) [of x] ip(1) [of y] by simp
    then have "lease_subnet x = lease_subnet y" by (simp add: word_unat_eq_iff)
    then show "x = y" using ok xy(1,2) by (auto simp: leases_ok_def distinct_map dest: inj_onD)
  qed
  then have "distinct (map lease_guest_ip L)"
    using ok by (simp add: leases_ok_def distinct_map)
  moreover have "distinct (concat (map lease_keys L))" using ok by (simp add: leases_ok_def)
  moreover have "10 * 2 ^ 24 + 240 * 2 ^ 16 \<le> unat (lease_gateway x) \<and>
       unat (lease_guest_ip x) = unat (lease_gateway x) + 1 \<and>
       unat (lease_gateway x) div 4 = unat (lease_guest_ip x) div 4 \<and>
       unat (lease_guest_ip x) < 10 * 2 ^ 24 + 241 * 2 ^ 16" if "x \<in> set L" for x
    using ip [OF that] by simp
  ultimately show ?thesis by blast
qed

subsection \<open>The allocator as a transition system\<close>

interpretation net: invariant_system net_initial "net_step simple" "\<lambda>(s, L). leases_ok simple s L"
  for simple
proof (unfold_locales, goal_cases)
  case (1 s)
  then show ?case
    by (auto simp: net_initial_def network_start_def leases_ok_def cursors_valid_def subnet_valid_def
        port_valid_def port_range)
next
  case (2 s t)
  from 2(2) show ?case
  proof (cases rule: net_step.cases)
    case (reserved av specs s0 subnet ps s' L i)
    have ok: "leases_ok simple s0 L" using 2(1) reserved by simp
    then have "cursors_valid s0" by (simp add: leases_ok_def)
    from reserve_lease_spec [OF reserved(3) this] ok show ?thesis
      unfolding reserved by (auto simp: leases_ok_def)
  next
    case (refused av specs s0 s' L)
    have ok: "leases_ok simple s0 L" using 2(1) refused by simp
    then have "cursors_valid s0" by (simp add: leases_ok_def)
    from reserve_lease_spec [OF refused(3) this] ok show ?thesis
      unfolding refused by (auto simp: leases_ok_def)
  next
    case (released lease L s0)
    then show ?thesis using 2(1) leases_ok_release by auto
  qed
qed

end
