(* ===== verification/Node_Network_Properties.thy ===== *)
theory Node_Network_Properties
  imports Node_Network_Facts
begin

section \<open>What the network allocator guarantees\<close>

text \<open>C27: in every run of the allocator, with any interleaving of reservations, failed setups and
  releases, the virtual machines that hold a lease have different guest addresses, all inside
  10.240.0.0/16 with the gateway one below in the same /30, and no host port of a protocol is
  published twice.\<close>

theorem leases_are_disjoint:
  assumes "reachable net_initial (net_step simple) (s, L)"
  shows "distinct (map lease_guest_ip L) \<and> distinct (concat (map lease_keys L)) \<and>
    (\<forall>lease \<in> set L. 10 * 2 ^ 24 + 240 * 2 ^ 16 \<le> unat (lease_gateway lease) \<and>
       unat (lease_guest_ip lease) = unat (lease_gateway lease) + 1 \<and>
       unat (lease_gateway lease) div 4 = unat (lease_guest_ip lease) div 4 \<and>
       unat (lease_guest_ip lease) < 10 * 2 ^ 24 + 241 * 2 ^ 16)"
proof -
  have "leases_ok simple s L" using net.reachable_inv [OF assms] by simp
  then show ?thesis by (rule leases_ok_addresses)
qed

lemma find_subnet_first:
  "0 < n \<Longrightarrow> next_subnet s \<notin> used_subnets s \<Longrightarrow>
   find_subnet n s = (Some (next_subnet s), s\<lparr>next_subnet := (next_subnet s + 1) mod 16384\<rparr>)"
  by (cases n) (simp_all add: Let_def)

theorem leases_are_disjoint_witness:
  "distinct (map lease_guest_ip
     [make_lease (\<lambda>_. replicate 32 CHR ''0'') 2 1 [], make_lease (\<lambda>_. replicate 32 CHR ''0'') 1 0 []])"
proof -
  let ?f = "\<lambda>_ :: uuid. replicate 32 CHR ''0''"
  let ?s1 = "network_start\<lparr>next_subnet := 1, used_subnets := {0}\<rparr>"
  let ?s2 = "network_start\<lparr>next_subnet := 2, used_subnets := {1, 0}\<rparr>"
  have r1: "reserve_lease (\<lambda>_ _. True) [] network_start = (Some (0, []), ?s1)"
    by (simp add: reserve_lease_def network_start_def find_subnet_first)
  have r2: "reserve_lease (\<lambda>_ _. True) [] ?s1 = (Some (1, []), ?s2)"
    by (simp add: reserve_lease_def network_start_def find_subnet_first)
  have "reachable net_initial (net_step ?f) (network_start, [])"
    by (rule reachable_initial) (simp add: net_initial_def)
  then have "reachable net_initial (net_step ?f) (?s1, [make_lease ?f 1 0 []])"
    by (rule reachable_step) (rule net_step.reserved [OF r1])
  then have "reachable net_initial (net_step ?f) (?s2, [make_lease ?f 2 1 [], make_lease ?f 1 0 []])"
    by (rule reachable_step) (rule net_step.reserved [OF r2])
  then show ?thesis using leases_are_disjoint by blast
qed


text \<open>A request is served: its fixed port is free, or some port of the dynamic range is.\<close>

definition port_possible ::
    "(port_protocol \<Rightarrow> u16 \<Rightarrow> bool) \<Rightarrow> (port_protocol \<times> u16) set \<Rightarrow> port_spec \<Rightarrow> bool" where
  "port_possible available taken spec \<longleftrightarrow>
     (case port_host_port spec of
        Some p \<Rightarrow> (port_protocol spec, p) \<notin> taken \<and> available (port_protocol spec) p
      | None \<Rightarrow> \<exists>p. PORT_START \<le> p \<and> p \<le> PORT_END \<and> (port_protocol spec, p) \<notin> taken \<and>
          available (port_protocol spec) p)"

lemma reserve_ports_refused:
  assumes "reserve_ports av specs s = (None, s')" "cursors_valid s"
  shows "\<exists>spec \<in> set specs. \<not> port_possible av (used_ports s') spec"
  using assms
proof (induction specs arbitrary: s)
  case (Cons spec specs)
  obtain h s1 where h: "host_port av spec s = (h, s1)" by fastforce
  note f = host_port_frame [OF h]
  show ?case
  proof (cases h)
    case None
    then have "s' = s1" using Cons.prems(1) h by simp
    then have "\<not> port_possible av (used_ports s') spec"
      using host_port_none [of av spec s s1] h None Cons.prems(2) f(2)
      by (auto simp: port_possible_def split: option.splits)
    then show ?thesis by simp
  next
    case (Some p)
    let ?s1 = "s1\<lparr>used_ports := insert (port_protocol spec, p) (used_ports s1)\<rparr>"
    have "cursors_valid ?s1"
      using f(3) Cons.prems(2) by (simp add: cursors_valid_def subnet_valid_def port_valid_def)
    moreover have "reserve_ports av specs ?s1 = (None, s')"
      using Cons.prems(1) h Some by (auto split: option.splits prod.splits)
    ultimately show ?thesis using Cons.IH by auto
  qed
qed simp

text \<open>C28: in every run, a reservation is refused only when all 16384 subnets are leased, or some
  requested port cannot be had: the fixed one is taken or cannot be bound, or every port from 30000
  to 49999 is.\<close>

theorem refused_only_when_exhausted:
  assumes "reachable net_initial (net_step simple) (s, L)"
    and "reserve_lease av specs s = (None, s')"
  shows "(\<forall>k. unat k < 16384 \<longrightarrow> k \<in> set (map lease_subnet L)) \<or>
    (\<exists>spec \<in> set specs. \<not> port_possible av (used_ports s') spec)"
proof -
  have ok: "leases_ok simple s L" using net.reachable_inv [OF assms(1)] by simp
  then have v: "cursors_valid s" by (simp add: leases_ok_def)
  obtain k s1 where k: "find_subnet 16384 s = (k, s1)" by fastforce
  note f = find_subnet_frame [of 16384 s, unfolded k snd_conv]
  show ?thesis
  proof (cases k)
    case None
    have "j \<in> set (map lease_subnet L)" if "unat j < 16384" for j
      using subnets.search_exhausted [of s s1 "unat j"] v k None that ok
      by (auto simp: cursors_valid_def leases_ok_def)
    then show ?thesis by blast
  next
    case (Some subnet)
    have "cursors_valid s1"
      using subnets.search_valid [of s 16384] v k f by (simp add: cursors_valid_def port_valid_def)
    moreover have "reserve_ports av specs s1 = (None, s')"
      using assms(2) k Some by (auto simp: reserve_lease_def split: option.splits prod.splits)
    ultimately show ?thesis using reserve_ports_refused by blast
  qed
qed

subsection \<open>A refused reservation keeps ports\<close>

definition two_ports :: "port_spec list" where
  "two_ports =
     [\<lparr>port_name = ''a'', port_guest_port = 80, port_host_port = Some 8080, port_protocol = Tcp\<rparr>,
      \<lparr>port_name = ''b'', port_guest_port = 81, port_host_port = Some 22, port_protocol = Tcp\<rparr>]"

lemma two_ports_refused:
  "reserve_lease (\<lambda>_ p. p \<noteq> 22) two_ports network_start
     = (None, network_start\<lparr>next_subnet := 1, used_ports := {(Tcp, 8080)}\<rparr>)"
  by (simp add: reserve_lease_def network_start_def find_subnet_first two_ports_def host_port_def)

theorem refused_only_when_exhausted_witness:
  "\<exists>spec \<in> set two_ports. \<not> port_possible (\<lambda>_ p. p \<noteq> 22) {(Tcp, 8080)} spec"
proof -
  let ?f = "\<lambda>_ :: uuid. replicate 32 CHR ''0''"
  have "reachable net_initial (net_step ?f) (network_start, [])"
    by (rule reachable_initial) (simp add: net_initial_def)
  from refused_only_when_exhausted [OF this two_ports_refused]
  have "(\<forall>k. unat k < 16384 \<longrightarrow> k \<in> set (map lease_subnet [])) \<or>
      (\<exists>spec \<in> set two_ports. \<not> port_possible (\<lambda>_ p. p \<noteq> 22) {(Tcp, 8080)} spec)" by simp
  moreover have "\<not> (\<forall>k :: u16. unat k < 16384 \<longrightarrow> k \<in> set (map lease_subnet []))"
    by (auto intro: exI [of _ 0])
  ultimately show ?thesis by blast
qed

text \<open>Ports that no lease holds but the set of taken ports contains.\<close>

definition leaked :: "network_state \<times> network_lease list \<Rightarrow> (port_protocol \<times> u16) set" where
  "leaked = (\<lambda>(s, L). used_ports s - set (concat (map lease_keys L)))"

lemma leak_step:
  assumes "leases_ok simple s L" "net_step simple (s, L) (s', L')"
  shows "leaked (s, L) \<subseteq> leaked (s', L')"
proof -
  have v: "cursors_valid s" using assms(1) by (simp add: leases_ok_def)
  from assms(2) show ?thesis
  proof (cases rule: net_step.cases)
    case (reserved av specs subnet ps i)
    then show ?thesis using reserve_lease_spec [OF reserved(2) v] by (auto simp: leaked_def)
  next
    case (refused av specs)
    then show ?thesis using reserve_lease_spec [OF refused(2) v] by (auto simp: leaked_def)
  next
    case (released lease)
    have "set (lease_keys lease) \<subseteq> set (concat (map lease_keys L))" using released(3) by auto
    moreover have "set (concat (map lease_keys (remove1 lease L))) \<subseteq> set (concat (map lease_keys L))"
      using set_remove1_subset [of lease L] by auto
    moreover have "set (map (\<lambda>p. (pub_protocol p, pub_host_port p)) (lease_ports lease))
        = set (lease_keys lease)"
      by (simp add: lease_keys_def port_key_def)
    ultimately show ?thesis
      unfolding released leaked_def by (auto simp: release_lease_def)
  qed
qed

text \<open>
  The first port of the refused request above stays taken for ever, though no virtual machine holds
  it: no later step of the allocator gives it back.
\<close>

lemma failed_allocation_leaks_port:
  assumes "reachable (\<lambda>x. x = (network_start\<lparr>next_subnet := 1, used_ports := {(Tcp, 8080)}\<rparr>, []))
    (net_step simple) (s, L)"
  shows "(Tcp, 8080) \<in> used_ports s \<and> (Tcp, 8080) \<notin> set (concat (map lease_keys L))"
proof -
  let ?init = "\<lambda>x. x = (network_start\<lparr>next_subnet := 1, used_ports := {(Tcp, 8080)}\<rparr>, [])"
  have "leases_ok simple (fst x) (snd x) \<and> (Tcp, 8080) \<in> leaked x"
    if "reachable ?init (net_step simple) x" for x
    using that
  proof (induction rule: reachable.induct)
    case (reachable_initial x)
    then show ?case
      by (simp add: leases_ok_def leaked_def network_start_def cursors_valid_def subnet_valid_def
          port_valid_def port_range)
  next
    case (reachable_step x y)
    obtain s L s' L' where xy: "x = (s, L)" "y = (s', L')" by (metis surj_pair)
    have "leases_ok simple s' L'"
      using net.inv_step [of simple x y] reachable_step xy by simp
    then show ?case using leak_step reachable_step xy by fastforce
  qed
  from this [OF assms] show ?thesis by (simp add: leaked_def)
qed

end
