(* ===== verification/Node_Vms_Properties.thy ===== *)
theory Node_Vms_Properties
  imports Node_Vms
begin

section \<open>What the machines of a node are taken for\<close>

subsection \<open>Taking an idle machine\<close>

text \<open>An execution whose instance is larger than the node is refused; otherwise it takes, out of
  the idle machines of its own pool, one that was used last, and no other machine changes hands; a
  new machine has to be started only when the pool has no idle one.\<close>

theorem acquire_takes_latest:
  "case vm_acquire p s of
     (Inl _, s') \<Rightarrow> too_large p s \<and> s' = s
   | (Inr None, s') \<Rightarrow> \<not> too_large p s \<and> s' = add_active p s \<and>
       (\<forall>vm \<in> set (idle_vms s). pool_name (live_pool vm) \<noteq> pool_name p)
   | (Inr (Some vm), s') \<Rightarrow> \<not> too_large p s \<and> pool_name (live_pool vm) = pool_name p \<and>
       (\<forall>x \<in> set (idle_vms s). pool_name (live_pool x) = pool_name p \<longrightarrow>
          live_last_used x \<le> live_last_used vm) \<and>
       mset (idle_vms s) = add_mset vm (mset (idle_vms s')) \<and> running_vms s' = running_vms s"
  by (rule vm_acquire_spec)

text \<open>Two idle machines of a pool, the second used last.\<close>

definition demo_instance :: pool where
  "demo_instance =
     \<lparr>pool_name = ''p'', pool_image = 1, pool_warm_instances = 0, pool_max_instances = None,
      pool_cpu_millis = 1000, pool_memory_mib = 256, pool_disk_mib = 0, pool_timeout_secs = 30,
      pool_idle_timeout_secs = 60, pool_reuse = True, pool_network = False, pool_ports = [],
      pool_managed_by = None, pool_environment = None, pool_environment_artifact = None,
      pool_preload = []\<rparr>"

definition demo_vm :: "uuid \<Rightarrow> nat \<Rightarrow> live_vm" where
  "demo_vm i t =
     \<lparr>live_id = i, live_pool = demo_instance, live_pid = None, live_network = None,
      live_functions = {}, live_working_dirs = {}, live_last_used = t\<rparr>"

definition demo_vms :: vm_state where
  "demo_vms =
     \<lparr>idle_vms = [demo_vm 1 3, demo_vm 2 7], running_vms = [], active_cpu_millis = 0,
      active_memory_mib = 0, state_cpu_millis = 4000, state_memory_mib = 1024\<rparr>"

theorem acquire_takes_latest_witness:
  "case vm_acquire demo_instance demo_vms of
     (Inr (Some vm), s') \<Rightarrow> vm = demo_vm 2 7 \<and> live_last_used (demo_vm 1 3) \<le> live_last_used vm \<and>
       add_mset vm (mset (idle_vms s')) = {#demo_vm 1 3, demo_vm 2 7#}
   | _ \<Rightarrow> False"
proof -
  have "vm_acquire demo_instance demo_vms
      = (Inr (Some (demo_vm 2 7)), (add_active demo_instance demo_vms)\<lparr>idle_vms := [demo_vm 1 3]\<rparr>)"
    by (simp add: vm_acquire_def too_large_def demo_vms_def demo_vm_def demo_instance_def
        add_active_def saturating_add_def swap_remove_def Let_def)
  with acquire_takes_latest [of demo_instance demo_vms] show ?thesis
    by (simp add: demo_vms_def demo_vm_def)
qed

subsection \<open>Starting machines\<close>

text \<open>C29: in every run of the limiter, with any tasks starting machines, finishing, and any changes
  of the limit, the machines being started are counted exactly, a task gets a permit only when that
  stays within the current limit, and no task waits for ever beside a free permit: when tasks wait and
  none is on its way, all permits are in use.\<close>

theorem starts_within_limit:
  assumes "reachable start_initial start_step s" "start_step s t"
  shows "unat (lim_active (st_limiter t)) = st_held t \<and>
    (st_held s < st_held t \<longrightarrow> st_held t \<le> unat (lim_limit (st_limiter t))) \<and>
    (0 < st_waiting t \<longrightarrow> st_notified t = 0 \<longrightarrow> unat (lim_limit (st_limiter t)) \<le> st_held t)"
proof -
  have ok: "start_ok s" by (rule starts.reachable_inv [OF assms(1)])
  have "start_ok t" by (rule starts.inv_step [OF ok assms(2)])
  moreover have "st_held t \<le> unat (lim_limit (st_limiter t))" if "st_held s < st_held t"
    using assms(2)
  proof (cases rule: start_step.cases)
    case arrive
    with ok that show ?thesis by (cases rule: look_cases [OF ok]) (auto split: if_splits)
  next
    case retry
    then show ?thesis
      using ok that
      by (auto simp: look_def try_acquire_def start_ok_def word_less_nat_alt split: prod.splits if_splits)
  next
    case finish
    then show ?thesis using that by (auto simp: return_permit_def Let_def split: if_splits)
  next
    case (limit l)
    then show ?thesis using that by (auto simp: change_limit_def split: prod.splits bool.splits)
  qed
  ultimately show ?thesis by (auto simp: start_ok_def)
qed

theorem starts_within_limit_witness:
  "st_held (look \<lparr>st_limiter = limiter_new 0, st_held = 0, st_waiting = 0, st_notified = 0, st_token = False\<rparr>)
     \<le> unat (lim_limit (limiter_new 0))"
proof -
  let ?s = "\<lparr>st_limiter = limiter_new 0, st_held = 0, st_waiting = 0, st_notified = 0, st_token = False\<rparr>"
  have "reachable start_initial start_step ?s"
    by (rule reachable_initial) (auto simp: start_initial_def)
  from starts_within_limit [OF this start_step.arrive]
  show ?thesis by (simp add: look_def try_acquire_def limiter_new_def)
qed

subsection \<open>Reports\<close>

text \<open>What a heartbeat reports: every idle and every running machine once, in the order of their
  identifiers.\<close>

lemma reports_complete:
  "sorted (map vm_id (reports s)) \<and> mset (reports s)
     = mset (map (\<lambda>vm. vm_report vm (live_pool vm) VmIdle None) (idle_vms s)) + mset (hm_values (running_vms s))"
  by (simp add: reports_def)

lemma default_concurrency:
  "unat (default_vm_start_concurrency cpu) = max (unat cpu div 2000) 1"
proof -
  have "unat (max (cpu div 2000) 1) = max (unat cpu div 2000) 1"
    by (simp add: max_def word_le_nat_alt unat_div)
  moreover have "unat (ucast (x :: u32) :: usize) = unat x" for x
    using unsigned_less [of x, where 'a = nat] by (simp add: unsigned_ucast_eq take_bit_nat_eq_self)
  ultimately show ?thesis by (simp add: default_vm_start_concurrency_def)
qed

end
