(* ===== verification/Text_Lines.thy ===== *)
theory Text_Lines
  imports Text
begin

section \<open>Lines of a text\<close>

text \<open>
  \<open>str::lines\<close>, with \<open>find_map\<close> over it, as \<open>platform/src/node.rs\<close> and \<open>platform/src/join.rs\<close> read
  small files: a line ends at a line feed, a carriage return before it belongs to the line end, and
  the text after the last line feed is a line unless it is empty.
\<close>

definition LF :: char where
  "LF = CHR 0x0A"

definition CR :: char where
  "CR = CHR 0x0D"

definition strip_cr :: "string \<Rightarrow> string" where
  "strip_cr l = (if l \<noteq> [] \<and> last l = CR then butlast l else l)"

function split_lines :: "string \<Rightarrow> string list" where
  "split_lines s =
     (if s = [] then []
      else case dropWhile (\<lambda>c. c \<noteq> LF) s of
        [] \<Rightarrow> [s]
      | _ # rest \<Rightarrow> strip_cr (takeWhile (\<lambda>c. c \<noteq> LF) s) # split_lines rest)"
  by auto
termination
proof (relation "measure length", goal_cases)
  case (2 s c rest)
  then have "length (c # rest) \<le> length s" by (metis length_dropWhile_le)
  then show ?case by simp
qed simp

declare split_lines.simps [simp del]

fun find_map :: "('a \<Rightarrow> 'b option) \<Rightarrow> 'a list \<Rightarrow> 'b option" where
  "find_map f [] = None"
| "find_map f (x # xs) = (case f x of Some y \<Rightarrow> Some y | None \<Rightarrow> find_map f xs)"

text \<open>\<open>Path::join\<close> on the texts of paths.\<close>

definition path_join :: "string \<Rightarrow> string \<Rightarrow> string" where
  "path_join d n =
     (if n \<noteq> [] \<and> hd n = CHR ''/'' then n
      else if d = [] \<or> last d = CHR ''/'' then d @ n else d @ ''/'' @ n)"

text \<open>Lines joined by line feeds.\<close>

fun join_lines :: "string list \<Rightarrow> string" where
  "join_lines [] = []"
| "join_lines [l] = l"
| "join_lines (l # m # ls) = l @ LF # join_lines (m # ls)"

definition plain_line :: "string \<Rightarrow> bool" where
  "plain_line l \<longleftrightarrow> LF \<notin> set l \<and> (l \<noteq> [] \<longrightarrow> last l \<noteq> CR)"

lemma split_lines_Nil [simp]: "split_lines [] = []"
  by (simp add: split_lines.simps)

lemma split_lines_last: "LF \<notin> set l \<Longrightarrow> l \<noteq> [] \<Longrightarrow> split_lines l = [l]"
proof -
  assume l: "LF \<notin> set l" "l \<noteq> []"
  then have "dropWhile (\<lambda>c. c \<noteq> LF) l = []" by (auto simp: dropWhile_eq_Nil_conv)
  then show ?thesis using l(2) by (subst split_lines.simps) (simp only: list.case if_False)
qed

lemma split_lines_Cons: "plain_line l \<Longrightarrow> split_lines (l @ LF # s) = l # split_lines s"
proof -
  assume l: "plain_line l"
  then have "dropWhile (\<lambda>c. c \<noteq> LF) (l @ LF # s) = LF # s" "takeWhile (\<lambda>c. c \<noteq> LF) (l @ LF # s) = l"
    by (auto simp: plain_line_def dropWhile_append takeWhile_append)
  with l show ?thesis by (subst split_lines.simps) (auto simp: strip_cr_def plain_line_def)
qed

lemma split_join:
  assumes "\<forall>l \<in> set ls. plain_line l" "ls \<noteq> []" "last ls \<noteq> []"
  shows "split_lines (join_lines ls) = ls"
  using assms
proof (induction ls rule: join_lines.induct)
  case (2 l)
  then show ?case by (simp add: split_lines_last plain_line_def)
next
  case (3 l m ls)
  then show ?case by (simp add: split_lines_Cons)
qed simp

lemma find_map_append:
  "find_map f (xs @ ys) = (case find_map f xs of Some y \<Rightarrow> Some y | None \<Rightarrow> find_map f ys)"
  by (induction xs) (auto split: option.splits)

lemma find_map_None: "find_map f xs = None \<longleftrightarrow> (\<forall>x \<in> set xs. f x = None)"
  by (induction xs) (auto split: option.splits)

end
