(* ===== verification/Node_Metrics.thy ===== *)
theory Node_Metrics
  imports Cluster_Types Text_Lines Decimal
begin

section \<open>Measuring an execution\<close>

text \<open>
  The control group of a virtual machine and the metrics of an execution in
  \<open>platform/src/node.rs\<close>. The floating-point arithmetic is a parameter: \<open>percent a b\<close> is
  \<open>a * 100 / b\<close> clamped to 0..100, \<open>cpu_ratio\<close> the same for the processor time, \<open>fmax\<close> is
  \<open>f32::max\<close>; \<open>0.0\<close> is the bit pattern 0.
\<close>

record vm_counters =
  cpu_usage_usec :: u64
  memory_bytes :: u64

record float_ops =
  cpu_ratio :: "u64 \<Rightarrow> u64 \<Rightarrow> u32 \<Rightarrow> f32"
  percent :: "u64 \<Rightarrow> u64 \<Rightarrow> f32"
  fmax :: "f32 \<Rightarrow> f32 \<Rightarrow> f32"

subsection \<open>The control group\<close>

definition u64_max :: nat where
  "u64_max = 2 ^ 64 - 1"

definition parse_cpu_stat :: "string \<Rightarrow> u64" where
  "parse_cpu_stat cpu =
     (case Option.bind (find_map (strip_prefix ''usage_usec '') (split_lines cpu)) (parse_unsigned u64_max) of
        Some n \<Rightarrow> word_of_nat n | None \<Rightarrow> 0)"

definition parse_number :: "string \<Rightarrow> u64 option" where
  "parse_number s = map_option word_of_nat (parse_unsigned u64_max (trim s))"

text \<open>The two files of the group as they are read, \<open>None\<close> when a read fails.\<close>

definition read_vm_counters :: "string option \<Rightarrow> string option \<Rightarrow> vm_counters option" where
  "read_vm_counters cpu memory =
     (case cpu of
        None \<Rightarrow> None
      | Some c \<Rightarrow>
        (case Option.bind memory parse_number of
           None \<Rightarrow> None
         | Some m \<Rightarrow> Some \<lparr>cpu_usage_usec = parse_cpu_stat c, memory_bytes = m\<rparr>))"

text \<open>The files that \<open>attach_cgroup\<close> writes, in order.\<close>

definition cgroup_writes :: "u32 \<Rightarrow> pool \<Rightarrow> (string \<times> string) list" where
  "cgroup_writes pid p =
     [(''cpu.max'', decimal (unat ((ucast (pool_cpu_millis p) :: u64) * 100)) @ '' 100000''),
      (''memory.max'', decimal (unat (((ucast (pool_memory_mib p) :: u64) + 128) * 1024 * 1024))),
      (''pids.max'', ''64''),
      (''cgroup.procs'', decimal (unat pid))]"

subsection \<open>Samples\<close>

definition cpu_percent :: "float_ops \<Rightarrow> u64 \<Rightarrow> u64 \<Rightarrow> u32 \<Rightarrow> f32" where
  "cpu_percent fo cpu elapsed cpu_millis =
     (if elapsed = 0 \<or> cpu_millis = 0 then 0 else cpu_ratio fo cpu elapsed cpu_millis)"

definition memory_percent :: "float_ops \<Rightarrow> u64 \<Rightarrow> u32 \<Rightarrow> f32" where
  "memory_percent fo bytes memory_mib =
     percent fo bytes ((ucast (memory_mib + 128) :: u64) * 1024 * 1024)"

definition metric_point :: "float_ops \<Rightarrow> u64 \<Rightarrow> f32 \<Rightarrow> u64 \<Rightarrow> pool \<Rightarrow> execution_metric_point" where
  "metric_point fo elapsed cpu bytes p =
     \<lparr>point_elapsed_ms = elapsed, point_cpu_percent = cpu,
      point_memory_percent = memory_percent fo bytes (pool_memory_mib p)\<rparr>"

text \<open>\<open>step_by(2)\<close>: every second element, with the first.\<close>

fun step_by_2 :: "'a list \<Rightarrow> 'a list" where
  "step_by_2 [] = []"
| "step_by_2 [x] = [x]"
| "step_by_2 (x # y # xs) = x # step_by_2 xs"

definition push_metric_sample ::
    "float_ops \<Rightarrow> vm_counters \<Rightarrow> vm_counters \<Rightarrow> u64 \<Rightarrow> u64 \<Rightarrow> pool \<Rightarrow> execution_metric_point list \<Rightarrow>
     execution_metric_point list" where
  "push_metric_sample fo before after before_elapsed elapsed p samples =
     (if 1000 \<le> length samples then step_by_2 samples else samples) @
     [metric_point fo (elapsed div 1000)
        (cpu_percent fo (saturating_sub (cpu_usage_usec after) (cpu_usage_usec before))
          (saturating_sub elapsed before_elapsed) (pool_cpu_millis p))
        (memory_bytes after) p]"

definition execution_metrics_of ::
    "float_ops \<Rightarrow> vm_counters \<Rightarrow> vm_counters \<Rightarrow> u64 \<Rightarrow> 128 word \<Rightarrow> u64 \<Rightarrow>
     execution_metric_point list \<Rightarrow> pool \<Rightarrow> execution_metrics" where
  "execution_metrics_of fo before after wall bytes n samples p =
     \<lparr>metrics_average_cpu_percent =
        cpu_percent fo (saturating_sub (cpu_usage_usec after) (cpu_usage_usec before)) wall (pool_cpu_millis p),
      metrics_average_memory_percent =
        memory_percent fo (ucast (bytes div ucast n)) (pool_memory_mib p),
      metrics_peak_memory_percent = fold (\<lambda>x m. fmax fo m (point_memory_percent x)) samples 0,
      metrics_samples = samples\<rparr>"

text \<open>The variables of the sampling loop of \<open>run_execution\<close>, its start and one reading.\<close>

record sampling =
  smp_previous :: vm_counters
  smp_elapsed :: u64
  smp_total :: "128 word"
  smp_count :: u64
  smp_samples :: "execution_metric_point list"

definition start_sampling :: "float_ops \<Rightarrow> vm_counters \<Rightarrow> pool \<Rightarrow> sampling" where
  "start_sampling fo before p =
     \<lparr>smp_previous = before, smp_elapsed = 0, smp_total = ucast (memory_bytes before), smp_count = 1,
      smp_samples = [metric_point fo 0 0 (memory_bytes before) p]\<rparr>"

definition take_sample :: "float_ops \<Rightarrow> pool \<Rightarrow> vm_counters \<times> u64 \<Rightarrow> sampling \<Rightarrow> sampling" where
  "take_sample fo p = (\<lambda>(current, elapsed) s.
     \<lparr>smp_previous = current, smp_elapsed = elapsed,
      smp_total = smp_total s + ucast (memory_bytes current), smp_count = smp_count s + 1,
      smp_samples = push_metric_sample fo (smp_previous s) current (smp_elapsed s) elapsed p (smp_samples s)\<rparr>)"

text \<open>The readings of a whole execution, the last of them when it has ended, and its metrics.\<close>

definition measure_execution ::
    "float_ops \<Rightarrow> pool \<Rightarrow> vm_counters \<Rightarrow> (vm_counters \<times> u64) list \<Rightarrow> vm_counters \<times> u64 \<Rightarrow> execution_metrics" where
  "measure_execution fo p before readings at_end =
     (let s = take_sample fo p at_end (fold (take_sample fo p) readings (start_sampling fo before p)) in
      execution_metrics_of fo before (fst at_end) (snd at_end) (smp_total s) (smp_count s) (smp_samples s) p)"

subsection \<open>What the samples satisfy\<close>

lemma set_step_by_2: "set (step_by_2 xs) \<subseteq> set xs"
  by (induction xs rule: step_by_2.induct) auto

lemma length_step_by_2: "length (step_by_2 xs) = (length xs + 1) div 2"
  by (induction xs rule: step_by_2.induct) auto

lemma hd_step_by_2: "xs \<noteq> [] \<Longrightarrow> step_by_2 xs \<noteq> [] \<and> hd (step_by_2 xs) = hd xs"
  by (induction xs rule: step_by_2.induct) auto

lemma sorted_step_by_2: "sorted (map f xs) \<Longrightarrow> sorted (map f (step_by_2 xs))"
  using set_step_by_2 by (induction xs rule: step_by_2.induct) fastforce+

definition samples_ok :: "execution_metric_point \<Rightarrow> u64 \<Rightarrow> execution_metric_point list \<Rightarrow> bool" where
  "samples_ok first elapsed xs \<longleftrightarrow> xs \<noteq> [] \<and> hd xs = first \<and> length xs \<le> 1000 \<and>
     sorted (map point_elapsed_ms xs) \<and> (\<forall>x \<in> set xs. point_elapsed_ms x \<le> elapsed div 1000)"

lemma word_div_mono: "(x :: 'a::len word) \<le> y \<Longrightarrow> x div k \<le> y div k"
  by (simp add: word_le_nat_alt unat_div div_le_mono)

lemma push_metric_sample_ok:
  assumes "samples_ok x e xs" "e \<le> e'"
  shows "samples_ok x e' (push_metric_sample fo b a b' e' p xs)"
proof -
  let ?ys = "if 1000 \<le> length xs then step_by_2 xs else xs"
  have "e div 1000 \<le> e' div 1000" using assms(2) by (rule word_div_mono)
  moreover have "point_elapsed_ms y \<le> e div 1000" if "y \<in> set ?ys" for y
    using assms(1) set_step_by_2 [of xs] that by (auto simp: samples_ok_def split: if_splits)
  ultimately have "\<forall>y \<in> set ?ys. point_elapsed_ms y \<le> e' div 1000" by (meson order_trans)
  moreover have "sorted (map point_elapsed_ms ?ys)" "?ys \<noteq> []" "hd ?ys = x" "length ?ys < 1000"
    using assms(1) hd_step_by_2 [of xs] by (auto simp: samples_ok_def sorted_step_by_2 length_step_by_2)
  ultimately show ?thesis
    by (auto simp: samples_ok_def push_metric_sample_def metric_point_def sorted_append)
qed

definition times_ok :: "u64 \<Rightarrow> (vm_counters \<times> u64) list \<Rightarrow> bool" where
  "times_ok t rs \<longleftrightarrow> sorted (t # map snd rs)"

definition total_memory :: "vm_counters \<Rightarrow> (vm_counters \<times> u64) list \<Rightarrow> nat" where
  "total_memory before rs = sum_list (map (\<lambda>c. unat (memory_bytes c)) (before # map fst rs))"

lemma sampling_ok:
  assumes "samples_ok x (smp_elapsed s) (smp_samples s)" "times_ok (smp_elapsed s) rs"
  shows "samples_ok x (last (smp_elapsed s # map snd rs)) (smp_samples (fold (take_sample fo p) rs s))"
  using assms
proof (induction rs arbitrary: s)
  case (Cons r rs)
  obtain c e where r: "r = (c, e)" by (cases r)
  let ?s = "take_sample fo p r s"
  have "samples_ok x (smp_elapsed ?s) (smp_samples ?s)"
    using Cons.prems push_metric_sample_ok by (simp add: take_sample_def r times_ok_def)
  moreover have "times_ok (smp_elapsed ?s) rs"
    using Cons.prems(2) by (simp add: take_sample_def r times_ok_def)
  ultimately show ?case using Cons.IH [of ?s] by (simp add: take_sample_def r)
qed simp

lemma sampling_totals:
  "smp_count (fold (take_sample fo p) rs s) = smp_count s + word_of_nat (length rs)"
  "smp_total (fold (take_sample fo p) rs s)
     = smp_total s + word_of_nat (sum_list (map (\<lambda>r. unat (memory_bytes (fst r))) rs))"
proof (induction rs arbitrary: s)
  case (Cons r rs)
  { case 1 show ?case using Cons.IH(1) by (simp add: take_sample_def split_def) }
  { case 2 show ?case using Cons.IH(2)
      by (simp add: take_sample_def split_def unsigned_ucast_eq) }
qed simp_all

lemma sum_list_bounded: "(\<And>x. x \<in> set xs \<Longrightarrow> f x \<le> (k :: nat)) \<Longrightarrow> sum_list (map f xs) \<le> length xs * k"
  by (induction xs) (simp_all add: add_mono)

lemma total_memory_le: "total_memory before rs \<le> (length rs + 1) * (2 ^ 64 - 1)"
proof -
  have "unat (memory_bytes c) \<le> 2 ^ 64 - 1" for c
    using unsigned_less [of "memory_bytes c", where 'a = nat] by simp
  then have "total_memory before rs \<le> length (before # map fst rs) * (2 ^ 64 - 1)"
    unfolding total_memory_def by (rule sum_list_bounded)
  then show ?thesis by simp
qed

text \<open>C34: whatever the control group reports, between 1 and 1000 samples of an execution are kept,
  the first is the one of the start, and they are in the order of time as long as the clock does not
  run backwards; the average is that of the exact sum of all readings, without overflow.\<close>

theorem metrics_are_bounded:
  assumes "times_ok 0 (readings @ [at_end])" "length readings + 2 < 2 ^ 64"
  shows "metrics_samples (measure_execution fo p before readings at_end) \<noteq> [] \<and>
    length (metrics_samples (measure_execution fo p before readings at_end)) \<le> 1000 \<and>
    hd (metrics_samples (measure_execution fo p before readings at_end))
      = metric_point fo 0 0 (memory_bytes before) p \<and>
    sorted (map point_elapsed_ms (metrics_samples (measure_execution fo p before readings at_end))) \<and>
    metrics_average_memory_percent (measure_execution fo p before readings at_end)
      = memory_percent fo (word_of_nat (total_memory before (readings @ [at_end]) div (length readings + 2)))
          (pool_memory_mib p)"
proof -
  let ?rs = "readings @ [at_end]"
  let ?s0 = "start_sampling fo before p"
  define s where "s = fold (take_sample fo p) ?rs ?s0"
  let ?first = "metric_point fo 0 0 (memory_bytes before) p"
  have "samples_ok ?first (smp_elapsed ?s0) (smp_samples ?s0)"
    by (simp add: samples_ok_def start_sampling_def metric_point_def)
  moreover have "times_ok (smp_elapsed ?s0) ?rs" using assms(1) by (simp add: start_sampling_def)
  ultimately have "samples_ok ?first (last (smp_elapsed ?s0 # map snd ?rs)) (smp_samples s)"
    unfolding s_def by (rule sampling_ok)
  then have samples: "smp_samples s \<noteq> []" "length (smp_samples s) \<le> 1000" "hd (smp_samples s) = ?first"
      "sorted (map point_elapsed_ms (smp_samples s))"
    by (simp_all add: samples_ok_def)
  have n: "unat (smp_count s) = length readings + 2"
    using assms(2) by (simp add: s_def sampling_totals start_sampling_def unat_word_ariths unat_of_nat del: fold_append)
  let ?total = "total_memory before ?rs"
  have "?total \<le> (length readings + 2) * (2 ^ 64 - 1)"
    using total_memory_le [of before ?rs] by simp
  also have "\<dots> < 2 ^ 64 * 2 ^ 64" using assms(2) by (intro mult_strict_mono) simp_all
  finally have "?total < 2 ^ LENGTH(128)" by simp
  moreover have "smp_total s = word_of_nat ?total"
    by (simp add: s_def sampling_totals start_sampling_def total_memory_def comp_def unsigned_ucast_eq del: fold_append)
  ultimately have "unat (smp_total s) = ?total" by (simp add: unat_of_nat)
  moreover have "unat (ucast (smp_count s) :: 128 word) = length readings + 2"
    using assms(2) by (simp add: unsigned_ucast_eq n take_bit_nat_eq_self)
  ultimately have "unat (smp_total s div ucast (smp_count s)) = ?total div (length readings + 2)"
    by (simp add: unat_div)
  then have average: "(ucast (smp_total s div ucast (smp_count s)) :: u64)
      = word_of_nat (?total div (length readings + 2))"
    by (metis of_nat_unat)
  have "measure_execution fo p before readings at_end
      = execution_metrics_of fo before (fst at_end) (snd at_end) (smp_total s) (smp_count s) (smp_samples s) p"
    by (simp add: measure_execution_def Let_def s_def)
  then show ?thesis using samples average by (simp add: execution_metrics_of_def)
qed

theorem metrics_are_bounded_witness:
  "metrics_average_memory_percent
     (measure_execution \<lparr>cpu_ratio = (\<lambda>c e m. 0), percent = (\<lambda>b l. ucast b), fmax = max\<rparr>
       \<lparr>pool_name = ''a'', pool_image = 1, pool_warm_instances = 0, pool_max_instances = None,
        pool_cpu_millis = 500, pool_memory_mib = 256, pool_disk_mib = 0, pool_timeout_secs = 60,
        pool_idle_timeout_secs = 0, pool_reuse = False, pool_network = False, pool_ports = [],
        pool_managed_by = None, pool_environment = None, pool_environment_artifact = None,
        pool_preload = []\<rparr>
       \<lparr>cpu_usage_usec = 5, memory_bytes = 10\<rparr>
       [(\<lparr>cpu_usage_usec = 9, memory_bytes = 20\<rparr>, 250000)] (\<lparr>cpu_usage_usec = 12, memory_bytes = 60\<rparr>, 400000))
   = 30"
proof -
  have "times_ok 0 ([(\<lparr>cpu_usage_usec = 9, memory_bytes = 20\<rparr>, 250000)]
      @ [(\<lparr>cpu_usage_usec = 12, memory_bytes = 60\<rparr>, 400000)])"
    by (simp add: times_ok_def)
  from metrics_are_bounded [OF this, of "\<lparr>cpu_ratio = (\<lambda>c e m. 0), percent = (\<lambda>b l. ucast b), fmax = max\<rparr>"
      "\<lparr>pool_name = ''a'', pool_image = 1, pool_warm_instances = 0, pool_max_instances = None,
        pool_cpu_millis = 500, pool_memory_mib = 256, pool_disk_mib = 0, pool_timeout_secs = 60,
        pool_idle_timeout_secs = 0, pool_reuse = False, pool_network = False, pool_ports = [],
        pool_managed_by = None, pool_environment = None, pool_environment_artifact = None,
        pool_preload = []\<rparr>"
      "\<lparr>cpu_usage_usec = 5, memory_bytes = 10\<rparr>"]
  show ?thesis by (simp add: total_memory_def memory_percent_def)
qed

text \<open>
  The limit that \<open>attach_cgroup\<close> sets, which \<open>memory_percent\<close> divides by as long as
  \<open>memory_mib + 128\<close> fits in 32 bits.
\<close>

lemma memory_limit:
  "unat (((ucast m :: u64) + 128) * 1024 * 1024) = (unat (m :: u32) + 128) * 2 ^ 20"
proof -
  have m: "unat m < 2 ^ 32" using unsigned_less [of m, where 'a = nat] by simp
  then have "unat (ucast m :: u64) = unat m" by (simp add: unsigned_ucast_eq take_bit_nat_eq_self)
  with m show ?thesis by (simp add: unat_word_ariths)
qed

lemma memory_percent_limit:
  assumes "unat m + 128 < 2 ^ 32"
  shows "memory_percent fo bytes m = percent fo bytes (word_of_nat ((unat m + 128) * 2 ^ 20))"
proof -
  have "unat (m + 128) = unat m + 128" using assms by (simp add: unat_word_ariths)
  then have "(ucast (m + 128) :: u64) = word_of_nat (unat m + 128)" by (metis of_nat_unat)
  then show ?thesis by (simp add: memory_percent_def mult.assoc)
qed

lemma memory_percent_wraps: "memory_percent fo bytes (- 128) = percent fo bytes 0"
  by (simp add: memory_percent_def)

end
