(* ===== verification/Node_Downloads.thy ===== *)
theory Node_Downloads
  imports Node_Files_Properties
begin

section \<open>Downloads and markers as they are written\<close>

text \<open>
  \<open>download\<close> of \<open>platform/src/node.rs\<close> writes the chunks of a stream into a file with the extension
  \<open>partial\<close> and renames it; \<open>fs::write\<close> creates or empties a file before it writes. Here the operations of
  \<open>Node_Files\<close> are taken apart into these steps, and a synchronisation may end after any of them, by a
  crash, a failing disk or a stream that breaks off: a broken stream is a download that ends before it
  renames. What a node reports stays verified.
\<close>

datatype disk_op =
    CreateFile string | AppendFile string string | RenameFile string string | DeleteFile string | SendReady string

fun disk_step :: "disk_op \<Rightarrow> node_files \<Rightarrow> node_files" where
  "disk_step (CreateFile n) s = s\<lparr>nf_dir := (nf_dir s)(n \<mapsto> [])\<rparr>"
| "disk_step (AppendFile n c) s = s\<lparr>nf_dir := (nf_dir s)(n \<mapsto> read_or_default (nf_dir s) n @ c)\<rparr>"
| "disk_step (RenameFile a b) s = s\<lparr>nf_dir := (nf_dir s)(a := None, b := nf_dir s a)\<rparr>"
| "disk_step (DeleteFile n) s = s\<lparr>nf_dir := (nf_dir s)(n := None)\<rparr>"
| "disk_step (SendReady n) s = s\<lparr>nf_reported := (n, nf_dir s n) # nf_reported s\<rparr>"

definition disk_ops :: "disk_op list \<Rightarrow> node_files \<Rightarrow> node_files" where
  "disk_ops ops s = fold disk_step ops s"

definition partial_of :: "string \<Rightarrow> string" where
  "partial_of path = with_extension path ''partial''"

definition write_chunks :: "string \<Rightarrow> string list \<Rightarrow> disk_op list" where
  "write_chunks n chunks = CreateFile n # map (AppendFile n) chunks"

definition download :: "string \<Rightarrow> string list \<Rightarrow> disk_op list" where
  "download path chunks = write_chunks (partial_of path) chunks @ [RenameFile (partial_of path) path]"

text \<open>
  The steps of an operation, when contents arrive in the chunks that \<open>split\<close> makes of them: markers are
  written in place, other files are downloaded.
\<close>

definition expand :: "(string \<Rightarrow> string list) \<Rightarrow> file_op \<Rightarrow> disk_op list" where
  "expand split op =
     (case op of
        WriteFile n c \<Rightarrow>
          if ends_with ''.sha256'' n then write_chunks n (split c) else download n (split c)
      | RemoveFile n \<Rightarrow> [DeleteFile n]
      | ReportReady n \<Rightarrow> [SendReady n])"

definition expand_all :: "(string \<Rightarrow> string list) \<Rightarrow> file_op list \<Rightarrow> disk_op list" where
  "expand_all split ops = concat (map (expand split) ops)"

subsection \<open>Names\<close>

lemma ends_with_append [simp]: "ends_with e (s @ e)"
  by (simp add: ends_with_def)

lemma ends_with_other:
  assumes "ends_with e s" "ends_with f s" "length e \<le> length f" "\<not> ends_with e f"
  shows False
proof -
  have "e = drop (length s - length e) s" "f = drop (length s - length f) s" "length f \<le> length s"
    using assms(1,2) by (simp_all add: ends_with_def)
  then have "drop (length f - length e) f = e"
    using assms(3) by (metis add_diff_assoc2 diff_add_inverse2 drop_drop le_add_diff_inverse2 add.commute)
  then show False using assms(3,4) by (simp add: ends_with_def)
qed

lemma marker_ends: "ends_with ''.sha256'' (marker_of n)"
  unfolding marker_of_def with_extension_def using ends_with_append [of "''.sha256''"] by simp

lemma partial_ends: "ends_with ''.partial'' (partial_of n)"
  unfolding partial_of_def with_extension_def using ends_with_append [of "''.partial''"] by simp

lemma partial_is_no_marker: "partial_of m \<noteq> marker_of n"
proof
  assume "partial_of m = marker_of n"
  then show False
    using ends_with_other [of "''.sha256''" "marker_of n" "''.partial''"] marker_ends [of n] partial_ends [of m]
    by (simp add: ends_with_def)
qed

text \<open>An item has not the name of a marker or of an unfinished download.\<close>

definition names_ok :: "string set \<Rightarrow> bool" where
  "names_ok N \<longleftrightarrow> (\<forall>n \<in> N. \<not> ends_with ''.sha256'' n \<and> \<not> ends_with ''.partial'' n)"

definition visible :: "string set \<Rightarrow> string set" where
  "visible N = N \<union> marker_of ` N"

lemma partial_is_not_visible: "names_ok N \<Longrightarrow> partial_of m \<notin> visible N"
  using partial_ends [of m] partial_is_no_marker [of m] by (auto simp: names_ok_def visible_def)

subsection \<open>The steps do what the operations do\<close>

text \<open>The same files as far as they count.\<close>

definition same_items :: "string set \<Rightarrow> node_files \<Rightarrow> node_files \<Rightarrow> bool" where
  "same_items N s t \<longleftrightarrow> (\<forall>n \<in> visible N. nf_dir t n = nf_dir s n) \<and>
     (\<forall>r. fst r \<in> N \<longrightarrow> (r \<in> set (nf_reported t) \<longleftrightarrow> r \<in> set (nf_reported s)))"

lemma same_items_refl [simp]: "same_items N s s"
  by (simp add: same_items_def)

lemma same_items_ok: "same_items N s t \<Longrightarrow> files_ok H sha N s \<Longrightarrow> files_ok H sha N t"
  by (fastforce simp: same_items_def visible_def files_ok_def markers_ok_def reports_ok_def)

lemma disk_ops_simps [simp]:
  "disk_ops [] s = s"
  "disk_ops (op # ops) s = disk_ops ops (disk_step op s)"
  "disk_ops (xs @ ys) s = disk_ops ys (disk_ops xs s)"
  by (simp_all add: disk_ops_def)

lemma write_chunks_effect:
  "disk_ops (write_chunks n chunks) s = s\<lparr>nf_dir := (nf_dir s)(n \<mapsto> concat chunks)\<rparr>"
proof -
  have "disk_ops (map (AppendFile n) chunks) (s\<lparr>nf_dir := (nf_dir s)(n \<mapsto> c)\<rparr>)
    = s\<lparr>nf_dir := (nf_dir s)(n \<mapsto> c @ concat chunks)\<rparr>" for c
    by (induction chunks arbitrary: c) (simp_all add: read_or_default_def)
  from this [of "[]"] show ?thesis by (simp add: write_chunks_def)
qed

lemma take_write_chunks: "\<exists>j. take k (write_chunks n chunks) = (if k = 0 then [] else write_chunks n (take j chunks))"
  by (cases k) (auto simp: write_chunks_def take_map)

text \<open>A download that is cut off has changed its unfinished file only.\<close>

lemma download_effect:
  "partial_of n \<noteq> n \<Longrightarrow> disk_ops (download n chunks) s
     = s\<lparr>nf_dir := (nf_dir s)(partial_of n := None, n \<mapsto> concat chunks)\<rparr>"
  by (simp add: download_def write_chunks_effect)

lemma download_cut:
  assumes "k < length (download n chunks)"
  shows "\<exists>v. disk_ops (take k (download n chunks)) s = s\<lparr>nf_dir := (nf_dir s)(partial_of n := v)\<rparr>"
proof -
  have "take k (download n chunks) = take k (write_chunks (partial_of n) chunks)"
    using assms by (simp add: download_def)
  moreover obtain j where "take k (write_chunks (partial_of n) chunks)
      = (if k = 0 then [] else write_chunks (partial_of n) (take j chunks))"
    using take_write_chunks by blast
  ultimately have "disk_ops (take k (download n chunks)) s =
      s\<lparr>nf_dir := (nf_dir s)(partial_of n := (if k = 0 then nf_dir s (partial_of n) else Some (concat (take j chunks))))\<rparr>"
    by (simp add: write_chunks_effect)
  then show ?thesis by blast
qed

lemma expand_effect:
  assumes "names_ok N" "\<And>c. concat (split c) = c" "same_items N s t"
  shows "same_items N (apply_op op s) (disk_ops (expand split op) t)"
proof (cases op)
  case (WriteFile n c)
  show ?thesis
  proof (cases "ends_with ''.sha256'' n")
    case True
    then show ?thesis
      using assms(2,3) WriteFile by (simp add: expand_def write_chunks_effect same_items_def)
  next
    case False
    have v: "partial_of n \<notin> visible N" by (rule partial_is_not_visible [OF assms(1)])
    show ?thesis
    proof (cases "partial_of n = n")
      case True
      then show ?thesis
        using v False assms(2,3) WriteFile
        by (simp add: expand_def download_def write_chunks_effect same_items_def)
    next
      case False
      then show ?thesis
        using v \<open>\<not> ends_with ''.sha256'' n\<close> assms(2,3) WriteFile
        by (simp add: expand_def download_effect same_items_def)
    qed
  qed
next
  case (RemoveFile n)
  then show ?thesis using assms(3) by (simp add: expand_def same_items_def)
next
  case (ReportReady n)
  then show ?thesis using assms(3) by (auto simp: expand_def same_items_def visible_def)
qed

lemma expand_all_effect:
  assumes "names_ok N" "\<And>c. concat (split c) = c"
  shows "same_items N s t \<Longrightarrow> same_items N (file_ops ops s) (disk_ops (expand_all split ops) t)"
proof (induction ops arbitrary: s t)
  case (Cons op ops)
  have "same_items N (apply_op op s) (disk_ops (expand split op) t)"
    by (rule expand_effect [OF assms Cons.prems])
  from Cons.IH [OF this] show ?case by (simp add: expand_all_def)
qed (simp add: expand_all_def)

text \<open>
  A marker is written with the digest of its item only, so one that is half written is no marker of a
  digest, or already the whole one.
\<close>

definition true_marks :: "(string \<Rightarrow> string) \<Rightarrow> string set \<Rightarrow> file_op list \<Rightarrow> bool" where
  "true_marks sha N ops \<longleftrightarrow> (\<forall>n \<in> N. \<forall>c. WriteFile (marker_of n) c \<in> set ops \<longrightarrow> c = sha n)"

lemma half_marker_ok:
  assumes "items_ok sha N" "files_ok H sha N s" "same_items N s t"
    and "\<And>n. n \<in> N \<Longrightarrow> m = marker_of n \<Longrightarrow> p = sha n \<Longrightarrow> has_item H n (sha n) (nf_dir s)"
    and "ends_with ''.sha256'' m" "names_ok N"
  shows "files_ok H sha N (t\<lparr>nf_dir := (nf_dir t)(m \<mapsto> p)\<rparr>)"
proof -
  have t: "files_ok H sha N t" by (rule same_items_ok [OF assms(3,2)])
  have "m \<notin> N" using assms(5,6) by (auto simp: names_ok_def)
  have item: "\<exists>c. nf_dir t n = Some c \<and> H c = sha n" if "n \<in> N" "m = marker_of n" "p = sha n" for n
    using assms(4) [OF that] assms(3) that(1) by (simp add: has_item_def same_items_def visible_def)
  show ?thesis
    unfolding files_ok_def
  proof
    show "markers_ok H sha N (nf_dir (t\<lparr>nf_dir := (nf_dir t)(m \<mapsto> p)\<rparr>))"
      unfolding markers_ok_def
    proof (intro ballI impI)
      fix n
      assume n: "n \<in> N" and w: "nf_dir (t\<lparr>nf_dir := (nf_dir t)(m \<mapsto> p)\<rparr>) (marker_of n) = Some (sha n)"
      have "n \<noteq> m" using n \<open>m \<notin> N\<close> by auto
      moreover have "\<exists>c. nf_dir t n = Some c \<and> H c = sha n"
      proof (cases "m = marker_of n")
        case True
        then show ?thesis using w item [OF n True] by simp
      next
        case False
        then show ?thesis using w t n by (simp add: files_ok_def markers_ok_def)
      qed
      ultimately show "\<exists>c. nf_dir (t\<lparr>nf_dir := (nf_dir t)(m \<mapsto> p)\<rparr>) n = Some c \<and> H c = sha n" by simp
    qed
    show "reports_ok H sha N (nf_reported (t\<lparr>nf_dir := (nf_dir t)(m \<mapsto> p)\<rparr>))"
      using t by (simp add: files_ok_def)
  qed
qed

lemma expand_cut:
  assumes "items_ok sha N" "names_ok N" "\<And>c. concat (split c) = c" "same_items N s t"
    and "files_ok H sha N s" "files_ok H sha N (apply_op op s)" "true_marks sha N [op]"
    and "k < length (expand split op)"
  shows "files_ok H sha N (disk_ops (take k (expand split op)) t)"
proof -
  have t: "files_ok H sha N t" by (rule same_items_ok [OF assms(4,5)])
  show ?thesis
  proof (cases op)
    case (WriteFile n c)
    show ?thesis
    proof (cases "ends_with ''.sha256'' n")
      case False
      then have e: "expand split op = download n (split c)" by (simp add: expand_def WriteFile)
      then obtain v where "disk_ops (take k (expand split op)) t = t\<lparr>nf_dir := (nf_dir t)(partial_of n := v)\<rparr>"
        using download_cut [of k n "split c" t] assms(8) by auto
      moreover have "same_items N t (t\<lparr>nf_dir := (nf_dir t)(partial_of n := v)\<rparr>)"
        using partial_is_not_visible [OF assms(2), of n] by (simp add: same_items_def)
      ultimately show ?thesis using same_items_ok t by metis
    next
      case True
      then have e: "expand split op = write_chunks n (split c)" by (simp add: expand_def WriteFile)
      obtain j where j: "take k (write_chunks n (split c)) = (if k = 0 then [] else write_chunks n (take j (split c)))"
        using take_write_chunks by blast
      have "has_item H i (sha i) (nf_dir s)" if "i \<in> N" "n = marker_of i" for i
      proof -
        have "c = sha i" using assms(7) that WriteFile by (simp add: true_marks_def)
        then have "\<exists>x. (nf_dir (apply_op op s)) i = Some x \<and> H x = sha i"
          using assms(6) that WriteFile by (simp add: files_ok_def markers_ok_def)
        moreover have "i \<noteq> n" using items_okD(1) [OF assms(1) that(1), of i] that(2) by metis
        ultimately show ?thesis using WriteFile by (simp add: has_item_def)
      qed
      then have "files_ok H sha N (t\<lparr>nf_dir := (nf_dir t)(n \<mapsto> concat (take j (split c)))\<rparr>)"
        by (intro half_marker_ok [OF assms(1,5,4)]) (use True assms(2) in auto)
      then show ?thesis using t by (simp add: e j write_chunks_effect)
    qed
  next
    case (RemoveFile n)
    then show ?thesis using assms(8) t by (simp add: expand_def)
  next
    case (ReportReady n)
    then show ?thesis using assms(8) t by (simp add: expand_def)
  qed
qed

text \<open>Wherever the steps of a list of operations stop, the markers and reports are true.\<close>

lemma expand_all_cut:
  assumes "items_ok sha N" "names_ok N" "\<And>c. concat (split c) = c"
  shows "same_items N s t \<Longrightarrow> always (files_ok H sha N) ops s \<Longrightarrow> true_marks sha N ops \<Longrightarrow>
    files_ok H sha N (disk_ops (take k (expand_all split ops)) t)"
proof (induction ops arbitrary: s t k)
  case Nil
  then show ?case by (simp add: expand_all_def same_items_ok)
next
  case (Cons op ops)
  have now: "files_ok H sha N s" "always (files_ok H sha N) ops (apply_op op s)"
    using Cons.prems(2) by simp_all
  have marks: "true_marks sha N [op]" "true_marks sha N ops"
    using Cons.prems(3) by (auto simp: true_marks_def)
  show ?case
  proof (cases "k < length (expand split op)")
    case True
    then have "take k (expand_all split (op # ops)) = take k (expand split op)"
      by (simp add: expand_all_def)
    then show ?thesis
      using expand_cut [OF assms Cons.prems(1) now(1) always_now [OF now(2)] marks(1) True] by simp
  next
    case False
    then have "take k (expand_all split (op # ops))
        = expand split op @ take (k - length (expand split op)) (expand_all split ops)"
      by (simp add: expand_all_def)
    then show ?thesis
      using Cons.IH [OF expand_effect [OF assms(2,3) Cons.prems(1)] now(2) marks(2)] by simp
  qed
qed

subsection \<open>Synchronisations in steps\<close>

lemma fetch_marks:
  assumes "items_ok sha N" "n \<in> N"
  shows "true_marks sha N (fst (fetch H body n (sha n) d))"
  unfolding true_marks_def
proof (intro ballI allI impI)
  fix i c
  assume i: "i \<in> N" and w: "WriteFile (marker_of i) c \<in> set (fst (fetch H body n (sha n) d))"
  have "marker_of i \<noteq> n" by (rule items_okD(1) [OF assms(1,2)])
  then have "marker_of i = marker_of n \<and> c = sha n"
    using w by (auto simp: fetch_def Let_def split: if_splits option.splits)
  then show "c = sha i" using assms i by (auto simp: items_ok_def inj_on_def)
qed

lemma true_marks_append [simp]: "true_marks sha N (xs @ ys) \<longleftrightarrow> true_marks sha N xs \<and> true_marks sha N ys"
  by (auto simp: true_marks_def)

lemma true_marks_others [simp]:
  "true_marks sha N []" "true_marks sha N [ReportReady n]" "true_marks sha N (removals stuck g names)"
  by (auto simp: true_marks_def removals_def split: if_splits)

definition one_marks ::
    "(string \<Rightarrow> string) \<Rightarrow> string set \<Rightarrow> (string \<Rightarrow> string \<Rightarrow> node_files \<Rightarrow> file_op list \<times> bool) \<Rightarrow> bool" where
  "one_marks sha N one \<longleftrightarrow> (\<forall>n \<in> N. \<forall>s. true_marks sha N (fst (one n (sha n) s)))"

lemma sync_one_marks:
  assumes "items_ok sha N"
  shows "one_marks sha N (\<lambda>n. sync_image H (server n) n)" "one_marks sha N (\<lambda>n. sync_environment H (server n) n)"
proof -
  have "true_marks sha N (fst (sync_image H (server n) n (sha n) s)) \<and>
      true_marks sha N (fst (sync_environment H (server n) n (sha n) s))" if "n \<in> N" for n s
  proof -
    obtain ops ok where f: "fetch H (server n) n (sha n) (nf_dir s) = (ops, ok)" by fastforce
    have "true_marks sha N ops" using fetch_marks [OF assms that, of H "server n" "nf_dir s"] f by simp
    then show ?thesis by (cases ok) (simp_all add: sync_image_def sync_environment_def f)
  qed
  then show "one_marks sha N (\<lambda>n. sync_image H (server n) n)"
    "one_marks sha N (\<lambda>n. sync_environment H (server n) n)"
    by (simp_all add: one_marks_def)
qed

lemma sync_items_marks:
  "views_ok sha N views \<Longrightarrow> one_marks sha N one \<Longrightarrow> true_marks sha N (fst (sync_items one views s))"
proof (induction one views s rule: sync_items.induct)
  case (2 one n x items s)
  have n: "n \<in> N" "x = sha n" "views_ok sha N items" using "2.prems"(1) by (auto simp: views_ok_def)
  obtain ops ok where o: "one n x s = (ops, ok)" by fastforce
  have marks: "true_marks sha N ops"
    using "2.prems"(2) n(1,2) o unfolding one_marks_def by (metis fst_conv)
  show ?case
  proof (cases ok)
    case True
    have "true_marks sha N (fst (sync_items one items (file_ops ops s)))"
      by (rule "2.IH" [OF o [symmetric] _ n(3) "2.prems"(2)]) (simp add: True)
    then show ?thesis using marks o True by (cases "sync_items one items (file_ops ops s)") simp
  qed (use marks o in simp)
qed simp

text \<open>
  The runs of a node on its files, with the operations that fetch and all operations they would make when
  nothing stops them: synchronisations, which remove files at their end, and working directories.
\<close>

inductive planned_run ::
    "(string \<Rightarrow> string) \<Rightarrow> (string \<Rightarrow> string) \<Rightarrow> string set \<Rightarrow> (string \<Rightarrow> bool) \<Rightarrow> node_files \<Rightarrow>
     file_op list \<Rightarrow> file_op list \<Rightarrow> bool"
  for H :: "string \<Rightarrow> string" and sha :: "string \<Rightarrow> string" and N :: "string set" and stuck :: "string \<Rightarrow> bool"
  where
  plan_images: "items = map (\<lambda>i. (show_id (image_id i), image_sha256 i)) views \<Longrightarrow> views_ok sha N items \<Longrightarrow>
    planned_run H sha N stuck s (fst (sync_items (\<lambda>n. sync_image H (server n) n) items s))
      (fst (sync_images H show_id parse server stuck views listing s))"
| plan_environments: "items = List.map_filter environment_item views \<Longrightarrow> views_ok sha N items \<Longrightarrow>
    planned_run H sha N stuck s (fst (sync_items (\<lambda>n. sync_environment H (server n) n) items s))
      (fst (sync_environments H server stuck views listing s))"
| plan_working_dir: "views_ok sha N [(digest @ ''.zip'', digest)] \<Longrightarrow>
    planned_run H sha N stuck s (fst (ensure_working_dir H body digest (nf_dir s)))
      (fst (ensure_working_dir H body digest (nf_dir s)))"

definition splits :: "(string \<Rightarrow> string list) \<Rightarrow> bool" where
  "splits split \<longleftrightarrow> (\<forall>c. concat (split c) = c)"

text \<open>
  A run stops after any number of steps. It is clean when it stops while it fetches, or goes to its end and
  removes every marker that it wants to.
\<close>

inductive disk_run ::
    "(string \<Rightarrow> string) \<Rightarrow> (string \<Rightarrow> string) \<Rightarrow> string set \<Rightarrow> bool \<Rightarrow> node_files \<Rightarrow> node_files \<Rightarrow> bool"
  for H :: "string \<Rightarrow> string" and sha :: "string \<Rightarrow> string" and N :: "string set" where
  run_until: "planned_run H sha N stuck s fetching ops \<Longrightarrow> splits split \<Longrightarrow>
    clean = (k \<le> length (expand_all split fetching) \<or>
      length (expand_all split ops) \<le> k \<and> stuck = (\<lambda>_. False)) \<Longrightarrow>
    disk_run H sha N clean s (disk_ops (take k (expand_all split ops)) s)"

text \<open>The items of which a marker is left without its file.\<close>

definition orphans :: "(string \<Rightarrow> string) \<Rightarrow> string set \<Rightarrow> directory \<Rightarrow> string set" where
  "orphans sha N d = {n \<in> N. d n = None \<and> d (marker_of n) = Some (sha n)}"

text \<open>The runs, with the items that some run that was not clean left as orphans.\<close>

inductive tracked_run ::
    "(string \<Rightarrow> string) \<Rightarrow> (string \<Rightarrow> string) \<Rightarrow> string set \<Rightarrow> node_files \<times> string set \<Rightarrow>
     node_files \<times> string set \<Rightarrow> bool"
  for H :: "string \<Rightarrow> string" and sha :: "string \<Rightarrow> string" and N :: "string set" where
  clean_run: "disk_run H sha N True s t \<Longrightarrow> tracked_run H sha N (s, O') (t, O')"
| other_run: "disk_run H sha N False s t \<Longrightarrow> tracked_run H sha N (s, O') (t, O' \<union> orphans sha N (nf_dir t))"

definition fresh_disk :: "node_files \<times> string set \<Rightarrow> bool" where
  "fresh_disk x \<longleftrightarrow> no_files (fst x) \<and> snd x = {}"

lemma fetching_ok:
  assumes "items_ok sha N" "M \<subseteq> N" "files_ok H sha M s" "views_ok sha N views"
    and "one_ok H sha M N one" "one_marks sha N one"
  shows "always (files_ok H sha M) (fst (sync_items one views s)) s \<and>
    true_marks sha M (fst (sync_items one views s))"
  using sync_items_ok [OF assms(5,3)] sync_items_marks [OF assms(4,6)] assms(2,4)
  by (auto simp: views_ok_def true_marks_def)

lemma planned_run_ok:
  assumes "items_ok sha N" "M \<subseteq> N" "files_ok H sha M s" "planned_run H sha N stuck s fetching ops"
  shows "always (files_ok H sha M) fetching s \<and> true_marks sha M fetching \<and>
    (\<exists>g names. ops = fetching @ removals stuck g names)"
  using assms(4)
proof (cases rule: planned_run.cases)
  case (plan_images items show_id views server parse listing)
  from fetching_ok [OF assms(1-3) plan_images(4) sync_image_ok [OF assms(1,2)] sync_one_marks(1) [OF assms(1)]]
  have "always (files_ok H sha M) fetching s \<and> true_marks sha M fetching" unfolding plan_images(1) .
  moreover have "\<exists>g names. ops = fetching @ removals stuck g names"
    unfolding plan_images(1-3) sync_images_def
    by (auto simp: removals_def split: prod.splits bool.splits intro: exI [of _ "[]"])
  ultimately show ?thesis by blast
next
  case (plan_environments items views server listing)
  from fetching_ok [OF assms(1-3) plan_environments(4) sync_environment_ok [OF assms(1,2)]
      sync_one_marks(2) [OF assms(1)]]
  have "always (files_ok H sha M) fetching s \<and> true_marks sha M fetching" unfolding plan_environments(1) .
  moreover have "\<exists>g names. ops = fetching @ removals stuck g names"
    unfolding plan_environments(1-3) sync_environments_def
    by (auto simp: removals_def split: prod.splits bool.splits intro: exI [of _ "[]"])
  ultimately show ?thesis by blast
next
  case (plan_working_dir digest body)
  have none: "\<exists>g names. ops = fetching @ removals stuck g names"
    unfolding plan_working_dir(1,2) by (rule exI, rule exI [of _ "[]"]) (simp add: removals_def)
  show ?thesis
  proof (cases "is_digest digest")
    case False
    then show ?thesis using plan_working_dir(1) assms(3) none by (simp add: ensure_working_dir_def)
  next
    case True
    let ?n = "digest @ ''.zip''"
    have n: "?n \<in> N" "sha ?n = digest" using plan_working_dir(3) by (simp_all add: views_ok_def)
    obtain os r where f: "fetch H body ?n (sha ?n) (nf_dir s) = (os, r)" by fastforce
    then have "fetching = os" using plan_working_dir(1) True n(2) by (simp add: ensure_working_dir_fetch)
    moreover have "true_marks sha M os"
      using fetch_marks [OF assms(1) n(1), of H body "nf_dir s"] f assms(2) by (auto simp: true_marks_def)
    ultimately show ?thesis
      using fetch_any_ok [OF assms(1,2) n(1) assms(3) f] none by simp
  qed
qed

text \<open>Removing only takes files away, and so can only make orphans.\<close>

lemma deletions_shrink:
  "\<forall>op \<in> set ops. \<exists>n. op = DeleteFile n \<Longrightarrow>
     nf_dir (disk_ops ops s) \<subseteq>\<^sub>m nf_dir s \<and> nf_reported (disk_ops ops s) = nf_reported s"
proof (induction ops arbitrary: s)
  case (Cons op ops)
  then obtain n where n: "op = DeleteFile n" by auto
  have "nf_dir (disk_step op s) \<subseteq>\<^sub>m nf_dir s" by (simp add: n map_le_def)
  moreover have "nf_reported (disk_step op s) = nf_reported s" by (simp add: n)
  ultimately show ?case using Cons.IH [of "disk_step op s"] Cons.prems map_le_trans by fastforce
qed simp

lemma shrink_ok:
  assumes "M \<subseteq> N" "files_ok H sha M s" "nf_dir t \<subseteq>\<^sub>m nf_dir s" "nf_reported t = nf_reported s"
  shows "files_ok H sha (M - orphans sha N (nf_dir t)) t"
proof -
  have "\<exists>c. nf_dir t n = Some c \<and> H c = sha n"
    if n: "n \<in> M - orphans sha N (nf_dir t)" and mark: "nf_dir t (marker_of n) = Some (sha n)" for n
  proof -
    obtain c where c: "nf_dir t n = Some c" using n mark assms(1) by (auto simp: orphans_def)
    have "nf_dir s n = Some c" "nf_dir s (marker_of n) = Some (sha n)"
      using c mark assms(3) by (metis domI map_le_def)+
    then show ?thesis using assms(2) n c by (auto simp: files_ok_def markers_ok_def)
  qed
  then show ?thesis using assms(2,4) by (auto simp: files_ok_def markers_ok_def reports_ok_def)
qed

lemma expand_removals: "op \<in> set (expand_all split (removals stuck g names)) \<Longrightarrow> \<exists>n. op = DeleteFile n"
  by (auto simp: expand_all_def removals_def expand_def split: if_splits)

lemma disk_run_ok:
  assumes "items_ok sha N" "names_ok N" "M \<subseteq> N" "files_ok H sha M s" "disk_run H sha N clean s t"
  shows "files_ok H sha (if clean then M else M - orphans sha N (nf_dir t)) t"
  using assms(5)
proof (cases rule: disk_run.cases)
  case (run_until stuck fetching ops split k)
  have ok: "items_ok sha M" "names_ok M" "\<And>c. concat (split c) = c"
    using items_ok_subset [OF assms(1,3)] assms(2,3) run_until(3) by (auto simp: names_ok_def splits_def)
  obtain g names where plan: "always (files_ok H sha M) fetching s" "true_marks sha M fetching"
    "ops = fetching @ removals stuck g names"
    using planned_run_ok [OF assms(1,3,4) run_until(2)] by blast
  let ?F = "expand_all split fetching" and ?R = "expand_all split (removals stuck g names)"
  have all: "expand_all split ops = ?F @ ?R" by (simp add: plan(3) expand_all_def)
  have fetched: "files_ok H sha M (disk_ops (take j ?F) s)" for j
    by (rule expand_all_cut [OF ok same_items_refl plan(1,2)])
  consider (cut) "k \<le> length ?F" | (complete) "length (expand_all split ops) \<le> k" "stuck = (\<lambda>_. False)"
    | (removing) "length ?F < k" "\<not> clean"
    using run_until(4) by force
  then show ?thesis
  proof cases
    case cut
    then show ?thesis using fetched [of k] run_until(1,4) by (simp add: all)
  next
    case complete
    have "files_ok H sha M (file_ops ops s)"
      using removals_ok [OF ok(1) always_end [OF plan(1)], of g names] by (simp add: plan(3) complete(2))
    moreover have "same_items M (file_ops ops s) t"
      using expand_all_effect [OF ok(2,3) same_items_refl] complete(1) by (simp add: run_until(1))
    ultimately have "files_ok H sha M t" by (metis same_items_ok)
    then show ?thesis using run_until(4) complete by simp
  next
    case removing
    let ?s = "disk_ops ?F s" and ?r = "take (k - length ?F) ?R"
    have t: "t = disk_ops ?r ?s" using removing(1) by (simp add: run_until(1) all)
    have "\<forall>op \<in> set ?r. \<exists>n. op = DeleteFile n" by (blast dest: in_set_takeD expand_removals)
    from deletions_shrink [OF this, of ?s] fetched [of "length ?F"] removing(2)
    show ?thesis by (simp add: t shrink_ok [OF assms(3)])
  qed
qed

text \<open>C32: Whatever the downloads bring and however their streams are cut up, and wherever a
  synchronisation or the fetching of a working directory stops, be it in the middle of a file, of a
  marker or of the removals, and whichever removals of markers fail, a node reports an item ready only
  while it holds a file for it with the right digest, and a marker with that digest stands beside such a
  file only; except for an item that an earlier run left without its file but with its marker (\<open>O'\<close>),
  because it stopped among its removals or could not remove the marker. Runs that end otherwise make no
  such exception; that one is needed is \<open>stale_marker_is_trusted\<close>. Items have one digest each, which is
  not empty, markers that differ, and names that are not those of markers or unfinished downloads.\<close>

theorem reports_are_verified_at_every_step:
  assumes "items_ok sha N" "names_ok N" "reachable fresh_disk (tracked_run H sha N) (s, O')"
  shows "(\<forall>n c. (n, c) \<in> set (nf_reported s) \<longrightarrow> n \<in> N - O' \<longrightarrow> (\<exists>x. c = Some x \<and> H x = sha n)) \<and>
    (\<forall>n \<in> N - O'. nf_dir s (marker_of n) = Some (sha n) \<longrightarrow> (\<exists>c. nf_dir s n = Some c \<and> H c = sha n))"
proof -
  have "files_ok H sha (N - snd x) (fst x)" if "reachable fresh_disk (tracked_run H sha N) x" for x
    using that
  proof (induction rule: reachable.induct)
    case (reachable_initial x)
    then show ?case by (simp add: fresh_disk_def no_files_def files_ok_def markers_ok_def reports_ok_def)
  next
    case (reachable_step x y)
    from reachable_step.hyps(2) show ?case
    proof (cases rule: tracked_run.cases)
      case (clean_run s t O')
      from disk_run_ok [OF assms(1,2) Diff_subset _ clean_run(3)] reachable_step.IH
      show ?thesis by (simp add: clean_run)
    next
      case (other_run s t O')
      from disk_run_ok [OF assms(1,2) Diff_subset _ other_run(3)] reachable_step.IH
      show ?thesis by (simp add: other_run Diff_eq Int_assoc)
    qed
  qed
  from this [OF assms(3)] show ?thesis by (auto simp: files_ok_def markers_ok_def reports_ok_def)
qed

text \<open>A download that breaks off after one byte, and the next synchronisation.\<close>

definition bytewise :: "string \<Rightarrow> string list" where
  "bytewise c = map (\<lambda>x. [x]) c"

definition empty_disk :: node_files where
  "empty_disk = \<lparr>nf_dir = (\<lambda>_. None), nf_reported = []\<rparr>"

definition demo_sync :: "node_files \<Rightarrow> file_op list" where
  "demo_sync s = fst (sync_items (\<lambda>n. sync_environment id (Some ''good'') n) [(''a'', ''good'')] s)"

definition broken_disk :: node_files where
  "broken_disk = disk_ops (take 2 (expand_all bytewise (demo_sync empty_disk))) empty_disk"

definition synced_disk :: node_files where
  "synced_disk = disk_ops (take 20 (expand_all bytewise (demo_sync broken_disk))) broken_disk"

lemma demo_names: "names_ok {''a''}"
  by (simp add: names_ok_def ends_with_def)

lemma demo_sync_ops:
  "nf_dir s ''a'' = None \<Longrightarrow>
     demo_sync s = [WriteFile ''a'' ''good'', WriteFile ''a.sha256'' ''good'', ReportReady ''a'']"
  by (simp add: demo_sync_def sync_environment_def fetch_def demo_marker Let_def)

lemma demo_expansion:
  "expand_all bytewise [WriteFile ''a'' ''good'', WriteFile ''a.sha256'' ''good'', ReportReady ''a''] =
     [CreateFile ''a.partial'', AppendFile ''a.partial'' ''g'', AppendFile ''a.partial'' ''o'',
      AppendFile ''a.partial'' ''o'', AppendFile ''a.partial'' ''d'', RenameFile ''a.partial'' ''a'',
      CreateFile ''a.sha256'', AppendFile ''a.sha256'' ''g'', AppendFile ''a.sha256'' ''o'',
      AppendFile ''a.sha256'' ''o'', AppendFile ''a.sha256'' ''d'', SendReady ''a'']"
  by (simp add: expand_all_def expand_def ends_with_def download_def write_chunks_def bytewise_def
      partial_of_def with_extension_def file_stem_def)

lemma broken_disk_files: "broken_disk = empty_disk\<lparr>nf_dir := (\<lambda>_. None)(''a.partial'' \<mapsto> ''g'')\<rparr>"
  by (simp add: broken_disk_def demo_sync_ops demo_expansion empty_disk_def read_or_default_def)

definition demo_environment :: environment where
  "demo_environment =
     \<lparr>env_id = 1, env_name = ''e'', env_image = 1, env_packages = [], env_preload = [], env_artifact = Some ''a'',
      env_sha256 = Some ''good'', env_size = 0, env_pool = ''p'', env_warm_instances = 0,
      env_max_instances = None, env_cpu_millis = 0, env_memory_mib = 0, env_disk_mib = 0,
      env_timeout_secs = 0, env_idle_timeout_secs = 0, env_reuse = False, env_network = False\<rparr>"

lemma demo_plan:
  "planned_run id demo_sha {''a''} (\<lambda>_. False) s (demo_sync s) (demo_sync s)"
proof -
  have items: "List.map_filter environment_item [demo_environment] = [(''a'', ''good'')]"
    by (simp add: map_filter_def environment_item_def demo_environment_def)
  have "fst (sync_environments id (\<lambda>_. Some ''good'') (\<lambda>_. False) [demo_environment] [] s) = demo_sync s"
    unfolding sync_environments_def items demo_sync_def
    by (simp add: removals_def split: prod.split bool.split del: sync_items.simps)
  with plan_environments [OF items [symmetric], of demo_sha "{''a''}" id "\<lambda>_. False" s "\<lambda>_. Some ''good''" "[]"]
  show ?thesis by (simp add: demo_sync_def views_ok_def demo_sha_def)
qed

lemma reports_are_verified_at_every_step_witness:
  "nf_dir broken_disk ''a.partial'' = Some ''g'' \<and> nf_dir synced_disk (marker_of ''a'') = Some ''good'' \<and>
   (\<exists>c. nf_dir synced_disk ''a'' = Some c \<and> id c = ''good'')"
proof -
  have "splits bytewise" unfolding splits_def bytewise_def by simp
  note run = run_until [OF demo_plan this refl]
  have "reachable fresh_disk (tracked_run id demo_sha {''a''}) (empty_disk, {})"
    by (rule reachable_initial) (simp add: fresh_disk_def no_files_def empty_disk_def)
  moreover have "disk_run id demo_sha {''a''} True empty_disk broken_disk"
    using run [where s = empty_disk and k = 2] by (simp add: broken_disk_def demo_sync_ops demo_expansion empty_disk_def)
  ultimately have "reachable fresh_disk (tracked_run id demo_sha {''a''}) (broken_disk, {})"
    by (meson reachable_step clean_run)
  moreover have "disk_run id demo_sha {''a''} True broken_disk synced_disk"
    using run [where s = broken_disk and k = 20] by (simp add: synced_disk_def demo_sync_ops demo_expansion broken_disk_files)
  ultimately have "reachable fresh_disk (tracked_run id demo_sha {''a''}) (synced_disk, {})"
    by (meson reachable_step clean_run)
  from reports_are_verified_at_every_step [OF demo_items demo_names this]
  have "nf_dir synced_disk (marker_of ''a'') = Some ''good'' \<longrightarrow>
      (\<exists>c. nf_dir synced_disk ''a'' = Some c \<and> id c = ''good'')"
    by (simp add: demo_sha_def)
  moreover have "nf_dir synced_disk (marker_of ''a'') = Some ''good''"
    by (simp add: synced_disk_def demo_sync_ops broken_disk_files empty_disk_def demo_expansion demo_marker
        read_or_default_def)
  ultimately show ?thesis by (simp add: broken_disk_files)
qed

end
