(* ===== verification/Node_Snapshots.thy ===== *)
theory Node_Snapshots
  imports Cluster_Types Text_Lines Decimal Transition_System "HOL-Library.Sublist"
begin

section \<open>Snapshots of booted machines\<close>

text \<open>
  \<open>snapshot_key\<close>, \<open>configure_boot\<close>, \<open>ensure_snapshot\<close> and the clean-up of \<open>sync_snapshots\<close> in
  \<open>platform/src/node.rs\<close>. A node boots a virtual machine once per kind of pool, keeps a snapshot of
  it in the directory that the key names, and starts the machines of all pools with that key from
  it. \<open>show_id\<close> is the text of an identifier, \<open>H\<close> the SHA-256 digest in hexadecimal. What the
  hypervisor writes stands for the pool that it was configured for.
\<close>

subsection \<open>The key and the configuration of the machine\<close>

definition vcpu_count :: "u32 \<Rightarrow> u32" where
  "vcpu_count cpu_millis = max (word_of_nat ((unat cpu_millis + 999) div 1000)) 1"

definition preload_tag :: "(string \<Rightarrow> string) \<Rightarrow> string list \<Rightarrow> string" where
  "preload_tag H preload =
     (if preload = [] then [] else ''-'' @ take 16 (H (concat (map (\<lambda>m. m @ [CHR 0x00]) preload))))"

definition snapshot_key :: "(string \<Rightarrow> string) \<Rightarrow> (uuid \<Rightarrow> string) \<Rightarrow> pool \<Rightarrow> string" where
  "snapshot_key H show_id p =
     concat [show_id (pool_image p), ''-'', decimal (unat (vcpu_count (pool_cpu_millis p))), ''-'',
       decimal (unat (pool_memory_mib p)), ''-'', if pool_network p then ''net1'' else ''none'', ''-'',
       case pool_environment_artifact p of None \<Rightarrow> ''base'' | Some a \<Rightarrow> a,
       preload_tag H (pool_preload p)]"

definition json_nat :: "nat \<Rightarrow> json" where
  "json_nat n = JNumber (PosInt (word_of_nat n))"

text \<open>The requests to the hypervisor, each its path and its body.\<close>

definition boot_args :: string where
  "boot_args = ''console=ttyS0 reboot=k panic=1 pci=off ro init=/sbin/scraperack-init quiet''"

definition configure_boot ::
    "string \<Rightarrow> string \<Rightarrow> string \<Rightarrow> string option \<Rightarrow> pool \<Rightarrow> string option \<Rightarrow> (string \<times> json) list" where
  "configure_boot vsock kernel_path rootfs env p tap =
     [(''/machine-config'', JObject
        [(''vcpu_count'', json_nat (unat (vcpu_count (pool_cpu_millis p)))),
         (''mem_size_mib'', json_nat (unat (pool_memory_mib p))),
         (''smt'', JBool False), (''track_dirty_pages'', JBool False)])]
     @ (case env of None \<Rightarrow> [] | Some e \<Rightarrow>
         [(''/drives/environment'', JObject
            [(''drive_id'', JString ''environment''), (''path_on_host'', JString e),
             (''is_root_device'', JBool False), (''is_read_only'', JBool True)])])
     @ [(''/boot-source'', JObject
          [(''kernel_image_path'', JString kernel_path), (''boot_args'', JString boot_args)]),
        (''/drives/rootfs'', JObject
          [(''drive_id'', JString ''rootfs''), (''path_on_host'', JString rootfs),
           (''is_root_device'', JBool True), (''is_read_only'', JBool True)]),
        (''/vsock'', JObject [(''guest_cid'', json_nat 3), (''uds_path'', JString vsock)])]
     @ (case tap of None \<Rightarrow> [] | Some t \<Rightarrow>
         [(''/network-interfaces/net1'', JObject
            [(''iface_id'', JString ''net1''), (''host_dev_name'', JString t),
             (''guest_mac'', JString ''06:00:AC:10:00:02'')])])"

text \<open>
  What \<open>ensure_snapshot\<close> sends before it takes the snapshot, without the paths of the sockets and the
  device, which a start overrides: the boot configuration and the readiness request with the preload.
\<close>

definition boot_requests ::
    "(uuid \<Rightarrow> string) \<Rightarrow> string \<Rightarrow> string \<Rightarrow> string \<Rightarrow> string \<Rightarrow> pool \<Rightarrow> (string \<times> json) list \<times> json" where
  "boot_requests show_id data_dir kernel_path vsock tap p =
     (configure_boot vsock kernel_path (path_join (path_join data_dir ''images'') (show_id (pool_image p)))
        (map_option (path_join (path_join data_dir ''environments'')) (pool_environment_artifact p)) p
        (if pool_network p then Some tap else None),
      JObject [(''encoding'', JString ''scraperack-snapshot''),
        (''preload'', JArray (map JString (pool_preload p)))])"

subsection \<open>The directories of snapshots\<close>

record snapshot_dir =
  dir_state :: "pool option"
  dir_memory :: "pool option"
  dir_ready :: bool

type_synonym snapshots = "string \<Rightarrow> snapshot_dir option"

definition snapshot_ready :: "snapshots \<Rightarrow> string \<Rightarrow> bool" where
  "snapshot_ready disk k \<longleftrightarrow>
     (case disk k of None \<Rightarrow> False | Some d \<Rightarrow> dir_state d \<noteq> None \<and> dir_memory d \<noteq> None \<and> dir_ready d)"

datatype snapshot_op =
    RemoveDir string | CreateDir string | WriteMemory string pool | WriteState string pool
  | MarkReady string | RenameDir string string

definition in_dir :: "string \<Rightarrow> (snapshot_dir \<Rightarrow> snapshot_dir) \<Rightarrow> snapshots \<Rightarrow> snapshots" where
  "in_dir n f disk = disk(n := map_option f (disk n))"

fun apply_snapshot_op :: "snapshot_op \<Rightarrow> snapshots \<Rightarrow> snapshots" where
  "apply_snapshot_op (RemoveDir n) disk = disk(n := None)"
| "apply_snapshot_op (CreateDir n) disk = disk(n \<mapsto> \<lparr>dir_state = None, dir_memory = None, dir_ready = False\<rparr>)"
| "apply_snapshot_op (WriteMemory n p) disk = in_dir n (\<lambda>d. d\<lparr>dir_memory := Some p\<rparr>) disk"
| "apply_snapshot_op (WriteState n p) disk = in_dir n (\<lambda>d. d\<lparr>dir_state := Some p\<rparr>) disk"
| "apply_snapshot_op (MarkReady n) disk = in_dir n (\<lambda>d. d\<lparr>dir_ready := True\<rparr>) disk"
| "apply_snapshot_op (RenameDir n m) disk = disk(m := disk n, n := None)"

definition snapshot_ops :: "snapshot_op list \<Rightarrow> snapshots \<Rightarrow> snapshots" where
  "snapshot_ops ops disk = fold apply_snapshot_op ops disk"

definition temporary_name :: "string \<Rightarrow> string \<Rightarrow> string" where
  "temporary_name key fresh = ''.'' @ key @ ''-'' @ fresh"

text \<open>
  The operations on the disk, and whether a snapshot is returned. \<open>built\<close> says how far the steps get
  that make the snapshot: all four, or a failure before, after which the temporary directory is
  removed.
\<close>

definition ensure_snapshot ::
    "(string \<Rightarrow> string) \<Rightarrow> (uuid \<Rightarrow> string) \<Rightarrow> string \<Rightarrow> nat \<Rightarrow> pool \<Rightarrow> snapshots \<Rightarrow> snapshot_op list \<times> bool" where
  "ensure_snapshot H show_id fresh built p disk =
     (let key = snapshot_key H show_id p; tmp = temporary_name key fresh;
          steps = [WriteMemory tmp p, WriteState tmp p, MarkReady tmp]
      in if snapshot_ready disk key then ([], True)
      else
        (let start = (if disk key \<noteq> None then [RemoveDir key] else []) @ [CreateDir tmp] in
         if length steps \<le> built then (start @ steps @ [RenameDir tmp key], True)
         else (start @ take built steps @ [RemoveDir tmp], False)))"

text \<open>The clean-up removes the directories whose names are not hidden and not wanted.\<close>

definition snapshot_removals ::
    "(string \<Rightarrow> string) \<Rightarrow> (uuid \<Rightarrow> string) \<Rightarrow> pool list \<Rightarrow> string list \<Rightarrow> snapshot_op list" where
  "snapshot_removals H show_id wanted listing =
     map RemoveDir (filter (\<lambda>n. \<not> prefix ''.'' n \<and> n \<notin> set (map (snapshot_key H show_id) wanted)) listing)"

text \<open>
  A synchronisation: one attempt for each pool, the \<open>i\<close>-th with its own temporary name and its own
  success, then the clean-up of what a listing of the directory shows, of which the first \<open>removed\<close>
  removals succeed. A failing attempt is logged, a failing removal is an error.
\<close>

fun prepare_snapshots ::
    "(string \<Rightarrow> string) \<Rightarrow> (uuid \<Rightarrow> string) \<Rightarrow> (nat \<Rightarrow> string) \<Rightarrow> (nat \<Rightarrow> nat) \<Rightarrow> nat \<Rightarrow> pool list
     \<Rightarrow> snapshots \<Rightarrow> snapshots \<times> pool list" where
  "prepare_snapshots H show_id fresh built i [] disk = (disk, [])"
| "prepare_snapshots H show_id fresh built i (p # ps) disk =
     (let (ops, ok) = ensure_snapshot H show_id (fresh i) (built i) p disk;
          (disk', ready) = prepare_snapshots H show_id fresh built (Suc i) ps (snapshot_ops ops disk)
      in (disk', if ok then p # ready else ready))"

definition sync_snapshots ::
    "(string \<Rightarrow> string) \<Rightarrow> (uuid \<Rightarrow> string) \<Rightarrow> (nat \<Rightarrow> string) \<Rightarrow> (nat \<Rightarrow> nat) \<Rightarrow> (snapshots \<Rightarrow> string list)
     \<Rightarrow> nat \<Rightarrow> pool list \<Rightarrow> snapshots \<Rightarrow> snapshots \<times> pool list option" where
  "sync_snapshots H show_id fresh built listing removed ps disk =
     (let (disk', ready) = prepare_snapshots H show_id fresh built 0 ps disk;
          ops = snapshot_removals H show_id ps (listing disk')
      in (snapshot_ops (take removed ops) disk', if length ops \<le> removed then Some ready else None))"

subsection \<open>What a key says\<close>

definition ids_ok :: "(uuid \<Rightarrow> string) \<Rightarrow> bool" where
  "ids_ok show_id \<longleftrightarrow> inj show_id \<and> (\<forall>i. length (show_id i) = 36 \<and> \<not> prefix ''.'' (show_id i))"

definition artifact_ok :: "pool \<Rightarrow> bool" where
  "artifact_ok p \<longleftrightarrow>
     (\<forall>a. pool_environment_artifact p = Some a \<longrightarrow> a \<noteq> ''base'' \<and> CHR ''-'' \<notin> set a)"

lemma dash_not_digit: "\<not> is_digit CHR ''-''"
  by (simp add: is_digit_def)

lemma before_dash:
  "CHR ''-'' \<notin> set a \<Longrightarrow> CHR ''-'' \<notin> set b \<Longrightarrow> s = [] \<or> hd s = CHR ''-'' \<Longrightarrow> t = [] \<or> hd t = CHR ''-'' \<Longrightarrow>
   a @ s = b @ t \<longleftrightarrow> a = b \<and> s = t"
proof -
  assume *: "CHR ''-'' \<notin> set a" "CHR ''-'' \<notin> set b" "s = [] \<or> hd s = CHR ''-''" "t = [] \<or> hd t = CHR ''-''"
  have "takeWhile (\<lambda>c. c \<noteq> CHR ''-'') (a @ s) = a" "takeWhile (\<lambda>c. c \<noteq> CHR ''-'') (b @ t) = b"
    using * by (cases s; cases t; force simp: takeWhile_append)+
  then show ?thesis by (metis same_append_eq)
qed

lemma snapshot_key_eq:
  assumes "ids_ok show_id" "artifact_ok p" "artifact_ok q"
  shows "snapshot_key H show_id p = snapshot_key H show_id q \<longleftrightarrow>
    pool_image p = pool_image q \<and>
    vcpu_count (pool_cpu_millis p) = vcpu_count (pool_cpu_millis q) \<and>
    pool_memory_mib p = pool_memory_mib q \<and> pool_network p = pool_network q \<and>
    pool_environment_artifact p = pool_environment_artifact q \<and>
    preload_tag H (pool_preload p) = preload_tag H (pool_preload q)"
proof -
  define art where "art = (\<lambda>p :: pool. case pool_environment_artifact p of None \<Rightarrow> ''base'' | Some a \<Rightarrow> a)"
  define net where "net = (\<lambda>p :: pool. if pool_network p then ''net1'' else ''none'')"
  define tag where "tag = (\<lambda>p :: pool. preload_tag H (pool_preload p))"
  define rest1 where "rest1 = (\<lambda>p :: pool. net p @ ''-'' @ art p @ tag p)"
  define rest2 where "rest2 = (\<lambda>p :: pool. decimal (unat (pool_memory_mib p)) @ CHR ''-'' # rest1 p)"
  define rest3 where "rest3 = (\<lambda>p :: pool. decimal (unat (vcpu_count (pool_cpu_millis p))) @ CHR ''-'' # rest2 p)"
  have key: "snapshot_key H show_id p = show_id (pool_image p) @ CHR ''-'' # rest3 p" for p
    by (simp add: snapshot_key_def rest3_def rest2_def rest1_def art_def net_def tag_def)
  have art: "art p = art q \<longleftrightarrow> pool_environment_artifact p = pool_environment_artifact q"
    using assms(2,3) by (auto simp: art_def artifact_ok_def split: option.splits)
  have dash: "CHR ''-'' \<notin> set (art p)" "CHR ''-'' \<notin> set (art q)"
    using assms(2,3) by (auto simp: art_def artifact_ok_def split: option.splits)
  have tag: "tag p = [] \<or> hd (tag p) = CHR ''-''" for p by (simp add: tag_def preload_tag_def)
  have "length (net p) = 4" for p by (simp add: net_def)
  then have r1: "rest1 p = rest1 q \<longleftrightarrow> net p = net q \<and> art p = art q \<and> tag p = tag q"
    using before_dash [OF dash tag tag] by (simp add: rest1_def)
  have net: "net p = net q \<longleftrightarrow> pool_network p = pool_network q" by (simp add: net_def)
  have sep: "decimal m @ CHR ''-'' # r = decimal n @ CHR ''-'' # t \<longleftrightarrow> m = n \<and> r = t" for m n r t
    using decimal_sep [OF _ dash_not_digit dash_not_digit, of m r n t] by auto
  have "snapshot_key H show_id p = snapshot_key H show_id q \<longleftrightarrow>
      pool_image p = pool_image q \<and> rest3 p = rest3 q"
    using assms(1) by (auto simp: key ids_ok_def inj_def append_eq_append_conv)
  then show ?thesis
    by (simp add: rest3_def rest2_def sep r1 art net word_unat_eq_iff tag_def)
qed

lemma snapshot_key_visible:
  assumes "ids_ok show_id"
  shows "\<not> prefix ''.'' (snapshot_key H show_id p)"
proof -
  have "length (show_id (pool_image p)) = 36" "\<not> prefix ''.'' (show_id (pool_image p))"
    using assms by (simp_all add: ids_ok_def)
  then show ?thesis by (cases "show_id (pool_image p)") (simp_all add: snapshot_key_def)
qed

end
