(* ===== verification/Node_Snapshots_Properties.thy ===== *)
theory Node_Snapshots_Properties
  imports Node_Snapshots
begin

section \<open>Ready snapshots are complete and fit\<close>

text \<open>
  The steps of a node on its snapshots: a call of \<open>ensure_snapshot\<close> that gets as far as it gets
  (an operation fails, or the node stops), a clean-up broken off anywhere, and a removal that
  leaves a part of a directory.
\<close>

inductive snapshot_step ::
    "(string \<Rightarrow> string) \<Rightarrow> (uuid \<Rightarrow> string) \<Rightarrow> snapshots \<Rightarrow> snapshots \<Rightarrow> bool"
  for H :: "string \<Rightarrow> string" and show_id :: "uuid \<Rightarrow> string" where
  ensured: "artifact_ok p \<Longrightarrow>
    snapshot_step H show_id disk (snapshot_ops (take k (fst (ensure_snapshot H show_id fresh built p disk))) disk)"
| cleaned: "snapshot_step H show_id disk (snapshot_ops (take k (snapshot_removals H show_id wanted listing)) disk)"
| partly_removed: "disk n = Some d \<Longrightarrow>
    snapshot_step H show_id disk (disk(n \<mapsto> \<lparr>dir_state = (if a then dir_state d else None),
      dir_memory = (if b then dir_memory d else None), dir_ready = (c \<and> dir_ready d)\<rparr>))"

definition made_for :: "(string \<Rightarrow> string) \<Rightarrow> (uuid \<Rightarrow> string) \<Rightarrow> string \<Rightarrow> snapshot_dir \<Rightarrow> bool" where
  "made_for H show_id k d \<longleftrightarrow>
     (\<exists>q. artifact_ok q \<and> dir_state d = Some q \<and> dir_memory d = Some q \<and> snapshot_key H show_id q = k)"

definition snapshots_ok :: "(string \<Rightarrow> string) \<Rightarrow> (uuid \<Rightarrow> string) \<Rightarrow> snapshots \<Rightarrow> bool" where
  "snapshots_ok H show_id disk \<longleftrightarrow>
     (\<forall>k d. \<not> prefix ''.'' k \<longrightarrow> disk k = Some d \<longrightarrow> snapshot_ready disk k \<longrightarrow> made_for H show_id k d)"

lemma snapshot_ops_simps [simp]:
  "snapshot_ops [] disk = disk"
  "snapshot_ops (op # ops) disk = snapshot_ops ops (apply_snapshot_op op disk)"
  "snapshot_ops (xs @ ys) disk = snapshot_ops ys (snapshot_ops xs disk)"
  by (simp_all add: snapshot_ops_def)

lemma temporary_hidden [simp]: "prefix ''.'' (temporary_name key fresh)"
  by (simp add: temporary_name_def)

text \<open>What a list of operations does not name, it does not change.\<close>

fun op_names :: "snapshot_op \<Rightarrow> string set" where
  "op_names (RemoveDir n) = {n}"
| "op_names (CreateDir n) = {n}"
| "op_names (WriteMemory n p) = {n}"
| "op_names (WriteState n p) = {n}"
| "op_names (MarkReady n) = {n}"
| "op_names (RenameDir n m) = {n, m}"

lemma snapshot_ops_frame:
  "\<forall>op \<in> set ops. k \<notin> op_names op \<Longrightarrow> snapshot_ops ops disk k = disk k"
proof (induction ops arbitrary: disk)
  case (Cons op ops)
  then have "apply_snapshot_op op disk k = disk k" by (cases op) (auto simp: in_dir_def)
  with Cons show ?case by simp
qed simp

lemma snapshots_ok_frame:
  assumes "snapshots_ok H show_id disk" "\<And>k. \<not> prefix ''.'' k \<Longrightarrow> disk' k = disk k \<or> disk' k = None"
  shows "snapshots_ok H show_id disk'"
proof (unfold snapshots_ok_def, intro allI impI)
  fix k d
  assume k: "\<not> prefix ''.'' k" "disk' k = Some d" "snapshot_ready disk' k"
  then have "disk' k = disk k" using assms(2) [OF k(1)] by auto
  with k assms(1) show "made_for H show_id k d" by (simp add: snapshots_ok_def snapshot_ready_def)
qed

text \<open>A call that gets to its end leaves a complete snapshot under the key.\<close>

definition full_dir :: "pool \<Rightarrow> snapshot_dir" where
  "full_dir p = \<lparr>dir_state = Some p, dir_memory = Some p, dir_ready = True\<rparr>"

lemma ensure_cases:
  assumes "ids_ok show_id"
  obtains (ready) "snapshot_ready disk (snapshot_key H show_id p)"
      "ensure_snapshot H show_id fresh built p disk = ([], True)"
  | (made) ops where "ensure_snapshot H show_id fresh built p disk
        = (ops @ [RenameDir (temporary_name (snapshot_key H show_id p) fresh) (snapshot_key H show_id p)], True)"
      "\<forall>op \<in> set ops. op_names op \<subseteq> {snapshot_key H show_id p, temporary_name (snapshot_key H show_id p) fresh}"
      "\<And>j. snapshot_ops (take j ops) disk (snapshot_key H show_id p) \<in> {disk (snapshot_key H show_id p), None}"
      "snapshot_ops ops disk (temporary_name (snapshot_key H show_id p) fresh) = Some (full_dir p)"
  | (failed) ops where "ensure_snapshot H show_id fresh built p disk = (ops, False)"
      "\<forall>op \<in> set ops. op_names op \<subseteq> {snapshot_key H show_id p, temporary_name (snapshot_key H show_id p) fresh}"
      "\<And>j. snapshot_ops (take j ops) disk (snapshot_key H show_id p) \<in> {disk (snapshot_key H show_id p), None}"
proof -
  let ?key = "snapshot_key H show_id p" and ?tmp = "temporary_name (snapshot_key H show_id p) fresh"
  let ?steps = "[WriteMemory ?tmp p, WriteState ?tmp p, MarkReady ?tmp]"
  let ?start = "(if disk ?key \<noteq> None then [RemoveDir ?key] else []) @ [CreateDir ?tmp]"
  have ne: "?key \<noteq> ?tmp" using snapshot_key_visible [OF assms, of H p] by (metis temporary_hidden)
  have key: "snapshot_ops (take j ops) d ?key = d ?key" if "\<forall>op \<in> set ops. op_names op \<subseteq> {?tmp}" for j ops d
    by (rule snapshot_ops_frame) (use that ne set_take_subset [of j ops] in blast)
  have prefixes: "snapshot_ops (take j (?start @ ops)) disk ?key \<in> {disk ?key, None}"
    if "\<forall>op \<in> set ops. op_names op \<subseteq> {?tmp}" for j ops
  proof -
    have *: "\<forall>op \<in> set ([CreateDir ?tmp] @ ops). op_names op \<subseteq> {?tmp}" using that by simp
    show ?thesis
    proof (cases "disk ?key")
      case None
      then show ?thesis using key [OF *, of j disk] by simp
    next
      case (Some d)
      then show ?thesis
        using key [OF *, of "j - 1" "apply_snapshot_op (RemoveDir ?key) disk"] by (cases j) auto
    qed
  qed
  show thesis
  proof (cases "snapshot_ready disk ?key")
    case True
    then show ?thesis by (intro ready) (simp_all add: ensure_snapshot_def Let_def)
  next
    case False
    show ?thesis
    proof (cases "3 \<le> built")
      case True
      show ?thesis
      proof (rule made [of "?start @ ?steps"])
        show "ensure_snapshot H show_id fresh built p disk = ((?start @ ?steps) @ [RenameDir ?tmp ?key], True)"
          using False True by (simp add: ensure_snapshot_def Let_def)
        show "snapshot_ops (?start @ ?steps) disk ?tmp = Some (full_dir p)"
          by (simp add: in_dir_def full_dir_def)
        show "snapshot_ops (take j (?start @ ?steps)) disk ?key \<in> {disk ?key, None}" for j
          by (rule prefixes) simp
        show "\<forall>op \<in> set (?start @ ?steps). op_names op \<subseteq> {?key, ?tmp}" by simp
      qed
    next
      case few: False
      show ?thesis
      proof (rule failed [of "?start @ (take built ?steps @ [RemoveDir ?tmp])"])
        show "ensure_snapshot H show_id fresh built p disk = (?start @ take built ?steps @ [RemoveDir ?tmp], False)"
          using False few by (simp add: ensure_snapshot_def Let_def)
        have names: "\<forall>op \<in> set (take built ?steps @ [RemoveDir ?tmp]). op_names op \<subseteq> {?tmp}"
          using set_take_subset [of built ?steps] by fastforce
        show "snapshot_ops (take j (?start @ take built ?steps @ [RemoveDir ?tmp])) disk ?key \<in> {disk ?key, None}" for j
          by (rule prefixes) (rule names)
        have "\<forall>op \<in> set ?start. op_names op \<subseteq> {?key, ?tmp}" by simp
        then show "\<forall>op \<in> set (?start @ take built ?steps @ [RemoveDir ?tmp]). op_names op \<subseteq> {?key, ?tmp}"
          using names by fastforce
      qed
    qed
  qed
qed

lemma removals_only_remove:
  "snapshot_ops (map RemoveDir ns) disk n = disk n \<or> snapshot_ops (map RemoveDir ns) disk n = None"
  by (induction ns arbitrary: disk)
    (simp, metis apply_snapshot_op.simps(1) fun_upd_apply list.simps(9) snapshot_ops_simps(2))

lemma snapshot_step_ok:
  assumes "ids_ok show_id" "snapshots_ok H show_id disk" "snapshot_step H show_id disk disk'"
  shows "snapshots_ok H show_id disk'"
  using assms(3)
proof (cases rule: snapshot_step.cases)
  case (ensured p k fresh built)
  let ?key = "snapshot_key H show_id p" and ?tmp = "temporary_name (snapshot_key H show_id p) fresh"
  have others: "snapshot_ops (take j ops) disk n = disk n"
    if "\<forall>op \<in> set ops. op_names op \<subseteq> {?key, ?tmp}" "n \<noteq> ?key" "\<not> prefix ''.'' n" for j ops n
  proof (rule snapshot_ops_frame)
    have "n \<noteq> ?tmp" using that(3) by auto
    then show "\<forall>op \<in> set (take j ops). n \<notin> op_names op"
      using that(1,2) set_take_subset [of j ops] by blast
  qed
  from assms(1) show ?thesis
  proof (cases rule: ensure_cases [of show_id disk H p fresh built])
    case ready
    then show ?thesis using ensured assms(2) by simp
  next
    case (failed ops)
    show ?thesis
    proof (rule snapshots_ok_frame [OF assms(2)])
      fix n
      assume n: "\<not> prefix ''.'' n"
      have d: "disk' = snapshot_ops (take k ops) disk" using failed(1) ensured by simp
      show "disk' n = disk n \<or> disk' n = None"
        unfolding d using others [OF failed(2) _ n] failed(3) [of k] by (cases "n = ?key") auto
    qed
  next
    case (made ops)
    show ?thesis
    proof (cases "k \<le> length ops")
      case True
      then have d: "disk' = snapshot_ops (take k ops) disk" using made(1) ensured by simp
      show ?thesis
      proof (rule snapshots_ok_frame [OF assms(2)])
        fix n
        assume n: "\<not> prefix ''.'' n"
        show "disk' n = disk n \<or> disk' n = None"
          unfolding d using others [OF made(2) _ n] made(3) [of k] by (cases "n = ?key") auto
      qed
    next
      case False
      then have d: "disk' = (snapshot_ops ops disk)(?key \<mapsto> full_dir p, ?tmp := None)"
        using made(1,4) ensured by simp
      show ?thesis
      proof (unfold snapshots_ok_def, intro allI impI)
        fix n x
        assume n: "\<not> prefix ''.'' n" "disk' n = Some x" "snapshot_ready disk' n"
        show "made_for H show_id n x"
        proof (cases "n = ?key")
          case True
          then have "x = full_dir p" using n d by (auto split: if_splits)
          then show ?thesis using ensured(2) True by (auto simp: made_for_def full_dir_def)
        next
          case False
          moreover have "n \<noteq> ?tmp" using n(1) by auto
          ultimately have "disk' n = disk n"
            using d others [OF made(2) False n(1), of "length ops"] by simp
          then have "disk n = Some x" "snapshot_ready disk n" using n(2,3) by (simp_all add: snapshot_ready_def)
          then show ?thesis using n(1) assms(2) by (simp add: snapshots_ok_def)
        qed
      qed
    qed
  qed
next
  case (cleaned k wanted listing)
  show ?thesis
    unfolding cleaned snapshot_removals_def take_map
    by (rule snapshots_ok_frame [OF assms(2)]) (rule removals_only_remove)
next
  case (partly_removed n d a b c)
  show ?thesis
    unfolding partly_removed snapshots_ok_def
    using assms(2) partly_removed(2) unfolding snapshots_ok_def snapshot_ready_def made_for_def
    by (auto split: if_splits)
qed

lemma boot_requests_cong:
  assumes "pool_image q = pool_image p"
    "vcpu_count (pool_cpu_millis q) = vcpu_count (pool_cpu_millis p)"
    "pool_memory_mib q = pool_memory_mib p" "pool_network q = pool_network p"
    "pool_environment_artifact q = pool_environment_artifact p"
  shows "fst (boot_requests show_id data_dir kernel_path vsock tap q)
    = fst (boot_requests show_id data_dir kernel_path vsock tap p)"
  by (simp only: boot_requests_def configure_boot_def assms fst_conv)

text \<open>
  When a snapshot is returned for a pool, its directory is complete and was made for a pool with the
  same key.
\<close>

lemma ensured_snapshot:
  assumes "ids_ok show_id" "artifact_ok p" "snapshots_ok H show_id disk"
    and "ensure_snapshot H show_id fresh built p disk = (ops, True)"
  shows "\<exists>q. artifact_ok q \<and> snapshot_ops ops disk (snapshot_key H show_id p) = Some (full_dir q) \<and>
    snapshot_key H show_id q = snapshot_key H show_id p"
proof -
  let ?key = "snapshot_key H show_id p"
  show ?thesis
    using assms(1)
  proof (cases rule: ensure_cases [of show_id disk H p fresh built])
    case ready
    then obtain d where d: "disk ?key = Some d" "dir_ready d" by (auto simp: snapshot_ready_def split: option.splits)
    then have "made_for H show_id ?key d"
      using assms(3) ready snapshot_key_visible [OF assms(1)] by (simp add: snapshots_ok_def)
    then obtain q where "artifact_ok q" "d = full_dir q" "snapshot_key H show_id q = ?key"
      using d(2) by (auto simp: made_for_def full_dir_def)
    then show ?thesis using ready assms(4) d(1) by auto
  next
    case (made os)
    then have "ops = os @ [RenameDir (temporary_name ?key fresh) ?key]" using assms(4) by simp
    moreover have "?key \<noteq> temporary_name ?key fresh"
      using snapshot_key_visible [OF assms(1), of H p] by (metis temporary_hidden)
    ultimately show ?thesis using made(4) assms(2) by auto
  next
    case (failed os)
    then show ?thesis using assms(4) by simp
  qed
qed

text \<open>A complete snapshot stays what it is while those of other pools are made.\<close>

lemma ensure_keeps_full:
  assumes "ids_ok show_id" "\<not> prefix ''.'' k" "disk k = Some (full_dir q)"
  shows "snapshot_ops (fst (ensure_snapshot H show_id fresh built p disk)) disk k = Some (full_dir q)"
proof (cases "snapshot_ready disk (snapshot_key H show_id p)")
  case True
  then show ?thesis using assms(3) by (simp add: ensure_snapshot_def Let_def)
next
  case False
  then have k: "k \<noteq> snapshot_key H show_id p" using assms(3) by (auto simp: snapshot_ready_def full_dir_def)
  have t: "k \<noteq> temporary_name (snapshot_key H show_id p) fresh" using assms(2) by auto
  have sub: "op_names op \<subseteq> {snapshot_key H show_id p, temporary_name (snapshot_key H show_id p) fresh}"
    if "op \<in> set (fst (ensure_snapshot H show_id fresh built p disk))" for op
    using assms(1)
  proof (cases rule: ensure_cases [of show_id disk H p fresh built])
    case ready
    then show ?thesis using False by simp
  next
    case (made ops)
    with that show ?thesis by auto
  next
    case (failed ops)
    with that show ?thesis by simp
  qed
  have "snapshot_ops (fst (ensure_snapshot H show_id fresh built p disk)) disk k = disk k"
    by (rule snapshot_ops_frame) (use sub k t in blast)
  then show ?thesis using assms(3) by simp
qed

lemma ensure_keeps_ok:
  assumes "ids_ok show_id" "snapshots_ok H show_id disk" "artifact_ok p"
  shows "snapshots_ok H show_id (snapshot_ops (fst (ensure_snapshot H show_id fresh built p disk)) disk)"
  using snapshot_step_ok [OF assms(1,2) snapshot_step.ensured [OF assms(3),
      where k = "length (fst (ensure_snapshot H show_id fresh built p disk))" and fresh = fresh and built = built]]
  by simp

lemma prepare_keeps_full:
  assumes "ids_ok show_id" "\<not> prefix ''.'' k" "disk k = Some (full_dir q)"
  shows "fst (prepare_snapshots H show_id fresh built i ps disk) k = Some (full_dir q)"
  using assms(3)
proof (induction ps arbitrary: i disk)
  case (Cons p ps)
  have "snapshot_ops (fst (ensure_snapshot H show_id (fresh i) (built i) p disk)) disk k = Some (full_dir q)"
    by (rule ensure_keeps_full) (use assms Cons.prems in simp_all)
  from Cons.IH [where disk = "snapshot_ops (fst (ensure_snapshot H show_id (fresh i) (built i) p disk)) disk",
      OF this] show ?case
    by (simp add: Let_def split_beta)
qed simp

lemma prepared_snapshots:
  assumes "ids_ok show_id" "\<forall>p \<in> set ps. artifact_ok p" "snapshots_ok H show_id disk"
    and "p \<in> set (snd (prepare_snapshots H show_id fresh built i ps disk))"
  shows "p \<in> set ps \<and> (\<exists>q. artifact_ok q \<and>
    fst (prepare_snapshots H show_id fresh built i ps disk) (snapshot_key H show_id p) = Some (full_dir q) \<and>
    snapshot_key H show_id q = snapshot_key H show_id p)"
  using assms(2-4)
proof (induction ps arbitrary: i disk)
  case (Cons r ps)
  let ?e = "ensure_snapshot H show_id (fresh i) (built i) r disk"
  let ?d = "snapshot_ops (fst ?e) disk"
  let ?rest = "prepare_snapshots H show_id fresh built (Suc i) ps ?d"
  have eq: "prepare_snapshots H show_id fresh built i (r # ps) disk
      = (fst ?rest, if snd ?e then r # snd ?rest else snd ?rest)"
    by (simp add: Let_def split_beta)
  have ok: "snapshots_ok H show_id ?d" using ensure_keeps_ok [OF assms(1) Cons.prems(2)] Cons.prems(1) by simp
  from Cons.prems(3) eq consider (this) "p = r" "snd ?e" | (later) "p \<in> set (snd ?rest)"
    by (auto split: if_splits)
  then show ?case
  proof cases
    case this
    from this(2) have "?e = (fst ?e, True)" by (metis prod.collapse)
    from ensured_snapshot [OF assms(1) _ Cons.prems(2) this] Cons.prems(1)
    obtain q where q: "artifact_ok q" "?d (snapshot_key H show_id r) = Some (full_dir q)"
        "snapshot_key H show_id q = snapshot_key H show_id r" by auto
    have "fst ?rest (snapshot_key H show_id r) = Some (full_dir q)"
      by (rule prepare_keeps_full) (use assms(1) snapshot_key_visible q(2) in simp_all)
    with q \<open>p = r\<close> show ?thesis unfolding eq by auto
  next
    case later
    from Cons.IH [OF _ ok later] Cons.prems(1) show ?thesis unfolding eq by auto
  qed
qed simp

lemma removed_dirs:
  "snapshot_ops (map RemoveDir ns) disk k = (if k \<in> set ns then None else disk k)"
proof (cases "k \<in> set ns")
  case True
  then show ?thesis
  proof (induction ns arbitrary: disk)
    case (Cons n ns)
    have "snapshot_ops (map RemoveDir ns) (disk(k := None)) k = None" for ns :: "string list" and disk
      by (rule disjE [OF removals_only_remove]) (simp_all)
    with Cons show ?case by (cases "k = n") auto
  qed simp
next
  case False
  then have "\<forall>op \<in> set (map RemoveDir ns). k \<notin> op_names op" by auto
  with False show ?thesis by (simp add: snapshot_ops_frame)
qed

text \<open>C33: whatever failed before and wherever the node stopped, when a synchronisation ends, every
  pool it returns has a complete snapshot, made for a pool that boots the very same machine: with the same
  image, processors, memory, network and environment, hence with the same requests to the hypervisor,
  and with the same preload up to its digest; and no directory is left but those of the listed pools
  and hidden ones.\<close>

theorem synchronised_snapshots_fit:
  assumes "ids_ok show_id" "\<forall>p \<in> set ps. artifact_ok p" "\<And>n. fst (prepare_snapshots H show_id fresh built 0 ps disk) n \<noteq> None \<Longrightarrow>
      n \<in> set (listing (fst (prepare_snapshots H show_id fresh built 0 ps disk)))"
    and "reachable (\<lambda>disk. disk = (\<lambda>_. None)) (snapshot_step H show_id) disk"
    and "sync_snapshots H show_id fresh built listing removed ps disk = (disk', Some ready)"
  shows "(\<forall>p \<in> set ready. p \<in> set ps \<and>
      (\<exists>q. disk' (snapshot_key H show_id p) = Some (full_dir q) \<and>
        fst (boot_requests show_id data_dir kernel_path vsock tap q)
          = fst (boot_requests show_id data_dir kernel_path vsock tap p) \<and>
        preload_tag H (pool_preload q) = preload_tag H (pool_preload p))) \<and>
    (\<forall>n. disk' n \<noteq> None \<longrightarrow> prefix ''.'' n \<or> (\<exists>p \<in> set ps. n = snapshot_key H show_id p))"
proof -
  have ok: "snapshots_ok H show_id disk"
    using assms(4)
  proof (induction rule: reachable.induct)
    case (reachable_initial disk)
    then show ?case by (simp add: snapshots_ok_def)
  qed (rule snapshot_step_ok [OF assms(1)])
  let ?P = "prepare_snapshots H show_id fresh built 0 ps disk"
  define gone where "gone = filter (\<lambda>n. \<not> prefix ''.'' n \<and> n \<notin> set (map (snapshot_key H show_id) ps)) (listing (fst ?P))"
  have ops: "snapshot_removals H show_id ps (listing (fst ?P)) = map RemoveDir gone"
    by (simp only: snapshot_removals_def gone_def)
  have ended: "length gone \<le> removed" "ready = snd ?P" "disk' = snapshot_ops (take removed (map RemoveDir gone)) (fst ?P)"
    using assms(5) by (auto simp: sync_snapshots_def split_beta Let_def ops split: if_splits)
  have r: "ready = snd ?P" and d: "disk' n = (if n \<in> set gone then None else fst ?P n)" for n
    using ended by (simp_all add: removed_dirs)
  have "p \<in> set ps \<and> (\<exists>q. disk' (snapshot_key H show_id p) = Some (full_dir q) \<and>
        fst (boot_requests show_id data_dir kernel_path vsock tap q)
          = fst (boot_requests show_id data_dir kernel_path vsock tap p) \<and>
        preload_tag H (pool_preload q) = preload_tag H (pool_preload p))" if "p \<in> set ready" for p
  proof -
    from prepared_snapshots [OF assms(1,2) ok that [unfolded r]] obtain q where
      q: "p \<in> set ps" "artifact_ok q" "fst ?P (snapshot_key H show_id p) = Some (full_dir q)"
        "snapshot_key H show_id q = snapshot_key H show_id p" by blast
    have "snapshot_key H show_id p \<notin> set gone" using q(1) by (simp add: gone_def)
    then have "disk' (snapshot_key H show_id p) = Some (full_dir q)" using d q(3) by simp
    moreover have "artifact_ok p" using assms(2) q(1) by blast
    from snapshot_key_eq [OF assms(1) q(2) this, THEN iffD1, OF q(4)]
    have "fst (boot_requests show_id data_dir kernel_path vsock tap q)
          = fst (boot_requests show_id data_dir kernel_path vsock tap p) \<and>
        preload_tag H (pool_preload q) = preload_tag H (pool_preload p)"
      using boot_requests_cong by blast
    ultimately show ?thesis using q(1) by blast
  qed
  moreover have "prefix ''.'' n \<or> (\<exists>p \<in> set ps. n = snapshot_key H show_id p)" if "disk' n \<noteq> None" for n
  proof -
    have n: "n \<notin> set gone" "fst ?P n \<noteq> None" using d [of n] that by (auto split: if_splits)
    with assms(3) show ?thesis by (auto simp: gone_def)
  qed
  ultimately show ?thesis by blast
qed

text \<open>A text of 36 characters for every identifier.\<close>

definition wide_id :: "uuid \<Rightarrow> string" where
  "wide_id i = CHR ''0'' # replicate 19 CHR ''0'' @
     map (\<lambda>k. char_of (unat (take_bit 8 (drop_bit (8 * k) i)))) [0..<16]"

lemma wide_id_ok: "ids_ok wide_id"
proof -
  have "i = j" if "wide_id i = wide_id j" for i j
  proof (rule bit_word_eqI)
    fix n
    assume "n < LENGTH(128)"
    then have "n div 8 \<in> set [0..<16]" by simp
    with that have c: "char_of (unat (take_bit 8 (drop_bit (8 * (n div 8)) i)))
        = (char_of (unat (take_bit 8 (drop_bit (8 * (n div 8)) j))) :: char)"
      by (simp add: wide_id_def)
    have small: "unat (take_bit 8 (x :: uuid)) < 256" for x
      using take_bit_nat_less_exp [of 8 "unat x"] by (simp add: unsigned_take_bit_eq)
    have "unat (take_bit 8 (drop_bit (8 * (n div 8)) i)) = unat (take_bit 8 (drop_bit (8 * (n div 8)) j))"
      using c small by (simp add: char_of_eq_iff take_bit_nat_eq_self)
    then have "take_bit 8 (drop_bit (8 * (n div 8)) i) = take_bit 8 (drop_bit (8 * (n div 8)) j)"
      by (simp add: word_unat_eq_iff)
    then have "bit (take_bit 8 (drop_bit (8 * (n div 8)) i)) (n mod 8)
        = bit (take_bit 8 (drop_bit (8 * (n div 8)) j)) (n mod 8)" by simp
    then show "bit i n = bit j n" by (simp add: bit_simps)
  qed
  then show ?thesis by (auto simp: ids_ok_def inj_def wide_id_def)
qed

definition demo_kind :: pool where
  "demo_kind =
     \<lparr>pool_name = ''p'', pool_image = 1, pool_warm_instances = 0, pool_max_instances = None,
      pool_cpu_millis = 1500, pool_memory_mib = 256, pool_disk_mib = 0, pool_timeout_secs = 30,
      pool_idle_timeout_secs = 60, pool_reuse = True, pool_network = False, pool_ports = [],
      pool_managed_by = None, pool_environment = None, pool_environment_artifact = None,
      pool_preload = []\<rparr>"

text \<open>
  A pool of 1200 millis runs from the snapshot of one of 1500, which an earlier call made on an empty
  disk, and which is all that a listing shows.
\<close>

theorem synchronised_snapshots_fit_witness:
  "\<exists>q disk disk'. sync_snapshots (\<lambda>s. s) wide_id (\<lambda>_. ''y'') (\<lambda>_. 3) (\<lambda>_. [snapshot_key (\<lambda>s. s) wide_id demo_kind]) 0
      [demo_kind\<lparr>pool_cpu_millis := 1200\<rparr>] disk = (disk', Some [demo_kind\<lparr>pool_cpu_millis := 1200\<rparr>]) \<and>
    disk = (\<lambda>_. None)(snapshot_key (\<lambda>s. s) wide_id demo_kind \<mapsto> full_dir demo_kind) \<and>
    disk' (snapshot_key (\<lambda>s. s) wide_id (demo_kind\<lparr>pool_cpu_millis := 1200\<rparr>)) = Some (full_dir q) \<and>
    fst (boot_requests wide_id ''d'' ''k'' ''v'' ''t'' q)
      = fst (boot_requests wide_id ''d'' ''k'' ''v'' ''t'' (demo_kind\<lparr>pool_cpu_millis := 1200\<rparr>))"
proof -
  let ?p = "demo_kind" and ?p' = "demo_kind\<lparr>pool_cpu_millis := 1200\<rparr>"
  let ?H = "\<lambda>s :: string. s"
  let ?empty = "\<lambda>_ :: string. None :: snapshot_dir option"
  have art: "artifact_ok ?p" "artifact_ok ?p'" by (simp_all add: artifact_ok_def demo_kind_def)
  have key: "snapshot_key ?H wide_id ?p' = snapshot_key ?H wide_id ?p"
    by (subst snapshot_key_eq [OF wide_id_ok art(2,1)]) (simp add: demo_kind_def vcpu_count_def)
  let ?key = "snapshot_key ?H wide_id ?p" and ?tmp = "temporary_name (snapshot_key ?H wide_id ?p) ''x''"
  let ?ops = "fst (ensure_snapshot ?H wide_id ''x'' 3 ?p ?empty)"
  let ?disk = "?empty(?key \<mapsto> full_dir ?p)"
  have vis: "?key \<noteq> ?tmp"
    using snapshot_key_visible [OF wide_id_ok] by (metis temporary_hidden)
  have "?ops = [CreateDir ?tmp, WriteMemory ?tmp ?p, WriteState ?tmp ?p, MarkReady ?tmp, RenameDir ?tmp ?key]"
    by (simp add: ensure_snapshot_def snapshot_ready_def Let_def)
  then have disk: "snapshot_ops (take 5 ?ops) ?empty = ?disk"
    using vis by (simp add: in_dir_def full_dir_def fun_upd_twist)
  have init: "reachable (\<lambda>disk. disk = (\<lambda>_. None)) (snapshot_step ?H wide_id) ?empty"
    by (rule reachable_initial) simp
  have reach: "reachable (\<lambda>disk. disk = (\<lambda>_. None)) (snapshot_step ?H wide_id) ?disk"
    unfolding disk [symmetric] by (rule reachable_step [OF init]) (rule snapshot_step.ensured [OF art(1)])
  have "snapshot_ready ?disk ?key" by (simp add: snapshot_ready_def full_dir_def)
  then have prep: "prepare_snapshots ?H wide_id (\<lambda>_. ''y'') (\<lambda>_. 3) 0 [?p'] ?disk = (?disk, [?p'])"
    by (simp add: ensure_snapshot_def Let_def key)
  then have sync: "sync_snapshots ?H wide_id (\<lambda>_. ''y'') (\<lambda>_. 3) (\<lambda>_. [?key]) 0 [?p'] ?disk = (?disk, Some [?p'])"
    by (simp add: sync_snapshots_def snapshot_removals_def key del: prepare_snapshots.simps)
  have all: "\<forall>p \<in> set [?p']. artifact_ok p" using art by simp
  have listed: "n \<in> set [?key]"
    if "fst (prepare_snapshots ?H wide_id (\<lambda>_. ''y'') (\<lambda>_. 3) 0 [?p'] ?disk) n \<noteq> None" for n
    using that unfolding prep by (simp split: if_splits)
  have "?p' \<in> set [?p']" by simp
  with synchronised_snapshots_fit [OF wide_id_ok all listed reach sync, THEN conjunct1]
  obtain q where "?disk (snapshot_key ?H wide_id ?p') = Some (full_dir q)"
    "fst (boot_requests wide_id ''d'' ''k'' ''v'' ''t'' q) = fst (boot_requests wide_id ''d'' ''k'' ''v'' ''t'' ?p')"
    by blast
  with sync show ?thesis by (intro exI [of _ q] exI [of _ ?disk] conjI refl)
qed

subsection \<open>Temporary directories that are left\<close>

text \<open>
  The clean-up passes over hidden names, and nothing else looks at them: the temporary directory of
  a node that stopped while it made a snapshot stays, with the memory of a machine in it.
\<close>

lemma cleanup_keeps_temporary:
  "prefix ''.'' n \<Longrightarrow> snapshot_ops (take k (snapshot_removals H show_id wanted listing)) disk n = disk n"
proof -
  assume n: "prefix ''.'' n"
  show ?thesis
  proof (rule snapshot_ops_frame, rule ballI)
    fix op
    assume "op \<in> set (take k (snapshot_removals H show_id wanted listing))"
    then have "op \<in> set (snapshot_removals H show_id wanted listing)" by (rule in_set_takeD)
    then show "n \<notin> op_names op" using n by (auto simp: snapshot_removals_def)
  qed
qed

end
