(* ===== verification/Node_Start.thy ===== *)
theory Node_Start
  imports Node_Vms Node_Network_Facts Node_Redaction Node_Metrics
begin

section \<open>Starting and destroying a machine\<close>

text \<open>
  \<open>start_vm\<close> and \<open>destroy_vm\<close> of \<open>platform/src/node.rs\<close>. What the host, the hypervisor and the guest
  answer is in \<open>start_inputs\<close>: for each part the text of its error, if it fails. The requests to the
  guest and the handling of the network lease on every path are the code's.
\<close>

datatype guest_reply = Answer completion | NoAnswer string

record start_inputs =
  si_id :: uuid
  si_snapshot :: "string option"
  si_available :: "port_protocol \<Rightarrow> u16 \<Rightarrow> bool"
  si_run :: "string \<times> string list \<Rightarrow> bool"
  si_simple :: "uuid \<Rightarrow> string"
  si_network_error :: string
  si_prepare :: "string option"
  si_boot :: "string option"
  si_unix_time :: u64
  si_guest :: "json \<Rightarrow> guest_reply"
  si_connect :: "string option"
  si_pid :: "u32 option"
  si_now :: nat

subsection \<open>What the guest is asked\<close>

definition snapshot_request :: "u64 \<Rightarrow> json" where
  "snapshot_request unix_time =
     JObject [(''encoding'', JString ''scraperack-snapshot''), (''unix_time'', JNumber (Float unix_time))]"

definition network_request :: "network_lease \<Rightarrow> json" where
  "network_request lease =
     JObject [(''encoding'', JString ''scraperack-network''),
       (''address'', JString (ipv4_text (lease_guest_ip lease))),
       (''prefix'', JNumber (PosInt 30)),
       (''gateway'', JString (ipv4_text (lease_gateway lease))),
       (''dns'', JArray [JString ''10.239.255.254''])]"

definition preload_request :: "pool \<Rightarrow> network_lease option \<Rightarrow> json" where
  "preload_request p lease =
     JObject ([(''encoding'', JString ''scraperack-preload''),
        (''modules'', JArray (map JString (pool_preload p)))]
       @ (case lease of
            None \<Rightarrow> []
          | Some l \<Rightarrow> [(''url'', JString (concat [''http://'', ipv4_text (lease_gateway l), '':7070/health'']))]))"

text \<open>The requests in their order, each with the beginning of the error when the guest refuses.\<close>

definition start_requests :: "u64 \<Rightarrow> pool \<Rightarrow> network_lease option \<Rightarrow> (json \<times> string) list" where
  "start_requests unix_time p lease =
     [(snapshot_request unix_time, ''restored guest failed its readiness check: '')]
     @ (case lease of None \<Rightarrow> []
        | Some l \<Rightarrow> [(network_request l, ''guest network configuration failed: '')])
     @ (if pool_preload p = [] then []
        else [(preload_request p lease, ''restored guest preload failed: '')])"

fun dialogue :: "(json \<Rightarrow> guest_reply) \<Rightarrow> (json \<times> string) list \<Rightarrow> string option" where
  "dialogue guest [] = None"
| "dialogue guest ((request, message) # rest) =
     (case guest request of
        NoAnswer e \<Rightarrow> Some e
      | Answer c \<Rightarrow>
          (case comp_error c of Some e \<Rightarrow> Some (message @ e) | None \<Rightarrow> dialogue guest rest))"

text \<open>The block whose errors are caught: boot, the dialogue, the connection that is kept.\<close>

definition guarded_start :: "start_inputs \<Rightarrow> pool \<Rightarrow> network_lease option \<Rightarrow> string option" where
  "guarded_start si p lease =
     (case si_boot si of
        Some e \<Rightarrow> Some e
      | None \<Rightarrow>
          (case dialogue (si_guest si) (start_requests (si_unix_time si) p lease) of
             Some e \<Rightarrow> Some e
           | None \<Rightarrow> si_connect si))"

subsection \<open>The machine and its lease\<close>

definition new_vm :: "start_inputs \<Rightarrow> pool \<Rightarrow> network_lease option \<Rightarrow> live_vm" where
  "new_vm si p lease =
     \<lparr>live_id = si_id si, live_pool = p, live_pid = si_pid si, live_network = lease,
      live_functions = {}, live_working_dirs = {}, live_last_used = si_now si\<rparr>"

definition release_optional :: "network_lease option \<Rightarrow> network_state \<Rightarrow> network_state" where
  "release_optional lease net = (case lease of None \<Rightarrow> net | Some l \<Rightarrow> release_lease l net)"

definition lease_for :: "start_inputs \<Rightarrow> pool \<Rightarrow> network_state \<Rightarrow> (string + network_lease option) \<times> network_state" where
  "lease_for si p net =
     (if \<not> pool_network p then (Inr None, net)
      else case allocate (si_available si) (si_run si) (si_simple si) (si_id si) (pool_ports p) net of
          (None, net1) \<Rightarrow> (Inl (si_network_error si), net1)
        | (Some l, net1) \<Rightarrow> (Inr (Some l), net1))"

definition start_vm :: "start_inputs \<Rightarrow> pool \<Rightarrow> network_state \<Rightarrow> (string + live_vm) \<times> network_state" where
  "start_vm si p net =
     (case si_snapshot si of
        Some e \<Rightarrow> (Inl e, net)
      | None \<Rightarrow>
          (case lease_for si p net of
             (Inl e, net1) \<Rightarrow> (Inl e, net1)
           | (Inr lease, net1) \<Rightarrow>
               (case si_prepare si of
                  Some e \<Rightarrow> (Inl e, net1)
                | None \<Rightarrow>
                    (case guarded_start si p lease of
                       Some e \<Rightarrow> (Inl e, release_optional lease net1)
                     | None \<Rightarrow> (Inr (new_vm si p lease), net1)))))"

definition destroy_vm :: "live_vm \<Rightarrow> network_state \<Rightarrow> network_state" where
  "destroy_vm vm net = release_optional (live_network vm) net"

subsection \<open>Leases through a start\<close>

lemma leases_ok_perm: "mset L = mset L' \<Longrightarrow> leases_ok simple s L = leases_ok simple s L'"
proof -
  assume m: "mset L = mset L'"
  have subnets: "mset (map lease_subnet L) = mset (map lease_subnet L')" using m by simp
  have keys: "mset (concat (map lease_keys L)) = mset (concat (map lease_keys L'))"
    using sum_list_cong_mset [OF m, of "\<lambda>l. mset (lease_keys l)"] by (simp add: mset_concat comp_def)
  show ?thesis
    unfolding leases_ok_def mset_eq_imp_distinct_iff [OF subnets] mset_eq_imp_distinct_iff [OF keys]
      mset_eq_setD [OF subnets] mset_eq_setD [OF keys] mset_eq_setD [OF m] ..
qed

lemma allocate_leases:
  assumes "allocate av run simple i specs s = (r, s')" "leases_ok simple s L"
  shows "leases_ok simple s' ((case r of None \<Rightarrow> [] | Some l \<Rightarrow> [l]) @ L)"
proof -
  obtain x s1 where x: "reserve_lease av specs s = (x, s1)" by fastforce
  show ?thesis
  proof (cases x)
    case None
    then have "net_step simple (s, L) (s1, L)" using x by (auto intro: net_step.intros)
    then have "leases_ok simple s1 L" using net.inv_step [of simple "(s, L)" "(s1, L)"] assms(2) by simp
    then show ?thesis using assms(1) x None by (auto simp: allocate_def)
  next
    case (Some y)
    obtain subnet ps where y: "y = (subnet, ps)" by (cases y)
    let ?l = "make_lease simple i subnet ps"
    have "net_step simple (s, L) (s1, ?l # L)" using x Some y by (auto intro: net_step.intros)
    then have ok: "leases_ok simple s1 (?l # L)"
      using net.inv_step [of simple "(s, L)" "(s1, ?l # L)"] assms(2) by simp
    have "leases_ok simple (release_lease ?l s1) L"
      using leases_ok_release [OF ok, of ?l] by simp
    with ok show ?thesis
      using assms(1) x Some y by (auto simp: allocate_def Let_def split: if_splits)
  qed
qed

definition vm_leases :: "live_vm list \<Rightarrow> network_lease list" where
  "vm_leases vms = List.map_filter live_network vms"

lemma vm_leases_simps [simp]:
  "vm_leases [] = []"
  "vm_leases (vm # vms) = (case live_network vm of None \<Rightarrow> [] | Some l \<Rightarrow> [l]) @ vm_leases vms"
  "vm_leases (xs @ ys) = vm_leases xs @ vm_leases ys"
  by (simp_all add: vm_leases_def map_filter_def split: option.split)

lemma mset_map_filter:
  "mset (List.map_filter f xs) = image_mset (the \<circ> f) (filter_mset (\<lambda>x. f x \<noteq> None) (mset xs))"
  by (simp add: map_filter_def mset_filter)

lemma destroy_leases:
  assumes "leases_ok simple s (vm_leases (vm # vms) @ L)"
  shows "leases_ok simple (destroy_vm vm s) (vm_leases vms @ L)"
proof (cases "live_network vm")
  case None
  then show ?thesis using assms by (simp add: destroy_vm_def release_optional_def)
next
  case (Some l)
  then show ?thesis
    using leases_ok_release [OF assms, of l] by (simp add: destroy_vm_def release_optional_def)
qed

text \<open>
  A failure between the allocation and the guarded block returns without releasing the lease, which
  no machine holds then.
\<close>

definition lost_lease :: "start_inputs \<Rightarrow> pool \<Rightarrow> network_state \<Rightarrow> network_lease list" where
  "lost_lease si p net =
     (if si_snapshot si = None \<and> si_prepare si \<noteq> None
      then case lease_for si p net of (Inr (Some l), _) \<Rightarrow> [l] | _ \<Rightarrow> [] else [])"

lemma start_vm_leases:
  assumes "start_vm si p s = (r, s')" "leases_ok (si_simple si) s L"
  shows "case r of
      Inr vm \<Rightarrow> vm = new_vm si p (live_network vm) \<and> leases_ok (si_simple si) s' (vm_leases [vm] @ L)
    | Inl _ \<Rightarrow> leases_ok (si_simple si) s' (lost_lease si p s @ L)"
proof (cases "si_snapshot si")
  case (Some e)
  then show ?thesis using assms by (auto simp: start_vm_def lost_lease_def)
next
  case None
  obtain x s1 where x: "lease_for si p s = (x, s1)" by fastforce
  have l: "leases_ok (si_simple si) s1 ((case x of Inr (Some l) \<Rightarrow> [l] | _ \<Rightarrow> []) @ L)"
    using x assms(2) allocate_leases [of "si_available si" "si_run si" "si_simple si" "si_id si" "pool_ports p" s]
    by (fastforce simp: lease_for_def split: if_splits prod.splits option.splits)
  show ?thesis
  proof (cases x)
    case (Inl e)
    then show ?thesis using assms(1) None x l by (auto simp: start_vm_def lost_lease_def)
  next
    case (Inr lease)
    have released: "leases_ok (si_simple si) (release_optional lease s1) L"
      using l Inr leases_ok_release [of "si_simple si" s1 _ _]
      by (cases lease) (force simp: release_optional_def)+
    show ?thesis
    proof (cases "si_prepare si")
      case (Some e)
      then show ?thesis using assms(1) None x l Inr
        by (cases lease) (auto simp: start_vm_def lost_lease_def)
    next
      case prepared: None
      show ?thesis
        using assms(1) None x l Inr prepared released
        by (cases "guarded_start si p lease") (auto simp: start_vm_def new_vm_def lost_lease_def)
    qed
  qed
qed

end
