(* ===== verification/Node_Execution.thy ===== *)
theory Node_Execution
  imports Node_Start
begin

section \<open>Running an execution on a node\<close>

text \<open>
  \<open>run_execution\<close> of \<open>platform/src/node.rs\<close>: the request that a virtual machine gets for an execution,
  what becomes of its answer, and what becomes of the machine. The state is the machines and the
  network of the node; what lies outside the process is in \<open>run_inputs\<close>.
\<close>

record run_inputs =
  ri_working_dir :: "string option"
  ri_start :: start_inputs
  ri_archive :: "string + string"
  ri_cgroup :: bool
  ri_floats :: float_ops
  ri_before :: vm_counters
  ri_readings :: "(vm_counters \<times> u64) list"
  ri_at_end :: "vm_counters \<times> u64"
  ri_response :: "guest_reply option"
  ri_now :: nat

subsection \<open>The request\<close>

definition wanted_dir :: "work \<Rightarrow> string option" where
  "wanted_dir w = json_get_str ''working_dir'' (exec_payload (work_execution w))"

definition bare_payload :: "work \<Rightarrow> json" where
  "bare_payload w = json_remove_field ''working_dir'' (exec_payload (work_execution w))"

definition function_key :: "json \<Rightarrow> string option" where
  "function_key payload =
     Option.bind (case json_get ''cache_key'' payload of None \<Rightarrow> json_get ''hash'' payload | Some v \<Rightarrow> Some v)
       json_as_str"

text \<open>A function that the machine already has is left out.\<close>

definition function_payload :: "live_vm \<Rightarrow> json \<Rightarrow> json" where
  "function_payload vm payload =
     (case function_key payload of
        Some key \<Rightarrow>
          if key \<in> live_functions vm then json_remove_field ''function'' payload else payload
      | None \<Rightarrow> payload)"

definition needs_archive :: "work \<Rightarrow> live_vm \<Rightarrow> bool" where
  "needs_archive w vm \<longleftrightarrow> (case wanted_dir w of None \<Rightarrow> False | Some d \<Rightarrow> d \<notin> live_working_dirs vm)"

definition json_strings :: "(string, string) hashmap \<Rightarrow> json" where
  "json_strings m = JObject (map (\<lambda>(k, v). (k, JString v)) m)"

definition json_optional :: "string option \<Rightarrow> json" where
  "json_optional x = (case x of None \<Rightarrow> JNull | Some s \<Rightarrow> JString s)"

definition invocation :: "work \<Rightarrow> live_vm \<Rightarrow> string option \<Rightarrow> json" where
  "invocation w vm archive =
     (let payload = function_payload vm (bare_payload w) in
      if exec_variables (work_execution w) \<noteq> [] \<or> work_secrets w \<noteq> [] \<or> wanted_dir w \<noteq> None
      then JObject
        [(''encoding'', JString ''scraperack-invocation''), (''payload'', payload),
         (''variables'', json_strings (exec_variables (work_execution w))),
         (''secrets'', json_strings (work_secrets w)),
         (''working_dir'',
           case wanted_dir w of
             None \<Rightarrow> JNull
           | Some d \<Rightarrow> JObject [(''hash'', JString d), (''archive'', json_optional archive)])]
      else payload)"

subsection \<open>The answer\<close>

definition failure :: "string \<Rightarrow> completion" where
  "failure e = \<lparr>comp_result = None, comp_error = Some e, comp_timed_out = False, comp_metrics = None,
     comp_keep_idle = False\<rparr>"

definition interpret_response :: "guest_reply option \<Rightarrow> completion \<times> bool" where
  "interpret_response r =
     (case r of
        Some (Answer c) \<Rightarrow> (c, True)
      | Some (NoAnswer e) \<Rightarrow> (failure e, False)
      | None \<Rightarrow> ((failure ''execution timed out'')\<lparr>comp_timed_out := True\<rparr>, False))"

definition keeps_idle :: "pool \<Rightarrow> bool \<Rightarrow> bool" where
  "keeps_idle p healthy \<longleftrightarrow> healthy \<and> pool_reuse p \<and> (0 < pool_idle_timeout_secs p \<or> 0 < pool_warm_instances p)"

definition final_completion :: "run_inputs \<Rightarrow> work \<Rightarrow> completion" where
  "final_completion ri w =
     (let (c, healthy) = interpret_response (ri_response ri);
          c1 = c\<lparr>comp_metrics :=
            if ri_cgroup ri
            then Some (measure_execution (ri_floats ri) (work_pool w) (ri_before ri) (ri_readings ri) (ri_at_end ri))
            else None\<rparr>
      in (redact_completion (work_secrets w) c1)\<lparr>comp_keep_idle := keeps_idle (work_pool w) healthy\<rparr>)"

text \<open>What the node notes about the machine.\<close>

definition after_run :: "run_inputs \<Rightarrow> work \<Rightarrow> live_vm \<Rightarrow> live_vm" where
  "after_run ri w vm =
     (let healthy = snd (interpret_response (ri_response ri));
          vm1 = (case wanted_dir w of
              Some d \<Rightarrow> if healthy then vm\<lparr>live_working_dirs := insert d (live_working_dirs vm)\<rparr> else vm
            | None \<Rightarrow> vm)
      in case function_key (bare_payload w) of
          None \<Rightarrow> vm1
        | Some f \<Rightarrow>
            if healthy \<and> (wanted_dir w = None \<or> comp_error (final_completion ri w) = None)
            then vm1\<lparr>live_functions := insert f (live_functions vm1)\<rparr> else vm1)"

subsection \<open>The machine\<close>

type_synonym agent = "vm_state \<times> network_state"

definition acquire_vm :: "run_inputs \<Rightarrow> work \<Rightarrow> agent \<Rightarrow> (completion + live_vm) \<times> agent" where
  "acquire_vm ri w = (\<lambda>(s, net).
     (case vm_acquire (work_pool w) s of
        (Inl e, s1) \<Rightarrow> (Inl (failure e), s1, net)
      | (Inr (Some vm), s1) \<Rightarrow> (Inr vm, s1, net)
      | (Inr None, s1) \<Rightarrow>
          (case start_vm (ri_start ri) (work_pool w) net of
             (Inl e, net1) \<Rightarrow> (Inl (failure e), vm_release (work_pool w) None s1, net1)
           | (Inr vm, net1) \<Rightarrow> (Inr vm, s1, net1))))"

definition register_running :: "work \<Rightarrow> live_vm \<Rightarrow> vm_state \<Rightarrow> vm_state" where
  "register_running w vm s =
     s\<lparr>running_vms := hm_insert (live_id vm)
         (vm_report vm (work_pool w) VmRunning (Some (exec_id (work_execution w)))) (running_vms s)\<rparr>"

definition unregister_running :: "live_vm \<Rightarrow> vm_state \<Rightarrow> vm_state" where
  "unregister_running vm s = s\<lparr>running_vms := hm_remove (live_id vm) (running_vms s)\<rparr>"

definition discard_vm :: "pool \<Rightarrow> live_vm \<Rightarrow> agent \<Rightarrow> agent" where
  "discard_vm p vm = (\<lambda>(s, net). (vm_release p None s, destroy_vm vm net))"

definition finish_run :: "run_inputs \<Rightarrow> work \<Rightarrow> live_vm \<Rightarrow> agent \<Rightarrow> completion \<times> agent" where
  "finish_run ri w vm = (\<lambda>(s, net).
     (let c = final_completion ri w; vm1 = after_run ri w vm; s1 = unregister_running vm1 s in
      if comp_keep_idle c
      then (c, vm_release (work_pool w) (Some (vm1\<lparr>live_last_used := ri_now ri\<rparr>)) s1, net)
      else (c, discard_vm (work_pool w) vm1 (s1, net))))"

text \<open>The whole function; the last component is the request that the guest got, if one was sent.\<close>

definition run_execution :: "run_inputs \<Rightarrow> work \<Rightarrow> agent \<Rightarrow> completion \<times> agent \<times> json option" where
  "run_execution ri w a =
     (case (if wanted_dir w = None then None else ri_working_dir ri) of
        Some e \<Rightarrow> (failure e, a, None)
      | None \<Rightarrow>
          (case acquire_vm ri w a of
             (Inl c, a1) \<Rightarrow> (c, a1, None)
           | (Inr vm, a1) \<Rightarrow>
               (case (if needs_archive w vm then ri_archive ri else Inr []) of
                  Inl e \<Rightarrow>
                    (failure (''read working directory: '' @ e), discard_vm (work_pool w) vm a1, None)
                | Inr archive \<Rightarrow>
                    let a2 = (register_running w vm (fst a1), snd a1);
                        request = invocation w vm (if needs_archive w vm then Some archive else None)
                    in (case finish_run ri w vm a2 of (c, a3) \<Rightarrow> (c, a3, Some request)))))"

end
