(* ===== verification/Node_Maintain.thy ===== *)
theory Node_Maintain
  imports Node_Execution Warm_Facts Release_Facts
begin

section \<open>The maintenance of idle machines, with the controller\<close>

text \<open>
  \<open>maintain_vms\<close> of \<open>platform/src/node.rs\<close> together with the operations of the controller that its
  requests call: the node asks for every idle machine whether it may go
  (\<open>Cluster::remove_idle_instance\<close>), and for every pool whether a machine is wanted
  (\<open>warm_instance_needed\<close>, \<open>add_warm_instance\<close>). Requests and saves that fail end the function with an
  error and are left out. \<open>expired\<close> is the test of the idle time, \<open>starts\<close> gives what the k-th start
  meets.
\<close>

type_synonym system = "cluster \<times> vm_state \<times> network_state"

text \<open>Idle machines of pools that are gone are destroyed, the others get the current pool.\<close>

definition current_pools :: "pool list \<Rightarrow> (string, pool) hashmap" where
  "current_pools ps = hm_collect (map (\<lambda>p. (pool_name p, p)) ps)"

definition refresh_vm :: "pool list \<Rightarrow> live_vm \<Rightarrow> live_vm option" where
  "refresh_vm ps vm = map_option (\<lambda>p. vm\<lparr>live_pool := p\<rparr>) (hm_get (current_pools ps) (pool_name (live_pool vm)))"

definition refresh :: "pool list \<Rightarrow> vm_state \<Rightarrow> network_state \<Rightarrow> vm_state \<times> network_state" where
  "refresh ps s net =
     (s\<lparr>idle_vms := List.map_filter (refresh_vm ps) (idle_vms s)\<rparr>,
      fold destroy_vm (filter (\<lambda>vm. refresh_vm ps vm = None) (idle_vms s)) net)"

text \<open>The machines in the order in which they are popped, and those that stay.\<close>

fun reclaim ::
    "(live_vm \<Rightarrow> bool) \<Rightarrow> nat \<Rightarrow> uuid \<Rightarrow> live_vm list \<Rightarrow> cluster \<Rightarrow> network_state \<Rightarrow>
     live_vm list \<times> cluster \<times> network_state" where
  "reclaim expired now nid [] c net = ([], c, net)"
| "reclaim expired now nid (vm # vms) c net =
     (case remove_idle_instance nid (pool_name (live_pool vm)) c of
        (True, c1) \<Rightarrow> reclaim expired now nid vms c1 (destroy_vm vm net)
      | (False, c1) \<Rightarrow>
          (case reclaim expired now nid vms c1 net of
             (kept, r) \<Rightarrow> ((if expired vm then vm\<lparr>live_last_used := now\<rparr> else vm) # kept, r)))"

definition reclaim_idle :: "(live_vm \<Rightarrow> bool) \<Rightarrow> nat \<Rightarrow> uuid \<Rightarrow> system \<Rightarrow> system" where
  "reclaim_idle expired now nid = (\<lambda>(c, s, net).
     (case reclaim expired now nid (rev (idle_vms s)) c net of
        (kept, c1, net1) \<Rightarrow> (c1, s\<lparr>idle_vms := kept\<rparr>, net1)))"

text \<open>
  The loop over one pool: a round, which says whether the loop goes on, and the loop. \<open>None\<close> would be
  a loop that does not end.
\<close>

definition warm_round :: "start_inputs \<Rightarrow> uuid \<Rightarrow> pool \<Rightarrow> system \<Rightarrow> bool \<times> system" where
  "warm_round si nid p = (\<lambda>(c, s, net).
     (if \<not> warm_instance_needed nid (pool_name p) c then (False, c, s, net)
      else case reserve_warm p s of
          (False, s1) \<Rightarrow> (False, c, s1, net)
        | (True, s1) \<Rightarrow>
            (case start_vm si p net of
               (Inl e, net1) \<Rightarrow> (False, c, vm_release p None s1, net1)
             | (Inr vm, net1) \<Rightarrow>
                 (case add_warm_instance nid (pool_name p) c of
                    (True, c1) \<Rightarrow> (True, c1, vm_release p (Some vm) s1, net1)
                  | (False, c1) \<Rightarrow> (False, c1, vm_release p None s1, destroy_vm vm net1)))))"

partial_function (option) warm_loop ::
    "(nat \<Rightarrow> start_inputs) \<Rightarrow> uuid \<Rightarrow> pool \<Rightarrow> nat \<Rightarrow> system \<Rightarrow> system option" where
  "warm_loop starts nid p k sys =
     (if fst (warm_round (starts k) nid p sys)
      then warm_loop starts nid p (Suc k) (snd (warm_round (starts k) nid p sys))
      else Some (snd (warm_round (starts k) nid p sys)))"

fun warm_pools :: "(nat \<Rightarrow> nat \<Rightarrow> start_inputs) \<Rightarrow> uuid \<Rightarrow> pool list \<Rightarrow> system \<Rightarrow> system option" where
  "warm_pools starts nid [] sys = Some sys"
| "warm_pools starts nid (p # ps) sys =
     Option.bind (warm_loop (starts (length ps)) nid p 0 sys) (warm_pools starts nid ps)"

definition maintain_vms ::
    "(nat \<Rightarrow> nat \<Rightarrow> start_inputs) \<Rightarrow> (live_vm \<Rightarrow> bool) \<Rightarrow> nat \<Rightarrow> uuid \<Rightarrow> pool list \<Rightarrow> system \<Rightarrow> system option" where
  "maintain_vms starts expired now nid ps = (\<lambda>(c, s, net).
     (case refresh ps s net of
        (s1, net1) \<Rightarrow> warm_pools starts nid ps (reclaim_idle expired now nid (c, s1, net1))))"

subsection \<open>The controller's counters and the node's machines\<close>

text \<open>The idle machines of a pool that a node has, and the agreement with what the controller counts.\<close>

definition idle_of :: "string \<Rightarrow> live_vm list \<Rightarrow> nat" where
  "idle_of q vms = length (filter (\<lambda>vm. pool_name (live_pool vm) = q) vms)"

definition counted :: "uuid \<Rightarrow> cluster \<Rightarrow> live_vm list \<Rightarrow> bool" where
  "counted nid c vms \<longleftrightarrow>
     (\<exists>n. hm_get (nodes c) nid = Some n \<and> (\<forall>q. unat (idle_on q n) = idle_of q vms))"

text \<open>The same with a fixed difference for each pool.\<close>

definition differs :: "uuid \<Rightarrow> (string \<Rightarrow> nat \<times> nat) \<Rightarrow> cluster \<Rightarrow> live_vm list \<Rightarrow> bool" where
  "differs nid d c vms \<longleftrightarrow>
     (\<exists>n. hm_get (nodes c) nid = Some n \<and> (\<forall>q. unat (idle_on q n) + fst (d q) = idle_of q vms + snd (d q)))"

lemma counted_differs: "counted nid c vms \<longleftrightarrow> differs nid (\<lambda>_. (0, 0)) c vms"
  by (simp add: counted_def differs_def)

lemma idle_of_simps [simp]:
  "idle_of q [] = 0"
  "idle_of q (vm # vms) = (if pool_name (live_pool vm) = q then 1 else 0) + idle_of q vms"
  "idle_of q (xs @ ys) = idle_of q xs + idle_of q ys"
  "idle_of q (rev xs) = idle_of q xs"
  by (simp_all add: idle_of_def rev_filter [symmetric])

lemma idle_of_perm: "mset xs = mset ys \<Longrightarrow> idle_of q xs = idle_of q ys"
  by (metis idle_of_def mset_filter size_mset)

definition active_on :: "uuid \<Rightarrow> string \<Rightarrow> cluster \<Rightarrow> nat" where
  "active_on nid q c = length (filter (\<lambda>e. active_in q e \<and> exec_node e = Some nid) (hm_values (executions c)))"

text \<open>The 32-bit count of the machines of a pool with reuse does not wrap.\<close>

definition roomy :: "uuid \<Rightarrow> cluster \<Rightarrow> bool" where
  "roomy nid c \<longleftrightarrow> (\<forall>n q p. hm_get (nodes c) nid = Some n \<longrightarrow> hm_get (pools c) q = Some p \<longrightarrow> pool_reuse p \<longrightarrow>
     unat (idle_on q n) + active_on nid q c < 2 ^ 32)"

lemma reclaim_ok:
  assumes "reclaim expired now nid vms c net = (kept, c', net')" "cluster_wf c" "differs nid d c (vms @ rest)" "roomy nid c"
  shows "cluster_wf c' \<and> differs nid d c' (kept @ rest) \<and> roomy nid c' \<and>
    (\<lambda>vm. pool_name (live_pool vm)) ` set kept \<subseteq> (\<lambda>vm. pool_name (live_pool vm)) ` set vms"
  using assms
proof (induction vms arbitrary: c net kept rest)
  case (Cons vm vms)
  let ?q = "pool_name (live_pool vm)"
  from Cons.prems(2) show ?case
  proof (cases rule: remove_idle_cases [of c nid ?q])
    case refused
    obtain k r where r: "reclaim expired now nid vms c net = (k, r)" by (metis surj_pair)
    let ?vm = "if expired vm then vm\<lparr>live_last_used := now\<rparr> else vm"
    have kept: "kept = ?vm # k" "r = (c', net')" using Cons.prems(1) refused r by auto
    have "differs nid d c (vms @ ?vm # rest)"
      using Cons.prems(3) by (auto simp: differs_def split: if_splits)
    from Cons.IH [OF r [unfolded kept(2)] Cons.prems(2) this Cons.prems(4)] show ?thesis
      unfolding kept(1) by (auto simp: differs_def split: if_splits)
  next
    case (removed p n target)
    let ?c = "c\<lparr>nodes := hm_insert nid (stopped p n) (nodes c)\<rparr>"
    have r: "reclaim expired now nid vms ?c (destroy_vm vm net) = (kept, c', net')"
      using Cons.prems(1) removed by simp
    have wf: "cluster_wf ?c" using remove_idle_wf [OF Cons.prems(2), of nid ?q] removed by simp
    have pos: "0 < unat (idle_on ?q n)" using removed(8) by (simp add: unat_gt_0)
    have "differs nid d ?c (vms @ rest)"
      unfolding differs_def
    proof (intro exI conjI allI)
      show "hm_get (nodes ?c) nid = Some (stopped p n)" by simp
      fix q
      have "unat (idle_on q n) + fst (d q) = idle_of q ((vm # vms) @ rest) + snd (d q)"
        using Cons.prems(3) removed(6) by (auto simp: differs_def)
      then show "unat (idle_on q (stopped p n)) + fst (d q) = idle_of q (vms @ rest) + snd (d q)"
        using pos removed(2) by (cases "q = ?q") (simp_all add: unat_pred [OF removed(8)])
    qed
    moreover have "roomy nid ?c"
      unfolding roomy_def
    proof (intro allI impI)
      fix m q r
      assume m: "hm_get (nodes ?c) nid = Some m" "hm_get (pools ?c) q = Some r" "pool_reuse r"
      have "unat (idle_on q m) \<le> unat (idle_on q n)" using m(1) removed(8) by (auto simp: unat_pred removed(2))
      moreover have "unat (idle_on q n) + active_on nid q c < 2 ^ 32"
        using Cons.prems(4) removed(6) m(2,3) by (simp add: roomy_def)
      moreover have "active_on nid q ?c = active_on nid q c" by (simp add: active_on_def)
      ultimately show "unat (idle_on q m) + active_on nid q ?c < 2 ^ 32" by linarith
    qed
    ultimately have "cluster_wf c' \<and> differs nid d c' (kept @ rest) \<and> roomy nid c' \<and>
        (\<lambda>vm. pool_name (live_pool vm)) ` set kept \<subseteq> (\<lambda>vm. pool_name (live_pool vm)) ` set vms"
      by (rule Cons.IH [OF r wf])
    then show ?thesis by auto
  qed
qed simp

subsection \<open>The loop over one pool ends\<close>

text \<open>How many machines a node still lacks for its share of the warm target of a pool.\<close>

definition lacking :: "uuid \<Rightarrow> string \<Rightarrow> cluster \<Rightarrow> nat" where
  "lacking nid q c =
     (case hm_get (pools c) q of
        None \<Rightarrow> 0
      | Some p \<Rightarrow>
          (case hm_get (warm_targets c p) nid of
             None \<Rightarrow> 0 | Some t \<Rightarrow> unat t - unat (warm_instances_on c nid p)))"

lemma add_warm_effect:
  assumes wf: "cluster_wf c" and add: "add_warm_instance nid q c = (True, c')"
    and count: "differs nid d c vms" and room: "roomy nid c"
    and vm: "pool_name (live_pool vm) = q"
  shows "cluster_wf c' \<and> differs nid d c' (vms @ [vm]) \<and> roomy nid c' \<and> lacking nid q c' < lacking nid q c"
  using wf
proof (cases rule: add_warm_cases [of c nid q])
  case refused
  with add show ?thesis by simp
next
  case (added p n target)
  let ?c = "c\<lparr>nodes := hm_insert nid (started p n) (nodes c)\<rparr>"
  have c': "c' = ?c" using added add by simp
  have w: "warm_instances_on c nid p < target" by (rule added)
  have inc: "warm_instances_on ?c nid p = warm_instances_on c nid p + 1"
    by (simp add: warm_instances_update [OF added(7)] added(2))
  have nwf: "nodes_wf (nodes c)" using wf by (simp add: cluster_wf_def)
  have targets: "warm_targets ?c p = warm_targets c p"
    by (simp add: warm_targets_update [OF nwf added(7)])
  have succ: "unat (warm_instances_on c nid p + 1) = Suc (unat (warm_instances_on c nid p))"
    by (rule unat_Suc_no_wrap [OF w])
  have lack: "lacking nid q ?c < lacking nid q c"
    using w by (simp add: lacking_def added(1,3) targets inc succ word_less_nat_alt)
  have bound: "unat (idle_on q n) + (if pool_reuse p then active_on nid q c else 0) < unat target"
  proof (cases "pool_reuse p")
    case True
    have "unat (idle_on q n) + active_on nid q c < 2 ^ 32"
      using room True added(1,7) by (simp add: roomy_def)
    then have "unat (warm_instances_on c nid p) = unat (idle_on q n) + active_on nid q c"
      using True added(2,7) by (simp add: warm_instances_on_def active_on_def Let_def unat_word_ariths unat_of_nat)
    then show ?thesis using w True by (simp add: word_less_nat_alt)
  next
    case False
    then show ?thesis using w added(2,7) by (simp add: warm_instances_on_def Let_def word_less_nat_alt)
  qed
  have "unat target < 2 ^ 32" using unsigned_less [of target, where 'a = nat] by simp
  then have idle: "unat (idle_on q n + 1) = unat (idle_on q n) + 1"
    using bound by (simp add: unat_word_ariths split: if_splits)
  have "differs nid d ?c (vms @ [vm])"
    using count idle vm added(2,7) by (auto simp: differs_def)
  moreover have "roomy nid ?c"
    using room bound idle \<open>unat target < 2 ^ 32\<close> added(1,2,7) by (auto simp: roomy_def active_on_def)
  ultimately show ?thesis
    using add_warm_wf [OF wf, of nid q] lack by (simp add: c' added)
qed

text \<open>The state of a pass: the idle machines are of pools in \<open>Q\<close>.\<close>

definition system_ok :: "uuid \<Rightarrow> (string \<Rightarrow> nat \<times> nat) \<Rightarrow> string set \<Rightarrow> system \<Rightarrow> bool" where
  "system_ok nid d Q = (\<lambda>(c, s, net). cluster_wf c \<and> differs nid d c (idle_vms s) \<and> roomy nid c \<and>
     (\<forall>vm \<in> set (idle_vms s). pool_name (live_pool vm) \<in> Q))"

lemma warm_round_ok:
  assumes "system_ok nid d Q sys" "warm_round si nid p sys = (go, sys')" "pool_name p \<in> Q"
  shows "system_ok nid d Q sys' \<and> (go \<longrightarrow> lacking nid (pool_name p) (fst sys') < lacking nid (pool_name p) (fst sys))"
proof -
  obtain c s net where sys: "sys = (c, s, net)" by (metis surj_pair)
  have ok: "cluster_wf c" "differs nid d c (idle_vms s)" "roomy nid c"
    "\<forall>vm \<in> set (idle_vms s). pool_name (live_pool vm) \<in> Q"
    using assms(1) by (simp_all add: sys system_ok_def)
  show ?thesis
  proof (cases "warm_instance_needed nid (pool_name p) c")
    case False
    then show ?thesis using assms ok by (auto simp: sys warm_round_def)
  next
    case needed: True
    obtain b s1 where b: "reserve_warm p s = (b, s1)" by fastforce
    then have idle: "idle_vms s1 = idle_vms s" by (auto simp: reserve_warm_def split: if_splits)
    obtain r net1 where r: "start_vm si p net = (r, net1)" by fastforce
    show ?thesis
    proof (cases "b \<and> (\<exists>vm. r = Inr vm)")
      case False
      then show ?thesis using assms(2) ok needed b r idle
        by (cases b; cases r) (auto simp: sys warm_round_def system_ok_def)
    next
      case True
      then obtain vm where vm: "r = Inr vm" by blast
      then have "live_pool vm = p" using r
        by (auto simp: start_vm_def new_vm_def split: option.splits prod.splits sum.splits)
      then have name: "pool_name (live_pool vm) = pool_name p" "pool_name (live_pool vm) \<in> Q"
        using assms(3) by simp_all
      obtain acc c1 where a: "add_warm_instance nid (pool_name p) c = (acc, c1)" by fastforce
      show ?thesis
      proof (cases acc)
        case True
        then show ?thesis
          using add_warm_effect [OF ok(1) _ ok(2,3) name(1), of c1] assms(2) needed b r vm a idle \<open>b \<and> _\<close> name ok(4)
          by (auto simp: sys warm_round_def system_ok_def)
      next
        case False
        then have "c1 = c" using a by (cases rule: add_warm_cases [OF ok(1), of nid "pool_name p"]) auto
        then show ?thesis using assms(2) needed b r vm a idle ok False \<open>b \<and> _\<close>
          by (auto simp: sys warm_round_def system_ok_def)
      qed
    qed
  qed
qed

lemma warm_loop_ends:
  assumes "system_ok nid d Q sys" "pool_name p \<in> Q"
  shows "\<exists>sys'. warm_loop starts nid p k sys = Some sys' \<and> system_ok nid d Q sys'"
  using assms(1)
proof (induction "lacking nid (pool_name p) (fst sys)" arbitrary: sys k rule: less_induct)
  case less
  obtain go sys1 where r: "warm_round (starts k) nid p sys = (go, sys1)" by (metis surj_pair)
  note ok = warm_round_ok [OF less.prems r assms(2)]
  show ?case
  proof (cases go)
    case True
    then show ?thesis using less.hyps [of sys1 "Suc k"] ok r by (subst warm_loop.simps) simp
  next
    case False
    then show ?thesis using ok r by (subst warm_loop.simps) simp
  qed
qed

end
