(* ===== verification/Node_Execution_Properties.thy ===== *)
theory Node_Execution_Properties
  imports Node_Maintain
begin

section \<open>What an execution ends in\<close>

text \<open>A completion as far as the kind of the answer decides it.\<close>

definition reflects :: "guest_reply option \<Rightarrow> completion \<Rightarrow> bool" where
  "reflects r c \<longleftrightarrow>
     (case r of
        None \<Rightarrow> comp_timed_out c \<and> comp_error c \<noteq> None \<and> comp_result c = None
      | Some (NoAnswer e) \<Rightarrow> \<not> comp_timed_out c \<and> comp_error c \<noteq> None \<and> comp_result c = None
      | Some (Answer a) \<Rightarrow> comp_timed_out c = comp_timed_out a \<and>
          (comp_error c = None) = (comp_error a = None) \<and> (comp_result c = None) = (comp_result a = None))"

lemma redact_presence:
  "(comp_error (redact_completion secrets c) = None) = (comp_error c = None)"
  "(comp_result (redact_completion secrets c) = None) = (comp_result c = None)"
proof -
  have "(comp_error (fold redact_secret ss c) = None) = (comp_error c = None) \<and>
      (comp_result (fold redact_secret ss c) = None) = (comp_result c = None)" for ss
    by (induction ss arbitrary: c) (simp_all add: redact_secret_def)
  then show "(comp_error (redact_completion secrets c) = None) = (comp_error c = None)"
    "(comp_result (redact_completion secrets c) = None) = (comp_result c = None)"
    by (simp_all add: redact_completion_def)
qed

lemma redact_frame:
  "comp_timed_out (redact_completion secrets c) = comp_timed_out c"
  "comp_metrics (redact_completion secrets c) = comp_metrics c"
  by (simp_all add: redact_completion_def fold_redact_frame)

lemma final_completion_reflects:
  "reflects (ri_response ri) (final_completion ri w)"
  "comp_keep_idle (final_completion ri w) = keeps_idle (work_pool w) (\<exists>a. ri_response ri = Some (Answer a))"
  "(comp_metrics (final_completion ri w) \<noteq> None) = ri_cgroup ri"
  by (auto simp: final_completion_def interpret_response_def reflects_def failure_def redact_presence
      redact_frame Let_def split: option.split guest_reply.split)

lemma same_running:
  assumes "hm_get (running_vms s) (live_id vm) = None"
  shows "hm_get (running_vms (unregister_running (after_run ri w vm) (register_running w vm s))) i
    = hm_get (running_vms s) i"
proof -
  have "live_id (after_run ri w vm) = live_id vm"
    by (auto simp: after_run_def Let_def split: option.split)
  with assms show ?thesis by (simp add: unregister_running_def register_running_def)
qed

lemma acquire_vm_running:
  assumes "acquire_vm ri w (s, net) = (r, s', net')"
  shows "running_vms s' = running_vms s \<and>
    (\<forall>vm. r = Inr vm \<longrightarrow> live_id vm \<in> insert (si_id (ri_start ri)) (live_id ` set (idle_vms s)))"
proof -
  obtain x s1 where x: "vm_acquire (work_pool w) s = (x, s1)" by fastforce
  from this show ?thesis
  proof (cases rule: vm_acquire_cases)
    case too_large
    then show ?thesis using assms x by (auto simp: acquire_vm_def)
  next
    case no_idle
    obtain y net1 where y: "start_vm (ri_start ri) (work_pool w) net = (y, net1)" by fastforce
    then have "live_id vm = si_id (ri_start ri)" if "y = Inr vm" for vm
      using that by (auto simp: start_vm_def new_vm_def split: option.splits prod.splits sum.splits)
    then show ?thesis using assms x y no_idle by (cases y) (auto simp: acquire_vm_def)
  next
    case (idle vm)
    then have "vm \<in> set (idle_vms s)" by (metis union_single_eq_member set_mset_mset)
    then show ?thesis using assms x idle by (auto simp: acquire_vm_def)
  qed
qed

text \<open>
  Where the machine of an execution comes from: it is the idle machine of the pool that was used last,
  or a started one when there is none. \<open>rest\<close> are the machines that stay idle.
\<close>

definition machine_from ::
    "run_inputs \<Rightarrow> work \<Rightarrow> agent \<Rightarrow> live_vm \<Rightarrow> live_vm multiset \<Rightarrow> network_state \<Rightarrow> bool" where
  "machine_from ri w a vm rest net1 \<longleftrightarrow>
     (mset (idle_vms (fst a)) = add_mset vm rest \<and> pool_name (live_pool vm) = pool_name (work_pool w) \<and>
      (\<forall>x \<in> set (idle_vms (fst a)). pool_name (live_pool x) = pool_name (work_pool w) \<longrightarrow>
         live_last_used x \<le> live_last_used vm) \<and> net1 = snd a) \<or>
     ((\<forall>x \<in> set (idle_vms (fst a)). pool_name (live_pool x) \<noteq> pool_name (work_pool w)) \<and>
      rest = mset (idle_vms (fst a)) \<and> start_vm (ri_start ri) (work_pool w) (snd a) = (Inr vm, net1))"

text \<open>The share of the node that an execution takes, and gives back.\<close>

definition shares :: "vm_state \<Rightarrow> u32 \<times> u32" where
  "shares s = (active_cpu_millis s, active_memory_mib s)"

definition shares_add :: "pool \<Rightarrow> u32 \<times> u32 \<Rightarrow> u32 \<times> u32" where
  "shares_add p x = (saturating_add (fst x) (pool_cpu_millis p), saturating_add (snd x) (pool_memory_mib p))"

definition shares_sub :: "pool \<Rightarrow> u32 \<times> u32 \<Rightarrow> u32 \<times> u32" where
  "shares_sub p x = (saturating_sub (fst x) (pool_cpu_millis p), saturating_sub (snd x) (pool_memory_mib p))"

lemma shares_simps [simp]:
  "shares (add_active p s) = shares_add p (shares s)" "shares (vm_release p x s) = shares_sub p (shares s)"
  "shares (s\<lparr>idle_vms := vms\<rparr>) = shares s" "shares (s\<lparr>running_vms := r\<rparr>) = shares s"
  by (auto simp: shares_def shares_add_def shares_sub_def add_active_def vm_release_def Let_def split: option.split)

lemma shares_back:
  assumes "unat (active_cpu_millis s) + unat (pool_cpu_millis p) < 2 ^ 32"
    and "unat (active_memory_mib s) + unat (pool_memory_mib p) < 2 ^ 32"
  shows "shares_sub p (shares_add p (shares s)) = shares s"
  using assms by (simp add: shares_def shares_add_def shares_sub_def saturating_add_sub_cancel)

lemma vm_acquire_shares: "vm_acquire p s = (Inr x, s') \<Longrightarrow> shares s' = shares_add p (shares s)"
  by (auto simp: vm_acquire_def Let_def split: if_splits option.splits prod.splits)

lemma acquire_vm_effect:
  assumes "acquire_vm ri w (s, net) = (r, s', net')"
  shows "case r of
      Inl c \<Rightarrow>
        (too_large (work_pool w) s \<and> s' = s \<and> net' = net \<or>
         (\<exists>e. start_vm (ri_start ri) (work_pool w) net = (Inl e, net') \<and> comp_error c = Some e \<and>
            idle_vms s' = idle_vms s \<and> shares s' = shares_sub (work_pool w) (shares_add (work_pool w) (shares s))))
    | Inr vm \<Rightarrow> machine_from ri w (s, net) vm (mset (idle_vms s')) net' \<and>
        shares s' = shares_add (work_pool w) (shares s)"
proof -
  obtain x s1 where x: "vm_acquire (work_pool w) s = (x, s1)" by fastforce
  note spec = vm_acquire_spec [of "work_pool w" s, unfolded x prod.case]
  show ?thesis
  proof (cases x)
    case (Inl e)
    then show ?thesis using assms x spec by (auto simp: acquire_vm_def)
  next
    case (Inr m)
    note got = this
    have sh: "shares s1 = shares_add (work_pool w) (shares s)" using vm_acquire_shares x got by simp
    show ?thesis
    proof (cases m)
      case None
      obtain y net1 where y: "start_vm (ri_start ri) (work_pool w) net = (y, net1)" by fastforce
      show ?thesis
        using assms x spec got None y sh
        by (cases y) (auto simp: acquire_vm_def machine_from_def failure_def)
    next
      case (Some vm)
      then show ?thesis using assms x spec got sh by (auto simp: acquire_vm_def machine_from_def)
    qed
  qed
qed

lemma finish_run_effect:
  assumes "finish_run ri w vm (register_running w vm s, net) = (c, s', net')"
  shows "c = final_completion ri w \<and> shares s' = shares_sub (work_pool w) (shares s) \<and>
    running_vms s' = running_vms (unregister_running (after_run ri w vm) (register_running w vm s)) \<and>
    (if comp_keep_idle c
     then idle_vms s' = idle_vms s @ [(after_run ri w vm)\<lparr>live_last_used := ri_now ri\<rparr>] \<and> net' = net
     else idle_vms s' = idle_vms s \<and> net' = destroy_vm vm net)"
proof -
  have "live_network (after_run ri w vm) = live_network vm" by (auto simp: after_run_def Let_def split: option.split)
  then have "destroy_vm (after_run ri w vm) net = destroy_vm vm net" by (simp add: destroy_vm_def)
  then show ?thesis
    using assms
    by (auto simp: finish_run_def Let_def discard_vm_def unregister_running_def register_running_def split: if_splits)
qed

text \<open>C13: an execution without an answer sent no request, reports an error, keeps no machine and leaves the
  table of running machines alone; it is one of four. Its working directory could not be fetched, or the
  pool is too large for the node: nothing has changed. No machine could be started: the idle machines are
  as before. Or the archive could not be read: the machine is destroyed, be it new or taken from the idle
  ones, and the others are as before. An execution that gets a machine sends it the request, with the
  archive exactly when the machine does not have the directory; its completion reflects the answer (timed
  out, broken, or what the guest says) and has metrics exactly when the control group could be read. The
  machine is kept exactly when the guest answered and the pool reuses machines: then the idle machines
  are the ones before with this one, used last; otherwise it is destroyed and is not among them. The
  table of running machines is as before, and the share of the node that the execution took is given
  back in every case in which adding it did not saturate 32 bits. The identifiers of the idle machines
  and of a new one are taken not to be in the table of running ones, which \<open>machines_keep_apart\<close> shows.\<close>

theorem run_execution_outcomes:
  assumes run: "run_execution ri w (s, net) = (c, (s', net'), req)"
    and fresh: "\<forall>i \<in> insert (si_id (ri_start ri)) (live_id ` set (idle_vms s)). hm_get (running_vms s) i = None"
  shows "(case req of
      None \<Rightarrow> \<not> comp_timed_out c \<and> \<not> comp_keep_idle c \<and> running_vms s' = running_vms s \<and>
        (\<exists>e. comp_error c = Some e \<and>
          (wanted_dir w \<noteq> None \<and> ri_working_dir ri = Some e \<and> (s', net') = (s, net) \<or>
           too_large (work_pool w) s \<and> (s', net') = (s, net) \<or>
           start_vm (ri_start ri) (work_pool w) net = (Inl e, net') \<and> idle_vms s' = idle_vms s \<or>
           (\<exists>vm net1 x. machine_from ri w (s, net) vm (mset (idle_vms s')) net1 \<and> net' = destroy_vm vm net1 \<and>
              needs_archive w vm \<and> ri_archive ri = Inl x \<and> e = ''read working directory: '' @ x)))
    | Some r \<Rightarrow>
        (\<exists>vm rest net1 archive. machine_from ri w (s, net) vm rest net1 \<and>
          (needs_archive w vm \<longrightarrow> ri_archive ri = Inr archive) \<and>
          r = invocation w vm (if needs_archive w vm then Some archive else None) \<and>
          (if comp_keep_idle c
           then mset (butlast (idle_vms s')) = rest \<and> idle_vms s' \<noteq> [] \<and>
             last (idle_vms s') = (after_run ri w vm)\<lparr>live_last_used := ri_now ri\<rparr> \<and> net' = net1
           else mset (idle_vms s') = rest \<and> net' = destroy_vm vm net1)) \<and>
        reflects (ri_response ri) c \<and> (comp_metrics c \<noteq> None) = ri_cgroup ri \<and>
        comp_keep_idle c = keeps_idle (work_pool w) (\<exists>a. ri_response ri = Some (Answer a)) \<and>
        (\<forall>i. hm_get (running_vms s') i = hm_get (running_vms s) i)) \<and>
    (unat (active_cpu_millis s) + unat (pool_cpu_millis (work_pool w)) < 2 ^ 32 \<longrightarrow>
     unat (active_memory_mib s) + unat (pool_memory_mib (work_pool w)) < 2 ^ 32 \<longrightarrow> shares s' = shares s)"
proof (cases "if wanted_dir w = None then None else ri_working_dir ri")
  case (Some e)
  then show ?thesis using run by (auto simp: run_execution_def failure_def split: if_splits)
next
  case no_dir_error: None
  obtain x s1 net1 where x: "acquire_vm ri w (s, net) = (x, s1, net1)" by (metis surj_pair)
  note a = acquire_vm_running [OF x]
  note effect = acquire_vm_effect [OF x]
  show ?thesis
  proof (cases x)
    case (Inl f)
    have f: "comp_error f \<noteq> None \<and> \<not> comp_timed_out f \<and> \<not> comp_keep_idle f"
      using x Inl by (auto simp: acquire_vm_def failure_def split: prod.splits sum.splits option.splits)
    have res: "c = f" "s' = s1" "net' = net1" "req = None"
      using run x no_dir_error Inl by (simp_all add: run_execution_def)
    show ?thesis unfolding res using f a effect Inl by (auto simp: shares_back)
  next
    case (Inr vm)
    have from_vm: "machine_from ri w (s, net) vm (mset (idle_vms s1)) net1"
      and sh: "shares s1 = shares_add (work_pool w) (shares s)"
      using effect Inr by simp_all
    show ?thesis
    proof (cases "if needs_archive w vm then ri_archive ri else Inr []")
      case (Inl e)
      then have needs: "needs_archive w vm" "ri_archive ri = Inl e" by (simp_all split: if_splits)
      have res: "c = failure (''read working directory: '' @ e)" "s' = vm_release (work_pool w) None s1"
          "net' = destroy_vm vm net1" "req = None"
        using run x no_dir_error \<open>x = Inr vm\<close> needs by (auto simp: run_execution_def discard_vm_def)
      show ?thesis
        unfolding res using a from_vm sh needs by (auto simp: failure_def shares_back)
    next
      case (Inr archive)
      then have needs: "needs_archive w vm \<longrightarrow> ri_archive ri = Inr archive" by (simp split: if_splits)
      obtain c3 s3 net3 where f: "finish_run ri w vm (register_running w vm s1, net1) = (c3, s3, net3)"
        by (metis surj_pair)
      have res: "c = c3" "s' = s3" "net' = net3"
          "req = Some (invocation w vm (if needs_archive w vm then Some archive else None))"
        using run x no_dir_error \<open>x = Inr vm\<close> Inr f by (simp_all add: run_execution_def Let_def)
      note finished = finish_run_effect [OF f]
      have "hm_get (running_vms s1) (live_id vm) = None" using a fresh \<open>x = Inr vm\<close> by metis
      note same_running [OF this, of ri w]
      then have running: "hm_get (running_vms s3) i = hm_get (running_vms s) i" for i
        using a finished by simp
      have kept: "if comp_keep_idle c3
          then mset (butlast (idle_vms s3)) = mset (idle_vms s1) \<and> idle_vms s3 \<noteq> [] \<and>
            last (idle_vms s3) = (after_run ri w vm)\<lparr>live_last_used := ri_now ri\<rparr> \<and> net3 = net1
          else mset (idle_vms s3) = mset (idle_vms s1) \<and> net3 = destroy_vm vm net1"
        using finished by (auto split: if_splits)
      have reflected: "reflects (ri_response ri) c3" "(comp_metrics c3 \<noteq> None) = ri_cgroup ri"
          "comp_keep_idle c3 = keeps_idle (work_pool w) (\<exists>a. ri_response ri = Some (Answer a))"
        using final_completion_reflects [of ri w] finished by auto
      have "shares s3 = shares_sub (work_pool w) (shares_add (work_pool w) (shares s))" using finished sh by simp
      then show ?thesis
        unfolding res option.case
        using from_vm needs kept reflected running
        by (intro conjI impI exI [of _ vm] exI [of _ "mset (idle_vms s1)"] exI [of _ net1] exI [of _ archive] allI)
          (assumption | rule refl | simp add: shares_back)+
    qed
  qed
qed

text \<open>An execution without working directory, on a node with an idle machine, that times out.\<close>

definition sample_pool :: pool where
  "sample_pool =
     \<lparr>pool_name = ''p'', pool_image = 1, pool_warm_instances = 0, pool_max_instances = None,
      pool_cpu_millis = 1000, pool_memory_mib = 256, pool_disk_mib = 0, pool_timeout_secs = 30,
      pool_idle_timeout_secs = 60, pool_reuse = True, pool_network = False, pool_ports = [],
      pool_managed_by = None, pool_environment = None, pool_environment_artifact = None,
      pool_preload = []\<rparr>"

definition sample_vm :: live_vm where
  "sample_vm =
     \<lparr>live_id = 4, live_pool = sample_pool, live_pid = None, live_network = None,
      live_functions = {}, live_working_dirs = {}, live_last_used = 3\<rparr>"

definition sample_vms :: vm_state where
  "sample_vms =
     \<lparr>idle_vms = [sample_vm], running_vms = [], active_cpu_millis = 0, active_memory_mib = 0,
      state_cpu_millis = 4000, state_memory_mib = 1024\<rparr>"

definition sample_work :: work where
  "sample_work =
     \<lparr>work_execution =
        \<lparr>exec_id = 9, exec_pool = ''p'', exec_node = Some 1, exec_status = Running,
         exec_payload = JObject [(''encoding'', JString ''json'')], exec_variables = [],
         exec_result = None, exec_error = None, exec_created_at_ms = 0, exec_started_at_ms = None,
         exec_finished_at_ms = None, exec_environment = None, exec_metrics = None\<rparr>,
      work_pool = sample_pool, work_secrets = []\<rparr>"

definition sample_run :: "guest_reply option \<Rightarrow> run_inputs" where
  "sample_run r =
     \<lparr>ri_working_dir = None,
      ri_start =
        \<lparr>si_id = 5, si_snapshot = None, si_available = (\<lambda>_ _. True), si_run = (\<lambda>_. True),
         si_simple = (\<lambda>_. replicate 32 CHR ''0''), si_network_error = [], si_prepare = None,
         si_boot = None, si_unix_time = 0, si_guest = (\<lambda>_. NoAnswer ''none''), si_connect = None,
         si_pid = Some 1, si_now = 0\<rparr>,
      ri_archive = Inr [], ri_cgroup = False,
      ri_floats = \<lparr>cpu_ratio = (\<lambda>_ _ _. 0), percent = (\<lambda>_ _. 0), fmax = max\<rparr>,
      ri_before = \<lparr>cpu_usage_usec = 0, memory_bytes = 0\<rparr>, ri_readings = [],
      ri_at_end = (\<lparr>cpu_usage_usec = 0, memory_bytes = 0\<rparr>, 0), ri_response = r, ri_now = 7\<rparr>"

lemma sample_acquire:
  "acquire_vm (sample_run r) sample_work (sample_vms, net)
    = (Inr sample_vm, (add_active sample_pool sample_vms)\<lparr>idle_vms := []\<rparr>, net)"
  by (simp add: acquire_vm_def sample_work_def sample_vms_def sample_vm_def vm_acquire_def too_large_def
      sample_pool_def Let_def add_active_def saturating_add_def swap_remove_def)

theorem run_execution_outcomes_witness:
  "\<exists>c a r. run_execution (sample_run None) sample_work (sample_vms, network_start) = (c, a, Some r) \<and>
     comp_timed_out c \<and> \<not> comp_keep_idle c \<and> comp_metrics c = None"
proof -
  obtain c s' net' req where run:
    "run_execution (sample_run None) sample_work (sample_vms, network_start) = (c, (s', net'), req)"
    by (metis surj_pair)
  have "wanted_dir sample_work = None"
    by (simp add: wanted_dir_def sample_work_def json_get_str_def hm_get_def)
  then obtain r where req: "req = Some r"
    using run by (auto simp: run_execution_def sample_acquire needs_archive_def Let_def split: prod.splits)
  from run_execution_outcomes [OF run, unfolded req option.case] have "reflects None c \<and> (comp_metrics c \<noteq> None) = False \<and>
      comp_keep_idle c = keeps_idle sample_pool False"
    by (auto simp: req sample_run_def sample_vms_def sample_work_def)
  with run req show ?thesis by (auto simp: reflects_def keeps_idle_def)
qed

end
