(* ===== verification/Node_Cooperation.thy ===== *)
theory Node_Cooperation
  imports Node_Maintain Cluster_Properties
begin

section \<open>A node and the controller agree on idle machines\<close>

text \<open>
  The controller schedules by counters of idle instances; the machines are on the nodes. This theory
  relates the two: the machines of a node, counted by pool, are the counters that the controller has
  for it, and an execution or a maintenance pass that runs undisturbed keeps it so. Where the code
  breaks the relation is shown at the end.
\<close>

subsection \<open>Maintenance\<close>

text \<open>The relation as far as pools that exist are concerned; the controller forgets the others.\<close>

definition agrees :: "uuid \<Rightarrow> cluster \<Rightarrow> live_vm list \<Rightarrow> bool" where
  "agrees nid c vms \<longleftrightarrow>
     (\<exists>n. hm_get (nodes c) nid = Some n \<and>
       (\<forall>q. unat (idle_on q n) = (if hm_get (pools c) q = None then 0 else idle_of q vms)))"

lemma find_append: "find P (xs @ ys) = (case find P xs of None \<Rightarrow> find P ys | Some x \<Rightarrow> Some x)"
  by (induction xs) simp_all

lemma fold_pools:
  "hm_get (fold (\<lambda>(k, v) m. hm_insert k v m) (map (\<lambda>p. (pool_name p, p)) ps) m) q
    = (case find (\<lambda>p. pool_name p = q) (rev ps) of None \<Rightarrow> hm_get m q | Some p \<Rightarrow> Some p)"
proof (induction ps arbitrary: m)
  case (Cons p ps)
  then show ?case by (simp add: find_append split: option.split)
qed simp

lemma current_pools_get:
  "hm_get (current_pools ps) q = find (\<lambda>p. pool_name p = q) (rev ps)"
  by (simp add: current_pools_def hm_collect_def fold_pools split: option.split)

lemma current_pools_name: "hm_get (current_pools ps) q = Some p \<Longrightarrow> pool_name p = q"
  by (auto simp: current_pools_get find_Some_iff)

lemma current_pools_None: "hm_get (current_pools ps) q = None \<longleftrightarrow> q \<notin> pool_name ` set ps"
  by (auto simp: current_pools_get find_None_iff)

lemma refresh_idle:
  "idle_of q (List.map_filter (refresh_vm ps) vms) = (if q \<in> pool_name ` set ps then idle_of q vms else 0)"
proof (induction vms)
  case (Cons vm vms)
  let ?g = "hm_get (current_pools ps) (pool_name (live_pool vm))"
  show ?case
  proof (cases ?g)
    case None
    then have "pool_name (live_pool vm) \<notin> pool_name ` set ps" by (simp add: current_pools_None)
    then show ?thesis using Cons None by (auto simp: map_filter_def refresh_vm_def)
  next
    case (Some p)
    then have "pool_name p = pool_name (live_pool vm)" "pool_name (live_pool vm) \<in> pool_name ` set ps"
      using current_pools_name current_pools_None [of ps "pool_name (live_pool vm)"] by auto
    then show ?thesis using Cons Some by (auto simp: map_filter_def refresh_vm_def)
  qed
qed (simp add: map_filter_def)

lemma warm_pools_ends:
  "system_ok nid d Q sys \<Longrightarrow> pool_name ` set ps \<subseteq> Q \<Longrightarrow>
     \<exists>sys'. warm_pools starts nid ps sys = Some sys' \<and> system_ok nid d Q sys'"
proof (induction ps arbitrary: sys)
  case (Cons p ps)
  have "pool_name p \<in> Q" using Cons.prems(2) by simp
  then obtain sys1 where "warm_loop (starts (length ps)) nid p 0 sys = Some sys1" "system_ok nid d Q sys1"
    using warm_loop_ends [OF Cons.prems(1), of p "starts (length ps)" 0] by blast
  with Cons.IH [of sys1] Cons.prems(2) show ?case by simp
qed simp

lemma idle_of_none: "idle_of q vms = 0 \<longleftrightarrow> (\<forall>vm \<in> set vms. pool_name (live_pool vm) \<noteq> q)"
  by (auto simp: idle_of_def filter_empty_conv)

lemma maintenance_pass:
  assumes "cluster_wf c" "hm_get (nodes c) nid = Some n" "roomy nid c"
  shows "\<exists>c' s' net' n'. maintain_vms starts expired now nid ps (c, s, net) = Some (c', s', net') \<and>
    cluster_wf c' \<and> hm_get (nodes c') nid = Some n' \<and>
    (\<forall>q \<in> pool_name ` set ps. unat (idle_on q n') + idle_of q (idle_vms s)
       = idle_of q (idle_vms s') + unat (idle_on q n)) \<and>
    (\<forall>q. q \<notin> pool_name ` set ps \<longrightarrow> idle_of q (idle_vms s') = 0 \<and> idle_on q n' = idle_on q n)"
proof -
  let ?Q = "pool_name ` set ps"
  obtain s1 net1 where r: "refresh ps s net = (s1, net1)" by fastforce
  then have idle: "idle_of q (idle_vms s1) = (if q \<in> ?Q then idle_of q (idle_vms s) else 0)" for q
    by (auto simp: refresh_def refresh_idle)
  define d where "d = (\<lambda>q. (idle_of q (idle_vms s1), unat (idle_on q n)))"
  have c1: "differs nid d c (rev (idle_vms s1) @ [])" using assms(2) by (simp add: differs_def d_def)
  obtain kept c2 net2 where k: "reclaim expired now nid (rev (idle_vms s1)) c net1 = (kept, c2, net2)"
    by (metis surj_pair)
  have "pool_name (live_pool vm) \<in> ?Q" if "vm \<in> set (idle_vms s1)" for vm
    using idle [of "pool_name (live_pool vm)"] that idle_of_none [of "pool_name (live_pool vm)" "idle_vms s1"]
    by (auto split: if_splits)
  then have "system_ok nid d ?Q (c2, s1\<lparr>idle_vms := kept\<rparr>, net2)"
    using reclaim_ok [OF k assms(1) c1 assms(3)] by (auto simp: system_ok_def)
  from warm_pools_ends [OF this subset_refl, of starts] obtain c' s' net'
    where w: "warm_pools starts nid ps (c2, s1\<lparr>idle_vms := kept\<rparr>, net2) = Some (c', s', net')"
      "system_ok nid d ?Q (c', s', net')" by auto
  then obtain n' where n': "cluster_wf c'" "hm_get (nodes c') nid = Some n'"
    "\<And>q. unat (idle_on q n') + idle_of q (idle_vms s1) = idle_of q (idle_vms s') + unat (idle_on q n)"
    "\<And>q. q \<notin> ?Q \<Longrightarrow> idle_of q (idle_vms s') = 0"
    unfolding system_ok_def differs_def d_def prod.case fst_conv snd_conv idle_of_none by blast
  have "idle_on q n' = idle_on q n" if "q \<notin> ?Q" for q
    using n'(3) [of q] n'(4) [OF that] that by (simp add: idle word_unat_eq_iff)
  moreover have "unat (idle_on q n') + idle_of q (idle_vms s) = idle_of q (idle_vms s') + unat (idle_on q n)"
    if "q \<in> ?Q" for q
    using n'(3) [of q] that by (simp only: idle if_True)
  moreover have "maintain_vms starts expired now nid ps (c, s, net) = Some (c', s', net')"
    using w(1) by (simp add: maintain_vms_def r reclaim_idle_def k)
  ultimately show ?thesis using n'(1,2,4) by blast
qed


text \<open>With the list of all pools of the controller, agreement on these is agreement on all.\<close>

lemma maintenance_restores_agreement:
  assumes "cluster_wf c" "agrees nid c (idle_vms s)" "roomy nid c"
    and "\<forall>q. q \<in> pool_name ` set ps \<longleftrightarrow> hm_get (pools c) q \<noteq> None"
  shows "\<exists>c' s' net'. maintain_vms starts expired now nid ps (c, s, net) = Some (c', s', net') \<and>
    cluster_wf c' \<and> counted nid c' (idle_vms s')"
proof -
  obtain n where n: "hm_get (nodes c) nid = Some n"
    "\<And>q. unat (idle_on q n) = (if hm_get (pools c) q = None then 0 else idle_of q (idle_vms s))"
    using assms(2) by (auto simp: agrees_def)
  obtain c' s' net' n' where m: "maintain_vms starts expired now nid ps (c, s, net) = Some (c', s', net')"
    "cluster_wf c'" "hm_get (nodes c') nid = Some n'"
    "\<forall>q \<in> pool_name ` set ps. unat (idle_on q n') + idle_of q (idle_vms s)
       = idle_of q (idle_vms s') + unat (idle_on q n)"
    "\<forall>q. q \<notin> pool_name ` set ps \<longrightarrow> idle_of q (idle_vms s') = 0 \<and> idle_on q n' = idle_on q n"
    using maintenance_pass [OF assms(1) n(1) assms(3), of starts expired now ps s net] by blast
  have "unat (idle_on q n') = idle_of q (idle_vms s')" for q
  proof (cases "q \<in> pool_name ` set ps")
    case True
    then have "unat (idle_on q n) = idle_of q (idle_vms s)" using n(2) [of q] assms(4) by force
    then show ?thesis using bspec [OF m(4) True] by linarith
  next
    case False
    then have "unat (idle_on q n) = 0" using n(2) [of q] assms(4) by force
    then show ?thesis using spec [OF m(5), of q] False by simp
  qed
  then show ?thesis using m(1-3) by (auto simp: counted_def)
qed

text \<open>A node whose machines start, and whose guests answer every request.\<close>

definition demo_answer :: completion where
  "demo_answer = \<lparr>comp_result = None, comp_error = None, comp_timed_out = False, comp_metrics = None,
     comp_keep_idle = False\<rparr>"

definition demo_start_inputs :: "uuid \<Rightarrow> start_inputs" where
  "demo_start_inputs i =
     \<lparr>si_id = i, si_snapshot = None, si_available = (\<lambda>_ _. True), si_run = (\<lambda>_. True),
      si_simple = (\<lambda>_. replicate 32 CHR ''0''), si_network_error = ''network address space exhausted'',
      si_prepare = None, si_boot = None, si_unix_time = 0, si_guest = (\<lambda>_. Answer demo_answer),
      si_connect = None, si_pid = Some 1, si_now = 0\<rparr>"

definition demo_agent_vms :: vm_state where
  "demo_agent_vms = \<lparr>idle_vms = [], running_vms = [], active_cpu_millis = 0, active_memory_mib = 0,
     state_cpu_millis = 4000, state_memory_mib = 8192\<rparr>"

lemma demo_counted: "counted 2 demo (idle_vms demo_agent_vms)"
  by (simp add: counted_def demo_agent_vms_def demo_eval)


subsection \<open>Executions\<close>

lemma acquire_vm_counts:
  assumes "acquire_vm ri w (s, net) = (Inr vm, s', net')"
  shows "pool_name (live_pool vm) = pool_name (work_pool w) \<and>
    idle_of q (idle_vms s') = idle_of q (idle_vms s) - (if q = pool_name (work_pool w) then 1 else 0)"
proof -
  obtain r s1 where r: "vm_acquire (work_pool w) s = (r, s1)" by fastforce
  from this show ?thesis
  proof (cases rule: vm_acquire_cases)
    case too_large
    then show ?thesis using assms r by (simp add: acquire_vm_def)
  next
    case no_idle
    then have none: "idle_of (pool_name (work_pool w)) (idle_vms s) = 0" by (simp add: idle_of_def filter_empty_conv)
    obtain x net1 where x: "start_vm (ri_start ri) (work_pool w) net = (x, net1)" by fastforce
    then have "x = Inr vm" "s' = s1" using assms r no_idle by (auto simp: acquire_vm_def split: sum.splits)
    moreover from this x have "live_pool vm = work_pool w"
      by (auto simp: start_vm_def new_vm_def split: option.splits prod.splits sum.splits)
    ultimately show ?thesis using no_idle none by simp
  next
    case (idle v)
    then have "vm = v" "s' = s1" using assms r by (auto simp: acquire_vm_def)
    moreover have "idle_of q (idle_vms s) = idle_of q (v # idle_vms s1)"
      by (rule idle_of_perm) (simp add: idle(4))
    ultimately show ?thesis using idle(3) by simp
  qed
qed

lemma acquire_vm_failed:
  assumes "acquire_vm ri w (s, net) = (Inl report, s', net')" "\<not> too_large (work_pool w) s"
  shows "\<not> comp_keep_idle report \<and> idle_vms s' = idle_vms s \<and> idle_of (pool_name (work_pool w)) (idle_vms s) = 0"
proof -
  obtain r s1 where r: "vm_acquire (work_pool w) s = (r, s1)" by fastforce
  from this show ?thesis
  proof (cases rule: vm_acquire_cases)
    case no_idle
    then have "idle_of (pool_name (work_pool w)) (idle_vms s) = 0" by (simp add: idle_of_def filter_empty_conv)
    with no_idle show ?thesis using assms r
      by (auto simp: acquire_vm_def failure_def split: sum.splits prod.splits)
  qed (use assms r in \<open>auto simp: acquire_vm_def\<close>)
qed

lemma after_run_pool [simp]: "live_pool (after_run ri w vm) = live_pool vm"
  by (auto simp: after_run_def Let_def split: option.split)

lemma finish_run_counts:
  assumes "finish_run ri w vm (s, net) = (report, s', net')" "pool_name (live_pool vm) = pool_name (work_pool w)"
  shows "idle_of q (idle_vms s') = idle_of q (idle_vms s) +
    (if comp_keep_idle report \<and> q = pool_name (work_pool w) then 1 else 0)"
  using assms
  by (auto simp: finish_run_def Let_def discard_vm_def unregister_running_def split: if_splits)

lemma run_execution_counts:
  assumes run: "run_execution ri w (s, net) = (report, (s', net'), req)"
    and dir: "wanted_dir w = None \<or> ri_working_dir ri = None" and fits: "\<not> too_large (work_pool w) s"
  shows "idle_of q (idle_vms s') = idle_of q (idle_vms s) - (if q = pool_name (work_pool w) then 1 else 0)
    + (if comp_keep_idle report \<and> q = pool_name (work_pool w) then 1 else 0)"
proof -
  have no_dir: "(if wanted_dir w = None then None else ri_working_dir ri) = None" using dir by auto
  obtain x s1 net1 where x: "acquire_vm ri w (s, net) = (x, s1, net1)" by (metis surj_pair)
  show ?thesis
  proof (cases x)
    case (Inl c)
    then have "report = c" "s' = s1" using run x no_dir by (simp_all add: run_execution_def)
    then show ?thesis using acquire_vm_failed [OF x [unfolded Inl] fits] by auto
  next
    case (Inr vm)
    note a = acquire_vm_counts [OF x [unfolded Inr]]
    show ?thesis
    proof (cases "if needs_archive w vm then ri_archive ri else Inr []")
      case (Inl e)
      then have "\<not> comp_keep_idle report" "idle_vms s' = idle_vms s1"
        using run x no_dir Inr by (auto simp: run_execution_def discard_vm_def failure_def)
      then show ?thesis using a by simp
    next
      case (Inr archive)
      obtain c s3 net3 where f: "finish_run ri w vm (register_running w vm s1, net1) = (c, s3, net3)"
        by (metis surj_pair)
      then have "report = c" "s' = s3" using run x no_dir \<open>x = Inr vm\<close> Inr by (simp_all add: run_execution_def Let_def)
      then show ?thesis using finish_run_counts [OF f] a by (simp add: register_running_def)
    qed
  qed
qed


definition demo_run :: run_inputs where
  "demo_run =
     \<lparr>ri_working_dir = None, ri_start = demo_start_inputs 1, ri_archive = Inr [], ri_cgroup = False,
      ri_floats = \<lparr>cpu_ratio = (\<lambda>_ _ _. 0), percent = (\<lambda>_ _. 0), fmax = max\<rparr>,
      ri_before = \<lparr>cpu_usage_usec = 0, memory_bytes = 0\<rparr>, ri_readings = [],
      ri_at_end = (\<lparr>cpu_usage_usec = 0, memory_bytes = 0\<rparr>, 0),
      ri_response = Some (Answer demo_answer), ri_now = 9\<rparr>"

definition demo_work :: work where
  "demo_work = \<lparr>work_execution = demo_execution 10 5, work_pool = demo_pool, work_secrets = []\<rparr>"


subsection \<open>Where the agreement breaks\<close>

text \<open>
  When the working directory cannot be fetched, \<open>run_execution\<close> fails before it takes a machine; the
  controller, which has taken an idle instance off its counter for the execution, gives back the
  resources of a machine that is still there.
\<close>

lemma failed_directory_orphans_machine:
  assumes "cluster_wf c" "counted nid c (idle_vms s)"
    and "schedule eid c = Some (True, c1)" "hm_get (executions c1) eid = Some e" "exec_node e = Some nid"
    and "0 < idle_of (exec_pool e) (idle_vms s)"
    and "wanted_dir w \<noteq> None" "ri_working_dir ri \<noteq> None"
    and "run_execution ri w (s, net) = (report, (s', net'), req)"
  shows "\<exists>n. hm_get (nodes (release eid (comp_keep_idle report) c1)) nid = Some n \<and>
    unat (idle_on (exec_pool e) n) + 1 = idle_of (exec_pool e) (idle_vms s')"
proof -
  have r: "\<not> comp_keep_idle report" "s' = s"
    using assms(7-9) by (auto simp: run_execution_def failure_def split: option.splits)
  obtain p n where n: "hm_get (nodes c) nid = Some n" "pool_name p = exec_pool e"
      "hm_get (nodes (release eid (comp_keep_idle report) c1)) nid
        = Some (release_slot p (comp_keep_idle report) (take_slot p n))"
    using release_after_schedule [OF assms(1,3)] assms(4,5) by (metis option.inject)
  have idle: "unat (idle_on (exec_pool e) n) = idle_of (exec_pool e) (idle_vms s)"
    using assms(2) n(1) by (auto simp: counted_def)
  then have "0 < idle_on (exec_pool e) n" using assms(6) by (simp add: word_less_nat_alt)
  then show ?thesis
    using n r idle assms(6) by (simp add: release_slot_def take_slot_def Let_def unat_pred word_gt_0)
qed

text \<open>
  While the maintenance asks about the idle machines, it has taken them out of the state. An
  execution that the controller has meant for one of them starts another machine, and both are
  idle afterwards, while the controller counts one.
\<close>

lemma maintenance_window_adds_machine:
  assumes "cluster_wf c" "counted nid c (idle_vms s)" "idle_of (exec_pool e) (idle_vms s) = 1"
    and "schedule eid c = Some (True, c1)" "hm_get (executions c1) eid = Some e" "exec_node e = Some nid"
    and "pool_name (work_pool w) = exec_pool e" "\<not> too_large (work_pool w) s"
    and "wanted_dir w = None \<or> ri_working_dir ri = None"
    and "run_execution ri w (s\<lparr>idle_vms := []\<rparr>, net) = (report, (s', net'), req)" "comp_keep_idle report"
  shows "\<exists>n. hm_get (nodes (release eid (comp_keep_idle report) c1)) nid = Some n \<and>
    unat (idle_on (exec_pool e) n) = 1 \<and> idle_of (exec_pool e) (idle_vms s' @ idle_vms s) = 2"
proof -
  have "\<not> too_large (work_pool w) (s\<lparr>idle_vms := []\<rparr>)" using assms(8) by (simp add: too_large_def)
  from run_execution_counts [OF assms(10,9) this, of "exec_pool e"]
  have "idle_of (exec_pool e) (idle_vms s' @ idle_vms s) = 2" using assms(3,7,11) by simp
  moreover obtain p n where n: "hm_get (nodes c) nid = Some n" "pool_name p = exec_pool e"
      "hm_get (nodes (release eid (comp_keep_idle report) c1)) nid
        = Some (release_slot p (comp_keep_idle report) (take_slot p n))"
    using release_after_schedule [OF assms(1,4)] assms(5,6) by (metis option.inject)
  moreover have "unat (idle_on (exec_pool e) n) = 1"
    using assms(2,3) n(1) by (auto simp: counted_def)
  then have "idle_on (exec_pool e) n = 1" by (simp add: word_unat_eq_iff)
  ultimately show ?thesis using assms(11) by (simp add: release_slot_def take_slot_def Let_def)
qed

end
