(* ===== verification/Guest_Executor.thy ===== *)
theory Guest_Executor
  imports Json Text
begin

section \<open>The executor in the guest\<close>

named_theorems keeping \<open>computations that keep what the executor holds\<close>
named_theorems guarding \<open>computations that a guard of escaping writes does not change\<close>

text \<open>
  \<open>platform/guest/scraperack-python-executor\<close>: the Python process of a machine that runs the code of
  an execution. Objects of Python have the type \<open>'v\<close>; what the interpreter, its libraries and the
  code of the users do is the field \<open>perform\<close> of a parameter: an action returns an object or raises,
  and may change anything of the process. The other fields are \<open>json.dumps\<close>, \<open>cloudpickle.dumps\<close> and
  \<open>base64\<close>, SHA-256, the names in an archive, reading the captured output, and the description of a
  process that \<open>subprocess.run\<close> returns. An exception is \<open>Inl\<close>. JSON numbers that Python takes as
  equal, as 1 and 1.0, are different keys of \<open>FUNCTIONS\<close> here.
\<close>

datatype exception =
    KeyError string | ValueError string | TypeError | AttributeError | RuntimeError string | Raised string

datatype 'v action =
    ImportModule json
  | FetchUrl 'v json
  | Unpickle string
  | Apply 'v 'v
  | ApplyPair 'v
  | ExecSource string
  | WriteFile "string list" string
  | RunCommand json
  | ExtractAll string string

text \<open>
  The process: \<open>FUNCTIONS\<close>, the names of the directories below
  \<open>WORKING_DIRS\<close>, the variables and secrets of
  \<open>scraperack_runtime\<close>, the environment, the current directory, \<open>sys.path\<close>, \<open>sys.modules\<close> with their
  files, whether the standard streams go to the two temporary files, and what is in these.
\<close>

record 'v executor =
  function_cache :: "(json, 'v) hashmap"
  unpacked_dirs :: "string list"
  run_context :: "(json \<times> json) option"
  environ :: "(string \<times> string) list"
  current_dir :: string
  sys_path :: "string list"
  sys_modules :: "(string \<times> string option) list"
  redirected :: bool
  captured_out :: string
  captured_err :: string

type_synonym ('v, 'a) computation = "'v executor \<Rightarrow> (exception + 'a) \<times> 'v executor"

record 'v python =
  perform :: "'v action \<Rightarrow> ('v, 'v) computation"
  items_of :: "json \<Rightarrow> exception + json list"
  from_json :: "json \<Rightarrow> 'v"
  to_json :: "'v \<Rightarrow> exception + json"
  pickled :: "'v \<Rightarrow> exception + string"
  is_callable :: "'v \<Rightarrow> bool"
  return_code :: "'v \<Rightarrow> int"
  failed_command :: "'v \<Rightarrow> string"
  command_result :: "'v \<Rightarrow> 'v"
  request_failed :: "exception \<Rightarrow> bool"
  b64decode :: "string \<Rightarrow> exception + string"
  sha256 :: "string \<Rightarrow> string"
  zip_names :: "string \<Rightarrow> exception + string list"
  read_text :: "string \<Rightarrow> exception + string"
  inside_dir :: "string \<Rightarrow> string \<Rightarrow> bool"
  format_exc :: "exception \<Rightarrow> string"
  version :: string

text \<open>Computations one after the other; the first exception ends them.\<close>

definition then_do ::
    "('s \<Rightarrow> ('e + 'a) \<times> 's) \<Rightarrow> ('a \<Rightarrow> 's \<Rightarrow> ('e + 'b) \<times> 's) \<Rightarrow> 's \<Rightarrow> ('e + 'b) \<times> 's" where
  "then_do m k st = (case m st of (Inl e, st1) \<Rightarrow> (Inl e, st1) | (Inr x, st1) \<Rightarrow> k x st1)"

definition pure :: "'e + 'a \<Rightarrow> 's \<Rightarrow> ('e + 'a) \<times> 's" where
  "pure r st = (r, st)"

definition unless :: "bool \<Rightarrow> 'e \<Rightarrow> 's \<Rightarrow> ('e + unit) \<times> 's" where
  "unless c e = pure (if c then Inr () else Inl e)"

subsection \<open>Fields of a payload\<close>

text \<open>\<open>v[k]\<close>, \<open>v.get(k, d)\<close>, and a value that must be a text\<close>

definition item :: "string \<Rightarrow> json \<Rightarrow> exception + json" where
  "item k v = (case v of
       JObject fs \<Rightarrow> (case hm_get fs k of None \<Rightarrow> Inl (KeyError k) | Some x \<Rightarrow> Inr x)
     | _ \<Rightarrow> Inl TypeError)"

definition get_item :: "string \<Rightarrow> json \<Rightarrow> json \<Rightarrow> exception + json" where
  "get_item k d v = (case v of
       JObject fs \<Rightarrow> Inr (case hm_get fs k of None \<Rightarrow> d | Some x \<Rightarrow> x)
     | _ \<Rightarrow> Inl AttributeError)"

definition text_of :: "json \<Rightarrow> exception + string" where
  "text_of v = (case v of JString s \<Rightarrow> Inr s | _ \<Rightarrow> Inl TypeError)"

definition decode_item :: "'v python \<Rightarrow> json \<Rightarrow> ('v, string) computation" where
  "decode_item py v = then_do (pure (text_of v)) (\<lambda>s. pure (b64decode py s))"

definition truthy :: "json \<Rightarrow> bool" where
  "truthy v \<longleftrightarrow> v \<notin> {JNull, JBool False, JNumber (PosInt 0), JNumber (Float 0), JNumber (Float (2 ^ 63)), JString [], JArray [], JObject []}"

definition hashable :: "json \<Rightarrow> bool" where
  "hashable v = (case v of JArray _ \<Rightarrow> False | JObject _ \<Rightarrow> False | _ \<Rightarrow> True)"

subsection \<open>Paths\<close>

text \<open>\<open>Path(name)\<close>: its parts, without empty ones and dots.\<close>

definition path_parts :: "string \<Rightarrow> string list" where
  "path_parts name = filter (\<lambda>p. p \<noteq> [] \<and> p \<noteq> ''.'') (split_slashes name)"

definition valid_path :: "string \<Rightarrow> bool" where
  "valid_path name \<longleftrightarrow> \<not> starts_with ''/'' name \<and> ''..'' \<notin> set (path_parts name)"

subsection \<open>Executing a payload\<close>

text \<open>\<open>encode\<close>: as JSON, or pickled when \<open>json.dumps\<close> raises a type error.\<close>

definition encode :: "'v python \<Rightarrow> 'v \<Rightarrow> exception + json" where
  "encode py v =
     (case to_json py v of
        Inr j \<Rightarrow> Inr (JObject [(''encoding'', JString ''json''), (''data'', j)])
      | Inl TypeError \<Rightarrow>
          map_sum id (\<lambda>s. JObject [(''encoding'', JString ''cloudpickle''), (''data'', JString s)]) (pickled py v)
      | Inl e \<Rightarrow> Inl e)"

definition fetch_once :: "'v python \<Rightarrow> 'v \<Rightarrow> json \<Rightarrow> ('v, unit) computation" where
  "fetch_once py loaded url st =
     (case perform py (FetchUrl loaded url) st of
        (Inl e, st1) \<Rightarrow> (if request_failed py e then Inr () else Inl e, st1)
      | (Inr _, st1) \<Rightarrow> (Inr (), st1))"

fun preload_modules :: "'v python \<Rightarrow> json \<Rightarrow> json list \<Rightarrow> ('v, unit) computation" where
  "preload_modules py payload [] = pure (Inr ())"
| "preload_modules py payload (m # ms) =
     then_do (perform py (ImportModule m)) (\<lambda>loaded.
     then_do
       (if m = JString ''requests''
        then then_do (pure (get_item ''url'' (JString ''http://127.0.0.1:1'') payload)) (fetch_once py loaded)
        else pure (Inr ())) (\<lambda>_.
     preload_modules py payload ms))"

definition preload :: "'v python \<Rightarrow> json \<Rightarrow> ('v, 'v) computation" where
  "preload py payload =
     then_do (pure (get_item ''modules'' (JArray []) payload)) (\<lambda>modules.
     then_do (pure (items_of py modules)) (\<lambda>ms.
     then_do (preload_modules py payload ms) (\<lambda>_. pure (Inr (from_json py modules)))))"

text \<open>The functions are kept under the key that the client chooses, or under their digest.\<close>

definition load_function :: "'v python \<Rightarrow> json \<Rightarrow> json \<Rightarrow> json \<Rightarrow> ('v, unit) computation" where
  "load_function py key expected payload st =
     (if \<not> hashable key then (Inl TypeError, st)
      else if hm_get (function_cache st) key \<noteq> None then (Inr (), st)
      else
        then_do (pure (item ''function'' payload)) (\<lambda>f.
        then_do (decode_item py f) (\<lambda>data.
        then_do (unless (JString (sha256 py data) = expected)
                    (ValueError ''function hash does not match payload'')) (\<lambda>_.
        then_do (perform py (Unpickle data)) (\<lambda>v st1.
          (Inr (), st1\<lparr>function_cache := hm_insert key v (function_cache st1)\<rparr>))))) st)"

definition loaded_function :: "json \<Rightarrow> ('v, 'v) computation" where
  "loaded_function key st =
     ((case hm_get (function_cache st) key of None \<Rightarrow> Inl (KeyError ''key'') | Some f \<Rightarrow> Inr f), st)"

definition run_function :: "'v python \<Rightarrow> json \<Rightarrow> ('v, 'v) computation" where
  "run_function py payload =
     then_do (pure (item ''hash'' payload)) (\<lambda>expected.
     then_do (pure (get_item ''cache_key'' expected payload)) (\<lambda>key.
     then_do (load_function py key expected payload) (\<lambda>_.
     then_do (pure (item ''params'' payload)) (\<lambda>params.
     then_do (decode_item py params) (\<lambda>data.
     then_do (perform py (Unpickle data)) (\<lambda>args.
     then_do (loaded_function key) (\<lambda>f.
     perform py (Apply f args))))))))"

definition run_pickle :: "'v python \<Rightarrow> json \<Rightarrow> ('v, 'v) computation" where
  "run_pickle py payload =
     then_do (pure (item ''data'' payload)) (\<lambda>text.
     then_do (decode_item py text) (\<lambda>data.
     then_do (perform py (Unpickle data)) (\<lambda>pair. perform py (ApplyPair pair))))"

definition run_source :: "'v python \<Rightarrow> json \<Rightarrow> ('v, 'v) computation" where
  "run_source py payload =
     then_do (pure (item ''source'' payload)) (\<lambda>source.
     then_do (pure (text_of source)) (\<lambda>s.
     then_do (perform py (ExecSource s)) (\<lambda>f.
     then_do (unless (is_callable py f) (ValueError ''python-source must define main(...)'')) (\<lambda>_.
     then_do (pure (get_item ''params'' (JArray []) payload)) (\<lambda>params.
     perform py (Apply f (from_json py params)))))))"

fun write_files :: "'v python \<Rightarrow> (string \<times> json) list \<Rightarrow> ('v, unit) computation" where
  "write_files py [] = pure (Inr ())"
| "write_files py ((name, content) # fs) =
     then_do (unless (valid_path name) (ValueError (''invalid file path: '' @ name))) (\<lambda>_.
     then_do (decode_item py content) (\<lambda>data.
     then_do (perform py (WriteFile (path_parts name) data)) (\<lambda>_. write_files py fs)))"

definition run_files :: "'v python \<Rightarrow> json \<Rightarrow> ('v, 'v) computation" where
  "run_files py payload =
     then_do (pure (item ''files'' payload)) (\<lambda>files.
     then_do (case files of JObject fs \<Rightarrow> write_files py fs | _ \<Rightarrow> pure (Inl AttributeError)) (\<lambda>_.
     then_do (pure (item ''command'' payload)) (\<lambda>command.
     then_do (perform py (RunCommand command)) (\<lambda>process.
     then_do (unless (return_code py process = 0)
                 (RuntimeError (''command exited '' @ failed_command py process))) (\<lambda>_.
     pure (Inr (command_result py process)))))))"

definition execute :: "'v python \<Rightarrow> json \<Rightarrow> ('v, 'v) computation" where
  "execute py payload =
     then_do (pure (item ''encoding'' payload)) (\<lambda>enc.
       if enc = JString ''scraperack-preload'' then preload py payload
       else if enc = JString ''python-function'' then run_function py payload
       else if enc = JString ''cloudpickle'' then run_pickle py payload
       else if enc = JString ''python-source'' then run_source py payload
       else if enc = JString ''files'' then run_files py payload
       else if enc = JString ''json''
       then then_do (pure (get_item ''data'' JNull payload)) (\<lambda>v. pure (Inr (from_json py v)))
       else pure (Inl (ValueError ''unknown payload encoding'')))"

subsection \<open>Working directories\<close>

definition valid_digest :: "string \<Rightarrow> bool" where
  "valid_digest s \<longleftrightarrow> length s = 64 \<and> list_all (\<lambda>c. c \<in> set ''0123456789abcdef'') s"

definition add_dir :: "string \<Rightarrow> 'v executor \<Rightarrow> 'v executor" where
  "add_dir d st = (if d \<in> set (unpacked_dirs st) then st else st\<lparr>unpacked_dirs := d # unpacked_dirs st\<rparr>)"

definition unpack_dir :: "'v python \<Rightarrow> string \<Rightarrow> string \<Rightarrow> ('v, unit) computation" where
  "unpack_dir py digest data =
     then_do (pure (zip_names py data)) (\<lambda>names.
     then_do (unless (list_all valid_path names) (ValueError ''invalid working directory path'')) (\<lambda>_.
     then_do (perform py (ExtractAll digest data)) (\<lambda>_ st. (Inr (), add_dir digest st))))"

definition unpack_archive :: "'v python \<Rightarrow> string \<Rightarrow> json \<Rightarrow> ('v, unit) computation" where
  "unpack_archive py digest spec =
     then_do (pure (get_item ''archive'' JNull spec)) (\<lambda>archive.
     then_do (unless (archive \<noteq> JNull) (ValueError ''working directory archive is missing'')) (\<lambda>_.
     then_do (decode_item py archive) (\<lambda>data.
     then_do (unless (sha256 py data = digest)
                 (ValueError ''working directory hash does not match archive'')) (\<lambda>_.
     unpack_dir py digest data))))"

definition find_dir :: "'v python \<Rightarrow> string \<Rightarrow> json \<Rightarrow> ('v, unit) computation" where
  "find_dir py digest spec st =
     (if digest \<in> set (unpacked_dirs st) then (Inr (), st) else unpack_archive py digest spec st)"

definition prepare_working_dir :: "'v python \<Rightarrow> json \<Rightarrow> ('v, string option) computation" where
  "prepare_working_dir py spec =
     (if \<not> truthy spec then pure (Inr None)
      else
        then_do (pure (item ''hash'' spec)) (\<lambda>h.
        then_do (pure (text_of h)) (\<lambda>digest.
        then_do (unless (valid_digest digest) (ValueError ''invalid working directory hash'')) (\<lambda>_.
        then_do (find_dir py digest spec) (\<lambda>_. pure (Inr (Some digest)))))))"

definition WORKING_DIRS :: string where
  "WORKING_DIRS = ''/tmp/scraperack-working-dirs''"

definition dir_path :: "string \<Rightarrow> string" where
  "dir_path d = WORKING_DIRS @ ''/'' @ d"

definition outside :: "'v python \<Rightarrow> string \<Rightarrow> string \<times> string option \<Rightarrow> bool" where
  "outside py d m = (case snd m of None \<Rightarrow> True | Some file \<Rightarrow> \<not> inside_dir py file (dir_path d))"

definition unload_modules :: "'v python \<Rightarrow> string option \<Rightarrow> 'v executor \<Rightarrow> 'v executor" where
  "unload_modules py dir st =
     (case dir of
        None \<Rightarrow> st
      | Some d \<Rightarrow> st\<lparr>sys_modules := filter (outside py d) (sys_modules st)\<rparr>)"

subsection \<open>One request\<close>

record py_response =
  resp_value :: "json option"
  resp_stdout :: string
  resp_stderr :: string
  resp_error :: "string option"

text \<open>The request without the variables, secrets and working directory that may wrap it.\<close>

definition unwrap :: "json \<Rightarrow> exception + json \<times> json \<times> json \<times> json" where
  "unwrap payload =
     (case item ''encoding'' payload of
        Inl e \<Rightarrow> Inl e
      | Inr enc \<Rightarrow>
          if enc \<noteq> JString ''scraperack-invocation'' then Inr (JObject [], JObject [], JNull, payload)
          else
            (case get_item ''variables'' (JObject []) payload of Inl e \<Rightarrow> Inl e | Inr variables \<Rightarrow>
            (case get_item ''secrets'' (JObject []) payload of Inl e \<Rightarrow> Inl e | Inr secrets \<Rightarrow>
            (case get_item ''working_dir'' JNull payload of Inl e \<Rightarrow> Inl e | Inr spec \<Rightarrow>
              map_sum id (\<lambda>inner. (variables, secrets, spec, inner)) (item ''payload'' payload)))))"

text \<open>Inside the inner \<open>try\<close>: the directory becomes the current one, then the payload is executed.\<close>

definition enter_dir :: "string option \<Rightarrow> 'v executor \<Rightarrow> 'v executor" where
  "enter_dir dir st =
     (case dir of None \<Rightarrow> st
      | Some d \<Rightarrow> st\<lparr>current_dir := dir_path d, sys_path := dir_path d # sys_path st\<rparr>)"

definition invoke :: "'v python \<Rightarrow> json \<Rightarrow> json \<Rightarrow> 'v executor \<Rightarrow> (exception + json) \<times> string option \<times> 'v executor" where
  "invoke py spec payload st =
     (case prepare_working_dir py spec st of
        (Inl e, st1) \<Rightarrow> (Inl e, None, st1)
      | (Inr dir, st1) \<Rightarrow>
          (case then_do (execute py payload) (\<lambda>v. pure (encode py v)) (enter_dir dir st1) of
             (r, st2) \<Rightarrow> (r, dir, st2)))"

text \<open>
  \<open>finally\<close>: the process gets back what \<open>before\<close> had. The directory in which the executor runs is taken to
  exist still: were it removed, \<open>os.chdir\<close> would raise here and skip the rest of the restoration, which is
  not modelled.
\<close>

definition put_back :: "'v python \<Rightarrow> 'v executor \<Rightarrow> string option \<Rightarrow> 'v executor \<Rightarrow> 'v executor" where
  "put_back py before dir st =
     (unload_modules py dir
        (st\<lparr>environ := environ before, current_dir := current_dir before, sys_path := sys_path before\<rparr>))
      \<lparr>run_context := run_context before, redirected := redirected before\<rparr>"

text \<open>What the code runs in, and the request around it.\<close>

definition entered :: "json \<Rightarrow> json \<Rightarrow> 'v executor \<Rightarrow> 'v executor" where
  "entered variables secrets st =
     st\<lparr>run_context := Some (variables, secrets), redirected := True, captured_out := [], captured_err := []\<rparr>"

definition run_request :: "'v python \<Rightarrow> json \<times> json \<times> json \<times> json \<Rightarrow> ('v, py_response) computation" where
  "run_request py = (\<lambda>(variables, secrets, spec, inner) st.
     (case invoke py spec inner (entered variables secrets st) of
        (r, dir, st1) \<Rightarrow>
          let st2 = put_back py st dir st1 in
          (case (read_text py (captured_out st2), read_text py (captured_err st2)) of
             (Inl e, _) \<Rightarrow> (Inl e, st2)
           | (Inr out, Inl e) \<Rightarrow> (Inl e, st2)
           | (Inr out, Inr err) \<Rightarrow>
               (Inr \<lparr>resp_value = (case r of Inl _ \<Rightarrow> None | Inr v \<Rightarrow> Some v),
                  resp_stdout = out, resp_stderr = err,
                  resp_error = (case r of Inl e \<Rightarrow> Some (format_exc py e) | Inr _ \<Rightarrow> None)\<rparr>, st2))))"

definition handle :: "'v python \<Rightarrow> json \<Rightarrow> ('v, py_response) computation" where
  "handle py payload =
     then_do (pure (item ''encoding'' payload)) (\<lambda>enc.
       if enc = JString ''scraperack-describe''
       then pure (Inr \<lparr>resp_value = Some (JObject [(''encoding'', JString ''json''),
                (''data'', JString (''Python '' @ version py))]),
              resp_stdout = [], resp_stderr = [], resp_error = None\<rparr>)
       else then_do (pure (unwrap payload)) (run_request py))"

text \<open>The loop of the server answers an exception of \<open>handle\<close> with its text.\<close>

definition answer :: "'v python \<Rightarrow> exception + json \<Rightarrow> 'v executor \<Rightarrow> py_response \<times> 'v executor" where
  "answer py request st =
     (case then_do (pure request) (handle py) st of
        (Inr r, st1) \<Rightarrow> (r, st1)
      | (Inl e, st1) \<Rightarrow>
          (\<lparr>resp_value = None, resp_stdout = [], resp_stderr = [],
            resp_error = Some (format_exc py e)\<rparr>, st1))"

subsection \<open>What a request leaves behind\<close>

lemma put_back_simps [simp]:
  "run_context (put_back py before dir st) = run_context before"
  "environ (put_back py before dir st) = environ before"
  "current_dir (put_back py before dir st) = current_dir before"
  "sys_path (put_back py before dir st) = sys_path before"
  "redirected (put_back py before dir st) = redirected before"
  "function_cache (put_back py before dir st) = function_cache st"
  "unpacked_dirs (put_back py before dir st) = unpacked_dirs st"
  by (simp_all add: put_back_def unload_modules_def split: option.split)

lemma put_back_modules:
  "sys_modules (put_back py before (Some d) st) = filter (outside py d) (sys_modules st)"
  by (simp add: put_back_def unload_modules_def)

lemma run_request_cases:
  assumes "run_request py (variables, secrets, spec, inner) st = (r, st1)"
  obtains v dir st2 where
    "invoke py spec inner (entered variables secrets st) = (v, dir, st2)" "st1 = put_back py st dir st2"
    "case r of Inl e \<Rightarrow> True | Inr a \<Rightarrow> resp_value a = (case v of Inl _ \<Rightarrow> None | Inr j \<Rightarrow> Some j) \<and>
       resp_error a = (case v of Inl e \<Rightarrow> Some (format_exc py e) | Inr _ \<Rightarrow> None)"
proof -
  obtain v dir st2 where i: "invoke py spec inner (entered variables secrets st) = (v, dir, st2)"
    by (cases "invoke py spec inner (entered variables secrets st)")
  show ?thesis
    by (rule that [OF i]) (use assms i in \<open>auto simp: run_request_def Let_def split: sum.splits\<close>)
qed

lemma handle_cases:
  assumes "handle py payload st = (r, st1)"
  obtains (untouched) "st1 = st" "\<And>a. r = Inr a \<Longrightarrow> resp_value a \<noteq> None \<and> resp_error a = None"
  | (ran) variables secrets spec inner where
      "unwrap payload = Inr (variables, secrets, spec, inner)"
      "run_request py (variables, secrets, spec, inner) st = (r, st1)"
proof (cases "item ''encoding'' payload")
  case (Inr enc)
  show ?thesis
  proof (cases "enc = JString ''scraperack-describe'' \<or> (\<exists>e. unwrap payload = Inl e)")
    case True
    then have "st1 = st \<and> (\<forall>a. r = Inr a \<longrightarrow> resp_value a \<noteq> None \<and> resp_error a = None)"
      using assms Inr by (auto simp: handle_def then_do_def pure_def split: if_splits)
    then show ?thesis by (intro untouched) auto
  next
    case False
    then obtain variables secrets spec inner where "unwrap payload = Inr (variables, secrets, spec, inner)"
      by (cases "unwrap payload") auto
    then show ?thesis
      using assms Inr False by (intro ran) (auto simp: handle_def then_do_def pure_def)
  qed
next
  case (Inl e)
  then have "st1 = st \<and> (\<forall>a. r \<noteq> Inr a)" using assms by (auto simp: handle_def then_do_def pure_def)
  then show ?thesis by (intro untouched) auto
qed

text \<open>Whatever the code of an execution does to the process, after its request the variables and
  secrets are those from before (none, between requests), as are the environment, the current directory,
  the search path of modules and the standard streams; when it ran in a working directory, no module
  that was loaded from there stays loaded. An answer has a value exactly when it has no error.\<close>

theorem requests_are_isolated:
  assumes "handle py payload st = (r, st1)"
  shows "(run_context st1 = run_context st \<and> environ st1 = environ st \<and> current_dir st1 = current_dir st \<and>
      sys_path st1 = sys_path st \<and> redirected st1 = redirected st) \<and>
    (case unwrap payload of
       Inl _ \<Rightarrow> st1 = st
     | Inr (variables, secrets, spec, inner) \<Rightarrow>
        (case invoke py spec inner (entered variables secrets st) of
           (_, None, _) \<Rightarrow> True
         | (_, Some d, _) \<Rightarrow> st1 = st \<or> list_all (outside py d) (sys_modules st1))) \<and>
    (case r of Inl _ \<Rightarrow> True | Inr a \<Rightarrow> (resp_value a = None \<longleftrightarrow> resp_error a \<noteq> None))"
  using assms
proof (cases rule: handle_cases)
  case untouched
  then show ?thesis by (auto split: sum.splits option.splits)
next
  case (ran variables secrets spec inner)
  obtain v dir st2 where i: "invoke py spec inner (entered variables secrets st) = (v, dir, st2)"
    "st1 = put_back py st dir st2"
    "case r of Inl e \<Rightarrow> True | Inr a \<Rightarrow> resp_value a = (case v of Inl _ \<Rightarrow> None | Inr j \<Rightarrow> Some j) \<and>
       resp_error a = (case v of Inl e \<Rightarrow> Some (format_exc py e) | Inr _ \<Rightarrow> None)"
    by (rule run_request_cases [OF ran(2)])
  show ?thesis
    using i(3) by (cases r; cases dir; cases v; simp add: ran(1) i(1,2) put_back_modules list_all_iff)
qed

subsection \<open>Files stay where they belong\<close>

text \<open>
  An action that writes above the directory it is given: a file whose path has a part \<open>..\<close>, or an
  archive with an absolute path or such a part. \<open>guarded\<close> makes these actions do something else.
\<close>

definition escapes :: "'v python \<Rightarrow> 'v action \<Rightarrow> bool" where
  "escapes py a =
     (case a of
        WriteFile parts _ \<Rightarrow> ''..'' \<in> set parts
      | ExtractAll _ data \<Rightarrow>
          (case zip_names py data of Inl _ \<Rightarrow> True | Inr names \<Rightarrow> \<not> list_all valid_path names)
      | _ \<Rightarrow> False)"

definition guarded :: "('v action \<Rightarrow> ('v, 'v) computation) \<Rightarrow> 'v python \<Rightarrow> 'v python" where
  "guarded other py = py\<lparr>perform := (\<lambda>a. if escapes py a then other a else perform py a)\<rparr>"

lemma guarded_simps [simp]:
  "items_of (guarded h py) = items_of py" "from_json (guarded h py) = from_json py"
  "to_json (guarded h py) = to_json py" "pickled (guarded h py) = pickled py"
  "is_callable (guarded h py) = is_callable py" "return_code (guarded h py) = return_code py"
  "failed_command (guarded h py) = failed_command py" "command_result (guarded h py) = command_result py"
  "request_failed (guarded h py) = request_failed py" "b64decode (guarded h py) = b64decode py"
  "sha256 (guarded h py) = sha256 py" "zip_names (guarded h py) = zip_names py"
  "read_text (guarded h py) = read_text py" "inside_dir (guarded h py) = inside_dir py"
  "format_exc (guarded h py) = format_exc py" "version (guarded h py) = version py"
  "perform (guarded h py) (ImportModule m) = perform py (ImportModule m)"
  "perform (guarded h py) (FetchUrl l u) = perform py (FetchUrl l u)"
  "perform (guarded h py) (Unpickle d) = perform py (Unpickle d)"
  "perform (guarded h py) (Apply f x) = perform py (Apply f x)"
  "perform (guarded h py) (ApplyPair x) = perform py (ApplyPair x)"
  "perform (guarded h py) (ExecSource t) = perform py (ExecSource t)"
  "perform (guarded h py) (RunCommand c) = perform py (RunCommand c)"
  by (simp_all add: guarded_def escapes_def)

lemma then_do_unless: "then_do (unless c e) k = (if c then k () else pure (Inl e))"
  by (simp add: then_do_def unless_def pure_def fun_eq_iff)

lemma then_do_pure: "then_do (pure r) k = (case r of Inl e \<Rightarrow> pure (Inl e) | Inr x \<Rightarrow> k x)"
  by (simp add: then_do_def pure_def fun_eq_iff split: sum.split)

lemma decode_guarded [guarding]: "decode_item (guarded h py) = decode_item py"
  by (simp add: decode_item_def fun_eq_iff)

lemma fetch_once_guarded [guarding]: "fetch_once (guarded h py) = fetch_once py"
  by (simp add: fun_eq_iff fetch_once_def split: prod.split sum.split)

lemma preload_modules_guarded [guarding]:
  "preload_modules (guarded h py) payload ms = preload_modules py payload ms"
  by (induction ms) (simp_all add: guarding cong: if_cong)

lemma write_files_guarded [guarding]: "write_files (guarded h py) fs = write_files py fs"
proof (induction fs rule: write_files.induct [of _ py])
  case (2 py name content fs)
  have "perform (guarded h py) (WriteFile (path_parts name) d) = perform py (WriteFile (path_parts name) d)"
    if "valid_path name" for d
    using that by (simp add: guarded_def escapes_def valid_path_def)
  then show ?case using 2 by (simp add: then_do_unless guarding)
qed simp

lemma unpack_guarded [guarding]: "unpack_dir (guarded h py) digest data = unpack_dir py digest data"
proof (cases "zip_names py data")
  case (Inr names)
  have "perform (guarded h py) (ExtractAll digest data) = perform py (ExtractAll digest data)"
    if "list_all valid_path names"
    using that Inr by (simp add: guarded_def escapes_def)
  then show ?thesis using Inr by (simp add: unpack_dir_def then_do_unless then_do_pure)
qed (simp add: unpack_dir_def then_do_pure)

lemma execute_guarded [guarding]: "execute (guarded h py) payload = execute py payload"
  unfolding execute_def preload_def run_function_def load_function_def run_pickle_def
    run_source_def run_files_def guarding guarded_simps by (rule refl)

lemma prepare_guarded [guarding]: "prepare_working_dir (guarded h py) spec = prepare_working_dir py spec"
  unfolding prepare_working_dir_def find_dir_def unpack_archive_def guarding guarded_simps by (rule refl)

lemma invoke_guarded [guarding]: "invoke (guarded h py) spec payload st = invoke py spec payload st"
  unfolding invoke_def encode_def guarding guarded_simps by (rule refl)

lemma put_back_guarded [guarding]: "put_back (guarded h py) = put_back py"
  unfolding put_back_def unload_modules_def outside_def guarded_simps by (rule refl)

lemma run_request_guarded [guarding]: "run_request (guarded h py) = run_request py"
  unfolding run_request_def guarding guarded_simps by (rule refl)

text \<open>No request makes the executor write a file of its payload, or unpack a working directory,
  outside the directory it has made for it: a request does the same when every write to a path with a
  part \<open>..\<close>, and every extraction of an archive with an absolute path or such a part, is replaced by
  anything else, so no such action is ever performed.\<close>

theorem no_write_escapes: "answer (guarded other py) request st = answer py request st"
  unfolding answer_def handle_def guarding guarded_simps by (rule refl)

subsection \<open>What the executor holds\<close>

definition holds_more :: "'v executor \<Rightarrow> 'v executor \<Rightarrow> bool" where
  "holds_more st st' \<longleftrightarrow>
     (\<forall>k. hm_get (function_cache st) k \<noteq> None \<longrightarrow> hm_get (function_cache st') k \<noteq> None) \<and>
     set (unpacked_dirs st) \<subseteq> set (unpacked_dirs st')"

lemma holds_more_refl [simp]: "holds_more st st"
  by (simp add: holds_more_def)

lemma holds_more_trans: "holds_more a b \<Longrightarrow> holds_more b c \<Longrightarrow> holds_more a c"
  by (auto simp: holds_more_def)

definition keeps_held :: "('v, 'a) computation \<Rightarrow> bool" where
  "keeps_held m \<longleftrightarrow> (\<forall>st. holds_more st (snd (m st)))"

text \<open>The code of the users leaves the variables of the executor alone.\<close>

definition code_keeps :: "'v python \<Rightarrow> bool" where
  "code_keeps py \<longleftrightarrow> (\<forall>a. keeps_held (perform py a))"

lemma keeps_held_result: "keeps_held m \<Longrightarrow> m st = (r, st1) \<Longrightarrow> holds_more st st1"
  by (auto simp: keeps_held_def dest: spec [of _ st])

lemma perform_keeps [keeping]: "code_keeps py \<Longrightarrow> keeps_held (perform py a)"
  by (simp add: code_keeps_def)

lemma pure_keeps [keeping]: "keeps_held (pure r)"
  by (simp add: keeps_held_def pure_def)

lemma unless_keeps [keeping]: "keeps_held (unless c e)"
  by (simp add: unless_def pure_keeps)

lemma then_do_keeps [keeping]:
  assumes "keeps_held m" "\<And>x. keeps_held (k x)"
  shows "keeps_held (then_do m k)"
  unfolding keeps_held_def
proof
  fix st
  show "holds_more st (snd (then_do m k st))"
  proof (cases "m st")
    case (Pair r st1)
    have "holds_more st st1" by (rule keeps_held_result [OF assms(1) Pair])
    moreover have "holds_more st1 (snd (k x st1))" for x using assms(2) by (simp add: keeps_held_def)
    ultimately show ?thesis
      using Pair by (cases r) (auto simp: then_do_def intro: holds_more_trans)
  qed
qed

lemma if_keeps [keeping]: "keeps_held a \<Longrightarrow> keeps_held b \<Longrightarrow> keeps_held (if c then a else b)"
  by simp

lemma decode_keeps [keeping]: "keeps_held (decode_item py v)"
  unfolding decode_item_def by (intro keeping)

lemma fetch_once_keeps [keeping]:
  assumes "code_keeps py"
  shows "keeps_held (fetch_once py loaded url)"
  unfolding keeps_held_def
proof
  fix st
  show "holds_more st (snd (fetch_once py loaded url st))"
    using keeps_held_result [OF perform_keeps [OF assms], of "FetchUrl loaded url" st]
    by (auto simp: fetch_once_def split: prod.split sum.split)
qed

lemma preload_modules_keeps [keeping]: "code_keeps py \<Longrightarrow> keeps_held (preload_modules py payload ms)"
  by (induction ms) (simp_all add: keeping)

lemma write_files_keeps [keeping]: "code_keeps py \<Longrightarrow> keeps_held (write_files py fs)"
proof (induction fs)
  case (Cons f fs)
  then show ?case by (cases f) (simp add: keeping)
qed (simp add: keeping)

lemma store_function_keeps [keeping]:
  "keeps_held (\<lambda>st1. (Inr (), st1\<lparr>function_cache := hm_insert key v (function_cache st1)\<rparr>))"
  by (simp add: keeps_held_def holds_more_def)

lemma add_dir_keeps [keeping]: "keeps_held (\<lambda>st. (Inr (), add_dir d st))"
  by (auto simp: keeps_held_def holds_more_def add_dir_def)

lemma load_function_keeps [keeping]:
  assumes "code_keeps py"
  shows "keeps_held (load_function py key expected payload)"
proof -
  have "keeps_held (then_do (pure (item ''function'' payload)) (\<lambda>f.
        then_do (decode_item py f) (\<lambda>data.
        then_do (unless (JString (sha256 py data) = expected)
                    (ValueError ''function hash does not match payload'')) (\<lambda>_.
        then_do (perform py (Unpickle data)) (\<lambda>v st1.
          (Inr (), st1\<lparr>function_cache := hm_insert key v (function_cache st1)\<rparr>))))))"
    by (intro keeping assms)
  then show ?thesis by (simp add: keeps_held_def load_function_def)
qed

lemma loaded_function_keeps [keeping]: "keeps_held (loaded_function key)"
  by (simp add: keeps_held_def loaded_function_def)

lemma payload_keeps [keeping]:
  assumes "code_keeps py"
  shows "keeps_held (preload py payload)" "keeps_held (run_function py payload)"
    "keeps_held (run_pickle py payload)" "keeps_held (run_source py payload)"
    "keeps_held (run_files py payload)"
  unfolding preload_def run_function_def run_pickle_def run_source_def run_files_def
  by (intro keeping assms | simp add: keeping assms split: json.split)+

lemma execute_keeps [keeping]: "code_keeps py \<Longrightarrow> keeps_held (execute py payload)"
  unfolding execute_def by (intro keeping)

lemma unpack_keeps [keeping]: "code_keeps py \<Longrightarrow> keeps_held (unpack_dir py digest data)"
  unfolding unpack_dir_def by (intro keeping)

text \<open>The two checks, as far as they decide what is held.\<close>

lemma then_do_Inr:
  "then_do m k st = (Inr y, st2) \<longleftrightarrow> (\<exists>x st1. m st = (Inr x, st1) \<and> k x st1 = (Inr y, st2))"
  by (auto simp: then_do_def split: prod.splits sum.splits)

lemma pure_Inr [simp]: "pure r st = (Inr x, st1) \<longleftrightarrow> r = Inr x \<and> st1 = st"
  by (auto simp: pure_def)

lemma loaded_is_held:
  "load_function py key expected payload st = (Inr (), st1) \<Longrightarrow> hm_get (function_cache st1) key \<noteq> None"
  by (auto simp: load_function_def then_do_Inr split: if_splits)

lemma held_is_loaded:
  "hashable key \<Longrightarrow> hm_get (function_cache st) key \<noteq> None \<Longrightarrow>
     load_function py key expected payload st = (Inr (), st)"
  by (simp add: load_function_def)

lemma run_function_holds:
  assumes "code_keeps py" "run_function py payload st = (Inr v, st1)"
    and "get_item ''cache_key'' expected payload = Inr key" "item ''hash'' payload = Inr expected"
  shows "hm_get (function_cache st1) key \<noteq> None"
proof -
  obtain st2 where load: "load_function py key expected payload st = (Inr (), st2)"
    and rest: "then_do (pure (item ''params'' payload)) (\<lambda>params.
     then_do (decode_item py params) (\<lambda>data.
     then_do (perform py (Unpickle data)) (\<lambda>args.
     then_do (loaded_function key) (\<lambda>f.
     perform py (Apply f args))))) st2 = (Inr v, st1)" (is "?rest st2 = _")
    using assms(2-4) by (auto simp: run_function_def then_do_Inr)
  have "keeps_held ?rest" by (intro keeping assms(1))
  then have "holds_more st2 st1" using rest by (rule keeps_held_result)
  then show ?thesis using loaded_is_held [OF load] by (simp add: holds_more_def)
qed

lemma add_dir_holds [simp]: "d \<in> set (unpacked_dirs (add_dir d st))"
  by (simp add: add_dir_def)

lemma unpack_archive_holds:
  "unpack_archive py d spec st = (Inr u, st1) \<Longrightarrow> d \<in> set (unpacked_dirs st1)"
  by (auto simp: unpack_archive_def unpack_dir_def then_do_Inr then_do_unless split: if_split_asm)

lemma prepared_dir:
  assumes "prepare_working_dir py spec st = (Inr dir, st1)" "truthy spec" "item ''hash'' spec = Inr (JString d)"
  shows "dir = Some d \<and> d \<in> set (unpacked_dirs st1) \<and> valid_digest d"
  using assms
  by (auto simp: prepare_working_dir_def then_do_Inr then_do_unless text_of_def find_dir_def
      dest: unpack_archive_holds split: if_split_asm)

lemma find_dir_keeps [keeping]:
  assumes "code_keeps py"
  shows "keeps_held (find_dir py d spec)"
proof -
  have "keeps_held (unpack_archive py d spec)" unfolding unpack_archive_def by (intro keeping assms)
  then show ?thesis by (simp add: keeps_held_def find_dir_def)
qed

lemma prepare_keeps [keeping]: "code_keeps py \<Longrightarrow> keeps_held (prepare_working_dir py spec)"
  unfolding prepare_working_dir_def by (intro keeping)

lemma held_dir_is_prepared:
  assumes "d \<in> set (unpacked_dirs st)" "valid_digest d"
  shows "prepare_working_dir py (JObject ((''hash'', JString d) # fs)) st = (Inr (Some d), st)"
  using assms
  by (simp add: prepare_working_dir_def truthy_def item_def hm_get_def then_do_pure then_do_unless text_of_def
      find_dir_def then_do_def pure_def)

lemma invoke_keeps:
  assumes "code_keeps py" "invoke py spec payload st = (r, dir, st1)"
  shows "holds_more st st1"
proof (cases "prepare_working_dir py spec st")
  case (Pair q st2)
  have h: "holds_more st st2" by (rule keeps_held_result [OF prepare_keeps [OF assms(1)] Pair])
  show ?thesis
  proof (cases q)
    case (Inr d)
    have "keeps_held (then_do (execute py payload) (\<lambda>v. pure (encode py v)))"
      by (intro keeping assms(1))
    then have "holds_more (enter_dir d st2) st1"
      using assms(2) Pair Inr by (auto simp: invoke_def keeps_held_def split: prod.splits dest: spec [of _ "enter_dir d st2"])
    moreover have "holds_more st2 (enter_dir d st2)" by (simp add: enter_dir_def holds_more_def split: option.split)
    ultimately show ?thesis using h by (blast intro: holds_more_trans)
  qed (use assms(2) Pair h in \<open>simp add: invoke_def\<close>)
qed

lemma run_request_keeps:
  assumes "code_keeps py" "run_request py (variables, secrets, spec, inner) st = (r, st1)"
  shows "holds_more st st1"
proof -
  obtain v dir st2 where i: "invoke py spec inner (entered variables secrets st) = (v, dir, st2)"
    "st1 = put_back py st dir st2"
    by (rule run_request_cases [OF assms(2)]) blast
  have "holds_more (entered variables secrets st) st2" by (rule invoke_keeps [OF assms(1) i(1)])
  then show ?thesis by (simp add: i(2) holds_more_def entered_def)
qed

lemma answer_keeps:
  assumes "code_keeps py" "answer py request st = (a, st1)"
  shows "holds_more st st1"
proof (cases request)
  case (Inr payload)
  obtain r where "handle py payload st = (r, st1)"
    using assms(2) Inr by (auto simp: answer_def then_do_pure split: prod.splits sum.splits)
  then show ?thesis
    by (cases rule: handle_cases) (auto dest: run_request_keeps [OF assms(1)])
qed (use assms(2) in \<open>auto simp: answer_def then_do_pure pure_def\<close>)

text \<open>An answer without error to a request that is not about the executor: both checks have passed.\<close>

lemma answered_without_error:
  assumes "answer py (Inr payload) st = (a, st1)" "resp_error a = None"
    and "item ''encoding'' payload = Inr enc" "enc \<noteq> JString ''scraperack-describe''"
    and "unwrap payload = Inr (variables, secrets, spec, inner)"
  obtains dir st2 v st3 where
    "prepare_working_dir py spec (entered variables secrets st) = (Inr dir, st2)"
    "execute py inner (enter_dir dir st2) = (Inr v, st3)"
    "function_cache st1 = function_cache st3" "unpacked_dirs st1 = unpacked_dirs st3"
proof -
  have "run_request py (variables, secrets, spec, inner) st = (Inr a, st1)"
    using assms by (auto simp: answer_def handle_def then_do_pure split: prod.splits sum.splits)
  then obtain v dir st2 where i: "invoke py spec inner (entered variables secrets st) = (v, dir, st2)"
    "st1 = put_back py st dir st2"
    "resp_error a = (case v of Inl e \<Rightarrow> Some (format_exc py e) | Inr _ \<Rightarrow> None)"
    by (elim run_request_cases) auto
  then obtain j where "v = Inr j" using assms(2) by (cases v) auto
  then obtain q where "prepare_working_dir py spec (entered variables secrets st) = (Inr dir, q)"
    "then_do (execute py inner) (\<lambda>v. pure (encode py v)) (enter_dir dir q) = (Inr j, st2)"
    using i(1) by (auto simp: invoke_def split: prod.splits sum.splits)
  then show ?thesis using i(2) by (auto simp: then_do_Inr intro: that)
qed

subsection \<open>An example\<close>

text \<open>
  An interpreter whose functions empty the environment, the search path and the context and return
  their parameters, and requests to it.
\<close>

definition demo_perform :: "json action \<Rightarrow> (json, json) computation" where
  "demo_perform a st =
     (case a of
        Unpickle data \<Rightarrow> (Inr (JString data), st)
      | Apply f x \<Rightarrow>
          (Inr x, st\<lparr>environ := [], sys_path := [], run_context := None,
             sys_modules := [(''helper'', Some ''/tmp/scraperack-working-dirs/x.py'')]\<rparr>)
      | _ \<Rightarrow> (Inr JNull, st))"

definition demo_digest :: string where
  "demo_digest = replicate 64 CHR ''a''"

definition demo_python :: "json python" where
  "demo_python = \<lparr>perform = demo_perform, items_of = (\<lambda>_. Inr []), from_json = id, to_json = Inr,
     pickled = (\<lambda>_. Inl TypeError), is_callable = (\<lambda>_. True), return_code = (\<lambda>_. 0),
     failed_command = (\<lambda>_. []), command_result = id,
     request_failed = (\<lambda>_. True), b64decode = Inr, sha256 = (\<lambda>_. demo_digest),
     zip_names = (\<lambda>_. Inr []), read_text = Inr, inside_dir = (\<lambda>_ _. True),
     format_exc = (\<lambda>_. ''error''), version = ''3''\<rparr>"

definition demo_executor :: "json executor" where
  "demo_executor = \<lparr>function_cache = [], unpacked_dirs = [], run_context = None,
     environ = [(''HOME'', ''/tmp'')], current_dir = ''/tmp'', sys_path = [''/usr/lib''],
     sys_modules = [], redirected = False, captured_out = [], captured_err = []\<rparr>"

definition demo_call :: json where
  "demo_call = JObject
     [(''encoding'', JString ''python-function''), (''hash'', JString demo_digest),
      (''function'', JString ''f''), (''params'', JString ''x'')]"

definition demo_request :: json where
  "demo_request = JObject
     [(''encoding'', JString ''scraperack-invocation''), (''payload'', demo_call),
      (''variables'', JObject []), (''secrets'', JObject [(''TOKEN'', JString ''s'')]),
      (''working_dir'', JObject [(''hash'', JString demo_digest), (''archive'', JString ''zip'')])]"

lemmas demo_eval = handle_def run_request_def invoke_def unwrap_def prepare_working_dir_def find_dir_def
  unpack_archive_def unpack_dir_def then_do_pure then_do_unless execute_def run_function_def load_function_def
  loaded_function_def decode_item_def item_def get_item_def text_of_def truthy_def hashable_def
  encode_def hm_get_def hm_insert_def entered_def enter_dir_def add_dir_def put_back_def unload_modules_def
  then_do_def pure_def demo_perform_def demo_python_def demo_executor_def demo_call_def demo_request_def

lemma demo_digest_valid: "valid_digest demo_digest"
  by (simp add: valid_digest_def demo_digest_def list_all_iff)

lemma demo_handle:
  "\<exists>a st. handle demo_python demo_request demo_executor = (Inr a, st) \<and>
     resp_error a = None \<and> unpacked_dirs st = [demo_digest] \<and> hm_get (function_cache st) (JString demo_digest) \<noteq> None"
  using demo_digest_valid by (simp add: demo_eval outside_def)

lemma requests_are_isolated_witness:
  "\<exists>a st. handle demo_python demo_request demo_executor = (Inr a, st) \<and>
     run_context st = None \<and> environ st = [(''HOME'', ''/tmp'')] \<and> sys_path st = [''/usr/lib''] \<and>
     sys_modules st = []"
proof -
  obtain a st where h: "handle demo_python demo_request demo_executor = (Inr a, st)"
    using demo_handle by blast
  have "sys_modules st = []"
    using h demo_digest_valid by (auto simp: demo_eval outside_def)
  then show ?thesis
    using h requests_are_isolated [OF h] by (simp add: demo_executor_def)
qed

end
