(* ===== verification/Node_Guest.thy ===== *)
theory Node_Guest
  imports Node_Cooperation Guest_Executor
begin

section \<open>What a node believes about a guest\<close>

text \<open>
  The executor of a machine keeps the functions it has loaded and the working directories it has
  unpacked; the node notes both in \<open>LiveVm\<close>, to leave them out of later requests. Here the requests that
  \<open>run_execution\<close> builds meet the executor of \<open>Guest_Executor\<close>: as long as requests are answered
  without an error, the executor has whatever the node leaves out, but for functions that a payload
  of another encoding named. The lemmas at the end are the cases in which it has not.
\<close>

text \<open>What the node has noted, the executor holds, functions in \<open>X\<close> apart.\<close>

definition notes_hold :: "string set \<Rightarrow> live_vm \<Rightarrow> 'v executor \<Rightarrow> bool" where
  "notes_hold X vm st \<longleftrightarrow>
     (\<forall>f \<in> live_functions vm - X. hm_get (function_cache st) (JString f) \<noteq> None) \<and>
     (\<forall>d \<in> live_working_dirs vm. d \<in> set (unpacked_dirs st) \<and> valid_digest d)"

text \<open>The completion that the node reads from an answer.\<close>

definition completion_of :: "py_response \<Rightarrow> completion" where
  "completion_of a =
     \<lparr>comp_result = Some (JObject
        [(''value'', case resp_value a of None \<Rightarrow> JNull | Some v \<Rightarrow> v),
         (''stdout'', JString (resp_stdout a)), (''stderr'', JString (resp_stderr a))]),
      comp_error = resp_error a, comp_timed_out = False, comp_metrics = None, comp_keep_idle = False\<rparr>"

text \<open>The functions that a payload names without being a call of a function.\<close>

definition stray_function :: "work \<Rightarrow> string \<Rightarrow> bool" where
  "stray_function w f \<longleftrightarrow> function_key (bare_payload w) = Some f \<and>
     json_get ''encoding'' (bare_payload w) \<noteq> Some (JString ''python-function'')"

definition meet :: "'v python \<Rightarrow> run_inputs \<times> work \<times> string option \<Rightarrow> live_vm \<times> 'v executor \<Rightarrow>
    py_response \<times> live_vm \<times> 'v executor" where
  "meet py = (\<lambda>(ri, w, archive) (vm, st).
     (case answer py (Inr (invocation w vm archive)) st of
        (a, st1) \<Rightarrow> (a, after_run (ri\<lparr>ri_response := Some (Answer (completion_of a))\<rparr>) w vm, st1)))"

lemma item_json_get: "item k payload = Inr v \<longleftrightarrow> json_get k payload = Some v"
  by (cases payload) (auto simp: item_def split: option.split)

lemma function_payload_item:
  "k \<noteq> ''function'' \<Longrightarrow> json_get k (function_payload vm payload) = json_get k payload"
  by (simp add: function_payload_def json_get_remove_field split: option.split)

lemma function_key_item:
  assumes "function_key payload = Some f" "json_get ''hash'' payload = Some h"
  shows "get_item ''cache_key'' h payload = Inr (JString f)"
  using assms
  by (cases payload) (auto simp: function_key_def get_item_def elim!: json_as_str.elims split: option.splits)

lemma after_run_notes:
  "live_functions (after_run ri w vm) \<subseteq> live_functions vm \<union>
     (case function_key (bare_payload w) of None \<Rightarrow> {} | Some f \<Rightarrow> {f})"
  "live_working_dirs (after_run ri w vm) \<subseteq> live_working_dirs vm \<union>
     (case wanted_dir w of None \<Rightarrow> {} | Some d \<Rightarrow> {d})"
  by (auto simp: after_run_def Let_def split: option.splits if_splits)

lemma notes_hold_mono: "notes_hold X vm st \<Longrightarrow> holds_more st st1 \<Longrightarrow> notes_hold X vm st1"
  by (auto simp: notes_hold_def holds_more_def)

lemma notes_after_run:
  assumes "notes_hold X vm st" "holds_more st st1"
    and "\<And>f. function_key (bare_payload w) = Some f \<Longrightarrow> f \<notin> X \<Longrightarrow> hm_get (function_cache st1) (JString f) \<noteq> None"
    and "\<And>d. wanted_dir w = Some d \<Longrightarrow> d \<in> set (unpacked_dirs st1) \<and> valid_digest d"
  shows "notes_hold X (after_run ri w vm) st1"
proof -
  have "notes_hold X vm st1" by (rule notes_hold_mono [OF assms(1,2)])
  then show ?thesis
    using after_run_notes [of ri w vm] assms(3,4) unfolding notes_hold_def by (fastforce split: option.splits)
qed

text \<open>A call that returned has left its function behind.\<close>

lemma call_holds:
  assumes "code_keeps py" "execute py (function_payload vm payload) st = (Inr v, st1)"
    and "function_key payload = Some f" "json_get ''encoding'' payload = Some (JString ''python-function'')"
  shows "hm_get (function_cache st1) (JString f) \<noteq> None"
proof -
  let ?p = "function_payload vm payload"
  have "item ''encoding'' ?p = Inr (JString ''python-function'')"
    using assms(4) by (simp add: item_json_get function_payload_item)
  then have run: "run_function py ?p st = (Inr v, st1)"
    using assms(2) by (simp add: execute_def then_do_pure)
  then obtain h where h: "item ''hash'' ?p = Inr h"
    by (auto simp: run_function_def then_do_Inr)
  have "function_key ?p = Some f"
    using assms(3) by (simp add: function_key_def function_payload_item cong: option.case_cong)
  then have "get_item ''cache_key'' h ?p = Inr (JString f)"
    using h by (intro function_key_item) (simp_all add: item_json_get)
  then show ?thesis using run_function_holds [OF assms(1) run] h by simp
qed

lemma wrapped_invocation:
  assumes "exec_variables (work_execution w) \<noteq> [] \<or> work_secrets w \<noteq> [] \<or> wanted_dir w \<noteq> None"
  shows "unwrap (invocation w vm archive) =
      Inr (json_strings (exec_variables (work_execution w)), json_strings (work_secrets w),
        (case wanted_dir w of None \<Rightarrow> JNull
         | Some d \<Rightarrow> JObject [(''hash'', JString d), (''archive'', json_optional archive)]),
        function_payload vm (bare_payload w))"
    and "item ''encoding'' (invocation w vm archive) = Inr (JString ''scraperack-invocation'')"
  using assms by (simp_all add: invocation_def unwrap_def item_def get_item_def hm_get_def)

lemma meet_keeps_notes:
  assumes "code_keeps py" "notes_hold X vm st" "\<And>f. stray_function w f \<Longrightarrow> f \<in> X"
    and "meet py (ri, w, archive) (vm, st) = (a, vm1, st1)" "resp_error a = None"
  shows "notes_hold X vm1 st1"
proof -
  let ?inner = "function_payload vm (bare_payload w)"
  have ans: "answer py (Inr (invocation w vm archive)) st = (a, st1)"
    and vm1: "vm1 = after_run (ri\<lparr>ri_response := Some (Answer (completion_of a))\<rparr>) w vm"
    using assms(4) by (auto simp: meet_def split: prod.splits)
  have more: "holds_more st st1" by (rule answer_keeps [OF assms(1) ans])
  have key: "json_get ''encoding'' (bare_payload w) = Some (JString ''python-function'')"
    if "function_key (bare_payload w) = Some f" "f \<notin> X" for f
    using assms(3) [of f] that by (auto simp: stray_function_def)
  show ?thesis
  proof (cases "exec_variables (work_execution w) \<noteq> [] \<or> work_secrets w \<noteq> [] \<or> wanted_dir w \<noteq> None")
    case True
    note wrapped = wrapped_invocation [OF True, of vm archive]
    obtain dir st2 v st3 where run:
      "prepare_working_dir py (case wanted_dir w of None \<Rightarrow> JNull
         | Some d \<Rightarrow> JObject [(''hash'', JString d), (''archive'', json_optional archive)])
         (entered (json_strings (exec_variables (work_execution w))) (json_strings (work_secrets w)) st)
       = (Inr dir, st2)"
      "execute py ?inner (enter_dir dir st2) = (Inr v, st3)"
      "function_cache st1 = function_cache st3" "unpacked_dirs st1 = unpacked_dirs st3"
      by (rule answered_without_error [OF ans assms(5) wrapped(2) _ wrapped(1)]) auto
    have "hm_get (function_cache st1) (JString f) \<noteq> None"
      if "function_key (bare_payload w) = Some f" "f \<notin> X" for f
      unfolding run(3) by (rule call_holds [OF assms(1) run(2) that(1) key [OF that]])
    moreover have "d \<in> set (unpacked_dirs st1) \<and> valid_digest d" if d: "wanted_dir w = Some d" for d
    proof -
      have "d \<in> set (unpacked_dirs st2) \<and> valid_digest d"
        using prepared_dir [OF run(1), of d] d by (simp add: truthy_def item_def hm_get_def)
      moreover have "holds_more (enter_dir dir st2) st3"
        by (rule keeps_held_result [OF execute_keeps [OF assms(1)] run(2)])
      ultimately show ?thesis
        unfolding run(4) by (auto simp: holds_more_def enter_dir_def split: option.splits)
    qed
    ultimately show ?thesis unfolding vm1 by (intro notes_after_run [OF assms(2) more])
  next
    case False
    then have inv: "invocation w vm archive = ?inner" by (simp add: invocation_def)
    have "hm_get (function_cache st1) (JString f) \<noteq> None"
      if f: "function_key (bare_payload w) = Some f" "f \<notin> X" for f
    proof -
      have enc: "item ''encoding'' ?inner = Inr (JString ''python-function'')"
        using key [OF f] by (simp add: item_json_get function_payload_item)
      then have uw: "unwrap ?inner = Inr (JObject [], JObject [], JNull, ?inner)" by (simp add: unwrap_def)
      obtain dir st2 v st3 where run: "execute py ?inner (enter_dir dir st2) = (Inr v, st3)"
        "function_cache st1 = function_cache st3"
        by (rule answered_without_error [OF ans [unfolded inv] assms(5) enc _ uw]) auto
      show ?thesis unfolding run(2) by (rule call_holds [OF assms(1) run(1) f(1) key [OF f]])
    qed
    moreover have "wanted_dir w = None" using False by simp
    ultimately show ?thesis unfolding vm1 by (intro notes_after_run [OF assms(2) more]) simp_all
  qed
qed

text \<open>The requests that one machine gets, one after the other.\<close>

fun serve_machine :: "'v python \<Rightarrow> (run_inputs \<times> work \<times> string option) list \<Rightarrow> live_vm \<times> 'v executor \<Rightarrow>
    py_response list \<times> live_vm \<times> 'v executor" where
  "serve_machine py [] m = ([], m)"
| "serve_machine py (q # qs) m =
     (case meet py q m of (a, m1) \<Rightarrow> (case serve_machine py qs m1 of (answers, m2) \<Rightarrow> (a # answers, m2)))"

lemma serve_machine_keeps_notes:
  assumes "code_keeps py"
  shows "notes_hold X (fst m) (snd m) \<Longrightarrow>
    (\<And>ri w archive f. (ri, w, archive) \<in> set qs \<Longrightarrow> stray_function w f \<Longrightarrow> f \<in> X) \<Longrightarrow>
    list_all (\<lambda>a. resp_error a = None) (fst (serve_machine py qs m)) \<Longrightarrow>
    notes_hold X (fst (snd (serve_machine py qs m))) (snd (snd (serve_machine py qs m)))"
proof (induction qs arbitrary: m)
  case (Cons q qs)
  obtain ri w archive where q: "q = (ri, w, archive)" by (cases q)
  obtain vm st where m: "m = (vm, st)" by (cases m)
  obtain a vm1 st1 where a: "meet py (ri, w, archive) (vm, st) = (a, vm1, st1)"
    by (cases "meet py (ri, w, archive) (vm, st)")
  have "resp_error a = None" "list_all (\<lambda>a. resp_error a = None) (fst (serve_machine py qs (vm1, st1)))"
    using Cons.prems(3) by (auto simp: q m a split: prod.splits)
  moreover from this(1) have "notes_hold X vm1 st1"
    by (intro meet_keeps_notes [OF assms _ _ a]) (use Cons.prems(1,2) in \<open>auto simp: q m\<close>)
  moreover have "f \<in> X" if "(ri', w', archive') \<in> set qs" "stray_function w' f" for ri' w' archive' f
    by (rule Cons.prems(2)) (use that in auto)
  ultimately show ?case
    using Cons.IH [of "(vm1, st1)"] by (auto simp: q m a split: prod.splits)
qed simp

text \<open>C15: What a node leaves out of a request, the machine has, with one exception. Take any sequence of
  executions on a new machine that are answered without an error, by code that leaves the variables of
  the executor alone: after it, every working directory that the node would not send is found by the
  executor without an archive, and every function that the node would leave out is found without its
  code, unless one of the executions named that function in a payload that is no call of a function,
  which the node notes all the same (\<open>data_call_is_noted\<close>).\<close>

theorem guest_has_what_node_omits:
  assumes "code_keeps py" "live_functions vm = {}" "live_working_dirs vm = {}"
    and "serve_machine py requests (vm, st) = (answers, vm1, st1)"
    and "list_all (\<lambda>a. resp_error a = None) answers"
  shows "(\<forall>d \<in> live_working_dirs vm1.
       prepare_working_dir py (JObject [(''hash'', JString d), (''archive'', json_optional None)]) st1
         = (Inr (Some d), st1)) \<and>
     (\<forall>f \<in> live_functions vm1.
       load_function py (JString f) expected payload st1 = (Inr (), st1) \<or>
       (\<exists>ri w archive. (ri, w, archive) \<in> set requests \<and> function_key (bare_payload w) = Some f \<and>
          json_get ''encoding'' (bare_payload w) \<noteq> Some (JString ''python-function'')))"
proof -
  let ?X = "{f. \<exists>ri w archive. (ri, w, archive) \<in> set requests \<and> stray_function w f}"
  have "notes_hold ?X vm st" using assms(2,3) by (simp add: notes_hold_def)
  then have "notes_hold ?X vm1 st1"
    using serve_machine_keeps_notes [OF assms(1), of ?X "(vm, st)" requests] assms(4,5) by force
  then show ?thesis
    unfolding notes_hold_def stray_function_def
    by (auto simp: hashable_def intro: held_is_loaded held_dir_is_prepared)
qed

definition guest_work :: work where
  "guest_work = demo_work\<lparr>work_execution := (demo_execution 10 5)\<lparr>exec_payload := JObject
     [(''encoding'', JString ''python-function''), (''hash'', JString demo_digest),
      (''function'', JString ''f''), (''params'', JString ''x''), (''working_dir'', JString demo_digest)]\<rparr>\<rparr>"

definition guest_vm :: live_vm where
  "guest_vm = \<lparr>live_id = 1, live_pool = demo_pool, live_pid = None, live_network = None,
     live_functions = {}, live_working_dirs = {}, live_last_used = 0\<rparr>"

lemma guest_work_facts:
  "function_key demo_call = Some demo_digest" "wanted_dir guest_work = Some demo_digest"
  "bare_payload guest_work = demo_call" "exec_variables (work_execution guest_work) = []"
  "work_secrets guest_work = []"
  "json_get ''encoding'' demo_call = Some (JString ''python-function'')"
  by (simp_all add: guest_work_def function_key_def bare_payload_def wanted_dir_def json_get_str_def hm_get_def
      hm_remove_def demo_work_def demo_execution_def demo_call_def)

lemma noted_after_success:
  "resp_error a = None \<Longrightarrow> after_run (ri\<lparr>ri_response := Some (Answer (completion_of a))\<rparr>) guest_work vm
     = vm\<lparr>live_working_dirs := insert demo_digest (live_working_dirs vm),
          live_functions := insert demo_digest (live_functions vm)\<rparr>"
  by (simp add: after_run_def guest_work_facts interpret_response_def final_completion_def redact_completion_def
      completion_of_def hm_values_def Let_def)

definition guest_answer :: py_response where
  "guest_answer = \<lparr>resp_value = Some (JObject [(''encoding'', JString ''json''), (''data'', JString ''x'')]),
     resp_stdout = [], resp_stderr = [], resp_error = None\<rparr>"

definition served_executor :: "json executor" where
  "served_executor =
     demo_executor\<lparr>function_cache := [(JString demo_digest, JString ''f'')], unpacked_dirs := [demo_digest]\<rparr>"

definition served_vm :: live_vm where
  "served_vm = guest_vm\<lparr>live_functions := {demo_digest}, live_working_dirs := {demo_digest}\<rparr>"

lemma guest_invocations:
  "invocation guest_work guest_vm (Some ''zip'') = JObject
     [(''encoding'', JString ''scraperack-invocation''), (''payload'', demo_call),
      (''variables'', JObject []), (''secrets'', JObject []),
      (''working_dir'', JObject [(''hash'', JString demo_digest), (''archive'', JString ''zip'')])]"
  "invocation guest_work served_vm None = JObject
     [(''encoding'', JString ''scraperack-invocation''), (''payload'', json_remove_field ''function'' demo_call),
      (''variables'', JObject []), (''secrets'', JObject []),
      (''working_dir'', JObject [(''hash'', JString demo_digest), (''archive'', JNull)])]"
  by (simp_all add: invocation_def guest_work_facts function_payload_def guest_vm_def served_vm_def
      json_optional_def json_strings_def)

lemma guest_answers:
  "answer demo_python (Inr (invocation guest_work guest_vm (Some ''zip''))) demo_executor
     = (guest_answer, served_executor)"
  "answer demo_python (Inr (invocation guest_work served_vm None)) served_executor
     = (guest_answer, served_executor)"
  unfolding guest_invocations
  using demo_digest_valid
  by (simp_all add: answer_def guest_answer_def served_executor_def demo_eval outside_def hm_remove_def)

lemma guest_meetings:
  "meet demo_python (demo_run, guest_work, Some ''zip'') (guest_vm, demo_executor)
     = (guest_answer, served_vm, served_executor)"
  "meet demo_python (demo_run, guest_work, None) (served_vm, served_executor)
     = (guest_answer, served_vm, served_executor)"
proof -
  have e: "resp_error guest_answer = None" by (simp add: guest_answer_def)
  show "meet demo_python (demo_run, guest_work, Some ''zip'') (guest_vm, demo_executor)
     = (guest_answer, served_vm, served_executor)"
    unfolding meet_def prod.case guest_answers noted_after_success [OF e]
    by (simp add: served_vm_def guest_vm_def)
  show "meet demo_python (demo_run, guest_work, None) (served_vm, served_executor)
     = (guest_answer, served_vm, served_executor)"
    unfolding meet_def prod.case guest_answers noted_after_success [OF e]
    by (simp add: served_vm_def guest_vm_def)
qed

lemma demo_code_keeps: "code_keeps demo_python"
  by (simp add: code_keeps_def keeps_held_def demo_python_def demo_perform_def holds_more_def split: action.split)

lemma guest_has_what_node_omits_witness:
  "\<exists>answers vm st.
     serve_machine demo_python [(demo_run, guest_work, Some ''zip''), (demo_run, guest_work, None)]
       (guest_vm, demo_executor) = (answers, vm, st) \<and>
     live_functions vm = {demo_digest} \<and>
     load_function demo_python (JString demo_digest) JNull JNull st = (Inr (), st)"
proof -
  let ?works = "[(demo_run, guest_work, Some ''zip''), (demo_run, guest_work, None)]"
  have run: "serve_machine demo_python ?works (guest_vm, demo_executor)
     = ([guest_answer, guest_answer], served_vm, served_executor)"
    by (simp add: guest_meetings)
  have "live_functions guest_vm = {}" "live_working_dirs guest_vm = {}" by (simp_all add: guest_vm_def)
  moreover have "list_all (\<lambda>a. resp_error a = None) [guest_answer, guest_answer]"
    by (simp add: guest_answer_def)
  ultimately show ?thesis
    using guest_has_what_node_omits [OF demo_code_keeps _ _ run, of JNull JNull] run
    by (auto simp: served_vm_def guest_work_facts)
qed

subsection \<open>Where the agreement ends\<close>

text \<open>
  The note is written after an answer with an error too, for the working directory always, for the
  function when there is no working directory.
\<close>

lemma noted_directory:
  assumes "ri_response ri = Some (Answer a)" "wanted_dir w = Some d"
  shows "d \<in> live_working_dirs (after_run ri w vm)"
  using assms by (auto simp: after_run_def interpret_response_def Let_def split: option.split)

lemma noted_function:
  assumes "ri_response ri = Some (Answer a)" "wanted_dir w = None" "function_key (bare_payload w) = Some f"
  shows "f \<in> live_functions (after_run ri w vm)"
  using assms by (simp add: after_run_def interpret_response_def Let_def)

text \<open>
  A directory that could not be unpacked is noted all the same. The next execution on the machine
  gets no archive, and the guest refuses it, as often as it is tried.
\<close>

lemma failed_directory_is_never_sent_again:
  assumes "d \<notin> set (unpacked_dirs st)" "valid_digest d"
    and "ri_response ri = Some (Answer a)" "wanted_dir w = Some d" "wanted_dir w' = Some d"
  shows "\<not> needs_archive w' (after_run ri w vm) \<and>
    prepare_working_dir py (JObject [(''hash'', JString d), (''archive'', json_optional None)]) st
      = (Inl (ValueError ''working directory archive is missing''), st)"
proof
  show "\<not> needs_archive w' (after_run ri w vm)"
    using noted_directory [OF assms(3,4), of vm] assms(5) by (simp add: needs_archive_def)
  show "prepare_working_dir py (JObject [(''hash'', JString d), (''archive'', json_optional None)]) st
      = (Inl (ValueError ''working directory archive is missing''), st)"
    using assms(1,2)
    by (simp add: prepare_working_dir_def truthy_def item_def get_item_def hm_get_def text_of_def
        find_dir_def unpack_archive_def json_optional_def then_do_pure then_do_unless then_do_def pure_def unless_def)
qed

text \<open>
  The same for a function that the guest refused, and for one that it has lost, under the key that the
  client chose: the request has no code, and the executor raises a \<open>KeyError\<close>.
\<close>

lemma missing_function_is_never_sent_again:
  assumes "f \<in> live_functions vm" "function_key payload = Some f" "json_get ''hash'' payload = Some h"
    and "json_get ''encoding'' payload = Some (JString ''python-function'')"
    and "hm_get (function_cache st) (JString f) = None"
  shows "execute py (function_payload vm payload) st = (Inl (KeyError ''function''), st)"
proof -
  let ?p = "function_payload vm payload"
  obtain fs where fs: "payload = JObject fs" using assms(3) by (cases payload) auto
  have p: "?p = JObject (hm_remove ''function'' fs)" using assms(1,2) by (simp add: function_payload_def fs)
  have "function_key ?p = Some f"
    using assms(2) by (simp add: function_key_def function_payload_item cong: option.case_cong)
  moreover have h: "json_get ''hash'' ?p = Some h" using assms(3) by (simp add: function_payload_item)
  ultimately have "get_item ''cache_key'' h ?p = Inr (JString f)" by (rule function_key_item)
  moreover have "item ''hash'' ?p = Inr h" using h by (simp add: item_json_get)
  moreover have "item ''encoding'' ?p = Inr (JString ''python-function'')"
    using assms(4) by (simp add: item_json_get function_payload_item)
  moreover have "item ''function'' ?p = Inl (KeyError ''function'')" by (simp add: p item_def)
  ultimately show ?thesis
    using assms(5) by (simp add: execute_def run_function_def load_function_def hashable_def then_do_pure
        then_do_def pure_def)
qed

text \<open>
  A payload of another encoding that carries a hash, answered without an error: the node notes the hash
  as a function that the machine has. The next call of the function with that hash gets no code, and
  the executor raises a \<open>KeyError\<close>.
\<close>

definition data_work :: work where
  "data_work = demo_work\<lparr>work_execution := (demo_execution 10 5)\<lparr>exec_payload := JObject
     [(''encoding'', JString ''json''), (''hash'', JString demo_digest), (''data'', JString ''x'')]\<rparr>\<rparr>"

lemma data_work_facts:
  "wanted_dir data_work = None" "function_key (bare_payload data_work) = Some demo_digest"
  "invocation data_work guest_vm None = JObject
     [(''encoding'', JString ''json''), (''hash'', JString demo_digest), (''data'', JString ''x'')]"
  by (simp_all add: data_work_def function_key_def bare_payload_def wanted_dir_def json_get_str_def hm_get_def
      hm_remove_def demo_work_def demo_execution_def invocation_def function_payload_def guest_vm_def)

lemma data_call_is_noted:
  "\<exists>a vm1. meet demo_python (demo_run, data_work, None) (guest_vm, demo_executor) = (a, vm1, demo_executor) \<and>
     resp_error a = None \<and> demo_digest \<in> live_functions vm1 \<and>
     execute demo_python (function_payload vm1 demo_call) demo_executor
       = (Inl (KeyError ''function''), demo_executor)"
proof -
  obtain a where a: "answer demo_python (Inr (invocation data_work guest_vm None)) demo_executor = (a, demo_executor)"
    "resp_error a = None"
    unfolding data_work_facts by (simp add: answer_def demo_eval outside_def hm_remove_def)
  let ?vm1 = "after_run (demo_run\<lparr>ri_response := Some (Answer (completion_of a))\<rparr>) data_work guest_vm"
  have noted: "demo_digest \<in> live_functions ?vm1"
    by (rule noted_function) (simp_all add: data_work_facts)
  have "execute demo_python (function_payload ?vm1 demo_call) demo_executor
      = (Inl (KeyError ''function''), demo_executor)"
    by (rule missing_function_is_never_sent_again [OF noted guest_work_facts(1), of "JString demo_digest"])
      (simp_all add: demo_call_def demo_executor_def hm_get_def)
  then show ?thesis using a noted by (simp add: meet_def)
qed

end
