(* ===== verification/Guest_Agent.thy ===== *)
theory Guest_Agent
  imports Node_Guest
begin

section \<open>The agent in the guest and its messages\<close>

text \<open>
  \<open>platform/guest/scraperack-init\<close>: the first process of a machine, which answers the lines of the
  node and passes executions on to the executor of \<open>Guest_Executor\<close>, and the messages between the
  two, each with its length in four bytes before it. A connection is the chunks in which its bytes
  arrive. \<open>loads\<close> is \<open>json.loads\<close>.
\<close>

subsection \<open>Messages with their length\<close>

text \<open>\<open>to_bytes(4, "big")\<close> and \<open>from_bytes(_, "big")\<close>\<close>

definition to_bytes :: "nat \<Rightarrow> string" where
  "to_bytes n = map (\<lambda>k. char_of (n div 256 ^ k)) [3, 2, 1, 0]"

definition of_bytes :: "string \<Rightarrow> nat" where
  "of_bytes s = fold (\<lambda>c n. 256 * n + of_char c) s 0"

definition frame :: "string \<Rightarrow> string" where
  "frame data = to_bytes (length data) @ data"

text \<open>\<open>recv(n)\<close>: what has arrived, at most \<open>n\<close> bytes; nothing at the end.\<close>

fun recv :: "nat \<Rightarrow> string list \<Rightarrow> string \<times> string list" where
  "recv n [] = ([], [])"
| "recv n (c # cs) = (if length c \<le> n then (c, cs) else (take n c, drop n c # cs))"

function receive_more :: "string \<Rightarrow> nat \<Rightarrow> string list \<Rightarrow> string option \<times> string list" where
  "receive_more data len conn =
     (if len \<le> length data then (Some data, conn)
      else (case recv (len - length data) conn of
          (chunk, conn1) \<Rightarrow>
            if chunk = [] then (None, conn1) else receive_more (data @ chunk) len conn1))"
  by auto
termination
  by (relation "measure (\<lambda>(data, len, conn). len - length data)")
    (auto simp flip: length_greater_0_conv)

declare receive_more.simps [simp del]

definition receive :: "nat \<Rightarrow> string list \<Rightarrow> string option \<times> string list" where
  "receive len conn = receive_more [] len conn"

lemma recv_concat: "recv n conn = (chunk, conn1) \<Longrightarrow> chunk @ concat conn1 = concat conn"
  by (cases conn) (auto split: if_splits)

lemma recv_length: "recv n conn = (chunk, conn1) \<Longrightarrow> length chunk \<le> n"
  by (cases conn) (auto split: if_splits)

lemma recv_nonempty:
  "recv n conn = (chunk, conn1) \<Longrightarrow> [] \<notin> set conn \<Longrightarrow> 0 < n \<Longrightarrow>
     [] \<notin> set conn1 \<and> (chunk = [] \<longleftrightarrow> conn = [])"
  by (cases conn) (auto split: if_splits)

lemma receive_more_concat:
  "receive_more data len conn = (r, conn1) \<Longrightarrow>
     (case r of Some d \<Rightarrow> d @ concat conn1 = data @ concat conn \<and> len \<le> length d
      | None \<Rightarrow> length (concat conn1) \<le> length (concat conn))"
proof (induction data len conn rule: receive_more.induct)
  case (1 data len conn)
  show ?case
  proof (cases "len \<le> length data")
    case False
    obtain chunk conn2 where rec: "recv (len - length data) conn = (chunk, conn2)" by fastforce
    show ?thesis
    proof (cases "chunk = []")
      case True
      then have "r = None" "conn1 = conn2"
        using 1(2) False rec by (simp_all add: receive_more.simps [of data])
      then show ?thesis using recv_concat [OF rec] True by simp
    next
      case more: False
      then have "receive_more (data @ chunk) len conn2 = (r, conn1)"
        using 1(2) False rec by (simp add: receive_more.simps [of data])
      from 1(1) [OF False rec [symmetric] more this] show ?thesis
        using recv_concat [OF rec] by (cases r) (auto dest: arg_cong [of _ _ length])
    qed
  qed (use 1(2) in \<open>auto simp: receive_more.simps [of data]\<close>)
qed

text \<open>However the bytes arrive: what was sent is received, and the rest is still there.\<close>

lemma receive_more_exact:
  "[] \<notin> set conn \<Longrightarrow> length data \<le> len \<Longrightarrow> data @ concat conn = msg @ rest \<Longrightarrow> length msg = len \<Longrightarrow>
     \<exists>conn1. receive_more data len conn = (Some msg, conn1) \<and> concat conn1 = rest \<and> [] \<notin> set conn1"
proof (induction data len conn rule: receive_more.induct)
  case (1 data len conn)
  show ?case
  proof (cases "len \<le> length data")
    case True
    then have "data = msg \<and> concat conn = rest" using 1(3-5) by simp
    then show ?thesis using 1(2,5) by (simp add: receive_more.simps [of msg])
  next
    case False
    obtain chunk conn2 where rec: "recv (len - length data) conn = (chunk, conn2)" by fastforce
    have c: "[] \<notin> set conn2 \<and> (chunk = [] \<longleftrightarrow> conn = [])"
      by (rule recv_nonempty [OF rec 1(2)]) (use False in simp)
    have "conn \<noteq> []" using 1(4,5) False by auto
    then have more: "chunk \<noteq> []" using c by simp
    have "\<exists>conn1. receive_more (data @ chunk) len conn2 = (Some msg, conn1) \<and> concat conn1 = rest \<and>
        [] \<notin> set conn1"
      by (rule 1(1) [OF False rec [symmetric] more])
        (use c 1(4,5) False recv_concat [OF rec] recv_length [OF rec] in auto)
    then show ?thesis using False rec more by (simp add: receive_more.simps [of data])
  qed
qed

lemma receive_exact:
  assumes "concat conn = msg @ rest" "[] \<notin> set conn"
  obtains conn1 where "receive (length msg) conn = (Some msg, conn1)" "concat conn1 = rest" "[] \<notin> set conn1"
  using receive_more_exact [of conn "[]" "length msg" msg rest] assms by (auto simp: receive_def)

lemma to_bytes_length [simp]: "length (to_bytes n) = 4"
  by (simp add: to_bytes_def)

lemma of_to_bytes: "n < 2 ^ 32 \<Longrightarrow> of_bytes (to_bytes n) = n"
proof -
  assume n: "n < 2 ^ 32"
  have m: "256 * (n div 256 ^ Suc k) + n div 256 ^ k mod 256 = n div 256 ^ k" for k :: nat
    by (simp only: power_Suc2 div_mult2_eq) presburger
  have "n div 256 ^ 3 < 256" by (rule less_mult_imp_div_less) (use n in simp)
  then show ?thesis
    using m [of 2] m [of 1] m [of 0] by (simp add: of_bytes_def to_bytes_def)
qed

subsection \<open>The loop of the executor\<close>

lemma receive_shortens: "receive n conn = (r, conn1) \<Longrightarrow> length (concat conn1) \<le> length (concat conn)"
  using receive_more_concat [of "[]" n conn r conn1]
  by (auto simp: receive_def dest: arg_cong [of _ _ length] split: option.splits)

lemma header_shortens: "receive 4 conn = (Some d, conn1) \<Longrightarrow> length (concat conn1) < length (concat conn)"
  using receive_more_concat [of "[]" 4 conn "Some d" conn1]
  by (auto simp: receive_def dest: arg_cong [of _ _ length])

lemma request_shortens:
  assumes "(Some h, conn1) = receive 4 conn" "(m, conn2) = receive n conn1"
  shows "length (concat conn2) < length (concat conn)"
  using header_shortens [OF assms(1) [symmetric]] receive_shortens [OF assms(2) [symmetric]] by simp

text \<open>The answers to one connection, until it ends; a length of nothing is an error like any other.\<close>

definition read_request :: "(string \<Rightarrow> exception + json) \<Rightarrow> string option \<Rightarrow> exception + json" where
  "read_request loads msg = (case msg of None \<Rightarrow> Inl TypeError | Some s \<Rightarrow> loads s)"

function serve_connection :: "(string \<Rightarrow> exception + json) \<Rightarrow> 'v python \<Rightarrow> string list \<Rightarrow> 'v executor \<Rightarrow>
    py_response list \<times> 'v executor" where
  "serve_connection loads py conn st =
     (case receive 4 conn of
        (None, _) \<Rightarrow> ([], st)
      | (Some header, conn1) \<Rightarrow>
          (case receive (of_bytes header) conn1 of
             (msg, conn2) \<Rightarrow>
               (case answer py (read_request loads msg) st of
                  (a, st1) \<Rightarrow>
                    (case serve_connection loads py conn2 st1 of (as, st2) \<Rightarrow> (a # as, st2)))))"
  by pat_completeness auto
termination
  by (relation "measure (\<lambda>(loads, py, conn, st). length (concat conn))")
    (auto intro: request_shortens)

declare serve_connection.simps [simp del]

text \<open>The executor answers every request exactly once and in order, however the bytes of the
  requests are cut up on the way: when the bytes of a connection are those of some messages with their
  lengths, each shorter than four gigabytes, the answers are those to these messages, one after the
  other.\<close>

fun answer_all :: "'v python \<Rightarrow> (exception + json) list \<Rightarrow> 'v executor \<Rightarrow> py_response list \<times> 'v executor" where
  "answer_all py [] st = ([], st)"
| "answer_all py (q # qs) st =
     (case answer py q st of (a, st1) \<Rightarrow> (case answer_all py qs st1 of (as, st2) \<Rightarrow> (a # as, st2)))"

lemma receive_end: "[] \<notin> set conn \<Longrightarrow> concat conn = [] \<Longrightarrow> receive 4 conn = (None, [])"
  by (cases conn) (auto simp: receive_def receive_more.simps [of "[]"])

theorem frames_are_requests:
  assumes "concat conn = concat (map frame msgs)" "[] \<notin> set conn"
    and "list_all (\<lambda>m. length m < 2 ^ 32) msgs"
  shows "serve_connection loads py conn st = answer_all py (map loads msgs) st"
  using assms
proof (induction msgs arbitrary: conn st)
  case Nil
  then show ?case by (simp add: serve_connection.simps [of loads py conn] receive_end)
next
  case (Cons m msgs)
  have "concat conn = to_bytes (length m) @ m @ concat (map frame msgs)"
    using Cons.prems(1) by (simp add: frame_def [of m])
  then obtain conn1 where h: "receive 4 conn = (Some (to_bytes (length m)), conn1)"
    "concat conn1 = m @ concat (map frame msgs)" "[] \<notin> set conn1"
    using receive_exact [of conn "to_bytes (length m)"] Cons.prems(2) by (metis to_bytes_length)
  obtain conn2 where b: "receive (length m) conn1 = (Some m, conn2)"
    "concat conn2 = concat (map frame msgs)" "[] \<notin> set conn2"
    using receive_exact [OF h(2,3)] by blast
  have "of_bytes (to_bytes (length m)) = length m"
    using Cons.prems(3) by (intro of_to_bytes) simp
  moreover have "serve_connection loads py conn2 st1 = answer_all py (map loads msgs) st1" for st1
    using Cons.IH [OF b(2,3)] Cons.prems(3) by simp
  ultimately show ?case
    using h(1) b(1) by (simp add: serve_connection.simps [of loads py conn] read_request_def)
qed

lemma frames_are_requests_witness:
  "serve_connection (\<lambda>m. Inr (JString m)) demo_python
     [frame ''ab'' @ take 2 (frame ''c''), drop 2 (frame ''c'')] demo_executor
   = answer_all demo_python [Inr (JString ''ab''), Inr (JString ''c'')] demo_executor"
  using frames_are_requests [of "[frame ''ab'' @ take 2 (frame ''c''), drop 2 (frame ''c'')]" "[''ab'', ''c'']"
      "\<lambda>m. Inr (JString m)" demo_python demo_executor]
  by (simp add: frame_def to_bytes_def)

subsection \<open>A request of the agent to the executor\<close>

text \<open>
  The agent has at most one connection, to the process it has started last, if that runs. \<open>fresh\<close> is
  a new process, if the image has an executor. An attempt can succeed, not reach the process, or
  break off because the process ends, before or after it has run the request. The number counts how often
  the request is run.
\<close>

record 'v init =
  running :: "'v executor option"
  connected :: bool

datatype fate = Answers | NotReached | EndsBefore | EndsAfter

definition try_executor :: "'v python \<Rightarrow> 'v executor option \<Rightarrow> fate \<Rightarrow> json \<Rightarrow> 'v init \<Rightarrow>
    (exception + py_response) \<times> nat \<times> 'v init" where
  "try_executor py fresh fate payload i =
     (case (if running i = None then fresh else running i) of
        None \<Rightarrow> (Inl (RuntimeError ''image has no executor''), 0, \<lparr>running = None, connected = False\<rparr>)
      | Some st \<Rightarrow>
          (case fate of
             NotReached \<Rightarrow>
               (Inl (Raised ''executor did not become ready''), 0, \<lparr>running = Some st, connected = False\<rparr>)
           | EndsBefore \<Rightarrow>
               (Inl (RuntimeError ''executor closed the connection''), 0, \<lparr>running = None, connected = True\<rparr>)
           | EndsAfter \<Rightarrow>
               (Inl (RuntimeError ''executor closed the connection''), 1, \<lparr>running = None, connected = True\<rparr>)
           | Answers \<Rightarrow>
               (case answer py (Inr payload) st of
                  (a, st1) \<Rightarrow> (Inr a, 1, \<lparr>running = Some st1, connected = True\<rparr>))))"

definition executor_request :: "'v python \<Rightarrow> 'v executor option \<Rightarrow> fate \<Rightarrow> fate \<Rightarrow> json \<Rightarrow> 'v init \<Rightarrow>
    (exception + py_response) \<times> nat \<times> 'v init" where
  "executor_request py fresh fate1 fate2 payload i =
     (case try_executor py fresh fate1 payload i of
        (Inr a, n, i1) \<Rightarrow> (Inr a, n, i1)
      | (Inl e, n, i1) \<Rightarrow>
          (case try_executor py fresh fate2 payload (i1\<lparr>connected := False\<rparr>) of
             (Inr a, m, i2) \<Rightarrow> (Inr a, n + m, i2)
           | (Inl e, m, i2) \<Rightarrow> (Inl e, n + m, i2\<lparr>connected := False\<rparr>)))"

text \<open>
  A request is run at most twice; an answered one exactly once, unless the first attempt broke off after
  it had run.
\<close>

lemma request_runs_at_most_twice:
  assumes "executor_request py fresh fate1 fate2 payload i = (r, n, i1)"
  shows "n \<le> 2 \<and> (fate1 \<noteq> EndsAfter \<longrightarrow> n \<le> 1) \<and> ((\<exists>a. r = Inr a) \<longrightarrow> 1 \<le> n)"
  using assms
  by (auto simp: executor_request_def try_executor_def split: option.splits fate.splits prod.splits sum.splits if_splits)

text \<open>Then it is run again, by a new process, and answered as if nothing had happened.\<close>

lemma interrupted_request_runs_twice:
  assumes "running i = Some st"
  shows "executor_request py (Some fresh) EndsAfter Answers payload i =
    (case answer py (Inr payload) fresh of
       (a, st1) \<Rightarrow> (Inr a, 2, \<lparr>running = Some st1, connected = True\<rparr>))"
  using assms by (simp add: executor_request_def try_executor_def split: prod.split)

text \<open>
  The new process has no functions, but the node still leaves out those it has noted: such a call is
  answered with a \<open>KeyError\<close>, which is an answer of a healthy machine, on every later request.
\<close>

lemma new_executor_lacks_functions:
  assumes "f \<in> live_functions vm" "function_key payload = Some f" "json_get ''hash'' payload = Some h"
    and "json_get ''encoding'' payload = Some (JString ''python-function'')"
    and "running i = Some st" "function_cache fresh = []"
  shows "\<exists>a i1. executor_request py (Some fresh) EndsBefore Answers (function_payload vm payload) i = (Inr a, 1, i1)
    \<and> resp_error a \<noteq> None \<and> (\<exists>st1. running i1 = Some st1 \<and> function_cache st1 = [])"
proof -
  let ?p = "function_payload vm payload"
  have enc: "item ''encoding'' ?p = Inr (JString ''python-function'')"
    using assms(4) by (simp add: item_json_get function_payload_item)
  let ?st = "entered (JObject []) (JObject []) fresh"
  have "execute py ?p ?st = (Inl (KeyError ''function''), ?st)"
    by (rule missing_function_is_never_sent_again [OF assms(1-4)]) (simp add: assms(6) entered_def)
  then have "invoke py JNull ?p ?st = (Inl (KeyError ''function''), None, ?st)"
    by (simp add: invoke_def prepare_working_dir_def truthy_def enter_dir_def then_do_def pure_def)
  moreover have "unwrap ?p = Inr (JObject [], JObject [], JNull, ?p)" using enc by (simp add: unwrap_def)
  ultimately have "\<exists>a st1. answer py (Inr ?p) fresh = (a, st1) \<and> resp_error a \<noteq> None \<and> function_cache st1 = []"
    using enc assms(6)
    by (auto simp: answer_def handle_def run_request_def then_do_pure entered_def Let_def split: sum.split)
  then show ?thesis using assms(5) by (auto simp: executor_request_def try_executor_def)
qed

subsection \<open>The lines of the node\<close>

text \<open>
  \<open>handle\<close> of the agent. \<open>set_clock\<close> and \<open>configure_network\<close> act on the kernel, \<open>service_exit\<close> is the
  exit code of the service of the image, if it has ended, \<open>has_executor\<close> says whether the image has one,
  and \<open>ask\<close> is \<open>executor_request\<close>. The result is the object that is written as one line.
\<close>

record machine =
  set_clock :: "json \<Rightarrow> exception + unit"
  configure_network :: "json \<Rightarrow> exception + unit"
  service_exit :: "int option"
  has_executor :: bool

definition answer_json :: "json \<Rightarrow> json \<Rightarrow> json" where
  "answer_json res err =
     JObject [(''result'', res), (''error'', err), (''timed_out'', JBool False)]"

definition result_json :: "json \<Rightarrow> string \<Rightarrow> string \<Rightarrow> json" where
  "result_json v out err = JObject [(''value'', v), (''stdout'', JString out), (''stderr'', JString err)]"

definition response_json :: "py_response \<Rightarrow> json" where
  "response_json a =
     answer_json (result_json (case resp_value a of None \<Rightarrow> JNull | Some v \<Rightarrow> v) (resp_stdout a) (resp_stderr a))
       (json_optional (resp_error a))"

definition executor_description ::
    "machine \<Rightarrow> (json \<Rightarrow> 's \<Rightarrow> (exception + py_response) \<times> 's) \<Rightarrow> 's \<Rightarrow> (exception + json) \<times> 's" where
  "executor_description m ask =
     (if \<not> has_executor m then pure (Inr JNull)
      else then_do (ask (JObject [(''encoding'', JString ''scraperack-describe'')])) (\<lambda>a.
        pure (if resp_error a \<noteq> None then Inr JNull
              else case resp_value a of None \<Rightarrow> Inl TypeError | Some v \<Rightarrow> item ''data'' v)))"

definition check_preload ::
    "(json \<Rightarrow> 's \<Rightarrow> (exception + py_response) \<times> 's) \<Rightarrow> json \<Rightarrow> 's \<Rightarrow> (exception + unit) \<times> 's" where
  "check_preload ask modules =
     (if \<not> truthy modules then pure (Inr ())
      else then_do (ask (JObject [(''encoding'', JString ''scraperack-preload''), (''modules'', modules)])) (\<lambda>a.
        pure (case resp_error a of None \<Rightarrow> Inr () | Some e \<Rightarrow> Inl (RuntimeError e))))"

definition check_snapshot ::
    "machine \<Rightarrow> (json \<Rightarrow> 's \<Rightarrow> (exception + py_response) \<times> 's) \<Rightarrow> json \<Rightarrow> 's \<Rightarrow> (exception + json) \<times> 's" where
  "check_snapshot m ask payload =
     then_do (pure (case json_get ''unix_time'' payload of None \<Rightarrow> Inr () | Some t \<Rightarrow> set_clock m t)) (\<lambda>_.
     then_do (unless (service_exit m = None \<or> service_exit m = Some 0) (RuntimeError ''service exited'')) (\<lambda>_.
     then_do (then_do (pure (get_item ''preload'' JNull payload)) (check_preload ask)) (\<lambda>_.
     then_do (executor_description m ask) (\<lambda>d.
     pure (Inr (answer_json (result_json
       (JObject [(''encoding'', JString ''json''),
          (''data'', JObject [(''compatible'', JBool True), (''executor'', d)])]) [] []) JNull))))))"

definition handle_line ::
    "(string \<Rightarrow> exception + json) \<Rightarrow> (exception \<Rightarrow> string) \<Rightarrow> machine \<Rightarrow>
     (json \<Rightarrow> 's \<Rightarrow> (exception + py_response) \<times> 's) \<Rightarrow> string \<Rightarrow> 's \<Rightarrow> json \<times> 's" where
  "handle_line loads traceback m ask line st =
     (case then_do (pure (loads line)) (\<lambda>payload.
           then_do (pure (item ''encoding'' payload)) (\<lambda>enc.
             if enc = JString ''scraperack-snapshot'' then check_snapshot m ask payload
             else if enc = JString ''scraperack-network''
             then then_do (pure (configure_network m payload)) (\<lambda>_. pure (Inr (answer_json JNull JNull)))
             else then_do (ask payload) (\<lambda>a. pure (Inr (response_json a))))) st of
        (Inr j, st1) \<Rightarrow> (j, st1)
      | (Inl e, st1) \<Rightarrow>
          (answer_json (JObject [(''stdout'', JString []), (''stderr'', JString [])]) (JString (traceback e)), st1))"

text \<open>
  Every line is answered by an object that says whether there was an error, whatever happens.
\<close>

lemma handle_line_error:
  "json_get ''error'' (fst (handle_line loads traceback m ask line st)) \<noteq> None"
proof -
  have e: "json_get ''error'' (answer_json r e) = Some e" for r e
    by (simp add: answer_json_def hm_get_def)
  have "json_get ''error'' j \<noteq> None"
    if "(case loads line of Inl e \<Rightarrow> pure (Inl e) | Inr payload \<Rightarrow>
           (case item ''encoding'' payload of Inl e \<Rightarrow> pure (Inl e) | Inr enc \<Rightarrow>
             if enc = JString ''scraperack-snapshot'' then check_snapshot m ask payload
             else if enc = JString ''scraperack-network''
             then then_do (pure (configure_network m payload)) (\<lambda>_. pure (Inr (answer_json JNull JNull)))
             else then_do (ask payload) (\<lambda>a. pure (Inr (response_json a))))) st = (Inr j, st1)" for j st1
    using that
    by (auto simp: check_snapshot_def then_do_Inr then_do_unless response_json_def e split: sum.splits if_splits)
  then show ?thesis
    unfolding handle_line_def then_do_pure by (auto simp: e split: prod.split sum.split)
qed

end
