(* ===== verification/Node_Agent.thy ===== *)
theory Node_Agent
  imports Node_Execution
begin

section \<open>The concurrent tasks of a node\<close>

text \<open>
  A node runs each execution in a task of its own, beside the maintenance of idle machines
  (\<open>run\<close>, \<open>run_execution\<close>, \<open>maintain_vms\<close> in \<open>platform/src/node.rs\<close>). The tasks share the machines
  and the network, each behind a lock that is taken for one operation at a time. Here a task is its
  pool and its stage, every stretch under a lock is a step, and steps of different tasks come in any
  order. Two operations that take a lock twice are one step each: a start that fails reserves its lease and
  later releases it, and a machine that is discarded is destroyed, which releases its lease, before its
  share of the node is given back. In between, the lease is still in
  the table: a task that reserves one then finds one more taken than after the step. \<open>leases_are_disjoint\<close>
  is about those steps of the network taken apart. Two things are recorded that the program has
  no variable for: the idle machines that the maintenance has taken out and not yet given back, and the
  leases that no machine holds any more.
\<close>

datatype stage = Starting | Holding live_vm | Executing live_vm | Finishing live_vm

record node_agent =
  ag_vms :: vm_state
  ag_net :: network_state
  ag_tasks :: "(pool \<times> stage) list"
  ag_taken :: "live_vm list"
  ag_lost :: "network_lease list"

fun stage_vms :: "stage \<Rightarrow> live_vm list" where
  "stage_vms Starting = []"
| "stage_vms (Holding vm) = [vm]"
| "stage_vms (Executing vm) = [vm]"
| "stage_vms (Finishing vm) = [vm]"

fun executing_vms :: "stage \<Rightarrow> live_vm list" where
  "executing_vms (Executing vm) = [vm]"
| "executing_vms _ = []"

definition task_vms :: "(pool \<times> stage) list \<Rightarrow> live_vm list" where
  "task_vms ts = concat (map (\<lambda>t. stage_vms (snd t)) ts)"

definition executing :: "(pool \<times> stage) list \<Rightarrow> live_vm list" where
  "executing ts = concat (map (\<lambda>t. executing_vms (snd t)) ts)"

definition machines :: "node_agent \<Rightarrow> live_vm list" where
  "machines a = idle_vms (ag_vms a) @ ag_taken a @ task_vms (ag_tasks a)"

text \<open>What identifies a machine: its identifier and its lease. The rest may be updated.\<close>

definition tag :: "live_vm \<Rightarrow> uuid \<times> network_lease option" where
  "tag vm = (live_id vm, live_network vm)"

definition agent_start :: "u32 \<Rightarrow> u32 \<Rightarrow> node_agent" where
  "agent_start cpu mem =
     \<lparr>ag_vms = \<lparr>idle_vms = [], running_vms = [], active_cpu_millis = 0, active_memory_mib = 0,
        state_cpu_millis = cpu, state_memory_mib = mem\<rparr>,
      ag_net = network_start, ag_tasks = [], ag_taken = [], ag_lost = []\<rparr>"

inductive execution_step :: "(uuid \<Rightarrow> string) \<Rightarrow> node_agent \<Rightarrow> node_agent \<Rightarrow> bool"
  for simple :: "uuid \<Rightarrow> string" where
  begin_new: "vm_acquire p (ag_vms a) = (Inr None, s) \<Longrightarrow>
    execution_step simple a (a\<lparr>ag_vms := s, ag_tasks := (p, Starting) # ag_tasks a\<rparr>)"
| begin_idle: "vm_acquire p (ag_vms a) = (Inr (Some vm), s) \<Longrightarrow>
    execution_step simple a (a\<lparr>ag_vms := s, ag_tasks := (p, Holding vm) # ag_tasks a\<rparr>)"
| started: "ag_tasks a = xs @ (p, Starting) # ys \<Longrightarrow> si_simple si = simple \<Longrightarrow>
    si_id si \<notin> set (map live_id (machines a)) \<Longrightarrow> start_vm si p (ag_net a) = (Inr vm, net) \<Longrightarrow>
    execution_step simple a (a\<lparr>ag_net := net, ag_tasks := xs @ (p, Holding vm) # ys\<rparr>)"
| start_failed: "ag_tasks a = xs @ (p, Starting) # ys \<Longrightarrow> si_simple si = simple \<Longrightarrow>
    start_vm si p (ag_net a) = (Inl e, net) \<Longrightarrow>
    execution_step simple a (a\<lparr>ag_vms := vm_release p None (ag_vms a), ag_net := net, ag_tasks := xs @ ys,
      ag_lost := lost_lease si p (ag_net a) @ ag_lost a\<rparr>)"
| registered: "ag_tasks a = xs @ (p, Holding vm) # ys \<Longrightarrow> work_pool w = p \<Longrightarrow>
    execution_step simple a (a\<lparr>ag_vms := register_running w vm (ag_vms a), ag_tasks := xs @ (p, Executing vm) # ys\<rparr>)"
| given_up: "ag_tasks a = xs @ (p, Holding vm) # ys \<Longrightarrow> discard_vm p vm (ag_vms a, ag_net a) = (s, net) \<Longrightarrow>
    execution_step simple a (a\<lparr>ag_vms := s, ag_net := net, ag_tasks := xs @ ys\<rparr>)"
| finished: "ag_tasks a = xs @ (p, Executing vm) # ys \<Longrightarrow>
    execution_step simple a (a\<lparr>ag_vms := unregister_running (after_run ri w vm) (ag_vms a),
      ag_tasks := xs @ (p, Finishing (after_run ri w vm)) # ys\<rparr>)"
| kept: "ag_tasks a = xs @ (p, Finishing vm) # ys \<Longrightarrow>
    execution_step simple a (a\<lparr>ag_vms := vm_release p (Some (vm\<lparr>live_last_used := now\<rparr>)) (ag_vms a),
      ag_tasks := xs @ ys\<rparr>)"
| discarded: "ag_tasks a = xs @ (p, Finishing vm) # ys \<Longrightarrow> discard_vm p vm (ag_vms a, ag_net a) = (s, net) \<Longrightarrow>
    execution_step simple a (a\<lparr>ag_vms := s, ag_net := net, ag_tasks := xs @ ys\<rparr>)"

text \<open>
  The maintenance: it takes machines out of the idle ones, refreshes or destroys them and gives the others
  back, and it reserves room for a warm machine, whose start is the one above, and keeps it as idle.
\<close>

inductive maintenance_step :: "node_agent \<Rightarrow> node_agent \<Rightarrow> bool" where
  begin_warm: "reserve_warm p (ag_vms a) = (True, s) \<Longrightarrow>
    maintenance_step a (a\<lparr>ag_vms := s, ag_tasks := (p, Starting) # ag_tasks a\<rparr>)"
| warm_ready: "ag_tasks a = xs @ (p, Holding vm) # ys \<Longrightarrow>
    maintenance_step a (a\<lparr>ag_vms := vm_release p (Some vm) (ag_vms a), ag_tasks := xs @ ys\<rparr>)"
| taken_out: "maintenance_step a
    (a\<lparr>ag_vms := (ag_vms a)\<lparr>idle_vms := map (\<lambda>vm. vm\<lparr>live_pool := f vm\<rparr>) (filter P (idle_vms (ag_vms a)))\<rparr>,
       ag_taken := filter (\<lambda>vm. \<not> P vm) (idle_vms (ag_vms a)) @ ag_taken a\<rparr>)"
| destroyed: "ag_taken a = xs @ vm # ys \<Longrightarrow>
    maintenance_step a (a\<lparr>ag_net := destroy_vm vm (ag_net a), ag_taken := xs @ ys\<rparr>)"
| given_back: "ag_taken a = xs @ vm # ys \<Longrightarrow>
    maintenance_step a (a\<lparr>ag_vms := (ag_vms a)\<lparr>idle_vms := idle_vms (ag_vms a) @ [vm\<lparr>live_last_used := now\<rparr>]\<rparr>,
      ag_taken := xs @ ys\<rparr>)"

inductive agent_step :: "(uuid \<Rightarrow> string) \<Rightarrow> node_agent \<Rightarrow> node_agent \<Rightarrow> bool"
  for simple :: "uuid \<Rightarrow> string" where
  executes: "execution_step simple a b \<Longrightarrow> agent_step simple a b"
| maintains: "maintenance_step a b \<Longrightarrow> agent_step simple a b"

subsection \<open>The invariant\<close>

definition tags_ok :: "(uuid \<Rightarrow> string) \<Rightarrow> network_state \<Rightarrow> (uuid \<times> network_lease option) list \<Rightarrow>
    network_lease list \<Rightarrow> bool" where
  "tags_ok simple net ts lost \<longleftrightarrow>
     distinct (map fst ts) \<and> leases_ok simple net (List.map_filter snd ts @ lost)"

definition running_ok :: "node_agent \<Rightarrow> bool" where
  "running_ok a \<longleftrightarrow> keyed vm_id (running_vms (ag_vms a)) \<and>
     (\<forall>i. hm_get (running_vms (ag_vms a)) i \<noteq> None \<longleftrightarrow> i \<in> live_id ` set (executing (ag_tasks a)))"

definition agent_ok :: "(uuid \<Rightarrow> string) \<Rightarrow> node_agent \<Rightarrow> bool" where
  "agent_ok simple a \<longleftrightarrow> tags_ok simple (ag_net a) (map tag (machines a)) (ag_lost a) \<and> running_ok a"

lemma task_vms_simps [simp]:
  "task_vms [] = []" "task_vms ((p, st) # ts) = stage_vms st @ task_vms ts"
  "task_vms (xs @ ys) = task_vms xs @ task_vms ys"
  by (simp_all add: task_vms_def)

lemma executing_simps [simp]:
  "executing [] = []" "executing ((p, st) # ts) = executing_vms st @ executing ts"
  "executing (xs @ ys) = executing xs @ executing ys"
  by (simp_all add: executing_def)

lemma executing_task_vms: "set (executing ts) \<subseteq> set (task_vms ts)"
proof -
  have "set (executing_vms st) \<subseteq> set (stage_vms st)" for st by (cases st) simp_all
  then show ?thesis by (fastforce simp: executing_def task_vms_def)
qed

lemma map_filter_Cons: "List.map_filter f (x # xs) = (case f x of None \<Rightarrow> [] | Some y \<Rightarrow> [y]) @ List.map_filter f xs"
  by (simp add: map_filter_def split: option.split)

lemma tags_ok_perm:
  assumes "mset ts = mset ts'"
  shows "tags_ok simple net ts lost = tags_ok simple net ts' lost"
proof -
  have "mset (List.map_filter snd ts) = mset (List.map_filter snd ts')"
    using assms by (simp only: mset_map_filter)
  then have m: "mset (List.map_filter snd ts @ lost) = mset (List.map_filter snd ts' @ lost)" by simp
  have "mset (map fst ts) = mset (map fst ts')" using assms by simp
  from mset_eq_imp_distinct_iff [OF this] show ?thesis
    unfolding tags_ok_def leases_ok_perm [OF m] by simp
qed

lemma tags_ok_destroy:
  assumes "tags_ok simple net (tag vm # ts) lost"
  shows "tags_ok simple (destroy_vm vm net) ts lost"
proof (cases "live_network vm")
  case None
  then show ?thesis using assms
    by (simp add: tags_ok_def tag_def destroy_vm_def release_optional_def map_filter_Cons)
next
  case (Some l)
  then have "leases_ok simple net (l # (List.map_filter snd ts @ lost))"
    using assms by (simp add: tags_ok_def tag_def map_filter_Cons)
  from leases_ok_release [OF this, of l] show ?thesis
    using assms Some by (simp add: tags_ok_def destroy_vm_def release_optional_def)
qed


text \<open>Steps that only move machines keep the tags.\<close>

lemma tags_moved:
  assumes "tags_ok simple (ag_net a) (map tag (machines a)) (ag_lost a)"
    and "mset (map tag (machines b)) = mset (map tag (machines a))"
    and "ag_net b = ag_net a" "ag_lost b = ag_lost a"
  shows "tags_ok simple (ag_net b) (map tag (machines b)) (ag_lost b)"
  using assms(1) unfolding assms(3,4) tags_ok_perm [OF assms(2)] .

lemma tags_removed:
  assumes "tags_ok simple (ag_net a) (map tag (machines a)) (ag_lost a)"
    and "mset (map tag (machines a)) = add_mset (tag vm) (mset (map tag (machines b)))"
    and "ag_net b = destroy_vm vm (ag_net a)" "ag_lost b = ag_lost a"
  shows "tags_ok simple (ag_net b) (map tag (machines b)) (ag_lost b)"
proof -
  have "mset (map tag (machines a)) = mset (tag vm # map tag (machines b))" using assms(2) by simp
  then have "tags_ok simple (ag_net a) (tag vm # map tag (machines b)) (ag_lost a)"
    using assms(1) tags_ok_perm by blast
  then show ?thesis unfolding assms(3,4) by (rule tags_ok_destroy)
qed

lemma running_kept:
  assumes "running_ok a" "running_vms (ag_vms b) = running_vms (ag_vms a)"
    "live_id ` set (executing (ag_tasks b)) = live_id ` set (executing (ag_tasks a))"
  shows "running_ok b"
  using assms by (simp add: running_ok_def)

lemma tag_simps [simp]:
  "tag (vm\<lparr>live_pool := p\<rparr>) = tag vm" "tag (vm\<lparr>live_last_used := t\<rparr>) = tag vm"
  "tag (after_run ri w vm) = tag vm" "live_id (after_run ri w vm) = live_id vm"
  by (auto simp: tag_def after_run_def Let_def split: option.split)

text \<open>The four ways in which a step changes the machines.\<close>

lemma agent_ok_moved:
  assumes "agent_ok simple a" "ag_net b = ag_net a" "ag_lost b = ag_lost a"
    "mset (map tag (machines b)) = mset (map tag (machines a))"
    "running_vms (ag_vms b) = running_vms (ag_vms a)"
    "live_id ` set (executing (ag_tasks b)) = live_id ` set (executing (ag_tasks a))"
  shows "agent_ok simple b"
  using assms tags_moved [of simple a b] running_kept [of a b] by (simp add: agent_ok_def)

lemma agent_ok_destroyed:
  assumes "agent_ok simple a" "ag_net b = destroy_vm vm (ag_net a)" "ag_lost b = ag_lost a"
    "mset (map tag (machines a)) = add_mset (tag vm) (mset (map tag (machines b)))"
    "running_vms (ag_vms b) = running_vms (ag_vms a)"
    "live_id ` set (executing (ag_tasks b)) = live_id ` set (executing (ag_tasks a))"
  shows "agent_ok simple b"
  using assms tags_removed [of simple a vm b] running_kept [of a b] by (simp add: agent_ok_def)

lemma agent_ok_started:
  assumes ok: "agent_ok simple a" and tasks: "ag_tasks a = xs @ (p, Starting) # ys"
    and si: "si_simple si = simple" "si_id si \<notin> set (map live_id (machines a))"
    and start: "start_vm si p (ag_net a) = (Inr vm, net)"
  shows "agent_ok simple (a\<lparr>ag_net := net, ag_tasks := xs @ (p, Holding vm) # ys\<rparr>)" (is "agent_ok simple ?b")
proof -
  let ?ts = "map tag (machines a)"
  have l: "leases_ok simple (ag_net a) (List.map_filter snd ?ts @ ag_lost a)"
    and d: "distinct (map fst ?ts)" using ok by (simp_all add: agent_ok_def tags_ok_def)
  from start_vm_leases [OF start, of "List.map_filter snd ?ts @ ag_lost a"] l si(1)
  have vm: "vm = new_vm si p (live_network vm)"
    and l': "leases_ok simple net (List.map_filter snd (tag vm # ?ts) @ ag_lost a)"
    by (auto simp: tag_def map_filter_Cons split: option.splits)
  have "live_id vm = si_id si" by (subst vm) (simp add: new_vm_def)
  then have "distinct (map fst (tag vm # ?ts))" using d si(2) by (simp add: tag_def comp_def)
  with l' have "tags_ok simple net (tag vm # ?ts) (ag_lost a)" by (simp add: tags_ok_def)
  moreover have "mset (tag vm # ?ts) = mset (map tag (machines ?b))"
    by (simp add: machines_def tasks)
  ultimately have "tags_ok simple net (map tag (machines ?b)) (ag_lost a)"
    using tags_ok_perm by blast
  moreover have "running_ok ?b" using ok tasks by (simp add: agent_ok_def running_ok_def)
  ultimately show ?thesis by (simp add: agent_ok_def)
qed

lemma agent_ok_start_failed:
  assumes ok: "agent_ok simple a" and tasks: "ag_tasks a = xs @ (p, Starting) # ys"
    and si: "si_simple si = simple" and start: "start_vm si p (ag_net a) = (Inl e, net)"
  shows "agent_ok simple (a\<lparr>ag_vms := vm_release p None (ag_vms a), ag_net := net, ag_tasks := xs @ ys,
      ag_lost := lost_lease si p (ag_net a) @ ag_lost a\<rparr>)" (is "agent_ok simple ?b")
proof -
  let ?ts = "map tag (machines a)"
  have l: "leases_ok simple (ag_net a) (List.map_filter snd ?ts @ ag_lost a)"
    and d: "distinct (map fst ?ts)" using ok by (simp_all add: agent_ok_def tags_ok_def)
  have "leases_ok simple net (lost_lease si p (ag_net a) @ (List.map_filter snd ?ts @ ag_lost a))"
    using start_vm_leases [OF start, of "List.map_filter snd ?ts @ ag_lost a"] l si by simp
  then have "leases_ok simple net (List.map_filter snd ?ts @ lost_lease si p (ag_net a) @ ag_lost a)"
    by (subst leases_ok_perm) (simp_all add: union_lcomm)
  moreover have "map tag (machines ?b) = ?ts" by (simp add: machines_def tasks)
  moreover have "running_ok ?b" using ok tasks by (simp add: agent_ok_def running_ok_def)
  ultimately show ?thesis using d by (simp add: agent_ok_def tags_ok_def)
qed

text \<open>Entering and leaving the table of running machines.\<close>

lemma agent_ok_registered:
  assumes ok: "agent_ok simple a" and tasks: "ag_tasks a = xs @ (p, Holding vm) # ys"
  shows "agent_ok simple (a\<lparr>ag_vms := register_running w vm (ag_vms a), ag_tasks := xs @ (p, Executing vm) # ys\<rparr>)"
    (is "agent_ok simple ?b")
proof -
  have "machines ?b = machines a" by (simp add: machines_def tasks register_running_def)
  moreover have "running_ok ?b"
    using ok by (auto simp: agent_ok_def running_ok_def register_running_def tasks vm_report_def
        intro!: keyed_insert)
  ultimately show ?thesis using ok by (simp add: agent_ok_def)
qed

lemma agent_ok_finished:
  assumes ok: "agent_ok simple a" and tasks: "ag_tasks a = xs @ (p, Executing vm) # ys"
  shows "agent_ok simple (a\<lparr>ag_vms := unregister_running (after_run ri w vm) (ag_vms a),
    ag_tasks := xs @ (p, Finishing (after_run ri w vm)) # ys\<rparr>)" (is "agent_ok simple ?b")
proof -
  have "map tag (machines ?b) = map tag (machines a)" by (simp add: machines_def tasks unregister_running_def)
  moreover have "running_ok ?b"
  proof -
    have "distinct (map live_id (machines a))"
      using ok by (simp add: agent_ok_def tags_ok_def tag_def comp_def)
    then have "live_id vm \<notin> live_id ` set (task_vms xs)" "live_id vm \<notin> live_id ` set (task_vms ys)"
      by (auto simp: machines_def tasks)
    then have "live_id vm \<notin> live_id ` set (executing xs)" "live_id vm \<notin> live_id ` set (executing ys)"
      using executing_task_vms by blast+
    then show ?thesis
      using ok by (auto simp: agent_ok_def running_ok_def unregister_running_def tasks intro!: keyed_remove)
  qed
  ultimately show ?thesis using ok by (simp add: agent_ok_def unregister_running_def)
qed

lemma mset_partition: "mset (map f (filter P xs)) + mset (map f (filter (\<lambda>x. \<not> P x) xs)) = mset (map f xs)"
  by (induction xs) simp_all

lemma execution_step_ok:
  assumes "agent_ok simple a" "execution_step simple a b"
  shows "agent_ok simple b"
  using assms(2)
proof (cases rule: execution_step.cases)
case (begin_new p s)
  then show ?thesis using vm_acquire_moves [OF begin_new(2)]
    by (intro agent_ok_moved [OF assms(1)]) (simp_all add: machines_def)
next
  case (begin_idle p vm s)
  have "mset (map tag (idle_vms (ag_vms a))) = mset (map tag (vm # idle_vms s))"
    using vm_acquire_moves [OF begin_idle(2)] by (metis append_Cons append_Nil mset_map option.simps(5))
  then show ?thesis using begin_idle vm_acquire_moves [OF begin_idle(2)]
    by (intro agent_ok_moved [OF assms(1)]) (simp_all add: machines_def)
next
  case (started xs p ys si vm net)
  then show ?thesis using agent_ok_started [OF assms(1)] by simp
next
  case (start_failed xs p ys si e net)
  then show ?thesis using agent_ok_start_failed [OF assms(1)] by simp
next
  case (registered xs p vm ys w)
  then show ?thesis using agent_ok_registered [OF assms(1)] by simp
next
  case (given_up xs p vm ys s net)
  then show ?thesis
    by (intro agent_ok_destroyed [OF assms(1), where vm = vm]) (auto simp: machines_def discard_vm_def)
next
  case (finished xs p vm ys ri w)
  then show ?thesis using agent_ok_finished [OF assms(1)] by simp
next
  case (kept xs p vm ys now)
  then show ?thesis by (intro agent_ok_moved [OF assms(1)]) (auto simp: machines_def)
next
  case (discarded xs p vm ys s net)
  then show ?thesis
    by (intro agent_ok_destroyed [OF assms(1), where vm = vm]) (auto simp: machines_def discard_vm_def)
qed

lemma maintenance_step_ok:
  assumes "agent_ok simple a" "maintenance_step a b"
  shows "agent_ok simple b"
  using assms(2)
proof (cases rule: maintenance_step.cases)
  case (begin_warm p s)
  then show ?thesis
    by (intro agent_ok_moved [OF assms(1)]) (auto simp: machines_def reserve_warm_def split: if_splits)
next
  case (warm_ready xs p vm ys)
  then show ?thesis by (intro agent_ok_moved [OF assms(1)]) (auto simp: machines_def)
next
  case (taken_out P f)
  have "map tag (map (\<lambda>vm. vm\<lparr>live_pool := f vm\<rparr>) vms) = map tag vms" for vms by simp
  with taken_out show ?thesis
    using mset_partition [of tag P "idle_vms (ag_vms a)"]
    by (intro agent_ok_moved [OF assms(1)]) (simp_all add: machines_def comp_def)
next
  case (destroyed xs vm ys)
  then show ?thesis by (intro agent_ok_destroyed [OF assms(1), where vm = vm]) (auto simp: machines_def)
next
  case (given_back xs vm ys now)
  then show ?thesis by (intro agent_ok_moved [OF assms(1)]) (auto simp: machines_def)
qed

lemma agent_step_ok: "agent_ok simple a \<Longrightarrow> agent_step simple a b \<Longrightarrow> agent_ok simple b"
  by (auto simp: agent_step.simps intro: execution_step_ok maintenance_step_ok)

interpretation agent: invariant_system "\<lambda>a. \<exists>cpu mem. a = agent_start cpu mem" "agent_step simple"
    "agent_ok simple" for simple
proof (unfold_locales, goal_cases)
  case (1 a)
  then show ?case
    by (auto simp: agent_start_def agent_ok_def tags_ok_def running_ok_def machines_def map_filter_def
        leases_ok_def network_start_def cursors_valid_def subnet_valid_def port_valid_def port_range)
qed (rule agent_step_ok)

end
