(* ===== verification/Node_Agent_Properties.thy ===== *)
theory Node_Agent_Properties
  imports Node_Agent Node_Network_Properties
begin

section \<open>Machines keep apart\<close>

text \<open>C14: in every run of a node, with any number of tasks in any order, beside the maintenance, no two
  machines have the same identifier, guest address or published host port, no machine has one of a
  lease that was lost, the table of running machines holds exactly the machines that execute, and a
  report lists no machine twice.\<close>

theorem machines_keep_apart:
  assumes "reachable (\<lambda>a. \<exists>cpu mem. a = agent_start cpu mem) (agent_step simple) a"
  shows "distinct (map live_id (machines a)) \<and>
    distinct (map lease_guest_ip (vm_leases (machines a) @ ag_lost a)) \<and>
    distinct (concat (map lease_keys (vm_leases (machines a) @ ag_lost a))) \<and>
    (\<forall>i. hm_get (running_vms (ag_vms a)) i \<noteq> None \<longleftrightarrow> i \<in> live_id ` set (executing (ag_tasks a))) \<and>
    distinct (map vm_id (reports (ag_vms a)))"
proof -
  have ok: "agent_ok simple a" by (rule agent.reachable_inv [OF assms])
  have "List.map_filter snd (map tag vms) = vm_leases vms" for vms
    by (induction vms) (simp_all add: map_filter_Cons tag_def split: option.split)
  then have leases: "leases_ok simple (ag_net a) (vm_leases (machines a) @ ag_lost a)"
    and ids: "distinct (map live_id (machines a))"
    using ok by (simp_all add: agent_ok_def tags_ok_def tag_def comp_def)
  have keyed: "keyed vm_id (running_vms (ag_vms a))"
    and run: "hm_get (running_vms (ag_vms a)) i \<noteq> None \<longleftrightarrow> i \<in> live_id ` set (executing (ag_tasks a))" for i
    using ok by (simp_all add: agent_ok_def running_ok_def)
  have "vm_id ` set (hm_values (running_vms (ag_vms a))) \<subseteq> live_id ` set (task_vms (ag_tasks a))"
  proof
    fix i
    assume "i \<in> vm_id ` set (hm_values (running_vms (ag_vms a)))"
    then have "hm_get (running_vms (ag_vms a)) i \<noteq> None" using keyed by (auto simp: keyed_values_get)
    then show "i \<in> live_id ` set (task_vms (ag_tasks a))" using run executing_task_vms by blast
  qed
  moreover have "live_id ` set (idle_vms (ag_vms a)) \<inter> live_id ` set (task_vms (ag_tasks a)) = {}"
    "distinct (map live_id (idle_vms (ag_vms a)))"
    using ids by (auto simp: machines_def)
  ultimately have "distinct (map vm_id (map (\<lambda>vm. vm_report vm (live_pool vm) VmIdle None) (idle_vms (ag_vms a))
      @ hm_values (running_vms (ag_vms a))))"
    using keyed_distinct_ids [OF keyed] by (auto simp: vm_report_def comp_def)
  moreover have "mset (map vm_id (sort_key vm_id xs)) = mset (map vm_id xs)" for xs by simp
  ultimately have "distinct (map vm_id (reports (ag_vms a)))"
    unfolding reports_def using mset_eq_imp_distinct_iff by blast
  with ids run leases_ok_addresses [OF leases, THEN conjunct1]
    leases_ok_addresses [OF leases, THEN conjunct2, THEN conjunct1]
  show ?thesis by (intro conjI allI) assumption+
qed

text \<open>A first execution of a pool with network access starts a machine.\<close>

definition networked_pool :: pool where
  "networked_pool =
     \<lparr>pool_name = ''net'', pool_image = 1, pool_warm_instances = 0, pool_max_instances = None,
      pool_cpu_millis = 1000, pool_memory_mib = 256, pool_disk_mib = 0, pool_timeout_secs = 30,
      pool_idle_timeout_secs = 60, pool_reuse = True, pool_network = True, pool_ports = [],
      pool_managed_by = None, pool_environment = None, pool_environment_artifact = None,
      pool_preload = []\<rparr>"

definition answered :: completion where
  "answered = \<lparr>comp_result = None, comp_error = None, comp_timed_out = False, comp_metrics = None,
     comp_keep_idle = False\<rparr>"

definition start_of :: "string option \<Rightarrow> start_inputs" where
  "start_of prepare_error =
     \<lparr>si_id = 5, si_snapshot = None, si_available = (\<lambda>_ _. True), si_run = (\<lambda>_. True),
      si_simple = (\<lambda>_. replicate 32 CHR ''0''), si_network_error = ''network address space exhausted'',
      si_prepare = prepare_error, si_boot = None, si_unix_time = 0, si_guest = (\<lambda>_. Answer answered),
      si_connect = None, si_pid = Some 1, si_now = 0\<rparr>"

definition first_lease :: network_lease where
  "first_lease = make_lease (\<lambda>_. replicate 32 CHR ''0'') 5 0 []"

definition first_net :: network_state where
  "first_net = network_start\<lparr>next_subnet := 1, used_subnets := {0}\<rparr>"

lemma first_lease_for: "lease_for (start_of e) networked_pool network_start = (Inr (Some first_lease), first_net)"
proof -
  have "reserve_lease (\<lambda>_ _. True) [] network_start = (Some (0, []), first_net)"
    by (simp add: reserve_lease_def first_net_def network_start_def find_subnet_first)
  then show ?thesis
    by (simp add: lease_for_def start_of_def networked_pool_def allocate_def Let_def first_lease_def list_all_iff)
qed

definition first_vm :: live_vm where
  "first_vm = new_vm (start_of None) networked_pool (Some first_lease)"

lemma start_of_simps:
  "si_snapshot (start_of e) = None" "si_prepare (start_of e) = e"
  "guarded_start (start_of e) networked_pool l = None"
  by (simp_all add: start_of_def guarded_start_def start_requests_def networked_pool_def answered_def
      split: option.split)

lemma first_start: "start_vm (start_of None) networked_pool network_start = (Inr first_vm, first_net)"
  by (simp add: start_vm_def first_lease_for start_of_simps first_vm_def)

theorem machines_keep_apart_witness:
  "\<exists>a. reachable (\<lambda>a. \<exists>cpu mem. a = agent_start cpu mem) (agent_step (\<lambda>_. replicate 32 CHR ''0'')) a \<and>
    machines a = [first_vm] \<and> distinct (map lease_guest_ip (vm_leases (machines a) @ ag_lost a))"
proof -
  let ?R = "reachable (\<lambda>a. \<exists>cpu mem. a = agent_start cpu mem) (agent_step (\<lambda>_. replicate 32 CHR ''0''))"
  let ?a0 = "agent_start 4000 1024"
  let ?a1 = "?a0\<lparr>ag_vms := add_active networked_pool (ag_vms ?a0), ag_tasks := [(networked_pool, Starting)]\<rparr>"
  let ?a2 = "?a1\<lparr>ag_net := first_net, ag_tasks := [(networked_pool, Holding first_vm)]\<rparr>"
  have r0: "?R ?a0" by (rule reachable_initial) blast
  have "vm_acquire networked_pool (ag_vms ?a0) = (Inr None, add_active networked_pool (ag_vms ?a0))"
    by (simp add: vm_acquire_def too_large_def agent_start_def networked_pool_def add_active_def Let_def)
  from executes [OF execution_step.begin_new [OF this]]
  have r1: "?R ?a1" by (intro reachable_step [OF r0]) (simp add: agent_start_def)
  have "agent_step (\<lambda>_. replicate 32 CHR ''0'') ?a1 (?a1\<lparr>ag_net := first_net, ag_tasks := [] @ (networked_pool, Holding first_vm) # []\<rparr>)"
    by (rule executes, rule execution_step.started [of _ "[]" _ "[]" "start_of None"])
      (simp_all add: machines_def agent_start_def first_start, simp_all add: start_of_def)
  then have r2: "?R ?a2" by (intro reachable_step [OF r1]) simp
  have "machines ?a2 = [first_vm]" by (simp add: machines_def agent_start_def)
  with machines_keep_apart [OF r2] r2 show ?thesis by blast
qed

subsection \<open>A lease that is lost\<close>

text \<open>
  When the directory of the machine, its log file or its process cannot be made, \<open>start_vm\<close> returns
  before the block whose errors release the lease: the subnet stays taken with no machine.
\<close>

lemma failed_start_loses_lease:
  "start_vm (start_of (Some e)) networked_pool network_start = (Inl e, first_net) \<and>
   0 \<in> used_subnets first_net \<and> lost_lease (start_of (Some e)) networked_pool network_start = [first_lease]"
  by (simp add: start_vm_def lost_lease_def first_lease_for start_of_simps first_net_def)

end
