(* ===== verification/Node_Join.thy ===== *)
theory Node_Join
  imports Cluster_Types Text_Lines Decimal
begin

section \<open>Joining a cluster\<close>

text \<open>
  \<open>platform/src/join.rs\<close>: the command that makes a machine a node of a cluster. It checks its
  arguments, reads the present configuration, asks the controller who it is, redeems the token, and
  then rewrites the configuration and restarts the services. What it reads is in \<open>join_inputs\<close>;
  what it does is a list of actions in their order, of which a failure or a crash leaves a beginning.
\<close>

subsection \<open>The configuration file\<close>

definition config_value :: "string \<Rightarrow> string \<Rightarrow> string option" where
  "config_value config key =
     find_map (\<lambda>line. Option.bind (strip_prefix key line) (strip_prefix ''='')) (split_lines config)"

definition CONTROLLER :: string where
  "CONTROLLER = ''SCRAPERACK_CONTROLLER''"

definition CREDENTIAL :: string where
  "CREDENTIAL = ''SCRAPERACK_NODE_CREDENTIAL''"

definition NODE_NAME :: string where
  "NODE_NAME = ''SCRAPERACK_NODE_NAME''"

definition CPU_MILLIS :: string where
  "CPU_MILLIS = ''SCRAPERACK_NODE_CPU_MILLIS''"

definition MEMORY_MIB :: string where
  "MEMORY_MIB = ''SCRAPERACK_NODE_MEMORY_MIB''"

definition CONCURRENCY :: string where
  "CONCURRENCY = ''SCRAPERACK_NODE_VM_START_CONCURRENCY''"

definition config_entries ::
    "string \<Rightarrow> string \<Rightarrow> string \<Rightarrow> string \<Rightarrow> string \<Rightarrow> string \<Rightarrow> (string \<times> string) list" where
  "config_entries controller credential name cpu memory concurrency =
     [(CONTROLLER, controller), (CREDENTIAL, credential), (NODE_NAME, name), (CPU_MILLIS, cpu),
      (MEMORY_MIB, memory), (CONCURRENCY, concurrency)]"

definition config_text :: "(string \<times> string) list \<Rightarrow> string" where
  "config_text entries = join_lines (map (\<lambda>(k, v). k @ ''='' @ v) entries)"

subsection \<open>The command\<close>

datatype file_read = FileText string | FileMissing | FileError

datatype join_action =
    AskIdentity string
  | RedeemToken string string
  | Systemctl "string list"
  | WritePath string string
  | SetMode string nat
  | CreateDirs string

record join_inputs =
  ji_hostname :: "string option"
  ji_config :: "string option"
  ji_identity :: "uuid option"
  ji_controller_id :: file_read
  ji_credentials :: "(uuid \<times> string) option"

definition name_char :: "char \<Rightarrow> bool" where
  "name_char c \<longleftrightarrow>
     (let n = (of_char c :: nat) in
      48 \<le> n \<and> n \<le> 57 \<or> 65 \<le> n \<and> n \<le> 90 \<or> 97 \<le> n \<and> n \<le> 122) \<or> c \<in> set ''.-_''"

definition valid_name :: "string \<Rightarrow> bool" where
  "valid_name name \<longleftrightarrow> name \<noteq> [] \<and> list_all name_char name"

definition trim_slashes :: "string \<Rightarrow> string" where
  "trim_slashes url = rev (dropWhile (\<lambda>c. c = CHR ''/'') (rev url))"

definition default_concurrency_text :: "string \<Rightarrow> string" where
  "default_concurrency_text cpu =
     (case parse_unsigned (2 ^ 32 - 1) cpu of
        Some n \<Rightarrow> decimal (max (n div 2000) 1)
      | None \<Rightarrow> ''1'')"

text \<open>\<open>is_local_controller\<close>; \<open>None\<close> is an error.\<close>

definition is_local_controller :: "(string \<Rightarrow> uuid option) \<Rightarrow> file_read \<Rightarrow> uuid \<Rightarrow> bool option" where
  "is_local_controller parse file target =
     (case file of
        FileText s \<Rightarrow> map_option (\<lambda>i. i = target) (parse (trim s))
      | FileMissing \<Rightarrow> Some False
      | FileError \<Rightarrow> None)"

text \<open>The paths and the arguments of the command line.\<close>

record join_arguments =
  ja_controller :: string
  ja_token :: string
  ja_name :: "string option"
  ja_config_path :: string
  ja_node_id_path :: string
  ja_data_dir :: string

text \<open>The last part: what happens with the answer of the controller.\<close>

definition install_node ::
    "(uuid \<Rightarrow> string) \<Rightarrow> join_arguments \<Rightarrow> string \<Rightarrow> uuid \<Rightarrow> join_action list" where
  "install_node show_id args config node =
     [Systemctl [''stop'', ''scraperack-node''],
      WritePath (ja_config_path args) config,
      SetMode (ja_config_path args) 384,
      WritePath ''/etc/scraperack/role'' ''node'',
      CreateDirs (ja_data_dir args),
      WritePath (ja_node_id_path args) (show_id node),
      Systemctl [''disable'', ''--now'', ''scraperack-controller'', ''scraperack-gui''],
      Systemctl [''enable'', ''--now'', ''scraperack-node'']]"

text \<open>
  The actions, and the error that ends the command. The host name is read even when a name is given,
  since the argument of \<open>unwrap_or\<close> is evaluated first.
\<close>

definition join_run ::
    "(uuid \<Rightarrow> string) \<Rightarrow> (string \<Rightarrow> uuid option) \<Rightarrow> join_inputs \<Rightarrow> join_arguments \<Rightarrow>
     join_action list \<times> string option" where
  "join_run show_id parse ji args =
     (if \<not> starts_with ''http://'' (ja_controller args) \<and> \<not> starts_with ''https://'' (ja_controller args)
      then ([], Some ''controller must be an http or https URL'')
      else case ji_hostname ji of
        None \<Rightarrow> ([], Some ''/etc/hostname'')
      | Some hostname \<Rightarrow>
        let name = (case ja_name args of Some n \<Rightarrow> n | None \<Rightarrow> trim hostname) in
        if \<not> valid_name name
        then ([], Some ''name may contain only letters, numbers, dots, dashes, and underscores'')
        else
        let current = (case ji_config ji of Some t \<Rightarrow> t | None \<Rightarrow> []) in
        (case config_value current CPU_MILLIS of
           None \<Rightarrow> ([], Some ''SCRAPERACK_NODE_CPU_MILLIS is missing from the node configuration'')
         | Some cpu \<Rightarrow>
        (case config_value current MEMORY_MIB of
           None \<Rightarrow> ([], Some ''SCRAPERACK_NODE_MEMORY_MIB is missing from the node configuration'')
         | Some memory \<Rightarrow>
        let concurrency = (case config_value current CONCURRENCY of
              Some n \<Rightarrow> n | None \<Rightarrow> default_concurrency_text cpu);
            controller = trim_slashes (ja_controller args);
            identity = AskIdentity (controller @ ''/internal/identity'')
        in
        (case ji_identity ji of
           None \<Rightarrow> ([identity], Some ''controller identity check failed'')
         | Some target \<Rightarrow>
        (case is_local_controller parse (ji_controller_id ji) target of
           None \<Rightarrow> ([identity], Some ''controller-id'')
         | Some True \<Rightarrow> ([identity], Some ''refusing to join the local controller'')
         | Some False \<Rightarrow>
        let redeem = RedeemToken (controller @ ''/internal/join'') (ja_token args) in
        (case ji_credentials ji of
           None \<Rightarrow> ([identity, redeem], Some ''the controller rejected the join token'')
         | Some (node, credential) \<Rightarrow>
             (identity # redeem # install_node show_id args
                (config_text (config_entries controller credential name cpu memory concurrency)) node,
              None)))))))"

subsection \<open>Reading what was written\<close>

lemma strip_prefix_split: "strip_prefix p s = Some r \<Longrightarrow> p @ r = s"
  unfolding strip_prefix_def by (auto split: if_splits) (metis append_take_drop_id)

lemma strip_key:
  assumes "CHR ''='' \<notin> set k" "CHR ''='' \<notin> set k1"
  shows "Option.bind (strip_prefix k (k1 @ ''='' @ v)) (strip_prefix ''='') = (if k = k1 then Some v else None)"
proof (cases "k = k1")
  case True
  then show ?thesis by (simp add: strip_prefix_def)
next
  case False
  have "strip_prefix k (k1 @ ''='' @ v) \<noteq> Some (CHR ''='' # r)" for r
  proof
    assume "strip_prefix k (k1 @ ''='' @ v) = Some (CHR ''='' # r)"
    then have "k @ CHR ''='' # r = k1 @ CHR ''='' # v"
      by (simp add: strip_prefix_split)
    then have "takeWhile (\<lambda>c. c \<noteq> CHR ''='') (k @ CHR ''='' # r)
        = takeWhile (\<lambda>c. c \<noteq> CHR ''='') (k1 @ CHR ''='' # v)" by simp
    moreover have "takeWhile (\<lambda>c. c \<noteq> CHR ''='') (x @ CHR ''='' # y) = x" if "CHR ''='' \<notin> set x" for x y
      using that by (auto simp: takeWhile_append)
    ultimately show False using False assms by simp
  qed
  moreover have "r = CHR ''='' # t" if "strip_prefix ''='' r = Some t" for r t
    using that by (cases r) (simp_all add: strip_prefix_def starts_with_def split: if_splits)
  ultimately have "strip_prefix ''='' r = None" if "strip_prefix k (k1 @ ''='' @ v) = Some r" for r
    using that by (metis not_Some_eq)
  then have "Option.bind (strip_prefix k (k1 @ ''='' @ v)) (strip_prefix ''='') = None"
    by (cases "strip_prefix k (k1 @ ''='' @ v)") simp_all
  with False show ?thesis by simp
qed

lemma config_roundtrip:
  assumes "\<forall>(k, v) \<in> set entries. CHR ''='' \<notin> set k \<and> plain_line (k @ ''='' @ v)" "entries \<noteq> []"
    and "CHR ''='' \<notin> set key"
  shows "config_value (config_text entries) key = map_of entries key"
proof -
  have "split_lines (config_text entries) = map (\<lambda>(k, v). k @ ''='' @ v) entries"
    unfolding config_text_def
    by (rule split_join) (use assms(1,2) in \<open>auto simp: last_map split: prod.splits\<close>)
  moreover have "find_map (\<lambda>line. Option.bind (strip_prefix key line) (strip_prefix ''=''))
      (map (\<lambda>(k, v). k @ ''='' @ v) es) = map_of es key" if "\<forall>(k, v) \<in> set es. CHR ''='' \<notin> set k" for es
    using that
  proof (induction es)
    case (Cons e es)
    obtain k v where e: "e = (k, v)" by (cases e)
    have "CHR ''='' \<notin> set k" using Cons.prems by (simp add: e)
    from strip_key [OF assms(3) this, of v] Cons show ?case by (simp add: e)
  qed simp
  ultimately show ?thesis using assms(1) by (simp add: config_value_def) blast
qed

lemma split_lines_set:
  "l \<in> set (split_lines s) \<Longrightarrow> set l \<subseteq> set s \<and> LF \<notin> set l"
proof (induction s rule: split_lines.induct)
  case (1 s)
  let ?p = "\<lambda>c. c \<noteq> LF"
  show ?case
  proof (cases "dropWhile ?p s")
    case Nil
    then have "LF \<notin> set s" by (auto simp: dropWhile_eq_Nil_conv)
    with 1(2) show ?thesis by (cases "s = []") (simp_all add: split_lines_last)
  next
    case (Cons c rest)
    have front: "set (strip_cr (takeWhile ?p s)) \<subseteq> set (takeWhile ?p s)"
      by (auto simp: strip_cr_def dest: in_set_butlastD)
    have takes: "set (takeWhile ?p s) \<subseteq> set s" "LF \<notin> set (takeWhile ?p s)"
      by (auto dest: set_takeWhileD)
    have "set rest \<subseteq> set s" using set_dropWhileD [of _ ?p s] Cons by auto
    have ne: "s \<noteq> []" using Cons by auto
    with 1(2) Cons consider "l = strip_cr (takeWhile ?p s)" | "l \<in> set (split_lines rest)"
      by (subst (asm) split_lines.simps) auto
    then show ?thesis
    proof cases
      case 1
      with front takes show ?thesis by auto
    next
      case 2
      with "1.IH" [OF ne Cons] \<open>set rest \<subseteq> set s\<close> show ?thesis by auto
    qed
  qed
qed

lemma find_map_Some: "find_map f xs = Some y \<Longrightarrow> \<exists>x \<in> set xs. f x = Some y"
  by (induction xs) (auto split: option.splits)

text \<open>What is read from a text without carriage returns can be written as a line.\<close>

lemma config_value_plain:
  assumes "config_value t k = Some v" "CR \<notin> set t"
  shows "LF \<notin> set v \<and> CR \<notin> set v"
proof -
  obtain l where l: "l \<in> set (split_lines t)"
    "Option.bind (strip_prefix k l) (strip_prefix ''='') = Some v"
    using find_map_Some [OF assms(1) [unfolded config_value_def]] by blast
  then obtain r where "strip_prefix k l = Some r" "strip_prefix ''='' r = Some v"
    by (cases "strip_prefix k l") auto
  then have "k @ ''='' @ v = l" by (metis strip_prefix_split)
  then have "set v \<subseteq> set l" by auto
  with split_lines_set [OF l(1)] assms(2) show ?thesis by auto
qed

lemma plain_entries:
  assumes "LF \<notin> set v" "v \<noteq> [] \<longrightarrow> last v \<noteq> CR" "k \<in> {CONTROLLER, CREDENTIAL, NODE_NAME, CPU_MILLIS, MEMORY_MIB, CONCURRENCY}"
  shows "CHR ''='' \<notin> set k \<and> plain_line (k @ ''='' @ v)"
  using assms
  by (auto simp: plain_line_def CONTROLLER_def CREDENTIAL_def NODE_NAME_def CPU_MILLIS_def MEMORY_MIB_def
      CONCURRENCY_def LF_def CR_def)

lemma valid_name_plain: "valid_name n \<Longrightarrow> LF \<notin> set n \<and> CR \<notin> set n"
  by (auto simp: valid_name_def list_all_iff name_char_def LF_def CR_def)

lemma decimal_plain: "LF \<notin> set (decimal n) \<and> CR \<notin> set (decimal n)"
  using decimal_digits [of n] by (auto simp: list_all_iff is_digit_def LF_def CR_def)

lemma default_concurrency_plain:
  "LF \<notin> set (default_concurrency_text c) \<and> CR \<notin> set (default_concurrency_text c)"
  using decimal_plain by (auto simp: default_concurrency_text_def LF_def CR_def split: option.splits)

lemma trim_slashes_set: "set (trim_slashes u) \<subseteq> set u"
  by (auto simp: trim_slashes_def dest: set_dropWhileD)

lemma entries_read_back:
  assumes "\<forall>v \<in> {controller, credential, name, cpu, memory, concurrency}.
             LF \<notin> set v \<and> (v \<noteq> [] \<longrightarrow> last v \<noteq> CR)"
  defines "written \<equiv> config_text (config_entries controller credential name cpu memory concurrency)"
  shows "config_value written CONTROLLER = Some controller \<and> config_value written CREDENTIAL = Some credential \<and>
    config_value written NODE_NAME = Some name \<and> config_value written CPU_MILLIS = Some cpu \<and>
    config_value written MEMORY_MIB = Some memory \<and> config_value written CONCURRENCY = Some concurrency"
proof -
  let ?es = "config_entries controller credential name cpu memory concurrency"
  have lines: "\<forall>(k, v) \<in> set ?es. CHR ''='' \<notin> set k \<and> plain_line (k @ ''='' @ v)"
  proof -
    have "CHR ''='' \<notin> set k \<and> plain_line (k @ ''='' @ v)" if "(k, v) \<in> set ?es" for k v
      by (rule plain_entries) (use that assms(1) in \<open>auto simp: config_entries_def\<close>)
    then show ?thesis by blast
  qed
  have "config_value written key = map_of ?es key" if "CHR ''='' \<notin> set key" for key
    unfolding written_def
    by (rule config_roundtrip [OF lines _ that]) (simp add: config_entries_def)
  then show ?thesis
    by (simp add: config_entries_def CONTROLLER_def CREDENTIAL_def NODE_NAME_def CPU_MILLIS_def
        MEMORY_MIB_def CONCURRENCY_def)
qed

text \<open>A command that fails before the token is accepted leaves the machine as it was.\<close>

lemma refusal_changes_nothing:
  "join_run show_id parse ji args = (actions, Some e) \<Longrightarrow>
   \<forall>a \<in> set actions. (\<exists>url. a = AskIdentity url) \<or> (\<exists>url token. a = RedeemToken url token)"
  by (auto simp: join_run_def Let_def split: if_splits option.splits bool.splits)

lemma join_success:
  assumes "join_run show_id parse ji args = (actions, None)"
  obtains hostname cpu memory target node credential where
    "ji_hostname ji = Some hostname"
    "valid_name (case ja_name args of Some n \<Rightarrow> n | None \<Rightarrow> trim hostname)"
    "config_value (case ji_config ji of Some t \<Rightarrow> t | None \<Rightarrow> []) CPU_MILLIS = Some cpu"
    "config_value (case ji_config ji of Some t \<Rightarrow> t | None \<Rightarrow> []) MEMORY_MIB = Some memory"
    "ji_identity ji = Some target"
    "is_local_controller parse (ji_controller_id ji) target = Some False"
    "ji_credentials ji = Some (node, credential)"
    "actions = AskIdentity (trim_slashes (ja_controller args) @ ''/internal/identity'')
       # RedeemToken (trim_slashes (ja_controller args) @ ''/internal/join'') (ja_token args)
       # install_node show_id args
           (config_text (config_entries (trim_slashes (ja_controller args)) credential
              (case ja_name args of Some n \<Rightarrow> n | None \<Rightarrow> trim hostname) cpu memory
              (case config_value (case ji_config ji of Some t \<Rightarrow> t | None \<Rightarrow> []) CONCURRENCY of
                 Some n \<Rightarrow> n | None \<Rightarrow> default_concurrency_text cpu))) node"
proof -
  from assms obtain hostname where h: "ji_hostname ji = Some hostname"
    by (auto simp: join_run_def split: if_splits option.splits)
  let ?name = "case ja_name args of Some n \<Rightarrow> n | None \<Rightarrow> trim hostname"
  let ?current = "case ji_config ji of Some t \<Rightarrow> t | None \<Rightarrow> []"
  from assms have n: "valid_name ?name" and u: "starts_with ''http://'' (ja_controller args) \<or> starts_with ''https://'' (ja_controller args)"
    by (auto simp: join_run_def Let_def h split: if_splits)
  from assms obtain cpu memory where c: "config_value ?current CPU_MILLIS = Some cpu"
    and m: "config_value ?current MEMORY_MIB = Some memory"
    by (cases "config_value ?current CPU_MILLIS"; cases "config_value ?current MEMORY_MIB")
      (simp_all only: join_run_def Let_def h n u option.case if_False if_True not_True_eq_False prod.inject
        de_Morgan_disj [symmetric] option.distinct simp_thms)
  from assms obtain target where t: "ji_identity ji = Some target"
    by (cases "ji_identity ji")
      (simp_all only: join_run_def Let_def h n u c m option.case if_False if_True not_True_eq_False prod.inject
        de_Morgan_disj [symmetric] option.distinct simp_thms)
  from assms have l: "is_local_controller parse (ji_controller_id ji) target = Some False"
    by (cases "is_local_controller parse (ji_controller_id ji) target" rule: option.exhaust [case_names None Some])
      (auto simp only: join_run_def Let_def h n u c m t option.case if_False if_True not_True_eq_False prod.inject
        de_Morgan_disj [symmetric] option.distinct simp_thms split: bool.splits)
  from assms obtain node credential where r: "ji_credentials ji = Some (node, credential)"
    by (cases "ji_credentials ji")
      (auto simp only: join_run_def Let_def h n u c m t l option.case if_False if_True not_True_eq_False prod.inject
        de_Morgan_disj [symmetric] option.distinct simp_thms bool.case)
  show ?thesis
    by (rule that [OF h n c m t l r])
      (use assms in \<open>simp only: join_run_def Let_def h n u c m t l r option.case if_False if_True
        not_True_eq_False prod.inject de_Morgan_disj [symmetric] option.distinct simp_thms bool.case prod.case\<close>)
qed

text \<open>Joining a cluster writes a configuration that reads back what the command decided. If
  the command succeeds, the controller it asked is not the one this machine runs, the name is a
  valid name, and the configuration file it writes, which it then closes to other users, gives, for
  each of the six keys: the address of the controller, the credential the controller issued, the
  name, the processor and memory shares that the previous configuration had, and the previous start
  concurrency or the default for that processor share. The node's identity goes into its own file.
  The previous configuration must have no carriage returns, and the address and the credential no
  line breaks, since the file has one line per key.\<close>

theorem joined_configuration:
  assumes "join_run show_id parse ji args = (actions, None)"
    and "ji_config ji = Some current" "CR \<notin> set current"
    and "LF \<notin> set (ja_controller args)" "CR \<notin> set (ja_controller args)"
    and "\<forall>n c. ji_credentials ji = Some (n, c) \<longrightarrow> LF \<notin> set c \<and> CR \<notin> set c"
  shows "\<exists>written name node credential target cpu.
      ji_identity ji = Some target \<and> is_local_controller parse (ji_controller_id ji) target = Some False \<and>
      ji_credentials ji = Some (node, credential) \<and> valid_name name \<and>
      drop 3 actions =
        [WritePath (ja_config_path args) written, SetMode (ja_config_path args) 384,
         WritePath ''/etc/scraperack/role'' ''node'', CreateDirs (ja_data_dir args),
         WritePath (ja_node_id_path args) (show_id node),
         Systemctl [''disable'', ''--now'', ''scraperack-controller'', ''scraperack-gui''],
         Systemctl [''enable'', ''--now'', ''scraperack-node'']] \<and>
      config_value written CONTROLLER = Some (trim_slashes (ja_controller args)) \<and>
      config_value written CREDENTIAL = Some credential \<and> config_value written NODE_NAME = Some name \<and>
      config_value current CPU_MILLIS = Some cpu \<and> config_value written CPU_MILLIS = Some cpu \<and>
      config_value written MEMORY_MIB = config_value current MEMORY_MIB \<and>
      config_value written CONCURRENCY = Some (case config_value current CONCURRENCY of
          Some n \<Rightarrow> n | None \<Rightarrow> default_concurrency_text cpu)"
proof -
  from join_success [OF assms(1), unfolded assms(2) option.case]
  obtain hostname cpu memory target node credential where s: "ji_hostname ji = Some hostname"
    "valid_name (case ja_name args of Some n \<Rightarrow> n | None \<Rightarrow> trim hostname)"
    "config_value current CPU_MILLIS = Some cpu" "config_value current MEMORY_MIB = Some memory"
    "ji_identity ji = Some target" "is_local_controller parse (ji_controller_id ji) target = Some False"
    "ji_credentials ji = Some (node, credential)"
    "actions = AskIdentity (trim_slashes (ja_controller args) @ ''/internal/identity'')
       # RedeemToken (trim_slashes (ja_controller args) @ ''/internal/join'') (ja_token args)
       # install_node show_id args
           (config_text (config_entries (trim_slashes (ja_controller args)) credential
              (case ja_name args of Some n \<Rightarrow> n | None \<Rightarrow> trim hostname) cpu memory
              (case config_value current CONCURRENCY of
                 Some n \<Rightarrow> n | None \<Rightarrow> default_concurrency_text cpu))) node"
    by blast
  let ?name = "case ja_name args of Some n \<Rightarrow> n | None \<Rightarrow> trim hostname"
  let ?conc = "case config_value current CONCURRENCY of Some n \<Rightarrow> n | None \<Rightarrow> default_concurrency_text cpu"
  have plain: "LF \<notin> set v \<and> CR \<notin> set v"
    if "v \<in> {trim_slashes (ja_controller args), credential, ?name, cpu, memory, ?conc}" for v
  proof -
    have "LF \<notin> set ?conc \<and> CR \<notin> set ?conc"
      using config_value_plain [OF _ assms(3)] default_concurrency_plain by (simp split: option.split)
    with that show ?thesis
      using config_value_plain [OF s(3) assms(3)] config_value_plain [OF s(4) assms(3)]
        valid_name_plain [OF s(2)] trim_slashes_set [of "ja_controller args"] assms(4,5) assms(6) s(7)
      by auto
  qed
  have sound: "\<forall>v \<in> {trim_slashes (ja_controller args), credential, ?name, cpu, memory, ?conc}.
      LF \<notin> set v \<and> (v \<noteq> [] \<longrightarrow> last v \<noteq> CR)"
    using plain last_in_set by metis
  show ?thesis
    by (intro exI conjI) (rule s entries_read_back [OF sound, THEN conjunct1] | simp add: s install_node_def entries_read_back [OF sound])+
qed

theorem joined_configuration_witness:
  "\<exists>written. drop 3 (fst (join_run (\<lambda>i. ''7'') (\<lambda>s. None)
        \<lparr>ji_hostname = Some ''n1'',
         ji_config = Some (''SCRAPERACK_NODE_CPU_MILLIS=4000'' @ [LF] @ ''SCRAPERACK_NODE_MEMORY_MIB=8192'' @ [LF] @
           ''SCRAPERACK_NODE_VM_START_CONCURRENCY=3''),
         ji_identity = Some 5, ji_controller_id = FileMissing, ji_credentials = Some (7, ''c'')\<rparr>
        \<lparr>ja_controller = ''http://c/'', ja_token = ''t'', ja_name = Some ''n1'', ja_config_path = ''/etc/n'',
         ja_node_id_path = ''/d/node-id'', ja_data_dir = ''/d''\<rparr>)) ! 0 = WritePath ''/etc/n'' written \<and>
      config_value written CONTROLLER = Some ''http://c'' \<and> config_value written CREDENTIAL = Some ''c'' \<and>
      config_value written CONCURRENCY = Some ''3''"
proof -
  let ?ji = "\<lparr>ji_hostname = Some ''n1'',
         ji_config = Some (''SCRAPERACK_NODE_CPU_MILLIS=4000'' @ [LF] @ ''SCRAPERACK_NODE_MEMORY_MIB=8192'' @ [LF] @
           ''SCRAPERACK_NODE_VM_START_CONCURRENCY=3''),
         ji_identity = Some 5, ji_controller_id = FileMissing, ji_credentials = Some (7, ''c'')\<rparr>"
  let ?args = "\<lparr>ja_controller = ''http://c/'', ja_token = ''t'', ja_name = Some ''n1'', ja_config_path = ''/etc/n'',
         ja_node_id_path = ''/d/node-id'', ja_data_dir = ''/d''\<rparr>"
  let ?current = "''SCRAPERACK_NODE_CPU_MILLIS=4000'' @ [LF] @ ''SCRAPERACK_NODE_MEMORY_MIB=8192'' @ [LF] @
           ''SCRAPERACK_NODE_VM_START_CONCURRENCY=3''"
  have ok: "join_run (\<lambda>i. ''7'') (\<lambda>s. None) ?ji ?args = (fst (join_run (\<lambda>i. ''7'') (\<lambda>s. None) ?ji ?args), None)"
    by code_simp
  have old: "config_value ?current CONCURRENCY = Some ''3''" "trim_slashes ''http://c/'' = ''http://c''"
    by code_simp+
  show ?thesis
    using joined_configuration [OF ok, of ?current] old
    by (auto simp: LF_def CR_def)
qed

end
