(* ===== verification/Host_Script.thy ===== *)
theory Host_Script
  imports Text_Lines
begin

section \<open>Scripts of host commands\<close>

text \<open>
  What the program asks of its host: commands that run to their end, and files that it writes. A
  script threads the list of the requests made so far, which is what a reader of the host's log would
  see, and ends with an error or a value. A world answers every request, given those before it, with
  an error or with the standard output (for a command), so that it can be any host at all. The
  operator \<open>?\<close> is \<open>and_then\<close>; a result that the program ignores (\<open>let _ = ...\<close>, \<open>.ok()\<close>) is \<open>attempt\<close>; a block whose
  result is looked at after a clean-up is \<open>outcome_of\<close>.
\<close>

datatype host_call =
    Cmd string "string list"
  | CmdInput string "string list" string
  | GetText string
  | PutText string string
  | MakeDir string
  | MakeDirs string
  | MakeSized string nat
  | Move string string
  | Del string
  | DelTree string
  | Stat string
  | Digest string

type_synonym world = "host_call list \<Rightarrow> host_call \<Rightarrow> string + string"

type_synonym ('e, 'a) script = "host_call list \<Rightarrow> ('e + 'a) \<times> host_call list"

definition give :: "'a \<Rightarrow> ('e, 'a) script" where
  "give x tr = (Inr x, tr)"

definition refuse :: "'e \<Rightarrow> ('e, 'a) script" where
  "refuse e tr = (Inl e, tr)"

definition lift_sum :: "'e + 'a \<Rightarrow> ('e, 'a) script" where
  "lift_sum r tr = (r, tr)"

definition perform :: "world \<Rightarrow> host_call \<Rightarrow> (string, string) script" where
  "perform w c tr = (w tr c, tr @ [c])"

definition and_then :: "('e, 'a) script \<Rightarrow> ('a \<Rightarrow> ('e, 'b) script) \<Rightarrow> ('e, 'b) script" where
  "and_then m f tr = (case m tr of (Inl e, tr1) \<Rightarrow> (Inl e, tr1) | (Inr x, tr1) \<Rightarrow> f x tr1)"

definition outcome_of :: "('e, 'a) script \<Rightarrow> ('f, 'e + 'a) script" where
  "outcome_of m tr = (case m tr of (r, tr1) \<Rightarrow> (Inr r, tr1))"

definition attempt :: "('e, 'a) script \<Rightarrow> ('f, unit) script" where
  "attempt m tr = (Inr (), snd (m tr))"

definition relabel :: "('e \<Rightarrow> 'f) \<Rightarrow> ('e, 'a) script \<Rightarrow> ('f, 'a) script" where
  "relabel f m tr = (case m tr of (Inl e, tr1) \<Rightarrow> (Inl (f e), tr1) | (Inr x, tr1) \<Rightarrow> (Inr x, tr1))"

definition required :: "'e \<Rightarrow> 'a option \<Rightarrow> ('e, 'a) script" where
  "required e v = (case v of None \<Rightarrow> refuse e | Some x \<Rightarrow> give x)"

fun each :: "('a \<Rightarrow> ('e, unit) script) \<Rightarrow> 'a list \<Rightarrow> ('e, unit) script" where
  "each f [] = give ()"
| "each f (x # xs) = and_then (f x) (\<lambda>_. each f xs)"

text \<open>A script that succeeded: what each of its parts did.\<close>

named_theorems succeeded

lemma give_succeeded [succeeded]: "give x tr = (Inr y, tr1) \<longleftrightarrow> y = x \<and> tr1 = tr"
  by (auto simp: give_def)

lemma refuse_succeeded [succeeded]: "refuse e tr \<noteq> (Inr y, tr1)"
  by (simp add: refuse_def)

lemma lift_sum_succeeded [succeeded]: "lift_sum r tr = (Inr y, tr1) \<longleftrightarrow> r = Inr y \<and> tr1 = tr"
  by (auto simp: lift_sum_def)

lemma perform_outcome [succeeded]: "perform w c tr = (r, tr1) \<longleftrightarrow> w tr c = r \<and> tr1 = tr @ [c]"
  by (auto simp: perform_def)

lemma and_then_succeeded [succeeded]:
  "and_then m f tr = (Inr y, tr2) \<longleftrightarrow> (\<exists>x tr1. m tr = (Inr x, tr1) \<and> f x tr1 = (Inr y, tr2))"
  by (auto simp: and_then_def split: prod.splits sum.splits)

lemma outcome_of_succeeded [succeeded]: "outcome_of m tr = (Inr r, tr1) \<longleftrightarrow> m tr = (r, tr1)"
  by (auto simp: outcome_of_def split: prod.splits)

lemma attempt_succeeded [succeeded]: "attempt m tr = (Inr u, tr1) \<longleftrightarrow> snd (m tr) = tr1"
  by (auto simp: attempt_def)

lemma relabel_succeeded [succeeded]: "relabel f m tr = (Inr y, tr1) \<longleftrightarrow> m tr = (Inr y, tr1)"
  by (auto simp: relabel_def split: prod.splits sum.splits)

lemma required_succeeded [succeeded]: "required e v tr = (Inr y, tr1) \<longleftrightarrow> v = Some y \<and> tr1 = tr"
  by (auto simp: required_def give_def refuse_def split: option.splits)

lemma perform_trace [simp]: "snd (perform w c tr) = tr @ [c]"
  by (simp add: perform_def)

subsection \<open>Containers\<close>

text \<open>
  In a log, the containers that \<open>docker create\<close> made and that no later \<open>docker rm -f\<close> removes are in
  \<open>P\<close>. A script is tidy when it adds none to them.
\<close>

definition containers_left :: "world \<Rightarrow> string set \<Rightarrow> host_call list \<Rightarrow> bool" where
  "containers_left w P tr \<longleftrightarrow>
     (\<forall>before args later out.
        tr = before @ Cmd ''docker'' (''create'' # args) # later \<longrightarrow>
        w before (Cmd ''docker'' (''create'' # args)) = Inr out \<longrightarrow>
        Cmd ''docker'' [''rm'', ''-f'', trim out] \<in> set later \<or> trim out \<in> P)"

definition tidy :: "world \<Rightarrow> ('e, 'a) script \<Rightarrow> bool" where
  "tidy w m \<longleftrightarrow> (\<forall>P tr. containers_left w P tr \<longrightarrow> containers_left w P (snd (m tr)))"

definition creates :: "host_call \<Rightarrow> bool" where
  "creates c \<longleftrightarrow> (case c of Cmd p args \<Rightarrow> p = ''docker'' \<and> args \<noteq> [] \<and> hd args = ''create'' | _ \<Rightarrow> False)"

lemma snoc_split: "tr @ [c] = before @ x # later \<Longrightarrow>
    (later = [] \<and> x = c \<and> before = tr) \<or> (\<exists>l. later = l @ [c] \<and> tr = before @ x # l)"
  by (cases later rule: rev_cases) auto

lemma containers_left_mono: "containers_left w P tr \<Longrightarrow> P \<subseteq> Q \<Longrightarrow> containers_left w Q tr"
  unfolding containers_left_def by blast

lemma containers_left_snoc:
  "containers_left w P tr \<Longrightarrow> \<not> creates c \<Longrightarrow> containers_left w P (tr @ [c])"
  unfolding containers_left_def
proof (intro allI impI)
  fix before args later out
  assume old: "\<forall>before args later out. tr = before @ Cmd ''docker'' (''create'' # args) # later \<longrightarrow>
      w before (Cmd ''docker'' (''create'' # args)) = Inr out \<longrightarrow>
      Cmd ''docker'' [''rm'', ''-f'', trim out] \<in> set later \<or> trim out \<in> P"
    and c: "\<not> creates c" and now: "tr @ [c] = before @ Cmd ''docker'' (''create'' # args) # later"
    and out: "w before (Cmd ''docker'' (''create'' # args)) = Inr out"
  from snoc_split [OF now] c obtain l where "later = l @ [c]" "tr = before @ Cmd ''docker'' (''create'' # args) # l"
    by (auto simp: creates_def)
  with old out show "Cmd ''docker'' [''rm'', ''-f'', trim out] \<in> set later \<or> trim out \<in> P" by auto
qed

lemma containers_left_create:
  assumes "containers_left w P tr" "w tr (Cmd ''docker'' (''create'' # args)) = r"
  shows "containers_left w (case r of Inl e \<Rightarrow> P | Inr out \<Rightarrow> insert (trim out) P)
    (tr @ [Cmd ''docker'' (''create'' # args)])"
  unfolding containers_left_def
proof (intro allI impI)
  fix before args' later out
  assume now: "tr @ [Cmd ''docker'' (''create'' # args)] = before @ Cmd ''docker'' (''create'' # args') # later"
    and out: "w before (Cmd ''docker'' (''create'' # args')) = Inr out"
  from snoc_split [OF now] consider "later = []" "args' = args" "before = tr"
    | l where "later = l @ [Cmd ''docker'' (''create'' # args)]" "tr = before @ Cmd ''docker'' (''create'' # args') # l"
    by auto
  then show "Cmd ''docker'' [''rm'', ''-f'', trim out] \<in> set later \<or>
      trim out \<in> (case r of Inl e \<Rightarrow> P | Inr out \<Rightarrow> insert (trim out) P)"
  proof cases
    case 1
    with assms(2) out show ?thesis by auto
  next
    case 2
    with assms(1) out show ?thesis by (fastforce simp: containers_left_def split: sum.splits)
  qed
qed

lemma containers_left_remove:
  assumes "containers_left w (insert c P) tr"
  shows "containers_left w P (tr @ [Cmd ''docker'' [''rm'', ''-f'', c]])"
  unfolding containers_left_def
proof (intro allI impI)
  fix before args later out
  assume now: "tr @ [Cmd ''docker'' [''rm'', ''-f'', c]] = before @ Cmd ''docker'' (''create'' # args) # later"
    and out: "w before (Cmd ''docker'' (''create'' # args)) = Inr out"
  from snoc_split [OF now] obtain l where "later = l @ [Cmd ''docker'' [''rm'', ''-f'', c]]"
    "tr = before @ Cmd ''docker'' (''create'' # args) # l" by auto
  with assms out show "Cmd ''docker'' [''rm'', ''-f'', trim out] \<in> set later \<or> trim out \<in> P"
    by (auto simp: containers_left_def)
qed

named_theorems tidies

lemma tidy_give [tidies]: "tidy w (give x)"
  by (simp add: tidy_def give_def)

lemma tidy_refuse [tidies]: "tidy w (refuse e)"
  by (simp add: tidy_def refuse_def)

lemma tidy_lift_sum [tidies]: "tidy w (lift_sum r)"
  by (simp add: tidy_def lift_sum_def)

lemma tidy_required [tidies]: "tidy w (required e v)"
  by (simp add: required_def tidies split: option.split)

lemma tidy_perform [tidies]: "\<not> creates c \<Longrightarrow> tidy w (perform w c)"
  by (simp add: tidy_def perform_def containers_left_snoc)

lemma tidy_and_then [tidies]: "tidy w m \<Longrightarrow> (\<And>x. tidy w (f x)) \<Longrightarrow> tidy w (and_then m f)"
  by (fastforce simp: tidy_def and_then_def split: prod.split sum.split)

lemma tidy_outcome_of [tidies]: "tidy w m \<Longrightarrow> tidy w (outcome_of m)"
  by (fastforce simp: tidy_def outcome_of_def split: prod.split)

lemma tidy_attempt [tidies]: "tidy w m \<Longrightarrow> tidy w (attempt m)"
  by (simp add: tidy_def attempt_def)

lemma tidy_relabel [tidies]: "tidy w m \<Longrightarrow> tidy w (relabel g m)"
  by (fastforce simp: tidy_def relabel_def split: prod.split sum.split)

lemma tidy_if [tidies]: "(b \<Longrightarrow> tidy w m) \<Longrightarrow> (\<not> b \<Longrightarrow> tidy w n) \<Longrightarrow> tidy w (if b then m else n)"
  by simp

lemma tidy_case_option [tidies]:
  "tidy w m \<Longrightarrow> (\<And>x. tidy w (f x)) \<Longrightarrow> tidy w (case v of None \<Rightarrow> m | Some x \<Rightarrow> f x)"
  by (cases v) auto

lemma tidy_let [tidies]: "tidy w (f v) \<Longrightarrow> tidy w (let x = v in f x)"
  by simp

lemma tidy_each [tidies]: "(\<And>x. tidy w (f x)) \<Longrightarrow> tidy w (each f xs)"
  by (induction xs) (auto intro: tidies)

text \<open>A container is created, something is done with it, and it is removed whatever came of that.\<close>

lemma tidy_bracket [tidies]:
  assumes body: "\<And>c. tidy w (body c)" and rest: "\<And>c r. tidy w (rest c r)"
  shows "tidy w (and_then (perform w (Cmd ''docker'' (''create'' # args))) (\<lambda>out.
    and_then (outcome_of (body (trim out))) (\<lambda>r.
    and_then (attempt (perform w (Cmd ''docker'' [''rm'', ''-f'', trim out]))) (\<lambda>_. rest out r))))"
  unfolding tidy_def
proof (intro allI impI)
  fix P tr
  assume tr: "containers_left w P tr"
  let ?create = "Cmd ''docker'' (''create'' # args)"
  show "containers_left w P (snd (and_then (perform w ?create) (\<lambda>out.
    and_then (outcome_of (body (trim out))) (\<lambda>r.
    and_then (attempt (perform w (Cmd ''docker'' [''rm'', ''-f'', trim out]))) (\<lambda>_. rest out r))) tr))"
  proof (cases "w tr ?create")
    case (Inl e)
    with containers_left_create [OF tr Inl] show ?thesis by (simp add: and_then_def perform_def)
  next
    case (Inr out)
    let ?t1 = "tr @ [?create]"
    obtain r t2 where b: "body (trim out) ?t1 = (r, t2)" by (cases "body (trim out) ?t1")
    have "containers_left w (insert (trim out) P) ?t1"
      using containers_left_create [OF tr Inr] by simp
    then have "containers_left w (insert (trim out) P) t2"
      using body [of "trim out"] b unfolding tidy_def by (metis snd_conv)
    then have "containers_left w P (t2 @ [Cmd ''docker'' [''rm'', ''-f'', trim out]])"
      by (rule containers_left_remove)
    then show ?thesis
      using rest [of out r] by (simp add: and_then_def perform_def Inr outcome_of_def attempt_def b tidy_def)
  qed
qed

end
