(* ===== verification/Image_Build.thy ===== *)
theory Image_Build
  imports Host_Script Api_Environments Decimal
begin

section \<open>Building images and environments\<close>

text \<open>
  \<open>build_docker_image\<close>, \<open>pull_docker_image\<close>, \<open>build_environment\<close> and \<open>install\<close> of
  \<open>platform/src/api.rs\<close>, as scripts of host commands, and what \<open>import_image\<close> and
  \<open>prepare_environment_artifact\<close> do around them. The contents of the programs that go into an image
  are in \<open>guest_files\<close>; \<open>parse_inspect\<close>, \<open>show_json\<close> and \<open>int_error\<close> are the JSON reader and
  writer and the text of a failed integer conversion, \<open>bt_length\<close> the length in the metadata that a
  \<open>Stat\<close> brings. Paths are texts; that a path is not valid UTF-8 is not modelled.
\<close>

record build_tools =
  bt_world :: world
  bt_parse_inspect :: "string \<Rightarrow> string + json list"
  bt_show_json :: "json \<Rightarrow> string"
  bt_int_error :: "string \<Rightarrow> string"
  bt_length :: "string \<Rightarrow> u64"
  bt_init :: string
  bt_executor :: string
  bt_runtime :: string

abbreviation run_command :: "build_tools \<Rightarrow> string \<Rightarrow> string list \<Rightarrow> (string, string) script" where
  "run_command bt program args \<equiv> perform (bt_world bt) (Cmd program args)"

subsection \<open>Sizes\<close>

definition div_ceil :: "u64 \<Rightarrow> u64 \<Rightarrow> u64" where
  "div_ceil a b = (if a mod b = 0 then a div b else a div b + 1)"

definition MIB :: u64 where
  "MIB = 1024 * 1024"

definition image_bytes :: "u64 \<Rightarrow> u64" where
  "image_bytes used =
     (let step = 16 * MIB in div_ceil (max (used + used div 5 + 16 * MIB) (64 * MIB)) step * step)"

definition environment_bytes :: "u64 \<Rightarrow> u64" where
  "environment_bytes used =
     (let step = 16 * MIB in div_ceil (max (used + used div 5 + 8 * MIB) (32 * MIB)) step * step)"

text \<open>\<open>split_whitespace().next()\<close>\<close>

fun until_white :: "string \<Rightarrow> string" where
  "until_white [] = []"
| "until_white (c # cs) = (if first_prefix white_space (c # cs) = None then c # until_white cs else [])"

definition first_word :: "string \<Rightarrow> string option" where
  "first_word s = (let t = trim_start s in if t = [] then None else Some (until_white t))"

definition measured :: "build_tools \<Rightarrow> string \<Rightarrow> string \<Rightarrow> (string, u64) script" where
  "measured bt complaint root =
     and_then (run_command bt ''du'' [''-sb'', root]) (\<lambda>out.
     and_then (required complaint (first_word out)) (\<lambda>word.
     (case parse_unsigned (2 ^ 64 - 1) word of
        None \<Rightarrow> refuse (bt_int_error bt word)
      | Some n \<Rightarrow> give (word_of_nat n))))"

subsection \<open>Images\<close>

definition pull_docker_image ::
    "build_tools \<Rightarrow> string \<Rightarrow> string \<Rightarrow> string option \<Rightarrow> string option \<Rightarrow> (string, unit) script" where
  "pull_docker_image bt reference work username password =
     (let authfile = path_join work ''registry-auth.json'';
          archive = path_join work ''docker-image.tar'';
          args = [''copy'', ''--src-tls-verify=false'']
            @ (if username \<noteq> None then [''--src-authfile'', authfile] else [])
            @ [''docker://'' @ reference, ''docker-archive:'' @ archive @ '':'' @ reference]
      in
      and_then
        (case username of
           None \<Rightarrow> give ()
         | Some u \<Rightarrow>
             (case password of
                None \<Rightarrow> give ()
              | Some p \<Rightarrow>
                  and_then (perform (bt_world bt) (CmdInput ''skopeo''
                     [''login'', ''--tls-verify=false'', ''--authfile'', authfile, ''--username'', u,
                      ''--password-stdin'', registry reference] p)) (\<lambda>_. give ()))) (\<lambda>_.
      and_then
        (outcome_of (and_then (run_command bt ''skopeo'' args) (\<lambda>_.
           and_then (run_command bt ''docker'' [''load'', ''--input'', archive]) (\<lambda>_. give ())))) (\<lambda>result.
      and_then (attempt (perform (bt_world bt) (Del authfile))) (\<lambda>_.
      and_then (attempt (perform (bt_world bt) (Del archive))) (\<lambda>_.
      lift_sum result)))))"

definition install :: "build_tools \<Rightarrow> string \<Rightarrow> string \<Rightarrow> string \<Rightarrow> string \<Rightarrow> (string, unit) script" where
  "install bt state source target mode =
     and_then (run_command bt ''fakeroot''
       [''-i'', state, ''-s'', state, ''--'', ''install'', ''-Dm'', mode, source, target]) (\<lambda>_. give ())"

definition json_index :: "string \<Rightarrow> json \<Rightarrow> json" where
  "json_index k v = (case json_get k v of None \<Rightarrow> JNull | Some x \<Rightarrow> x)"

definition array_or_empty :: "json \<Rightarrow> json list" where
  "array_or_empty v = (case v of JArray vs \<Rightarrow> vs | _ \<Rightarrow> [])"

definition service_of :: "json \<Rightarrow> json" where
  "service_of config =
     JObject [(''entrypoint'', JArray (array_or_empty (json_index ''Entrypoint'' config))),
       (''command'', JArray (array_or_empty (json_index ''Cmd'' config))),
       (''env'', JArray (array_or_empty (json_index ''Env'' config))),
       (''working_dir'', JString (case json_get_str ''WorkingDir'' config of Some d \<Rightarrow> d | None \<Rightarrow> ''/''))]"

definition has_service :: "json \<Rightarrow> bool" where
  "has_service config \<longleftrightarrow>
     array_or_empty (json_index ''Entrypoint'' config) \<noteq> [] \<or> array_or_empty (json_index ''Cmd'' config) \<noteq> []"

definition check_platform :: "json list \<Rightarrow> string + json \<times> string" where
  "check_platform views =
     (case views of
        [] \<Rightarrow> Inl ''Docker image was not found''
      | platform # _ \<Rightarrow>
     (case json_get_str ''Id'' platform of
        None \<Rightarrow> Inl ''Docker image has no content ID''
      | Some source \<Rightarrow>
          if json_get_str ''Os'' platform \<noteq> Some ''linux'' \<or> json_get_str ''Architecture'' platform \<noteq> Some ''amd64''
          then Inl ''Docker image must be linux/amd64''
          else Inr (platform, source)))"

text \<open>The file system of the image: everything between the export of the container and its size.\<close>

definition fill_root :: "build_tools \<Rightarrow> string \<Rightarrow> bool \<Rightarrow> json \<Rightarrow> (string, unit) script" where
  "fill_root bt work python config =
     (let archive = path_join work ''rootfs.tar''; root = path_join work ''rootfs'';
          state = path_join work ''fakeroot.state''; agent = path_join work ''scraperack-init'';
          executor = path_join work ''scraperack-python-executor'';
          runtime = path_join work ''scraperack_runtime.py'';
          service = path_join work ''scraperack-service.json'';
          host = perform (bt_world bt)
      in
      and_then (host (MakeDir root)) (\<lambda>_.
      and_then (run_command bt ''fakeroot''
        [''-s'', state, ''--'', ''tar'', ''--numeric-owner'', ''-xf'', archive, ''-C'', root]) (\<lambda>_.
      and_then (host (PutText agent (bt_init bt))) (\<lambda>_.
      and_then (host (PutText executor (bt_executor bt))) (\<lambda>_.
      and_then (install bt state agent (path_join root ''sbin/scraperack-init'') ''0755'') (\<lambda>_.
      and_then
        (if python then
           and_then (host (PutText runtime (bt_runtime bt))) (\<lambda>_.
           and_then (install bt state executor (path_join root ''opt/scraperack/executors/python'') ''0755'') (\<lambda>_.
           install bt state runtime (path_join root ''opt/scraperack/runtime/scraperack_runtime.py'') ''0644''))
         else give ()) (\<lambda>_.
      if has_service config then
        and_then (host (PutText service (bt_show_json bt (service_of config)))) (\<lambda>_.
        install bt state service (path_join root ''etc/scraperack-service.json'') ''0644'')
      else give ())))))))"

definition build_docker_image ::
    "build_tools \<Rightarrow> string \<Rightarrow> string \<Rightarrow> string option \<Rightarrow> string option \<Rightarrow>
     (string, string \<times> string option \<times> string) script" where
  "build_docker_image bt reference work username password =
     (let root = path_join work ''rootfs''; state = path_join work ''fakeroot.state'';
          artifact = path_join work ''image.ext4''
      in
      and_then (pull_docker_image bt reference work username password) (\<lambda>_.
      and_then (run_command bt ''docker'' [''image'', ''inspect'', reference]) (\<lambda>inspected.
      and_then (lift_sum (bt_parse_inspect bt inspected)) (\<lambda>views.
      and_then (lift_sum (check_platform views)) (\<lambda>(platform, source).
      and_then (relabel (\<lambda>_. ''Docker image must contain /usr/bin/python3 for the Scraperack guest agent'')
        (run_command bt ''docker'' [''run'', ''--rm'', ''--entrypoint'', ''/usr/bin/python3'', reference, ''-c'',
           ''import sys; print(sys.version.split()[0])''])) (\<lambda>python.
      and_then (outcome_of
        (run_command bt ''docker'' [''run'', ''--rm'', ''--entrypoint'', ''/usr/bin/python3'', reference, ''-c'',
           ''import cloudpickle''])) (\<lambda>cloudpickle.
      let executor = (case cloudpickle of Inl _ \<Rightarrow> None | Inr _ \<Rightarrow> Some (''Python '' @ trim python)) in
      and_then (run_command bt ''docker'' [''create'', reference]) (\<lambda>created.
      and_then (outcome_of
        (run_command bt ''docker'' [''export'', ''--output'', path_join work ''rootfs.tar'', trim created])) (\<lambda>exported.
      and_then (attempt (run_command bt ''docker'' [''rm'', ''-f'', trim created])) (\<lambda>_.
      and_then (lift_sum exported) (\<lambda>_.
      and_then (fill_root bt work (executor \<noteq> None) (json_index ''Config'' platform)) (\<lambda>_.
      and_then (measured bt ''could not measure Docker filesystem'' root) (\<lambda>used.
      and_then (perform (bt_world bt) (MakeSized artifact (unat (image_bytes used)))) (\<lambda>_.
      and_then (run_command bt ''fakeroot''
        [''-i'', state, ''--'', ''mkfs.ext4'', ''-q'', ''-F'', ''-d'', root, artifact]) (\<lambda>_.
      give (artifact, executor, source))))))))))))))))"

text \<open>
  \<open>import_image\<close> after its checks and before its commit: the build in a directory of its own, the move
  of the result, and the removal of what is no longer needed. An error has a status code.
\<close>

definition on_disk :: "('e, 'a) script \<Rightarrow> (status_code \<times> 'e, 'a) script" where
  "on_disk m = relabel (Pair INTERNAL_SERVER_ERROR) m"

definition import_build ::
    "build_tools \<Rightarrow> string \<Rightarrow> string \<Rightarrow> string \<Rightarrow> string option \<Rightarrow> string option \<Rightarrow> image_kind option \<Rightarrow>
     (status_code \<times> string, string option \<times> string \<times> string \<times> u64) script" where
  "import_build bt work destination reference username password requested =
     (let host = perform (bt_world bt) in
      and_then (on_disk (host (MakeDirs work))) (\<lambda>_.
      and_then (outcome_of (build_docker_image bt reference work
        (non_empty (map_option trim username)) (non_empty password))) (\<lambda>built.
      (case built of
         Inl message \<Rightarrow> and_then (attempt (host (DelTree work))) (\<lambda>_. refuse (BAD_REQUEST, message))
       | Inr (artifact, executor, source) \<Rightarrow>
      and_then (on_disk (host (Move artifact destination))) (\<lambda>_.
      and_then (attempt (host (DelTree work))) (\<lambda>_.
      and_then (on_disk (host (Stat destination))) (\<lambda>metadata.
      if import_kind requested executor = RuntimeImage \<and> executor = None
      then and_then (attempt (host (Del destination))) (\<lambda>_.
           refuse (BAD_REQUEST, ''runtime image must contain cloudpickle''))
      else and_then (on_disk (host (Digest destination))) (\<lambda>sha.
           give (executor, source, sha, bt_length bt metadata)))))))))"

text \<open>
  The whole handler: the checks see one state of the application, the commit another one, since the
  lock is not held while the image is built.
\<close>

definition import_image ::
    "codec \<Rightarrow> (nat \<Rightarrow> bool) \<Rightarrow> build_tools \<Rightarrow> uuid \<Rightarrow> string \<Rightarrow> string \<Rightarrow> string \<Rightarrow> string \<Rightarrow> string option \<Rightarrow>
     string option \<Rightarrow> image_kind option \<Rightarrow> app \<Rightarrow> app \<Rightarrow> host_call list \<Rightarrow> (image response \<times> app) \<times> host_call list" where
  "import_image cd io bt fresh work destination name reference username password requested before a tr =
     (case import_checks name reference username password before of
        Panic \<Rightarrow> ((Panic, a), tr)
      | Fail s m \<Rightarrow> ((Fail s m, a), tr)
      | Reply _ (n, r) \<Rightarrow>
          (case import_build bt work destination r username password requested tr of
             (Inl (s, m), tr1) \<Rightarrow> ((Fail s m, a), tr1)
           | (Inr (executor, source, sha, len), tr1) \<Rightarrow>
               (import_commit cd io fresh n requested executor source sha len a, tr1)))"

subsection \<open>Environments\<close>

definition pip_script :: string where
  "pip_script = ''/usr/bin/python3 -m venv /tmp/environment && /tmp/environment/bin/python -m pip install --no-cache-dir '' @
     [CHR 0x22] @ ''$@'' @ [CHR 0x22]"

definition build_environment ::
    "build_tools \<Rightarrow> string \<Rightarrow> string list \<Rightarrow> string \<Rightarrow> string \<Rightarrow> (string, unit) script" where
  "build_environment bt source packages work destination =
     (let root = path_join work ''root''; artifact = path_join work ''environment.ext4'';
          host = perform (bt_world bt)
      in
      and_then (run_command bt ''docker'' (''create'' #
        ([''--entrypoint'', ''/bin/sh'', source, ''-c'', pip_script, ''--'', ''cloudpickle''] @ packages))) (\<lambda>created.
      and_then (outcome_of (
        and_then (run_command bt ''docker'' [''start'', ''-a'', trim created]) (\<lambda>_.
        and_then (host (MakeDir root)) (\<lambda>_.
        and_then (run_command bt ''docker'' [''cp'', trim created @ '':/tmp/environment/.'', root]) (\<lambda>_.
        and_then (measured bt ''could not measure environment'' root) (\<lambda>used.
        and_then (host (MakeSized artifact (unat (environment_bytes used)))) (\<lambda>_.
        and_then (run_command bt ''mkfs.ext4'' [''-q'', ''-F'', ''-d'', root, artifact]) (\<lambda>_.
        and_then (host (Move artifact destination)) (\<lambda>_. give ()))))))))) (\<lambda>result.
      and_then (attempt (run_command bt ''docker'' [''rm'', ''-f'', trim created])) (\<lambda>_.
      lift_sum result))))"

text \<open>
  The part of \<open>prepare_environment_artifact\<close> that works on the disk; what it ends with is the \<open>built\<close>
  of the handlers. \<open>there\<close>: the artifact exists already.
\<close>

definition build_artifact ::
    "build_tools \<Rightarrow> bool \<Rightarrow> string \<Rightarrow> string list \<Rightarrow> string \<Rightarrow> string \<Rightarrow> (status_code \<times> string, string \<times> u64) script" where
  "build_artifact bt there source packages work destination =
     (let host = perform (bt_world bt) in
      and_then
        (if there then give ()
         else
           and_then (on_disk (host (MakeDirs work))) (\<lambda>_.
           and_then (outcome_of (build_environment bt source packages work destination)) (\<lambda>built.
           (case built of
              Inl message \<Rightarrow> and_then (attempt (host (DelTree work))) (\<lambda>_. refuse (BAD_REQUEST, message))
            | Inr _ \<Rightarrow> and_then (attempt (host (DelTree work))) (\<lambda>_. give ()))))) (\<lambda>_.
      and_then (on_disk (host (Stat destination))) (\<lambda>metadata.
      and_then (on_disk (host (Digest destination))) (\<lambda>sha.
      give (sha, bt_length bt metadata)))))"

subsection \<open>No container is left behind\<close>

lemma not_creates [simp]:
  "\<not> creates (CmdInput p args t)" "\<not> creates (GetText f)" "\<not> creates (PutText f t)" "\<not> creates (MakeDir f)"
  "\<not> creates (MakeDirs f)" "\<not> creates (MakeSized f n)" "\<not> creates (Move f g)" "\<not> creates (Del f)"
  "\<not> creates (DelTree f)" "\<not> creates (Stat f)" "\<not> creates (Digest f)"
  "creates (Cmd p args) \<longleftrightarrow> p = ''docker'' \<and> args \<noteq> [] \<and> hd args = ''create''"
  by (simp_all add: creates_def)

lemma tidy_case_sum [tidies]:
  "(\<And>e. r = Inl e \<Longrightarrow> tidy w (f e)) \<Longrightarrow> (\<And>x. r = Inr x \<Longrightarrow> tidy w (g x)) \<Longrightarrow>
   tidy w (case r of Inl e \<Rightarrow> f e | Inr x \<Rightarrow> g x)"
  by (cases r) auto

lemma tidy_case_prod [tidies]: "(\<And>x y. tidy w (f x y)) \<Longrightarrow> tidy w (case r of (x, y) \<Rightarrow> f x y)"
  by (cases r) auto

lemma tidy_on_disk [tidies]: "tidy w m \<Longrightarrow> tidy w (on_disk m)"
  by (simp add: on_disk_def tidies)

lemma tidy_measured [tidies]: "tidy (bt_world bt) (measured bt c root)"
  unfolding measured_def by (intro tidies) simp_all

lemma tidy_pull [tidies]: "tidy (bt_world bt) (pull_docker_image bt reference work u p)"
  unfolding pull_docker_image_def Let_def by (intro tidies) simp_all

lemma tidy_fill_root [tidies]: "tidy (bt_world bt) (fill_root bt work python config)"
  unfolding fill_root_def install_def Let_def by (intro tidies) simp_all

lemma tidy_build_docker_image [tidies]: "tidy (bt_world bt) (build_docker_image bt reference work u p)"
  unfolding build_docker_image_def Let_def by (intro tidies) simp_all

lemma tidy_build_environment [tidies]: "tidy (bt_world bt) (build_environment bt source ps work dest)"
  unfolding build_environment_def Let_def by (intro tidies) simp_all

end
