(* ===== verification/Image_Properties.thy ===== *)
theory Image_Properties
  imports Image_Build
begin

section \<open>Properties of the builds\<close>

text \<open>
  Nothing a build starts outlives it, whatever the host answers, and a build that succeeds has put
  the guest's programs into the image in the right order. The last two lemmas show what an import
  that fails leaves on the disk.
\<close>

lemma tidy_import_build [tidies]: "tidy (bt_world bt) (import_build bt work dest reference u p k)"
  unfolding import_build_def Let_def by (intro tidies) simp_all

lemma tidy_build_artifact [tidies]: "tidy (bt_world bt) (build_artifact bt there source ps work dest)"
  unfolding build_artifact_def Let_def by (intro tidies) simp_all

lemma tidy_from_nothing: "tidy w m \<Longrightarrow> containers_left w {} (snd (m []))"
proof -
  assume m: "tidy w m"
  have "containers_left w {} []" by (simp add: containers_left_def)
  with m show ?thesis unfolding tidy_def by blast
qed

text \<open>C25: no build leaves a container behind: in the log of every import of an image and of every
  build of an environment, whatever the host answers and wherever the build fails, each container
  that \<open>docker create\<close> made is removed by a later \<open>docker rm -f\<close>.\<close>

theorem builds_remove_containers:
  "containers_left (bt_world bt) {} (snd (import_build bt work dest reference u p k [])) \<and>
   containers_left (bt_world bt) {} (snd (build_artifact bt there source packages work dest []))"
  by (intro conjI tidy_from_nothing tidies)

subsection \<open>A complete image\<close>

text \<open>A sequence of requests each of which the host answers without an error.\<close>

fun answered :: "world \<Rightarrow> host_call list \<Rightarrow> host_call list \<Rightarrow> bool" where
  "answered w tr [] = True"
| "answered w tr (c # cs) = ((case w tr c of Inl _ \<Rightarrow> False | Inr _ \<Rightarrow> True) \<and> answered w (tr @ [c]) cs)"

lemma answered_append: "answered w tr (cs @ ds) \<longleftrightarrow> answered w tr cs \<and> answered w (tr @ cs) ds"
  by (induction cs arbitrary: tr) simp_all

text \<open>The calls that fill the file system of an image.\<close>

definition installed :: "string \<Rightarrow> string \<Rightarrow> string \<Rightarrow> string \<Rightarrow> host_call" where
  "installed work file target mode =
     Cmd ''fakeroot'' [''-i'', path_join work ''fakeroot.state'', ''-s'', path_join work ''fakeroot.state'',
       ''--'', ''install'', ''-Dm'', mode, path_join work file, path_join (path_join work ''rootfs'') target]"

definition fill_calls :: "build_tools \<Rightarrow> string \<Rightarrow> bool \<Rightarrow> json \<Rightarrow> host_call list" where
  "fill_calls bt work python config =
     [MakeDir (path_join work ''rootfs''),
      Cmd ''fakeroot'' [''-s'', path_join work ''fakeroot.state'', ''--'', ''tar'', ''--numeric-owner'', ''-xf'',
        path_join work ''rootfs.tar'', ''-C'', path_join work ''rootfs''],
      PutText (path_join work ''scraperack-init'') (bt_init bt),
      PutText (path_join work ''scraperack-python-executor'') (bt_executor bt),
      installed work ''scraperack-init'' ''sbin/scraperack-init'' ''0755'']
     @ (if python then
          [PutText (path_join work ''scraperack_runtime.py'') (bt_runtime bt),
           installed work ''scraperack-python-executor'' ''opt/scraperack/executors/python'' ''0755'',
           installed work ''scraperack_runtime.py'' ''opt/scraperack/runtime/scraperack_runtime.py'' ''0644'']
        else [])
     @ (if has_service config then
          [PutText (path_join work ''scraperack-service.json'') (bt_show_json bt (service_of config)),
           installed work ''scraperack-service.json'' ''etc/scraperack-service.json'' ''0644'']
        else [])"

lemma install_succeeded [succeeded]:
  "install bt state src target mode tr = (Inr u, t) \<longleftrightarrow>
   (\<exists>out. bt_world bt tr (Cmd ''fakeroot'' [''-i'', state, ''-s'', state, ''--'', ''install'', ''-Dm'', mode, src, target]) = Inr out) \<and>
   t = tr @ [Cmd ''fakeroot'' [''-i'', state, ''-s'', state, ''--'', ''install'', ''-Dm'', mode, src, target]]"
  by (auto simp: install_def succeeded)

lemma fill_root_trace:
  assumes "fill_root bt work python config tr = (Inr u, t)"
  shows "t = tr @ fill_calls bt work python config \<and> answered (bt_world bt) tr (fill_calls bt work python config)"
  using assms unfolding fill_root_def Let_def fill_calls_def installed_def
  by (auto simp: succeeded split: if_splits)

lemma measured_succeeded:
  "measured bt complaint root tr = (Inr n, t) \<longleftrightarrow>
    (\<exists>out word k. bt_world bt tr (Cmd ''du'' [''-sb'', root]) = Inr out \<and> first_word out = Some word \<and>
       parse_unsigned (2 ^ 64 - 1) word = Some k \<and> n = word_of_nat k) \<and> t = tr @ [Cmd ''du'' [''-sb'', root]]"
  unfolding measured_def
  by (simp add: succeeded) (force simp: succeeded split: option.splits)

lemma div_ceil_spec:
  assumes "unat s \<noteq> 0"
  shows "unat (div_ceil a s) = (unat a + unat s - 1) div unat s"
proof -
  let ?a = "unat a" and ?s = "unat s"
  have m: "a mod s = 0 \<longleftrightarrow> ?a mod ?s = 0" by (metis unat_eq_0 unat_mod)
  have le: "?a div ?s \<le> ?a" by simp
  show ?thesis
  proof (cases "?a mod ?s = 0")
    case True
    then obtain k where "?a = k * ?s" by (auto simp: mod_eq_0_iff_dvd dvd_def mult.commute)
    moreover have "(k * ?s + ?s - 1) div ?s = k" using assms by (intro div_nat_eqI) (simp_all add: algebra_simps)
    ultimately show ?thesis using m True assms by (simp add: div_ceil_def unat_div)
  next
    case False
    then have "?s > 1" using assms by (cases "?s = 1") auto
    moreover from False have "0 < ?a" by (cases "?a = 0") auto
    ultimately have "?a div ?s < ?a" by simp
    then have "?a div ?s < 2 ^ 64 - 1" using unsigned_less [of a, where 'a = nat] by simp
    then have "unat (a div s + 1) = ?a div ?s + 1" by (simp add: unat_word_ariths unat_div)
    moreover have "(?a + ?s - 1) div ?s = ?a div ?s + 1"
    proof -
      have "?a + ?s - 1 = (?a div ?s + 1) * ?s + (?a mod ?s - 1)"
      proof -
        have "0 < ?a mod ?s" using False by simp
        with div_mult_mod_eq [of ?a ?s] show ?thesis by (simp only: add_mult_distrib mult_1)
      qed
      moreover have "?a mod ?s - 1 < ?s" using assms mod_less_divisor [of ?s ?a] by linarith
      ultimately show ?thesis
        by (intro div_nat_eqI) (simp_all add: algebra_simps)
    qed
    ultimately show ?thesis using m False by (simp add: div_ceil_def)
  qed
qed

lemma round_up:
  assumes "unat s \<noteq> 0" "unat m + unat s < 2 ^ 64"
  shows "unat s dvd unat (div_ceil m s * s) \<and> unat m \<le> unat (div_ceil m s * s) \<and>
    unat (div_ceil m s * s) < unat m + unat s"
proof -
  let ?m = "unat m" and ?s = "unat s"
  define q where "q = (?m + ?s - 1) div ?s"
  have q: "q * ?s + (?m + ?s - 1) mod ?s = ?m + ?s - 1" by (simp add: q_def)
  have "(?m + ?s - 1) mod ?s < ?s" using assms(1) by simp
  with q assms(1) have bounds: "?m \<le> q * ?s" "q * ?s < ?m + ?s" by linarith+
  have "unat (div_ceil m s * s) = q * ?s"
    using bounds assms(2) by (simp add: unat_word_ariths div_ceil_spec [OF assms(1)] q_def)
  with bounds show ?thesis by simp
qed

text \<open>
  The size of an image file, for contents below 8 EiB: a multiple of 16 MiB, at least 64 MiB, and at
  least a fifth and 16 MiB more than the contents, but never a whole step too large.
\<close>

lemma image_bytes_room:
  assumes "unat used < 2 ^ 63"
  shows "16 * 2 ^ 20 dvd unat (image_bytes used) \<and> 64 * 2 ^ 20 \<le> unat (image_bytes used) \<and>
    unat used + unat used div 5 + 16 * 2 ^ 20 \<le> unat (image_bytes used) \<and>
    unat (image_bytes used) < max (unat used + unat used div 5 + 16 * 2 ^ 20) (64 * 2 ^ 20) + 16 * 2 ^ 20"
proof -
  let ?m = "max (used + used div 5 + 16 * MIB) (64 * MIB)"
  have s: "unat (16 * MIB :: u64) = 16 * 2 ^ 20" by (simp add: MIB_def)
  have "unat (used + used div 5) = unat used + unat used div 5"
    using assms by (simp add: unat_word_ariths unat_div)
  then have "unat (used + used div 5 + 16 * MIB) = unat used + unat used div 5 + 16 * 2 ^ 20"
    using assms s by (simp add: unat_word_ariths)
  moreover have "unat (64 * MIB :: u64) = 64 * 2 ^ 20" by (simp add: MIB_def)
  ultimately have m: "unat ?m = max (unat used + unat used div 5 + 16 * 2 ^ 20) (64 * 2 ^ 20)"
    by (simp add: max_def word_le_nat_alt)
  have "unat ?m + unat (16 * MIB :: u64) < 2 ^ 64" using assms unfolding m s by simp
  from round_up [OF _ this] s show ?thesis by (simp add: image_bytes_def Let_def m)
qed

text \<open>What the host is asked for: to look at the image, to export it, and to seal its file system.\<close>

definition cloudpickle_probe :: "string \<Rightarrow> host_call" where
  "cloudpickle_probe reference =
     Cmd ''docker'' [''run'', ''--rm'', ''--entrypoint'', ''/usr/bin/python3'', reference, ''-c'', ''import cloudpickle'']"

definition version_probe :: "string \<Rightarrow> host_call" where
  "version_probe reference =
     Cmd ''docker'' [''run'', ''--rm'', ''--entrypoint'', ''/usr/bin/python3'', reference, ''-c'',
        ''import sys; print(sys.version.split()[0])'']"

definition inspections :: "string \<Rightarrow> host_call list" where
  "inspections reference = [Cmd ''docker'' [''image'', ''inspect'', reference], version_probe reference]"

definition exports :: "string \<Rightarrow> string \<Rightarrow> string \<Rightarrow> host_call list" where
  "exports work reference c =
     [cloudpickle_probe reference, Cmd ''docker'' [''create'', reference],
      Cmd ''docker'' [''export'', ''--output'', path_join work ''rootfs.tar'', c],
      Cmd ''docker'' [''rm'', ''-f'', c]]"

definition sealing :: "string \<Rightarrow> nat \<Rightarrow> host_call list" where
  "sealing work n =
     [Cmd ''du'' [''-sb'', path_join work ''rootfs''], MakeSized (path_join work ''image.ext4'') n,
      Cmd ''fakeroot'' [''-i'', path_join work ''fakeroot.state'', ''--'', ''mkfs.ext4'', ''-q'', ''-F'', ''-d'',
        path_join work ''rootfs'', path_join work ''image.ext4'']]"

lemma pull_grows:
  assumes "pull_docker_image bt reference work u p tr = (Inr x, t)"
  shows "\<exists>asked. t = tr @ asked"
  using assms unfolding pull_docker_image_def Let_def
  by (auto simp: succeeded attempt_def split: option.splits)

lemma check_platform_Inr:
  "check_platform views = Inr (platform, source) \<Longrightarrow>
   (\<exists>others. views = platform # others) \<and> json_get_str ''Id'' platform = Some source \<and>
   json_get_str ''Os'' platform = Some ''linux'' \<and> json_get_str ''Architecture'' platform = Some ''amd64''"
  by (auto simp: check_platform_def split: list.splits option.splits if_splits)

text \<open>What \<open>du\<close> measured: the number that its output begins with.\<close>

definition measures :: "build_tools \<Rightarrow> host_call list \<Rightarrow> string \<Rightarrow> nat \<Rightarrow> bool" where
  "measures bt tr root used \<longleftrightarrow>
     (\<exists>out word. bt_world bt tr (Cmd ''du'' [''-sb'', root]) = Inr out \<and> first_word out = Some word \<and>
       parse_unsigned (2 ^ 64 - 1) word = Some used)"

definition fits_in :: "nat \<Rightarrow> nat \<Rightarrow> bool" where
  "fits_in used n \<longleftrightarrow> 16 * 2 ^ 20 dvd n \<and> 64 * 2 ^ 20 \<le> n \<and> used + used div 5 + 16 * 2 ^ 20 \<le> n \<and>
     n < max (used + used div 5 + 16 * 2 ^ 20) (64 * 2 ^ 20) + 16 * 2 ^ 20"

lemma image_fits: "used < 2 ^ 63 \<Longrightarrow> fits_in used (unat (image_bytes (word_of_nat used)))"
  using image_bytes_room [of "word_of_nat used"] by (simp add: fits_in_def unat_of_nat)

lemma build_succeeded:
  assumes "build_docker_image bt reference work u p tr = (Inr (artifact, executor, source), t)"
  shows "\<exists>x t1 inspected platform views python created t2 used.
    pull_docker_image bt reference work u p tr = (Inr x, t1) \<and>
    bt_world bt t1 (Cmd ''docker'' [''image'', ''inspect'', reference]) = Inr inspected \<and>
    bt_parse_inspect bt inspected = Inr views \<and> check_platform views = Inr (platform, source) \<and>
    bt_world bt (t1 @ [Cmd ''docker'' [''image'', ''inspect'', reference]]) (version_probe reference) = Inr python \<and>
    executor = (case bt_world bt (t1 @ inspections reference) (cloudpickle_probe reference) of
      Inl _ \<Rightarrow> None | Inr _ \<Rightarrow> Some (''Python '' @ trim python)) \<and>
    bt_world bt (t1 @ inspections reference @ [cloudpickle_probe reference]) (Cmd ''docker'' [''create'', reference])
      = Inr created \<and>
    answered (bt_world bt) (t1 @ inspections reference @ [cloudpickle_probe reference, Cmd ''docker'' [''create'', reference]])
      [Cmd ''docker'' [''export'', ''--output'', path_join work ''rootfs.tar'', trim created]] \<and>
    fill_root bt work (executor \<noteq> None) (json_index ''Config'' platform)
      (t1 @ inspections reference @ exports work reference (trim created)) = (Inr (), t2) \<and>
    measures bt t2 (path_join work ''rootfs'') used \<and>
    answered (bt_world bt) t2 (sealing work (unat (image_bytes (word_of_nat used)))) \<and>
    artifact = path_join work ''image.ext4'' \<and> t = t2 @ sealing work (unat (image_bytes (word_of_nat used)))"
  using assms unfolding build_docker_image_def Let_def
  by (clarsimp simp: succeeded measured_succeeded version_probe_def cloudpickle_probe_def inspections_def exports_def
        sealing_def measures_def simp del: not_None_eq split: prod.splits)

text \<open>C26: an image that was built is complete. When a build succeeds, the Docker image, as the host's
  answer to \<open>docker image inspect\<close> has it, is one for Linux on amd64 and its identifier is the one that
  is recorded; the image is said to have Python, with the version that Python itself answered, exactly
  when cloudpickle could be loaded in it; the container that \<open>docker create\<close> answered was exported and
  removed, and all remaining requests were answered without an error: they fill the file system (the
  guest's start-up program always, the Python programs exactly when the image has Python, the service
  exactly when the Docker image has a command), then measure it, make a file, and only then write the file
  system into it. For contents below 8 EiB the file has a size that is a multiple of 16 MiB, at least 64 MiB,
  and at least a fifth and 16 MiB more than what \<open>du\<close> measured, but not a whole step more than that.\<close>

theorem built_image_is_complete:
  assumes "build_docker_image bt reference work u p tr = (Inr (artifact, executor, source), t)"
  shows "\<exists>asked inspected platform others python created filled used.
    bt_world bt (tr @ asked) (Cmd ''docker'' [''image'', ''inspect'', reference]) = Inr inspected \<and>
    bt_parse_inspect bt inspected = Inr (platform # others) \<and> json_get_str ''Id'' platform = Some source \<and>
    json_get_str ''Os'' platform = Some ''linux'' \<and> json_get_str ''Architecture'' platform = Some ''amd64'' \<and>
    bt_world bt (tr @ asked @ [Cmd ''docker'' [''image'', ''inspect'', reference]]) (version_probe reference) = Inr python \<and>
    executor = (case bt_world bt (tr @ asked @ inspections reference) (cloudpickle_probe reference) of
      Inl _ \<Rightarrow> None | Inr _ \<Rightarrow> Some (''Python '' @ trim python)) \<and>
    bt_world bt (tr @ asked @ inspections reference @ [cloudpickle_probe reference])
      (Cmd ''docker'' [''create'', reference]) = Inr created \<and>
    answered (bt_world bt)
      (tr @ asked @ inspections reference @ [cloudpickle_probe reference, Cmd ''docker'' [''create'', reference]])
      [Cmd ''docker'' [''export'', ''--output'', path_join work ''rootfs.tar'', trim created]] \<and>
    filled = tr @ asked @ inspections reference @ exports work reference (trim created) \<and>
    measures bt (filled @ fill_calls bt work (executor \<noteq> None) (json_index ''Config'' platform))
      (path_join work ''rootfs'') used \<and>
    (used < 2 ^ 63 \<longrightarrow> fits_in used (unat (image_bytes (word_of_nat used)))) \<and>
    answered (bt_world bt) filled (fill_calls bt work (executor \<noteq> None) (json_index ''Config'' platform)
      @ sealing work (unat (image_bytes (word_of_nat used)))) \<and>
    artifact = path_join work ''image.ext4'' \<and>
    t = filled @ fill_calls bt work (executor \<noteq> None) (json_index ''Config'' platform)
      @ sealing work (unat (image_bytes (word_of_nat used)))"
proof -
  obtain x t1 inspected platform views python created t2 used where run:
    "pull_docker_image bt reference work u p tr = (Inr x, t1)"
    "bt_world bt t1 (Cmd ''docker'' [''image'', ''inspect'', reference]) = Inr inspected"
    "bt_parse_inspect bt inspected = Inr views" "check_platform views = Inr (platform, source)"
    "bt_world bt (t1 @ [Cmd ''docker'' [''image'', ''inspect'', reference]]) (version_probe reference) = Inr python"
    "executor = (case bt_world bt (t1 @ inspections reference) (cloudpickle_probe reference) of
      Inl _ \<Rightarrow> None | Inr _ \<Rightarrow> Some (''Python '' @ trim python))"
    "bt_world bt (t1 @ inspections reference @ [cloudpickle_probe reference]) (Cmd ''docker'' [''create'', reference])
      = Inr created"
    "answered (bt_world bt) (t1 @ inspections reference @ [cloudpickle_probe reference, Cmd ''docker'' [''create'', reference]])
      [Cmd ''docker'' [''export'', ''--output'', path_join work ''rootfs.tar'', trim created]]"
    "fill_root bt work (executor \<noteq> None) (json_index ''Config'' platform)
      (t1 @ inspections reference @ exports work reference (trim created)) = (Inr (), t2)"
    "measures bt t2 (path_join work ''rootfs'') used"
    "answered (bt_world bt) t2 (sealing work (unat (image_bytes (word_of_nat used))))"
    "artifact = path_join work ''image.ext4''" "t = t2 @ sealing work (unat (image_bytes (word_of_nat used)))"
    using build_succeeded [OF assms] by (elim exE conjE) (rule that)
  obtain asked where asked: "t1 = tr @ asked" using pull_grows [OF run(1)] by blast
  obtain others where others: "views = platform # others" "json_get_str ''Id'' platform = Some source"
    "json_get_str ''Os'' platform = Some ''linux''" "json_get_str ''Architecture'' platform = Some ''amd64''"
    using check_platform_Inr [OF run(4)] by blast
  note filled = fill_root_trace [OF run(9)]
  show ?thesis
    by (rule exI [of _ asked], rule exI [of _ inspected], rule exI [of _ platform], rule exI [of _ others],
        rule exI [of _ python], rule exI [of _ created], rule exI, rule exI [of _ used], intro conjI)
      (use run(2,3,5-8,10-13) others asked filled image_fits [of used] in
        \<open>simp_all add: answered_append del: answered.simps\<close>)
qed

lemma zero_word: "first_word ''0'' = Some ''0''"
proof -
  have "list_all (\<lambda>w. w \<noteq> [] \<longrightarrow> hd w \<noteq> CHR ''0'') white_space"
    by (simp add: white_space_def bytes_string_def char_of_eq_iff)
  moreover have "first_prefix white_space ''0'' = None" by code_simp
  ultimately show ?thesis
    by (simp add: first_word_def trim_start_def trim_prefixes.simps [of white_space] first_prefix_none)
qed

lemma zero_number: "parse_unsigned (2 ^ 64 - 1) ''0'' = Some 0"
  by (simp add: parse_unsigned_def parse_digits_def is_digit_def digit_value_def)

text \<open>A host that answers everything with a zero.\<close>

definition demo_tools :: build_tools where
  "demo_tools =
     \<lparr>bt_world = (\<lambda>tr c. Inr ''0''),
      bt_parse_inspect = (\<lambda>t. Inr [JObject [(''Id'', JString ''sha''), (''Os'', JString ''linux''),
        (''Architecture'', JString ''amd64'')]]),
      bt_show_json = (\<lambda>v. []), bt_int_error = (\<lambda>t. t), bt_length = (\<lambda>t. 0), bt_init = ''a'',
      bt_executor = ''b'', bt_runtime = ''c''\<rparr>"

lemma demo_measured: "measured demo_tools complaint root tr = (Inr 0, tr @ [Cmd ''du'' [''-sb'', root]])"
  using zero_word zero_number by (simp add: measured_def demo_tools_def and_then_def perform_def required_def give_def)

lemma demo_installs: "install demo_tools st src target mode tr =
    (Inr (), tr @ [Cmd ''fakeroot'' [''-i'', st, ''-s'', st, ''--'', ''install'', ''-Dm'', mode, src, target]])"
  by (simp add: install_def demo_tools_def and_then_def perform_def give_def)

lemma demo_builds: "\<exists>t. build_docker_image demo_tools ''i'' ''/w'' None None []
    = (Inr (path_join ''/w'' ''image.ext4'', Some (''Python '' @ trim ''0''), ''sha''), t)"
proof -
  have host: "bt_world demo_tools tr c = Inr ''0''" for tr c by (simp add: demo_tools_def)
  have platform: "bt_parse_inspect demo_tools x = Inr [JObject [(''Id'', JString ''sha''), (''Os'', JString ''linux''),
        (''Architecture'', JString ''amd64'')]]" for x by (simp add: demo_tools_def)
  show ?thesis
    by (simp add: build_docker_image_def pull_docker_image_def fill_root_def Let_def and_then_def perform_def host
        platform check_platform_def json_get_str_def outcome_of_def attempt_def relabel_def lift_sum_def give_def
        demo_installs demo_measured has_service_def json_index_def array_or_empty_def hm_get_def)
qed

theorem built_image_is_complete_witness:
  "\<exists>asked. snd (build_docker_image demo_tools ''i'' ''/w'' None None []) =
     asked @ inspections ''i'' @ exports ''/w'' ''i'' (trim ''0'') @ fill_calls demo_tools ''/w'' True JNull
       @ sealing ''/w'' (unat (image_bytes 0)) \<and>
   fits_in 0 (unat (image_bytes 0))"
proof -
  obtain t where t: "build_docker_image demo_tools ''i'' ''/w'' None None []
      = (Inr (path_join ''/w'' ''image.ext4'', Some (''Python '' @ trim ''0''), ''sha''), t)"
    using demo_builds by blast
  have host: "bt_world demo_tools tr c = Inr ''0''" for tr c by (simp add: demo_tools_def)
  from built_image_is_complete [OF t] obtain asked inspected platform others created used where
    b: "bt_parse_inspect demo_tools inspected = Inr (platform # others)" "created = ''0''"
    "measures demo_tools (asked @ inspections ''i'' @ exports ''/w'' ''i'' (trim created)
        @ fill_calls demo_tools ''/w'' True (json_index ''Config'' platform)) (path_join ''/w'' ''rootfs'') used"
    "used < 2 ^ 63 \<longrightarrow> fits_in used (unat (image_bytes (word_of_nat used)))"
    "t = asked @ inspections ''i'' @ exports ''/w'' ''i'' (trim created)
        @ fill_calls demo_tools ''/w'' True (json_index ''Config'' platform)
        @ sealing ''/w'' (unat (image_bytes (word_of_nat used)))"
    by (auto simp: host)
  have "json_index ''Config'' platform = JNull" using b(1) by (auto simp: demo_tools_def json_index_def hm_get_def)
  moreover have "used = 0" using b(3) zero_word zero_number by (simp add: measures_def host)
  ultimately show ?thesis using t b(2,4,5) by auto
qed

subsection \<open>Imports that fail\<close>

text \<open>
  A failed build removes its directory. A build that succeeds and whose result cannot be moved leaves
  it behind, and a result whose digest cannot be computed stays among the images without an entry.
\<close>

lemma failed_build_is_cleaned:
  assumes "build_docker_image bt reference work (non_empty (map_option trim u)) (non_empty p) (tr @ [MakeDirs work])
      = (Inl e, t)" "bt_world bt tr (MakeDirs work) = Inr out"
  shows "import_build bt work dest reference u p k tr = (Inl (BAD_REQUEST, e), t @ [DelTree work])"
  using assms by (simp add: import_build_def Let_def and_then_def on_disk_def relabel_def perform_def outcome_of_def
      attempt_def refuse_def)

lemma failed_move_leaves_directory:
  assumes "build_docker_image bt reference work (non_empty (map_option trim u)) (non_empty p) (tr @ [MakeDirs work])
      = (Inr (artifact, executor, source), t)" "bt_world bt tr (MakeDirs work) = Inr out"
    and "bt_world bt t (Move artifact dest) = Inl e"
  shows "import_build bt work dest reference u p k tr = (Inl (INTERNAL_SERVER_ERROR, e), t @ [Move artifact dest])"
  using assms by (simp add: import_build_def Let_def and_then_def on_disk_def relabel_def perform_def outcome_of_def)

end
