(* ===== verification/Node_Host.thy ===== *)
theory Node_Host
  imports Node_Network Text_Lines
begin

section \<open>The host of a node\<close>

text \<open>
  What \<open>platform/src/node.rs\<close> finds on its host and sets up there: \<open>Network::prepare\<close> with
  \<open>ensure_rule\<close>, the paths of the control groups (\<open>current_cgroup\<close>, \<open>cgroup_root\<close>, \<open>vm_cgroup\<close>,
  \<open>prepare_cgroups\<close>), and \<open>wait_for_path\<close>. \<open>iptables\<close> is a parameter: a call with its arguments
  answers \<open>None\<close> when it cannot be run, and whether it succeeded otherwise; \<open>iptables_laws\<close> states
  what its documentation says of the four commands that are used.
\<close>

subsection \<open>Old devices\<close>

text \<open>\<open>split_once\<close>, and \<open>split(sep).nth(1)\<close>\<close>

fun cut :: "string \<Rightarrow> string \<Rightarrow> (string \<times> string) option" where
  "cut sep s =
     (if starts_with sep s then Some ([], drop (length sep) s)
      else case s of [] \<Rightarrow> None | c # cs \<Rightarrow> map_option (\<lambda>(a, b). (c # a, b)) (cut sep cs))"

declare cut.simps [simp del]

definition second_part :: "string \<Rightarrow> string \<Rightarrow> string option" where
  "second_part sep s =
     (case cut sep s of
        None \<Rightarrow> None
      | Some (_, rest) \<Rightarrow> Some (case cut sep rest of None \<Rightarrow> rest | Some (part, _) \<Rightarrow> part))"

definition link_name :: "string \<Rightarrow> string option" where
  "link_name line = map_option (first_part CHR ''@'') (second_part '': '' line)"

definition old_links :: "string \<Rightarrow> string list" where
  "old_links listing = filter (starts_with ''srk'') (List.map_filter link_name (split_lines listing))"

subsection \<open>Firewall rules\<close>

definition ensure_rule ::
    "(string list \<Rightarrow> 'f \<Rightarrow> bool option \<times> 'f) \<Rightarrow> string \<times> string \<times> string list \<Rightarrow> 'f \<Rightarrow> bool \<times> 'f" where
  "ensure_rule ipt = (\<lambda>(table, chain, rule) fw.
     (case ipt ([''-t'', table, ''-C'', chain] @ rule) fw of
        (None, fw1) \<Rightarrow> (False, fw1)
      | (Some True, fw1) \<Rightarrow> (True, fw1)
      | (Some False, fw1) \<Rightarrow>
          (case ipt ([''-t'', table, ''-A'', chain] @ rule) fw1 of (b, fw2) \<Rightarrow> (b = Some True, fw2))))"

fun ensure_rules ::
    "(string list \<Rightarrow> 'f \<Rightarrow> bool option \<times> 'f) \<Rightarrow> (string \<times> string \<times> string list) list \<Rightarrow> 'f \<Rightarrow> bool \<times> 'f" where
  "ensure_rules ipt [] fw = (True, fw)"
| "ensure_rules ipt (r # rs) fw =
     (case ensure_rule ipt r fw of (False, fw1) \<Rightarrow> (False, fw1) | (True, fw1) \<Rightarrow> ensure_rules ipt rs fw1)"

definition NETWORK :: string where
  "NETWORK = ''10.240.0.0/16''"

definition base_rules :: "(string \<times> string \<times> string list) list" where
  "base_rules =
     [(''nat'', ''PREROUTING'', [''-j'', ''SCRAPERACK'']),
      (''nat'', ''OUTPUT'', [''-m'', ''addrtype'', ''--dst-type'', ''LOCAL'', ''-j'', ''SCRAPERACK'']),
      (''nat'', ''POSTROUTING'', [''-s'', NETWORK, ''-j'', ''MASQUERADE'']),
      (''filter'', ''FORWARD'', [''-s'', NETWORK, ''-j'', ''ACCEPT'']),
      (''filter'', ''FORWARD'', [''-d'', NETWORK, ''-j'', ''ACCEPT''])]"

text \<open>
  The network, the devices that are deleted, and the firewall afterwards; no network is an error.
  \<open>listing\<close> is what \<open>ip -o link show\<close> prints, \<open>None\<close> when it cannot be run; failing deletions and a
  failing \<open>-N\<close> are ignored.
\<close>

definition prepare_network ::
    "(string list \<Rightarrow> 'f \<Rightarrow> bool option \<times> 'f) \<Rightarrow> string option \<Rightarrow> 'f \<Rightarrow> network_state option \<times> string list \<times> 'f" where
  "prepare_network ipt listing fw =
     (case listing of
        None \<Rightarrow> (None, [], fw)
      | Some out \<Rightarrow>
        let links = old_links out; fw1 = snd (ipt [''-t'', ''nat'', ''-N'', ''SCRAPERACK''] fw) in
        (case ipt [''-t'', ''nat'', ''-F'', ''SCRAPERACK''] fw1 of
           (Some True, fw2) \<Rightarrow>
             (case ensure_rules ipt base_rules fw2 of
                (True, fw3) \<Rightarrow> (Some network_start, links, fw3)
              | (False, fw3) \<Rightarrow> (None, links, fw3))
         | (_, fw2) \<Rightarrow> (None, links, fw2)))"

subsection \<open>Control groups\<close>

definition file_name :: "string \<Rightarrow> string" where
  "file_name p = rev (takeWhile (\<lambda>c. c \<noteq> CHR ''/'') (dropWhile (\<lambda>c. c = CHR ''/'') (rev p)))"

definition parent_path :: "string \<Rightarrow> string" where
  "parent_path p =
     rev (dropWhile (\<lambda>c. c = CHR ''/'') (dropWhile (\<lambda>c. c \<noteq> CHR ''/'') (dropWhile (\<lambda>c. c = CHR ''/'') (rev p))))"

definition current_cgroup :: "string \<Rightarrow> string option" where
  "current_cgroup state =
     map_option (\<lambda>p. path_join ''/sys/fs/cgroup'' (dropWhile (\<lambda>c. c = CHR ''/'') p))
       (find_map (strip_prefix ''0::'') (split_lines state))"

definition cgroup_root :: "string \<Rightarrow> string option" where
  "cgroup_root state =
     map_option (\<lambda>p. if file_name p = ''supervisor'' then parent_path p else p) (current_cgroup state)"

definition vm_cgroup :: "(uuid \<Rightarrow> string) \<Rightarrow> string \<Rightarrow> uuid \<Rightarrow> string option" where
  "vm_cgroup show_id state i = map_option (\<lambda>root. path_join root (''vm-'' @ show_id i)) (cgroup_root state)"

text \<open>The directory that is made and the two files that are written; \<open>pid\<close> is the node's own.\<close>

definition prepare_cgroups :: "string \<Rightarrow> nat \<Rightarrow> (string \<times> (string \<times> string) list) option" where
  "prepare_cgroups state pid =
     map_option (\<lambda>root. (path_join root ''supervisor'',
         [(path_join (path_join root ''supervisor'') ''cgroup.procs'', decimal pid),
          (path_join root ''cgroup.subtree_control'', ''+cpu +memory +pids'')]))
       (current_cgroup state)"

subsection \<open>Waiting for the hypervisor\<close>

text \<open>What each look finds: whether the path exists, and whether the process has ended.\<close>

datatype waiting = Appeared | Exited | TimedOutWaiting

fun wait_rounds :: "nat \<Rightarrow> (nat \<Rightarrow> bool \<times> bool) \<Rightarrow> nat \<Rightarrow> waiting" where
  "wait_rounds 0 look k = TimedOutWaiting"
| "wait_rounds (Suc n) look k =
     (case look k of
        (True, _) \<Rightarrow> Appeared
      | (False, True) \<Rightarrow> Exited
      | (False, False) \<Rightarrow> wait_rounds n look (Suc k))"

definition wait_for_path :: "(nat \<Rightarrow> bool \<times> bool) \<Rightarrow> waiting" where
  "wait_for_path look = wait_rounds 300 look 0"

end
