(* ===== verification/Node_Host_Properties.thy ===== *)
theory Node_Host_Properties
  imports Node_Host
begin

section \<open>Properties of the set-up of a host\<close>

text \<open>
  The rules that a node installs are there after its start and are not installed twice, however often
  it starts; the names of its devices are read from the listing; and the control groups of its
  machines stay where they were when the node moves itself into a group of its own.
\<close>

subsection \<open>The firewall\<close>

text \<open>
  What \<open>iptables\<close> documents of \<open>-N\<close>, \<open>-F\<close>, \<open>-C\<close> and \<open>-A\<close>: \<open>rules\<close> gives the rules of a chain of a
  table, in order; a command that does not succeed changes nothing.
\<close>

type_synonym chains = "string \<times> string \<Rightarrow> string list list option"

definition iptables_laws :: "(string list \<Rightarrow> 'f \<Rightarrow> bool option \<times> 'f) \<Rightarrow> ('f \<Rightarrow> chains) \<Rightarrow> bool" where
  "iptables_laws ipt rules \<longleftrightarrow>
     (\<forall>fw t c b fw'. ipt [''-t'', t, ''-N'', c] fw = (b, fw') \<longrightarrow>
        (if b = Some True then rules fw (t, c) = None \<and> rules fw' = (rules fw)((t, c) \<mapsto> [])
         else rules fw' = rules fw)) \<and>
     (\<forall>fw t c b fw'. ipt [''-t'', t, ''-F'', c] fw = (b, fw') \<longrightarrow>
        (if b = Some True then rules fw (t, c) \<noteq> None \<and> rules fw' = (rules fw)((t, c) \<mapsto> [])
         else rules fw' = rules fw)) \<and>
     (\<forall>fw t c r b fw'. ipt ([''-t'', t, ''-C'', c] @ r) fw = (b, fw') \<longrightarrow>
        rules fw' = rules fw \<and>
        (b = Some True \<longrightarrow> (\<exists>rs. rules fw (t, c) = Some rs \<and> r \<in> set rs)) \<and>
        (b = Some False \<longrightarrow> (\<forall>rs. rules fw (t, c) = Some rs \<longrightarrow> r \<notin> set rs))) \<and>
     (\<forall>fw t c r b fw'. ipt ([''-t'', t, ''-A'', c] @ r) fw = (b, fw') \<longrightarrow>
        (if b = Some True then \<exists>rs. rules fw (t, c) = Some rs \<and> rules fw' = (rules fw)((t, c) \<mapsto> rs @ [r])
         else rules fw' = rules fw))"

lemma iptables_new:
  assumes "iptables_laws ipt rules" "ipt [''-t'', t, ''-N'', c] fw = (b, fw')"
  shows "if b = Some True then rules fw (t, c) = None \<and> rules fw' = (rules fw)((t, c) \<mapsto> []) else rules fw' = rules fw"
  by (rule assms(1) [unfolded iptables_laws_def, THEN conjunct1, rule_format, OF assms(2)])

lemma iptables_flush:
  assumes "iptables_laws ipt rules" "ipt [''-t'', t, ''-F'', c] fw = (b, fw')"
  shows "if b = Some True then rules fw (t, c) \<noteq> None \<and> rules fw' = (rules fw)((t, c) \<mapsto> []) else rules fw' = rules fw"
  by (rule assms(1) [unfolded iptables_laws_def, THEN conjunct2, THEN conjunct1, rule_format, OF assms(2)])

definition add_missing :: "string list \<Rightarrow> string list list \<Rightarrow> string list list" where
  "add_missing r rs = (if r \<in> set rs then rs else rs @ [r])"

definition rules_for :: "string \<times> string \<Rightarrow> (string \<times> string \<times> string list) list \<Rightarrow> string list list" where
  "rules_for k wanted = map (snd \<circ> snd) (filter (\<lambda>(t, c, r). (t, c) = k) wanted)"

lemma add_missing_member [simp]: "r \<in> set (add_missing r rs)" "set rs \<subseteq> set (add_missing r rs)"
  by (auto simp: add_missing_def)

lemma fold_add_missing: "set (fold add_missing ws rs) = set rs \<union> set ws"
  by (induction ws arbitrary: rs) (auto simp: add_missing_def split: if_splits)

lemma fold_add_missing_again: "set ws \<subseteq> set rs \<Longrightarrow> fold add_missing ws rs = rs"
  by (induction ws) (auto simp: add_missing_def)

lemma ensure_rule_effect:
  assumes laws: "iptables_laws ipt rules" and run: "ensure_rule ipt (t, c, r) fw = (True, fw')"
  shows "\<exists>rs. rules fw (t, c) = Some rs \<and> rules fw' = (rules fw)((t, c) \<mapsto> add_missing r rs)"
proof -
  obtain b fw1 where check: "ipt ([''-t'', t, ''-C'', c] @ r) fw = (b, fw1)" by (metis surj_pair)
  from laws check have c1: "rules fw1 = rules fw"
    "b = Some True \<longrightarrow> (\<exists>rs. rules fw (t, c) = Some rs \<and> r \<in> set rs)"
    "b = Some False \<longrightarrow> (\<forall>rs. rules fw (t, c) = Some rs \<longrightarrow> r \<notin> set rs)"
    unfolding iptables_laws_def by blast+
  consider "b = Some True" "fw' = fw1" | "b = Some False" "ipt ([''-t'', t, ''-A'', c] @ r) fw1 = (Some True, fw')"
    using run check by (auto simp: ensure_rule_def split: option.splits bool.splits prod.splits)
  then show ?thesis
  proof cases
    case 1
    then obtain rs where "rules fw (t, c) = Some rs" "r \<in> set rs" using c1(2) by blast
    with 1 c1(1) show ?thesis by (auto simp: add_missing_def map_upd_triv)
  next
    case 2
    from laws 2(2) obtain rs where "rules fw1 (t, c) = Some rs" "rules fw' = (rules fw1)((t, c) \<mapsto> rs @ [r])"
      unfolding iptables_laws_def by (metis (full_types))
    with 2(1) c1(1,3) show ?thesis by (simp add: add_missing_def)
  qed
qed

lemma ensure_rules_effect:
  assumes laws: "iptables_laws ipt rules" and run: "ensure_rules ipt wanted fw = (True, fw')"
  shows "rules fw' = (\<lambda>k. map_option (fold add_missing (rules_for k wanted)) (rules fw k)) \<and>
    (\<forall>(t, c, r) \<in> set wanted. rules fw (t, c) \<noteq> None)"
  using run
proof (induction wanted arbitrary: fw)
  case Nil
  then show ?case by (simp add: rules_for_def option.map_id0 [unfolded id_def, symmetric] fun_eq_iff option.map_ident)
next
  case (Cons w wanted)
  obtain t c r where w: "w = (t, c, r)" by (cases w)
  from Cons.prems obtain fw1 where first: "ensure_rule ipt (t, c, r) fw = (True, fw1)"
    and rest: "ensure_rules ipt wanted fw1 = (True, fw')"
    by (auto simp: w split: prod.splits bool.splits)
  obtain rs where rs: "rules fw (t, c) = Some rs" "rules fw1 = (rules fw)((t, c) \<mapsto> add_missing r rs)"
    using ensure_rule_effect [OF laws first] by blast
  note IH = Cons.IH [OF rest]
  have "rules fw' k = map_option (fold add_missing (rules_for k (w # wanted))) (rules fw k)" for k
    using IH rs by (auto simp: w rules_for_def)
  moreover have "\<forall>(t, c, r) \<in> set (w # wanted). rules fw (t, c) \<noteq> None"
    using IH rs by (auto simp: w split: if_splits)
  ultimately show ?case by (simp add: fun_eq_iff)
qed

text \<open>A node sets its network up once. When the preparation of the network succeeds, its own
  chain exists and is empty, each of its five rules stands in its chain, every other chain has the
  rules it had before, in the same order, followed by those of the five that were missing, no chain
  appears, and a second preparation changes no rule; the addresses and ports are all free, and
  exactly the listed devices whose name begins with the node's prefix are deleted.\<close>

theorem network_is_set_up_once:
  assumes laws: "iptables_laws ipt rules"
    and run: "prepare_network ipt (Some listing) fw = (Some net, links, fw')"
  shows "net = network_start \<and> links = filter (starts_with ''srk'') (List.map_filter link_name (split_lines listing)) \<and>
    rules fw' (''nat'', ''SCRAPERACK'') = Some [] \<and>
    (\<forall>(t, c, r) \<in> set base_rules. \<exists>rs. rules fw' (t, c) = Some rs \<and> r \<in> set rs) \<and>
    (\<forall>k. k \<noteq> (''nat'', ''SCRAPERACK'') \<longrightarrow>
       rules fw' k = map_option (fold add_missing (rules_for k base_rules)) (rules fw k)) \<and>
    (\<forall>listing' net' links' fw''. prepare_network ipt (Some listing') fw' = (Some net', links', fw'') \<longrightarrow>
       rules fw'' = rules fw')"
proof -
  let ?own = "(''nat'', ''SCRAPERACK'') :: string \<times> string"
  have own: "rules_for ?own base_rules = []" by (simp add: rules_for_def base_rules_def)
  have effect: "(\<forall>k. rules y k = (if k = ?own then Some []
        else map_option (fold add_missing (rules_for k base_rules)) (rules x k))) \<and>
      (\<forall>(t, c, r) \<in> set base_rules. \<exists>rs. rules y (t, c) = Some rs \<and> r \<in> set rs)"
    if prep: "prepare_network ipt (Some l) x = (Some n, d, y)" for l x n d y
  proof -
    obtain b fw1 where new: "ipt [''-t'', ''nat'', ''-N'', ''SCRAPERACK''] x = (b, fw1)" by (metis surj_pair)
    with prep obtain fw2 where flush: "ipt [''-t'', ''nat'', ''-F'', ''SCRAPERACK''] fw1 = (Some True, fw2)"
      and add: "ensure_rules ipt base_rules fw2 = (True, y)"
      by (auto simp: prepare_network_def Let_def split: prod.splits option.splits bool.splits)
    have "\<forall>k. k \<noteq> ?own \<longrightarrow> rules fw1 k = rules x k" 
      using iptables_new [OF laws new] by (simp split: if_splits)
    then have "k \<noteq> ?own \<Longrightarrow> rules fw1 k = rules x k" for k by blast
    moreover have "rules fw2 = (rules fw1)(?own \<mapsto> [])"
      using iptables_flush [OF laws flush] by simp
    ultimately have fw2: "rules fw2 k = (if k = ?own then Some [] else rules x k)" for k
      by (simp only: fun_upd_apply if_True if_False split: if_split) simp
    note e = ensure_rules_effect [OF laws add]
    have "rules y k = (if k = ?own then Some []
        else map_option (fold add_missing (rules_for k base_rules)) (rules x k))" for k
      using e fw2 own by simp
    moreover have "\<exists>rs. rules y (t, c) = Some rs \<and> r \<in> set rs" if r: "(t, c, r) \<in> set base_rules" for t c r
    proof -
      from e r have "rules fw2 (t, c) \<noteq> None" by auto
      then obtain rs where "rules fw2 (t, c) = Some rs" by auto
      moreover have "r \<in> set (rules_for (t, c) base_rules)" using r by (force simp: rules_for_def)
      ultimately show ?thesis using e by (auto simp: fold_add_missing)
    qed
    ultimately show ?thesis by blast
  qed
  have again: "rules fw'' = rules fw'" if "prepare_network ipt (Some l) fw' = (Some n, d, fw'')" for l n d fw''
  proof
    fix k
    note e1 = effect [OF run, THEN conjunct1, THEN spec, of k]
      and e2 = effect [OF that, THEN conjunct1, THEN spec, of k]
    show "rules fw'' k = rules fw' k"
    proof (cases "k = ?own \<or> rules fw' k = None")
      case True
      then show ?thesis unfolding e2 using e1 by (cases "k = ?own") auto
    next
      case False
      then obtain rs where rs: "rules fw' k = Some rs" "k \<noteq> ?own" by auto
      have "set (rules_for k base_rules) \<subseteq> set rs"
      proof
        fix r
        assume "r \<in> set (rules_for k base_rules)"
        then have "(fst k, snd k, r) \<in> set base_rules" by (auto simp: rules_for_def)
        with effect [OF run, THEN conjunct2] rs(1) show "r \<in> set rs" by fastforce
      qed
      with rs show ?thesis unfolding e2 by (simp add: fold_add_missing_again)
    qed
  qed
  have "net = network_start" "links = old_links listing"
    using run by (auto simp: prepare_network_def Let_def split: prod.splits option.splits bool.splits)
  moreover have "\<forall>listing' net' links' fw''. prepare_network ipt (Some listing') fw' = (Some net', links', fw'') \<longrightarrow>
       rules fw'' = rules fw'" using again by blast
  moreover have "rules fw' ?own = Some []"
    using effect [OF run, THEN conjunct1, THEN spec, of ?own] by (simp only: refl if_True)
  moreover have "\<forall>k. k \<noteq> ?own \<longrightarrow>
       rules fw' k = map_option (fold add_missing (rules_for k base_rules)) (rules fw k)"
  proof (intro allI impI)
    fix k
    assume "k \<noteq> ?own"
    with effect [OF run, THEN conjunct1, THEN spec, of k]
    show "rules fw' k = map_option (fold add_missing (rules_for k base_rules)) (rules fw k)"
      by (simp only: if_False)
  qed
  ultimately show ?thesis
    using effect [OF run, THEN conjunct2] unfolding old_links_def by (intro conjI) assumption+
qed

text \<open>A firewall that does just what the documentation says.\<close>

fun plain_iptables :: "string list \<Rightarrow> chains \<Rightarrow> bool option \<times> chains" where
  "plain_iptables (_ # t # f # c # r) fw =
     (if f = ''-N'' then (if fw (t, c) = None then (Some True, fw((t, c) \<mapsto> [])) else (Some False, fw))
      else case fw (t, c) of
        None \<Rightarrow> (Some False, fw)
      | Some rs \<Rightarrow>
          if f = ''-F'' then (Some True, fw((t, c) \<mapsto> []))
          else if f = ''-C'' then (Some (r \<in> set rs), fw)
          else (Some True, fw((t, c) \<mapsto> rs @ [r])))"
| "plain_iptables _ fw = (None, fw)"

lemma plain_iptables_laws: "iptables_laws plain_iptables (\<lambda>fw. fw)"
  unfolding iptables_laws_def by (intro conjI allI impI) (auto split: if_splits option.splits)

definition demo_chains :: chains where
  "demo_chains =
     (\<lambda>k. if k = (''nat'', ''SCRAPERACK'') then Some [[''old'']]
       else if k \<in> {(''nat'', ''PREROUTING''), (''nat'', ''OUTPUT''), (''nat'', ''POSTROUTING''), (''filter'', ''FORWARD'')}
       then Some [[''other'']] else None)"

lemma plain_ensures:
  "\<forall>(t, c, r) \<in> set wanted. fw (t, c) \<noteq> None \<Longrightarrow> \<exists>fw'. ensure_rules plain_iptables wanted fw = (True, fw')"
proof (induction wanted arbitrary: fw)
  case (Cons w wanted)
  obtain t c r where w: "w = (t, c, r)" by (cases w)
  with Cons.prems obtain rs where rs: "fw (t, c) = Some rs" by auto
  then have "\<exists>fw1. ensure_rule plain_iptables w fw = (True, fw1) \<and> (\<forall>k. fw k \<noteq> None \<longrightarrow> fw1 k \<noteq> None)"
    by (cases "r \<in> set rs") (simp_all add: w ensure_rule_def)
  then obtain fw1 where fw1: "ensure_rule plain_iptables w fw = (True, fw1)" "\<forall>k. fw k \<noteq> None \<longrightarrow> fw1 k \<noteq> None"
    by blast
  with Cons.prems have "\<forall>(t, c, r) \<in> set wanted. fw1 (t, c) \<noteq> None" by fastforce
  from Cons.IH [OF this] fw1(1) show ?case by simp
qed simp

lemma demo_prepares:
  "\<exists>fw'. prepare_network plain_iptables (Some l) demo_chains = (Some network_start, old_links l, fw')"
proof -
  let ?fw = "demo_chains((''nat'', ''SCRAPERACK'') \<mapsto> [])"
  have "demo_chains (''nat'', ''SCRAPERACK'') = Some [[''old'']]" by (simp add: demo_chains_def)
  then have steps: "plain_iptables [''-t'', ''nat'', ''-N'', ''SCRAPERACK''] demo_chains = (Some False, demo_chains)"
    "plain_iptables [''-t'', ''nat'', ''-F'', ''SCRAPERACK''] demo_chains = (Some True, ?fw)" by simp_all
  have "\<forall>(t, c, r) \<in> set base_rules. ?fw (t, c) \<noteq> None" by (simp add: base_rules_def demo_chains_def)
  from plain_ensures [OF this] show ?thesis
    by (auto simp only: prepare_network_def option.case Let_def steps snd_conv prod.case bool.case)
qed

theorem network_is_set_up_once_witness:
  "\<exists>links fw'. prepare_network plain_iptables (Some ''1: lo: <UP>'') demo_chains = (Some network_start, links, fw') \<and>
     fw' (''nat'', ''SCRAPERACK'') = Some [] \<and>
     fw' (''filter'', ''FORWARD'') =
       Some [[''other''], [''-s'', NETWORK, ''-j'', ''ACCEPT''], [''-d'', NETWORK, ''-j'', ''ACCEPT'']]"
proof -
  obtain fw' where run: "prepare_network plain_iptables (Some ''1: lo: <UP>'') demo_chains
      = (Some network_start, old_links ''1: lo: <UP>'', fw')" using demo_prepares by blast
  note facts = network_is_set_up_once [OF plain_iptables_laws run]
  have "fw' (''nat'', ''SCRAPERACK'') = Some []"
    by (rule facts [THEN conjunct2, THEN conjunct2, THEN conjunct1])
  moreover have "fw' (''filter'', ''FORWARD'')
      = map_option (fold add_missing (rules_for (''filter'', ''FORWARD'') base_rules)) (demo_chains (''filter'', ''FORWARD''))"
    by (rule facts [THEN conjunct2, THEN conjunct2, THEN conjunct2, THEN conjunct2, THEN conjunct1, rule_format]) simp
  moreover have "\<dots> = Some [[''other''], [''-s'', NETWORK, ''-j'', ''ACCEPT''], [''-d'', NETWORK, ''-j'', ''ACCEPT'']]"
    by (simp add: rules_for_def base_rules_def add_missing_def demo_chains_def)
  ultimately show ?thesis using run by auto
qed

subsection \<open>The listing of devices\<close>

lemma cut_at:
  assumes "list_all (\<lambda>c. c \<noteq> s) name"
  shows "cut (s # sep) (name @ s # sep @ rest) = Some (name, rest)"
  using assms
proof (induction name)
  case Nil
  then show ?case by (subst cut.simps) (simp add: starts_with_def)
next
  case (Cons c name)
  then show ?case by (subst cut.simps) (simp add: starts_with_def)
qed

text \<open>A line of the listing: the index, the name, the peer if there is one, and the rest.\<close>

lemma listed_name:
  assumes "CHR '':'' \<notin> set index" "CHR '':'' \<notin> set name" "CHR ''@'' \<notin> set name" "CHR '':'' \<notin> set peer"
  shows "link_name (index @ '': '' @ name @ (if peer = [] then [] else ''@'' @ peer) @ '': '' @ rest) = Some name"
proof -
  define field where "field = name @ (if peer = [] then [] else ''@'' @ peer)"
  have "list_all (\<lambda>c. c \<noteq> CHR '':'') index" using assms(1) by (auto simp: list_all_iff)
  from cut_at [OF this, of "'' ''" "field @ '': '' @ rest"]
  have "cut '': '' (index @ '': '' @ field @ '': '' @ rest) = Some (index, field @ '': '' @ rest)" by simp
  moreover have "list_all (\<lambda>c. c \<noteq> CHR '':'') field" using assms(2,4) by (auto simp: list_all_iff field_def)
  from cut_at [OF this, of "'' ''" rest] have "cut '': '' (field @ '': '' @ rest) = Some (field, rest)" by simp
  ultimately have "second_part '': '' (index @ '': '' @ field @ '': '' @ rest) = Some field"
    by (simp add: second_part_def)
  moreover have "first_part CHR ''@'' field = name"
    using assms(3) by (auto simp: first_part_def takeWhile_append field_def)
  ultimately have "link_name (index @ '': '' @ field @ '': '' @ rest) = Some name" by (simp only: link_name_def option.map)
  then show ?thesis by (simp only: field_def append_assoc)
qed

subsection \<open>Control groups\<close>

text \<open>
  After \<open>prepare_cgroups\<close> the node is in the group \<open>supervisor\<close> below its own; the groups of the
  machines are still made beside that one, in the group the node was started in.
\<close>

lemma current_cgroup_line:
  assumes "LF \<notin> set q" "CR \<notin> set q" "q = [] \<or> hd q \<noteq> CHR ''/''"
  shows "current_cgroup (''0::/'' @ q @ [LF]) = Some (''/sys/fs/cgroup/'' @ q)"
proof -
  have "plain_line (''0::/'' @ q)"
    using assms(1,2) by (cases q rule: rev_cases) (auto simp: plain_line_def LF_def CR_def)
  from split_lines_Cons [OF this, of "[]"] have "split_lines (''0::/'' @ q @ [LF]) = [''0::/'' @ q]" by simp
  moreover have "dropWhile (\<lambda>c. c = CHR ''/'') q = q" using assms(3) by (cases q) auto
  ultimately show ?thesis
    using assms(3) by (cases q) (auto simp: current_cgroup_def strip_prefix_def path_join_def)
qed

lemma machines_keep_their_group:
  assumes q: "LF \<notin> set q" "CR \<notin> set q" "q = [] \<or> hd q \<noteq> CHR ''/'' \<and> last q \<noteq> CHR ''/''"
  shows "vm_cgroup show_id (''0::/'' @ (if q = [] then [] else q @ ''/'') @ ''supervisor'' @ [LF]) i
    = map_option (\<lambda>root. path_join root (''vm-'' @ show_id i)) (current_cgroup (''0::/'' @ q @ [LF]))"
proof -
  define r where "r = (if q = [] then [] else q @ ''/'')"
  have "LF \<notin> set (r @ ''supervisor'')" "CR \<notin> set (r @ ''supervisor'')" "hd (r @ ''supervisor'') \<noteq> CHR ''/''"
    using q by (auto simp: r_def LF_def CR_def hd_append)
  then have after: "current_cgroup (''0::/'' @ (r @ ''supervisor'') @ [LF]) = Some (''/sys/fs/cgroup/'' @ r @ ''supervisor'')"
    by (intro current_cgroup_line) auto
  have "rev (''/sys/fs/cgroup/'' @ r @ ''supervisor'') = rev ''supervisor'' @ CHR ''/'' # rev (butlast (''/sys/fs/cgroup/'' @ r))"
    by (simp add: r_def butlast_append)
  then have name: "file_name (''/sys/fs/cgroup/'' @ r @ ''supervisor'') = ''supervisor''"
    and up: "parent_path (''/sys/fs/cgroup/'' @ r @ ''supervisor'')
      = rev (dropWhile (\<lambda>c. c = CHR ''/'') (rev (butlast (''/sys/fs/cgroup/'' @ r))))"
    unfolding file_name_def parent_path_def by simp_all
  have "parent_path (''/sys/fs/cgroup/'' @ r @ ''supervisor'') = butlast (''/sys/fs/cgroup/'' @ r)"
    unfolding up using q(3) by (cases q rule: rev_cases) (auto simp: r_def butlast_append)
  then have "cgroup_root (''0::/'' @ (r @ ''supervisor'') @ [LF]) = Some (butlast (''/sys/fs/cgroup/'' @ r))"
    by (simp add: cgroup_root_def after name del: append_Cons append_assoc)
  moreover have "current_cgroup (''0::/'' @ q @ [LF]) = Some (''/sys/fs/cgroup/'' @ q)"
    using q by (intro current_cgroup_line) auto
  moreover have "path_join (butlast (''/sys/fs/cgroup/'' @ r)) n = path_join (''/sys/fs/cgroup/'' @ q) n"
    if "hd n \<noteq> CHR ''/''" for n
    using that q(3) by (auto simp: r_def path_join_def butlast_append)
  ultimately show ?thesis by (simp add: vm_cgroup_def r_def)
qed

subsection \<open>Waiting\<close>

lemma wait_rounds_iff:
  "wait_rounds n look k = Appeared \<longleftrightarrow>
   (\<exists>j < n. fst (look (k + j)) \<and> (\<forall>i < j. \<not> fst (look (k + i)) \<and> \<not> snd (look (k + i))))"
proof (induction n arbitrary: k)
  case (Suc n)
  show ?case
  proof (cases "fst (look k) \<or> snd (look k)")
    case True
    then show ?thesis
      by (cases "look k") (auto split: bool.splits simp: gr0_conv_Suc less_Suc_eq_0_disj dest!: spec [of _ 0])
  next
    case False
    then have "wait_rounds (Suc n) look k = wait_rounds n look (Suc k)" by (cases "look k") auto
    then have step: "wait_rounds (Suc n) look k = Appeared \<longleftrightarrow> wait_rounds n look (Suc k) = Appeared" by (rule arg_cong)
    show ?thesis unfolding step Suc.IH using False by (simp add: Ex_less_Suc2 All_less_Suc2 del: wait_rounds.simps)
  qed
qed simp

text \<open>The wait ends after 300 looks at most, and with success exactly when the path appears first.\<close>

lemma wait_for_path_iff:
  "wait_for_path look = Appeared \<longleftrightarrow>
   (\<exists>j < 300. fst (look j) \<and> (\<forall>i < j. \<not> fst (look i) \<and> \<not> snd (look i)))"
  by (simp add: wait_for_path_def wait_rounds_iff)

end
