(* ===== verification/Node_Protocol.thy ===== *)
theory Node_Protocol
  imports Node_Start Text_Lines
begin

section \<open>The protocols of a node\<close>

text \<open>
  How \<open>platform/src/node.rs\<close> talks to a guest (\<open>connect_vsock\<close>, \<open>guest_request_stream\<close>: one line of
  JSON each way) and to the hypervisor (\<open>firecracker_request\<close>: HTTP over a socket), on the bytes that
  are sent and received. \<open>show_json\<close> and \<open>read_completion\<close> are \<open>serde_json\<close>. What is received is the
  whole text until the peer closes; the readers are dropped after each answer, with whatever they had
  read beyond it, and so are these bytes here.
\<close>

definition CRLF :: string where
  "CRLF = [CR, LF]"

text \<open>\<open>read_line\<close>: to the next line feed, which belongs to the line, or to the end.\<close>

definition read_line :: "string \<Rightarrow> string \<times> string" where
  "read_line s =
     (case dropWhile (\<lambda>c. c \<noteq> LF) s of
        [] \<Rightarrow> (s, [])
      | _ # rest \<Rightarrow> (takeWhile (\<lambda>c. c \<noteq> LF) s @ [LF], rest))"

subsection \<open>The guest\<close>

definition guest_request_stream ::
    "(json \<Rightarrow> string) \<Rightarrow> (string \<Rightarrow> string + completion) \<Rightarrow> json \<Rightarrow> string \<Rightarrow> string \<times> guest_reply" where
  "guest_request_stream show_json read_completion payload incoming =
     (show_json payload @ [LF],
      let response = fst (read_line incoming) in
      if response = [] then NoAnswer ''guest agent closed the connection without a response''
      else case read_completion response of
          Inl e \<Rightarrow> NoAnswer (''invalid guest response: '' @ e)
        | Inr c \<Rightarrow> Answer c)"

definition GUEST_PORT :: nat where
  "GUEST_PORT = 5000"

definition connect_vsock :: "string \<Rightarrow> string \<times> (string + unit)" where
  "connect_vsock incoming =
     (''CONNECT '' @ decimal GUEST_PORT @ [LF],
      let response = fst (read_line incoming) in
      if \<not> starts_with ''OK '' response then Inl (''vsock rejected connection: '' @ trim response) else Inr ())"

subsection \<open>The hypervisor\<close>

definition request_head :: "string \<Rightarrow> string \<Rightarrow> nat \<Rightarrow> string" where
  "request_head method path n =
     concat [method, '' '', path, '' HTTP/1.1'', CRLF, ''Host: localhost'', CRLF,
       ''Content-Type: application/json'', CRLF, ''Content-Length: '', decimal n, CRLF,
       ''Connection: close'', CRLF, CRLF]"

lemma read_line_shorter: "read_line s = (header, rest) \<Longrightarrow> header \<noteq> [] \<Longrightarrow> length rest < length s"
  using length_dropWhile_le [of "\<lambda>c. c \<noteq> LF" s]
  by (cases s) (auto simp: read_line_def split: list.splits if_splits)

text \<open>
  The headers up to the empty line or the end: the last length that is given, and what follows. A
  length that is no number ends with the error that \<open>int_error\<close> describes.
\<close>

function read_headers :: "(string \<Rightarrow> string) \<Rightarrow> string \<Rightarrow> nat \<Rightarrow> string + nat \<times> string" where
  "read_headers int_error s n =
     (case read_line s of (header, rest) \<Rightarrow>
        if header = CRLF \<or> header = [] then Inr (n, rest)
        else (case strip_prefix ''content-length:'' (to_ascii_lowercase header) of
            None \<Rightarrow> read_headers int_error rest n
          | Some v \<Rightarrow>
              (case parse_unsigned (2 ^ 64 - 1) (trim v) of
                 None \<Rightarrow> Inl (int_error (trim v))
               | Some m \<Rightarrow> read_headers int_error rest m)))"
  by auto
termination
  by (relation "measure (\<lambda>(_, s, _). length s)") (auto dest!: read_line_shorter [OF sym])

declare read_headers.simps [simp del]

text \<open>\<open>contains\<close> of a text\<close>

fun contains :: "string \<Rightarrow> string \<Rightarrow> bool" where
  "contains p s \<longleftrightarrow> starts_with p s \<or> (case s of [] \<Rightarrow> False | _ # cs \<Rightarrow> contains p cs)"

declare contains.simps [simp del]

definition read_reply :: "(string \<Rightarrow> string) \<Rightarrow> string \<Rightarrow> string \<Rightarrow> string + unit" where
  "read_reply int_error path incoming =
     (case read_line incoming of (status, rest) \<Rightarrow>
     (case read_headers int_error rest 0 of
        Inl e \<Rightarrow> Inl e
      | Inr (n, body) \<Rightarrow>
          if length body < n then Inl ''early eof''
          else if \<not> contains '' 200 '' status \<and> \<not> contains '' 204 '' status
          then Inl (concat [''firecracker '', path, '' failed: '', trim status, '' '', trim (take n body)])
          else Inr ()))"

definition firecracker_request ::
    "(json \<Rightarrow> string) \<Rightarrow> (string \<Rightarrow> string) \<Rightarrow> string \<Rightarrow> string \<Rightarrow> json \<Rightarrow> string \<Rightarrow> string \<times> (string + unit)" where
  "firecracker_request show_json int_error method path body incoming =
     (let text = show_json body in
      (request_head method path (length text) @ text, read_reply int_error path incoming))"

definition firecracker_put ::
    "(json \<Rightarrow> string) \<Rightarrow> (string \<Rightarrow> string) \<Rightarrow> string \<Rightarrow> json \<Rightarrow> string \<Rightarrow> string \<times> (string + unit)" where
  "firecracker_put show_json int_error = firecracker_request show_json int_error ''PUT''"

subsection \<open>Lines\<close>

lemma read_line_whole: "LF \<notin> set l \<Longrightarrow> read_line (l @ LF # rest) = (l @ [LF], rest)"
  by (auto simp: read_line_def dropWhile_append takeWhile_append)

text \<open>A conversation with a guest that reads a line, answers it, and writes a line.\<close>

definition serve ::
    "(string \<Rightarrow> json) \<Rightarrow> (completion \<Rightarrow> string) \<Rightarrow> ('s \<Rightarrow> json \<Rightarrow> completion \<times> 's) \<Rightarrow> 's \<Rightarrow> string \<Rightarrow> string \<times> 's" where
  "serve read_json show_completion guest st received =
     (case guest st (read_json (fst (read_line received))) of (c, st1) \<Rightarrow> (show_completion c @ [LF], st1))"

fun talk ::
    "(json \<Rightarrow> string) \<Rightarrow> (string \<Rightarrow> string + completion) \<Rightarrow> ('s \<Rightarrow> string \<Rightarrow> string \<times> 's) \<Rightarrow> 's \<Rightarrow> json list \<Rightarrow>
     guest_reply list \<times> 's" where
  "talk show_json read_completion peer st [] = ([], st)"
| "talk show_json read_completion peer st (v # vs) =
     (case peer st (fst (guest_request_stream show_json read_completion v [])) of (answer, st1) \<Rightarrow>
     (case talk show_json read_completion peer st1 vs of (replies, st2) \<Rightarrow>
        (snd (guest_request_stream show_json read_completion v answer) # replies, st2)))"

fun ask_all :: "('s \<Rightarrow> json \<Rightarrow> completion \<times> 's) \<Rightarrow> 's \<Rightarrow> json list \<Rightarrow> guest_reply list \<times> 's" where
  "ask_all guest st [] = ([], st)"
| "ask_all guest st (v # vs) =
     (case guest st v of (c, st1) \<Rightarrow>
     (case ask_all guest st1 vs of (replies, st2) \<Rightarrow> (Answer c # replies, st2)))"

text \<open>C30: the line protocol with a guest does what a call of the guest would do: when the texts of the
  requests and of the guest's answers have no line feed in them (as JSON written without indentation
  has none) and read back, any sequence of requests over one connection brings the guest's answers to
  these requests, in their order, and leaves the guest in the state that the calls would leave it in.\<close>

theorem guest_lines_are_calls:
  assumes "\<And>v. v \<in> set vs \<Longrightarrow> LF \<notin> set (show_json v) \<and> read_json (show_json v @ [LF]) = v"
    and "\<And>st v. v \<in> set vs \<Longrightarrow> LF \<notin> set (show_completion (fst (guest st v))) \<and>
      read_completion (show_completion (fst (guest st v)) @ [LF]) = Inr (fst (guest st v))"
  shows "talk show_json read_completion (serve read_json show_completion guest) st vs = ask_all guest st vs"
  using assms
proof (induction vs arbitrary: st)
  case (Cons v vs)
  obtain c st1 where g: "guest st v = (c, st1)" by (cases "guest st v")
  have v: "LF \<notin> set (show_json v)" "read_json (show_json v @ [LF]) = v" using Cons.prems(1) by auto
  have c: "LF \<notin> set (show_completion c)" "read_completion (show_completion c @ [LF]) = Inr c"
    using Cons.prems(2) [of v st] g by auto
  have "serve read_json show_completion guest st (fst (guest_request_stream show_json read_completion v []))
      = (show_completion c @ [LF], st1)"
    using read_line_whole [OF v(1), of "[]"] by (simp add: serve_def guest_request_stream_def v(2) g)
  moreover have "snd (guest_request_stream show_json read_completion v (show_completion c @ [LF])) = Answer c"
    using read_line_whole [OF c(1), of "[]"] by (simp add: guest_request_stream_def c(2))
  moreover have "talk show_json read_completion (serve read_json show_completion guest) st1 vs = ask_all guest st1 vs"
    by (rule Cons.IH) (use Cons.prems in auto)
  ultimately show ?case using g by (simp split: prod.split)
qed simp

theorem guest_lines_are_calls_witness:
  "fst (talk (\<lambda>v. ''null'') (\<lambda>t. Inr \<lparr>comp_result = None, comp_error = None, comp_timed_out = False,
       comp_metrics = None, comp_keep_idle = False\<rparr>)
     (serve (\<lambda>t. JNull) (\<lambda>c. ''{}'') (\<lambda>n v. (\<lparr>comp_result = None, comp_error = None, comp_timed_out = False,
       comp_metrics = None, comp_keep_idle = False\<rparr>, n + 1))) (0 :: nat) [JNull, JNull])
   = [Answer \<lparr>comp_result = None, comp_error = None, comp_timed_out = False, comp_metrics = None, comp_keep_idle = False\<rparr>,
      Answer \<lparr>comp_result = None, comp_error = None, comp_timed_out = False, comp_metrics = None, comp_keep_idle = False\<rparr>]"
  by (subst guest_lines_are_calls) (simp_all add: LF_def)

subsection \<open>Messages\<close>

lemma lower_line: "LF \<notin> set h \<Longrightarrow> read_line (h @ CRLF @ rest) = (h @ CRLF, rest)"
  using read_line_whole [of "h @ [CR]" rest] by (simp add: CRLF_def CR_def LF_def)

lemma read_headers_skip:
  assumes "LF \<notin> set h" "h \<noteq> []" "strip_prefix ''content-length:'' (to_ascii_lowercase (h @ CRLF)) = None"
  shows "read_headers int_error (h @ CRLF @ rest) n = read_headers int_error rest n"
  using assms by (subst read_headers.simps) (simp add: lower_line)

lemma read_headers_end: "read_headers int_error (CRLF @ rest) n = Inr (n, rest)"
  using lower_line [of "[]" rest] by (subst read_headers.simps) simp

lemma first_prefix_char:
  "list_ex (\<lambda>w. w = [c]) ws \<Longrightarrow> list_all (\<lambda>w. hd w = c \<longrightarrow> w = [c]) ws \<Longrightarrow> list_all (\<lambda>w. w \<noteq> []) ws \<Longrightarrow>
   first_prefix ws (c # s) = Some s"
proof (induction ws)
  case (Cons w ws)
  show ?case
  proof (cases "w = [c]")
    case False
    with Cons.prems(2,3) obtain d w' where "w = d # w'" "d \<noteq> c" by (cases w) auto
    with Cons False show ?thesis by (simp add: strip_prefix_def)
  qed (simp add: strip_prefix_def)
qed simp

lemma trim_step:
  "first_prefix ws s = Some r \<Longrightarrow> list_all (\<lambda>w. w \<noteq> []) ws \<Longrightarrow> trim_prefixes ws s = trim_prefixes ws r"
  by (subst trim_prefixes.simps) (simp add: filter_id_conv [THEN iffD2] list_all_iff)

lemma white_heads:
  "list_all (\<lambda>w. w \<noteq> []) white_space" "list_all (\<lambda>w. w \<noteq> []) (map rev white_space)"
  "list_all (\<lambda>w. hd w = CHR '' '' \<longrightarrow> w = '' '') white_space"
  "list_all (\<lambda>w. hd w = LF \<longrightarrow> w = [LF]) (map rev white_space)"
  "list_all (\<lambda>w. hd w = CR \<longrightarrow> w = [CR]) (map rev white_space)"
  "list_ex (\<lambda>w. w = '' '') white_space" "list_ex (\<lambda>w. w = [LF]) (map rev white_space)"
  "list_ex (\<lambda>w. w = [CR]) (map rev white_space)"
  by (simp_all add: white_space_def bytes_string_def char_of_eq_iff LF_def CR_def)

lemma digit_heads:
  assumes "is_digit c"
  shows "list_all (\<lambda>w. w \<noteq> [] \<longrightarrow> hd w \<noteq> c) white_space" "list_all (\<lambda>w. w \<noteq> [] \<longrightarrow> hd w \<noteq> c) (map rev white_space)"
  using assms by (auto simp: white_space_def bytes_string_def is_digit_def)

text \<open>The digits of a header's number, between the space and the line end.\<close>

lemma trim_number:
  assumes "list_all is_digit d" "d \<noteq> []"
  shows "trim (CHR '' '' # d @ CRLF) = d"
proof -
  obtain c d' where d: "d = c # d'" "is_digit c" using assms by (cases d) auto
  have "trim_start (CHR '' '' # d @ CRLF) = trim_prefixes white_space (d @ CRLF)"
    unfolding trim_start_def by (intro trim_step first_prefix_char white_heads)
  also have "\<dots> = d @ CRLF"
    using first_prefix_none [OF digit_heads(1) [OF d(2)]] by (subst trim_prefixes.simps) (simp add: d(1))
  finally have start: "trim_start (CHR '' '' # d @ CRLF) = d @ CRLF" .
  obtain e r where r: "rev d = e # r" "is_digit e"
    using assms by (cases d rule: rev_cases) auto
  have "trim_prefixes (map rev white_space) (LF # CR # rev d) = trim_prefixes (map rev white_space) (CR # rev d)"
    by (intro trim_step first_prefix_char white_heads)
  also have "\<dots> = trim_prefixes (map rev white_space) (rev d)"
    by (intro trim_step first_prefix_char white_heads)
  also have "\<dots> = rev d"
    using first_prefix_none [OF digit_heads(2) [OF r(2)]] by (subst trim_prefixes.simps) (simp add: r(1))
  finally show ?thesis unfolding trim_def start by (simp add: trim_end_def CRLF_def)
qed

lemma read_headers_length:
  assumes "n < 2 ^ 64"
  shows "read_headers int_error (''Content-Length: '' @ decimal n @ CRLF @ rest) k = read_headers int_error rest n"
proof -
  let ?h = "''Content-Length: '' @ decimal n"
  have digits: "list_all is_digit (decimal n)" by (rule decimal_digits)
  then have "LF \<notin> set ?h" by (auto simp: list_all_iff is_digit_def LF_def)
  from lower_line [OF this] have line: "read_line (?h @ CRLF @ rest) = (?h @ CRLF, rest)" .
  have "map lower (decimal n @ CRLF) = decimal n @ CRLF"
    using digits by (auto simp: list_all_iff is_digit_def lower_def Let_def CRLF_def CR_def LF_def intro!: map_idI)
  then have "to_ascii_lowercase (?h @ CRLF) = ''content-length: '' @ decimal n @ CRLF"
    by (simp add: to_ascii_lowercase_def lower_def char_of_eq_iff)
  then have "strip_prefix ''content-length:'' (to_ascii_lowercase (?h @ CRLF)) = Some (CHR '' '' # decimal n @ CRLF)"
    by (simp add: strip_prefix_def)
  moreover have "trim (CHR '' '' # decimal n @ CRLF) = decimal n" by (rule trim_number [OF digits]) simp
  moreover have "parse_unsigned (2 ^ 64 - 1) (decimal n) = Some n" using assms by (intro parse_decimal) simp
  moreover have "?h @ CRLF \<noteq> CRLF" by (simp add: CRLF_def)
  ultimately show ?thesis using line by (subst read_headers.simps) simp
qed

lemma contains_Cons: "contains p (c # s) \<longleftrightarrow> starts_with p (c # s) \<or> contains p s"
  by (subst contains.simps) simp

lemma status_contains:
  assumes "a \<noteq> CHR '' ''" "b \<noteq> CHR '' ''" "c \<noteq> CHR '' ''" "x \<noteq> CHR '' ''"
  shows "contains [CHR '' '', x, y, z, CHR '' ''] (''HTTP/1.1 '' @ [a, b, c] @ CHR '' '' # reason) \<longleftrightarrow>
    [a, b, c] = [x, y, z] \<or> contains [CHR '' '', x, y, z, CHR '' ''] (CHR '' '' # reason)"
  using assms by (auto simp: contains_Cons starts_with_def)

lemma read_headers_skips:
  "list_all (\<lambda>h. LF \<notin> set h \<and> h \<noteq> [] \<and> strip_prefix ''content-length:'' (to_ascii_lowercase (h @ CRLF)) = None) hs \<Longrightarrow>
   read_headers int_error (concat (map (\<lambda>h. h @ CRLF) hs) @ rest) n = read_headers int_error rest n"
  by (induction hs) (simp_all add: read_headers_skip)

lemma fixed_headers:
  "list_all (\<lambda>h. LF \<notin> set h \<and> h \<noteq> [] \<and> strip_prefix ''content-length:'' (to_ascii_lowercase (h @ CRLF)) = None)
     [''Host: localhost'', ''Content-Type: application/json'']"
  "list_all (\<lambda>h. LF \<notin> set h \<and> h \<noteq> [] \<and> strip_prefix ''content-length:'' (to_ascii_lowercase (h @ CRLF)) = None)
     [''Connection: close'']"
  by (simp_all add: strip_prefix_def to_ascii_lowercase_def lower_def char_of_eq_iff LF_def)

lemma request_reads:
  assumes "LF \<notin> set method" "LF \<notin> set path" "length body < 2 ^ 64"
  shows "\<exists>rest. read_line (request_head method path (length body) @ body)
      = (concat [method, '' '', path, '' HTTP/1.1'', CRLF], rest) \<and>
    read_headers int_error rest 0 = Inr (length body, body)"
proof -
  let ?rest = "concat (map (\<lambda>h. h @ CRLF) [''Host: localhost'', ''Content-Type: application/json''])
    @ ''Content-Length: '' @ decimal (length body) @ CRLF
    @ concat (map (\<lambda>h. h @ CRLF) [''Connection: close'']) @ CRLF @ body"
  have "LF \<notin> set (method @ '' '' @ path @ '' HTTP/1.1'')" using assms(1,2) by (simp add: LF_def)
  from lower_line [OF this, of ?rest]
  have "read_line (request_head method path (length body) @ body) = (concat [method, '' '', path, '' HTTP/1.1'', CRLF], ?rest)"
    by (simp add: request_head_def)
  moreover have "read_headers int_error ?rest 0 = Inr (length body, body)"
    by (simp only: read_headers_skips [OF fixed_headers(1)] read_headers_length [OF assms(3)]
        read_headers_skips [OF fixed_headers(2)] read_headers_end)
  ultimately show ?thesis by blast
qed

text \<open>A request to the hypervisor is framed, and its answer is read, as HTTP says: what is sent
  reads as the request line with method and path and a body of the length that its header gives,
  which is the JSON text; and the answer of a server (a status line with a code of three digits, a
  length among any other headers, the body) is taken as success exactly when the code is 200 or 204,
  and otherwise as an error that quotes path, status and body, whatever follows the body. The reason
  must not contain the text of one of the two codes, for which the code looks in the whole line.\<close>

theorem http_messages:
  assumes sent: "LF \<notin> set method" "LF \<notin> set path" "length (show_json v) < 2 ^ 64"
    and code: "list_all is_digit code" "length code = 3"
    and reason: "LF \<notin> set reason" "\<not> contains '' 200 '' (CHR '' '' # reason @ CRLF)" "\<not> contains '' 204 '' (CHR '' '' # reason @ CRLF)"
    and headers: "list_all (\<lambda>h. LF \<notin> set h \<and> h \<noteq> [] \<and>
        strip_prefix ''content-length:'' (to_ascii_lowercase (h @ CRLF)) = None) (before @ after)"
    and body: "length body < 2 ^ 64"
  defines "status \<equiv> ''HTTP/1.1 '' @ code @ '' '' @ reason @ CRLF"
  shows "(\<exists>rest. read_line (fst (firecracker_request show_json int_error method path v []))
        = (concat [method, '' '', path, '' HTTP/1.1'', CRLF], rest) \<and>
      read_headers int_error rest 0 = Inr (length (show_json v), show_json v)) \<and>
    read_reply int_error path (status @ concat (map (\<lambda>h. h @ CRLF) before) @
        ''Content-Length: '' @ decimal (length body) @ CRLF @ concat (map (\<lambda>h. h @ CRLF) after) @ CRLF @ body @ extra)
      = (if code = ''200'' \<or> code = ''204'' then Inr ()
         else Inl (concat [''firecracker '', path, '' failed: '', trim status, '' '', trim body]))"
proof -
  obtain a b c where abc: "code = [a, b, c]" using code(2) by (auto simp: length_Suc_conv numeral_eq_Suc)
  have digits: "a \<noteq> CHR '' ''" "b \<noteq> CHR '' ''" "c \<noteq> CHR '' ''" "LF \<notin> set code"
    using code(1) by (auto simp: abc is_digit_def LF_def)
  have contains_code: "contains '' 200 '' status \<longleftrightarrow> code = ''200''" "contains '' 204 '' status \<longleftrightarrow> code = ''204''"
    using status_contains [OF digits(1,2,3), of "CHR ''2''" "CHR ''0''" "CHR ''0''" "reason @ CRLF"]
      status_contains [OF digits(1,2,3), of "CHR ''2''" "CHR ''0''" "CHR ''4''" "reason @ CRLF"] reason(2,3)
    by (simp_all add: status_def abc)
  have "LF \<notin> set (''HTTP/1.1 '' @ code @ '' '' @ reason)" using digits(4) reason(1) by (simp add: LF_def)
  from lower_line [OF this] have line: "read_line (status @ more) = (status, more)" for more
    by (simp add: status_def)
  have all: "list_all (\<lambda>h. LF \<notin> set h \<and> h \<noteq> [] \<and>
        strip_prefix ''content-length:'' (to_ascii_lowercase (h @ CRLF)) = None) before"
      "list_all (\<lambda>h. LF \<notin> set h \<and> h \<noteq> [] \<and>
        strip_prefix ''content-length:'' (to_ascii_lowercase (h @ CRLF)) = None) after"
    using headers by simp_all
  have "read_headers int_error (concat (map (\<lambda>h. h @ CRLF) before) @
        ''Content-Length: '' @ decimal (length body) @ CRLF @ concat (map (\<lambda>h. h @ CRLF) after) @ CRLF @ body @ extra) 0
      = Inr (length body, body @ extra)"
    by (simp only: read_headers_skips [OF all(1)] read_headers_length [OF body]
        read_headers_skips [OF all(2)] read_headers_end)
  then have "read_reply int_error path (status @ concat (map (\<lambda>h. h @ CRLF) before) @
        ''Content-Length: '' @ decimal (length body) @ CRLF @ concat (map (\<lambda>h. h @ CRLF) after) @ CRLF @ body @ extra)
      = (if code = ''200'' \<or> code = ''204'' then Inr ()
         else Inl (concat [''firecracker '', path, '' failed: '', trim status, '' '', trim body]))"
    unfolding read_reply_def line by (simp add: contains_code)
  moreover have "\<exists>rest. read_line (fst (firecracker_request show_json int_error method path v []))
        = (concat [method, '' '', path, '' HTTP/1.1'', CRLF], rest) \<and>
      read_headers int_error rest 0 = Inr (length (show_json v), show_json v)"
    using request_reads [OF sent] by (simp add: firecracker_request_def Let_def)
  ultimately show ?thesis by blast
qed

theorem http_messages_witness:
  "read_reply (\<lambda>t. t) ''/vm'' ((''HTTP/1.1 '' @ ''204'' @ '' '' @ ''No Content'' @ CRLF) @
     concat (map (\<lambda>h. h @ CRLF) [''Server: x'']) @
     ''Content-Length: '' @ decimal (length []) @ CRLF @ concat (map (\<lambda>h. h @ CRLF) []) @ CRLF @ [] @ []) = Inr ()"
proof -
  have reason: "\<not> contains '' 200 '' (CHR '' '' # ''No Content'' @ CRLF)" "\<not> contains '' 204 '' (CHR '' '' # ''No Content'' @ CRLF)"
    "LF \<notin> set ''No Content''" "LF \<notin> set ''PUT''" "LF \<notin> set ''/vm''" "list_all is_digit ''204''"
    by (simp_all add: contains_Cons contains.simps [of _ "[]"] starts_with_def CRLF_def LF_def is_digit_def)
  have headers: "list_all (\<lambda>h. LF \<notin> set h \<and> h \<noteq> [] \<and>
        strip_prefix ''content-length:'' (to_ascii_lowercase (h @ CRLF)) = None) ([''Server: x''] @ [])"
    by (simp add: strip_prefix_def to_ascii_lowercase_def lower_def char_of_eq_iff LF_def)
  show ?thesis
    using http_messages [OF reason(4,5) _ reason(6) _ reason(3,1,2) headers, of "\<lambda>v. ''{}''" JNull "[]" "\<lambda>t. t" "[]"]
    by (simp only: if_True refl simp_thms) simp
qed

text \<open>
  The code looks for the number anywhere in the status line: a refusal whose reason has it between
  two spaces is taken as success.
\<close>

lemma refusal_taken_as_success:
  "read_reply int_error path (''HTTP/1.1 400 after 200 tries'' @ CRLF @ CRLF) = Inr ()"
proof -
  have line: "read_line (''HTTP/1.1 400 after 200 tries'' @ CRLF @ CRLF) = (''HTTP/1.1 400 after 200 tries'' @ CRLF, CRLF)"
    by (rule lower_line) (simp add: LF_def)
  have "contains '' 200 '' (''HTTP/1.1 400 after 200 tries'' @ CRLF)"
    by (simp add: contains_Cons starts_with_def)
  moreover have "read_headers int_error CRLF 0 = Inr (0, [])" using read_headers_end [of int_error "[]" 0] by simp
  ultimately show ?thesis by (simp only: read_reply_def line prod.case sum.case) simp
qed

end
