(* ===== verification/Node_Service.thy ===== *)
theory Node_Service
  imports Node_Cooperation Node_Agent Node_Join Api_Properties
begin

section \<open>The life of a node\<close>

text \<open>
  \<open>run\<close> of \<open>platform/src/node.rs\<close>, with the handlers of the controller that its requests reach: how a
  node finds out who it is, registers, warms its pools, sends heartbeats, and fetches and reports
  work. The synchronisation of files and snapshots is in theories of its own; here it gives the list
  \<open>ps\<close> of the pools whose snapshot is ready. An HTTP failure ends \<open>run\<close> with an error, \<open>None\<close>.
\<close>

subsection \<open>Who the node is\<close>

record node_settings =
  ns_name :: string
  ns_cpu_millis :: u32
  ns_memory_mib :: u32
  ns_concurrency :: "usize option"
  ns_address :: ip_addr

definition stored_id :: "(string \<Rightarrow> uuid option) \<Rightarrow> file_read \<Rightarrow> uuid option option" where
  "stored_id parse file =
     (case file of
        FileText s \<Rightarrow> map_option Some (parse (trim s))
      | FileMissing \<Rightarrow> Some None
      | FileError \<Rightarrow> None)"

definition given_credential :: "string option \<Rightarrow> string option" where
  "given_credential credential =
     (case credential of None \<Rightarrow> None | Some c \<Rightarrow> if c = [] then None else Some c)"

text \<open>
  The identifier, the credential, and whether the identifier is written to its file. \<open>local\<close> is the
  answer to \<open>/internal/local-join\<close> for the stored identifier.
\<close>

definition enrolment ::
    "(string \<Rightarrow> uuid option) \<Rightarrow> file_read \<Rightarrow> string option \<Rightarrow> (uuid option \<Rightarrow> (uuid \<times> string) option) \<Rightarrow>
     (uuid \<times> string \<times> bool) option" where
  "enrolment parse file credential local =
     (case stored_id parse file of
        None \<Rightarrow> None
      | Some stored \<Rightarrow>
          (case (case given_credential credential of
                   Some c \<Rightarrow> map_option (\<lambda>i. (i, c)) stored
                 | None \<Rightarrow> local stored) of
             None \<Rightarrow> None
           | Some (i, c) \<Rightarrow> Some (i, c, stored \<noteq> Some i)))"

subsection \<open>Registration\<close>

definition local_limit :: "node_settings \<Rightarrow> usize" where
  "local_limit s =
     max (case ns_concurrency s of Some n \<Rightarrow> n | None \<Rightarrow> default_vm_start_concurrency (ns_cpu_millis s)) 1"

definition registration :: "node_settings \<Rightarrow> uuid \<Rightarrow> bool \<Rightarrow> micro_vm list \<Rightarrow> register_request" where
  "registration s i reset vms =
     \<lparr>reg_id = Some i, reg_name = ns_name s, reg_cpu_millis = ns_cpu_millis s,
      reg_memory_mib = ns_memory_mib s, reg_vm_start_concurrency = Some (local_limit s),
      reg_address = Some (ns_address s), reg_reset_idle = reset, reg_vms = vms\<rparr>"

definition granted_limit :: "node_settings \<Rightarrow> node \<Rightarrow> usize" where
  "granted_limit s n = (case node_vm_start_concurrency n of Some v \<Rightarrow> v | None \<Rightarrow> local_limit s)"

text \<open>What a running node has: the limiter, its machines, and its network; the controller beside it.\<close>

type_synonym node_run = "limiter \<times> app \<times> vm_state \<times> network_state"

definition start_node ::
    "codec \<Rightarrow> (string \<Rightarrow> string) \<Rightarrow> (nat \<Rightarrow> bool) \<Rightarrow> u64 \<Rightarrow> string option \<Rightarrow> node_settings \<Rightarrow> uuid \<Rightarrow>
     (nat \<Rightarrow> nat \<Rightarrow> start_inputs) \<Rightarrow> (live_vm \<Rightarrow> bool) \<Rightarrow> nat \<Rightarrow> pool list \<Rightarrow> app \<Rightarrow> node_run option" where
  "start_node cd H io now auth s i starts aged clock ps a =
     (case register_node cd H io now auth (registration s i True []) a of
        (Reply _ n, a1) \<Rightarrow>
          let agent = agent_start (ns_cpu_millis s) (ns_memory_mib s) in
          (case maintain_vms starts aged clock (node_id n) ps (app_cluster a1, ag_vms agent, ag_net agent) of
             None \<Rightarrow> None
           | Some (c, v, net) \<Rightarrow> Some (limiter_new (granted_limit s n), with_cluster c a1, v, net))
      | _ \<Rightarrow> None)"

definition heartbeat ::
    "codec \<Rightarrow> (string \<Rightarrow> string) \<Rightarrow> (nat \<Rightarrow> bool) \<Rightarrow> u64 \<Rightarrow> string option \<Rightarrow> node_settings \<Rightarrow> uuid \<Rightarrow>
     (nat \<Rightarrow> nat \<Rightarrow> start_inputs) \<Rightarrow> (live_vm \<Rightarrow> bool) \<Rightarrow> nat \<Rightarrow> pool list \<Rightarrow> node_run \<Rightarrow> node_run option" where
  "heartbeat cd H io now auth s i starts aged clock ps = (\<lambda>(lim, a, v, net).
     (case register_node cd H io now auth (registration s i False (reports v)) a of
        (Reply _ n, a1) \<Rightarrow>
          let lim1 = snd (set_limit (granted_limit s n) lim) in
          (case maintain_vms starts aged clock (node_id n) ps (app_cluster a1, v, net) of
             None \<Rightarrow> None
           | Some (c, v1, net1) \<Rightarrow> Some (lim1, with_cluster c a1, v1, net1))
      | _ \<Rightarrow> None))"

subsection \<open>Work\<close>

text \<open>The report of an execution; \<open>Some(null)\<close> is written as \<open>null\<close> and read as \<open>None\<close>.\<close>

definition completion_request :: "completion \<Rightarrow> complete_request" where
  "completion_request c =
     \<lparr>done_result = (if comp_result c = Some JNull then None else comp_result c), done_error = comp_error c, done_timed_out = Some (comp_timed_out c),
      done_metrics = comp_metrics c, done_keep_idle = comp_keep_idle c\<rparr>"

text \<open>
  One poll, and the task that is spawned for the work it brings, run to its end: the completion is
  sent, and a refusal of it is only logged. \<open>None\<close> when the poll fails.
\<close>

definition serve_work ::
    "codec \<Rightarrow> (string \<Rightarrow> string) \<Rightarrow> (uuid \<Rightarrow> bytes \<Rightarrow> (string, string) hashmap option) \<Rightarrow> (nat \<Rightarrow> nat \<Rightarrow> bool) \<Rightarrow>
     u64 \<Rightarrow> u64 \<Rightarrow> string option \<Rightarrow> uuid \<Rightarrow> run_inputs \<Rightarrow> node_run \<Rightarrow> node_run option" where
  "serve_work cd H unseal io polled finished auth i ri = (\<lambda>(lim, a, v, net).
     (case poll_work cd H unseal (io 0) polled auth i a of
        (Reply _ None, a1) \<Rightarrow> Some (lim, a1, v, net)
      | (Reply _ (Some w), a1) \<Rightarrow>
          (case run_execution ri w (v, net) of (report, (v1, net1), _) \<Rightarrow>
             Some (lim, snd (complete_execution cd H (io 1) finished auth (exec_id (work_execution w))
                 (completion_request report) a1), v1, net1))
      | _ \<Rightarrow> None))"

subsection \<open>A start\<close>

lemma schedule_idle_le:
  assumes "cluster_wf c" "schedule eid c = Some (b, c')" "hm_get (nodes c') j = Some n'"
  shows "\<exists>n. hm_get (nodes c) j = Some n \<and> (\<forall>q. idle_on q n' \<le> idle_on q n)"
  using assms(1)
proof (cases rule: schedule_cases [of c eid])
  case refused
  with assms(2,3) show ?thesis by auto
next
  case (assigned e p n)
  with assms(2,3) show ?thesis
    by (cases "j = node_id n") (auto simp: assigned_cluster_def idle_on_take_slot_le)
qed

lemma schedule_each_idle_le:
  assumes "schedule_each eids c = Some (es, c')" "cluster_wf c" "hm_get (nodes c') j = Some n'"
  shows "\<exists>n. hm_get (nodes c) j = Some n \<and> (\<forall>q. idle_on q n' \<le> idle_on q n)"
  using assms
proof (induction eids arbitrary: c es)
  case (Cons i eids)
  obtain b c1 where s: "schedule i c = Some (b, c1)"
    using schedule_total [OF Cons.prems(2)] by blast
  have wf1: "cluster_wf c1" using schedule_wf [OF Cons.prems(2) s] by simp
  obtain es1 where "schedule_each eids c1 = Some (es1, c')"
    using Cons.prems(1) s by (cases b) (auto split: option.splits)
  from Cons.IH [OF this wf1 Cons.prems(3)] obtain n1 where
    n1: "hm_get (nodes c1) j = Some n1" "\<forall>q. idle_on q n' \<le> idle_on q n1" by blast
  with schedule_idle_le [OF Cons.prems(2) s n1(1)] show ?case by (meson order_trans)
qed auto

lemma hm_length: "hm_wf m \<Longrightarrow> length m = card {k. hm_get m k \<noteq> None}"
proof -
  assume "hm_wf m"
  then have "card (set (map fst m)) = length (map fst m)" unfolding hm_wf_def by (rule distinct_card)
  then have "card (fst ` set m) = length m" by simp
  moreover have "{k. hm_get m k \<noteq> None} = fst ` set m"
    by (auto simp: hm_get_def map_of_eq_None_iff)
  ultimately show ?thesis by simp
qed

text \<open>The cluster that a registration schedules on.\<close>

definition registered_cluster :: "node_settings \<Rightarrow> uuid \<Rightarrow> bool \<Rightarrow> micro_vm list \<Rightarrow> u64 \<Rightarrow> cluster \<Rightarrow> cluster" where
  "registered_cluster s i reset vms now c =
     (let r = registration s i reset vms;
          n = (case hm_get (nodes c) i of Some n \<Rightarrow> n | None \<Rightarrow> new_node i r now);
          c1 = c\<lparr>nodes := hm_insert i (report_node r now n) (nodes c)\<rparr>
      in refresh_node i (if reset then reset_idle_instances i c1 else c1))"

lemma registered_cluster_inv:
  assumes inv: "ctl_inv c"
  shows "ctl_inv (registered_cluster s i reset vms now c)"
proof -
  note wf = wf_parts [OF ctl_invD(1) [OF inv]]
  let ?r = "registration s i reset vms"
  have "ctl_inv (c\<lparr>nodes := hm_insert i (report_node ?r now
      (case hm_get (nodes c) i of Some n \<Rightarrow> n | None \<Rightarrow> new_node i ?r now)) (nodes c)\<rparr>)"
    using nodes_wf_get [OF wf(3)]
    by (intro node_update_inv [OF inv]) (auto simp: report_node_def node_wf_def new_node_def split: option.splits)
  then show ?thesis
    by (auto simp: registered_cluster_def Let_def intro!: refresh_node_inv reset_idle_inv)
qed

lemma refresh_node_get:
  "hm_get (nodes c) i = Some n \<Longrightarrow>
   \<exists>m. hm_get (nodes (refresh_node i c)) i = Some m \<and> (\<forall>q. idle_on q m = idle_on q n)"
  by (auto simp: refresh_node_def idle_on_def)

lemma registered_cluster_idle:
  "\<exists>m. hm_get (nodes (registered_cluster s i True vms now c)) i = Some m \<and> (\<forall>q. idle_on q m = 0)"
proof -
  let ?r = "registration s i True vms"
  let ?n = "report_node ?r now (case hm_get (nodes c) i of Some n \<Rightarrow> n | None \<Rightarrow> new_node i ?r now)"
  let ?c1 = "c\<lparr>nodes := hm_insert i ?n (nodes c)\<rparr>"
  have "hm_get (nodes ?c1) i = Some ?n" by simp
  from reset_idle_node [OF this] obtain n' where
    n': "hm_get (nodes (reset_idle_instances i ?c1)) i = Some n'" "\<And>q. idle_on q n' = 0" by metis
  from refresh_node_get [OF n'(1)] n'(2) show ?thesis by (auto simp: registered_cluster_def Let_def)
qed

lemma registered_cluster_executions [simp]:
  "executions (registered_cluster s i reset vms now c) = executions c"
  by (auto simp: registered_cluster_def Let_def refresh_node_def reset_idle_instances_def split: option.split)

text \<open>What the controller has after a registration.\<close>

lemma registered:
  assumes inv: "ctl_inv (app_cluster a)"
    and reg: "register_node cd H io now auth (registration s i reset vms) a = (Reply st n, a1)"
  shows "ctl_inv (app_cluster a1) \<and> hm_get (nodes (app_cluster a1)) i = Some n \<and> node_id n = i \<and>
    length (executions (app_cluster a1)) = length (executions (app_cluster a)) \<and>
    (reset \<longrightarrow> (\<forall>q. idle_on q n = 0)) \<and>
    (\<exists>es. schedule_queued (registered_cluster s i reset vms now (app_cluster a)) = Some (es, app_cluster a1))"
proof -
  let ?c3 = "registered_cluster s i reset vms now (app_cluster a)"
  have inv1: "ctl_inv (app_cluster a1)"
    using register_node_inv [OF inv, of cd H io now auth "registration s i reset vms"] reg by simp
  have inv3: "ctl_inv ?c3" by (rule registered_cluster_inv [OF inv])
  obtain st' nid where auth: "authenticated_node H auth (app_cluster a) = Reply st' nid"
    using reg by (auto simp: register_node_def as_node_def split: response.splits)
  have nid: "nid = i"
    using reg by (simp add: register_node_def as_node_Reply [OF auth] registration_def split: if_splits)
  have "register_node cd H io now auth (registration s i reset vms) a
      = schedule_and_save cd io (\<lambda>a'. case hm_get (nodes (app_cluster a')) i of Some n' \<Rightarrow> Reply OK n' | None \<Rightarrow> Panic)
          (with_cluster ?c3 a)"
    by (cases reset) (simp_all add: register_node_def as_node_Reply [OF auth [unfolded nid]]
        registered_cluster_def Let_def registration_def)
  with reg obtain es where run: "schedule_queued ?c3 = Some (es, app_cluster a1)"
    and n: "hm_get (nodes (app_cluster a1)) i = Some n"
    by (auto simp: schedule_and_save_def Let_def save_def internal_error_def
        dest!: app_save_executions_cluster split: option.splits if_splits)
  have wf3: "cluster_wf ?c3" by (rule ctl_invD(1) [OF inv3])
  have wf1: "cluster_wf (app_cluster a1)" by (rule ctl_invD(1) [OF inv1])
  have "node_id n = i" using wf1 n by (auto simp: cluster_wf_def dest: nodes_wf_get)
  moreover have "length (executions (app_cluster a1)) = length (executions (app_cluster a))"
  proof -
    have "hm_wf (executions (app_cluster a1))" "hm_wf (executions (app_cluster a))"
      using wf_parts(4) [OF wf1] wf_parts(4) [OF ctl_invD(1) [OF inv]] by (simp_all add: keyed_def)
    then show ?thesis using schedule_queued_dom [OF wf3 run] by (simp add: hm_length)
  qed
  moreover have "\<forall>q. idle_on q n = 0" if reset
  proof -
    from that registered_cluster_idle [of s i vms now "app_cluster a"]
    obtain m where m: "hm_get (nodes ?c3) i = Some m" "\<forall>q. idle_on q m = 0" by auto
    from schedule_each_idle_le [OF run [unfolded schedule_queued_def] wf3 n] m
    show ?thesis by auto
  qed
  ultimately show ?thesis using inv1 n run by blast
qed

text \<open>A node without machines, after a registration that reset its counters.\<close>

lemma fresh_node_system_ok:
  assumes "cluster_wf c" "hm_get (nodes c) i = Some n" "\<forall>q. idle_on q n = 0"
    and "length (executions c) < 2 ^ 32" "idle_vms v = []"
  shows "system_ok i (\<lambda>_. (0, 0)) UNIV (c, v, net)"
proof -
  have "active_on i q c < 2 ^ 32" for q
  proof -
    have "active_on i q c \<le> length (executions c)"
      unfolding active_on_def by (rule order_trans [OF length_filter_le]) (simp add: hm_values_def)
    then show ?thesis using assms(4) by simp
  qed
  then show ?thesis using assms by (simp add: system_ok_def differs_def roomy_def)
qed


definition demo_settings :: node_settings where
  "demo_settings = \<lparr>ns_name = ''n3'', ns_cpu_millis = 4000, ns_memory_mib = 8192, ns_concurrency = Some 0,
     ns_address = V6 1\<rparr>"

lemma demo_registers:
  "\<exists>n a'. register_node demo_codec (\<lambda>t. t) (\<lambda>_. True) 7 (Some ''Bearer k3'') (registration demo_settings 3 True [])
     (demo_app\<lparr>app_cluster := demo_live\<lparr>executions := []\<rparr>\<rparr>) = (Reply OK n, a')"
  by (simp add: register_node_def as_node_def authenticated_node_def same_hash_eq strip_prefix_def registration_def
      demo_live_def demo_defs hm_defs schedule_and_save_def refresh_node_def reset_idle_instances_def
      schedule_queued_def queued_order_def Let_def save_def app_save_executions_def)


subsection \<open>Serving work\<close>

text \<open>C19: work that a node has fetched comes to its end: whatever happens on the node and whatever the
  guest answers, the report is accepted and the execution leaves the memory of the controller, even
  when the database fails behind it; every other execution stays, unless it was queued and is
  assigned now; the invariant of the controller holds.\<close>

theorem served_work_ends:
  assumes inv: "ctl_inv (app_cluster a)"
    and poll: "poll_work cd H unseal (io 0) polled auth i a = (Reply st (Some w), a1)"
  shows "\<exists>a' v' net'. serve_work cd H unseal io polled finished auth i ri (lim, a, v, net) = Some (lim, a', v', net') \<and>
    ctl_inv (app_cluster a') \<and> hm_get (executions (app_cluster a')) (exec_id (work_execution w)) = None \<and>
    (\<forall>j x. hm_get (executions (app_cluster a)) j = Some x \<longrightarrow> j \<noteq> exec_id (work_execution w) \<longrightarrow>
      (\<exists>x'. hm_get (executions (app_cluster a')) j = Some x' \<and>
        (x' = x \<or> exec_status x = Queued \<and> (\<exists>n. x' = assign_execution x n))))"
proof -
  obtain st' e where auth: "authenticated_node H auth (app_cluster a) = Reply st' i"
    and e: "hm_get (executions (app_cluster a)) (exec_id e) = Some e" "waiting_for i e"
      "work_execution w = start_execution polled e"
      "app_cluster a1 = (app_cluster a)\<lparr>executions :=
         hm_insert (exec_id e) (start_execution polled e) (executions (app_cluster a))\<rparr>"
    using poll_work_answers [OF inv poll] by auto
  have inv1: "ctl_inv (app_cluster a1)"
    using poll_work_inv [OF inv, of cd H unseal "io 0" polled auth i] poll by simp
  have id: "exec_id (work_execution w) = exec_id e" by (simp add: e(3) start_execution_def)
  have got: "hm_get (executions (app_cluster a1)) (exec_id (work_execution w)) = Some (start_execution polled e)"
    "exec_node (start_execution polled e) = Some i"
    using e(2) by (simp_all add: e(4) id start_execution_def waiting_for_def)
  have "node_credentials (app_cluster a1) = node_credentials (app_cluster a)" by (simp add: e(4))
  then have auth1: "authenticated_node H auth (app_cluster a1) = Reply st' i"
    using auth by (simp only: authenticated_node_def)
  obtain report v' net' req where run: "run_execution ri w (v, net) = (report, (v', net'), req)"
    by (metis surj_pair)
  define a' where "a' = snd (complete_execution cd H (io 1) finished auth (exec_id (work_execution w))
    (completion_request report) a1)"
  have "serve_work cd H unseal io polled finished auth i ri (lim, a, v, net) = Some (lim, a', v', net')"
    by (simp add: serve_work_def poll run a'_def)
  moreover have "ctl_inv (app_cluster a')"
    unfolding a'_def by (rule complete_execution_inv [OF inv1])
  moreover note complete_execution_takes_out [OF inv1 got auth1 a'_def]
  ultimately show ?thesis using e(4) id by auto
qed

theorem served_work_ends_witness:
  "\<exists>w a1 a' v' net'. poll_work demo_codec (\<lambda>t. t) (\<lambda>_ _. Some []) (\<lambda>_. True) 7 (Some ''Bearer k3'') 3 demo_app
      = (Reply OK (Some w), a1) \<and>
    serve_work demo_codec (\<lambda>t. t) (\<lambda>_ _. Some []) (\<lambda>_ _. True) 7 9 (Some ''Bearer k3'') 3 demo_run
      (limiter_new 1, demo_app, demo_agent_vms, network_start) = Some (limiter_new 1, a', v', net') \<and>
    hm_get (executions (app_cluster a')) (exec_id (work_execution w)) = None"
proof -
  obtain w a1 where poll: "poll_work demo_codec (\<lambda>t. t) (\<lambda>_ _. Some []) (\<lambda>_. True) 7 (Some ''Bearer k3'') 3 demo_app
      = (Reply OK (Some w), a1)"
    using demo_poll by blast
  have "ctl_inv (app_cluster demo_app)" by (simp add: demo_app_cluster demo_live_inv)
  from served_work_ends [where io = "\<lambda>_ _. True", OF this poll] poll show ?thesis by blast
qed

subsection \<open>What a restart and an overtaking completion leave\<close>

text \<open>
  A node that restarts resets its idle machines, and nothing else: an execution that was running on
  it, whose machine died with it, stays as running. No poll hands it out again, so that it ends
  only with the controller.
\<close>

lemma restart_leaves_running:
  assumes "ctl_inv (app_cluster a)"
    and "register_node cd H io now auth (registration s i reset vms) a = (Reply st n, a1)"
    and "hm_get (executions (app_cluster a)) j = Some e" "exec_status e = Running"
  shows "hm_get (executions (app_cluster a1)) j = Some e \<and> \<not> waiting_for i e"
proof -
  obtain es where run: "schedule_queued (registered_cluster s i reset vms now (app_cluster a)) = Some (es, app_cluster a1)"
    using registered [OF assms(1,2)] by blast
  have wf: "cluster_wf (registered_cluster s i reset vms now (app_cluster a))"
    by (rule ctl_invD(1) [OF registered_cluster_inv [OF assms(1)]])
  have "hm_get (executions (app_cluster a1)) j \<noteq> None"
    using schedule_queued_dom [OF wf run, of j] assms(3) by simp
  then obtain e' where e': "hm_get (executions (app_cluster a1)) j = Some e'" by blast
  have "e' = e"
    using wf run e' by (cases rule: schedule_queued_exec) (use assms(3,4) in auto)
  then show ?thesis using e' assms(4) by (simp add: waiting_for_def)
qed

lemma release_node:
  assumes "hm_get (executions c) j = Some e" "exec_node e = Some nid"
    and "hm_get (pools c) (exec_pool e) = Some p" "hm_get (nodes c) nid = Some n"
  shows "hm_get (nodes (release j k c)) nid = Some (release_slot p k n)"
  using assms by (simp add: release_def)

text \<open>
  An execution is scheduled on a node without idle machines, for a new one. Before the node starts
  it, another execution of the pool ends there, and its machine is kept: the new execution takes
  that machine. When it is kept again, the controller counts two idle machines and the node has one.
\<close>

lemma overtaking_completion_leaves_phantom:
  assumes "cluster_wf c" "counted nid c (idle_vms s)" "idle_of (exec_pool x) (idle_vms s) = 0"
    and "hm_get (executions c) e1 = Some x" "exec_node x = Some nid" "e1 \<noteq> e2"
    and "schedule e2 c = Some (True, c1)" "hm_get (executions c1) e2 = Some y" "exec_node y = Some nid"
      "exec_pool y = exec_pool x"
    and "finish_run ri1 w1 vm (s, net) = (report1, (s1, net1))" "comp_keep_idle report1"
      "pool_name (work_pool w1) = exec_pool x" "pool_name (live_pool vm) = exec_pool x"
    and "run_execution ri2 w2 (s1, net1) = (report2, (s2, net2), req)" "comp_keep_idle report2"
      "pool_name (work_pool w2) = exec_pool x" "\<not> too_large (work_pool w2) s1"
      "wanted_dir w2 = None \<or> ri_working_dir ri2 = None"
  shows "\<exists>n. hm_get (nodes (release e2 (comp_keep_idle report2) (release e1 (comp_keep_idle report1) c1))) nid = Some n \<and>
    unat (idle_on (exec_pool x) n) = 2 \<and> idle_of (exec_pool x) (idle_vms s2) = 1"
  using assms(1)
proof (cases rule: schedule_cases [of c e2])
  case refused
  with assms(7) show ?thesis by simp
next
  case (assigned e p n)
  have c1: "c1 = assigned_cluster e2 e p n c" using assigned(1) assms(7) by simp
  have y: "y = assign_execution e nid" "node_id n = nid"
    using assms(8,9) by (auto simp: c1 assigned_cluster_def assign_execution_def)
  have p: "hm_get (pools c) (exec_pool x) = Some p" "pool_name p = exec_pool x"
    using assigned(2) assms(1,10) y(1)
    by (auto simp: placeable_Some assign_execution_def cluster_wf_def dest: keyed_get)
  have "unat (idle_on (exec_pool x) n) = 0"
    using assms(2,3) assigned(3) y(2) by (auto simp: counted_def)
  then have none: "idle_on (exec_pool x) n = 0" by (simp add: unat_eq_0)
  have freed: "hm_get (nodes (release e1 True c1)) nid = Some (release_slot p True (take_slot p n))"
    by (rule release_node [where e = x]) (use assms(4-6) p(1) y(2) in \<open>simp_all add: c1 assigned_cluster_def\<close>)
  have "hm_get (nodes (release e2 True (release e1 True c1))) nid
      = Some (release_slot p True (release_slot p True (take_slot p n)))"
    by (rule release_node [where e = y]) (use assms(8-10) p(1) freed in \<open>simp_all add: c1 assigned_cluster_def\<close>)
  moreover have "idle_on (exec_pool x) (release_slot p True (release_slot p True (take_slot p n))) = 2"
    using none p(2) by (simp add: release_slot_def take_slot_def Let_def)
  moreover have "idle_of (exec_pool x) (idle_vms s2) = 1"
    using run_execution_counts [OF assms(15,19,18), of "exec_pool x"] finish_run_counts [OF assms(11), of "exec_pool x"]
      assms(3,12-14,16,17) by simp
  ultimately show ?thesis using assms(12,16) by simp
qed

end
