(* ===== verification/Command_Line.thy ===== *)
theory Command_Line
  imports Node_Service
begin

section \<open>The command line and the service of a node\<close>

text \<open>
  \<open>platform/src/main.rs\<close>: the three commands with their arguments and defaults, and what \<open>main\<close> calls
  for them; the line by which \<open>platform/deploy/scraperack-node.service\<close> starts a node. The argument
  library and systemd are parameters: \<open>opts\<close> is the value given to each long option, \<open>env\<close> the
  environment. Then a machine from its enrolment by \<open>join\<close> to the registration it sends when its
  service starts.
\<close>

record controller_options =
  co_listen :: string
  co_data_dir :: string

record node_options =
  no_controller :: string
  no_name :: string
  no_cpu_millis :: u32
  no_memory_mib :: u32
  no_vm_start_concurrency :: "usize option"
  no_data_dir :: string
  no_firecracker :: string
  no_kernel :: string
  no_advertise_address :: "ip_addr option"

record join_options =
  jo_controller :: string
  jo_token :: string
  jo_name :: "string option"
  jo_config :: string
  jo_data_dir :: string
  jo_controller_data_dir :: string

datatype command_line = RunController controller_options | RunNode node_options | RunJoin join_options

subsection \<open>Arguments\<close>

definition parse_u32 :: "string \<Rightarrow> u32 option" where
  "parse_u32 s = map_option of_nat (parse_unsigned (2 ^ 32 - 1) s)"

definition parse_usize :: "string \<Rightarrow> usize option" where
  "parse_usize s = map_option of_nat (parse_unsigned (2 ^ 64 - 1) s)"

text \<open>An argument that may be left out, with a default or without.\<close>

definition with_default :: "(string \<Rightarrow> 'a option) \<Rightarrow> 'a \<Rightarrow> string option \<Rightarrow> 'a option" where
  "with_default parse d given = (case given of None \<Rightarrow> Some d | Some s \<Rightarrow> parse s)"

definition if_given :: "(string \<Rightarrow> 'a option) \<Rightarrow> string option \<Rightarrow> 'a option option" where
  "if_given parse given = (case given of None \<Rightarrow> Some None | Some s \<Rightarrow> map_option Some (parse s))"

definition given_or :: "string \<Rightarrow> string option \<Rightarrow> string" where
  "given_or d given = (case given of None \<Rightarrow> d | Some s \<Rightarrow> s)"

text \<open>\<open>socket\<close> and \<open>ip\<close> read a socket address and an IP address.\<close>

definition controller_arguments ::
    "(string \<Rightarrow> string option) \<Rightarrow> (string \<Rightarrow> string option) \<Rightarrow> controller_options option" where
  "controller_arguments socket opts =
     map_option (\<lambda>l. \<lparr>co_listen = l, co_data_dir = given_or ''data/controller'' (opts ''data-dir'')\<rparr>)
       (with_default socket ''0.0.0.0:7070'' (opts ''listen''))"

definition node_arguments :: "(string \<Rightarrow> ip_addr option) \<Rightarrow> (string \<Rightarrow> string option) \<Rightarrow> node_options option" where
  "node_arguments ip opts =
     (case (opts ''controller'', opts ''name'') of
        (Some controller, Some name) \<Rightarrow>
          (case (with_default parse_u32 8000 (opts ''cpu-millis''),
                 with_default parse_u32 16384 (opts ''memory-mib''),
                 if_given parse_usize (opts ''vm-start-concurrency''),
                 if_given ip (opts ''advertise-address'')) of
             (Some cpu, Some memory, Some concurrency, Some address) \<Rightarrow>
               Some \<lparr>no_controller = controller, no_name = name, no_cpu_millis = cpu, no_memory_mib = memory,
                 no_vm_start_concurrency = concurrency,
                 no_data_dir = given_or ''data/node'' (opts ''data-dir''),
                 no_firecracker = given_or ''/usr/local/bin/firecracker'' (opts ''firecracker''),
                 no_kernel = given_or ''/var/lib/scraperack-node/vmlinux'' (opts ''kernel''),
                 no_advertise_address = address\<rparr>
           | _ \<Rightarrow> None)
      | _ \<Rightarrow> None)"

definition join_command :: "(string \<Rightarrow> string option) \<Rightarrow> join_options option" where
  "join_command opts =
     (case (opts ''controller'', opts ''token'') of
        (Some controller, Some token) \<Rightarrow>
          Some \<lparr>jo_controller = controller, jo_token = token, jo_name = opts ''name'',
            jo_config = given_or ''/etc/scraperack/node.env'' (opts ''config''),
            jo_data_dir = given_or ''/var/lib/scraperack-node'' (opts ''data-dir''),
            jo_controller_data_dir = given_or ''/var/lib/scraperack-controller'' (opts ''controller-data-dir'')\<rparr>
      | _ \<Rightarrow> None)"

definition command_arguments ::
    "(string \<Rightarrow> string option) \<Rightarrow> (string \<Rightarrow> ip_addr option) \<Rightarrow> string \<Rightarrow> (string \<Rightarrow> string option) \<Rightarrow>
     command_line option" where
  "command_arguments socket ip cmd opts =
     (if cmd = ''controller'' then map_option RunController (controller_arguments socket opts)
      else if cmd = ''node'' then map_option RunNode (node_arguments ip opts)
      else if cmd = ''join'' then map_option RunJoin (join_command opts)
      else None)"

text \<open>What \<open>main\<close> calls; the credential of a node comes from the environment.\<close>

definition run_command ::
    "(controller_options \<Rightarrow> 'r) \<Rightarrow> (node_options \<Rightarrow> string option \<Rightarrow> 'r) \<Rightarrow> (join_options \<Rightarrow> 'r) \<Rightarrow>
     (string \<Rightarrow> string option) \<Rightarrow> command_line \<Rightarrow> 'r" where
  "run_command serve node join env cmd =
     (case cmd of
        RunController q \<Rightarrow> serve q
      | RunNode q \<Rightarrow> node q (env CREDENTIAL)
      | RunJoin q \<Rightarrow> join q)"

text \<open>The arguments as the commands use them.\<close>

definition join_arguments_of :: "join_options \<Rightarrow> join_arguments" where
  "join_arguments_of q =
     \<lparr>ja_controller = jo_controller q, ja_token = jo_token q, ja_name = jo_name q,
      ja_config_path = jo_config q, ja_node_id_path = jo_data_dir q @ ''/node-id'', ja_data_dir = jo_data_dir q\<rparr>"

definition node_settings_of :: "node_options \<Rightarrow> ip_addr \<Rightarrow> node_settings" where
  "node_settings_of q detected =
     \<lparr>ns_name = no_name q, ns_cpu_millis = no_cpu_millis q, ns_memory_mib = no_memory_mib q,
      ns_concurrency = no_vm_start_concurrency q,
      ns_address = (case no_advertise_address q of Some ip \<Rightarrow> ip | None \<Rightarrow> detected)\<rparr>"

subsection \<open>The service\<close>

definition flags :: "(string \<times> string) list \<Rightarrow> string list" where
  "flags ps = concat (map (\<lambda>(k, v). [''--'' @ k, v]) ps)"

text \<open>A variable that is not set is replaced by nothing.\<close>

definition variable :: "(string \<Rightarrow> string option) \<Rightarrow> string \<Rightarrow> string" where
  "variable env k = given_or [] (env k)"

definition unit_flags :: "(string \<Rightarrow> string option) \<Rightarrow> (string \<times> string) list" where
  "unit_flags env =
     [(''controller'', variable env CONTROLLER), (''name'', variable env NODE_NAME),
      (''cpu-millis'', variable env CPU_MILLIS), (''memory-mib'', variable env MEMORY_MIB),
      (''vm-start-concurrency'', variable env CONCURRENCY),
      (''data-dir'', ''/var/lib/scraperack-node''), (''firecracker'', ''/usr/local/bin/firecracker''),
      (''kernel'', ''/var/lib/scraperack-node/vmlinux'')]"

definition unit_line :: "(string \<Rightarrow> string option) \<Rightarrow> string list" where
  "unit_line env = ''node'' # flags (unit_flags env)"

text \<open>
  The documented behaviour that the service relies on: systemd reads a file of plain \<open>KEY=value\<close> lines as
  these assignments, and the argument library reads each long option once, with the value after it, which
  must not begin with a dash.
\<close>

definition plain_value :: "string \<Rightarrow> bool" where
  "plain_value v \<longleftrightarrow> list_all (\<lambda>c. let n = (of_char c :: nat) in 33 \<le> n \<and> n \<le> 126 \<and> n \<notin> {34, 39, 92}) v"

definition variable_name :: "string \<Rightarrow> bool" where
  "variable_name k \<longleftrightarrow> k \<noteq> [] \<and>
     list_all (\<lambda>c. let n = (of_char c :: nat) in 65 \<le> n \<and> n \<le> 90 \<or> n = 95) k"

definition reads_environment :: "(string \<Rightarrow> string \<Rightarrow> string option) \<Rightarrow> bool" where
  "reads_environment f \<longleftrightarrow> (\<forall>entries.
     (\<forall>(k, v) \<in> set entries. variable_name k \<and> plain_value v) \<and> distinct (map fst entries) \<longrightarrow>
     f (config_text entries) = map_of entries)"

definition NODE_OPTIONS :: "string list" where
  "NODE_OPTIONS = [''controller'', ''name'', ''cpu-millis'', ''memory-mib'', ''vm-start-concurrency'', ''data-dir'',
     ''firecracker'', ''kernel'', ''advertise-address'']"

definition reads_arguments :: "(string list \<Rightarrow> (string \<times> (string \<Rightarrow> string option)) option) \<Rightarrow> bool" where
  "reads_arguments f \<longleftrightarrow> (\<forall>ps.
     (\<forall>(k, v) \<in> set ps. k \<in> set NODE_OPTIONS \<and> \<not> starts_with ''-'' v) \<and> distinct (map fst ps) \<longrightarrow>
     f (''node'' # flags ps) = Some (''node'', map_of ps))"

text \<open>The call of \<open>node::run\<close> that the service makes, if it makes one.\<close>

definition service_call ::
    "(string list \<Rightarrow> (string \<times> (string \<Rightarrow> string option)) option) \<Rightarrow> (string \<Rightarrow> string option) \<Rightarrow>
     (string \<Rightarrow> ip_addr option) \<Rightarrow> (string \<Rightarrow> string option) \<Rightarrow> (node_options \<times> string option) option" where
  "service_call args socket ip env =
     Option.bind (args (unit_line env)) (\<lambda>(cmd, opts).
     Option.bind (command_arguments socket ip cmd opts)
       (run_command (\<lambda>_. None) (\<lambda>q credential. Some (q, credential)) (\<lambda>_. None) env))"

lemma parse_unsigned_plain:
  assumes "parse_unsigned limit s = Some n"
  shows "plain_value s \<and> \<not> starts_with ''-'' s"
proof -
  obtain c cs where s: "s = c # cs" using assms by (cases s) (simp_all add: parse_unsigned_def)
  have plain: "plain_value t" if "list_all is_digit t" for t
    using that by (auto simp: plain_value_def is_digit_def list_all_iff Let_def)
  have digits: "list_all is_digit (if c = CHR ''+'' then cs else s)"
    using assms by (auto simp: s parse_unsigned_def parse_digits_def split: if_splits)
  show ?thesis
  proof (cases "c = CHR ''+''")
    case True
    then have "plain_value cs" using digits plain by simp
    with True show ?thesis by (simp add: s plain_value_def starts_with_def)
  next
    case False
    with digits have "list_all is_digit s" by simp
    then show ?thesis using plain [of s] by (auto simp: s starts_with_def is_digit_def)
  qed
qed

lemma valid_name_is_plain: "valid_name n \<Longrightarrow> plain_value n"
  by (auto simp: valid_name_def plain_value_def name_char_def list_all_iff Let_def)

lemma plain_values_read:
  assumes "reads_environment environment"
    and "plain_value u" "plain_value c" "plain_value n" "plain_value p" "plain_value m" "plain_value l"
  shows "environment (config_text (config_entries u c n p m l)) = map_of (config_entries u c n p m l)"
proof -
  have "\<forall>(k, v) \<in> set (config_entries u c n p m l). variable_name k \<and> plain_value v"
    using assms(2-) by (simp add: config_entries_def variable_name_def CONTROLLER_def CREDENTIAL_def NODE_NAME_def
        CPU_MILLIS_def MEMORY_MIB_def CONCURRENCY_def)
  moreover have "distinct (map fst (config_entries u c n p m l))"
    by (simp add: config_entries_def CONTROLLER_def CREDENTIAL_def NODE_NAME_def
        CPU_MILLIS_def MEMORY_MIB_def CONCURRENCY_def)
  ultimately show ?thesis
    using assms(1) unfolding reads_environment_def by blast
qed

lemma parse_unsigned_le: "parse_unsigned limit s = Some n \<Longrightarrow> n \<le> limit"
  by (auto simp: parse_unsigned_def parse_digits_def Let_def split: list.splits if_splits)

text \<open>The limit that \<open>join\<close> writes for a processor share is the one the node would take by itself.\<close>

lemma default_limit_agrees:
  assumes "parse_u32 t = Some cpu"
  shows "parse_usize (default_concurrency_text t) = Some (default_vm_start_concurrency cpu)"
proof -
  obtain n where n: "parse_unsigned (2 ^ 32 - 1) t = Some n" "cpu = of_nat n"
    using assms by (auto simp: parse_u32_def)
  from parse_unsigned_le [OF n(1)] have small: "n < 2 ^ 32" by simp
  have "n div 2000 \<le> n" by (rule div_le_dividend)
  with small have "max (n div 2000) 1 \<le> 2 ^ 64 - 1" by simp
  then have "parse_unsigned (2 ^ 64 - 1) (decimal (max (n div 2000) 1)) = Some (max (n div 2000) 1)"
    by (rule parse_decimal)
  moreover have "default_vm_start_concurrency cpu = of_nat (max (n div 2000) 1)"
  proof -
    have "unat cpu = n" using small n(2) by (simp add: unat_of_nat)
    then have "unat (cpu div 2000) = n div 2000" by (simp add: unat_div)
    then have "unat (max (cpu div 2000) 1) = max (n div 2000) 1"
      by (simp add: max_def word_le_nat_alt)
    then show ?thesis
      using of_nat_unat [of "max (cpu div 2000) 1", where 'a = "64 word", symmetric]
      by (simp add: default_vm_start_concurrency_def)
  qed
  ultimately show ?thesis by (simp add: parse_usize_def default_concurrency_text_def n(1) [simplified])
qed

lemma trim_slashes_url:
  assumes "starts_with ''http'' u"
  shows "\<not> starts_with ''-'' (trim_slashes u)"
proof -
  from assms obtain r where u: "u = CHR ''h'' # r"
    by (cases u) (auto simp: starts_with_def)
  have "trim_slashes u = CHR ''h'' # trim_slashes r"
    by (simp add: trim_slashes_def u dropWhile_append)
  then show ?thesis by (simp add: starts_with_def)
qed

lemma joined_url:
  assumes "join_run show_id parse ji args = (actions, None)"
  shows "starts_with ''http'' (ja_controller args)"
proof (rule ccontr)
  let ?u = "ja_controller args"
  assume no: "\<not> starts_with ''http'' ?u"
  have "starts_with ''http'' ?u" if "starts_with (''http'' @ r) ?u" for r
  proof -
    have "take 4 (take (length (''http'' @ r)) ?u) = take 4 (''http'' @ r)" using that by (simp only: starts_with_def)
    then show ?thesis by (simp add: starts_with_def)
  qed
  from this [of "''://''"] this [of "''s://''"] no
  have "\<not> starts_with ''http://'' ?u" "\<not> starts_with ''https://'' ?u" by auto
  then have "join_run show_id parse ji args = ([], Some ''controller must be an http or https URL'')"
    by (simp add: join_run_def)
  with assms show False by simp
qed

lemma service_runs_node:
  assumes "reads_arguments args"
    and "env CONTROLLER = Some u" "env NODE_NAME = Some n" "env CPU_MILLIS = Some p" "env MEMORY_MIB = Some m"
    and "env CONCURRENCY = Some l"
    and "\<not> starts_with ''-'' u" "\<not> starts_with ''-'' n" "parse_u32 p = Some cpu" "parse_u32 m = Some memory"
    and "parse_usize l = Some limit"
  shows "service_call args socket ip env =
    Some (\<lparr>no_controller = u, no_name = n, no_cpu_millis = cpu, no_memory_mib = memory,
      no_vm_start_concurrency = Some limit, no_data_dir = ''/var/lib/scraperack-node'',
      no_firecracker = ''/usr/local/bin/firecracker'', no_kernel = ''/var/lib/scraperack-node/vmlinux'',
      no_advertise_address = None\<rparr>, env CREDENTIAL)"
proof -
  have unit: "unit_flags env = [(''controller'', u), (''name'', n), (''cpu-millis'', p), (''memory-mib'', m),
      (''vm-start-concurrency'', l), (''data-dir'', ''/var/lib/scraperack-node''),
      (''firecracker'', ''/usr/local/bin/firecracker''), (''kernel'', ''/var/lib/scraperack-node/vmlinux'')]"
    by (simp add: unit_flags_def variable_def given_or_def assms(2-6))
  have digits: "\<not> starts_with ''-'' p" "\<not> starts_with ''-'' m" "\<not> starts_with ''-'' l"
    using assms(9-11) parse_unsigned_plain by (auto simp: parse_u32_def parse_usize_def)
  have "(\<forall>(k, v) \<in> set (unit_flags env). k \<in> set NODE_OPTIONS \<and> \<not> starts_with ''-'' v) \<and>
      distinct (map fst (unit_flags env))"
    unfolding unit using digits assms(7,8) by (simp add: NODE_OPTIONS_def) (simp add: starts_with_def)
  then have "args (unit_line env) = Some (''node'', map_of (unit_flags env))"
    using assms(1) unfolding reads_arguments_def unit_line_def by blast
  then show ?thesis
    by (simp add: service_call_def command_arguments_def node_arguments_def unit with_default_def if_given_def
        given_or_def assms(9-11) run_command_def)
qed

text \<open>C40: A machine that has joined starts as the node it joined as: from the configuration that \<open>join\<close> wrote,
  its service calls \<open>node::run\<close> with the address of the controller, the name, the processor and memory
  shares the machine had, and the credential the controller issued; the limit of concurrent starts is the
  one of the old configuration, or the node's own default; and with the identity file that \<open>join\<close> wrote,
  the node takes that identity and that credential and does not enrol again. The address and the credential
  are plain values, the credential is not empty, the old shares and limit are numbers in range, and the name
  does not begin with a dash.\<close>

theorem joined_machine_starts_as_itself:
  assumes "join_run show_id parse ji args = (actions, None)"
    and "ji_config ji = Some current" "ji_hostname ji = Some hostname"
    and "name = (case ja_name args of Some n \<Rightarrow> n | None \<Rightarrow> trim hostname)" "\<not> starts_with ''-'' name"
    and "Option.bind (config_value current CPU_MILLIS) parse_u32 = Some cpu"
    and "Option.bind (config_value current MEMORY_MIB) parse_u32 = Some memory"
    and "if_given parse_usize (config_value current CONCURRENCY) = Some limit"
    and "ji_credentials ji = Some (node, credential)" "credential \<noteq> []" "plain_value credential"
    and "plain_value (ja_controller args)" "parse (trim (show_id node)) = Some node"
    and "reads_environment environment" "reads_arguments clap"
  shows "\<exists>config q.
      {WritePath (ja_config_path args) config, WritePath (ja_node_id_path args) (show_id node)} \<subseteq> set actions \<and>
      service_call clap socket ip (environment config) = Some (q, Some credential) \<and>
      no_controller q = trim_slashes (ja_controller args) \<and> no_name q = name \<and>
      no_cpu_millis q = cpu \<and> no_memory_mib q = memory \<and>
      local_limit (node_settings_of q detected) =
        max (case limit of Some n \<Rightarrow> n | None \<Rightarrow> default_vm_start_concurrency cpu) 1 \<and>
      enrolment parse (FileText (show_id node)) (Some credential) enrol =
        Some (node, credential, False)"
proof -
  obtain host p m target i c where s: "ji_hostname ji = Some host"
    "valid_name (case ja_name args of Some n \<Rightarrow> n | None \<Rightarrow> trim host)"
    "config_value current CPU_MILLIS = Some p" "config_value current MEMORY_MIB = Some m"
    "ji_identity ji = Some target" "is_local_controller parse (ji_controller_id ji) target = Some False"
    "ji_credentials ji = Some (i, c)"
    "actions = AskIdentity (trim_slashes (ja_controller args) @ ''/internal/identity'')
       # RedeemToken (trim_slashes (ja_controller args) @ ''/internal/join'') (ja_token args)
       # install_node show_id args
           (config_text (config_entries (trim_slashes (ja_controller args)) c
              (case ja_name args of Some n \<Rightarrow> n | None \<Rightarrow> trim host) p m
              (case config_value current CONCURRENCY of
                 Some n \<Rightarrow> n | None \<Rightarrow> default_concurrency_text p))) i"
    by (rule join_success [OF assms(1), unfolded assms(2) option.case])
  have name: "name = (case ja_name args of Some n \<Rightarrow> n | None \<Rightarrow> trim host)" "i = node" "c = credential"
    using s(1,7) assms(3,9) by (auto simp: assms(4))
  define u where "u = trim_slashes (ja_controller args)"
  define l where "l = (case config_value current CONCURRENCY of Some n \<Rightarrow> n | None \<Rightarrow> default_concurrency_text p)"
  define config where "config = config_text (config_entries u credential name p m l)"
  have parsed: "parse_u32 p = Some cpu" "parse_u32 m = Some memory"
    using assms(6,7) s(3,4) by simp_all
  have l: "parse_usize l = Some (case limit of Some n \<Rightarrow> n | None \<Rightarrow> default_vm_start_concurrency cpu)"
    using assms(8) default_limit_agrees [OF parsed(1)]
    by (auto simp: l_def if_given_def split: option.splits)
  have "starts_with ''http'' (ja_controller args)" by (rule joined_url [OF assms(1)])
  from trim_slashes_url [OF this] have url: "\<not> starts_with ''-'' u" by (simp add: u_def)
  have "plain_value u"
    using assms(12) trim_slashes_set [of "ja_controller args"] by (auto simp: u_def plain_value_def list_all_iff)
  moreover have "plain_value p" "plain_value m" "plain_value l"
    using parsed l parse_unsigned_plain by (auto simp: parse_u32_def parse_usize_def)
  ultimately have env: "environment config = map_of (config_entries u credential name p m l)"
    unfolding config_def using assms(11,14) s(2) name(1) by (intro plain_values_read) (simp_all add: valid_name_is_plain)
  have vars: "environment config CONTROLLER = Some u" "environment config NODE_NAME = Some name"
    "environment config CPU_MILLIS = Some p" "environment config MEMORY_MIB = Some m"
    "environment config CONCURRENCY = Some l" "environment config CREDENTIAL = Some credential"
    by (simp_all add: env config_entries_def CONTROLLER_def CREDENTIAL_def NODE_NAME_def
        CPU_MILLIS_def MEMORY_MIB_def CONCURRENCY_def)
  note call = service_runs_node [OF assms(15) vars(1-5) url assms(5) parsed l, of socket ip, unfolded vars(6)]
  have "{WritePath (ja_config_path args) config, WritePath (ja_node_id_path args) (show_id node)} \<subseteq> set actions"
    by (simp add: s(8) install_node_def config_def u_def l_def name [symmetric])
  moreover have "enrolment parse (FileText (show_id node)) (Some credential) enrol = Some (node, credential, False)"
    using assms(10,13) by (simp add: enrolment_def stored_id_def given_credential_def)
  ultimately show ?thesis
    using call by (intro exI conjI) (assumption | simp add: u_def local_limit_def node_settings_of_def)+
qed

text \<open>Readers that do what is asked of systemd and of the argument library.\<close>

definition simple_environment :: "string \<Rightarrow> string \<Rightarrow> string option" where
  "simple_environment text k = (if CHR ''='' \<in> set k then None else config_value text k)"

fun read_flags :: "string list \<Rightarrow> (string \<times> string) list" where
  "read_flags (k # v # rest) = (drop 2 k, v) # read_flags rest"
| "read_flags _ = []"

definition simple_arguments :: "string list \<Rightarrow> (string \<times> (string \<Rightarrow> string option)) option" where
  "simple_arguments line = (case line of [] \<Rightarrow> None | cmd # rest \<Rightarrow> Some (cmd, map_of (read_flags rest)))"

lemma simple_arguments_read: "reads_arguments simple_arguments"
proof -
  have "read_flags (flags ps) = ps" for ps
    by (induction ps) (auto simp: flags_def)
  then show ?thesis by (simp add: reads_arguments_def simple_arguments_def)
qed

lemma variable_name_no_equals: "variable_name k \<Longrightarrow> CHR ''='' \<notin> set k \<and> LF \<notin> set k \<and> CR \<notin> set k"
  by (auto simp: variable_name_def list_all_iff Let_def LF_def CR_def)

lemma plain_value_line: "plain_value v \<Longrightarrow> LF \<notin> set v \<and> CR \<notin> set v"
  by (auto simp: plain_value_def list_all_iff Let_def LF_def CR_def)

lemma simple_environment_reads: "reads_environment simple_environment"
  unfolding reads_environment_def
proof (intro allI impI ext)
  fix entries key
  assume ok: "(\<forall>(k, v) \<in> set entries. variable_name k \<and> plain_value v) \<and> distinct (map fst entries)"
  have lines: "\<forall>(k, v) \<in> set entries. CHR ''='' \<notin> set k \<and> plain_line (k @ ''='' @ v)"
  proof (clarify, intro conjI)
    fix k v
    assume "(k, v) \<in> set entries"
    with ok have kv: "variable_name k" "plain_value v" by auto
    show "CHR ''='' \<notin> set k" using variable_name_no_equals [OF kv(1)] by simp
    have "CR \<notin> set (k @ ''='' @ v)" "LF \<notin> set (k @ ''='' @ v)"
      using variable_name_no_equals [OF kv(1)] plain_value_line [OF kv(2)] by (auto simp: LF_def CR_def)
    then show "plain_line (k @ ''='' @ v)"
      unfolding plain_line_def using last_in_set by metis
  qed
  show "simple_environment (config_text entries) key = map_of entries key"
  proof (cases "CHR ''='' \<in> set key")
    case True
    with lines have "map_of entries key = None" by (auto simp: map_of_eq_None_iff)
    with True show ?thesis by (simp add: simple_environment_def)
  next
    case key: False
    show ?thesis
    proof (cases "entries = []")
      case True
      then show ?thesis by (simp add: simple_environment_def config_value_def config_text_def)
    next
      case False
      from config_roundtrip [OF lines False key] key show ?thesis by (simp add: simple_environment_def)
    qed
  qed
qed

theorem joined_machine_starts_as_itself_witness:
  "\<exists>config q.
      service_call simple_arguments Some (\<lambda>_. None) (simple_environment config) = Some (q, Some ''c'') \<and>
      no_controller q = ''http://c'' \<and> no_name q = ''n1'' \<and> no_cpu_millis q = 4000 \<and> no_memory_mib q = 8192 \<and>
      local_limit (node_settings_of q (V6 1)) = 3"
proof -
  let ?current = "''SCRAPERACK_NODE_CPU_MILLIS=4000'' @ [LF] @ ''SCRAPERACK_NODE_MEMORY_MIB=8192'' @ [LF] @
           ''SCRAPERACK_NODE_VM_START_CONCURRENCY=3''"
  let ?ji = "\<lparr>ji_hostname = Some ''h'', ji_config = Some ?current,
         ji_identity = Some 5, ji_controller_id = FileMissing, ji_credentials = Some (7, ''c'')\<rparr>"
  let ?args = "\<lparr>ja_controller = ''http://c/'', ja_token = ''t'', ja_name = Some ''n1'', ja_config_path = ''/etc/n'',
         ja_node_id_path = ''/d/node-id'', ja_data_dir = ''/d''\<rparr>"
  let ?parse = "\<lambda>s. if s = ''7'' then Some (7 :: uuid) else None"
  have ok: "join_run (\<lambda>i. ''7'') ?parse ?ji ?args = (fst (join_run (\<lambda>i. ''7'') ?parse ?ji ?args), None)"
    by code_simp
  have read: "config_value ?current CPU_MILLIS = Some ''4000''" "config_value ?current MEMORY_MIB = Some ''8192''"
    "config_value ?current CONCURRENCY = Some ''3''" "trim_slashes ''http://c/'' = ''http://c''"
    "trim ''7'' = ''7''" "plain_value ''c''" "plain_value ''http://c/''"
    by code_simp+
  have numbers: "parse_u32 ''4000'' = Some 4000" "parse_u32 ''8192'' = Some 8192" "parse_usize ''3'' = Some 3"
    by (simp_all add: parse_u32_def parse_usize_def parse_unsigned_def parse_digits_def is_digit_def digit_value_def)
  have old: "Option.bind (config_value ?current CPU_MILLIS) parse_u32 = Some 4000"
    "Option.bind (config_value ?current MEMORY_MIB) parse_u32 = Some 8192"
    "if_given parse_usize (config_value ?current CONCURRENCY) = Some (Some 3)"
    unfolding read by (simp_all add: numbers if_given_def)
  have p: "ji_config ?ji = Some ?current" "ji_hostname ?ji = Some ''h''"
    "''n1'' = (case ja_name ?args of Some n \<Rightarrow> n | None \<Rightarrow> trim ''h'')" "\<not> starts_with ''-'' ''n1''"
    "ji_credentials ?ji = Some (7, ''c'')" "''c'' \<noteq> []" "plain_value (ja_controller ?args)"
    "?parse (trim ((\<lambda>i::uuid. ''7'') 7)) = Some 7"
    by (simp_all add: read(4-7) starts_with_def)
  obtain config q where
    "service_call simple_arguments Some (\<lambda>_. None) (simple_environment config) = Some (q, Some ''c'')"
    "no_controller q = trim_slashes (ja_controller ?args)" "no_name q = ''n1''" "no_cpu_millis q = 4000"
    "no_memory_mib q = 8192"
    "local_limit (node_settings_of q (V6 1)) =
      max (case Some 3 of Some n \<Rightarrow> n | None \<Rightarrow> default_vm_start_concurrency 4000) 1"
    using joined_machine_starts_as_itself [OF ok p(1-4) old(1-3) p(5,6) read(6) p(7,8) simple_environment_reads
      simple_arguments_read, of Some "\<lambda>_. None" "V6 1" "\<lambda>_. None"] by (elim exE conjE)
  then show ?thesis
    by (intro exI [of _ config] exI [of _ q] conjI) (simp_all add: read(4))
qed

lemma default_paths:
  assumes "join_command opts = Some q" "opts ''config'' = None" "opts ''data-dir'' = None"
  shows "ja_config_path (join_arguments_of q) = ''/etc/scraperack/node.env'' \<and>
    ja_node_id_path (join_arguments_of q) = ''/var/lib/scraperack-node/node-id''"
  using assms by (auto simp: join_command_def join_arguments_of_def given_or_def split: option.splits)

end
